(* ===== verification/Prelude.thy ===== *)
theory Prelude
  imports Complex_Main "HOL-Library.AList" "HOL-Library.Sublist"
begin

text \<open>
  What every component of the model shares: the JavaScript values the TypeScript code
  computes with, the language's own string and number functions the code calls, and the
  lemmas about them.

  \<^item> A JavaScript string is the \<open>string\<close> of its UTF-8 bytes. Equality, concatenation,
    and splitting at an ASCII separator commute with that encoding; \<open>js_trim\<close> knows the
    encodings of every white space character ECMAScript strips.
  \<^item> A JavaScript number is an exact value: \<open>int\<close> where the code only ever holds an
    integer (every canonical field is a Go integer), \<open>rat\<close> where it holds a finite
    fraction, \<open>jsnum\<close> where NaN or an infinity can occur. Rounding to 53 bits of mantissa
    is not modelled.
  \<^item> A plain object used as a dictionary is an association list in insertion order,
    updated with \<open>AList.update\<close>, which keeps the place of a key that is present.
\<close>

named_theorems derive_defs "definitions to unfold when one family's alerts are inspected"
named_theorems reader_defs "definitions of the readers of canonical rows"

section \<open>Numbers\<close>

datatype jsnum = JNaN | JPosInf | JNegInf | JFin rat

definition js_of_int :: "int \<Rightarrow> jsnum" where
  "js_of_int n = JFin (of_int n)"

text \<open>The finite range of a double: at and past this bound a literal reads as infinity.\<close>

definition js_overflow :: rat where
  "js_overflow = 2 ^ 1024 - 2 ^ 970"

definition js_fin :: "rat \<Rightarrow> jsnum" where
  "js_fin r = (if js_overflow \<le> r then JPosInf
               else if r \<le> - js_overflow then JNegInf
               else JFin r)"

text \<open>\<open>Number.isFinite(x) ? x : null\<close>\<close>

fun js_finite :: "jsnum \<Rightarrow> rat option" where
  "js_finite (JFin r) = Some r"
| "js_finite _ = None"

text \<open>\<open>x > 0\<close>, false for NaN\<close>

fun js_positive :: "jsnum \<Rightarrow> bool" where
  "js_positive (JFin r) = (0 < r)"
| "js_positive JPosInf = True"
| "js_positive _ = False"

text \<open>\<open>Math.round\<close> rounds halves towards plus infinity.\<close>

definition js_round :: "rat \<Rightarrow> int" where
  "js_round x = \<lfloor>x + 1 / 2\<rfloor>"

lemma js_round_of_int [simp]: "js_round (of_int n) = n"
  by (simp add: js_round_def floor_eq_iff)

lemma js_round_mono: "x \<le> y \<Longrightarrow> js_round x \<le> js_round y"
  unfolding js_round_def by (rule floor_mono) simp

lemma js_round_nonneg: "0 \<le> x \<Longrightarrow> 0 \<le> js_round x"
  using js_round_mono [of 0 x] js_round_of_int [of 0] by simp

section \<open>Nullish values\<close>

text \<open>\<open>x ?? d\<close>\<close>

definition nullish :: "'a option \<Rightarrow> 'a \<Rightarrow> 'a" where
  "nullish x d = (case x of None \<Rightarrow> d | Some v \<Rightarrow> v)"

lemma nullish_simps [simp]: "nullish None d = d" "nullish (Some v) d = v"
  by (simp_all add: nullish_def)

text \<open>\<open>a || b\<close> on strings, and \<open>s || undefined\<close>\<close>

definition js_or :: "string \<Rightarrow> string \<Rightarrow> string" where
  "js_or a b = (if a = '''' then b else a)"

definition or_undefined :: "string \<Rightarrow> string option" where
  "or_undefined s = (if s = '''' then None else Some s)"

lemma js_or_nonempty: "b \<noteq> '''' \<Longrightarrow> js_or a b \<noteq> ''''"
  by (simp add: js_or_def)

section \<open>Strings\<close>

text \<open>The em dash the pages draw for a missing value, in UTF-8.\<close>

definition dash :: string where
  "dash = [CHR 0xE2, CHR 0x80, CHR 0x94]"

text \<open>The encodings of the characters \<open>String.prototype.trim\<close> removes.\<close>

definition js_whitespace :: "string list" where
  "js_whitespace =
     [[CHR 0x09], [CHR 0x0A], [CHR 0x0B], [CHR 0x0C], [CHR 0x0D], [CHR 0x20],
      [CHR 0xC2, CHR 0xA0], [CHR 0xE1, CHR 0x9A, CHR 0x80],
      [CHR 0xE2, CHR 0x80, CHR 0x80], [CHR 0xE2, CHR 0x80, CHR 0x81],
      [CHR 0xE2, CHR 0x80, CHR 0x82], [CHR 0xE2, CHR 0x80, CHR 0x83],
      [CHR 0xE2, CHR 0x80, CHR 0x84], [CHR 0xE2, CHR 0x80, CHR 0x85],
      [CHR 0xE2, CHR 0x80, CHR 0x86], [CHR 0xE2, CHR 0x80, CHR 0x87],
      [CHR 0xE2, CHR 0x80, CHR 0x88], [CHR 0xE2, CHR 0x80, CHR 0x89],
      [CHR 0xE2, CHR 0x80, CHR 0x8A], [CHR 0xE2, CHR 0x80, CHR 0xA8],
      [CHR 0xE2, CHR 0x80, CHR 0xA9], [CHR 0xE2, CHR 0x80, CHR 0xAF],
      [CHR 0xE2, CHR 0x81, CHR 0x9F], [CHR 0xE3, CHR 0x80, CHR 0x80],
      [CHR 0xEF, CHR 0xBB, CHR 0xBF]]"

text \<open>Strip every leading occurrence of one of the words \<open>ws\<close>.\<close>

function strip_words :: "string list \<Rightarrow> string \<Rightarrow> string" where
  "strip_words ws s =
     (case find (\<lambda>w. w \<noteq> [] \<and> prefix w s) ws of
        None \<Rightarrow> s
      | Some w \<Rightarrow> strip_words ws (drop (length w) s))"
  by pat_completeness auto
termination
proof (relation "measure (\<lambda>(ws, s). length s)")
  show "wf (measure (\<lambda>(ws :: string list, s :: string). length s))" by simp
next
  fix ws :: "string list" and s w :: string
  assume "find (\<lambda>w. w \<noteq> [] \<and> prefix w s) ws = Some w"
  then have "w \<noteq> []" and "prefix w s"
    by (auto simp: find_Some_iff)
  then have "0 < length w" and "length w \<le> length s"
    by (auto dest: prefix_length_le)
  then have "length s - length w < length s" by linarith
  then show "((ws, drop (length w) s), (ws, s)) \<in> measure (\<lambda>(ws, s). length s)"
    by simp
qed

declare strip_words.simps [simp del]

definition js_trim_start :: "string \<Rightarrow> string" where
  "js_trim_start s = strip_words js_whitespace s"

definition js_trim_end :: "string \<Rightarrow> string" where
  "js_trim_end s = rev (strip_words (map rev js_whitespace) (rev s))"

definition js_trim :: "string \<Rightarrow> string" where
  "js_trim s = js_trim_end (js_trim_start s)"

lemma strip_words_suffix: "suffix (strip_words ws s) s"
proof (induction ws s rule: strip_words.induct)
  case (1 ws s)
  show ?case
  proof (cases "find (\<lambda>w. w \<noteq> [] \<and> prefix w s) ws")
    case None
    then show ?thesis by (simp add: strip_words.simps [of ws s])
  next
    case (Some w)
    with "1.IH" have "suffix (strip_words ws (drop (length w) s)) (drop (length w) s)"
      by simp
    then have "suffix (strip_words ws (drop (length w) s)) s"
      by (rule suffix_order.trans) (rule suffix_drop)
    with Some show ?thesis by (simp add: strip_words.simps [of ws s])
  qed
qed

lemma strip_words_no_prefix:
  "w \<in> set ws \<Longrightarrow> w \<noteq> [] \<Longrightarrow> \<not> prefix w (strip_words ws s)"
proof (induction ws s rule: strip_words.induct)
  case (1 ws s)
  show ?case
  proof (cases "find (\<lambda>w. w \<noteq> [] \<and> prefix w s) ws")
    case None
    then have "strip_words ws s = s" by (simp add: strip_words.simps [of ws s])
    with None "1.prems" show ?thesis by (auto simp: find_None_iff)
  next
    case (Some v)
    with "1" show ?thesis by (simp add: strip_words.simps [of ws s])
  qed
qed

lemma strip_words_idem: "strip_words ws (strip_words ws s) = strip_words ws s"
proof -
  have "find (\<lambda>w. w \<noteq> [] \<and> prefix w (strip_words ws s)) ws = None"
    using strip_words_no_prefix by (auto simp: find_None_iff)
  then show ?thesis by (simp add: strip_words.simps [of ws "strip_words ws s"])
qed

lemma length_js_trim: "length (js_trim s) \<le> length s"
proof -
  have "length (strip_words ws t) \<le> length t" for ws t
    by (rule suffix_length_le) (rule strip_words_suffix)
  then show ?thesis
    unfolding js_trim_def js_trim_end_def js_trim_start_def
    by (metis length_rev order_trans)
qed

text \<open>\<open>s.split(c)\<close> for a one-character separator, and \<open>parts.join(sep)\<close>.\<close>

fun js_split :: "char \<Rightarrow> string \<Rightarrow> string list" where
  "js_split c [] = [[]]"
| "js_split c (x # xs) =
     (if x = c then [] # js_split c xs
      else (case js_split c xs of [] \<Rightarrow> [[x]] | y # ys \<Rightarrow> (x # y) # ys))"

fun js_join :: "string \<Rightarrow> string list \<Rightarrow> string" where
  "js_join sep [] = []"
| "js_join sep [x] = x"
| "js_join sep (x # y # ys) = x @ sep @ js_join sep (y # ys)"

lemma js_split_nonempty: "js_split c s \<noteq> []"
  by (induction s) (auto split: list.splits)

lemma js_split_no_sep: "p \<in> set (js_split c s) \<Longrightarrow> c \<notin> set p"
  by (induction s arbitrary: p) (auto split: list.splits if_splits)

lemma js_join_split: "js_join [c] (js_split c s) = s"
proof (induction s)
  case Nil
  then show ?case by simp
next
  case (Cons x xs)
  obtain y ys where ys: "js_split c xs = y # ys"
    using js_split_nonempty by (cases "js_split c xs") auto
  show ?case
  proof (cases "x = c")
    case True
    with Cons ys show ?thesis by simp
  next
    case False
    with Cons ys show ?thesis by (cases ys) auto
  qed
qed

lemma js_split_plain: "c \<notin> set s \<Longrightarrow> js_split c s = [s]"
  by (induction s) auto

lemma js_split_append_sep:
  "c \<notin> set p \<Longrightarrow> js_split c (p @ c # s) = p # js_split c s"
  by (induction p) (auto simp: js_split_nonempty split: list.splits)

lemma js_split_join:
  "ps \<noteq> [] \<Longrightarrow> \<forall>p \<in> set ps. c \<notin> set p \<Longrightarrow> js_split c (js_join [c] ps) = ps"
  by (induction "[c]" ps rule: js_join.induct) (auto simp: js_split_plain js_split_append_sep)

section \<open>Decimal numerals\<close>

text \<open>\<open>String(n)\<close> for an integer (below \<open>10 ^ 21\<close>, where JavaScript turns to exponents).\<close>

definition digit_char :: "nat \<Rightarrow> char" where
  "digit_char d = char_of (48 + d)"

fun show_nat :: "nat \<Rightarrow> string" where
  "show_nat n = (if n < 10 then [digit_char n] else show_nat (n div 10) @ [digit_char (n mod 10)])"

declare show_nat.simps [simp del]

definition show_int :: "int \<Rightarrow> string" where
  "show_int i = (if i < 0 then CHR ''-'' # show_nat (nat (- i)) else show_nat (nat i))"

definition is_digit :: "char \<Rightarrow> bool" where
  "is_digit c = (48 \<le> (of_char c :: nat) \<and> (of_char c :: nat) \<le> 57)"

definition digit_val :: "char \<Rightarrow> nat" where
  "digit_val c = of_char c - 48"

definition digits_val :: "string \<Rightarrow> nat" where
  "digits_val ds = foldl (\<lambda>n c. 10 * n + digit_val c) 0 ds"

lemma of_char_digit_char [simp]: "d < 10 \<Longrightarrow> (of_char (digit_char d) :: nat) = 48 + d"
  unfolding digit_char_def by (simp add: of_char_of)

lemma is_digit_digit_char [simp]: "d < 10 \<Longrightarrow> is_digit (digit_char d)"
  by (simp add: is_digit_def)

lemma digit_val_digit_char [simp]: "d < 10 \<Longrightarrow> digit_val (digit_char d) = d"
  by (simp add: digit_val_def)

lemma digits_val_snoc [simp]: "digits_val (ds @ [c]) = 10 * digits_val ds + digit_val c"
  by (simp add: digits_val_def)

lemma show_nat_nonempty [simp]: "show_nat n \<noteq> []"
  by (subst show_nat.simps) simp

lemma show_nat_digits: "c \<in> set (show_nat n) \<Longrightarrow> is_digit c"
proof (induction n rule: show_nat.induct)
  case (1 n)
  then show ?case
    by (cases "n < 10") (auto simp: show_nat.simps [of n])
qed

lemma digits_val_show_nat [simp]: "digits_val (show_nat n) = n"
proof (induction n rule: show_nat.induct)
  case (1 n)
  show ?case
  proof (cases "n < 10")
    case True
    then show ?thesis
      by (simp add: show_nat.simps [of n] digits_val_def)
  next
    case False
    with 1 show ?thesis by (simp add: show_nat.simps [of n])
  qed
qed

lemma show_nat_inj: "show_nat m = show_nat n \<longleftrightarrow> m = n"
  by (metis digits_val_show_nat)

lemma show_nat_hd: "is_digit (hd (show_nat n))"
  using show_nat_digits [of "hd (show_nat n)" n] by simp

lemma show_nat_no_minus: "hd (show_nat n) \<noteq> CHR ''-''"
  using show_nat_hd [of n] by (auto simp: is_digit_def)

lemma show_int_inj: "show_int i = show_int j \<longleftrightarrow> i = j"
proof
  assume eq: "show_int i = show_int j"
  show "i = j"
  proof (cases "i < 0"; cases "j < 0")
    assume "i < 0" "\<not> j < 0"
    with eq have "CHR ''-'' # show_nat (nat (- i)) = show_nat (nat j)"
      by (simp add: show_int_def)
    then have "hd (show_nat (nat j)) = CHR ''-''" by (metis list.sel(1))
    then show ?thesis by (simp add: show_nat_no_minus)
  next
    assume "\<not> i < 0" "j < 0"
    with eq have "CHR ''-'' # show_nat (nat (- j)) = show_nat (nat i)"
      by (simp add: show_int_def)
    then have "hd (show_nat (nat i)) = CHR ''-''" by (metis list.sel(1))
    then show ?thesis by (simp add: show_nat_no_minus)
  qed (use eq in \<open>auto simp: show_int_def show_nat_inj\<close>)
qed simp

lemma show_int_chars: "c \<in> set (show_int i) \<Longrightarrow> is_digit c \<or> c = CHR ''-''"
  by (auto simp: show_int_def show_nat_digits split: if_splits)

lemma show_int_no_colon: "CHR '':'' \<notin> set (show_int i)"
  using show_int_chars [of "CHR '':''" i] by (auto simp: is_digit_def)

lemma show_int_nonempty [simp]: "show_int i \<noteq> []"
  by (simp add: show_int_def)

lemma show_int_not_dash [simp]: "show_int i @ zs \<noteq> dash" "show_int i \<noteq> dash"
proof -
  obtain c cs where c: "show_int i = c # cs"
    by (cases "show_int i") simp_all
  then have "is_digit c \<or> c = CHR ''-''" using show_int_chars [of c i] by simp
  then have "c \<noteq> CHR 0xE2" by (auto simp: is_digit_def)
  with c show "show_int i @ zs \<noteq> dash" "show_int i \<noteq> dash" by (auto simp: dash_def)
qed

text \<open>\<open>Number.parseInt(s, 10)\<close>: \<open>None\<close> is NaN.\<close>

definition parse_int10 :: "string \<Rightarrow> int option" where
  "parse_int10 s =
     (let t = js_trim_start s;
          neg = (t \<noteq> [] \<and> hd t = CHR ''-'');
          u = (if t \<noteq> [] \<and> (hd t = CHR ''-'' \<or> hd t = CHR ''+'') then tl t else t);
          ds = takeWhile is_digit u
      in if ds = [] then None
         else Some (if neg then - int (digits_val ds) else int (digits_val ds)))"

text \<open>
  The longest prefix that is an unsigned decimal literal, with what follows it:
  digits, an optional fraction, an optional exponent.
\<close>

definition parse_exponent :: "string \<Rightarrow> int \<times> string" where
  "parse_exponent s =
     (if s = [] \<or> (hd s \<noteq> CHR ''e'' \<and> hd s \<noteq> CHR ''E'') then (0, s)
      else let t = tl s;
               neg = (t \<noteq> [] \<and> hd t = CHR ''-'');
               u = (if t \<noteq> [] \<and> (hd t = CHR ''-'' \<or> hd t = CHR ''+'') then tl t else t);
               ds = takeWhile is_digit u
           in if ds = [] then (0, s)
              else (if neg then - int (digits_val ds) else int (digits_val ds),
                    dropWhile is_digit u))"

definition scale10 :: "rat \<Rightarrow> int \<Rightarrow> rat" where
  "scale10 m e = (if 0 \<le> e then m * 10 ^ nat e else m / 10 ^ nat (- e))"

definition parse_decimal :: "string \<Rightarrow> (rat \<times> string) option" where
  "parse_decimal s =
     (let i = takeWhile is_digit s; r1 = dropWhile is_digit s;
          dot = (r1 \<noteq> [] \<and> hd r1 = CHR ''.'');
          f = (if dot then takeWhile is_digit (tl r1) else []);
          r2 = (if dot then dropWhile is_digit (tl r1) else r1)
      in if i = [] \<and> f = [] then None
         else let m = of_nat (digits_val (i @ f)) / 10 ^ length f; (e, r3) = parse_exponent r2
              in Some (scale10 m e, r3))"

definition infinity_word :: string where
  "infinity_word = ''Infinity''"

text \<open>\<open>Number.parseFloat(s)\<close>\<close>

definition parse_float :: "string \<Rightarrow> jsnum" where
  "parse_float s =
     (let t = js_trim_start s;
          neg = (t \<noteq> [] \<and> hd t = CHR ''-'');
          u = (if t \<noteq> [] \<and> (hd t = CHR ''-'' \<or> hd t = CHR ''+'') then tl t else t)
      in if prefix infinity_word u then (if neg then JNegInf else JPosInf)
         else (case parse_decimal u of
                 None \<Rightarrow> JNaN
               | Some (m, _) \<Rightarrow> js_fin (if neg then - m else m)))"

text \<open>\<open>Number(s)\<close>: the whole trimmed text has to be a literal, and an empty one is 0.\<close>

definition radix_digit :: "char \<Rightarrow> nat option" where
  "radix_digit c =
     (let n = of_char c in
      if 48 \<le> n \<and> n \<le> 57 then Some (n - 48)
      else if 97 \<le> n \<and> n \<le> 102 then Some (n - 87)
      else if 65 \<le> n \<and> n \<le> 70 then Some (n - 55)
      else None)"

fun radix_val :: "nat \<Rightarrow> nat \<Rightarrow> string \<Rightarrow> nat option" where
  "radix_val b acc [] = Some acc"
| "radix_val b acc (c # cs) =
     (case radix_digit c of
        None \<Rightarrow> None
      | Some d \<Rightarrow> if d < b then radix_val b (b * acc + d) cs else None)"

definition radix_of :: "char \<Rightarrow> nat option" where
  "radix_of c =
     (if c = CHR ''x'' \<or> c = CHR ''X'' then Some 16
      else if c = CHR ''o'' \<or> c = CHR ''O'' then Some 8
      else if c = CHR ''b'' \<or> c = CHR ''B'' then Some 2
      else None)"

definition signed_decimal :: "string \<Rightarrow> jsnum" where
  "signed_decimal t =
     (let neg = (hd t = CHR ''-'');
          u = (if hd t = CHR ''-'' \<or> hd t = CHR ''+'' then tl t else t)
      in if u = infinity_word then (if neg then JNegInf else JPosInf)
         else (case parse_decimal u of
                 Some (m, []) \<Rightarrow> js_fin (if neg then - m else m)
               | _ \<Rightarrow> JNaN))"

definition js_Number :: "string \<Rightarrow> jsnum" where
  "js_Number s =
     (let t = js_trim s in
      if t = [] then JFin 0
      else case t of
        CHR ''0'' # c # ds \<Rightarrow>
          (case radix_of c of
             None \<Rightarrow> signed_decimal t
           | Some b \<Rightarrow>
               if ds = [] then JNaN
               else (case radix_val b 0 ds of None \<Rightarrow> JNaN | Some n \<Rightarrow> js_fin (of_nat n)))
      | _ \<Rightarrow> signed_decimal t)"

text \<open>Decimal numerals are read back: no white space to strip, no sign, no radix prefix.\<close>

lemma strip_words_digits:
  assumes digits: "\<forall>c \<in> set t. is_digit c" and words: "\<forall>w \<in> set ws. w = [] \<or> \<not> is_digit (hd w)"
  shows "strip_words ws t = t"
proof -
  have "\<not> (w \<noteq> [] \<and> prefix w t)" if "w \<in> set ws" for w
  proof
    assume w: "w \<noteq> [] \<and> prefix w t"
    then have "hd w \<in> set t" by (auto simp: prefix_def)
    with digits words w that show False by auto
  qed
  then have "find (\<lambda>w. w \<noteq> [] \<and> prefix w t) ws = None"
    by (auto simp: find_None_iff)
  then show ?thesis by (simp add: strip_words.simps [of ws t])
qed

lemma js_whitespace_not_digit:
  "w \<in> set js_whitespace \<Longrightarrow> \<not> is_digit (hd w) \<and> \<not> is_digit (hd (rev w))"
  by (auto simp: js_whitespace_def is_digit_def)

lemma js_trim_start_show_nat [simp]: "js_trim_start (show_nat n) = show_nat n"
  unfolding js_trim_start_def
  by (rule strip_words_digits) (auto dest: show_nat_digits js_whitespace_not_digit)

lemma js_trim_show_nat [simp]: "js_trim (show_nat n) = show_nat n"
proof -
  have "strip_words (map rev js_whitespace) (rev (show_nat n)) = rev (show_nat n)"
    by (rule strip_words_digits) (auto dest: show_nat_digits js_whitespace_not_digit)
  then show ?thesis by (simp add: js_trim_def js_trim_end_def)
qed

lemma takeWhile_show_nat [simp]: "takeWhile is_digit (show_nat n) = show_nat n"
  by (auto simp: takeWhile_eq_all_conv show_nat_digits simp del: takeWhile_eq_all_conv
      intro!: takeWhile_eq_all_conv [THEN iffD2])

lemma dropWhile_show_nat [simp]: "dropWhile is_digit (show_nat n) = []"
  by (simp add: dropWhile_eq_Nil_conv show_nat_digits)

lemma show_nat_no_sign:
  "hd (show_nat n) \<noteq> CHR ''-''" "hd (show_nat n) \<noteq> CHR ''+''"
  using show_nat_hd [of n] by (auto simp: is_digit_def)

lemma parse_int10_show_nat [simp]: "parse_int10 (show_nat n) = Some (int n)"
  by (simp add: parse_int10_def show_nat_no_sign Let_def)

lemma js_fin_of_nat:
  assumes "n < 10 ^ 15"
  shows "js_fin (of_nat n) = JFin (of_nat n)"
proof -
  have "(of_nat n :: rat) < of_nat (10 ^ 15)" using assms by (simp only: of_nat_less_iff)
  moreover have "(of_nat (10 ^ 15) :: rat) \<le> js_overflow" by (simp add: js_overflow_def)
  ultimately have "(of_nat n :: rat) < js_overflow" by linarith
  moreover have "- js_overflow < (of_nat n :: rat)"
  proof -
    have "- js_overflow < (0 :: rat)" by (simp add: js_overflow_def)
    then show ?thesis by (rule less_le_trans) simp
  qed
  ultimately show ?thesis by (simp add: js_fin_def)
qed

lemma parse_decimal_show_nat: "parse_decimal (show_nat n) = Some (of_nat n, [])"
  by (simp add: parse_decimal_def parse_exponent_def scale10_def Let_def)

lemma show_nat_not_infinity: "\<not> prefix infinity_word (show_nat n)"
proof
  assume "prefix infinity_word (show_nat n)"
  then have "hd (show_nat n) = hd infinity_word" by (auto simp: prefix_def infinity_word_def)
  then have "is_digit (hd infinity_word)" using show_nat_hd [of n] by simp
  then show False by (simp add: is_digit_def infinity_word_def)
qed

lemma parse_float_show_nat:
  "n < 10 ^ 15 \<Longrightarrow> parse_float (show_nat n) = JFin (of_nat n)"
  by (simp add: parse_float_def parse_decimal_show_nat show_nat_not_infinity show_nat_no_sign
      js_fin_of_nat Let_def)

lemma signed_decimal_show_nat: "signed_decimal (show_nat n) = js_fin (of_nat n)"
proof -
  have "show_nat n \<noteq> infinity_word" using show_nat_not_infinity [of n] by auto
  then show ?thesis
    by (simp add: signed_decimal_def parse_decimal_show_nat show_nat_no_sign Let_def)
qed

lemma radix_of_digit: "is_digit c \<Longrightarrow> radix_of c = None"
  by (auto simp: radix_of_def is_digit_def)

lemma js_Number_show_nat:
  assumes "n < 10 ^ 15"
  shows "js_Number (show_nat n) = JFin (of_nat n)"
proof -
  have "js_Number (show_nat n) = signed_decimal (show_nat n)"
  proof (cases "\<exists>c cs. show_nat n = CHR ''0'' # c # cs")
    case True
    then obtain c cs where c: "show_nat n = CHR ''0'' # c # cs" by blast
    then have "c \<in> set (show_nat n)" by simp
    then have "radix_of c = None" by (rule radix_of_digit [OF show_nat_digits])
    with c have "js_Number (CHR ''0'' # c # cs) = signed_decimal (CHR ''0'' # c # cs)"
      using js_trim_show_nat [of n] by (simp add: js_Number_def Let_def)
    with c show ?thesis by simp
  next
    case False
    obtain x xs where x: "show_nat n = x # xs" by (cases "show_nat n") simp_all
    with False have no: "\<And>c cs. x # xs \<noteq> CHR ''0'' # c # cs" by metis
    then have "js_Number (x # xs) = signed_decimal (x # xs)"
      using x js_trim_show_nat [of n]
      by (auto simp: js_Number_def Let_def split: list.splits char.splits bool.splits)
    with x show ?thesis by simp
  qed
  with assms show ?thesis by (simp add: signed_decimal_show_nat js_fin_of_nat)
qed

section \<open>Trimming and splitting in Go\<close>

text \<open>The encodings of the characters \<open>unicode.IsSpace\<close> holds for.\<close>

definition go_whitespace :: "string list" where
  "go_whitespace = [CHR 0xC2, CHR 0x85] # filter (\<lambda>w. w \<noteq> [CHR 0xEF, CHR 0xBB, CHR 0xBF]) js_whitespace"

text \<open>\<open>strings.TrimSpace\<close> and \<open>strings.Fields\<close>\<close>

definition go_trim :: "string \<Rightarrow> string" where
  "go_trim s = rev (strip_words (map rev go_whitespace) (rev (strip_words go_whitespace s)))"

fun word_until :: "string list \<Rightarrow> string \<Rightarrow> string \<times> string" where
  "word_until ws [] = ([], [])"
| "word_until ws (c # cs) =
     (if list_ex (\<lambda>w. w \<noteq> [] \<and> prefix w (c # cs)) ws then ([], c # cs)
      else (let (w, rest) = word_until ws cs in (c # w, rest)))"

lemma word_until_append: "word_until ws s = (w, rest) \<Longrightarrow> s = w @ rest"
  by (induction ws s arbitrary: w rest rule: word_until.induct)
    (auto split: if_splits prod.splits)

function go_fields :: "string \<Rightarrow> string list" where
  "go_fields s =
     (let t = strip_words go_whitespace s in
      if t = [] then []
      else (let (w, rest) = word_until go_whitespace t in
            if w = [] then [] else w # go_fields rest))"
  by pat_completeness auto
termination
proof (relation "measure length")
  fix s t wr w rest
  assume t: "t = strip_words go_whitespace s" and wr: "wr = word_until go_whitespace t"
    and "(w, rest) = wr" and "w \<noteq> []"
  then have "t = w @ rest" by (auto dest!: word_until_append sym [of "(w, rest)"])
  then have "length rest < length t" using \<open>w \<noteq> []\<close> by simp
  also have "length t \<le> length s" unfolding t by (rule suffix_length_le) (rule strip_words_suffix)
  finally show "(rest, s) \<in> measure length" by simp
qed simp

declare go_fields.simps [simp del]

text \<open>\<open>strconv.Atoi\<close>, on 64 bits\<close>

definition go_Atoi :: "string \<Rightarrow> int option" where
  "go_Atoi s =
     (let neg = prefix ''-'' s; digits = (if neg \<or> prefix ''+'' s then drop 1 s else s);
          n = (if neg then - int (digits_val digits) else int (digits_val digits))
      in if digits = [] \<or> \<not> list_all is_digit digits \<or> n < - (2 ^ 63) \<or> n \<ge> 2 ^ 63 then None
         else Some n)"

section \<open>Searching a list\<close>

text \<open>\<open>findIndex\<close>, with \<open>None\<close> for -1\<close>

fun find_index :: "('a \<Rightarrow> bool) \<Rightarrow> 'a list \<Rightarrow> nat option" where
  "find_index p [] = None"
| "find_index p (x # xs) = (if p x then Some 0 else map_option Suc (find_index p xs))"

lemma find_index_None: "find_index p xs = None \<longleftrightarrow> \<not> (\<exists>x \<in> set xs. p x)"
  by (induction xs) auto

lemma find_index_Some: "find_index p xs = Some n \<Longrightarrow> n < length xs \<and> p (xs ! n)"
  by (induction xs arbitrary: n) (auto split: if_splits)

lemma find_index_map: "find_index p (map f xs) = find_index (\<lambda>x. p (f x)) xs"
  by (induction xs) auto

section \<open>Dictionaries in insertion order\<close>

lemma map_of_update [simp]: "map_of (AList.update k v al) = (map_of al)(k \<mapsto> v)"
  by (rule update_conv')

lemma keys_update:
  "fst ` set (AList.update k v al) = insert k (fst ` set al)"
  by (simp add: dom_update)

lemma update_new: "k \<notin> fst ` set al \<Longrightarrow> AList.update k v al = al @ [(k, v)]"
  by (induction al) auto

lemma in_update_cases:
  "distinct (map fst al) \<Longrightarrow>
   (x, y) \<in> set (AList.update k v al) \<longleftrightarrow> (x = k \<and> y = v) \<or> (x \<noteq> k \<and> (x, y) \<in> set al)"
  by (induction al) (auto simp: image_iff)

section \<open>Stable sorting\<close>

text \<open>
  \<open>Array.prototype.sort\<close> is stable, so a comparator that compares one key sorts as
  \<open>sort_key\<close> does.
\<close>

lemma sort_key_sorted: "sorted (map f (sort_key f xs))"
  by simp

lemma sort_key_filter_class:
  "filter (\<lambda>x. f x = k) (sort_key f xs) = filter (\<lambda>x. f x = k) xs"
  by (rule sort_key_stable)

end
