(* ===== verification/Canonical.thy ===== *)
theory Canonical
  imports Prelude
begin

text \<open>
  The canonical rows every broker family reports (frontend/bindings/.../model/models.ts,
  generated from the Go structs of internal/model), and the readers of their attribute
  bags that the family modules under frontend/src/mq each carry a copy of.

  A numeric field is an \<open>int\<close>: the Go side declares every one of them as an integer, and
  -1 stands for a figure no broker reported. The attribute bag is the list of its
  entries; an absent key and a null bag are both a failed lookup.
\<close>

datatype mq_kind =
    KindZero | KindRocketMQ | KindKafka | KindRabbitMQ | KindPulsar | KindActiveMQ
  | KindRedisStream | KindNATS | KindNSQ | KindMQTT | KindSQS | KindGooglePubSub
  | KindAzureServiceBus | KindKinesis | KindIBMMQ | KindSolace

datatype node_status = NodeZero | NodeOnline | NodeWarning | NodeOffline | NodeUnknown

datatype subscription_status =
  SubscriptionZero | SubscriptionOnline | SubscriptionWarning | SubscriptionOffline

type_synonym attrs = "(string \<times> string) list"

record node =
  node_id :: int
  node_name :: string
  node_address :: string
  node_cluster :: string
  node_version :: string
  node_status :: node_status
  node_rateIn :: int
  node_rateOut :: int
  node_diskUsage :: int
  node_lastSeen :: string
  node_tpsHistoryTimestamps :: "int list"
  node_tpsInHistory :: "int list"
  node_tpsOutHistory :: "int list"
  node_attributes :: attrs

text \<open>\<open>DestinationRef\<close> and \<open>SubscriptionRef\<close> have the same two fields.\<close>

record obj_ref =
  ref_namespace :: string
  ref_name :: string

record destination =
  dest_id :: int
  dest_ref :: obj_ref
  dest_partitions :: int
  dest_subscribers :: int
  dest_depth :: int
  dest_rateIn :: int
  dest_rateOut :: int
  dest_lastUpdated :: string
  dest_attributes :: attrs

record subscription =
  sub_id :: int
  sub_ref :: obj_ref
  sub_status :: subscription_status
  sub_members :: int
  sub_destinations :: int
  sub_backlog :: int
  sub_rateOut :: int
  sub_lastUpdated :: string
  sub_attributes :: attrs

record client_connection =
  conn_name :: string
  conn_clientName :: string
  conn_namespace :: string
  conn_user :: string
  conn_node :: string
  conn_peerHost :: string
  conn_peerPort :: int
  conn_protocol :: string
  conn_state :: string
  conn_channels :: int
  conn_tls :: bool
  conn_cipher :: string
  conn_heartbeatSec :: int
  conn_recvBytes :: int
  conn_sendBytes :: int
  conn_recvByteRate :: rat
  conn_sendByteRate :: rat
  conn_connectedAtMs :: int
  conn_blockedBy :: string
  conn_attributes :: attrs

text \<open>
  The fields no rule of any family reads, with neutral values: the rows of the concrete
  inputs below are updates of these.
\<close>

definition blank_node :: node where
  "blank_node =
     \<lparr>node_id = 0, node_name = '''', node_address = '''', node_cluster = '''',
      node_version = '''', node_status = NodeOnline, node_rateIn = -1, node_rateOut = -1,
      node_diskUsage = -1, node_lastSeen = '''', node_tpsHistoryTimestamps = [],
      node_tpsInHistory = [], node_tpsOutHistory = [], node_attributes = []\<rparr>"

definition blank_destination :: destination where
  "blank_destination =
     \<lparr>dest_id = 0, dest_ref = \<lparr>ref_namespace = '''', ref_name = ''''\<rparr>, dest_partitions = -1,
      dest_subscribers = -1, dest_depth = -1, dest_rateIn = -1, dest_rateOut = -1,
      dest_lastUpdated = '''', dest_attributes = []\<rparr>"

definition blank_subscription :: subscription where
  "blank_subscription =
     \<lparr>sub_id = 0, sub_ref = \<lparr>ref_namespace = '''', ref_name = ''''\<rparr>,
      sub_status = SubscriptionOnline, sub_members = 0, sub_destinations = 0,
      sub_backlog = -1, sub_rateOut = -1, sub_lastUpdated = '''', sub_attributes = []\<rparr>"

definition blank_connection :: client_connection where
  "blank_connection =
     \<lparr>conn_name = '''', conn_clientName = '''', conn_namespace = '''', conn_user = '''',
      conn_node = '''', conn_peerHost = '''', conn_peerPort = 0, conn_protocol = '''',
      conn_state = '''', conn_channels = 0, conn_tls = False, conn_cipher = '''',
      conn_heartbeatSec = 0, conn_recvBytes = 0, conn_sendBytes = 0, conn_recvByteRate = 0,
      conn_sendByteRate = 0, conn_connectedAtMs = 0, conn_blockedBy = '''',
      conn_attributes = []\<rparr>"

definition ref_of :: "string \<Rightarrow> string \<Rightarrow> obj_ref" where
  "ref_of ns n = \<lparr>ref_namespace = ns, ref_name = n\<rparr>"

lemma ref_of_simps [simp]:
  "ref_namespace (ref_of ns n) = ns" "ref_name (ref_of ns n) = n"
  by (simp_all add: ref_of_def)

abbreviation dest_name :: "destination \<Rightarrow> string" where
  "dest_name d \<equiv> ref_name (dest_ref d)"

abbreviation dest_namespace :: "destination \<Rightarrow> string" where
  "dest_namespace d \<equiv> ref_namespace (dest_ref d)"

abbreviation sub_name :: "subscription \<Rightarrow> string" where
  "sub_name s \<equiv> ref_name (sub_ref s)"

abbreviation sub_namespace :: "subscription \<Rightarrow> string" where
  "sub_namespace s \<equiv> ref_namespace (sub_ref s)"

section \<open>Attribute bags\<close>

text \<open>
  The two readings the family modules use: \<open>attr_str\<close> is \<open>attributes?.[key] ?? ""\<close>, and
  \<open>attr_text\<close> reads an absent and an empty attribute both as null.
\<close>

definition attr_str :: "attrs \<Rightarrow> string \<Rightarrow> string" where
  "attr_str as k = nullish (map_of as k) ''''"

definition attr_text :: "attrs \<Rightarrow> string \<Rightarrow> string option" where
  "attr_text as k = (case map_of as k of None \<Rightarrow> None | Some v \<Rightarrow> if v = '''' then None else Some v)"

text \<open>
  The counters: \<open>attr_int\<close> parses with \<open>parseInt\<close> and reads NaN as null, \<open>attr_count\<close>
  falls back to a default, \<open>attr_number\<close> parses with \<open>Number\<close> and reads a value that is
  not finite as null.
\<close>

definition attr_int :: "attrs \<Rightarrow> string \<Rightarrow> int option" where
  "attr_int as k = (case attr_text as k of None \<Rightarrow> None | Some raw \<Rightarrow> parse_int10 raw)"

definition attr_count :: "attrs \<Rightarrow> string \<Rightarrow> int \<Rightarrow> int" where
  "attr_count as k fallback = nullish (parse_int10 (attr_str as k)) fallback"

definition attr_number :: "attrs \<Rightarrow> string \<Rightarrow> rat option" where
  "attr_number as k = (case attr_text as k of None \<Rightarrow> None | Some raw \<Rightarrow> js_finite (js_Number raw))"

definition attr_bool :: "attrs \<Rightarrow> string \<Rightarrow> bool option" where
  "attr_bool as k = map_option (\<lambda>v. v = ''true'') (attr_text as k)"

definition attr_is_true :: "attrs \<Rightarrow> string \<Rightarrow> bool" where
  "attr_is_true as k = (attr_str as k = ''true'')"

text \<open>A comma-separated attribute, with and without the empty parts dropped.\<close>

definition attr_list :: "attrs \<Rightarrow> string \<Rightarrow> string list" where
  "attr_list as k = (case attr_text as k of None \<Rightarrow> [] | Some raw \<Rightarrow> js_split (CHR '','') raw)"

definition attr_list_nonempty :: "attrs \<Rightarrow> string \<Rightarrow> string list" where
  "attr_list_nonempty as k = filter (\<lambda>p. p \<noteq> '''') (attr_list as k)"

text \<open>A canonical metric: -1 on the wire means there is no such figure.\<close>

definition metric :: "int \<Rightarrow> int option" where
  "metric v = (if v < 0 then None else Some v)"

lemma attr_text_nonempty: "attr_text as k = Some v \<Longrightarrow> v \<noteq> ''''"
  by (auto simp: attr_text_def split: option.splits if_splits)

lemma attr_text_or_str: "nullish (attr_text as k) '''' = attr_str as k"
  by (auto simp: attr_text_def attr_str_def split: option.splits)

lemma attr_is_true_text: "attr_is_true as k \<longleftrightarrow> attr_text as k = Some ''true''"
  by (auto simp: attr_is_true_def attr_str_def attr_text_def nullish_def split: option.splits)

lemma parse_int10_Nil [simp]: "parse_int10 '''' = None"
proof -
  have "find (\<lambda>w. w \<noteq> [] \<and> prefix w []) js_whitespace = None"
    by (auto simp: find_None_iff)
  then show ?thesis
    by (simp add: parse_int10_def js_trim_start_def strip_words.simps [of js_whitespace "[]"])
qed

lemma attr_count_int: "attr_count as k d = nullish (attr_int as k) d"
  by (auto simp: attr_count_def attr_int_def attr_str_def attr_text_def split: option.splits)

lemma metric_Some: "metric v = Some w \<longleftrightarrow> 0 \<le> v \<and> w = v"
  by (auto simp: metric_def)

lemma attr_list_parts: "p \<in> set (attr_list as k) \<Longrightarrow> CHR '','' \<notin> set p"
  by (auto simp: attr_list_def dest: js_split_no_sep split: option.splits)

end
