(* ===== verification/AlertRules.thy ===== *)
theory AlertRules
  imports Canonical
begin

text \<open>
  frontend/src/lib/alertRules.ts: the rule keys, which family offers which of them, which
  rules read a destination listing and which families the sweep fetches one for; and the
  stored switches of frontend/src/hooks/useAlertRules.ts.
\<close>

datatype alert_rule_key =
    BrokerOffline | GroupOffline | GroupLag | DiskUsage | DlqGrowth | ResourceAlarm
  | NodePartition | MemoryUsage | QueueBacklog | QueueNoConsumer | FlowControl
  | PartitionUnderReplicated | PartitionOffline | PartitionLeaderless
  | SubscriptionBlocked | StreamNoLeader | StreamUnderReplicated | SlowConsumer
  | DeliveryPaused | TopicUnsubscribed | SubscriptionOrphaned | SubscriptionUnroutable
  | EntityDisabled | StreamNotActive | ConsumerNotActive | TransmissionBacklog
  | DeadMsgQueueMissing

text \<open>A switch per rule: \<open>Record<AlertRuleKey, boolean>\<close>.\<close>

type_synonym alert_rule_prefs = "alert_rule_key \<Rightarrow> bool"

definition ALERT_RULE_KEYS :: "alert_rule_key list" where
  "ALERT_RULE_KEYS =
     [BrokerOffline, StreamNoLeader, DeliveryPaused, TopicUnsubscribed,
      SubscriptionOrphaned, SubscriptionUnroutable, EntityDisabled, StreamNotActive,
      ConsumerNotActive, TransmissionBacklog, DeadMsgQueueMissing, SubscriptionBlocked,
      ResourceAlarm, NodePartition, PartitionLeaderless, PartitionOffline,
      PartitionUnderReplicated, StreamUnderReplicated, GroupOffline, QueueNoConsumer,
      GroupLag, QueueBacklog, DiskUsage, MemoryUsage, FlowControl, SlowConsumer, DlqGrowth]"

text \<open>A family that is not listed has no entry of its own.\<close>

fun RULES_BY_KIND :: "mq_kind \<Rightarrow> alert_rule_key list option" where
  "RULES_BY_KIND KindKafka =
     Some [BrokerOffline, PartitionLeaderless, PartitionOffline, PartitionUnderReplicated,
           GroupOffline, GroupLag]"
| "RULES_BY_KIND KindPulsar = Some [SubscriptionBlocked, GroupOffline, GroupLag, MemoryUsage]"
| "RULES_BY_KIND KindActiveMQ =
     Some [QueueNoConsumer, QueueBacklog, DiskUsage, MemoryUsage, DlqGrowth]"
| "RULES_BY_KIND KindRabbitMQ =
     Some [BrokerOffline, ResourceAlarm, NodePartition, QueueNoConsumer, QueueBacklog,
           DiskUsage, MemoryUsage, FlowControl]"
| "RULES_BY_KIND KindNATS =
     Some [StreamNoLeader, GroupOffline, StreamUnderReplicated, GroupLag, SlowConsumer]"
| "RULES_BY_KIND KindRedisStream =
     Some [BrokerOffline, ResourceAlarm, MemoryUsage, GroupOffline, GroupLag]"
| "RULES_BY_KIND KindNSQ = Some [DeliveryPaused, GroupOffline, QueueNoConsumer, GroupLag]"
| "RULES_BY_KIND KindSQS = Some [DlqGrowth, QueueBacklog]"
| "RULES_BY_KIND KindGooglePubSub = Some [TopicUnsubscribed, SubscriptionOrphaned]"
| "RULES_BY_KIND KindAzureServiceBus =
     Some [TopicUnsubscribed, SubscriptionUnroutable, EntityDisabled, DlqGrowth]"
| "RULES_BY_KIND KindKinesis = Some [StreamNotActive, ConsumerNotActive]"
| "RULES_BY_KIND KindIBMMQ =
     Some [TransmissionBacklog, EntityDisabled, QueueNoConsumer, QueueBacklog, DlqGrowth]"
| "RULES_BY_KIND KindSolace =
     Some [DeadMsgQueueMissing, EntityDisabled, QueueNoConsumer, QueueBacklog, DlqGrowth,
           DiskUsage]"
| "RULES_BY_KIND _ = None"

definition ROCKETMQ_RULES :: "alert_rule_key list" where
  "ROCKETMQ_RULES = [BrokerOffline, GroupOffline, GroupLag, DiskUsage, DlqGrowth]"

definition rulesFor :: "mq_kind option \<Rightarrow> alert_rule_key list" where
  "rulesFor kind =
     (case kind of
        None \<Rightarrow> ALERT_RULE_KEYS
      | Some k \<Rightarrow> nullish (RULES_BY_KIND k) ROCKETMQ_RULES)"

definition DESTINATION_RULES :: "alert_rule_key list" where
  "DESTINATION_RULES =
     [DeliveryPaused, TopicUnsubscribed, EntityDisabled, StreamNotActive,
      TransmissionBacklog, DeadMsgQueueMissing, QueueNoConsumer, QueueBacklog, DlqGrowth,
      PartitionLeaderless, PartitionOffline, PartitionUnderReplicated, StreamNoLeader,
      StreamUnderReplicated]"

definition all_kinds :: "mq_kind list" where
  "all_kinds =
     [KindZero, KindRocketMQ, KindKafka, KindRabbitMQ, KindPulsar, KindActiveMQ,
      KindRedisStream, KindNATS, KindNSQ, KindMQTT, KindSQS, KindGooglePubSub,
      KindAzureServiceBus, KindKinesis, KindIBMMQ, KindSolace]"

text \<open>\<open>Object.keys(RULES_BY_KIND)\<close>, in the order of the object literal.\<close>

definition KINDS_WITH_OWN_RULES :: "mq_kind list" where
  "KINDS_WITH_OWN_RULES =
     [KindKafka, KindPulsar, KindActiveMQ, KindRabbitMQ, KindNATS, KindRedisStream, KindNSQ,
      KindSQS, KindGooglePubSub, KindAzureServiceBus, KindKinesis, KindIBMMQ, KindSolace]"

definition KINDS_NEEDING_DESTINATIONS :: "mq_kind list" where
  "KINDS_NEEDING_DESTINATIONS =
     [KindRabbitMQ, KindKafka, KindNATS, KindActiveMQ, KindNSQ, KindSQS, KindGooglePubSub,
      KindAzureServiceBus, KindKinesis, KindIBMMQ, KindSolace]"

text \<open>Every switch defaults to on.\<close>

fun DEFAULT_ALERT_RULES :: alert_rule_prefs where
  "DEFAULT_ALERT_RULES BrokerOffline = True"
| "DEFAULT_ALERT_RULES GroupOffline = True"
| "DEFAULT_ALERT_RULES GroupLag = True"
| "DEFAULT_ALERT_RULES DiskUsage = True"
| "DEFAULT_ALERT_RULES DlqGrowth = True"
| "DEFAULT_ALERT_RULES ResourceAlarm = True"
| "DEFAULT_ALERT_RULES NodePartition = True"
| "DEFAULT_ALERT_RULES MemoryUsage = True"
| "DEFAULT_ALERT_RULES QueueBacklog = True"
| "DEFAULT_ALERT_RULES QueueNoConsumer = True"
| "DEFAULT_ALERT_RULES FlowControl = True"
| "DEFAULT_ALERT_RULES SubscriptionBlocked = True"
| "DEFAULT_ALERT_RULES PartitionUnderReplicated = True"
| "DEFAULT_ALERT_RULES PartitionOffline = True"
| "DEFAULT_ALERT_RULES PartitionLeaderless = True"
| "DEFAULT_ALERT_RULES StreamNoLeader = True"
| "DEFAULT_ALERT_RULES StreamUnderReplicated = True"
| "DEFAULT_ALERT_RULES SlowConsumer = True"
| "DEFAULT_ALERT_RULES DeliveryPaused = True"
| "DEFAULT_ALERT_RULES TopicUnsubscribed = True"
| "DEFAULT_ALERT_RULES SubscriptionOrphaned = True"
| "DEFAULT_ALERT_RULES SubscriptionUnroutable = True"
| "DEFAULT_ALERT_RULES EntityDisabled = True"
| "DEFAULT_ALERT_RULES StreamNotActive = True"
| "DEFAULT_ALERT_RULES ConsumerNotActive = True"
| "DEFAULT_ALERT_RULES TransmissionBacklog = True"
| "DEFAULT_ALERT_RULES DeadMsgQueueMissing = True"

text \<open>
  The toggles of \<open>useAlertRules\<close>: flipping one, what is written to storage (the bare
  toggles), and the merge that rehydrates a save over the defaults. A save may hold any
  part of the keys.
\<close>

definition toggleRule :: "alert_rule_key \<Rightarrow> alert_rule_prefs \<Rightarrow> alert_rule_prefs" where
  "toggleRule k rules = rules(k := \<not> rules k)"

definition mergeStoredRules :: "(alert_rule_key \<times> bool) list \<Rightarrow> alert_rule_prefs" where
  "mergeStoredRules saved = (\<lambda>k. nullish (map_of saved k) (DEFAULT_ALERT_RULES k))"

definition storedRules :: "alert_rule_prefs \<Rightarrow> (alert_rule_key \<times> bool) list" where
  "storedRules rules = map (\<lambda>k. (k, rules k)) ALERT_RULE_KEYS"

lemma all_rule_keys: "k \<in> set ALERT_RULE_KEYS"
  by (cases k) (simp_all add: ALERT_RULE_KEYS_def)

lemma all_kinds_complete: "k \<in> set all_kinds"
  by (cases k) (simp_all add: all_kinds_def)

lemma default_rules_on [simp]: "DEFAULT_ALERT_RULES k"
  by (cases k) simp_all

lemma kinds_with_own_rules: "k \<in> set KINDS_WITH_OWN_RULES \<longleftrightarrow> RULES_BY_KIND k \<noteq> None"
  by (cases k) (simp_all add: KINDS_WITH_OWN_RULES_def)

lemma rulesFor_simps [simp]:
  "rulesFor None = ALERT_RULE_KEYS"
  "rulesFor (Some k) = nullish (RULES_BY_KIND k) ROCKETMQ_RULES"
  by (simp_all add: rulesFor_def)

lemma merge_stored_rules: "mergeStoredRules (storedRules rules) = rules"
proof
  fix k
  have "map_of (map (\<lambda>k. (k, rules k)) ks) k = (if k \<in> set ks then Some (rules k) else None)" for ks
    by (induction ks) auto
  then show "mergeStoredRules (storedRules rules) k = rules k"
    by (simp add: mergeStoredRules_def storedRules_def all_rule_keys)
qed

lemma toggle_toggle: "toggleRule k (toggleRule k rules) = rules"
  by (simp add: toggleRule_def)

end
