(* ===== verification/AlertTypes.thy ===== *)
theory AlertTypes
  imports AlertRules
begin

text \<open>
  The shape the families' rules share (frontend/src/lib/alertDerive.ts): the facts of one
  settled poll, the thresholds, a derived alert; what the sweep gathers for a family
  (\<open>sweepConnection\<close> in frontend/src/hooks/useAlertCenter.tsx); the fields a rule's sentence
  interpolates (\<open>alerts.detail\<close> of frontend/src/i18n/locales/en.json). The contract
  between the dispatch and a family is stated as locales, which each family interprets.
\<close>

datatype alert_severity = Crit | Warn | Info

fun severityWeight :: "alert_severity \<Rightarrow> int" where
  "severityWeight Crit = 3"
| "severityWeight Warn = 2"
| "severityWeight Info = 1"

text \<open>Severities in the order of their weight, so that the library's order applies.\<close>

instantiation alert_severity :: linorder
begin

definition less_eq_alert_severity :: "alert_severity \<Rightarrow> alert_severity \<Rightarrow> bool" where
  "less_eq_alert_severity a b = (severityWeight a \<le> severityWeight b)"

definition less_alert_severity :: "alert_severity \<Rightarrow> alert_severity \<Rightarrow> bool" where
  "less_alert_severity a b = (severityWeight a < severityWeight b)"

instance
proof
  fix x y z :: alert_severity
  show "(x < y) = (x \<le> y \<and> \<not> y \<le> x)"
    by (auto simp: less_eq_alert_severity_def less_alert_severity_def)
  show "x \<le> x" by (simp add: less_eq_alert_severity_def)
  show "x \<le> y \<Longrightarrow> y \<le> z \<Longrightarrow> x \<le> z" by (simp add: less_eq_alert_severity_def)
  show "x \<le> y \<Longrightarrow> y \<le> x \<Longrightarrow> x = y"
    by (cases x; cases y) (simp_all add: less_eq_alert_severity_def)
  show "x \<le> y \<or> y \<le> x" by (auto simp: less_eq_alert_severity_def)
qed

end

lemma severity_order: "a \<le> b \<longleftrightarrow> severityWeight a \<le> severityWeight b"
  by (simp add: less_eq_alert_severity_def)

record alert_facts =
  facts_nodes :: "node list"
  facts_consumerGroups :: "subscription list"
  facts_destinations :: "destination list"
  facts_connections :: "client_connection list"

record alert_thresholds =
  th_lag :: int
  th_disk :: int

text \<open>What a sentence interpolates: \<open>Record<string, string | number>\<close>.\<close>

datatype param = PStr string | PNum jsnum

abbreviation PInt :: "int \<Rightarrow> param" where
  "PInt n \<equiv> PNum (js_of_int n)"

type_synonym alert_params = "(string \<times> param) list"

record derived_alert =
  al_key :: string
  al_ruleKey :: alert_rule_key
  al_severity :: alert_severity
  al_params :: alert_params
  al_since :: "string option"

abbreviation alert ::
  "string \<Rightarrow> alert_rule_key \<Rightarrow> alert_severity \<Rightarrow> alert_params \<Rightarrow> string option \<Rightarrow> derived_alert" where
  "alert key rule severity params since \<equiv>
     \<lparr>al_key = key, al_ruleKey = rule, al_severity = severity, al_params = params,
      al_since = since\<rparr>"

definition NO_FACTS :: alert_facts where
  "NO_FACTS = \<lparr>facts_nodes = [], facts_consumerGroups = [], facts_destinations = [],
               facts_connections = []\<rparr>"

lemma NO_FACTS_simps [simp]:
  "facts_nodes NO_FACTS = []" "facts_consumerGroups NO_FACTS = []"
  "facts_destinations NO_FACTS = []" "facts_connections NO_FACTS = []"
  by (simp_all add: NO_FACTS_def)

text \<open>\<open>for (const x of xs) \<dots> out.push(\<dots>)\<close>: the alerts of each row, in order.\<close>

definition each :: "'a list \<Rightarrow> ('a \<Rightarrow> derived_alert list) \<Rightarrow> derived_alert list" where
  "each xs f = concat (map f xs)"

lemma set_each: "a \<in> set (each xs f) \<longleftrightarrow> (\<exists>x \<in> set xs. a \<in> set (f x))"
  by (auto simp: each_def)

lemma all_each [simp]: "list_all P (each xs f) \<longleftrightarrow> (\<forall>x \<in> set xs. list_all P (f x))"
  by (auto simp: each_def list_all_iff)

lemma each_simps [simp]: "each [] f = []" "each (x # xs) f = f x @ each xs f"
  by (simp_all add: each_def)

text \<open>\<open>if (c) out.push(a)\<close>\<close>

definition push_if :: "bool \<Rightarrow> derived_alert \<Rightarrow> derived_alert list" where
  "push_if c a = (if c then [a] else [])"

lemma set_push_if: "x \<in> set (push_if c a) \<longleftrightarrow> c \<and> x = a"
  by (auto simp: push_if_def)

lemma all_push_if [simp]: "list_all P (push_if c a) \<longleftrightarrow> (c \<longrightarrow> P a)"
  by (simp add: push_if_def)

lemma push_if_simps [simp]: "push_if True a = [a]" "push_if False a = []"
  by (simp_all add: push_if_def)

text \<open>
  A property of every alert, pushed through the branches that produce them: the family
  proofs are these rules and the definitions.
\<close>

lemma all_if [simp]:
  "list_all P (if c then xs else ys) \<longleftrightarrow> (c \<longrightarrow> list_all P xs) \<and> (\<not> c \<longrightarrow> list_all P ys)"
  by simp

lemma all_case_option [simp]:
  "list_all P (case x of None \<Rightarrow> xs | Some v \<Rightarrow> f v) \<longleftrightarrow>
   (x = None \<longrightarrow> list_all P xs) \<and> (\<forall>v. x = Some v \<longrightarrow> list_all P (f v))"
  by (cases x) simp_all

lemma all_case_list [simp]:
  "list_all P (case xs of [] \<Rightarrow> us | y # ys \<Rightarrow> f y ys) \<longleftrightarrow>
   (xs = [] \<longrightarrow> list_all P us) \<and> (\<forall>y ys. xs = y # ys \<longrightarrow> list_all P (f y ys))"
  by (cases xs) simp_all

section \<open>What the sweep gathers\<close>

text \<open>
  The sweep asks for consumer groups except on RabbitMQ, for destinations only on a family
  of \<open>KINDS_NEEDING_DESTINATIONS\<close>, and for client connections only on RabbitMQ; what it
  does not ask for is the empty list.
\<close>

definition gathered :: "mq_kind \<Rightarrow> alert_facts \<Rightarrow> bool" where
  "gathered kind f \<longleftrightarrow>
     (kind = KindRabbitMQ \<longrightarrow> facts_consumerGroups f = []) \<and>
     (kind \<notin> set KINDS_NEEDING_DESTINATIONS \<longrightarrow> facts_destinations f = []) \<and>
     (kind \<noteq> KindRabbitMQ \<longrightarrow> facts_connections f = [])"

section \<open>The fields a sentence needs\<close>

text \<open>The placeholders of each rule's entry under \<open>alerts.detail\<close>.\<close>

fun detail_fields :: "alert_rule_key \<Rightarrow> string list" where
  "detail_fields BrokerOffline = [''broker'', ''address'']"
| "detail_fields GroupOffline = [''group'', ''lag'']"
| "detail_fields GroupLag = [''group'', ''lag'', ''threshold'']"
| "detail_fields DiskUsage = [''broker'', ''usage'', ''threshold'']"
| "detail_fields DlqGrowth = [''group'', ''count'']"
| "detail_fields ResourceAlarm = [''broker'', ''resource'']"
| "detail_fields NodePartition = [''broker'', ''peers'']"
| "detail_fields MemoryUsage = [''broker'', ''usage'', ''threshold'']"
| "detail_fields QueueBacklog = [''queue'', ''lag'', ''threshold'']"
| "detail_fields QueueNoConsumer = [''queue'', ''lag'']"
| "detail_fields FlowControl = [''count'', ''peer'']"
| "detail_fields PartitionUnderReplicated = [''topic'', ''count'']"
| "detail_fields PartitionOffline = [''topic'', ''count'']"
| "detail_fields PartitionLeaderless = [''topic'', ''count'']"
| "detail_fields SubscriptionBlocked = [''subscription'', ''unacked'']"
| "detail_fields StreamNoLeader = [''stream'', ''replicas'']"
| "detail_fields StreamUnderReplicated = [''stream'', ''replicas'']"
| "detail_fields DeliveryPaused = [''target'', ''lag'']"
| "detail_fields SlowConsumer = [''broker'', ''count'']"
| "detail_fields TopicUnsubscribed = [''topic'']"
| "detail_fields SubscriptionOrphaned = [''subscription'']"
| "detail_fields SubscriptionUnroutable = [''subscription'']"
| "detail_fields EntityDisabled = [''entity'', ''status'']"
| "detail_fields StreamNotActive = [''stream'', ''status'']"
| "detail_fields ConsumerNotActive = [''consumer'', ''stream'', ''status'']"
| "detail_fields TransmissionBacklog = [''queue'', ''count'']"
| "detail_fields DeadMsgQueueMissing = [''queue'', ''target'']"

definition worded :: "derived_alert \<Rightarrow> bool" where
  "worded a \<longleftrightarrow> list_all (\<lambda>field. field \<in> fst ` set (al_params a)) (detail_fields (al_ruleKey a))"

text \<open>The thresholds of the samples the families are armed with.\<close>

abbreviation sample_limits :: alert_thresholds where
  "sample_limits \<equiv> \<lparr>th_lag = 10, th_disk = 75\<rparr>"

section \<open>The contract of a family\<close>

text \<open>
  A family turns facts, switches and thresholds into alerts. It raises only rules whose
  switch is on and only rules it declares, and says nothing about a connection nothing was
  read from.
\<close>

locale alert_family =
  fixes derive :: "alert_facts \<Rightarrow> alert_rule_prefs \<Rightarrow> alert_thresholds \<Rightarrow> derived_alert list"
    and raises :: "alert_rule_key list"
  assumes enabled: "list_all (\<lambda>a. r (al_ruleKey a)) (derive f r t)"
    and declared: "list_all (\<lambda>a. al_ruleKey a \<in> set raises) (derive f r t)"
    and quiet: "derive NO_FACTS r t = []"
begin

lemma raised_enabled: "a \<in> set (derive f r t) \<Longrightarrow> r (al_ruleKey a)"
  using enabled by (auto simp: list_all_iff)

lemma raised_declared: "a \<in> set (derive f r t) \<Longrightarrow> al_ruleKey a \<in> set raises"
  using declared by (auto simp: list_all_iff)

lemma switched_off: "\<not> r k \<Longrightarrow> a \<in> set (derive f r t) \<Longrightarrow> al_ruleKey a \<noteq> k"
  by (auto dest: raised_enabled)

lemma all_switched_off: "\<forall>k \<in> set raises. \<not> r k \<Longrightarrow> derive f r t = []"
  by (metis raised_declared raised_enabled list.set_intros(1) neq_Nil_conv)

end

text \<open>The thresholds: zero, or less, turns the backlog rules and the disk rule off.\<close>

locale threshold_family = alert_family +
  assumes lag_off:
      "th_lag t \<le> 0 \<Longrightarrow>
       list_all (\<lambda>a. al_ruleKey a \<noteq> GroupLag \<and> al_ruleKey a \<noteq> QueueBacklog) (derive f r t)"
    and disk_off:
      "th_disk t \<le> 0 \<Longrightarrow> list_all (\<lambda>a. al_ruleKey a \<noteq> DiskUsage) (derive f r t)"
begin

lemma thresholds_off:
  "th_lag t \<le> 0 \<Longrightarrow> th_disk t \<le> 0 \<Longrightarrow> a \<in> set (derive f r t) \<Longrightarrow>
   al_ruleKey a \<notin> {GroupLag, QueueBacklog, DiskUsage}"
  using lag_off disk_off by (auto simp: list_all_iff)

end

text \<open>An armed family: every rule it declares fires on some facts the sweep can gather.\<close>

locale armed_family = alert_family +
  fixes kind :: mq_kind and sample :: alert_facts and limits :: alert_thresholds
  assumes gatherable: "gathered kind sample"
    and sample_rules: "set raises \<subseteq> al_ruleKey ` set (derive sample DEFAULT_ALERT_RULES limits)"
begin

lemma armed:
  "k \<in> set raises \<Longrightarrow>
   \<exists>f t a. gathered kind f \<and> a \<in> set (derive f DEFAULT_ALERT_RULES t) \<and> al_ruleKey a = k"
  using gatherable sample_rules by blast

end

text \<open>A worded family: every alert carries the fields its sentence interpolates.\<close>

locale worded_family = alert_family +
  assumes says: "list_all worded (derive f r t)"
begin

lemma raised_worded: "a \<in> set (derive f r t) \<Longrightarrow> worded a"
  using says by (auto simp: list_all_iff)

end

text \<open>A family whose rules read no destination listing.\<close>

locale listing_free_family = alert_family +
  assumes no_listing: "derive (f\<lparr>facts_destinations := ds\<rparr>) r t = derive f r t"
begin

lemma listing_irrelevant:
  "derive (f\<lparr>facts_destinations := ds\<rparr>) r t = derive (f\<lparr>facts_destinations := es\<rparr>) r t"
  using no_listing by metis

end

end
