(* ===== verification/FamilyRocketMQ.thy ===== *)
theory FamilyRocketMQ
  imports AlertTypes
begin

text \<open>
  RocketMQ: its readers of nodes and subscriptions (frontend/src/mq/rocketmq/nodes.ts,
  subscriptions.ts) and its alert rules (frontend/src/mq/rocketmq/alerts.ts).
\<close>

section \<open>Nodes\<close>

definition rocketmq_numeric :: "node \<Rightarrow> string \<Rightarrow> int \<Rightarrow> int" where
  "rocketmq_numeric n key fallback = attr_count (node_attributes n) key fallback"

definition rocketmq_brokerName :: "node \<Rightarrow> string" where
  "rocketmq_brokerName n = node_name n"

definition rocketmq_brokerId :: "node \<Rightarrow> int" where
  "rocketmq_brokerId n = rocketmq_numeric n ''brokerId'' 0"

definition rocketmq_role :: "node \<Rightarrow> string" where
  "rocketmq_role n = js_or (attr_str (node_attributes n) ''role'') ''MASTER''"

definition rocketmq_haAddress :: "node \<Rightarrow> string" where
  "rocketmq_haAddress n = attr_str (node_attributes n) ''haAddress''"

definition rocketmq_topicCount :: "node \<Rightarrow> int" where
  "rocketmq_topicCount n = rocketmq_numeric n ''topics'' (-1)"

definition rocketmq_groupCount :: "node \<Rightarrow> int" where
  "rocketmq_groupCount n = rocketmq_numeric n ''groups'' (-1)"

definition rocketmq_msgInToday :: "node \<Rightarrow> int" where
  "rocketmq_msgInToday n = rocketmq_numeric n ''msgInToday'' 0"

definition rocketmq_msgOutToday :: "node \<Rightarrow> int" where
  "rocketmq_msgOutToday n = rocketmq_numeric n ''msgOutToday'' 0"

definition rocketmq_commitLogDiskUsage :: "node \<Rightarrow> int" where
  "rocketmq_commitLogDiskUsage n = node_diskUsage n"

definition rocketmq_consumeQueueDiskUsage :: "node \<Rightarrow> int" where
  "rocketmq_consumeQueueDiskUsage n = rocketmq_numeric n ''consumeQueueDiskUsage'' (-1)"

section \<open>Subscriptions\<close>

definition rocketmq_groupName :: "subscription \<Rightarrow> string" where
  "rocketmq_groupName s = sub_name s"

definition rocketmq_subNumeric :: "subscription \<Rightarrow> string \<Rightarrow> int" where
  "rocketmq_subNumeric s key = attr_count (sub_attributes s) key 0"

definition rocketmq_consumeMode :: "subscription \<Rightarrow> string option" where
  "rocketmq_consumeMode s = or_undefined (attr_str (sub_attributes s) ''consumeMode'')"

definition rocketmq_broadcastEnabled :: "subscription \<Rightarrow> bool" where
  "rocketmq_broadcastEnabled s = attr_is_true (sub_attributes s) ''broadcastEnabled''"

definition rocketmq_maxRetry :: "subscription \<Rightarrow> int" where
  "rocketmq_maxRetry s = rocketmq_subNumeric s ''maxRetry''"

definition rocketmq_retryQps :: "subscription \<Rightarrow> int" where
  "rocketmq_retryQps s = rocketmq_subNumeric s ''retryQps''"

definition rocketmq_dlqCount :: "subscription \<Rightarrow> int" where
  "rocketmq_dlqCount s = rocketmq_subNumeric s ''dlq''"

lemmas rocketmq_reader_defs [reader_defs] =
  rocketmq_numeric_def rocketmq_brokerName_def rocketmq_brokerId_def rocketmq_groupName_def
  rocketmq_subNumeric_def rocketmq_dlqCount_def rocketmq_commitLogDiskUsage_def

section \<open>Alerts\<close>

text \<open>An ordinal of 0 is the master, named by its group alone.\<close>

definition rocketmq_brokerLabel :: "node \<Rightarrow> string" where
  "rocketmq_brokerLabel n =
     (let ordinal = rocketmq_brokerId n in
      if ordinal \<noteq> 0 then rocketmq_brokerName n @ ''-'' @ show_int ordinal
      else rocketmq_brokerName n)"

definition rocketmq_offlineAlert :: "node \<Rightarrow> derived_alert list" where
  "rocketmq_offlineAlert n =
     (if node_status n \<noteq> NodeOffline then []
      else [alert (''broker-off-'' @ rocketmq_brokerName n @ ''-'' @ show_int (rocketmq_brokerId n))
              BrokerOffline Crit
              [(''broker'', PStr (rocketmq_brokerLabel n)),
               (''address'', PStr (js_or (node_address n) dash))]
              (or_undefined (node_lastSeen n))])"

text \<open>
  A group with a backlog and no instance is the worse of the two and excludes the plain
  lag alert; the dead-letter rule is separate.
\<close>

definition rocketmq_groupAlerts ::
  "alert_rule_prefs \<Rightarrow> int \<Rightarrow> subscription \<Rightarrow> derived_alert list" where
  "rocketmq_groupAlerts rules lagThreshold g =
     (let lag = sub_backlog g; name = rocketmq_groupName g; dead = rocketmq_dlqCount g in
      (if lagThreshold > 0 \<and> rules GroupOffline \<and> sub_status g = SubscriptionOffline
          \<and> lag > lagThreshold \<and> sub_members g = 0
       then [alert (''group-off-'' @ name) GroupOffline Crit
               [(''group'', PStr name), (''lag'', PInt lag)]
               (or_undefined (sub_lastUpdated g))]
       else push_if (lagThreshold > 0 \<and> rules GroupLag \<and> lag > lagThreshold)
              (alert (''group-lag-'' @ name) GroupLag Warn
                 [(''group'', PStr name), (''lag'', PInt lag), (''threshold'', PInt lagThreshold)]
                 (or_undefined (sub_lastUpdated g)))) @
      push_if (rules DlqGrowth \<and> dead > 0)
        (alert (''dlq-'' @ name) DlqGrowth Info
           [(''group'', PStr name), (''count'', PInt dead)] None))"

definition rocketmq_diskAlert :: "int \<Rightarrow> node \<Rightarrow> derived_alert list" where
  "rocketmq_diskAlert diskThreshold n =
     (let usage = rocketmq_commitLogDiskUsage n in
      if usage < diskThreshold then []
      else [alert (''disk-'' @ rocketmq_brokerName n @ ''-'' @ show_int (rocketmq_brokerId n))
              DiskUsage
              (if usage \<ge> min 100 (diskThreshold + 15) then Crit else Warn)
              [(''broker'', PStr (rocketmq_brokerLabel n)),
               (''usage'', PInt (js_round (of_int usage))),
               (''threshold'', PInt diskThreshold)]
              (or_undefined (node_lastSeen n))])"

definition deriveRocketMQAlerts ::
  "alert_facts \<Rightarrow> alert_rule_prefs \<Rightarrow> alert_thresholds \<Rightarrow> derived_alert list" where
  "deriveRocketMQAlerts facts rules thresholds =
     (if rules BrokerOffline then each (facts_nodes facts) rocketmq_offlineAlert else []) @
     each (facts_consumerGroups facts) (rocketmq_groupAlerts rules (th_lag thresholds)) @
     (if rules DiskUsage \<and> th_disk thresholds > 0
      then each (facts_nodes facts) (rocketmq_diskAlert (th_disk thresholds)) else [])"

lemmas rocketmq_derive_defs [derive_defs] =
  deriveRocketMQAlerts_def rocketmq_offlineAlert_def rocketmq_groupAlerts_def
  rocketmq_diskAlert_def

text \<open>RocketMQ declares the fallback list, which is its own.\<close>

interpretation rocketmq: alert_family deriveRocketMQAlerts ROCKETMQ_RULES
  by unfold_locales
    (simp_all add: rocketmq_derive_defs ROCKETMQ_RULES_def Let_def)

interpretation rocketmq: threshold_family deriveRocketMQAlerts ROCKETMQ_RULES
  by unfold_locales (simp_all add: rocketmq_derive_defs Let_def)

interpretation rocketmq: worded_family deriveRocketMQAlerts ROCKETMQ_RULES
  by unfold_locales (simp_all add: rocketmq_derive_defs worded_def Let_def)

interpretation rocketmq: listing_free_family deriveRocketMQAlerts ROCKETMQ_RULES
  by unfold_locales (simp add: deriveRocketMQAlerts_def)

text \<open>Concrete facts on which each declared rule fires.\<close>

definition rocketmq_sample :: alert_facts where
  "rocketmq_sample =
     NO_FACTS\<lparr>facts_nodes := [blank_node\<lparr>node_name := ''b'', node_status := NodeOffline,
                                        node_diskUsage := 80\<rparr>],
             facts_consumerGroups :=
               [blank_subscription\<lparr>sub_ref := ref_of '''' ''g'', sub_status := SubscriptionOffline,
                   sub_backlog := 11, sub_attributes := [(''dlq'', show_nat 3)]\<rparr>,
                blank_subscription\<lparr>sub_ref := ref_of '''' ''h'', sub_members := 2,
                   sub_backlog := 11\<rparr>]\<rparr>"

lemma rocketmq_sample_rules:
  "map al_ruleKey (deriveRocketMQAlerts rocketmq_sample DEFAULT_ALERT_RULES sample_limits) =
   [BrokerOffline, GroupOffline, DlqGrowth, GroupLag, DiskUsage]"
  by (simp add: rocketmq_sample_def rocketmq_derive_defs reader_defs Let_def blank_node_def
      blank_subscription_def attr_count_def attr_str_def)

interpretation rocketmq: armed_family deriveRocketMQAlerts ROCKETMQ_RULES KindRocketMQ rocketmq_sample sample_limits
proof unfold_locales
  show "gathered KindRocketMQ rocketmq_sample"
    by (simp add: gathered_def rocketmq_sample_def KINDS_NEEDING_DESTINATIONS_def)
  show "set ROCKETMQ_RULES \<subseteq> al_ruleKey ` set (deriveRocketMQAlerts rocketmq_sample DEFAULT_ALERT_RULES sample_limits)"
    by (simp only: set_map [symmetric] rocketmq_sample_rules) (simp add: ROCKETMQ_RULES_def)
qed

end
