(* ===== verification/FamilyRabbitMQ.thy ===== *)
theory FamilyRabbitMQ
  imports AlertTypes
begin

text \<open>
  RabbitMQ: its readers of nodes and queues (frontend/src/mq/rabbitmq/nodes.ts,
  destinations.ts) and its alert rules (frontend/src/mq/rabbitmq/alerts.ts). The readers
  that parse a JSON attribute (declared arguments and the tags drawn from them) are not
  modelled.
\<close>

section \<open>Nodes\<close>

definition rabbitmq_nodeCount :: "node \<Rightarrow> string \<Rightarrow> int" where
  "rabbitmq_nodeCount n key = attr_count (node_attributes n) key 0"

definition rabbitmq_nodeName :: "node \<Rightarrow> string" where
  "rabbitmq_nodeName n = node_name n"

definition rabbitmq_memoryUsed :: "node \<Rightarrow> int" where
  "rabbitmq_memoryUsed n = rabbitmq_nodeCount n ''memoryUsed''"

definition rabbitmq_memoryLimit :: "node \<Rightarrow> int" where
  "rabbitmq_memoryLimit n = rabbitmq_nodeCount n ''memoryLimit''"

definition rabbitmq_memoryAlarm :: "node \<Rightarrow> bool" where
  "rabbitmq_memoryAlarm n = attr_is_true (node_attributes n) ''memoryAlarm''"

definition rabbitmq_diskFree :: "node \<Rightarrow> int" where
  "rabbitmq_diskFree n = rabbitmq_nodeCount n ''diskFree''"

definition rabbitmq_diskFreeLimit :: "node \<Rightarrow> int" where
  "rabbitmq_diskFreeLimit n = rabbitmq_nodeCount n ''diskFreeLimit''"

definition rabbitmq_diskFreeAlarm :: "node \<Rightarrow> bool" where
  "rabbitmq_diskFreeAlarm n = attr_is_true (node_attributes n) ''diskFreeAlarm''"

definition rabbitmq_partitions :: "node \<Rightarrow> string list" where
  "rabbitmq_partitions n =
     (let raw = attr_str (node_attributes n) ''partitions'' in
      if raw = '''' then [] else js_split (CHR '','') raw)"

text \<open>Memory against the node's own watermark, capped at 100; null without a limit.\<close>

definition rabbitmq_memoryUsage :: "node \<Rightarrow> int option" where
  "rabbitmq_memoryUsage n =
     (let limit = rabbitmq_memoryLimit n in
      if limit \<le> 0 then None
      else Some (min 100 (js_round (of_int (rabbitmq_memoryUsed n) / of_int limit * 100))))"

definition rabbitmq_diskHeadroomUsage :: "node \<Rightarrow> int option" where
  "rabbitmq_diskHeadroomUsage n =
     (let limit = rabbitmq_diskFreeLimit n; free = rabbitmq_diskFree n in
      if limit \<le> 0 \<or> free \<le> 0 then None
      else Some (max 0 (min 100 (js_round (of_int limit / of_int free * 100)))))"

section \<open>Queues\<close>

definition rabbitmq_count :: "destination \<Rightarrow> string \<Rightarrow> int" where
  "rabbitmq_count d key = attr_count (dest_attributes d) key 0"

definition rabbitmq_vhost :: "destination \<Rightarrow> string" where
  "rabbitmq_vhost d = dest_namespace d"

definition rabbitmq_queueType :: "destination \<Rightarrow> string" where
  "rabbitmq_queueType d = js_or (attr_str (dest_attributes d) ''queueType'') ''classic''"

definition rabbitmq_messagesReady :: "destination \<Rightarrow> int" where
  "rabbitmq_messagesReady d = rabbitmq_count d ''messagesReady''"

definition rabbitmq_messagesUnacknowledged :: "destination \<Rightarrow> int" where
  "rabbitmq_messagesUnacknowledged d = rabbitmq_count d ''messagesUnacknowledged''"

definition rabbitmq_members :: "destination \<Rightarrow> string list" where
  "rabbitmq_members d =
     (let raw = attr_str (dest_attributes d) ''members'' in
      if raw = '''' then [] else js_split (CHR '','') raw)"

definition rabbitmq_onlineMembers :: "destination \<Rightarrow> string list" where
  "rabbitmq_onlineMembers d =
     (let raw = attr_str (dest_attributes d) ''onlineMembers'' in
      if raw = '''' then [] else js_split (CHR '','') raw)"

definition rabbitmq_consumerUtilisation :: "destination \<Rightarrow> jsnum option" where
  "rabbitmq_consumerUtilisation d =
     (let raw = attr_str (dest_attributes d) ''consumerUtilisation'' in
      if raw = '''' then None
      else let value = parse_float raw in if value = JNaN then None else Some value)"

lemmas rabbitmq_reader_defs [reader_defs] =
  rabbitmq_nodeCount_def rabbitmq_nodeName_def rabbitmq_memoryUsed_def
  rabbitmq_memoryLimit_def rabbitmq_memoryAlarm_def rabbitmq_diskFree_def
  rabbitmq_diskFreeLimit_def rabbitmq_diskFreeAlarm_def rabbitmq_partitions_def
  rabbitmq_memoryUsage_def rabbitmq_diskHeadroomUsage_def rabbitmq_count_def
  rabbitmq_vhost_def rabbitmq_messagesReady_def rabbitmq_messagesUnacknowledged_def

lemma rabbitmq_memoryUsage_le: "rabbitmq_memoryUsage n = Some u \<Longrightarrow> u \<le> 100"
  by (auto simp: rabbitmq_memoryUsage_def Let_def split: if_splits)

lemma rabbitmq_diskHeadroomUsage_range:
  "rabbitmq_diskHeadroomUsage n = Some u \<Longrightarrow> 0 \<le> u \<and> u \<le> 100"
  by (auto simp: rabbitmq_diskHeadroomUsage_def Let_def split: if_splits)

section \<open>Alerts\<close>

definition rabbitmq_queueLabel :: "string \<Rightarrow> string \<Rightarrow> string" where
  "rabbitmq_queueLabel ns name = (if ns = ''/'' then name else ns @ ''/'' @ name)"

definition rabbitmq_alarmKind :: "node \<Rightarrow> string option" where
  "rabbitmq_alarmKind n =
     (let memory = rabbitmq_memoryAlarm n; disk = rabbitmq_diskFreeAlarm n in
      if memory \<and> disk then Some ''both''
      else if memory then Some ''memory''
      else if disk then Some ''disk''
      else None)"

definition rabbitmq_throttled :: "client_connection list \<Rightarrow> client_connection list" where
  "rabbitmq_throttled connections =
     filter (\<lambda>c. conn_state c = ''flow'' \<or> conn_state c = ''blocked'' \<or> conn_state c = ''blocking'')
       connections"

text \<open>Both watermarks: critical fifteen points past the threshold.\<close>

definition rabbitmq_watermark :: "int \<Rightarrow> int \<Rightarrow> alert_severity" where
  "rabbitmq_watermark diskThreshold usage =
     (if usage \<ge> min 100 (diskThreshold + 15) then Crit else Warn)"

definition rabbitmq_watermarkAlerts ::
  "alert_rule_prefs \<Rightarrow> int \<Rightarrow> node \<Rightarrow> derived_alert list" where
  "rabbitmq_watermarkAlerts rules diskThreshold n =
     (if rules DiskUsage \<and> \<not> rabbitmq_diskFreeAlarm n
      then (case rabbitmq_diskHeadroomUsage n of
              None \<Rightarrow> []
            | Some headroom \<Rightarrow>
                push_if (headroom \<ge> diskThreshold)
                  (alert (''disk-'' @ rabbitmq_nodeName n) DiskUsage
                     (rabbitmq_watermark diskThreshold headroom)
                     [(''broker'', PStr (rabbitmq_nodeName n)), (''usage'', PInt headroom),
                      (''threshold'', PInt diskThreshold)]
                     (or_undefined (node_lastSeen n))))
      else []) @
     (if rules MemoryUsage \<and> \<not> rabbitmq_memoryAlarm n
      then (case rabbitmq_memoryUsage n of
              None \<Rightarrow> []
            | Some usage \<Rightarrow>
                push_if (usage \<ge> diskThreshold)
                  (alert (''memory-'' @ rabbitmq_nodeName n) MemoryUsage
                     (rabbitmq_watermark diskThreshold usage)
                     [(''broker'', PStr (rabbitmq_nodeName n)), (''usage'', PInt usage),
                      (''threshold'', PInt diskThreshold)]
                     (or_undefined (node_lastSeen n))))
      else [])"

text \<open>An offline node reports stale figures, so nothing else is asked of it.\<close>

definition rabbitmq_nodeAlerts ::
  "alert_rule_prefs \<Rightarrow> int \<Rightarrow> node \<Rightarrow> derived_alert list" where
  "rabbitmq_nodeAlerts rules diskThreshold n =
     (if rules BrokerOffline \<and> node_status n = NodeOffline
      then [alert (''node-off-'' @ rabbitmq_nodeName n) BrokerOffline Crit
              [(''broker'', PStr (rabbitmq_nodeName n)),
               (''address'', PStr (js_or (node_address n) dash))]
              (or_undefined (node_lastSeen n))]
      else
        (case rabbitmq_alarmKind n of
           None \<Rightarrow> []
         | Some resource \<Rightarrow>
             push_if (rules ResourceAlarm)
               (alert (''alarm-'' @ rabbitmq_nodeName n @ ''-'' @ resource) ResourceAlarm Crit
                  [(''broker'', PStr (rabbitmq_nodeName n)), (''resource'', PStr resource)]
                  (or_undefined (node_lastSeen n)))) @
        (let lost = rabbitmq_partitions n in
         push_if (rules NodePartition \<and> lost \<noteq> [])
           (alert (''partition-'' @ rabbitmq_nodeName n) NodePartition Crit
              [(''broker'', PStr (rabbitmq_nodeName n)), (''peers'', PStr (js_join '', '' lost)),
               (''count'', PInt (int (length lost)))]
              (or_undefined (node_lastSeen n)))) @
        (if diskThreshold \<le> 0 then [] else rabbitmq_watermarkAlerts rules diskThreshold n))"

definition rabbitmq_queueAlerts ::
  "alert_rule_prefs \<Rightarrow> int \<Rightarrow> destination \<Rightarrow> derived_alert list" where
  "rabbitmq_queueAlerts rules lagThreshold queue =
     (let ready = rabbitmq_messagesReady queue;
          depth = ready + rabbitmq_messagesUnacknowledged queue;
          consumers = dest_subscribers queue;
          label = rabbitmq_queueLabel (rabbitmq_vhost queue) (dest_name queue)
      in if rules QueueNoConsumer \<and> consumers = 0 \<and> ready > lagThreshold
         then [alert (''queue-idle-'' @ label) QueueNoConsumer Crit
                 [(''queue'', PStr label), (''lag'', PInt ready)] None]
         else push_if (rules QueueBacklog \<and> depth > lagThreshold)
                (alert (''queue-backlog-'' @ label) QueueBacklog Warn
                   [(''queue'', PStr label), (''lag'', PInt depth), (''threshold'', PInt lagThreshold)]
                   None))"

definition rabbitmq_flowAlert :: "client_connection list \<Rightarrow> derived_alert list" where
  "rabbitmq_flowAlert connections =
     (case rabbitmq_throttled connections of
        [] \<Rightarrow> []
      | c # slowed \<Rightarrow>
          [alert ''flow-control'' FlowControl Warn
             [(''count'', PInt (int (length (c # slowed)))),
              (''peer'', PStr (js_or (conn_peerHost c) (conn_name c)))] None])"

definition deriveRabbitMQAlerts ::
  "alert_facts \<Rightarrow> alert_rule_prefs \<Rightarrow> alert_thresholds \<Rightarrow> derived_alert list" where
  "deriveRabbitMQAlerts facts rules thresholds =
     each (facts_nodes facts) (rabbitmq_nodeAlerts rules (th_disk thresholds)) @
     (if th_lag thresholds > 0
      then each (facts_destinations facts) (rabbitmq_queueAlerts rules (th_lag thresholds)) else []) @
     (if rules FlowControl then rabbitmq_flowAlert (facts_connections facts) else [])"

lemma rabbitmq_throttled_Nil [simp]: "rabbitmq_throttled [] = []"
  by (simp add: rabbitmq_throttled_def)

lemmas rabbitmq_derive_defs [derive_defs] =
  deriveRabbitMQAlerts_def rabbitmq_nodeAlerts_def rabbitmq_watermarkAlerts_def
  rabbitmq_queueAlerts_def rabbitmq_flowAlert_def

abbreviation rabbitmq_rules :: "alert_rule_key list" where
  "rabbitmq_rules \<equiv> the (RULES_BY_KIND KindRabbitMQ)"

interpretation rabbitmq: alert_family deriveRabbitMQAlerts rabbitmq_rules
  by unfold_locales
    (simp_all add: rabbitmq_derive_defs Let_def)

interpretation rabbitmq: threshold_family deriveRabbitMQAlerts rabbitmq_rules
  by unfold_locales
    (simp_all add: rabbitmq_derive_defs Let_def)

interpretation rabbitmq: worded_family deriveRabbitMQAlerts rabbitmq_rules
  by unfold_locales
    (simp_all add: rabbitmq_derive_defs worded_def Let_def)

definition rabbitmq_sample :: alert_facts where
  "rabbitmq_sample =
     NO_FACTS\<lparr>facts_nodes :=
               [blank_node\<lparr>node_name := ''a'', node_status := NodeOffline\<rparr>,
                blank_node\<lparr>node_name := ''b'',
                  node_attributes := [(''memoryAlarm'', ''true''), (''partitions'', ''a,c''),
                    (''diskFree'', show_nat 100), (''diskFreeLimit'', show_nat 80)]\<rparr>,
                blank_node\<lparr>node_name := ''c'',
                  node_attributes := [(''memoryUsed'', show_nat 95), (''memoryLimit'', show_nat 100)]\<rparr>],
             facts_destinations :=
               [blank_destination\<lparr>dest_ref := ref_of ''/'' ''q'', dest_subscribers := 0,
                  dest_attributes := [(''messagesReady'', show_nat 11)]\<rparr>,
                blank_destination\<lparr>dest_ref := ref_of ''v'' ''q'', dest_subscribers := 1,
                  dest_attributes := [(''messagesReady'', show_nat 6),
                    (''messagesUnacknowledged'', show_nat 6)]\<rparr>],
             facts_connections := [blank_connection\<lparr>conn_name := ''x'', conn_state := ''flow''\<rparr>]\<rparr>"

lemma rabbitmq_sample_rules:
  "map al_ruleKey (deriveRabbitMQAlerts rabbitmq_sample DEFAULT_ALERT_RULES sample_limits) =
   [BrokerOffline, ResourceAlarm, NodePartition, DiskUsage, MemoryUsage, QueueNoConsumer,
    QueueBacklog, FlowControl]"
  by (simp add: rabbitmq_sample_def rabbitmq_derive_defs reader_defs Let_def blank_node_def
      blank_destination_def blank_connection_def attr_count_def attr_str_def attr_is_true_def
      rabbitmq_alarmKind_def rabbitmq_throttled_def js_round_def)

interpretation rabbitmq: armed_family deriveRabbitMQAlerts rabbitmq_rules KindRabbitMQ rabbitmq_sample sample_limits
proof unfold_locales
  show "gathered KindRabbitMQ rabbitmq_sample"
    by (simp add: gathered_def rabbitmq_sample_def KINDS_NEEDING_DESTINATIONS_def)
  show "set rabbitmq_rules \<subseteq> al_ruleKey ` set (deriveRabbitMQAlerts rabbitmq_sample DEFAULT_ALERT_RULES sample_limits)"
    by (simp only: set_map [symmetric] rabbitmq_sample_rules) (simp add: ROCKETMQ_RULES_def)
qed

end
