(* ===== verification/FamilyKafka.thy ===== *)
theory FamilyKafka
  imports AlertTypes
begin

text \<open>
  Kafka: its readers of brokers, topics and groups (frontend/src/mq/kafka/cluster.ts,
  destinations.ts, subscriptions.ts) and its alert rules (frontend/src/mq/kafka/alerts.ts).
  The rows the driver's statistics calls return untyped are not modelled.
\<close>

section \<open>Brokers\<close>

definition kafka_nodeID :: "node \<Rightarrow> string" where
  "kafka_nodeID n = attr_str (node_attributes n) ''nodeId''"

definition kafka_rack :: "node \<Rightarrow> string" where
  "kafka_rack n = attr_str (node_attributes n) ''rack''"

definition kafka_isController :: "node \<Rightarrow> bool" where
  "kafka_isController n = attr_is_true (node_attributes n) ''controller''"

text \<open>
  How long a transaction has been open, and whether it outlived its own timeout. Times are
  milliseconds; a negative start means none was reported.
\<close>

definition kafka_transactionAge :: "int \<Rightarrow> int \<Rightarrow> string" where
  "kafka_transactionAge startedAt now =
     (if startedAt < 0 \<or> now < startedAt then dash
      else let seconds = (now - startedAt) div 1000 in
        if seconds < 60 then show_int seconds @ ''s''
        else let minutes = seconds div 60 in
          if minutes < 60 then show_int minutes @ ''m''
          else let hours = minutes div 60 in
            if hours < 24 then show_int hours @ ''h '' @ show_int (minutes mod 60) @ ''m''
            else show_int (hours div 24) @ ''d '' @ show_int (hours mod 24) @ ''h'')"

definition kafka_transactionOverdue :: "bool \<Rightarrow> int \<Rightarrow> int \<Rightarrow> int \<Rightarrow> bool" where
  "kafka_transactionOverdue opened startedAt timeoutMs now =
     (if \<not> opened \<or> startedAt < 0 \<or> timeoutMs \<le> 0 then False else now - startedAt > timeoutMs)"

lemma transactionOverdue_later:
  "kafka_transactionOverdue opened s timeoutMs now \<Longrightarrow> now \<le> later \<Longrightarrow>
   kafka_transactionOverdue opened s timeoutMs later"
  by (auto simp: kafka_transactionOverdue_def split: if_splits)

lemma transactionAge_overdue:
  "kafka_transactionOverdue opened s timeoutMs now \<Longrightarrow> kafka_transactionAge s now \<noteq> dash"
  by (auto simp: kafka_transactionAge_def kafka_transactionOverdue_def Let_def split: if_splits)

section \<open>Topics\<close>

definition kafka_isInternal :: "destination \<Rightarrow> bool" where
  "kafka_isInternal d = attr_is_true (dest_attributes d) ''internal''"

definition kafka_replicationFactor :: "destination \<Rightarrow> int option" where
  "kafka_replicationFactor d = attr_int (dest_attributes d) ''replicationFactor''"

definition kafka_minInsyncReplicas :: "destination \<Rightarrow> int option" where
  "kafka_minInsyncReplicas d = attr_int (dest_attributes d) ''minInsyncReplicas''"

definition kafka_cleanupPolicy :: "destination \<Rightarrow> string" where
  "kafka_cleanupPolicy d = attr_str (dest_attributes d) ''cleanupPolicy''"

definition kafka_retentionMs :: "destination \<Rightarrow> int option" where
  "kafka_retentionMs d = attr_int (dest_attributes d) ''retentionMs''"

definition kafka_retentionBytes :: "destination \<Rightarrow> int option" where
  "kafka_retentionBytes d = attr_int (dest_attributes d) ''retentionBytes''"

definition kafka_underReplicatedPartitions :: "destination \<Rightarrow> int" where
  "kafka_underReplicatedPartitions d =
     nullish (attr_int (dest_attributes d) ''underReplicatedPartitions'') 0"

definition kafka_offlinePartitions :: "destination \<Rightarrow> int" where
  "kafka_offlinePartitions d = nullish (attr_int (dest_attributes d) ''offlinePartitions'') 0"

definition kafka_leaderlessPartitions :: "destination \<Rightarrow> int" where
  "kafka_leaderlessPartitions d = nullish (attr_int (dest_attributes d) ''leaderlessPartitions'') 0"

definition kafka_readableRecords :: "destination \<Rightarrow> int option" where
  "kafka_readableRecords d = (if dest_depth d = -1 then None else Some (dest_depth d))"

definition kafka_topicIsHealthy :: "destination \<Rightarrow> bool" where
  "kafka_topicIsHealthy d \<longleftrightarrow>
     kafka_underReplicatedPartitions d = 0 \<and> kafka_offlinePartitions d = 0 \<and>
     kafka_leaderlessPartitions d = 0"

section \<open>Groups\<close>

definition kafka_state :: "subscription \<Rightarrow> string" where
  "kafka_state s = attr_str (sub_attributes s) ''state''"

definition kafka_assignor :: "subscription \<Rightarrow> string" where
  "kafka_assignor s = attr_str (sub_attributes s) ''assignor''"

definition kafka_coordinator :: "subscription \<Rightarrow> string" where
  "kafka_coordinator s = attr_str (sub_attributes s) ''coordinator''"

definition kafka_topics :: "subscription \<Rightarrow> string list" where
  "kafka_topics s =
     (let raw = attr_str (sub_attributes s) ''topics'' in
      if raw = '''' then [] else js_split (CHR '','') raw)"

definition kafka_hasMembers :: "subscription \<Rightarrow> bool" where
  "kafka_hasMembers s = attr_is_true (sub_attributes s) ''hasMembers''"

definition kafka_totalLag :: "subscription \<Rightarrow> int option" where
  "kafka_totalLag s = (if sub_backlog s = -1 then None else Some (sub_backlog s))"

definition kafka_isEmpty :: "subscription \<Rightarrow> bool" where
  "kafka_isEmpty s = (kafka_state s = ''Empty'')"

definition kafka_isRebalancing :: "subscription \<Rightarrow> bool" where
  "kafka_isRebalancing s =
     (kafka_state s = ''PreparingRebalance'' \<or> kafka_state s = ''CompletingRebalance'')"

lemmas kafka_reader_defs [reader_defs] =
  kafka_nodeID_def kafka_isController_def kafka_underReplicatedPartitions_def
  kafka_offlinePartitions_def kafka_leaderlessPartitions_def kafka_state_def
  kafka_hasMembers_def kafka_totalLag_def kafka_isEmpty_def

section \<open>Alerts\<close>

definition kafka_brokerLabel :: "node \<Rightarrow> string" where
  "kafka_brokerLabel n =
     (let i = kafka_nodeID n in if i = '''' then node_name n else ''broker-'' @ i)"

definition kafka_topicLabel :: "destination \<Rightarrow> string" where
  "kafka_topicLabel d = dest_name d"

definition kafka_groupLabel :: "subscription \<Rightarrow> string" where
  "kafka_groupLabel s = sub_name s"

definition kafka_brokerAlerts :: "alert_rule_prefs \<Rightarrow> node \<Rightarrow> derived_alert list" where
  "kafka_brokerAlerts rules n =
     push_if (rules BrokerOffline \<and> node_status n = NodeOffline)
       (alert (''broker-off-'' @ kafka_brokerLabel n) BrokerOffline Crit
          [(''broker'', PStr (kafka_brokerLabel n)),
           (''address'', PStr (js_or (node_address n) dash)),
           (''role'', PStr (if kafka_isController n then ''controller'' else ''broker''))]
          (or_undefined (node_lastSeen n)))"

text \<open>A leaderless partition is also offline and under-replicated: only the worst is raised.\<close>

definition kafka_topicAlerts :: "alert_rule_prefs \<Rightarrow> destination \<Rightarrow> derived_alert list" where
  "kafka_topicAlerts rules topic =
     (let leaderless = kafka_leaderlessPartitions topic;
          offline = kafka_offlinePartitions topic;
          underReplicated = kafka_underReplicatedPartitions topic
      in if rules PartitionLeaderless \<and> leaderless > 0
         then [alert (''leaderless-'' @ kafka_topicLabel topic) PartitionLeaderless Crit
                 [(''topic'', PStr (kafka_topicLabel topic)), (''count'', PInt leaderless)] None]
         else if rules PartitionOffline \<and> offline > 0
         then [alert (''offline-'' @ kafka_topicLabel topic) PartitionOffline Crit
                 [(''topic'', PStr (kafka_topicLabel topic)), (''count'', PInt offline)] None]
         else push_if (rules PartitionUnderReplicated \<and> underReplicated > 0)
                (alert (''urp-'' @ kafka_topicLabel topic) PartitionUnderReplicated Warn
                   [(''topic'', PStr (kafka_topicLabel topic)), (''count'', PInt underReplicated)]
                   None))"

definition kafka_groupAlerts ::
  "alert_rule_prefs \<Rightarrow> int \<Rightarrow> subscription \<Rightarrow> derived_alert list" where
  "kafka_groupAlerts rules lagThreshold g =
     (let lag = kafka_totalLag g in
      if rules GroupOffline \<and> kafka_isEmpty g \<and> \<not> kafka_hasMembers g \<and> nullish lag 0 > 0
      then [alert (''group-empty-'' @ kafka_groupLabel g) GroupOffline Crit
              [(''group'', PStr (kafka_groupLabel g)), (''lag'', PInt (nullish lag 0))] None]
      else (case lag of
              None \<Rightarrow> []
            | Some l \<Rightarrow>
                push_if (rules GroupLag \<and> lagThreshold > 0 \<and> l \<ge> lagThreshold)
                  (alert (''group-lag-'' @ kafka_groupLabel g) GroupLag
                     (if l \<ge> lagThreshold * 5 then Crit else Warn)
                     [(''group'', PStr (kafka_groupLabel g)), (''lag'', PInt l),
                      (''threshold'', PInt lagThreshold)] None)))"

definition deriveKafkaAlerts ::
  "alert_facts \<Rightarrow> alert_rule_prefs \<Rightarrow> alert_thresholds \<Rightarrow> derived_alert list" where
  "deriveKafkaAlerts facts rules thresholds =
     each (facts_nodes facts) (kafka_brokerAlerts rules) @
     each (facts_destinations facts) (kafka_topicAlerts rules) @
     each (facts_consumerGroups facts) (kafka_groupAlerts rules (th_lag thresholds))"

lemmas kafka_derive_defs [derive_defs] =
  deriveKafkaAlerts_def kafka_brokerAlerts_def kafka_topicAlerts_def kafka_groupAlerts_def

lemma kafka_topic_healthy_quiet: "kafka_topicIsHealthy d \<Longrightarrow> kafka_topicAlerts r d = []"
  by (simp add: kafka_topicAlerts_def kafka_topicIsHealthy_def Let_def)

lemma kafka_one_per_topic: "length (kafka_topicAlerts r d) \<le> 1"
  by (simp add: kafka_topicAlerts_def push_if_def Let_def)

lemma kafka_one_per_group: "length (kafka_groupAlerts r l g) \<le> 1"
  by (simp add: kafka_groupAlerts_def push_if_def Let_def split: option.splits)

abbreviation kafka_rules :: "alert_rule_key list" where
  "kafka_rules \<equiv> the (RULES_BY_KIND KindKafka)"

interpretation kafka: alert_family deriveKafkaAlerts kafka_rules
  by unfold_locales (simp_all add: kafka_derive_defs Let_def)

interpretation kafka: threshold_family deriveKafkaAlerts kafka_rules
  by unfold_locales (simp_all add: kafka_derive_defs Let_def)

interpretation kafka: worded_family deriveKafkaAlerts kafka_rules
  by unfold_locales (simp_all add: kafka_derive_defs Let_def worded_def)

definition kafka_sample :: alert_facts where
  "kafka_sample =
     NO_FACTS\<lparr>facts_nodes := [blank_node\<lparr>node_name := ''b'', node_status := NodeOffline\<rparr>],
             facts_destinations :=
               [blank_destination\<lparr>dest_ref := ref_of '''' ''x'',
                  dest_attributes := [(''leaderlessPartitions'', show_nat 1)]\<rparr>,
                blank_destination\<lparr>dest_ref := ref_of '''' ''y'',
                  dest_attributes := [(''offlinePartitions'', show_nat 1)]\<rparr>,
                blank_destination\<lparr>dest_ref := ref_of '''' ''z'',
                  dest_attributes := [(''underReplicatedPartitions'', show_nat 1)]\<rparr>],
             facts_consumerGroups :=
               [blank_subscription\<lparr>sub_ref := ref_of '''' ''g'', sub_backlog := 1,
                   sub_attributes := [(''state'', ''Empty'')]\<rparr>,
                blank_subscription\<lparr>sub_ref := ref_of '''' ''h'', sub_backlog := 10\<rparr>]\<rparr>"

lemma kafka_sample_rules:
  "map al_ruleKey (deriveKafkaAlerts kafka_sample DEFAULT_ALERT_RULES sample_limits) =
   [BrokerOffline, PartitionLeaderless, PartitionOffline, PartitionUnderReplicated,
    GroupOffline, GroupLag]"
  by (simp add: kafka_sample_def kafka_derive_defs reader_defs Let_def blank_node_def
      blank_destination_def blank_subscription_def attr_int_def attr_str_def attr_text_def
      attr_is_true_def)

interpretation kafka: armed_family deriveKafkaAlerts kafka_rules KindKafka kafka_sample sample_limits
proof unfold_locales
  show "gathered KindKafka kafka_sample"
    by (simp add: gathered_def kafka_sample_def KINDS_NEEDING_DESTINATIONS_def)
  show "set kafka_rules \<subseteq> al_ruleKey ` set (deriveKafkaAlerts kafka_sample DEFAULT_ALERT_RULES sample_limits)"
    by (simp only: set_map [symmetric] kafka_sample_rules) simp
qed

end
