(* ===== verification/FamilyMqtt.thy ===== *)
theory FamilyMqtt
  imports AlertTypes
begin

text \<open>
  MQTT: the session behind a client row (frontend/src/mq/mqtt/clients.ts) and the alert
  rules over it (frontend/src/mq/mqtt/alerts.ts). The broker statistics of cluster.ts and
  the topic tree of destinations.ts, which sorts by locale, are not modelled.
\<close>

section \<open>Sessions\<close>

record mqtt_session =
  ses_connected :: bool
  ses_durable :: bool
  ses_cleanStart :: bool
  ses_sessionExpirySec :: "int option"
  ses_subscriptions :: "int option"
  ses_inflight :: "int option"
  ses_queued :: "int option"
  ses_queueDropped :: "int option"
  ses_listener :: string
  ses_disconnectedAt :: string

definition mqtt_clientSession :: "client_connection \<Rightarrow> mqtt_session" where
  "mqtt_clientSession c =
     (let as = conn_attributes c in
      \<lparr>ses_connected = (conn_state c = ''connected''),
       ses_durable = attr_is_true as ''durable'',
       ses_cleanStart = attr_is_true as ''cleanStart'',
       ses_sessionExpirySec = attr_int as ''sessionExpiry'',
       ses_subscriptions = attr_int as ''subscriptions'',
       ses_inflight = attr_int as ''inflight'',
       ses_queued = attr_int as ''queued'',
       ses_queueDropped = attr_int as ''queueDropped'',
       ses_listener = attr_str as ''listener'',
       ses_disconnectedAt = attr_str as ''disconnectedAt''\<rparr>)"

definition mqtt_isOrphanedSession :: "client_connection \<Rightarrow> bool" where
  "mqtt_isOrphanedSession c =
     (let session = mqtt_clientSession c in \<not> ses_connected session \<and> ses_durable session)"

text \<open>Uptime in seconds, as the cluster page shows it; null is a figure nobody reported.\<close>

definition mqtt_formatUptimeSeconds :: "int option \<Rightarrow> string" where
  "mqtt_formatUptimeSeconds seconds =
     (case seconds of
        None \<Rightarrow> dash
      | Some s \<Rightarrow>
          if s < 0 then dash
          else let days = s div 86400; hours = (s mod 86400) div 3600; minutes = (s mod 3600) div 60 in
            if days > 0 then show_int days @ ''d '' @ show_int hours @ ''h''
            else if hours > 0 then show_int hours @ ''h '' @ show_int minutes @ ''m''
            else if minutes > 0 then show_int minutes @ ''m''
            else show_int s @ ''s'')"

lemma mqtt_uptime_known: "mqtt_formatUptimeSeconds s \<noteq> dash \<longleftrightarrow> (\<exists>n \<ge> 0. s = Some n)"
  by (auto simp: mqtt_formatUptimeSeconds_def Let_def split: option.splits)

lemmas mqtt_reader_defs [reader_defs] = mqtt_clientSession_def mqtt_isOrphanedSession_def

section \<open>Alerts\<close>

definition mqtt_sessionLabel :: "client_connection \<Rightarrow> string" where
  "mqtt_sessionLabel c = conn_name c"

definition mqtt_brokerAlerts :: "alert_rule_prefs \<Rightarrow> node \<Rightarrow> derived_alert list" where
  "mqtt_brokerAlerts rules n =
     push_if (rules BrokerOffline \<and> node_status n = NodeOffline)
       (alert (''broker-off-'' @ node_name n) BrokerOffline Crit
          [(''broker'', PStr (node_name n)), (''address'', PStr (js_or (node_address n) dash)),
           (''role'', PStr ''broker'')]
          (or_undefined (node_lastSeen n)))"

text \<open>Unlike every other family, the backlog rules run whatever the sign of the threshold.\<close>

definition mqtt_clientAlerts ::
  "alert_rule_prefs \<Rightarrow> int \<Rightarrow> client_connection \<Rightarrow> derived_alert list" where
  "mqtt_clientAlerts rules lagThreshold client =
     (let session = mqtt_clientSession client;
          queued = nullish (ses_queued session) 0;
          label = mqtt_sessionLabel client
      in (if rules QueueNoConsumer \<and> mqtt_isOrphanedSession client \<and> queued > lagThreshold
          then [alert (''session-idle-'' @ label) QueueNoConsumer Crit
                  [(''queue'', PStr label), (''lag'', PInt queued)] None]
          else push_if (rules QueueBacklog \<and> queued > lagThreshold)
                 (alert (''session-backlog-'' @ label) QueueBacklog Warn
                    [(''queue'', PStr label), (''lag'', PInt queued),
                     (''threshold'', PInt lagThreshold)] None)) @
         push_if (rules QueueBacklog \<and> nullish (ses_queueDropped session) 0 > 0)
           (alert (''session-dropped-'' @ label) QueueBacklog Crit
              [(''queue'', PStr label), (''lag'', PInt (nullish (ses_queueDropped session) 0)),
               (''threshold'', PInt 0)] None))"

definition deriveMqttAlerts ::
  "alert_facts \<Rightarrow> alert_rule_prefs \<Rightarrow> alert_thresholds \<Rightarrow> derived_alert list" where
  "deriveMqttAlerts facts rules thresholds =
     each (facts_nodes facts) (mqtt_brokerAlerts rules) @
     each (facts_connections facts) (mqtt_clientAlerts rules (th_lag thresholds))"

lemmas mqtt_derive_defs [derive_defs] =
  deriveMqttAlerts_def mqtt_brokerAlerts_def mqtt_clientAlerts_def

text \<open>The rules its code raises; no list of alertRules.ts declares them for this family.\<close>

definition mqtt_rules :: "alert_rule_key list" where
  "mqtt_rules = [BrokerOffline, QueueNoConsumer, QueueBacklog]"

lemma mqtt_rules_simps [simp]: "set mqtt_rules = {BrokerOffline, QueueNoConsumer, QueueBacklog}"
  by (simp add: mqtt_rules_def)

interpretation mqtt: alert_family deriveMqttAlerts mqtt_rules
  by unfold_locales (simp_all add: mqtt_derive_defs Let_def)

interpretation mqtt: worded_family deriveMqttAlerts mqtt_rules
  by unfold_locales (simp_all add: mqtt_derive_defs Let_def worded_def)

interpretation mqtt: listing_free_family deriveMqttAlerts mqtt_rules
  by unfold_locales (simp_all add: deriveMqttAlerts_def)

text \<open>The disk rule is not one of its rules, whatever the threshold.\<close>

lemma mqtt_no_disk: "list_all (\<lambda>a. al_ruleKey a \<noteq> DiskUsage) (deriveMqttAlerts f r t)"
  by (simp add: mqtt_derive_defs Let_def)

text \<open>What a connection row contributes, and that the sweep gathers none.\<close>

lemma mqtt_swept:
  "gathered KindMQTT f \<Longrightarrow>
   list_all (\<lambda>a. al_ruleKey a = BrokerOffline) (deriveMqttAlerts f r t)"
  by (simp add: mqtt_derive_defs gathered_def)

definition mqtt_sample :: alert_facts where
  "mqtt_sample =
     NO_FACTS\<lparr>facts_nodes := [blank_node\<lparr>node_name := ''b'', node_status := NodeOffline\<rparr>],
             facts_connections :=
               [blank_connection\<lparr>conn_name := ''c'', conn_state := ''disconnected'',
                  conn_attributes := [(''durable'', ''true''), (''queued'', show_nat 11)]\<rparr>,
                blank_connection\<lparr>conn_name := ''d'', conn_state := ''connected'',
                  conn_attributes := [(''queued'', show_nat 11)]\<rparr>]\<rparr>"

lemma mqtt_sample_rules:
  "map al_ruleKey (deriveMqttAlerts mqtt_sample DEFAULT_ALERT_RULES \<lparr>th_lag = 0, th_disk = 75\<rparr>) =
   [BrokerOffline, QueueNoConsumer, QueueBacklog]"
  by (simp add: mqtt_sample_def mqtt_derive_defs reader_defs Let_def blank_node_def
      blank_connection_def attr_int_def attr_str_def attr_text_def attr_is_true_def)

end
