(* ===== verification/FamilyPulsar.thy ===== *)
theory FamilyPulsar
  imports AlertTypes
begin

text \<open>
  Pulsar: its readers of brokers and subscriptions (frontend/src/mq/pulsar/cluster.ts,
  subscriptions.ts, over attributes.ts) and its alert rules (frontend/src/mq/pulsar/alerts.ts).
  The readings of a ClusterOverview are not modelled.
\<close>

section \<open>Brokers\<close>

definition pulsar_isLeader :: "node \<Rightarrow> bool" where
  "pulsar_isLeader n = attr_is_true (node_attributes n) ''pulsarLeader''"

definition pulsar_brokerServiceURL :: "node \<Rightarrow> string" where
  "pulsar_brokerServiceURL n = attr_str (node_attributes n) ''pulsarServiceUrl''"

definition pulsar_brokerVersion :: "node \<Rightarrow> string" where
  "pulsar_brokerVersion n = attr_str (node_attributes n) ''pulsarBrokerVersion''"

definition pulsar_cpuPercent :: "node \<Rightarrow> int option" where
  "pulsar_cpuPercent n = attr_int (node_attributes n) ''pulsarCpuPercent''"

definition pulsar_memoryPercent :: "node \<Rightarrow> int option" where
  "pulsar_memoryPercent n = attr_int (node_attributes n) ''pulsarMemoryPercent''"

definition pulsar_directMemoryPercent :: "node \<Rightarrow> int option" where
  "pulsar_directMemoryPercent n = attr_int (node_attributes n) ''pulsarDirectMemoryPercent''"

definition pulsar_isDescribed :: "node \<Rightarrow> bool" where
  "pulsar_isDescribed n = (pulsar_brokerVersion n \<noteq> '''')"

section \<open>Subscriptions\<close>

definition pulsar_topicOf :: "subscription \<Rightarrow> string" where
  "pulsar_topicOf s =
     js_or (sub_namespace s) (attr_str (sub_attributes s) ''pulsarSubscriptionTopic'')"

text \<open>The last segment of the topic's URL; \<open>split\<close> never returns an empty array.\<close>

definition pulsar_shortTopicOf :: "subscription \<Rightarrow> string" where
  "pulsar_shortTopicOf s =
     (let url = pulsar_topicOf s; parts = js_split (CHR ''/'') url in
      if length parts > 0 then last parts else url)"

definition pulsar_subscriptionType :: "subscription \<Rightarrow> string" where
  "pulsar_subscriptionType s = attr_str (sub_attributes s) ''pulsarSubscriptionType''"

definition pulsar_isBlocked :: "subscription \<Rightarrow> bool" where
  "pulsar_isBlocked s = attr_is_true (sub_attributes s) ''pulsarSubscriptionBlocked''"

definition pulsar_isDurable :: "subscription \<Rightarrow> bool" where
  "pulsar_isDurable s = (attr_str (sub_attributes s) ''pulsarSubscriptionDurable'' \<noteq> ''false'')"

definition pulsar_unackedCount :: "subscription \<Rightarrow> int option" where
  "pulsar_unackedCount s = attr_int (sub_attributes s) ''pulsarSubscriptionUnacked''"

definition pulsar_delayedCount :: "subscription \<Rightarrow> int option" where
  "pulsar_delayedCount s = attr_int (sub_attributes s) ''pulsarSubscriptionDelayed''"

definition pulsar_backlogBytes :: "subscription \<Rightarrow> int option" where
  "pulsar_backlogBytes s = attr_int (sub_attributes s) ''pulsarSubscriptionBacklogBytes''"

definition pulsar_redeliverRate :: "subscription \<Rightarrow> int option" where
  "pulsar_redeliverRate s = attr_int (sub_attributes s) ''pulsarSubscriptionRedeliverRate''"

definition pulsar_activeConsumer :: "subscription \<Rightarrow> string" where
  "pulsar_activeConsumer s = attr_str (sub_attributes s) ''pulsarSubscriptionActiveConsumer''"

lemmas pulsar_reader_defs [reader_defs] =
  pulsar_memoryPercent_def pulsar_directMemoryPercent_def pulsar_topicOf_def
  pulsar_isBlocked_def pulsar_unackedCount_def

lemma pulsar_short_topic_no_slash: "CHR ''/'' \<notin> set (pulsar_shortTopicOf s)"
  by (simp add: pulsar_shortTopicOf_def Let_def js_split_nonempty
      js_split_no_sep [OF last_in_set])

section \<open>Alerts\<close>

definition pulsar_subscriptionLabel :: "subscription \<Rightarrow> string" where
  "pulsar_subscriptionLabel s = pulsar_shortTopicOf s @ ''/'' @ sub_name s"

text \<open>
  One alert per subscription at most: blocked before idle before behind. The backlog of a
  canonical row is a number already, so \<open>Number(\<dots>)\<close> is the identity on it.
\<close>

definition pulsar_subscriptionAlerts ::
  "alert_rule_prefs \<Rightarrow> int \<Rightarrow> subscription \<Rightarrow> derived_alert list" where
  "pulsar_subscriptionAlerts rules lagThreshold s =
     (let backlog = sub_backlog s in
      if rules SubscriptionBlocked \<and> pulsar_isBlocked s
      then [alert (''sub-blocked-'' @ pulsar_subscriptionLabel s) SubscriptionBlocked Crit
              [(''subscription'', PStr (pulsar_subscriptionLabel s)),
               (''unacked'', PInt (nullish (pulsar_unackedCount s) 0))]
              (or_undefined (sub_lastUpdated s))]
      else if rules GroupOffline \<and> sub_members s = 0 \<and> backlog > 0
      then [alert (''sub-idle-'' @ pulsar_subscriptionLabel s) GroupOffline Warn
              [(''group'', PStr (pulsar_subscriptionLabel s)), (''lag'', PInt backlog)]
              (or_undefined (sub_lastUpdated s))]
      else push_if (rules GroupLag \<and> lagThreshold > 0 \<and> sub_members s > 0 \<and> backlog \<ge> lagThreshold)
             (alert (''sub-lag-'' @ pulsar_subscriptionLabel s) GroupLag Warn
                [(''group'', PStr (pulsar_subscriptionLabel s)), (''lag'', PInt backlog),
                 (''threshold'', PInt lagThreshold)]
                (or_undefined (sub_lastUpdated s))))"

definition pulsar_worstMemory :: "node \<Rightarrow> int option" where
  "pulsar_worstMemory n =
     (let heap = pulsar_memoryPercent n; direct = pulsar_directMemoryPercent n in
      if heap = None \<and> direct = None then None
      else Some (max (nullish heap 0) (nullish direct 0)))"

definition pulsar_memoryAlerts :: "int \<Rightarrow> node \<Rightarrow> derived_alert list" where
  "pulsar_memoryAlerts memoryThreshold n =
     (case pulsar_worstMemory n of
        None \<Rightarrow> []
      | Some worst \<Rightarrow>
          push_if (worst \<ge> memoryThreshold)
            (alert (''mem-'' @ node_address n) MemoryUsage (if worst \<ge> 95 then Crit else Warn)
               [(''broker'', PStr (node_address n)), (''usage'', PInt worst),
                (''threshold'', PInt memoryThreshold)]
               (or_undefined (node_lastSeen n))))"

definition derivePulsarAlerts ::
  "alert_facts \<Rightarrow> alert_rule_prefs \<Rightarrow> alert_thresholds \<Rightarrow> derived_alert list" where
  "derivePulsarAlerts facts rules thresholds =
     each (facts_consumerGroups facts) (pulsar_subscriptionAlerts rules (th_lag thresholds)) @
     (if rules MemoryUsage \<and> th_disk thresholds > 0
      then each (facts_nodes facts) (pulsar_memoryAlerts (th_disk thresholds)) else [])"

lemmas pulsar_derive_defs [derive_defs] =
  derivePulsarAlerts_def pulsar_subscriptionAlerts_def pulsar_memoryAlerts_def

lemma pulsar_one_per_subscription: "length (pulsar_subscriptionAlerts r l s) \<le> 1"
  by (simp add: pulsar_subscriptionAlerts_def push_if_def Let_def)

lemma pulsar_worst_memory:
  "pulsar_worstMemory n = Some w \<Longrightarrow>
   nullish (pulsar_memoryPercent n) 0 \<le> w \<and> nullish (pulsar_directMemoryPercent n) 0 \<le> w"
  by (auto simp: pulsar_worstMemory_def Let_def split: if_splits)

abbreviation pulsar_rules :: "alert_rule_key list" where
  "pulsar_rules \<equiv> the (RULES_BY_KIND KindPulsar)"

interpretation pulsar: alert_family derivePulsarAlerts pulsar_rules
  by unfold_locales (simp_all add: pulsar_derive_defs Let_def)

interpretation pulsar: threshold_family derivePulsarAlerts pulsar_rules
  by unfold_locales (simp_all add: pulsar_derive_defs Let_def)

interpretation pulsar: worded_family derivePulsarAlerts pulsar_rules
  by unfold_locales (simp_all add: pulsar_derive_defs Let_def worded_def)

interpretation pulsar: listing_free_family derivePulsarAlerts pulsar_rules
  by unfold_locales (simp_all add: derivePulsarAlerts_def)

definition pulsar_sample :: alert_facts where
  "pulsar_sample =
     NO_FACTS\<lparr>facts_nodes :=
               [blank_node\<lparr>node_address := ''b'',
                  node_attributes := [(''pulsarDirectMemoryPercent'', show_nat 96)]\<rparr>],
             facts_consumerGroups :=
               [blank_subscription\<lparr>sub_ref := ref_of ''t'' ''x'',
                  sub_attributes := [(''pulsarSubscriptionBlocked'', ''true'')]\<rparr>,
                blank_subscription\<lparr>sub_ref := ref_of ''t'' ''y'', sub_backlog := 1\<rparr>,
                blank_subscription\<lparr>sub_ref := ref_of ''t'' ''z'', sub_backlog := 10,
                  sub_members := 1\<rparr>]\<rparr>"

lemma pulsar_sample_rules:
  "map al_ruleKey (derivePulsarAlerts pulsar_sample DEFAULT_ALERT_RULES sample_limits) =
   [SubscriptionBlocked, GroupOffline, GroupLag, MemoryUsage]"
  by (simp add: pulsar_sample_def pulsar_derive_defs reader_defs Let_def blank_node_def
      blank_subscription_def attr_int_def attr_str_def attr_text_def attr_is_true_def
      pulsar_worstMemory_def)

interpretation pulsar: armed_family derivePulsarAlerts pulsar_rules KindPulsar pulsar_sample sample_limits
proof unfold_locales
  show "gathered KindPulsar pulsar_sample"
    by (simp add: gathered_def pulsar_sample_def KINDS_NEEDING_DESTINATIONS_def)
  show "set pulsar_rules \<subseteq> al_ruleKey ` set (derivePulsarAlerts pulsar_sample DEFAULT_ALERT_RULES sample_limits)"
    by (simp only: set_map [symmetric] pulsar_sample_rules) simp
qed

end
