(* ===== verification/FamilyRedis.thy ===== *)
theory FamilyRedis
  imports AlertTypes
begin

text \<open>
  Redis Streams: its readers of servers and consumer groups (frontend/src/mq/redis/nodes.ts,
  subscriptions.ts) and its alert rules (frontend/src/mq/redis/alerts.ts).
\<close>

section \<open>Servers\<close>

definition redis_nodeVersion :: "node \<Rightarrow> string option" where
  "redis_nodeVersion n = or_undefined (node_version n)"

definition redis_role :: "node \<Rightarrow> string option" where
  "redis_role n = attr_text (node_attributes n) ''role''"

definition redis_mode :: "node \<Rightarrow> string option" where
  "redis_mode n = attr_text (node_attributes n) ''mode''"

definition redis_usedMemoryBytes :: "node \<Rightarrow> rat option" where
  "redis_usedMemoryBytes n = attr_number (node_attributes n) ''usedMemory''"

text \<open>Redis reports a missing memory ceiling as 0; that is no ceiling, so null.\<close>

definition redis_maxMemoryBytes :: "node \<Rightarrow> rat option" where
  "redis_maxMemoryBytes n =
     (case attr_number (node_attributes n) ''maxMemory'' of
        None \<Rightarrow> None
      | Some v \<Rightarrow> if v = 0 then None else Some v)"

definition redis_memoryUsagePercent :: "node \<Rightarrow> int option" where
  "redis_memoryUsagePercent n =
     (case (redis_usedMemoryBytes n, redis_maxMemoryBytes n) of
        (Some used, Some limit) \<Rightarrow> Some (min 100 (js_round (used / limit * 100)))
      | _ \<Rightarrow> None)"

text \<open>The hit rate in percent with one decimal.\<close>

definition redis_hitRatePercent :: "node \<Rightarrow> rat option" where
  "redis_hitRatePercent n =
     (case (attr_number (node_attributes n) ''keyspaceHits'',
            attr_number (node_attributes n) ''keyspaceMisses'') of
        (Some hits, Some misses) \<Rightarrow>
          (let total = hits + misses in
           if total = 0 then None else Some (of_int (js_round (hits / total * 1000)) / 10))
      | _ \<Rightarrow> None)"

definition redis_appendOnlyEnabled :: "node \<Rightarrow> bool" where
  "redis_appendOnlyEnabled n = (attr_text (node_attributes n) ''aofEnabled'' = Some ''1'')"

definition redis_clusterEnabled :: "node \<Rightarrow> bool" where
  "redis_clusterEnabled n = (attr_text (node_attributes n) ''clusterEnabled'' = Some ''1'')"

text \<open>Null when the server reported neither a snapshot nor a rewrite.\<close>

definition redis_persistenceHealthy :: "node \<Rightarrow> bool option" where
  "redis_persistenceHealthy n =
     (let snapshot = attr_text (node_attributes n) ''rdbLastBgsaveStatus'';
          rewrite = attr_text (node_attributes n) ''aofLastRewriteStatus''
      in if snapshot = None \<and> rewrite = None then None
         else Some (snapshot \<noteq> Some ''err'' \<and> rewrite \<noteq> Some ''err''))"

lemma redis_memory_usage_le: "redis_memoryUsagePercent n = Some u \<Longrightarrow> u \<le> 100"
  by (auto simp: redis_memoryUsagePercent_def split: option.splits)

lemma redis_hit_rate_range:
  assumes hits: "attr_number (node_attributes n) ''keyspaceHits'' = Some h" "0 \<le> h"
    and misses: "attr_number (node_attributes n) ''keyspaceMisses'' = Some m" "0 \<le> m"
    and rate: "redis_hitRatePercent n = Some r"
  shows "0 \<le> r \<and> r \<le> 100"
proof -
  from rate hits misses have total: "0 < h + m" and
    r: "r = of_int (js_round (h / (h + m) * 1000)) / 10"
    by (auto simp: redis_hitRatePercent_def Let_def split: if_splits)
  have "0 \<le> h / (h + m) * 1000" and "h / (h + m) * 1000 \<le> of_int 1000"
    using hits misses total by (simp_all add: divide_le_eq)
  then have "0 \<le> js_round (h / (h + m) * 1000)" and "js_round (h / (h + m) * 1000) \<le> 1000"
    using js_round_nonneg js_round_mono [of "h / (h + m) * 1000" "of_int 1000"]
    by (simp_all add: js_round_of_int [of 1000, simplified])
  then have "(of_int (js_round (h / (h + m) * 1000)) :: rat) \<le> of_int 1000"
    and "0 \<le> (of_int (js_round (h / (h + m) * 1000)) :: rat)"
    by (simp_all only: of_int_le_iff of_int_0_le_iff)
  with r show ?thesis by simp
qed

section \<open>Consumer groups\<close>

definition redis_groupName :: "subscription \<Rightarrow> string" where
  "redis_groupName s = sub_name s"

definition redis_groupStream :: "subscription \<Rightarrow> string" where
  "redis_groupStream s =
     js_or (sub_namespace s) (nullish (attr_text (sub_attributes s) ''stream'') '''')"

definition redis_consumerCount :: "subscription \<Rightarrow> int" where
  "redis_consumerCount s = sub_members s"

definition redis_pending :: "subscription \<Rightarrow> int option" where
  "redis_pending s = attr_int (sub_attributes s) ''pending''"

definition redis_entriesRead :: "subscription \<Rightarrow> int option" where
  "redis_entriesRead s = attr_int (sub_attributes s) ''entriesRead''"

definition redis_lag :: "subscription \<Rightarrow> int option" where
  "redis_lag s = (if sub_backlog s = -1 then None else Some (sub_backlog s))"

datatype redis_health = GroupConsuming | GroupStalled | GroupIdle

definition redis_groupHealth :: "subscription \<Rightarrow> redis_health" where
  "redis_groupHealth s =
     (if redis_consumerCount s > 0 then GroupConsuming
      else if nullish (redis_pending s) 0 > 0 then GroupStalled else GroupIdle)"

lemmas redis_reader_defs [reader_defs] =
  redis_usedMemoryBytes_def redis_maxMemoryBytes_def redis_memoryUsagePercent_def
  redis_persistenceHealthy_def redis_groupName_def redis_groupStream_def
  redis_consumerCount_def redis_pending_def redis_lag_def redis_groupHealth_def

section \<open>Alerts\<close>

definition redis_serverLabel :: "node \<Rightarrow> string" where
  "redis_serverLabel n = (if node_address n = '''' then node_name n else node_address n)"

definition redis_groupLabel :: "subscription \<Rightarrow> string" where
  "redis_groupLabel s = redis_groupStream s @ '' / '' @ redis_groupName s"

definition redis_serverAlerts :: "alert_rule_prefs \<Rightarrow> int \<Rightarrow> node \<Rightarrow> derived_alert list" where
  "redis_serverAlerts rules memoryThreshold n =
     push_if (rules BrokerOffline \<and> node_status n = NodeOffline)
       (alert (''redis-off-'' @ redis_serverLabel n) BrokerOffline Crit
          [(''node'', PStr (redis_serverLabel n))] None) @
     push_if (rules ResourceAlarm \<and> redis_persistenceHealthy n = Some False)
       (alert (''redis-save-'' @ redis_serverLabel n) ResourceAlarm Crit
          [(''node'', PStr (redis_serverLabel n))] None) @
     (case redis_memoryUsagePercent n of
        None \<Rightarrow> []
      | Some usage \<Rightarrow>
          push_if (rules MemoryUsage \<and> memoryThreshold > 0 \<and> usage \<ge> memoryThreshold)
            (alert (''redis-mem-'' @ redis_serverLabel n) MemoryUsage
               (if usage \<ge> 95 then Crit else Warn)
               [(''node'', PStr (redis_serverLabel n)), (''usage'', PInt usage)] None))"

definition redis_groupAlerts ::
  "alert_rule_prefs \<Rightarrow> int \<Rightarrow> subscription \<Rightarrow> derived_alert list" where
  "redis_groupAlerts rules lagThreshold g =
     push_if (rules GroupOffline \<and> redis_groupHealth g = GroupStalled)
       (alert (''redis-stalled-'' @ redis_groupLabel g) GroupOffline Warn
          [(''group'', PStr (redis_groupLabel g)), (''pending'', PInt (nullish (redis_pending g) 0))]
          None) @
     (case redis_lag g of
        None \<Rightarrow> []
      | Some behind \<Rightarrow>
          push_if (rules GroupLag \<and> lagThreshold > 0 \<and> behind \<ge> lagThreshold)
            (alert (''redis-lag-'' @ redis_groupLabel g) GroupLag Warn
               [(''group'', PStr (redis_groupLabel g)), (''lag'', PInt behind)] None))"

definition deriveRedisAlerts ::
  "alert_facts \<Rightarrow> alert_rule_prefs \<Rightarrow> alert_thresholds \<Rightarrow> derived_alert list" where
  "deriveRedisAlerts facts rules thresholds =
     each (facts_nodes facts) (redis_serverAlerts rules (th_disk thresholds)) @
     each (facts_consumerGroups facts) (redis_groupAlerts rules (th_lag thresholds))"

lemmas redis_derive_defs [derive_defs] =
  deriveRedisAlerts_def redis_serverAlerts_def redis_groupAlerts_def

abbreviation redis_rules :: "alert_rule_key list" where
  "redis_rules \<equiv> the (RULES_BY_KIND KindRedisStream)"

interpretation redis: alert_family deriveRedisAlerts redis_rules
  by unfold_locales (simp_all add: redis_derive_defs Let_def)

interpretation redis: threshold_family deriveRedisAlerts redis_rules
  by unfold_locales (simp_all add: redis_derive_defs Let_def)

interpretation redis: listing_free_family deriveRedisAlerts redis_rules
  by unfold_locales (simp_all add: deriveRedisAlerts_def)

text \<open>
  Its alerts are not worded: the sentence of an offline broker interpolates a broker and an
  address, and the alert carries a node.
\<close>

lemma redis_not_worded: "list_all (\<lambda>a. \<not> worded a) (deriveRedisAlerts f r t)"
  by (simp add: redis_derive_defs worded_def)

definition redis_sample :: alert_facts where
  "redis_sample =
     NO_FACTS\<lparr>facts_nodes :=
               [blank_node\<lparr>node_name := ''b'', node_status := NodeOffline,
                  node_attributes := [(''rdbLastBgsaveStatus'', ''err''),
                    (''usedMemory'', show_nat 95), (''maxMemory'', show_nat 100)]\<rparr>],
             facts_consumerGroups :=
               [blank_subscription\<lparr>sub_ref := ref_of ''s'' ''g'', sub_backlog := 10,
                  sub_attributes := [(''pending'', show_nat 1)]\<rparr>]\<rparr>"

lemma redis_sample_rules:
  "map al_ruleKey (deriveRedisAlerts redis_sample DEFAULT_ALERT_RULES sample_limits) =
   [BrokerOffline, ResourceAlarm, MemoryUsage, GroupOffline, GroupLag]"
  by (simp add: redis_sample_def redis_derive_defs reader_defs Let_def blank_node_def
      blank_subscription_def attr_int_def attr_number_def attr_text_def js_Number_show_nat
      js_round_def)

interpretation redis: armed_family deriveRedisAlerts redis_rules KindRedisStream redis_sample sample_limits
proof unfold_locales
  show "gathered KindRedisStream redis_sample"
    by (simp add: gathered_def redis_sample_def KINDS_NEEDING_DESTINATIONS_def)
  show "set redis_rules \<subseteq> al_ruleKey ` set (deriveRedisAlerts redis_sample DEFAULT_ALERT_RULES sample_limits)"
    by (simp only: set_map [symmetric] redis_sample_rules) simp
qed

end
