(* ===== verification/FamilyNats.thy ===== *)
theory FamilyNats
  imports AlertTypes
begin

text \<open>
  NATS: its readers of servers, streams and consumers (frontend/src/mq/nats/cluster.ts,
  destinations.ts, subscriptions.ts) and its alert rules (frontend/src/mq/nats/alerts.ts).
  A server's figures are read with \<open>parseFloat\<close>, so an infinity can occur; a stream's and
  a consumer's with \<open>parseInt\<close>.
\<close>

section \<open>Servers\<close>

definition nats_nodeNumber :: "node \<Rightarrow> string \<Rightarrow> jsnum option" where
  "nats_nodeNumber n k =
     (case attr_text (node_attributes n) k of
        None \<Rightarrow> None
      | Some raw \<Rightarrow> (let value = parse_float raw in if value = JNaN then None else Some value))"

definition nats_readVia :: "node \<Rightarrow> string option" where
  "nats_readVia n = attr_text (node_attributes n) ''readVia''"

definition nats_isFromOneServerOnly :: "node \<Rightarrow> bool" where
  "nats_isFromOneServerOnly n = (nats_readVia n = Some ''monitor'')"

definition nats_connections :: "node \<Rightarrow> jsnum option" where
  "nats_connections n = nats_nodeNumber n ''connections''"

definition nats_routes :: "node \<Rightarrow> jsnum option" where
  "nats_routes n = nats_nodeNumber n ''routes''"

definition nats_slowConsumers :: "node \<Rightarrow> jsnum option" where
  "nats_slowConsumers n = nats_nodeNumber n ''slowConsumers''"

definition nats_hasJetStream :: "node \<Rightarrow> bool" where
  "nats_hasJetStream n = (attr_text (node_attributes n) ''jetstreamEnabled'' = Some ''true'')"

definition nats_isMetaLeader :: "node \<Rightarrow> bool" where
  "nats_isMetaLeader n = (attr_text (node_attributes n) ''isMetaLeader'' = Some ''true'')"

section \<open>Streams\<close>

definition nats_streamName :: "destination \<Rightarrow> string" where
  "nats_streamName d = dest_name d"

text \<open>The comma-separated subjects, trimmed, without the empty ones.\<close>

definition nats_parts :: "string \<Rightarrow> string list" where
  "nats_parts raw = filter (\<lambda>p. p \<noteq> '''') (map js_trim (js_split (CHR '','') raw))"

definition nats_subjects :: "destination \<Rightarrow> string list" where
  "nats_subjects d =
     (case attr_text (dest_attributes d) ''subjects'' of None \<Rightarrow> [] | Some raw \<Rightarrow> nats_parts raw)"

definition nats_description :: "destination \<Rightarrow> string option" where
  "nats_description d = attr_text (dest_attributes d) ''description''"

definition nats_retention :: "destination \<Rightarrow> string option" where
  "nats_retention d = attr_text (dest_attributes d) ''retention''"

definition nats_storage :: "destination \<Rightarrow> string option" where
  "nats_storage d = attr_text (dest_attributes d) ''storage''"

definition nats_discard :: "destination \<Rightarrow> string option" where
  "nats_discard d = attr_text (dest_attributes d) ''discard''"

definition nats_compression :: "destination \<Rightarrow> string option" where
  "nats_compression d = attr_text (dest_attributes d) ''compression''"

definition nats_replicas :: "destination \<Rightarrow> int option" where
  "nats_replicas d = attr_int (dest_attributes d) ''replicas''"

text \<open>A limit of -1 is no limit.\<close>

definition nats_limit :: "destination \<Rightarrow> string \<Rightarrow> int option" where
  "nats_limit d k =
     (case attr_int (dest_attributes d) k of
        None \<Rightarrow> None
      | Some v \<Rightarrow> if v < 0 then None else Some v)"

definition nats_maxMessages :: "destination \<Rightarrow> int option" where
  "nats_maxMessages d = nats_limit d ''maxMsgs''"

definition nats_maxBytes :: "destination \<Rightarrow> int option" where
  "nats_maxBytes d = nats_limit d ''maxBytes''"

definition nats_maxMessageSize :: "destination \<Rightarrow> int option" where
  "nats_maxMessageSize d = nats_limit d ''maxMsgSize''"

definition nats_maxMessagesPerSubject :: "destination \<Rightarrow> int option" where
  "nats_maxMessagesPerSubject d = nats_limit d ''maxMsgsPerSubject''"

text \<open>A duration of nothing is how an unset one is printed.\<close>

definition nats_duration :: "destination \<Rightarrow> string \<Rightarrow> string option" where
  "nats_duration d k =
     (case attr_text (dest_attributes d) k of
        None \<Rightarrow> None
      | Some raw \<Rightarrow> if raw = ''0s'' then None else Some raw)"

definition nats_maxAge :: "destination \<Rightarrow> string option" where
  "nats_maxAge d = nats_duration d ''maxAge''"

definition nats_duplicateWindow :: "destination \<Rightarrow> string option" where
  "nats_duplicateWindow d = nats_duration d ''duplicateWindow''"

definition nats_firstSequence :: "destination \<Rightarrow> int option" where
  "nats_firstSequence d = attr_int (dest_attributes d) ''firstSeq''"

definition nats_lastSequence :: "destination \<Rightarrow> int option" where
  "nats_lastSequence d = attr_int (dest_attributes d) ''lastSeq''"

definition nats_clusterName :: "destination \<Rightarrow> string option" where
  "nats_clusterName d = attr_text (dest_attributes d) ''clusterName''"

definition nats_leader :: "destination \<Rightarrow> string option" where
  "nats_leader d = attr_text (dest_attributes d) ''leader''"

definition nats_replicaLines :: "destination \<Rightarrow> string list" where
  "nats_replicaLines d =
     (case attr_text (dest_attributes d) ''replicaState'' of
        None \<Rightarrow> []
      | Some raw \<Rightarrow> filter (\<lambda>line. line \<noteq> '''') (js_split (CHR 0x0A) raw))"

text \<open>Null for a stream with a single replica: there is nothing to be behind.\<close>

definition nats_replicasHealthy :: "destination \<Rightarrow> bool option" where
  "nats_replicasHealthy d =
     (case (attr_int (dest_attributes d) ''replicasHealthy'', nats_replicas d) of
        (Some healthy, Some m) \<Rightarrow> if m \<le> 1 then None else Some (healthy \<ge> m)
      | _ \<Rightarrow> None)"

section \<open>Consumers\<close>

definition nats_consumerName :: "subscription \<Rightarrow> string" where
  "nats_consumerName s = sub_name s"

definition nats_streamOf :: "subscription \<Rightarrow> string" where
  "nats_streamOf s = sub_namespace s"

definition nats_backlog :: "subscription \<Rightarrow> int" where
  "nats_backlog s = sub_backlog s"

definition nats_kind :: "subscription \<Rightarrow> string option" where
  "nats_kind s = attr_text (sub_attributes s) ''consumerKind''"

definition nats_isPush :: "subscription \<Rightarrow> bool" where
  "nats_isPush s = (nats_kind s = Some ''push'')"

text \<open>Null on a pull consumer, which reports no members.\<close>

definition nats_members :: "subscription \<Rightarrow> int option" where
  "nats_members s = (if sub_members s = -1 then None else Some (sub_members s))"

definition nats_waitingRequests :: "subscription \<Rightarrow> int option" where
  "nats_waitingRequests s = attr_int (sub_attributes s) ''waitingRequests''"

definition nats_ackPending :: "subscription \<Rightarrow> int option" where
  "nats_ackPending s = attr_int (sub_attributes s) ''ackPending''"

definition nats_redelivered :: "subscription \<Rightarrow> int option" where
  "nats_redelivered s = attr_int (sub_attributes s) ''redelivered''"

definition nats_durableName :: "subscription \<Rightarrow> string option" where
  "nats_durableName s = attr_text (sub_attributes s) ''durable''"

definition nats_isDurable :: "subscription \<Rightarrow> bool" where
  "nats_isDurable s = (nats_durableName s \<noteq> None)"

definition nats_maxDeliver :: "subscription \<Rightarrow> int option" where
  "nats_maxDeliver s =
     (case attr_int (sub_attributes s) ''maxDeliver'' of
        None \<Rightarrow> None
      | Some v \<Rightarrow> if v < 0 then None else Some v)"

definition nats_maxAckPending :: "subscription \<Rightarrow> int option" where
  "nats_maxAckPending s =
     (case attr_int (sub_attributes s) ''maxAckPending'' of
        None \<Rightarrow> None
      | Some v \<Rightarrow> if v < 0 then None else Some v)"

definition nats_filterSubjects :: "subscription \<Rightarrow> string list" where
  "nats_filterSubjects s =
     (case attr_text (sub_attributes s) ''filterSubject'' of None \<Rightarrow> [] | Some raw \<Rightarrow> nats_parts raw)"

lemmas nats_reader_defs [reader_defs] =
  nats_nodeNumber_def nats_slowConsumers_def nats_streamName_def nats_replicas_def
  nats_clusterName_def nats_leader_def nats_replicasHealthy_def nats_consumerName_def
  nats_streamOf_def nats_backlog_def nats_kind_def nats_isPush_def nats_members_def

lemma nats_limit_nonneg: "nats_limit d k = Some v \<Longrightarrow> 0 \<le> v"
  by (auto simp: nats_limit_def split: option.splits if_splits)

lemma nats_parts_nonempty: "p \<in> set (nats_parts raw) \<Longrightarrow> p \<noteq> ''''"
  by (auto simp: nats_parts_def)

section \<open>Alerts\<close>

definition nats_isLeaderless :: "destination \<Rightarrow> bool" where
  "nats_isLeaderless d = (nats_leader d = None \<or> nats_leader d = Some '''')"

definition nats_consumerLabel :: "subscription \<Rightarrow> string" where
  "nats_consumerLabel s =
     (let stream = nats_streamOf s in
      if stream = '''' then nats_consumerName s else stream @ ''/'' @ nats_consumerName s)"

definition nats_streamAlerts :: "alert_rule_prefs \<Rightarrow> destination \<Rightarrow> derived_alert list" where
  "nats_streamAlerts rules stream =
     (if rules StreamNoLeader \<and> nats_clusterName stream \<noteq> None \<and> nats_isLeaderless stream
      then [alert (''stream-no-leader-'' @ nats_streamName stream) StreamNoLeader Crit
              [(''stream'', PStr (nats_streamName stream)),
               (''replicas'', PInt (nullish (nats_replicas stream) 0))] None]
      else push_if (rules StreamUnderReplicated \<and> nats_replicasHealthy stream = Some False)
             (alert (''stream-replicas-'' @ nats_streamName stream) StreamUnderReplicated Warn
                [(''stream'', PStr (nats_streamName stream)),
                 (''replicas'', PInt (nullish (nats_replicas stream) 0))] None))"

definition nats_consumerAlerts ::
  "alert_rule_prefs \<Rightarrow> int \<Rightarrow> subscription \<Rightarrow> derived_alert list" where
  "nats_consumerAlerts rules lagThreshold consumer =
     (let pending = nats_backlog consumer; label = nats_consumerLabel consumer in
      if rules GroupOffline \<and> nats_isPush consumer \<and> nats_members consumer = Some 0 \<and> pending > 0
      then [alert (''consumer-unbound-'' @ label) GroupOffline Crit
              [(''group'', PStr label), (''lag'', PInt pending)] None]
      else push_if (rules GroupLag \<and> lagThreshold > 0 \<and> pending > lagThreshold)
             (alert (''consumer-lag-'' @ label) GroupLag Warn
                [(''group'', PStr label), (''lag'', PInt pending),
                 (''threshold'', PInt lagThreshold)] None))"

definition nats_serverAlerts :: "alert_rule_prefs \<Rightarrow> node \<Rightarrow> derived_alert list" where
  "nats_serverAlerts rules server =
     (let dropped = nullish (nats_slowConsumers server) (JFin 0) in
      push_if (rules SlowConsumer \<and> js_positive dropped)
        (alert (''slow-consumer-'' @ node_name server) SlowConsumer Warn
           [(''broker'', PStr (node_name server)), (''count'', PNum dropped)] None))"

definition deriveNatsAlerts ::
  "alert_facts \<Rightarrow> alert_rule_prefs \<Rightarrow> alert_thresholds \<Rightarrow> derived_alert list" where
  "deriveNatsAlerts facts rules thresholds =
     each (facts_destinations facts) (nats_streamAlerts rules) @
     each (facts_consumerGroups facts) (nats_consumerAlerts rules (th_lag thresholds)) @
     each (facts_nodes facts) (nats_serverAlerts rules)"

lemmas nats_derive_defs [derive_defs] =
  deriveNatsAlerts_def nats_streamAlerts_def nats_consumerAlerts_def nats_serverAlerts_def

abbreviation nats_rules :: "alert_rule_key list" where
  "nats_rules \<equiv> the (RULES_BY_KIND KindNATS)"

interpretation nats: alert_family deriveNatsAlerts nats_rules
  by unfold_locales (simp_all add: nats_derive_defs Let_def)

interpretation nats: threshold_family deriveNatsAlerts nats_rules
  by unfold_locales (simp_all add: nats_derive_defs Let_def)

interpretation nats: worded_family deriveNatsAlerts nats_rules
  by unfold_locales (simp_all add: nats_derive_defs Let_def worded_def)

definition nats_sample :: alert_facts where
  "nats_sample =
     NO_FACTS\<lparr>facts_destinations :=
               [blank_destination\<lparr>dest_ref := ref_of '''' ''a'',
                  dest_attributes := [(''clusterName'', ''c'')]\<rparr>,
                blank_destination\<lparr>dest_ref := ref_of '''' ''b'',
                  dest_attributes := [(''replicas'', show_nat 3), (''replicasHealthy'', show_nat 2)]\<rparr>],
             facts_consumerGroups :=
               [blank_subscription\<lparr>sub_ref := ref_of ''a'' ''x'', sub_backlog := 1,
                  sub_attributes := [(''consumerKind'', ''push'')]\<rparr>,
                blank_subscription\<lparr>sub_ref := ref_of ''a'' ''y'', sub_backlog := 11\<rparr>],
             facts_nodes :=
               [blank_node\<lparr>node_name := ''s'',
                  node_attributes := [(''slowConsumers'', show_nat 2)]\<rparr>]\<rparr>"

lemma nats_sample_rules:
  "map al_ruleKey (deriveNatsAlerts nats_sample DEFAULT_ALERT_RULES sample_limits) =
   [StreamNoLeader, StreamUnderReplicated, GroupOffline, GroupLag, SlowConsumer]"
  by (simp add: nats_sample_def nats_derive_defs reader_defs Let_def blank_node_def
      blank_destination_def blank_subscription_def attr_int_def attr_text_def
      nats_isLeaderless_def parse_float_show_nat)

interpretation nats: armed_family deriveNatsAlerts nats_rules KindNATS nats_sample sample_limits
proof unfold_locales
  show "gathered KindNATS nats_sample"
    by (simp add: gathered_def nats_sample_def KINDS_NEEDING_DESTINATIONS_def)
  show "set nats_rules \<subseteq> al_ruleKey ` set (deriveNatsAlerts nats_sample DEFAULT_ALERT_RULES sample_limits)"
    by (simp only: set_map [symmetric] nats_sample_rules) simp
qed

end
