(* ===== verification/FamilyActiveMQ.thy ===== *)
theory FamilyActiveMQ
  imports AlertTypes
begin

text \<open>
  ActiveMQ, Classic and Artemis: the broker, destination, durable subscription and
  connection records (frontend/src/mq/activemq/cluster.ts, destinations.ts,
  subscriptions.ts) and the alert rules (frontend/src/mq/activemq/alerts.ts).
\<close>

section \<open>Brokers\<close>

record activemq_node =
  amn_name :: string
  amn_address :: string
  amn_version :: string
  amn_status :: node_status
  amn_product :: string
  amn_bridge :: bool
  amn_uptime :: "string option"
  amn_nodeId :: "string option"
  amn_persistent :: "bool option"
  amn_dataDirectory :: "string option"
  amn_diskUsage :: "int option"
  amn_storePercent :: "rat option"
  amn_tempPercent :: "rat option"
  amn_memoryPercent :: "rat option"
  amn_memoryLimit :: "rat option"
  amn_totalMessages :: "rat option"
  amn_totalEnqueued :: "rat option"
  amn_totalDequeued :: "rat option"
  amn_connections :: "rat option"
  amn_consumers :: "rat option"
  amn_producers :: "rat option"
  amn_acceptors :: "string list option"
  amn_clustered :: "bool option"
  amn_haPolicy :: "string option"
  amn_backup :: "bool option"
  amn_journalType :: "string option"
  amn_securityEnabled :: "bool option"

definition activemq_node_of :: "node \<Rightarrow> activemq_node" where
  "activemq_node_of row =
     (let as = node_attributes row in
      \<lparr>amn_name = node_name row,
       amn_address = node_address row,
       amn_version = node_version row,
       amn_status = node_status row,
       amn_product = nullish (attr_text as ''product'') ''classic'',
       amn_bridge = (attr_bool as ''bridge'' = Some True),
       amn_uptime = attr_text as ''uptime'',
       amn_nodeId = attr_text as ''nodeId'',
       amn_persistent = attr_bool as ''persistenceEnabled'',
       amn_dataDirectory = attr_text as ''dataDirectory'',
       amn_diskUsage = metric (node_diskUsage row),
       amn_storePercent = attr_number as ''storePercent'',
       amn_tempPercent = attr_number as ''tempPercent'',
       amn_memoryPercent = attr_number as ''memoryPercent'',
       amn_memoryLimit = attr_number as ''memoryLimit'',
       amn_totalMessages = attr_number as ''totalMessages'',
       amn_totalEnqueued = attr_number as ''totalEnqueued'',
       amn_totalDequeued = attr_number as ''totalDequeued'',
       amn_connections = attr_number as ''connections'',
       amn_consumers = attr_number as ''consumerCount'',
       amn_producers = attr_number as ''producerCount'',
       amn_acceptors = map_option (js_split (CHR '','')) (attr_text as ''acceptors''),
       amn_clustered = attr_bool as ''clustered'',
       amn_haPolicy = attr_text as ''haPolicy'',
       amn_backup = attr_bool as ''backup'',
       amn_journalType = attr_text as ''journalType'',
       amn_securityEnabled = attr_bool as ''securityEnabled''\<rparr>)"

section \<open>Connections\<close>

record activemq_connection =
  amc_name :: string
  amc_clientName :: string
  amc_user :: string
  amc_peer :: string
  amc_peerHost :: string
  amc_peerPort :: int
  amc_protocol :: string
  amc_state :: string
  amc_sessions :: jsnum
  amc_product :: string
  amc_connector :: "string option"
  amc_created :: "string option"
  amc_blocked :: "bool option"
  amc_slow :: "bool option"

definition activemq_connection_of :: "client_connection \<Rightarrow> activemq_connection" where
  "activemq_connection_of row =
     (let as = conn_attributes row in
      \<lparr>amc_name = conn_name row,
       amc_clientName = conn_clientName row,
       amc_user = conn_user row,
       amc_peer = nullish (attr_text as ''remoteAddress'')
                    (conn_peerHost row @ '':'' @ show_int (conn_peerPort row)),
       amc_peerHost = conn_peerHost row,
       amc_peerPort = conn_peerPort row,
       amc_protocol = conn_protocol row,
       amc_state = conn_state row,
       amc_sessions = (case attr_text as ''sessions'' of
                         Some raw \<Rightarrow> js_Number raw | None \<Rightarrow> js_of_int (conn_channels row)),
       amc_product = nullish (attr_text as ''product'') ''classic'',
       amc_connector = attr_text as ''connector'',
       amc_created = attr_text as ''created'',
       amc_blocked = attr_bool as ''blocked'',
       amc_slow = attr_bool as ''slow''\<rparr>)"

section \<open>Destinations\<close>

record activemq_destination =
  amd_name :: string
  amd_product :: string
  amd_kind :: string
  amd_depth :: "int option"
  amd_subscribers :: "int option"
  amd_consumers :: "rat option"
  amd_producers :: "rat option"
  amd_enqueued :: "rat option"
  amd_dequeued :: "rat option"
  amd_dispatched :: "rat option"
  amd_expired :: "rat option"
  amd_inFlight :: "rat option"
  amd_scheduled :: "rat option"
  amd_bytes :: "rat option"
  amd_memoryPercent :: "rat option"
  amd_averageMessageSize :: "rat option"
  amd_paused :: "bool option"
  amd_durable :: "bool option"
  amd_internal :: "bool option"
  amd_temporary :: "bool option"
  amd_autoCreated :: "bool option"
  amd_deadLetterAddress :: "string option"
  amd_expiryAddress :: "string option"
  amd_isDeadLetter :: bool
  amd_address :: "string option"
  amd_routingTypes :: "string option"
  amd_filter :: "string option"
  amd_queueCount :: "rat option"
  amd_browseCap :: "rat option"

definition activemq_destination_of :: "destination \<Rightarrow> activemq_destination" where
  "activemq_destination_of row =
     (let as = dest_attributes row in
      \<lparr>amd_name = dest_name row,
       amd_product = nullish (attr_text as ''product'') ''classic'',
       amd_kind = nullish (attr_text as ''kind'') ''queue'',
       amd_depth = metric (dest_depth row),
       amd_subscribers = metric (dest_subscribers row),
       amd_consumers = attr_number as ''consumerCount'',
       amd_producers = attr_number as ''producerCount'',
       amd_enqueued = attr_number as ''enqueueCount'',
       amd_dequeued = attr_number as ''dequeueCount'',
       amd_dispatched = attr_number as ''dispatchCount'',
       amd_expired = attr_number as ''expiredCount'',
       amd_inFlight = attr_number as ''inFlightCount'',
       amd_scheduled = attr_number as ''scheduledCount'',
       amd_bytes = attr_number as ''memoryUsage'',
       amd_memoryPercent = attr_number as ''memoryPercent'',
       amd_averageMessageSize = attr_number as ''averageMessageSize'',
       amd_paused = attr_bool as ''paused'',
       amd_durable = attr_bool as ''durable'',
       amd_internal = attr_bool as ''internal'',
       amd_temporary = attr_bool as ''temporary'',
       amd_autoCreated = attr_bool as ''autoCreated'',
       amd_deadLetterAddress = attr_text as ''deadLetterAddress'',
       amd_expiryAddress = attr_text as ''expiryAddress'',
       amd_isDeadLetter = (attr_bool as ''isDeadLetter'' = Some True),
       amd_address = attr_text as ''address'',
       amd_routingTypes = attr_text as ''routingTypes'',
       amd_filter = attr_text as ''filter'',
       amd_queueCount = attr_number as ''queueCount'',
       amd_browseCap = attr_number as ''browseCap''\<rparr>)"

definition activemq_browseWillBeCapped :: "activemq_destination \<Rightarrow> bool" where
  "activemq_browseWillBeCapped entry =
     (case (amd_browseCap entry, amd_depth entry) of
        (Some cap, Some depth) \<Rightarrow> of_int depth > cap
      | _ \<Rightarrow> False)"

section \<open>Durable subscriptions\<close>

record activemq_subscription =
  ams_name :: string
  ams_topic :: string
  ams_product :: string
  ams_clientId :: "string option"
  ams_subscriptionName :: "string option"
  ams_backlog :: "int option"
  ams_members :: int
  ams_pendingAck :: "rat option"
  ams_dispatched :: "rat option"
  ams_consumed :: "rat option"
  ams_prefetch :: "rat option"
  ams_selector :: "string option"
  ams_durable :: "bool option"
  ams_active :: bool
  ams_slow :: "bool option"
  ams_deadLetterAddress :: "string option"
  ams_status :: subscription_status

definition activemq_subscription_of :: "subscription \<Rightarrow> activemq_subscription" where
  "activemq_subscription_of row =
     (let as = sub_attributes row in
      \<lparr>ams_name = sub_name row,
       ams_topic = sub_namespace row,
       ams_product = nullish (attr_text as ''product'') ''classic'',
       ams_clientId = attr_text as ''clientId'',
       ams_subscriptionName = attr_text as ''subscriptionName'',
       ams_backlog = metric (sub_backlog row),
       ams_members = sub_members row,
       ams_pendingAck = attr_number as ''pendingAck'',
       ams_dispatched = attr_number as ''dispatched'',
       ams_consumed = attr_number as ''consumed'',
       ams_prefetch = attr_number as ''prefetchSize'',
       ams_selector = attr_text as ''selector'',
       ams_durable = attr_bool as ''durable'',
       ams_active = (attr_bool as ''active'' = Some True),
       ams_slow = attr_bool as ''slowConsumer'',
       ams_deadLetterAddress = attr_text as ''deadLetterAddress'',
       ams_status = sub_status row\<rparr>)"

lemmas activemq_reader_defs [reader_defs] = activemq_node_of_def activemq_destination_of_def

lemma activemq_depth_nonneg: "amd_depth (activemq_destination_of d) = Some n \<Longrightarrow> 0 \<le> n"
  by (simp add: activemq_destination_of_def metric_Some Let_def)

section \<open>Alerts\<close>

text \<open>The memory watermark is fixed: the settings page has no threshold for it.\<close>

definition activemq_MEMORY_WATERMARK :: rat where
  "activemq_MEMORY_WATERMARK = 90"

definition activemq_destinationAlerts ::
  "alert_rule_prefs \<Rightarrow> int \<Rightarrow> destination \<Rightarrow> derived_alert list" where
  "activemq_destinationAlerts rules lagThreshold row =
     (let entry = activemq_destination_of row; depth = nullish (amd_depth entry) 0 in
      if amd_isDeadLetter entry
      then push_if (rules DlqGrowth \<and> depth > 0)
             (alert (''dlq-'' @ amd_name entry) DlqGrowth Warn
                [(''group'', PStr (amd_name entry)), (''count'', PInt depth)] None)
      else if amd_kind entry \<noteq> ''queue'' then []
      else if rules QueueNoConsumer \<and> depth > 0 \<and> nullish (amd_consumers entry) 0 = 0
      then [alert (''queue-no-consumer-'' @ amd_name entry) QueueNoConsumer Warn
              [(''queue'', PStr (amd_name entry)), (''lag'', PInt depth)] None]
      else push_if (rules QueueBacklog \<and> lagThreshold > 0 \<and> depth \<ge> lagThreshold)
             (alert (''queue-backlog-'' @ amd_name entry) QueueBacklog Warn
                [(''queue'', PStr (amd_name entry)), (''lag'', PInt depth),
                 (''threshold'', PInt lagThreshold)] None))"

definition activemq_brokerAlerts ::
  "alert_rule_prefs \<Rightarrow> int \<Rightarrow> node \<Rightarrow> derived_alert list" where
  "activemq_brokerAlerts rules diskThreshold row =
     (let broker = activemq_node_of row;
          disk = nullish (amn_diskUsage broker) 0;
          memory = nullish (amn_memoryPercent broker) 0
      in if amn_bridge broker then []
         else
           push_if (rules DiskUsage \<and> diskThreshold > 0 \<and> disk \<ge> diskThreshold)
             (alert (''disk-'' @ amn_name broker) DiskUsage (if disk \<ge> 95 then Crit else Warn)
                [(''broker'', PStr (amn_name broker)), (''usage'', PInt disk),
                 (''threshold'', PInt diskThreshold)] None) @
           push_if (rules MemoryUsage \<and> memory \<ge> activemq_MEMORY_WATERMARK)
             (alert (''memory-'' @ amn_name broker) MemoryUsage (if memory \<ge> 98 then Crit else Warn)
                [(''broker'', PStr (amn_name broker)), (''usage'', PNum (JFin memory)),
                 (''threshold'', PNum (JFin activemq_MEMORY_WATERMARK))] None))"

definition deriveActiveMQAlerts ::
  "alert_facts \<Rightarrow> alert_rule_prefs \<Rightarrow> alert_thresholds \<Rightarrow> derived_alert list" where
  "deriveActiveMQAlerts facts rules thresholds =
     each (facts_destinations facts) (activemq_destinationAlerts rules (th_lag thresholds)) @
     each (facts_nodes facts) (activemq_brokerAlerts rules (th_disk thresholds))"

lemmas activemq_derive_defs [derive_defs] =
  deriveActiveMQAlerts_def activemq_destinationAlerts_def activemq_brokerAlerts_def

lemma activemq_one_per_destination: "length (activemq_destinationAlerts r l d) \<le> 1"
  by (simp add: activemq_destinationAlerts_def push_if_def Let_def)

lemma activemq_topic_quiet:
  "amd_kind (activemq_destination_of d) = ''topic'' \<Longrightarrow>
   \<not> amd_isDeadLetter (activemq_destination_of d) \<Longrightarrow> activemq_destinationAlerts r l d = []"
  by (simp add: activemq_destinationAlerts_def Let_def)

abbreviation activemq_rules :: "alert_rule_key list" where
  "activemq_rules \<equiv> the (RULES_BY_KIND KindActiveMQ)"

interpretation activemq: alert_family deriveActiveMQAlerts activemq_rules
  by unfold_locales (simp_all add: activemq_derive_defs Let_def)

interpretation activemq: threshold_family deriveActiveMQAlerts activemq_rules
  by unfold_locales (simp_all add: activemq_derive_defs Let_def)

interpretation activemq: worded_family deriveActiveMQAlerts activemq_rules
  by unfold_locales (simp_all add: activemq_derive_defs Let_def worded_def)

definition activemq_sample :: alert_facts where
  "activemq_sample =
     NO_FACTS\<lparr>facts_destinations :=
               [blank_destination\<lparr>dest_ref := ref_of '''' ''a'', dest_depth := 1,
                  dest_attributes := [(''isDeadLetter'', ''true'')]\<rparr>,
                blank_destination\<lparr>dest_ref := ref_of '''' ''b'', dest_depth := 1\<rparr>,
                blank_destination\<lparr>dest_ref := ref_of '''' ''c'', dest_depth := 10,
                  dest_attributes := [(''consumerCount'', show_nat 1)]\<rparr>],
             facts_nodes :=
               [blank_node\<lparr>node_name := ''n'', node_diskUsage := 80,
                  node_attributes := [(''memoryPercent'', show_nat 92)]\<rparr>]\<rparr>"

lemma activemq_sample_rules:
  "map al_ruleKey (deriveActiveMQAlerts activemq_sample DEFAULT_ALERT_RULES sample_limits) =
   [DlqGrowth, QueueNoConsumer, QueueBacklog, DiskUsage, MemoryUsage]"
  by (simp add: activemq_sample_def activemq_derive_defs reader_defs Let_def blank_node_def
      blank_destination_def attr_bool_def attr_number_def attr_text_def metric_def
      activemq_MEMORY_WATERMARK_def js_Number_show_nat)

interpretation activemq: armed_family deriveActiveMQAlerts activemq_rules KindActiveMQ activemq_sample sample_limits
proof unfold_locales
  show "gathered KindActiveMQ activemq_sample"
    by (simp add: gathered_def activemq_sample_def KINDS_NEEDING_DESTINATIONS_def)
  show "set activemq_rules \<subseteq> al_ruleKey ` set (deriveActiveMQAlerts activemq_sample DEFAULT_ALERT_RULES sample_limits)"
    by (simp only: set_map [symmetric] activemq_sample_rules) simp
qed

end
