(* ===== verification/FamilyNsq.thy ===== *)
theory FamilyNsq
  imports AlertTypes
begin

text \<open>
  NSQ: topics and channels (frontend/src/mq/nsq/destinations.ts, subscriptions.ts) and the
  alert rules over them (frontend/src/mq/nsq/alerts.ts).
\<close>

section \<open>Topics\<close>

record nsq_topic =
  nqt_name :: string
  nqt_depth :: "int option"
  nqt_topicDepth :: "rat option"
  nqt_channelDepth :: "rat option"
  nqt_backendDepth :: "rat option"
  nqt_channels :: "string list"
  nqt_messages :: "rat option"
  nqt_bytes :: "rat option"
  nqt_inFlight :: "rat option"
  nqt_deferred :: "rat option"
  nqt_requeued :: "rat option"
  nqt_timedOut :: "rat option"
  nqt_paused :: bool
  nqt_ephemeral :: bool
  nqt_nodes :: "string list"

definition nsq_topic_of :: "destination \<Rightarrow> nsq_topic" where
  "nsq_topic_of row =
     (let as = dest_attributes row in
      \<lparr>nqt_name = dest_name row,
       nqt_depth = metric (dest_depth row),
       nqt_topicDepth = attr_number as ''topicDepth'',
       nqt_channelDepth = attr_number as ''channelDepth'',
       nqt_backendDepth = attr_number as ''backendDepth'',
       nqt_channels = attr_list as ''channels'',
       nqt_messages = attr_number as ''messageCount'',
       nqt_bytes = attr_number as ''messageBytes'',
       nqt_inFlight = attr_number as ''inFlight'',
       nqt_deferred = attr_number as ''deferred'',
       nqt_requeued = attr_number as ''requeued'',
       nqt_timedOut = attr_number as ''timedOut'',
       nqt_paused = (attr_text as ''paused'' = Some ''true''),
       nqt_ephemeral = (attr_text as ''ephemeral'' = Some ''true''),
       nqt_nodes = attr_list as ''nodes''\<rparr>)"

definition nsq_holdingUndelivered :: "nsq_topic \<Rightarrow> bool" where
  "nsq_holdingUndelivered entry =
     (case nqt_topicDepth entry of None \<Rightarrow> False | Some d \<Rightarrow> d > 0)"

section \<open>Channels\<close>

record nsq_channel =
  nqc_topic :: string
  nqc_name :: string
  nqc_backlog :: "int option"
  nqc_backendDepth :: "rat option"
  nqc_clients :: int
  nqc_inFlight :: "rat option"
  nqc_deferred :: "rat option"
  nqc_requeued :: "rat option"
  nqc_timedOut :: "rat option"
  nqc_messages :: "rat option"
  nqc_paused :: bool
  nqc_ephemeral :: bool
  nqc_nodes :: "string list"

definition nsq_channel_of :: "subscription \<Rightarrow> nsq_channel" where
  "nsq_channel_of row =
     (let as = sub_attributes row in
      \<lparr>nqc_topic = nullish (attr_text as ''topic'') (sub_namespace row),
       nqc_name = sub_name row,
       nqc_backlog = metric (sub_backlog row),
       nqc_backendDepth = attr_number as ''backendDepth'',
       nqc_clients = sub_members row,
       nqc_inFlight = attr_number as ''inFlight'',
       nqc_deferred = attr_number as ''deferred'',
       nqc_requeued = attr_number as ''requeued'',
       nqc_timedOut = attr_number as ''timedOut'',
       nqc_messages = attr_number as ''messageCount'',
       nqc_paused = (attr_text as ''paused'' = Some ''true''),
       nqc_ephemeral = (attr_text as ''ephemeral'' = Some ''true''),
       nqc_nodes = filter (\<lambda>e. e \<noteq> '''')
                     (js_split (CHR '','') (nullish (attr_text as ''nodes'') ''''))\<rparr>)"

definition nsq_channelKey :: "nsq_channel \<Rightarrow> string" where
  "nsq_channelKey entry = nqc_topic entry @ ''/'' @ nqc_name entry"

definition nsq_stalledByPause :: "nsq_channel \<Rightarrow> bool" where
  "nsq_stalledByPause entry = (nqc_paused entry \<and> nullish (nqc_backlog entry) 0 > 0)"

lemmas nsq_reader_defs [reader_defs] = nsq_topic_of_def nsq_channel_of_def nsq_channelKey_def

lemma nsq_channel_key_inj:
  assumes "CHR ''/'' \<notin> set (nqc_topic a)" "CHR ''/'' \<notin> set (nqc_topic b)"
    and "nsq_channelKey a = nsq_channelKey b"
  shows "nqc_topic a = nqc_topic b \<and> nqc_name a = nqc_name b"
proof -
  have "js_split (CHR ''/'') (nsq_channelKey c) = nqc_topic c # js_split (CHR ''/'') (nqc_name c)"
    if "CHR ''/'' \<notin> set (nqc_topic c)" for c
    using that by (simp add: nsq_channelKey_def js_split_append_sep)
  with assms have "nqc_topic a = nqc_topic b" by (metis list.inject)
  with assms(3) show ?thesis by (simp add: nsq_channelKey_def)
qed

section \<open>Alerts\<close>

definition nsq_channelAlerts ::
  "alert_rule_prefs \<Rightarrow> int \<Rightarrow> subscription \<Rightarrow> derived_alert list" where
  "nsq_channelAlerts rules lagThreshold row =
     (let entry = nsq_channel_of row; name = nsq_channelKey entry;
          backlog = nullish (nqc_backlog entry) 0
      in if rules DeliveryPaused \<and> nqc_paused entry \<and> backlog > 0
         then [alert (''channel-paused-'' @ name) DeliveryPaused Warn
                 [(''target'', PStr name), (''lag'', PInt backlog)] None]
         else if rules GroupOffline \<and> backlog > 0 \<and> nqc_clients entry = 0
         then [alert (''channel-no-consumer-'' @ name) GroupOffline Warn
                 [(''group'', PStr name), (''lag'', PInt backlog)] None]
         else push_if (rules GroupLag \<and> lagThreshold > 0 \<and> backlog \<ge> lagThreshold)
                (alert (''channel-lag-'' @ name) GroupLag Warn
                   [(''group'', PStr name), (''lag'', PInt backlog),
                    (''threshold'', PInt lagThreshold)] None))"

definition nsq_topicAlerts :: "alert_rule_prefs \<Rightarrow> destination \<Rightarrow> derived_alert list" where
  "nsq_topicAlerts rules row =
     (let entry = nsq_topic_of row; held = nullish (nqt_topicDepth entry) 0 in
      if rules DeliveryPaused \<and> nqt_paused entry \<and> held > 0
      then [alert (''topic-paused-'' @ nqt_name entry) DeliveryPaused Warn
              [(''target'', PStr (nqt_name entry)), (''lag'', PNum (JFin held))] None]
      else push_if (rules QueueNoConsumer \<and> held > 0 \<and> length (nqt_channels entry) = 0)
             (alert (''topic-no-channel-'' @ nqt_name entry) QueueNoConsumer Warn
                [(''queue'', PStr (nqt_name entry)), (''lag'', PNum (JFin held))] None))"

definition deriveNsqAlerts ::
  "alert_facts \<Rightarrow> alert_rule_prefs \<Rightarrow> alert_thresholds \<Rightarrow> derived_alert list" where
  "deriveNsqAlerts facts rules thresholds =
     each (facts_consumerGroups facts) (nsq_channelAlerts rules (th_lag thresholds)) @
     each (facts_destinations facts) (nsq_topicAlerts rules)"

lemmas nsq_derive_defs [derive_defs] =
  deriveNsqAlerts_def nsq_channelAlerts_def nsq_topicAlerts_def

text \<open>A paused channel with a backlog is reported as paused, whatever its consumers.\<close>

lemma nsq_paused_channel:
  "rules DeliveryPaused \<Longrightarrow> nsq_stalledByPause (nsq_channel_of row) \<Longrightarrow>
   map al_ruleKey (nsq_channelAlerts rules lag row) = [DeliveryPaused]"
  by (simp add: nsq_channelAlerts_def nsq_stalledByPause_def Let_def)

abbreviation nsq_rules :: "alert_rule_key list" where
  "nsq_rules \<equiv> the (RULES_BY_KIND KindNSQ)"

interpretation nsq: alert_family deriveNsqAlerts nsq_rules
  by unfold_locales (simp_all add: nsq_derive_defs Let_def)

interpretation nsq: threshold_family deriveNsqAlerts nsq_rules
  by unfold_locales (simp_all add: nsq_derive_defs Let_def)

interpretation nsq: worded_family deriveNsqAlerts nsq_rules
  by unfold_locales (simp_all add: nsq_derive_defs Let_def worded_def)

definition nsq_sample :: alert_facts where
  "nsq_sample =
     NO_FACTS\<lparr>facts_consumerGroups :=
               [blank_subscription\<lparr>sub_ref := ref_of ''t'' ''a'', sub_backlog := 1,
                  sub_attributes := [(''paused'', ''true'')]\<rparr>,
                blank_subscription\<lparr>sub_ref := ref_of ''t'' ''b'', sub_backlog := 1\<rparr>,
                blank_subscription\<lparr>sub_ref := ref_of ''t'' ''c'', sub_backlog := 10,
                  sub_members := 1\<rparr>],
             facts_destinations :=
               [blank_destination\<lparr>dest_ref := ref_of '''' ''t'',
                  dest_attributes := [(''topicDepth'', show_nat 1)]\<rparr>]\<rparr>"

lemma nsq_sample_rules:
  "map al_ruleKey (deriveNsqAlerts nsq_sample DEFAULT_ALERT_RULES sample_limits) =
   [DeliveryPaused, GroupOffline, GroupLag, QueueNoConsumer]"
  by (simp add: nsq_sample_def nsq_derive_defs reader_defs Let_def blank_subscription_def
      blank_destination_def attr_number_def attr_text_def attr_list_def metric_def
      js_Number_show_nat)

interpretation nsq: armed_family deriveNsqAlerts nsq_rules KindNSQ nsq_sample sample_limits
proof unfold_locales
  show "gathered KindNSQ nsq_sample"
    by (simp add: gathered_def nsq_sample_def KINDS_NEEDING_DESTINATIONS_def)
  show "set nsq_rules \<subseteq> al_ruleKey ` set (deriveNsqAlerts nsq_sample DEFAULT_ALERT_RULES sample_limits)"
    by (simp only: set_map [symmetric] nsq_sample_rules) simp
qed

end
