(* ===== verification/FamilySqs.thy ===== *)
theory FamilySqs
  imports AlertTypes
begin

text \<open>
  Amazon SQS: the queue record (frontend/src/mq/sqs/destinations.ts) and the alert rules over
  the listing (frontend/src/mq/sqs/alerts.ts), which first collect the queues some other
  queue names as its dead-letter target.
\<close>

record sqs_queue =
  sqq_name :: string
  sqq_url :: "string option"
  sqq_arn :: "string option"
  sqq_depth :: "int option"
  sqq_visible :: "rat option"
  sqq_inFlight :: "rat option"
  sqq_delayed :: "rat option"
  sqq_fifo :: bool
  sqq_visibilityTimeoutSec :: "rat option"
  sqq_delaySec :: "rat option"
  sqq_retentionSec :: "rat option"
  sqq_maxMessageBytes :: "rat option"
  sqq_receiveWaitSec :: "rat option"
  sqq_createdAtMs :: "rat option"
  sqq_modifiedAtMs :: "rat option"
  sqq_deadLetterQueue :: "string option"
  sqq_maxReceiveCount :: "rat option"
  sqq_encrypted :: bool
  sqq_contentBasedDeduplication :: "bool option"
  sqq_deduplicationScope :: "string option"
  sqq_fifoThroughputLimit :: "string option"

text \<open>SQS reports seconds since the epoch; the record holds milliseconds.\<close>

definition sqs_millis :: "attrs \<Rightarrow> string \<Rightarrow> rat option" where
  "sqs_millis as k = map_option (\<lambda>seconds. seconds * 1000) (attr_number as k)"

definition sqs_queue_of :: "destination \<Rightarrow> sqs_queue" where
  "sqs_queue_of row =
     (let as = dest_attributes row in
      \<lparr>sqq_name = dest_name row,
       sqq_url = attr_text as ''url'',
       sqq_arn = attr_text as ''arn'',
       sqq_depth = metric (dest_depth row),
       sqq_visible = attr_number as ''visible'',
       sqq_inFlight = attr_number as ''inFlight'',
       sqq_delayed = attr_number as ''delayed'',
       sqq_fifo = (attr_bool as ''fifo'' = Some True),
       sqq_visibilityTimeoutSec = attr_number as ''visibilityTimeoutSec'',
       sqq_delaySec = attr_number as ''delaySec'',
       sqq_retentionSec = attr_number as ''retentionSec'',
       sqq_maxMessageBytes = attr_number as ''maxMessageBytes'',
       sqq_receiveWaitSec = attr_number as ''receiveWaitSec'',
       sqq_createdAtMs = sqs_millis as ''createdAt'',
       sqq_modifiedAtMs = sqs_millis as ''modifiedAt'',
       sqq_deadLetterQueue = attr_text as ''deadLetterQueue'',
       sqq_maxReceiveCount = attr_number as ''maxReceiveCount'',
       sqq_encrypted = (attr_bool as ''encrypted'' = Some True),
       sqq_contentBasedDeduplication = attr_bool as ''contentBasedDeduplication'',
       sqq_deduplicationScope = attr_text as ''deduplicationScope'',
       sqq_fifoThroughputLimit = attr_text as ''fifoThroughputLimit''\<rparr>)"

definition sqs_stalledInFlight :: "sqs_queue \<Rightarrow> bool" where
  "sqs_stalledInFlight entry =
     (nullish (sqq_inFlight entry) 0 > 0 \<and> nullish (sqq_visible entry) 0 = 0 \<and>
      nullish (sqq_delayed entry) 0 = 0)"

lemmas sqs_reader_defs [reader_defs] = sqs_queue_of_def

section \<open>Alerts\<close>

definition sqs_deadLetterTargets :: "sqs_queue list \<Rightarrow> string list" where
  "sqs_deadLetterTargets queues =
     concat (map (\<lambda>entry. case sqq_deadLetterQueue entry of None \<Rightarrow> [] | Some q \<Rightarrow> [q]) queues)"

definition sqs_queueAlerts ::
  "alert_rule_prefs \<Rightarrow> int \<Rightarrow> string list \<Rightarrow> sqs_queue \<Rightarrow> derived_alert list" where
  "sqs_queueAlerts rules lagThreshold targets entry =
     (let visible = nullish (sqq_visible entry) 0 in
      if rules DlqGrowth \<and> sqq_name entry \<in> set targets \<and> visible > 0
      then [alert (''dlq-'' @ sqq_name entry) DlqGrowth Warn
              [(''group'', PStr (sqq_name entry)), (''count'', PNum (JFin visible))] None]
      else push_if (rules QueueBacklog \<and> lagThreshold > 0 \<and> visible \<ge> of_int lagThreshold)
             (alert (''queue-backlog-'' @ sqq_name entry) QueueBacklog Warn
                [(''queue'', PStr (sqq_name entry)), (''lag'', PNum (JFin visible)),
                 (''threshold'', PInt lagThreshold)] None))"

definition deriveSqsAlerts ::
  "alert_facts \<Rightarrow> alert_rule_prefs \<Rightarrow> alert_thresholds \<Rightarrow> derived_alert list" where
  "deriveSqsAlerts facts rules thresholds =
     (let queues = map sqs_queue_of (facts_destinations facts) in
      each queues (sqs_queueAlerts rules (th_lag thresholds) (sqs_deadLetterTargets queues)))"

lemmas sqs_derive_defs [derive_defs] = deriveSqsAlerts_def sqs_queueAlerts_def

text \<open>A dead-letter alert names a queue of the listing that another queue points at.\<close>

lemma sqs_dlq_targeted:
  "a \<in> set (sqs_queueAlerts r l targets q) \<Longrightarrow> al_ruleKey a = DlqGrowth \<Longrightarrow> sqq_name q \<in> set targets"
  by (auto simp: sqs_queueAlerts_def push_if_def Let_def split: if_splits)

lemma sqs_targets:
  "n \<in> set (sqs_deadLetterTargets qs) \<longleftrightarrow> (\<exists>q \<in> set qs. sqq_deadLetterQueue q = Some n)"
  by (force simp: sqs_deadLetterTargets_def split: option.splits)

abbreviation sqs_rules :: "alert_rule_key list" where
  "sqs_rules \<equiv> the (RULES_BY_KIND KindSQS)"

interpretation sqs: alert_family deriveSqsAlerts sqs_rules
  by unfold_locales (simp_all add: sqs_derive_defs Let_def)

interpretation sqs: threshold_family deriveSqsAlerts sqs_rules
  by unfold_locales (simp_all add: sqs_derive_defs Let_def)

interpretation sqs: worded_family deriveSqsAlerts sqs_rules
  by unfold_locales (simp_all add: sqs_derive_defs Let_def worded_def)

definition sqs_sample :: alert_facts where
  "sqs_sample =
     NO_FACTS\<lparr>facts_destinations :=
               [blank_destination\<lparr>dest_ref := ref_of '''' ''a'',
                  dest_attributes := [(''deadLetterQueue'', ''b''), (''visible'', show_nat 10)]\<rparr>,
                blank_destination\<lparr>dest_ref := ref_of '''' ''b'',
                  dest_attributes := [(''visible'', show_nat 1)]\<rparr>]\<rparr>"

lemma sqs_sample_rules:
  "map al_ruleKey (deriveSqsAlerts sqs_sample DEFAULT_ALERT_RULES sample_limits) =
   [QueueBacklog, DlqGrowth]"
  by (simp add: sqs_sample_def sqs_derive_defs reader_defs Let_def blank_destination_def
      sqs_deadLetterTargets_def attr_number_def attr_text_def js_Number_show_nat)

interpretation sqs: armed_family deriveSqsAlerts sqs_rules KindSQS sqs_sample sample_limits
proof unfold_locales
  show "gathered KindSQS sqs_sample"
    by (simp add: gathered_def sqs_sample_def KINDS_NEEDING_DESTINATIONS_def)
  show "set sqs_rules \<subseteq> al_ruleKey ` set (deriveSqsAlerts sqs_sample DEFAULT_ALERT_RULES sample_limits)"
    by (simp only: set_map [symmetric] sqs_sample_rules) simp
qed

end
