(* ===== verification/FamilyGooglePubSub.thy ===== *)
theory FamilyGooglePubSub
  imports AlertTypes
begin

text \<open>
  Google Cloud Pub/Sub: topics and subscriptions (frontend/src/mq/googlepubsub/topics.ts,
  subscriptions.ts) and the alert rules over them (frontend/src/mq/googlepubsub/alerts.ts).
  The labels, which the readers sort by locale, are a function of their own over the
  collation: \<open>collate\<close> ranks a string as \<open>localeCompare\<close> does, and every total preorder of
  strings is one of a rational rank.
\<close>

section \<open>Topics\<close>

record pubsub_topic =
  pst_name :: string
  pst_path :: "string option"
  pst_subscribers :: int
  pst_subscriptionNames :: "string list"
  pst_retentionSec :: "rat option"
  pst_kmsKey :: "string option"
  pst_schema :: "string option"
  pst_schemaEncoding :: "string option"
  pst_storageRegions :: "string list"
  pst_state :: "string option"

definition pubsub_topic_of :: "destination \<Rightarrow> pubsub_topic" where
  "pubsub_topic_of row =
     (let as = dest_attributes row in
      \<lparr>pst_name = dest_name row,
       pst_path = attr_text as ''path'',
       pst_subscribers = dest_subscribers row,
       pst_subscriptionNames = attr_list_nonempty as ''subscriptionNames'',
       pst_retentionSec = attr_number as ''retentionSec'',
       pst_kmsKey = attr_text as ''kmsKey'',
       pst_schema = attr_text as ''schema'',
       pst_schemaEncoding = attr_text as ''schemaEncoding'',
       pst_storageRegions = attr_list_nonempty as ''storageRegions'',
       pst_state = attr_text as ''state''\<rparr>)"

definition pubsub_labels :: "(string \<Rightarrow> rat) \<Rightarrow> attrs \<Rightarrow> (string \<times> string) list" where
  "pubsub_labels collate as =
     sort_key (\<lambda>(k, v). collate k)
       (map (\<lambda>(k, v). (drop (length ''label.'') k, v)) (filter (\<lambda>(k, v). prefix ''label.'' k) as))"

definition pubsub_discardsEverything :: "pubsub_topic \<Rightarrow> bool" where
  "pubsub_discardsEverything entry = (pst_subscribers entry = 0)"

lemma pubsub_label_iff:
  "(l, v) \<in> set (pubsub_labels collate as) \<longleftrightarrow> (''label.'' @ l, v) \<in> set as"
  by (force simp: pubsub_labels_def prefix_def)

section \<open>Subscriptions\<close>

record pubsub_subscription =
  pss_name :: string
  pss_path :: "string option"
  pss_topic :: string
  pss_orphaned :: bool
  pss_ackDeadlineSec :: "rat option"
  pss_retentionSec :: "rat option"
  pss_retainAcked :: bool
  pss_expirationTtlSec :: "rat option"
  pss_filter :: "string option"
  pss_ordering :: bool
  pss_exactlyOnce :: bool
  pss_delivery :: string
  pss_pushEndpoint :: "string option"
  pss_deadLetterTopic :: "string option"
  pss_maxDeliveryAttempts :: "rat option"
  pss_retryMinBackoffSec :: "rat option"
  pss_retryMaxBackoffSec :: "rat option"
  pss_detached :: bool
  pss_state :: "string option"

definition DELETED_TOPIC :: string where
  "DELETED_TOPIC = ''_deleted-topic_''"

definition pubsub_subscription_of :: "subscription \<Rightarrow> pubsub_subscription" where
  "pubsub_subscription_of row =
     (let as = sub_attributes row; topic = nullish (attr_text as ''topic'') '''' in
      \<lparr>pss_name = sub_name row,
       pss_path = attr_text as ''path'',
       pss_topic = topic,
       pss_orphaned = (topic = DELETED_TOPIC),
       pss_ackDeadlineSec = attr_number as ''ackDeadlineSec'',
       pss_retentionSec = attr_number as ''retentionSec'',
       pss_retainAcked = (attr_text as ''retainAcked'' = Some ''true''),
       pss_expirationTtlSec = attr_number as ''expirationTtlSec'',
       pss_filter = attr_text as ''filter'',
       pss_ordering = (attr_text as ''messageOrdering'' = Some ''true''),
       pss_exactlyOnce = (attr_text as ''exactlyOnce'' = Some ''true''),
       pss_delivery = nullish (attr_text as ''delivery'') ''pull'',
       pss_pushEndpoint = attr_text as ''pushEndpoint'',
       pss_deadLetterTopic = attr_text as ''deadLetterTopic'',
       pss_maxDeliveryAttempts = attr_number as ''maxDeliveryAttempts'',
       pss_retryMinBackoffSec = attr_number as ''retryMinBackoffSec'',
       pss_retryMaxBackoffSec = attr_number as ''retryMaxBackoffSec'',
       pss_detached = (attr_text as ''detached'' = Some ''true''),
       pss_state = attr_text as ''state''\<rparr>)"

definition pubsub_receivesNothing :: "pubsub_subscription \<Rightarrow> bool" where
  "pubsub_receivesNothing entry = (pss_orphaned entry \<or> pss_detached entry)"

lemmas pubsub_reader_defs [reader_defs] = pubsub_topic_of_def pubsub_subscription_of_def

section \<open>Alerts\<close>

definition pubsub_topicAlerts :: "destination \<Rightarrow> derived_alert list" where
  "pubsub_topicAlerts row =
     (let entry = pubsub_topic_of row in
      if pst_subscribers entry \<noteq> 0 then []
      else [alert (''topic-unsubscribed-'' @ pst_name entry) TopicUnsubscribed Warn
              [(''topic'', PStr (pst_name entry))] None])"

definition pubsub_subscriptionAlerts :: "subscription \<Rightarrow> derived_alert list" where
  "pubsub_subscriptionAlerts row =
     (let entry = pubsub_subscription_of row in
      if \<not> pss_orphaned entry then []
      else [alert (''subscription-orphaned-'' @ pss_name entry) SubscriptionOrphaned Warn
              [(''subscription'', PStr (pss_name entry))] None])"

definition deriveGooglePubSubAlerts ::
  "alert_facts \<Rightarrow> alert_rule_prefs \<Rightarrow> alert_thresholds \<Rightarrow> derived_alert list" where
  "deriveGooglePubSubAlerts facts rules thresholds =
     (if rules TopicUnsubscribed then each (facts_destinations facts) pubsub_topicAlerts else []) @
     (if rules SubscriptionOrphaned
      then each (facts_consumerGroups facts) pubsub_subscriptionAlerts else [])"

lemmas pubsub_derive_defs [derive_defs] =
  deriveGooglePubSubAlerts_def pubsub_topicAlerts_def pubsub_subscriptionAlerts_def

lemma pubsub_thresholds_unread:
  "deriveGooglePubSubAlerts f r t = deriveGooglePubSubAlerts f r u"
  by (simp add: deriveGooglePubSubAlerts_def)

abbreviation pubsub_rules :: "alert_rule_key list" where
  "pubsub_rules \<equiv> the (RULES_BY_KIND KindGooglePubSub)"

interpretation pubsub: alert_family deriveGooglePubSubAlerts pubsub_rules
  by unfold_locales (simp_all add: pubsub_derive_defs Let_def)

interpretation pubsub: threshold_family deriveGooglePubSubAlerts pubsub_rules
  by unfold_locales (simp_all add: pubsub_derive_defs Let_def)

interpretation pubsub: worded_family deriveGooglePubSubAlerts pubsub_rules
  by unfold_locales (simp_all add: pubsub_derive_defs Let_def worded_def)

definition pubsub_sample :: alert_facts where
  "pubsub_sample =
     NO_FACTS\<lparr>facts_destinations :=
               [blank_destination\<lparr>dest_ref := ref_of '''' ''t'', dest_subscribers := 0\<rparr>],
             facts_consumerGroups :=
               [blank_subscription\<lparr>sub_ref := ref_of '''' ''s'',
                  sub_attributes := [(''topic'', ''_deleted-topic_'')]\<rparr>]\<rparr>"

lemma pubsub_sample_rules:
  "map al_ruleKey (deriveGooglePubSubAlerts pubsub_sample DEFAULT_ALERT_RULES sample_limits) =
   [TopicUnsubscribed, SubscriptionOrphaned]"
  by (simp add: pubsub_sample_def pubsub_derive_defs reader_defs Let_def blank_destination_def
      blank_subscription_def attr_text_def DELETED_TOPIC_def)

interpretation pubsub: armed_family deriveGooglePubSubAlerts pubsub_rules KindGooglePubSub pubsub_sample sample_limits
proof unfold_locales
  show "gathered KindGooglePubSub pubsub_sample"
    by (simp add: gathered_def pubsub_sample_def KINDS_NEEDING_DESTINATIONS_def)
  show "set pubsub_rules \<subseteq> al_ruleKey ` set (deriveGooglePubSubAlerts pubsub_sample DEFAULT_ALERT_RULES sample_limits)"
    by (simp only: set_map [symmetric] pubsub_sample_rules) simp
qed

end
