(* ===== verification/FamilyAzureServiceBus.thy ===== *)
theory FamilyAzureServiceBus
  imports AlertTypes
begin

text \<open>
  Azure Service Bus: queues and topics as one entity record, and subscriptions
  (frontend/src/mq/azureservicebus/entities.ts, subscriptions.ts), and the alert rules over
  them (frontend/src/mq/azureservicebus/alerts.ts).
\<close>

section \<open>Entities\<close>

datatype servicebus_kind = EntityQueue | EntityTopic

record servicebus_entity =
  sbe_name :: string
  sbe_kind :: servicebus_kind
  sbe_depth :: "int option"
  sbe_deadLetterCount :: "rat option"
  sbe_scheduledCount :: "rat option"
  sbe_subscribers :: "int option"
  sbe_subscriptionNames :: "string list"
  sbe_status :: "string option"
  sbe_lockDurationSec :: "rat option"
  sbe_maxDeliveryCount :: "rat option"
  sbe_ttlSec :: "rat option"
  sbe_autoDeleteOnIdleSec :: "rat option"
  sbe_maxSizeMb :: "rat option"
  sbe_requiresSession :: bool
  sbe_requiresDuplicateDetection :: bool
  sbe_deadLetterOnExpiry :: bool
  sbe_partitioned :: bool
  sbe_forwardTo :: "string option"
  sbe_forwardDeadLettersTo :: "string option"

definition servicebus_entity_of :: "destination \<Rightarrow> servicebus_entity" where
  "servicebus_entity_of row =
     (let as = dest_attributes row;
          kind = (if attr_text as ''entityType'' = Some ''topic'' then EntityTopic else EntityQueue)
      in
      \<lparr>sbe_name = dest_name row,
       sbe_kind = kind,
       sbe_depth = (if dest_depth row < 0 then None else Some (dest_depth row)),
       sbe_deadLetterCount = attr_number as ''deadLetterCount'',
       sbe_scheduledCount = attr_number as ''scheduledCount'',
       sbe_subscribers = (if kind = EntityTopic then Some (dest_subscribers row) else None),
       sbe_subscriptionNames = attr_list_nonempty as ''subscriptionNames'',
       sbe_status = attr_text as ''status'',
       sbe_lockDurationSec = attr_number as ''lockDurationSec'',
       sbe_maxDeliveryCount = attr_number as ''maxDeliveryCount'',
       sbe_ttlSec = attr_number as ''ttlSec'',
       sbe_autoDeleteOnIdleSec = attr_number as ''autoDeleteOnIdleSec'',
       sbe_maxSizeMb = attr_number as ''maxSizeMb'',
       sbe_requiresSession = (attr_text as ''requiresSession'' = Some ''true''),
       sbe_requiresDuplicateDetection = (attr_text as ''requiresDuplicateDetection'' = Some ''true''),
       sbe_deadLetterOnExpiry = (attr_text as ''deadLetterOnExpiry'' = Some ''true''),
       sbe_partitioned = (attr_text as ''partitioned'' = Some ''true''),
       sbe_forwardTo = attr_text as ''forwardTo'',
       sbe_forwardDeadLettersTo = attr_text as ''forwardDeadLettersTo''\<rparr>)"

definition servicebus_discardsEverything :: "servicebus_entity \<Rightarrow> bool" where
  "servicebus_discardsEverything row = (sbe_kind row = EntityTopic \<and> sbe_subscribers row = Some 0)"

definition servicebus_isDisabled :: "servicebus_entity \<Rightarrow> bool" where
  "servicebus_isDisabled row = (sbe_status row \<noteq> None \<and> sbe_status row \<noteq> Some ''Active'')"

section \<open>Subscriptions\<close>

record servicebus_subscription =
  sbs_name :: string
  sbs_topic :: string
  sbs_backlog :: "int option"
  sbs_deadLetterCount :: "rat option"
  sbs_ruleNames :: "string list"
  sbs_status :: "string option"
  sbs_lockDurationSec :: "rat option"
  sbs_maxDeliveryCount :: "rat option"
  sbs_ttlSec :: "rat option"
  sbs_autoDeleteOnIdleSec :: "rat option"
  sbs_requiresSession :: bool
  sbs_deadLetterOnExpiry :: bool
  sbs_deadLetterOnRuleError :: bool
  sbs_forwardTo :: "string option"
  sbs_forwardDeadLettersTo :: "string option"

definition servicebus_subscription_of :: "subscription \<Rightarrow> servicebus_subscription" where
  "servicebus_subscription_of row =
     (let as = sub_attributes row in
      \<lparr>sbs_name = sub_name row,
       sbs_topic = js_or (sub_namespace row) (nullish (attr_text as ''topic'') ''''),
       sbs_backlog = (if sub_backlog row < 0 then None else Some (sub_backlog row)),
       sbs_deadLetterCount = attr_number as ''deadLetterCount'',
       sbs_ruleNames = attr_list_nonempty as ''ruleNames'',
       sbs_status = attr_text as ''status'',
       sbs_lockDurationSec = attr_number as ''lockDurationSec'',
       sbs_maxDeliveryCount = attr_number as ''maxDeliveryCount'',
       sbs_ttlSec = attr_number as ''ttlSec'',
       sbs_autoDeleteOnIdleSec = attr_number as ''autoDeleteOnIdleSec'',
       sbs_requiresSession = (attr_text as ''requiresSession'' = Some ''true''),
       sbs_deadLetterOnExpiry = (attr_text as ''deadLetterOnExpiry'' = Some ''true''),
       sbs_deadLetterOnRuleError = (attr_text as ''deadLetterOnRuleError'' = Some ''true''),
       sbs_forwardTo = attr_text as ''forwardTo'',
       sbs_forwardDeadLettersTo = attr_text as ''forwardDeadLettersTo''\<rparr>)"

definition servicebus_receivesNothing :: "servicebus_subscription \<Rightarrow> bool" where
  "servicebus_receivesNothing row = (length (sbs_ruleNames row) = 0)"

lemmas servicebus_reader_defs [reader_defs] =
  servicebus_entity_of_def servicebus_subscription_of_def

section \<open>Alerts\<close>

text \<open>The status and the dead-letter alert of an entity or a subscription, named by \<open>path\<close>.\<close>

definition servicebus_statusAlerts ::
  "alert_rule_prefs \<Rightarrow> string \<Rightarrow> string option \<Rightarrow> derived_alert list" where
  "servicebus_statusAlerts rules path status =
     (case status of
        None \<Rightarrow> []
      | Some s \<Rightarrow>
          push_if (rules EntityDisabled \<and> s \<noteq> ''Active'')
            (alert (''entity-disabled-'' @ path) EntityDisabled Warn
               [(''entity'', PStr path), (''status'', PStr s)] None))"

definition servicebus_dlqAlerts ::
  "alert_rule_prefs \<Rightarrow> string \<Rightarrow> rat option \<Rightarrow> derived_alert list" where
  "servicebus_dlqAlerts rules path dead =
     (case dead of
        None \<Rightarrow> []
      | Some n \<Rightarrow>
          push_if (rules DlqGrowth \<and> n > 0)
            (alert (''dlq-'' @ path) DlqGrowth Warn
               [(''group'', PStr path), (''count'', PNum (JFin n))] None))"

definition servicebus_entityAlerts :: "alert_rule_prefs \<Rightarrow> destination \<Rightarrow> derived_alert list" where
  "servicebus_entityAlerts rules dest =
     (let row = servicebus_entity_of dest in
      push_if (rules TopicUnsubscribed \<and> sbe_kind row = EntityTopic \<and> sbe_subscribers row = Some 0)
        (alert (''topic-unsubscribed-'' @ sbe_name row) TopicUnsubscribed Warn
           [(''topic'', PStr (sbe_name row))] None) @
      servicebus_statusAlerts rules (sbe_name row) (sbe_status row) @
      servicebus_dlqAlerts rules (sbe_name row) (sbe_deadLetterCount row))"

definition servicebus_subscriptionAlerts ::
  "alert_rule_prefs \<Rightarrow> subscription \<Rightarrow> derived_alert list" where
  "servicebus_subscriptionAlerts rules sub =
     (let row = servicebus_subscription_of sub; path = sbs_topic row @ ''/'' @ sbs_name row in
      push_if (rules SubscriptionUnroutable \<and> length (sbs_ruleNames row) = 0)
        (alert (''subscription-unroutable-'' @ path) SubscriptionUnroutable Warn
           [(''subscription'', PStr path)] None) @
      servicebus_statusAlerts rules path (sbs_status row) @
      servicebus_dlqAlerts rules path (sbs_deadLetterCount row))"

definition deriveAzureServiceBusAlerts ::
  "alert_facts \<Rightarrow> alert_rule_prefs \<Rightarrow> alert_thresholds \<Rightarrow> derived_alert list" where
  "deriveAzureServiceBusAlerts facts rules thresholds =
     each (facts_destinations facts) (servicebus_entityAlerts rules) @
     each (facts_consumerGroups facts) (servicebus_subscriptionAlerts rules)"

lemmas servicebus_derive_defs [derive_defs] =
  deriveAzureServiceBusAlerts_def servicebus_entityAlerts_def servicebus_subscriptionAlerts_def
  servicebus_statusAlerts_def servicebus_dlqAlerts_def

text \<open>The disabled alert is raised of exactly the entities the page marks as disabled.\<close>

lemma servicebus_disabled_alert:
  "rules EntityDisabled \<Longrightarrow>
   servicebus_statusAlerts rules path (sbe_status row) \<noteq> [] \<longleftrightarrow> servicebus_isDisabled row"
  by (auto simp: servicebus_statusAlerts_def servicebus_isDisabled_def push_if_def split: option.splits)

abbreviation servicebus_rules :: "alert_rule_key list" where
  "servicebus_rules \<equiv> the (RULES_BY_KIND KindAzureServiceBus)"

interpretation servicebus: alert_family deriveAzureServiceBusAlerts servicebus_rules
  by unfold_locales (simp_all add: servicebus_derive_defs Let_def)

interpretation servicebus: threshold_family deriveAzureServiceBusAlerts servicebus_rules
  by unfold_locales (simp_all add: servicebus_derive_defs Let_def)

interpretation servicebus: worded_family deriveAzureServiceBusAlerts servicebus_rules
  by unfold_locales (simp_all add: servicebus_derive_defs Let_def worded_def)

definition servicebus_sample :: alert_facts where
  "servicebus_sample =
     NO_FACTS\<lparr>facts_destinations :=
               [blank_destination\<lparr>dest_ref := ref_of '''' ''t'', dest_subscribers := 0,
                  dest_attributes := [(''entityType'', ''topic''), (''status'', ''Disabled''),
                    (''deadLetterCount'', show_nat 1)]\<rparr>],
             facts_consumerGroups := [blank_subscription\<lparr>sub_ref := ref_of ''t'' ''s''\<rparr>]\<rparr>"

lemma servicebus_sample_rules:
  "map al_ruleKey (deriveAzureServiceBusAlerts servicebus_sample DEFAULT_ALERT_RULES sample_limits) =
   [TopicUnsubscribed, EntityDisabled, DlqGrowth, SubscriptionUnroutable]"
  by (simp add: servicebus_sample_def servicebus_derive_defs reader_defs Let_def
      blank_destination_def blank_subscription_def attr_number_def attr_text_def
      attr_list_nonempty_def attr_list_def js_Number_show_nat)

interpretation servicebus: armed_family deriveAzureServiceBusAlerts servicebus_rules KindAzureServiceBus servicebus_sample sample_limits
proof unfold_locales
  show "gathered KindAzureServiceBus servicebus_sample"
    by (simp add: gathered_def servicebus_sample_def KINDS_NEEDING_DESTINATIONS_def)
  show "set servicebus_rules \<subseteq> al_ruleKey ` set (deriveAzureServiceBusAlerts servicebus_sample DEFAULT_ALERT_RULES sample_limits)"
    by (simp only: set_map [symmetric] servicebus_sample_rules) simp
qed

end
