(* ===== verification/FamilyKinesis.thy ===== *)
theory FamilyKinesis
  imports AlertTypes
begin

text \<open>
  Amazon Kinesis: streams and registered consumers (frontend/src/mq/kinesis/destinations.ts,
  subscriptions.ts) and the alert rules over their status (frontend/src/mq/kinesis/alerts.ts).
\<close>

record kinesis_stream =
  kns_name :: string
  kns_arn :: "string option"
  kns_status :: "string option"
  kns_mode :: "string option"
  kns_openShards :: "rat option"
  kns_consumers :: "rat option"
  kns_retentionHours :: "rat option"
  kns_createdAtMs :: "rat option"
  kns_encryption :: "string option"
  kns_kmsKeyId :: "string option"
  kns_shardMetrics :: "string list"

text \<open>\<open>number(\<dots>) ?? metric(\<dots>)\<close>: the summary's figure, or else the canonical one.\<close>

definition kinesis_figure :: "rat option \<Rightarrow> int \<Rightarrow> rat option" where
  "kinesis_figure x v = (case x of Some r \<Rightarrow> Some r | None \<Rightarrow> map_option of_int (metric v))"

definition kinesis_stream_of :: "destination \<Rightarrow> kinesis_stream" where
  "kinesis_stream_of row =
     (let as = dest_attributes row in
      \<lparr>kns_name = dest_name row,
       kns_arn = attr_text as ''arn'',
       kns_status = attr_text as ''status'',
       kns_mode = attr_text as ''streamMode'',
       kns_openShards = kinesis_figure (attr_number as ''openShards'') (dest_partitions row),
       kns_consumers = kinesis_figure (attr_number as ''consumers'') (dest_subscribers row),
       kns_retentionHours = attr_number as ''retentionHours'',
       kns_createdAtMs = attr_number as ''createdAt'',
       kns_encryption = attr_text as ''encryption'',
       kns_kmsKeyId = attr_text as ''kmsKeyId'',
       kns_shardMetrics = attr_list as ''shardLevelMetrics''\<rparr>)"

definition kinesis_settling :: "kinesis_stream \<Rightarrow> bool" where
  "kinesis_settling entry = (kns_status entry \<noteq> None \<and> kns_status entry \<noteq> Some ''ACTIVE'')"

text \<open>Retention in whole days where it is one, and in hours otherwise; an hour count here.\<close>

definition kinesis_retention :: "int option \<Rightarrow> string option" where
  "kinesis_retention hours =
     (case hours of
        None \<Rightarrow> None
      | Some h \<Rightarrow>
          if h < 24 then Some (show_int h @ ''h'')
          else if h mod 24 = 0 then Some (show_int (h div 24) @ ''d'')
          else Some (show_int h @ ''h''))"

record kinesis_consumer =
  knc_name :: string
  knc_stream :: string
  knc_arn :: "string option"
  knc_status :: "string option"
  knc_registeredAtMs :: "rat option"

definition kinesis_consumer_of :: "subscription \<Rightarrow> kinesis_consumer" where
  "kinesis_consumer_of row =
     (let as = sub_attributes row in
      \<lparr>knc_name = sub_name row,
       knc_stream = nullish (attr_text as ''stream'') (sub_namespace row),
       knc_arn = attr_text as ''consumerArn'',
       knc_status = attr_text as ''consumerStatus'',
       knc_registeredAtMs = attr_number as ''createdAt''\<rparr>)"

definition kinesis_consumerSettling :: "kinesis_consumer \<Rightarrow> bool" where
  "kinesis_consumerSettling entry = (knc_status entry \<noteq> None \<and> knc_status entry \<noteq> Some ''ACTIVE'')"

lemmas kinesis_reader_defs [reader_defs] = kinesis_stream_of_def kinesis_consumer_of_def

section \<open>Alerts\<close>

definition kinesis_streamAlerts :: "destination \<Rightarrow> derived_alert list" where
  "kinesis_streamAlerts row =
     (let entry = kinesis_stream_of row in
      case kns_status entry of
        None \<Rightarrow> []
      | Some status \<Rightarrow>
          push_if (status \<noteq> ''ACTIVE'')
            (alert (''stream-not-active-'' @ kns_name entry) StreamNotActive Warn
               [(''stream'', PStr (kns_name entry)), (''status'', PStr status)] None))"

definition kinesis_consumerAlerts :: "subscription \<Rightarrow> derived_alert list" where
  "kinesis_consumerAlerts row =
     (let entry = kinesis_consumer_of row in
      case knc_status entry of
        None \<Rightarrow> []
      | Some status \<Rightarrow>
          push_if (status \<noteq> ''ACTIVE'')
            (alert (''consumer-not-active-'' @ knc_stream entry @ ''-'' @ knc_name entry)
               ConsumerNotActive Warn
               [(''consumer'', PStr (knc_name entry)), (''stream'', PStr (knc_stream entry)),
                (''status'', PStr status)] None))"

definition deriveKinesisAlerts ::
  "alert_facts \<Rightarrow> alert_rule_prefs \<Rightarrow> alert_thresholds \<Rightarrow> derived_alert list" where
  "deriveKinesisAlerts facts rules thresholds =
     (if rules StreamNotActive then each (facts_destinations facts) kinesis_streamAlerts else []) @
     (if rules ConsumerNotActive
      then each (facts_consumerGroups facts) kinesis_consumerAlerts else [])"

lemmas kinesis_derive_defs [derive_defs] =
  deriveKinesisAlerts_def kinesis_streamAlerts_def kinesis_consumerAlerts_def

lemma kinesis_settling_alert:
  "kinesis_streamAlerts row \<noteq> [] \<longleftrightarrow> kinesis_settling (kinesis_stream_of row)"
  by (auto simp: kinesis_streamAlerts_def kinesis_settling_def push_if_def Let_def
      split: option.splits)

abbreviation kinesis_rules :: "alert_rule_key list" where
  "kinesis_rules \<equiv> the (RULES_BY_KIND KindKinesis)"

interpretation kinesis: alert_family deriveKinesisAlerts kinesis_rules
  by unfold_locales (simp_all add: kinesis_derive_defs Let_def)

interpretation kinesis: threshold_family deriveKinesisAlerts kinesis_rules
  by unfold_locales (simp_all add: kinesis_derive_defs Let_def)

interpretation kinesis: worded_family deriveKinesisAlerts kinesis_rules
  by unfold_locales (simp_all add: kinesis_derive_defs Let_def worded_def)

definition kinesis_sample :: alert_facts where
  "kinesis_sample =
     NO_FACTS\<lparr>facts_destinations :=
               [blank_destination\<lparr>dest_ref := ref_of '''' ''s'',
                  dest_attributes := [(''status'', ''CREATING'')]\<rparr>],
             facts_consumerGroups :=
               [blank_subscription\<lparr>sub_ref := ref_of ''s'' ''c'',
                  sub_attributes := [(''consumerStatus'', ''DELETING'')]\<rparr>]\<rparr>"

lemma kinesis_sample_rules:
  "map al_ruleKey (deriveKinesisAlerts kinesis_sample DEFAULT_ALERT_RULES sample_limits) =
   [StreamNotActive, ConsumerNotActive]"
  by (simp add: kinesis_sample_def kinesis_derive_defs reader_defs Let_def
      blank_destination_def blank_subscription_def attr_text_def)

interpretation kinesis: armed_family deriveKinesisAlerts kinesis_rules KindKinesis kinesis_sample sample_limits
proof unfold_locales
  show "gathered KindKinesis kinesis_sample"
    by (simp add: gathered_def kinesis_sample_def KINDS_NEEDING_DESTINATIONS_def)
  show "set kinesis_rules \<subseteq> al_ruleKey ` set (deriveKinesisAlerts kinesis_sample DEFAULT_ALERT_RULES sample_limits)"
    by (simp only: set_map [symmetric] kinesis_sample_rules) simp
qed

end
