(* ===== verification/FamilyIbmMq.thy ===== *)
theory FamilyIbmMq
  imports AlertTypes
begin

text \<open>
  IBM MQ: queues and topics as one record, subscriptions, and the health of a channel
  (frontend/src/mq/ibmmq/destinations.ts, subscriptions.ts, channels.ts), and the alert rules
  over the queues (frontend/src/mq/ibmmq/alerts.ts).
\<close>

section \<open>Destinations\<close>

record ibmmq_destination =
  imd_name :: string
  imd_kind :: string
  imd_description :: "string option"
  imd_queueType :: "string option"
  imd_depth :: "int option"
  imd_maxDepth :: "rat option"
  imd_maxMessageLength :: "rat option"
  imd_openInput :: "rat option"
  imd_openOutput :: "rat option"
  imd_uncommitted :: "rat option"
  imd_oldestMessageAgeSec :: "rat option"
  imd_lastPut :: "string option"
  imd_lastGet :: "string option"
  imd_inhibitGet :: bool
  imd_inhibitPut :: bool
  imd_transmissionQueue :: bool
  imd_backoutQueue :: "string option"
  imd_backoutThreshold :: "rat option"
  imd_cluster :: "string option"
  imd_deadLetterQueue :: bool
  imd_topicString :: "string option"
  imd_topicType :: "string option"
  imd_subscribers :: "int option"
  imd_altered :: "string option"

definition ibmmq_destination_of :: "destination \<Rightarrow> ibmmq_destination" where
  "ibmmq_destination_of row =
     (let as = dest_attributes row; kind = nullish (attr_text as ''kind'') ''queue'' in
      \<lparr>imd_name = dest_name row,
       imd_kind = kind,
       imd_description = attr_text as ''description'',
       imd_queueType = (if kind = ''queue'' then attr_text as ''queueType'' else None),
       imd_depth = metric (dest_depth row),
       imd_maxDepth = attr_number as ''maxDepth'',
       imd_maxMessageLength = attr_number as ''maxMessageLength'',
       imd_openInput = attr_number as ''openInput'',
       imd_openOutput = attr_number as ''openOutput'',
       imd_uncommitted = attr_number as ''uncommitted'',
       imd_oldestMessageAgeSec = attr_number as ''oldestMessageAgeSec'',
       imd_lastPut = attr_text as ''lastPut'',
       imd_lastGet = attr_text as ''lastGet'',
       imd_inhibitGet = attr_is_true as ''inhibitGet'',
       imd_inhibitPut = attr_is_true as ''inhibitPut'',
       imd_transmissionQueue = attr_is_true as ''transmissionQueue'',
       imd_backoutQueue = attr_text as ''backoutQueue'',
       imd_backoutThreshold = attr_number as ''backoutThreshold'',
       imd_cluster = attr_text as ''cluster'',
       imd_deadLetterQueue = attr_is_true as ''deadLetterQueue'',
       imd_topicString = attr_text as ''topicString'',
       imd_topicType = attr_text as ''topicType'',
       imd_subscribers = (if kind = ''topic'' then metric (dest_subscribers row) else None),
       imd_altered = attr_text as ''altered''\<rparr>)"

definition ibmmq_inhibited :: "ibmmq_destination \<Rightarrow> bool" where
  "ibmmq_inhibited entry = (imd_inhibitGet entry \<or> imd_inhibitPut entry)"

section \<open>Subscriptions\<close>

record ibmmq_subscription =
  ims_name :: string
  ims_topicString :: "string option"
  ims_destination :: "string option"
  ims_destinationQueueManager :: "string option"
  ims_durable :: bool
  ims_kind :: "string option"
  ims_user :: "string option"
  ims_selector :: "string option"
  ims_subscriptionId :: "string option"
  ims_messagesReceived :: "rat option"
  ims_lastMessageAt :: "string option"
  ims_attached :: bool
  ims_queueReaders :: "rat option"
  ims_backlog :: "int option"

definition ibmmq_subscription_of :: "subscription \<Rightarrow> ibmmq_subscription" where
  "ibmmq_subscription_of row =
     (let as = sub_attributes row in
      \<lparr>ims_name = sub_name row,
       ims_topicString = attr_text as ''topicString'',
       ims_destination = attr_text as ''destination'',
       ims_destinationQueueManager = attr_text as ''destinationQueueManager'',
       ims_durable = (attr_text as ''durable'' = Some ''yes''),
       ims_kind = attr_text as ''subscriptionType'',
       ims_user = attr_text as ''user'',
       ims_selector = attr_text as ''selector'',
       ims_subscriptionId = attr_text as ''subscriptionId'',
       ims_messagesReceived = attr_number as ''messagesReceived'',
       ims_lastMessageAt = attr_text as ''lastMessageAt'',
       ims_attached = (attr_text as ''attached'' = Some ''true''),
       ims_queueReaders = attr_number as ''queueReaders'',
       ims_backlog = metric (sub_backlog row)\<rparr>)"

text \<open>A subscription whose queue fills with nobody on either end.\<close>

definition ibmmq_unread :: "ibmmq_subscription \<Rightarrow> bool" where
  "ibmmq_unread entry =
     (nullish (ims_backlog entry) 0 > 0 \<and> \<not> ims_attached entry \<and> nullish (ims_queueReaders entry) 0 = 0)"

section \<open>Channels\<close>

text \<open>The states and types are the enumerations of the canonical channel.\<close>

datatype channel_status =
    ChannelStatusZero | ChannelInactive | ChannelRunning | ChannelStarting | ChannelBinding
  | ChannelInitializing | ChannelRetrying | ChannelStopping | ChannelStopped | ChannelPaused
  | ChannelRequesting | ChannelSwitching

datatype channel_type =
    ChannelTypeZero | ChannelServerConnection | ChannelClientConnection | ChannelSender
  | ChannelReceiver | ChannelServer | ChannelRequester | ChannelClusterSender
  | ChannelClusterReceiver | ChannelAMQP

definition ibmmq_UNHEALTHY :: "channel_status list" where
  "ibmmq_UNHEALTHY = [ChannelRetrying, ChannelStopped, ChannelPaused]"

definition ibmmq_NEVER_RUNS :: "channel_type list" where
  "ibmmq_NEVER_RUNS = [ChannelClientConnection]"

definition ibmmq_running :: "channel_status \<Rightarrow> bool" where
  "ibmmq_running status = (status = ChannelRunning)"

definition ibmmq_unhealthy :: "channel_status \<Rightarrow> bool \<Rightarrow> bool" where
  "ibmmq_unhealthy status inDoubt =
     (if inDoubt then True else status \<noteq> ChannelStatusZero \<and> status \<in> set ibmmq_UNHEALTHY)"

definition ibmmq_statusExpected :: "channel_type \<Rightarrow> bool" where
  "ibmmq_statusExpected ctype = (ctype \<notin> set ibmmq_NEVER_RUNS)"

datatype channel_group = GroupClient | GroupMessage | GroupCluster

fun ibmmq_group :: "channel_type \<Rightarrow> channel_group" where
  "ibmmq_group ChannelServerConnection = GroupClient"
| "ibmmq_group ChannelClientConnection = GroupClient"
| "ibmmq_group ChannelAMQP = GroupClient"
| "ibmmq_group ChannelClusterSender = GroupCluster"
| "ibmmq_group ChannelClusterReceiver = GroupCluster"
| "ibmmq_group _ = GroupMessage"

lemma ibmmq_running_healthy: "ibmmq_running status \<Longrightarrow> ibmmq_unhealthy status inDoubt = inDoubt"
  by (simp add: ibmmq_running_def ibmmq_unhealthy_def ibmmq_UNHEALTHY_def)

lemmas ibmmq_reader_defs [reader_defs] = ibmmq_destination_of_def ibmmq_inhibited_def

section \<open>Alerts\<close>

definition ibmmq_inhibitedStatus :: "ibmmq_destination \<Rightarrow> string" where
  "ibmmq_inhibitedStatus entry =
     (if imd_inhibitPut entry
      then (if imd_inhibitGet entry then ''put and get inhibited'' else ''put inhibited'')
      else ''get inhibited'')"

text \<open>The rules after the inhibited one: a dead-letter queue and a transmission queue end there.\<close>

definition ibmmq_depthAlerts ::
  "alert_rule_prefs \<Rightarrow> int \<Rightarrow> ibmmq_destination \<Rightarrow> derived_alert list" where
  "ibmmq_depthAlerts rules lagThreshold entry =
     (let depth = nullish (imd_depth entry) 0 in
      if imd_deadLetterQueue entry
      then push_if (rules DlqGrowth \<and> depth > 0)
             (alert (''dlq-'' @ imd_name entry) DlqGrowth Warn
                [(''group'', PStr (imd_name entry)), (''count'', PInt depth)] None)
      else if rules TransmissionBacklog \<and> imd_transmissionQueue entry \<and> depth > 0
      then [alert (''transmission-'' @ imd_name entry) TransmissionBacklog Warn
              [(''queue'', PStr (imd_name entry)), (''count'', PInt depth)] None]
      else if rules QueueNoConsumer \<and> depth > 0 \<and> nullish (imd_openInput entry) 0 = 0
      then [alert (''queue-no-consumer-'' @ imd_name entry) QueueNoConsumer Warn
              [(''queue'', PStr (imd_name entry)), (''lag'', PInt depth)] None]
      else push_if (rules QueueBacklog \<and> lagThreshold > 0 \<and> depth \<ge> lagThreshold)
             (alert (''queue-backlog-'' @ imd_name entry) QueueBacklog Warn
                [(''queue'', PStr (imd_name entry)), (''lag'', PInt depth),
                 (''threshold'', PInt lagThreshold)] None))"

definition ibmmq_queueAlerts ::
  "alert_rule_prefs \<Rightarrow> int \<Rightarrow> destination \<Rightarrow> derived_alert list" where
  "ibmmq_queueAlerts rules lagThreshold row =
     (let entry = ibmmq_destination_of row in
      if imd_kind entry \<noteq> ''queue'' then []
      else
        push_if (rules EntityDisabled \<and> ibmmq_inhibited entry)
          (alert (''inhibited-'' @ imd_name entry) EntityDisabled Warn
             [(''entity'', PStr (imd_name entry)), (''status'', PStr (ibmmq_inhibitedStatus entry))]
             None) @
        ibmmq_depthAlerts rules lagThreshold entry)"

definition deriveIbmMqAlerts ::
  "alert_facts \<Rightarrow> alert_rule_prefs \<Rightarrow> alert_thresholds \<Rightarrow> derived_alert list" where
  "deriveIbmMqAlerts facts rules thresholds =
     each (facts_destinations facts) (ibmmq_queueAlerts rules (th_lag thresholds))"

lemmas ibmmq_derive_defs [derive_defs] =
  deriveIbmMqAlerts_def ibmmq_queueAlerts_def ibmmq_depthAlerts_def

lemma ibmmq_at_most_two: "length (ibmmq_queueAlerts r l d) \<le> 2"
  by (simp add: ibmmq_queueAlerts_def ibmmq_depthAlerts_def push_if_def Let_def)

abbreviation ibmmq_rules :: "alert_rule_key list" where
  "ibmmq_rules \<equiv> the (RULES_BY_KIND KindIBMMQ)"

interpretation ibmmq: alert_family deriveIbmMqAlerts ibmmq_rules
  by unfold_locales (simp_all add: ibmmq_derive_defs Let_def)

interpretation ibmmq: threshold_family deriveIbmMqAlerts ibmmq_rules
  by unfold_locales (simp_all add: ibmmq_derive_defs Let_def)

interpretation ibmmq: worded_family deriveIbmMqAlerts ibmmq_rules
  by unfold_locales (simp_all add: ibmmq_derive_defs Let_def worded_def)

definition ibmmq_sample :: alert_facts where
  "ibmmq_sample =
     NO_FACTS\<lparr>facts_destinations :=
               [blank_destination\<lparr>dest_ref := ref_of '''' ''a'', dest_depth := 1,
                  dest_attributes := [(''inhibitPut'', ''true''), (''deadLetterQueue'', ''true'')]\<rparr>,
                blank_destination\<lparr>dest_ref := ref_of '''' ''b'', dest_depth := 1,
                  dest_attributes := [(''transmissionQueue'', ''true'')]\<rparr>,
                blank_destination\<lparr>dest_ref := ref_of '''' ''c'', dest_depth := 1\<rparr>,
                blank_destination\<lparr>dest_ref := ref_of '''' ''d'', dest_depth := 10,
                  dest_attributes := [(''openInput'', show_nat 1)]\<rparr>]\<rparr>"

lemma ibmmq_sample_rules:
  "map al_ruleKey (deriveIbmMqAlerts ibmmq_sample DEFAULT_ALERT_RULES sample_limits) =
   [EntityDisabled, DlqGrowth, TransmissionBacklog, QueueNoConsumer, QueueBacklog]"
  by (simp add: ibmmq_sample_def ibmmq_derive_defs reader_defs Let_def blank_destination_def
      attr_number_def attr_text_def attr_is_true_def attr_str_def metric_def js_Number_show_nat)

interpretation ibmmq: armed_family deriveIbmMqAlerts ibmmq_rules KindIBMMQ ibmmq_sample sample_limits
proof unfold_locales
  show "gathered KindIBMMQ ibmmq_sample"
    by (simp add: gathered_def ibmmq_sample_def KINDS_NEEDING_DESTINATIONS_def)
  show "set ibmmq_rules \<subseteq> al_ruleKey ` set (deriveIbmMqAlerts ibmmq_sample DEFAULT_ALERT_RULES sample_limits)"
    by (simp only: set_map [symmetric] ibmmq_sample_rules) simp
qed

end
