(* ===== verification/FamilySolace.thy ===== *)
theory FamilySolace
  imports AlertTypes
begin

text \<open>
  Solace: queues, the broker and its clients (frontend/src/mq/solace/destinations.ts,
  cluster.ts, clients.ts) and the alert rules (frontend/src/mq/solace/alerts.ts), which read
  the listing twice: which queues exist, and which are named as a dead message queue.
\<close>

section \<open>Queues\<close>

record solace_destination =
  sod_name :: string
  sod_depth :: "int option"
  sod_boundConsumers :: "int option"
  sod_rateIn :: "int option"
  sod_rateOut :: "int option"
  sod_accessType :: "string option"
  sod_permission :: "string option"
  sod_owner :: "string option"
  sod_durable :: bool
  sod_ingressEnabled :: bool
  sod_egressEnabled :: bool
  sod_spoolUsageBytes :: "rat option"
  sod_maxSpoolUsageMb :: "rat option"
  sod_maxMsgSizeBytes :: "rat option"
  sod_partitionCount :: "rat option"
  sod_virtualRouter :: "string option"
  sod_createdByManagement :: bool
  sod_deadMsgQueue :: "string option"
  sod_maxRedeliveryCount :: "rat option"
  sod_respectTtlEnabled :: bool
  sod_maxTtlSec :: "rat option"
  sod_respectDmqEligibleEnabled :: bool
  sod_redeliveredMsgCount :: "rat option"
  sod_unackedMsgCount :: "rat option"
  sod_ttlExpiredToDmq :: "rat option"
  sod_redeliveryExceededToDmq :: "rat option"
  sod_spooledTotal :: "rat option"

definition solace_destination_of :: "destination \<Rightarrow> solace_destination" where
  "solace_destination_of row =
     (let as = dest_attributes row in
      \<lparr>sod_name = dest_name row,
       sod_depth = metric (dest_depth row),
       sod_boundConsumers = metric (dest_subscribers row),
       sod_rateIn = metric (dest_rateIn row),
       sod_rateOut = metric (dest_rateOut row),
       sod_accessType = attr_text as ''accessType'',
       sod_permission = attr_text as ''permission'',
       sod_owner = attr_text as ''owner'',
       sod_durable = attr_is_true as ''durable'',
       sod_ingressEnabled = attr_is_true as ''ingressEnabled'',
       sod_egressEnabled = attr_is_true as ''egressEnabled'',
       sod_spoolUsageBytes = attr_number as ''spoolUsageBytes'',
       sod_maxSpoolUsageMb = attr_number as ''maxSpoolUsageMb'',
       sod_maxMsgSizeBytes = attr_number as ''maxMsgSizeBytes'',
       sod_partitionCount = attr_number as ''partitionCount'',
       sod_virtualRouter = attr_text as ''virtualRouter'',
       sod_createdByManagement = attr_is_true as ''createdByManagement'',
       sod_deadMsgQueue = attr_text as ''deadMsgQueue'',
       sod_maxRedeliveryCount = attr_number as ''maxRedeliveryCount'',
       sod_respectTtlEnabled = attr_is_true as ''respectTtlEnabled'',
       sod_maxTtlSec = attr_number as ''maxTtlSec'',
       sod_respectDmqEligibleEnabled = attr_is_true as ''respectDmqEligibleEnabled'',
       sod_redeliveredMsgCount = attr_number as ''redeliveredMsgCount'',
       sod_unackedMsgCount = attr_number as ''txUnackedMsgCount'',
       sod_ttlExpiredToDmq = attr_number as ''ttlExpiredToDmqMsgCount'',
       sod_redeliveryExceededToDmq = attr_number as ''maxRedeliveryToDmqMsgCount'',
       sod_spooledTotal = attr_number as ''spooledMsgCountTotal''\<rparr>)"

definition solace_halted :: "solace_destination \<Rightarrow> bool" where
  "solace_halted entry = (\<not> sod_ingressEnabled entry \<or> \<not> sod_egressEnabled entry)"

definition solace_hasDeadMsgQueue :: "solace_destination \<Rightarrow> bool" where
  "solace_hasDeadMsgQueue entry =
     (sod_deadMsgQueue entry \<noteq> None \<and> sod_deadMsgQueue entry \<noteq> Some '''')"

section \<open>The broker\<close>

record solace_broker =
  sob_address :: string
  sob_version :: "string option"
  sob_msgVpn :: string
  sob_msgVpnState :: "string option"
  sob_online :: bool
  sob_rateIn :: "int option"
  sob_rateOut :: "int option"
  sob_spoolPercent :: "int option"
  sob_spoolUsedBytes :: "rat option"
  sob_spoolMaxMb :: "rat option"
  sob_brokerSpoolMaxMb :: "rat option"
  sob_spoolMsgCount :: "rat option"
  sob_maxConnections :: "rat option"
  sob_redundancyEnabled :: bool

definition solace_broker_of :: "node \<Rightarrow> solace_broker" where
  "solace_broker_of n =
     (let as = node_attributes n in
      \<lparr>sob_address = node_address n,
       sob_version = or_undefined (node_version n),
       sob_msgVpn = nullish (attr_text as ''msgVpn'') (node_cluster n),
       sob_msgVpnState = attr_text as ''msgVpnState'',
       sob_online = (node_status n = NodeOnline),
       sob_rateIn = metric (node_rateIn n),
       sob_rateOut = metric (node_rateOut n),
       sob_spoolPercent = metric (node_diskUsage n),
       sob_spoolUsedBytes = attr_number as ''spoolUsedBytes'',
       sob_spoolMaxMb = attr_number as ''spoolMaxMb'',
       sob_brokerSpoolMaxMb = attr_number as ''brokerSpoolMaxMb'',
       sob_spoolMsgCount = attr_number as ''spoolMsgCount'',
       sob_maxConnections = attr_number as ''maxConnections'',
       sob_redundancyEnabled = attr_is_true as ''redundancyEnabled''\<rparr>)"

section \<open>Clients\<close>

record solace_client =
  soc_name :: string
  soc_address :: string
  soc_username :: string
  soc_msgVpn :: string
  soc_platform :: "string option"
  soc_softwareVersion :: "string option"
  soc_clientProfile :: "string option"
  soc_aclProfile :: "string option"
  soc_description :: "string option"
  soc_uptimeSec :: "rat option"
  soc_slowSubscriber :: bool
  soc_tlsDowngraded :: bool
  soc_internal :: bool
  soc_binds :: int
  soc_recvBytes :: int
  soc_sendBytes :: int

definition solace_client_of :: "client_connection \<Rightarrow> solace_client" where
  "solace_client_of row =
     (let as = conn_attributes row in
      \<lparr>soc_name = conn_name row,
       soc_address = (if conn_peerPort row > 0
                      then conn_peerHost row @ '':'' @ show_int (conn_peerPort row)
                      else conn_peerHost row),
       soc_username = conn_user row,
       soc_msgVpn = conn_namespace row,
       soc_platform = attr_text as ''platform'',
       soc_softwareVersion = attr_text as ''softwareVersion'',
       soc_clientProfile = attr_text as ''clientProfile'',
       soc_aclProfile = attr_text as ''aclProfile'',
       soc_description = attr_text as ''description'',
       soc_uptimeSec = attr_number as ''uptimeSec'',
       soc_slowSubscriber = attr_is_true as ''slowSubscriber'',
       soc_tlsDowngraded = attr_is_true as ''tlsDowngraded'',
       soc_internal = attr_is_true as ''internal'',
       soc_binds = conn_channels row,
       soc_recvBytes = conn_recvBytes row,
       soc_sendBytes = conn_sendBytes row\<rparr>)"

definition solace_applications :: "solace_client list \<Rightarrow> solace_client list" where
  "solace_applications clients = filter (\<lambda>entry. \<not> soc_internal entry) clients"

lemmas solace_reader_defs [reader_defs] = solace_destination_of_def solace_halted_def

section \<open>Alerts\<close>

definition solace_CRITICAL_SPOOL :: int where
  "solace_CRITICAL_SPOOL = 95"

text \<open>Whether the broker ever gives up on a message of the queue.\<close>

definition solace_willGiveUp :: "rat option \<Rightarrow> bool \<Rightarrow> rat option \<Rightarrow> bool" where
  "solace_willGiveUp maxRedeliveryCount respectTtl maxTtlSec =
     (if nullish maxRedeliveryCount 0 > 0 then True else respectTtl \<and> nullish maxTtlSec 0 > 0)"

definition solace_deadMsgQueues :: "solace_destination list \<Rightarrow> string list" where
  "solace_deadMsgQueues queues =
     concat (map (\<lambda>entry. case sod_deadMsgQueue entry of
                     None \<Rightarrow> [] | Some q \<Rightarrow> if q \<noteq> '''' then [q] else []) queues)"

definition solace_haltedStatus :: "solace_destination \<Rightarrow> string" where
  "solace_haltedStatus entry =
     (if \<not> sod_ingressEnabled entry
      then (if sod_egressEnabled entry then ''ingress disabled'' else ''ingress and egress disabled'')
      else ''egress disabled'')"

definition solace_missingAlerts ::
  "alert_rule_prefs \<Rightarrow> string list \<Rightarrow> solace_destination \<Rightarrow> derived_alert list" where
  "solace_missingAlerts rules names entry =
     (case sod_deadMsgQueue entry of
        None \<Rightarrow> []
      | Some target \<Rightarrow>
          push_if (rules DeadMsgQueueMissing \<and> target \<noteq> '''' \<and> target \<notin> set names \<and>
                   solace_willGiveUp (sod_maxRedeliveryCount entry) (sod_respectTtlEnabled entry)
                     (sod_maxTtlSec entry))
            (alert (''dmq-missing-'' @ sod_name entry) DeadMsgQueueMissing Warn
               [(''queue'', PStr (sod_name entry)), (''target'', PStr target)] None))"

definition solace_depthAlerts ::
  "alert_rule_prefs \<Rightarrow> int \<Rightarrow> string list \<Rightarrow> solace_destination \<Rightarrow> derived_alert list" where
  "solace_depthAlerts rules lagThreshold deads entry =
     (let depth = nullish (sod_depth entry) 0 in
      if sod_name entry \<in> set deads
      then push_if (rules DlqGrowth \<and> depth > 0)
             (alert (''dlq-'' @ sod_name entry) DlqGrowth Warn
                [(''group'', PStr (sod_name entry)), (''count'', PInt depth)] None)
      else if rules QueueNoConsumer \<and> depth > 0 \<and> nullish (sod_boundConsumers entry) 0 = 0
      then [alert (''queue-no-consumer-'' @ sod_name entry) QueueNoConsumer Warn
              [(''queue'', PStr (sod_name entry)), (''lag'', PInt depth)] None]
      else push_if (rules QueueBacklog \<and> lagThreshold > 0 \<and> depth \<ge> lagThreshold)
             (alert (''queue-backlog-'' @ sod_name entry) QueueBacklog Warn
                [(''queue'', PStr (sod_name entry)), (''lag'', PInt depth),
                 (''threshold'', PInt lagThreshold)] None))"

definition solace_queueAlerts ::
  "alert_rule_prefs \<Rightarrow> int \<Rightarrow> solace_destination list \<Rightarrow> solace_destination \<Rightarrow> derived_alert list" where
  "solace_queueAlerts rules lagThreshold queues entry =
     solace_missingAlerts rules (map sod_name queues) entry @
     push_if (rules EntityDisabled \<and> solace_halted entry)
       (alert (''halted-'' @ sod_name entry) EntityDisabled Warn
          [(''entity'', PStr (sod_name entry)), (''status'', PStr (solace_haltedStatus entry))]
          None) @
     solace_depthAlerts rules lagThreshold (solace_deadMsgQueues queues) entry"

definition solace_spoolAlerts :: "alert_rule_prefs \<Rightarrow> int \<Rightarrow> node \<Rightarrow> derived_alert list" where
  "solace_spoolAlerts rules diskThreshold n =
     (let usage = node_diskUsage n in
      push_if (rules DiskUsage \<and> diskThreshold > 0 \<and> usage \<ge> diskThreshold)
        (alert (''spool-'' @ node_name n) DiskUsage
           (if usage \<ge> solace_CRITICAL_SPOOL then Crit else Warn)
           [(''broker'', PStr (node_name n)), (''usage'', PInt usage),
            (''threshold'', PInt diskThreshold)] None))"

definition deriveSolaceAlerts ::
  "alert_facts \<Rightarrow> alert_rule_prefs \<Rightarrow> alert_thresholds \<Rightarrow> derived_alert list" where
  "deriveSolaceAlerts facts rules thresholds =
     (let queues = map solace_destination_of (facts_destinations facts) in
      each queues (solace_queueAlerts rules (th_lag thresholds) queues) @
      each (facts_nodes facts) (solace_spoolAlerts rules (th_disk thresholds)))"

lemmas solace_derive_defs [derive_defs] =
  deriveSolaceAlerts_def solace_queueAlerts_def solace_missingAlerts_def
  solace_depthAlerts_def solace_spoolAlerts_def

text \<open>The two readings of a dead message queue exclude each other: a missing target is none of the queues.\<close>

lemma solace_missing_target:
  "a \<in> set (solace_missingAlerts r (map sod_name queues) entry) \<Longrightarrow>
   \<exists>target. sod_deadMsgQueue entry = Some target \<and> (\<forall>q \<in> set queues. sod_name q \<noteq> target)"
  by (cases "sod_deadMsgQueue entry")
    (auto simp: solace_missingAlerts_def push_if_def split: if_splits)

abbreviation solace_rules :: "alert_rule_key list" where
  "solace_rules \<equiv> the (RULES_BY_KIND KindSolace)"

interpretation solace: alert_family deriveSolaceAlerts solace_rules
  by unfold_locales (simp_all add: solace_derive_defs Let_def)

interpretation solace: threshold_family deriveSolaceAlerts solace_rules
  by unfold_locales (simp_all add: solace_derive_defs Let_def)

interpretation solace: worded_family deriveSolaceAlerts solace_rules
  by unfold_locales (simp_all add: solace_derive_defs Let_def worded_def)

definition solace_sample :: alert_facts where
  "solace_sample =
     NO_FACTS\<lparr>facts_destinations :=
               [blank_destination\<lparr>dest_ref := ref_of '''' ''a'', dest_depth := 10,
                  dest_subscribers := 1,
                  dest_attributes := [(''deadMsgQueue'', ''x''), (''egressEnabled'', ''true''),
                    (''maxRedeliveryCount'', show_nat 3)]\<rparr>,
                blank_destination\<lparr>dest_ref := ref_of '''' ''b'', dest_depth := 1,
                  dest_attributes := [(''deadMsgQueue'', ''c''), (''egressEnabled'', ''true''),
                    (''ingressEnabled'', ''true'')]\<rparr>,
                blank_destination\<lparr>dest_ref := ref_of '''' ''c'', dest_depth := 1,
                  dest_attributes := [(''egressEnabled'', ''true''), (''ingressEnabled'', ''true'')]\<rparr>],
             facts_nodes := [blank_node\<lparr>node_name := ''n'', node_diskUsage := 80\<rparr>]\<rparr>"

lemma solace_sample_rules:
  "map al_ruleKey (deriveSolaceAlerts solace_sample DEFAULT_ALERT_RULES sample_limits) =
   [DeadMsgQueueMissing, EntityDisabled, QueueBacklog, QueueNoConsumer, DlqGrowth, DiskUsage]"
  by (simp add: solace_sample_def solace_derive_defs reader_defs Let_def blank_destination_def
      blank_node_def solace_willGiveUp_def solace_deadMsgQueues_def
      attr_number_def attr_text_def attr_is_true_def attr_str_def metric_def js_Number_show_nat)

interpretation solace: armed_family deriveSolaceAlerts solace_rules KindSolace solace_sample sample_limits
proof unfold_locales
  show "gathered KindSolace solace_sample"
    by (simp add: gathered_def solace_sample_def KINDS_NEEDING_DESTINATIONS_def)
  show "set solace_rules \<subseteq> al_ruleKey ` set (deriveSolaceAlerts solace_sample DEFAULT_ALERT_RULES sample_limits)"
    by (simp only: set_map [symmetric] solace_sample_rules) simp
qed

end
