(* ===== verification/AlertDerive.thy ===== *)
theory AlertDerive
  imports FamilyRocketMQ FamilyRabbitMQ FamilyKafka FamilyMqtt FamilyPulsar FamilyRedis
    FamilyNats FamilyActiveMQ FamilyNsq FamilySqs FamilyGooglePubSub FamilyAzureServiceBus
    FamilyKinesis FamilyIbmMq FamilySolace "HOL-Library.Multiset"
begin

text \<open>
  The dispatch over the families (frontend/src/lib/alertDerive.ts): a connection's facts are
  read with its family's rules and the alerts come back worst first. The contracts the
  families prove one by one are collected here over every kind, so that the properties of
  \<open>deriveAlerts\<close> are theirs.
\<close>

fun deriveFamily ::
  "mq_kind \<Rightarrow> alert_facts \<Rightarrow> alert_rule_prefs \<Rightarrow> alert_thresholds \<Rightarrow> derived_alert list" where
  "deriveFamily KindRabbitMQ = deriveRabbitMQAlerts"
| "deriveFamily KindKafka = deriveKafkaAlerts"
| "deriveFamily KindMQTT = deriveMqttAlerts"
| "deriveFamily KindPulsar = derivePulsarAlerts"
| "deriveFamily KindRedisStream = deriveRedisAlerts"
| "deriveFamily KindNATS = deriveNatsAlerts"
| "deriveFamily KindActiveMQ = deriveActiveMQAlerts"
| "deriveFamily KindNSQ = deriveNsqAlerts"
| "deriveFamily KindSQS = deriveSqsAlerts"
| "deriveFamily KindGooglePubSub = deriveGooglePubSubAlerts"
| "deriveFamily KindAzureServiceBus = deriveAzureServiceBusAlerts"
| "deriveFamily KindKinesis = deriveKinesisAlerts"
| "deriveFamily KindIBMMQ = deriveIbmMqAlerts"
| "deriveFamily KindSolace = deriveSolaceAlerts"
| "deriveFamily _ = deriveRocketMQAlerts"

definition byWeight :: "derived_alert list \<Rightarrow> derived_alert list" where
  "byWeight alerts = sort_key (\<lambda>a. - severityWeight (al_severity a)) alerts"

text \<open>A connection whose profile is gone has no kind, and falls to the last branch.\<close>

definition deriveAlerts ::
  "mq_kind option \<Rightarrow> alert_facts \<Rightarrow> alert_rule_prefs \<Rightarrow> alert_thresholds \<Rightarrow> derived_alert list" where
  "deriveAlerts kind facts rules thresholds =
     byWeight
       (case kind of
          None \<Rightarrow> deriveRocketMQAlerts facts rules thresholds
        | Some k \<Rightarrow> deriveFamily k facts rules thresholds)"

lemma set_byWeight [simp]: "set (byWeight xs) = set xs"
  by (simp add: byWeight_def)

lemma byWeight_Nil [simp]: "byWeight [] = []"
  by (simp add: byWeight_def)

lemma set_deriveAlerts [simp]: "set (deriveAlerts (Some k) f r t) = set (deriveFamily k f r t)"
  by (simp add: deriveAlerts_def)

section \<open>Every kind's contract\<close>

text \<open>The rules a kind's code raises: the ones the settings offer, save for MQTT.\<close>

definition family_rules :: "mq_kind \<Rightarrow> alert_rule_key list" where
  "family_rules k = (if k = KindMQTT then mqtt_rules else rulesFor (Some k))"

interpretation dispatch: alert_family "deriveFamily k" "family_rules k" for k
proof unfold_locales
  fix r f t
  show "list_all (\<lambda>a. r (al_ruleKey a)) (deriveFamily k f r t)"
    by (cases k)
      (simp_all add: rocketmq.enabled rabbitmq.enabled kafka.enabled mqtt.enabled pulsar.enabled
        redis.enabled nats.enabled activemq.enabled nsq.enabled sqs.enabled pubsub.enabled
        servicebus.enabled kinesis.enabled ibmmq.enabled solace.enabled)
  show "list_all (\<lambda>a. al_ruleKey a \<in> set (family_rules k)) (deriveFamily k f r t)"
    using rocketmq.declared [of f r t] rabbitmq.declared [of f r t] kafka.declared [of f r t]
      mqtt.declared [of f r t] pulsar.declared [of f r t] redis.declared [of f r t]
      nats.declared [of f r t] activemq.declared [of f r t] nsq.declared [of f r t]
      sqs.declared [of f r t] pubsub.declared [of f r t] servicebus.declared [of f r t]
      kinesis.declared [of f r t] ibmmq.declared [of f r t] solace.declared [of f r t]
    by (cases k) (simp_all add: family_rules_def)
  show "deriveFamily k NO_FACTS r t = []"
    by (cases k)
      (simp_all add: rocketmq.quiet rabbitmq.quiet kafka.quiet mqtt.quiet pulsar.quiet
        redis.quiet nats.quiet activemq.quiet nsq.quiet sqs.quiet pubsub.quiet
        servicebus.quiet kinesis.quiet ibmmq.quiet solace.quiet)
qed

lemma dispatch_lag_off:
  "k \<noteq> KindMQTT \<Longrightarrow> th_lag t \<le> 0 \<Longrightarrow>
   list_all (\<lambda>a. al_ruleKey a \<noteq> GroupLag \<and> al_ruleKey a \<noteq> QueueBacklog) (deriveFamily k f r t)"
  by (cases k)
    (simp_all add: rocketmq.lag_off rabbitmq.lag_off kafka.lag_off pulsar.lag_off
      redis.lag_off nats.lag_off activemq.lag_off nsq.lag_off sqs.lag_off pubsub.lag_off
      servicebus.lag_off kinesis.lag_off ibmmq.lag_off solace.lag_off)

lemma dispatch_disk_off:
  "th_disk t \<le> 0 \<Longrightarrow> list_all (\<lambda>a. al_ruleKey a \<noteq> DiskUsage) (deriveFamily k f r t)"
  by (cases k)
    (simp_all add: rocketmq.disk_off rabbitmq.disk_off kafka.disk_off pulsar.disk_off
      redis.disk_off nats.disk_off activemq.disk_off nsq.disk_off sqs.disk_off pubsub.disk_off
      servicebus.disk_off kinesis.disk_off ibmmq.disk_off solace.disk_off mqtt_no_disk)

lemma dispatch_says:
  "k \<noteq> KindRedisStream \<Longrightarrow> list_all worded (deriveFamily k f r t)"
  by (cases k)
    (simp_all add: rocketmq.says rabbitmq.says kafka.says pulsar.says mqtt.says
      nats.says activemq.says nsq.says sqs.says pubsub.says
      servicebus.says kinesis.says ibmmq.says solace.says)

lemma dispatch_listing:
  "k \<notin> set KINDS_NEEDING_DESTINATIONS \<Longrightarrow>
   deriveFamily k (f\<lparr>facts_destinations := ds\<rparr>) r t = deriveFamily k f r t"
  by (cases k)
    (simp_all add: KINDS_NEEDING_DESTINATIONS_def rocketmq.no_listing mqtt.no_listing
      pulsar.no_listing redis.no_listing)

text \<open>The zero kind is read with RocketMQ's rules, and can gather what they need.\<close>

interpretation zero: armed_family deriveRocketMQAlerts ROCKETMQ_RULES KindZero rocketmq_sample
  sample_limits
proof unfold_locales
  show "gathered KindZero rocketmq_sample"
    by (simp add: gathered_def rocketmq_sample_def)
  show "set ROCKETMQ_RULES \<subseteq>
      al_ruleKey ` set (deriveRocketMQAlerts rocketmq_sample DEFAULT_ALERT_RULES sample_limits)"
    by (simp only: set_map [symmetric] rocketmq_sample_rules) (simp add: ROCKETMQ_RULES_def)
qed

text \<open>Every kind but MQTT with the facts its interpretation is armed with.\<close>

fun family_sample :: "mq_kind \<Rightarrow> alert_facts" where
  "family_sample KindRabbitMQ = rabbitmq_sample"
| "family_sample KindKafka = kafka_sample"
| "family_sample KindPulsar = pulsar_sample"
| "family_sample KindRedisStream = redis_sample"
| "family_sample KindNATS = nats_sample"
| "family_sample KindActiveMQ = activemq_sample"
| "family_sample KindNSQ = nsq_sample"
| "family_sample KindSQS = sqs_sample"
| "family_sample KindGooglePubSub = pubsub_sample"
| "family_sample KindAzureServiceBus = servicebus_sample"
| "family_sample KindKinesis = kinesis_sample"
| "family_sample KindIBMMQ = ibmmq_sample"
| "family_sample KindSolace = solace_sample"
| "family_sample _ = rocketmq_sample"

lemma dispatch_sample_gathered: "k \<noteq> KindMQTT \<Longrightarrow> gathered k (family_sample k)"
  by (cases k)
    (simp_all add: zero.gatherable rocketmq.gatherable rabbitmq.gatherable kafka.gatherable
      pulsar.gatherable redis.gatherable nats.gatherable activemq.gatherable nsq.gatherable
      sqs.gatherable pubsub.gatherable servicebus.gatherable kinesis.gatherable
      ibmmq.gatherable solace.gatherable)

lemma dispatch_sample_rules:
  "k \<noteq> KindMQTT \<Longrightarrow>
   set (family_rules k) \<subseteq>
   al_ruleKey ` set (deriveFamily k (family_sample k) DEFAULT_ALERT_RULES sample_limits)"
  using rocketmq.sample_rules rabbitmq.sample_rules kafka.sample_rules pulsar.sample_rules
    redis.sample_rules nats.sample_rules activemq.sample_rules nsq.sample_rules
    sqs.sample_rules pubsub.sample_rules servicebus.sample_rules kinesis.sample_rules
    ibmmq.sample_rules solace.sample_rules
  by (cases k) (simp_all add: family_rules_def)

lemma dispatch_armed:
  "k \<noteq> KindMQTT \<Longrightarrow> key \<in> set (family_rules k) \<Longrightarrow>
   \<exists>f t a. gathered k f \<and> a \<in> set (deriveFamily k f DEFAULT_ALERT_RULES t) \<and> al_ruleKey a = key"
  using dispatch_sample_gathered [of k] dispatch_sample_rules [of k] by blast

section \<open>Properties of the dispatch\<close>

text \<open>No family raises a rule its settings page does not offer: every alert of a
  connection carries one of the rules \<open>rulesFor\<close> lists for its kind. MQTT is the exception.\<close>

theorem raised_rules_offered:
  assumes "kind \<noteq> Some KindMQTT" "a \<in> set (deriveAlerts kind facts rules thresholds)"
  shows "al_ruleKey a \<in> set (rulesFor kind)"
proof (cases kind)
  case None
  then show ?thesis by (simp add: all_rule_keys)
next
  case (Some k)
  with assms have "k \<noteq> KindMQTT" "a \<in> set (deriveFamily k facts rules thresholds)" by simp_all
  then have "al_ruleKey a \<in> set (family_rules k)" by (intro dispatch.raised_declared)
  with Some \<open>k \<noteq> KindMQTT\<close> show ?thesis by (simp add: family_rules_def)
qed

lemma raised_rules_offered_witness:
  "al_ruleKey (alert ''slow-consumer-s'' SlowConsumer Warn
     [(''broker'', PStr ''s''), (''count'', PNum (JFin 2))] None) \<in> set (rulesFor (Some KindNATS))"
  by (rule raised_rules_offered [where facts = "NO_FACTS\<lparr>facts_nodes :=
        [blank_node\<lparr>node_name := ''s'', node_attributes := [(''slowConsumers'', show_nat 2)]\<rparr>]\<rparr>"
      and rules = DEFAULT_ALERT_RULES and thresholds = sample_limits])
    (simp_all add: nats_derive_defs reader_defs Let_def blank_node_def attr_text_def
      parse_float_show_nat)

text \<open>Every rule a settings page offers can fire: for each offered rule of a kind there
  are facts the sweep gathers for that kind on which its family raises it. MQTT is the
  exception.\<close>

theorem offered_rules_armed:
  assumes "k \<noteq> KindMQTT" "rule \<in> set (rulesFor (Some k))"
  shows "\<exists>f t a. gathered k f \<and> a \<in> set (deriveAlerts (Some k) f DEFAULT_ALERT_RULES t) \<and>
     al_ruleKey a = rule"
  using dispatch_armed [OF assms(1)] assms by (simp add: family_rules_def)

lemma offered_rules_armed_witness:
  "\<exists>f t a. gathered KindSolace f \<and>
     a \<in> set (deriveAlerts (Some KindSolace) f DEFAULT_ALERT_RULES t) \<and>
     al_ruleKey a = DeadMsgQueueMissing"
  by (rule offered_rules_armed) simp_all

text \<open>On MQTT the page and the code disagree both ways: it offers rules that no facts and
  no thresholds make fire, and the code raises rules the page gives no switch for.\<close>

theorem mqtt_rules_mismatch:
  "\<not> (\<exists>f r t a. a \<in> set (deriveAlerts (Some KindMQTT) f r t) \<and>
        al_ruleKey a \<in> {GroupOffline, GroupLag, DiskUsage, DlqGrowth}) \<and>
   {GroupOffline, GroupLag, DiskUsage, DlqGrowth} \<subseteq> set (rulesFor (Some KindMQTT)) \<and>
   (\<exists>f t a. a \<in> set (deriveAlerts (Some KindMQTT) f DEFAULT_ALERT_RULES t) \<and>
        al_ruleKey a \<notin> set (rulesFor (Some KindMQTT)))"
proof (intro conjI)
  show "\<not> (\<exists>f r t a. a \<in> set (deriveAlerts (Some KindMQTT) f r t) \<and>
        al_ruleKey a \<in> {GroupOffline, GroupLag, DiskUsage, DlqGrowth})"
    using mqtt.raised_declared by fastforce
  show "{GroupOffline, GroupLag, DiskUsage, DlqGrowth} \<subseteq> set (rulesFor (Some KindMQTT))"
    by (simp add: ROCKETMQ_RULES_def)
  have "QueueNoConsumer \<in> al_ruleKey ` set (deriveMqttAlerts mqtt_sample DEFAULT_ALERT_RULES
      \<lparr>th_lag = 0, th_disk = 75\<rparr>)"
    by (simp only: set_map [symmetric] mqtt_sample_rules) simp
  then show "\<exists>f t a. a \<in> set (deriveAlerts (Some KindMQTT) f DEFAULT_ALERT_RULES t) \<and>
        al_ruleKey a \<notin> set (rulesFor (Some KindMQTT))"
    by (force simp: ROCKETMQ_RULES_def)
qed

text \<open>A rule that is switched off is silent, on every kind and whatever the facts.\<close>

theorem switched_off_silent:
  assumes "\<not> rules k" "a \<in> set (deriveAlerts kind facts rules thresholds)"
  shows "al_ruleKey a \<noteq> k"
  using assms rocketmq.switched_off dispatch.switched_off
  by (auto simp: deriveAlerts_def split: option.splits)

lemma switched_off_silent_witness:
  "al_ruleKey (alert ''topic-unsubscribed-t'' TopicUnsubscribed Warn [(''topic'', PStr ''t'')] None) \<noteq>
   SubscriptionOrphaned"
  by (rule switched_off_silent [where rules = "\<lambda>k. k = TopicUnsubscribed"
        and kind = "Some KindGooglePubSub" and facts = pubsub_sample and thresholds = sample_limits])
    (simp_all add: pubsub_sample_def pubsub_derive_defs reader_defs Let_def)

text \<open>A lag threshold of zero or less disables the backlog rules on every kind but MQTT,
  and a disk threshold of zero or less disables the disk rule on every kind.\<close>

theorem thresholds_disable:
  assumes "th_lag thresholds \<le> 0" "th_disk thresholds \<le> 0" "kind \<noteq> Some KindMQTT"
    "a \<in> set (deriveAlerts kind facts rules thresholds)"
  shows "al_ruleKey a \<notin> {GroupLag, QueueBacklog, DiskUsage}"
proof (cases kind)
  case None
  with assms show ?thesis using rocketmq.thresholds_off by (simp add: deriveAlerts_def)
next
  case (Some k)
  with assms dispatch_lag_off [of k thresholds facts rules]
    dispatch_disk_off [of thresholds k facts rules]
  show ?thesis by (auto simp: list_all_iff)
qed

lemma thresholds_disable_witness:
  "al_ruleKey (alert ''dlq-g'' DlqGrowth Info [(''group'', PStr ''g''), (''count'', PInt 3)] None) \<notin>
   {GroupLag, QueueBacklog, DiskUsage}"
  by (rule thresholds_disable [where thresholds = "\<lparr>th_lag = 0, th_disk = 0\<rparr>"
        and kind = "Some KindRocketMQ" and facts = rocketmq_sample and rules = DEFAULT_ALERT_RULES])
    (simp_all add: rocketmq_sample_def rocketmq_derive_defs reader_defs Let_def blank_node_def
      blank_subscription_def attr_count_def attr_str_def)

text \<open>On MQTT a lag threshold of zero does not disable the backlog rule: it raises it for
  a single queued message.\<close>

theorem mqtt_lag_zero_fires:
  "\<exists>f a. a \<in> set (deriveAlerts (Some KindMQTT) f DEFAULT_ALERT_RULES \<lparr>th_lag = 0, th_disk = 0\<rparr>) \<and>
     al_ruleKey a = QueueBacklog \<and> map_of (al_params a) ''lag'' = Some (PInt 1)"
proof -
  let ?c = "blank_connection\<lparr>conn_name := ''c'', conn_state := ''connected'',
      conn_attributes := [(''queued'', show_nat 1)]\<rparr>"
  have "deriveAlerts (Some KindMQTT) (NO_FACTS\<lparr>facts_connections := [?c]\<rparr>) DEFAULT_ALERT_RULES
      \<lparr>th_lag = 0, th_disk = 0\<rparr> =
    [alert ''session-backlog-c'' QueueBacklog Warn
       [(''queue'', PStr ''c''), (''lag'', PInt 1), (''threshold'', PInt 0)] None]"
    by (simp add: deriveAlerts_def byWeight_def mqtt_derive_defs reader_defs Let_def
        blank_connection_def mqtt_sessionLabel_def attr_int_def attr_text_def attr_is_true_def
        attr_str_def)
  then show ?thesis
    by (intro exI [of _ "NO_FACTS\<lparr>facts_connections := [?c]\<rparr>"]) simp
qed

text \<open>The alerts come back worst first, none lost and none invented, and within one
  severity in the order the family raised them.\<close>

theorem worst_first_stable:
  "sorted (map (\<lambda>a. - severityWeight (al_severity a)) (deriveAlerts (Some k) f r t)) \<and>
   mset (deriveAlerts (Some k) f r t) = mset (deriveFamily k f r t) \<and>
   filter (\<lambda>a. al_severity a = s) (deriveAlerts (Some k) f r t) =
   filter (\<lambda>a. al_severity a = s) (deriveFamily k f r t)"
proof (intro conjI)
  have "severityWeight x = severityWeight s \<longleftrightarrow> x = s" for x
    by (cases x; cases s) simp_all
  then have same: "(\<lambda>a. al_severity a = s) =
      (\<lambda>a. - severityWeight (al_severity a) = - severityWeight s)"
    by auto
  show "filter (\<lambda>a. al_severity a = s) (deriveAlerts (Some k) f r t) =
      filter (\<lambda>a. al_severity a = s) (deriveFamily k f r t)"
    unfolding same deriveAlerts_def byWeight_def option.case by (rule sort_key_filter_class)
qed (simp_all add: deriveAlerts_def byWeight_def)

text \<open>The two lists of alertRules.ts are in step: the kinds whose sweep fetches a
  destination listing are those with rules of their own of which at least one reads it, and
  the alerts of every other kind do not depend on a listing at all.\<close>

theorem destination_lists_in_step:
  "(k \<in> set KINDS_NEEDING_DESTINATIONS \<longleftrightarrow>
      k \<in> set KINDS_WITH_OWN_RULES \<and> set (rulesFor (Some k)) \<inter> set DESTINATION_RULES \<noteq> {}) \<and>
   (k \<in> set KINDS_NEEDING_DESTINATIONS \<or>
      deriveAlerts (Some k) (f\<lparr>facts_destinations := ds\<rparr>) r t = deriveAlerts (Some k) f r t)"
proof (intro conjI)
  show "k \<in> set KINDS_NEEDING_DESTINATIONS \<longleftrightarrow>
      k \<in> set KINDS_WITH_OWN_RULES \<and> set (rulesFor (Some k)) \<inter> set DESTINATION_RULES \<noteq> {}"
    by (cases k)
      (simp_all add: KINDS_NEEDING_DESTINATIONS_def KINDS_WITH_OWN_RULES_def DESTINATION_RULES_def)
  show "k \<in> set KINDS_NEEDING_DESTINATIONS \<or>
      deriveAlerts (Some k) (f\<lparr>facts_destinations := ds\<rparr>) r t = deriveAlerts (Some k) f r t"
    by (cases "k \<in> set KINDS_NEEDING_DESTINATIONS") (simp_all add: deriveAlerts_def dispatch_listing)
qed

text \<open>Every alert carries the fields the sentence of its rule interpolates, on every kind
  but Redis.\<close>

theorem alerts_worded:
  assumes "kind \<noteq> Some KindRedisStream" "a \<in> set (deriveAlerts kind facts rules thresholds)"
  shows "set (detail_fields (al_ruleKey a)) \<subseteq> fst ` set (al_params a)"
proof -
  have "list_all worded (deriveRocketMQAlerts facts rules thresholds)" by (rule rocketmq.says)
  moreover have "list_all worded (deriveFamily k facts rules thresholds)" if "kind = Some k" for k
    using that assms(1) by (simp add: dispatch_says)
  ultimately have "worded a"
    using assms(2) by (cases kind) (auto simp: deriveAlerts_def list_all_iff)
  then show ?thesis by (auto simp: worded_def list_all_iff)
qed

lemma alerts_worded_witness:
  "set (detail_fields TopicUnsubscribed) \<subseteq>
   fst ` set (al_params (alert ''topic-unsubscribed-t'' TopicUnsubscribed Warn [(''topic'', PStr ''t'')] None))"
  using alerts_worded [of "Some KindGooglePubSub" "alert ''topic-unsubscribed-t'' TopicUnsubscribed
      Warn [(''topic'', PStr ''t'')] None" pubsub_sample DEFAULT_ALERT_RULES sample_limits]
  by (simp add: pubsub_sample_def pubsub_derive_defs reader_defs Let_def)

text \<open>No Redis alert carries the fields of its sentence, and Redis does raise alerts: its
  sentences are drawn with their placeholders unfilled.\<close>

theorem redis_alerts_unworded:
  "list_all (\<lambda>a. \<not> set (detail_fields (al_ruleKey a)) \<subseteq> fst ` set (al_params a))
     (deriveAlerts (Some KindRedisStream) f r t) \<and>
   map al_ruleKey (deriveAlerts (Some KindRedisStream) redis_sample DEFAULT_ALERT_RULES sample_limits) \<noteq> []"
proof (intro conjI)
  show "list_all (\<lambda>a. \<not> set (detail_fields (al_ruleKey a)) \<subseteq> fst ` set (al_params a))
      (deriveAlerts (Some KindRedisStream) f r t)"
    using redis_not_worded [of f r t] by (auto simp: list_all_iff worded_def)
  have "length (map al_ruleKey (deriveRedisAlerts redis_sample DEFAULT_ALERT_RULES sample_limits)) = 5"
    by (simp only: redis_sample_rules) simp
  then show "map al_ruleKey (deriveAlerts (Some KindRedisStream) redis_sample DEFAULT_ALERT_RULES
      sample_limits) \<noteq> []"
    by (auto simp: deriveAlerts_def byWeight_def dest: arg_cong [of _ _ length])
qed

end
