(* ===== verification/Json.thy ===== *)
theory Json
  imports Prelude
begin

text \<open>
  JSON values as the TypeScript side sees them after parsing. The members of an object are
  listed in the order \<open>Object.entries\<close> gives them.
\<close>

datatype json = JNull | JBool bool | JNum jsnum | JStr string | JArr "json list"
  | JObj "(string \<times> json) list"

text \<open>\<open>value[key]\<close> on a parsed value, for keys no prototype has; \<open>None\<close> is \<open>undefined\<close>.\<close>

fun json_member :: "string \<Rightarrow> json \<Rightarrow> json option" where
  "json_member k (JObj ms) = map_of ms k"
| "json_member _ _ = None"

fun json_text :: "json option \<Rightarrow> string option" where
  "json_text (Some (JStr s)) = Some s"
| "json_text _ = None"

lemma json_text_Some [simp]: "json_text v = Some s \<longleftrightarrow> v = Some (JStr s)"
  by (cases v rule: json_text.cases) auto

end
