(* ===== verification/Storage.thy ===== *)
theory Storage
  imports Json
begin

text \<open>
  What the window keeps in \<open>localStorage\<close>: the value behind a key, the plain objects built from
  it, the eviction of the least recently used entries, and the contract of a value that is read
  back after it was written.

  An object is its \<open>Object.entries\<close>: array-index keys first, in ascending order, then the others
  in the order they were added. Assigning to \<open>__proto__\<close> adds no entry.
\<close>

text \<open>Nothing (or the empty text) under the key, text that does not parse, or a parsed value.\<close>

datatype stored = NoItem | Unparsable | Parsed json

section \<open>Objects as dictionaries\<close>

definition is_index_key :: "string \<Rightarrow> bool" where
  "is_index_key k \<longleftrightarrow>
     list_all is_digit k \<and> show_nat (digits_val k) = k \<and> digits_val k < 2 ^ 32 - 1"

definition key_before :: "string \<Rightarrow> string \<Rightarrow> bool" where
  "key_before k l \<longleftrightarrow> is_index_key k \<and> (is_index_key l \<longrightarrow> digits_val k < digits_val l)"

definition obj_define :: "string \<Rightarrow> 'v \<Rightarrow> (string \<times> 'v) list \<Rightarrow> (string \<times> 'v) list" where
  "obj_define k v obj =
     (if k \<in> fst ` set obj then AList.update k v obj
      else if is_index_key k then
        takeWhile (\<lambda>e. is_index_key (fst e) \<and> digits_val (fst e) < digits_val k) obj @ [(k, v)] @
        dropWhile (\<lambda>e. is_index_key (fst e) \<and> digits_val (fst e) < digits_val k) obj
      else obj @ [(k, v)])"

text \<open>\<open>obj[k] = v\<close>, and \<open>Object.fromEntries\<close>\<close>

definition obj_put :: "string \<Rightarrow> 'v \<Rightarrow> (string \<times> 'v) list \<Rightarrow> (string \<times> 'v) list" where
  "obj_put k v obj = (if k = ''__proto__'' then obj else obj_define k v obj)"

definition obj_from :: "(string \<times> 'v) list \<Rightarrow> (string \<times> 'v) list" where
  "obj_from es = foldl (\<lambda>obj (k, v). obj_define k v obj) [] es"

text \<open>\<open>delete obj[k]\<close>\<close>

definition obj_delete :: "string \<Rightarrow> (string \<times> 'v) list \<Rightarrow> (string \<times> 'v) list" where
  "obj_delete k obj = filter (\<lambda>e. fst e \<noteq> k) obj"

text \<open>Keep the \<open>cap\<close> entries of the highest stamp.\<close>

definition obj_trim :: "nat \<Rightarrow> ('v \<Rightarrow> rat) \<Rightarrow> (string \<times> 'v) list \<Rightarrow> (string \<times> 'v) list" where
  "obj_trim cap stamp obj =
     (if length obj \<le> cap then obj
      else obj_from (take cap (sort_key (\<lambda>e. - stamp (snd e)) obj)))"

text \<open>The entries of an object: keys distinct, in the order the language keeps them.\<close>

definition wf_obj :: "(string \<times> 'v) list \<Rightarrow> bool" where
  "wf_obj obj \<longleftrightarrow>
     distinct (map fst obj) \<and>
     sorted_wrt (\<lambda>k l. is_index_key l \<longrightarrow> is_index_key k \<and> digits_val k < digits_val l) (map fst obj)"

lemma wf_obj_Nil [simp]: "wf_obj []"
  by (simp add: wf_obj_def)

abbreviation index_below :: "string \<Rightarrow> (string \<times> 'v) \<Rightarrow> bool" where
  "index_below k e \<equiv> is_index_key (fst e) \<and> digits_val (fst e) < digits_val k"

lemma define_new:
  assumes "k \<notin> fst ` set obj"
  obtains pre post where "obj = pre @ post" "obj_define k v obj = pre @ (k, v) # post"
    "is_index_key k \<Longrightarrow> list_all (index_below k) pre"
    "is_index_key k \<Longrightarrow> post \<noteq> [] \<Longrightarrow> \<not> index_below k (hd post)"
    "\<not> is_index_key k \<Longrightarrow> post = []"
proof (cases "is_index_key k")
  case True
  show ?thesis
  proof (rule that)
    show "obj = takeWhile (index_below k) obj @ dropWhile (index_below k) obj" by simp
    show "obj_define k v obj = takeWhile (index_below k) obj @ (k, v) # dropWhile (index_below k) obj"
      using assms True by (simp add: obj_define_def)
    show "list_all (index_below k) (takeWhile (index_below k) obj)"
      by (auto simp: list_all_iff dest: set_takeWhileD)
    show "\<not> index_below k (hd (dropWhile (index_below k) obj))" if "dropWhile (index_below k) obj \<noteq> []"
      using that by (rule hd_dropWhile)
  qed (simp_all add: True)
next
  case False
  then show ?thesis using assms by (intro that [of obj "[]"]) (simp_all add: obj_define_def)
qed

lemma keys_define [simp]: "fst ` set (obj_define k v obj) = insert k (fst ` set obj)"
proof (cases "k \<in> fst ` set obj")
  case True
  then show ?thesis by (simp add: obj_define_def keys_update)
next
  case False
  then obtain pre post where "obj = pre @ post" "obj_define k v obj = pre @ (k, v) # post"
    by (rule define_new [where v = v])
  then show ?thesis by auto
qed

lemma map_of_define [simp]: "map_of (obj_define k v obj) = (map_of obj)(k \<mapsto> v)"
proof (cases "k \<in> fst ` set obj")
  case True
  then show ?thesis by (simp add: obj_define_def)
next
  case False
  then obtain pre post where obj: "obj = pre @ post" "obj_define k v obj = pre @ (k, v) # post"
    by (rule define_new [where v = v])
  with False have "map_of pre k = None" by (auto simp: map_of_eq_None_iff)
  with obj show ?thesis by (auto simp: map_add_def fun_eq_iff split: option.splits)
qed

lemma wf_define:
  assumes "wf_obj obj"
  shows "wf_obj (obj_define k v obj)"
proof (cases "k \<in> fst ` set obj")
  case True
  have "map fst (AList.update k v obj) = map fst obj"
    using True by (induction obj) auto
  with True assms show ?thesis by (simp add: obj_define_def wf_obj_def)
next
  case False
  then obtain pre post where obj: "obj = pre @ post" "obj_define k v obj = pre @ (k, v) # post"
    and index: "is_index_key k \<Longrightarrow> list_all (index_below k) pre"
      "is_index_key k \<Longrightarrow> post \<noteq> [] \<Longrightarrow> \<not> index_below k (hd post)"
      "\<not> is_index_key k \<Longrightarrow> post = []"
    by (rule define_new [where v = v]) simp_all
  let ?R = "\<lambda>k l. is_index_key l \<longrightarrow> is_index_key k \<and> digits_val k < digits_val l"
  from assms obj have sorted: "sorted_wrt ?R (map fst pre @ map fst post)"
    and dist: "distinct (map fst pre @ map fst post)" by (simp_all add: wf_obj_def)
  have after: "?R k l" if l: "l \<in> fst ` set post" for l
  proof
    assume il: "is_index_key l"
    from l have "post \<noteq> []" by auto
    with index(3) have k: "is_index_key k" by blast
    from l obtain e es where post: "post = e # es" by (cases post) auto
    with index(2) k have e: "\<not> index_below k e" by simp
    from l post consider "l = fst e" | "l \<in> fst ` set es" by auto
    then have "is_index_key (fst e) \<and> digits_val (fst e) \<le> digits_val l"
      using sorted il post by cases (auto simp: sorted_wrt_append)
    with e have "digits_val k \<le> digits_val l" by auto
    moreover have "digits_val k \<noteq> digits_val l"
      using k il False obj l unfolding is_index_key_def by (metis image_Un set_append UnI2)
    ultimately show "is_index_key k \<and> digits_val k < digits_val l" using k by simp
  qed
  have before: "?R l k" if "l \<in> fst ` set pre" for l
    using that index(1) by (auto simp: list_all_iff)
  from sorted dist False obj after before show ?thesis
    by (auto simp: wf_obj_def sorted_wrt_append)
qed

lemma wf_put: "wf_obj obj \<Longrightarrow> wf_obj (obj_put k v obj)"
  by (simp add: obj_put_def wf_define)

text \<open>Built up again in its own order, an object is itself.\<close>

lemma define_last:
  assumes "wf_obj (obj @ [(k, v)])"
  shows "obj_define k v obj = obj @ [(k, v)]"
proof -
  from assms have "k \<notin> fst ` set obj" by (auto simp: wf_obj_def)
  moreover have "list_all (index_below k) obj" if "is_index_key k"
    using assms that by (auto simp: wf_obj_def sorted_wrt_append list_all_iff)
  ultimately show ?thesis
    by (auto simp: obj_define_def list_all_iff takeWhile_eq_all_conv dropWhile_eq_Nil_conv)
qed

lemma wf_obj_prefix: "wf_obj (xs @ ys) \<Longrightarrow> wf_obj xs"
  by (auto simp: wf_obj_def sorted_wrt_append)

lemma obj_from_wf: "wf_obj obj \<Longrightarrow> obj_from obj = obj"
proof (induction obj rule: rev_induct)
  case (snoc e obj)
  then have "obj_from obj = obj" by (simp add: wf_obj_prefix)
  with snoc.prems show ?case by (cases e) (simp add: obj_from_def define_last)
qed (simp add: obj_from_def)

lemma obj_from_props:
  "wf_obj (obj_from es)" "map_of (obj_from es) = map_of (rev es)"
  "fst ` set (obj_from es) = fst ` set es"
proof (induction es rule: rev_induct)
  case (snoc e es)
  have eq: "obj_from (es @ [e]) = obj_define (fst e) (snd e) (obj_from es)"
    by (cases e) (simp add: obj_from_def)
  {
    case 1
    with snoc(1) show ?case by (simp add: eq wf_define)
  next
    case 2
    with snoc(2) show ?case unfolding eq by (cases e) (simp add: fun_eq_iff)
  next
    case 3
    with snoc(3) show ?case by (simp add: eq)
  }
qed (simp_all add: obj_from_def)

lemma wf_obj_distinct: "wf_obj obj \<Longrightarrow> distinct obj"
  by (simp add: wf_obj_def distinct_map)

lemma wf_obj_entry: "wf_obj obj \<Longrightarrow> (k, v) \<in> set obj \<longleftrightarrow> map_of obj k = Some v"
  by (simp add: wf_obj_def)

lemma wf_obj_keys: "map fst xs = map fst ys \<Longrightarrow> wf_obj xs = wf_obj ys"
  by (simp add: wf_obj_def)

lemma wf_delete: "wf_obj obj \<Longrightarrow> wf_obj (obj_delete k obj)"
  by (simp add: wf_obj_def obj_delete_def sorted_wrt_map sorted_wrt_filter distinct_map_filter)

lemma map_of_delete: "map_of (obj_delete k obj) l = (if l = k then None else map_of obj l)"
  by (induction obj) (auto simp: obj_delete_def)

lemma set_delete: "set (obj_delete k obj) \<subseteq> set obj"
  by (auto simp: obj_delete_def)

lemma set_put: "wf_obj obj \<Longrightarrow> set (obj_put k v obj) \<subseteq> insert (k, v) (set obj)"
  by (auto simp: obj_put_def wf_obj_entry wf_define split: if_splits)

lemma keys_put:
  "fst ` set (obj_put k v obj) = (if k = ''__proto__'' then fst ` set obj else insert k (fst ` set obj))"
  by (simp add: obj_put_def)

lemma map_of_put: "k \<noteq> ''__proto__'' \<Longrightarrow> map_of (obj_put k v obj) = (map_of obj)(k \<mapsto> v)"
  by (simp add: obj_put_def)

section \<open>Eviction\<close>

text \<open>Fewer than \<open>cap\<close> others before or level with it: an element survives the cut.\<close>

lemma take_sort_keeps:
  fixes f :: "'a \<Rightarrow> 'b :: linorder"
  assumes "distinct xs" "x \<in> set xs"
    and few: "length (filter (\<lambda>y. y \<noteq> x \<and> f y \<le> f x) xs) < cap"
  shows "x \<in> set (take cap (sort_key f xs))"
proof (rule ccontr)
  let ?ys = "sort_key f xs"
  assume out: "x \<notin> set (take cap ?ys)"
  have "set ?ys = set (take cap ?ys) \<union> set (drop cap ?ys)"
    by (metis append_take_drop_id set_append)
  with assms(2) out have tail: "x \<in> set (drop cap ?ys)" by auto
  then have "cap < length ?ys" by (cases "cap < length ?ys") auto
  then have len: "length (take cap ?ys) = cap" by simp
  have "sorted (map f (take cap ?ys @ drop cap ?ys))" by simp
  then have "f y \<le> f x" if "y \<in> set (take cap ?ys)" for y
    using that tail unfolding map_append sorted_append by auto
  then have "set (take cap ?ys) \<subseteq> set (filter (\<lambda>y. y \<noteq> x \<and> f y \<le> f x) xs)"
    using out by (auto dest: in_set_takeD)
  then have "card (set (take cap ?ys)) \<le> card (set (filter (\<lambda>y. y \<noteq> x \<and> f y \<le> f x) xs))"
    by (intro card_mono) simp_all
  moreover have "card (set (take cap ?ys)) = cap"
    using len assms(1) by (metis distinct_card distinct_sort distinct_take)
  moreover have "card (set (filter (\<lambda>y. y \<noteq> x \<and> f y \<le> f x) xs)) =
      length (filter (\<lambda>y. y \<noteq> x \<and> f y \<le> f x) xs)"
    using assms(1) by (intro distinct_card) simp
  ultimately show False using few by simp
qed


lemma trim_wf:
  assumes wf: "wf_obj obj"
  shows "wf_obj (obj_trim cap stamp obj)"
  using wf by (simp add: obj_trim_def obj_from_props)

lemma trim_entries:
  assumes wf: "wf_obj obj"
  shows "set (obj_trim cap stamp obj) =
     (if length obj \<le> cap then set obj else set (take cap (sort_key (\<lambda>e. - stamp (snd e)) obj)))"
proof (cases "length obj \<le> cap")
  case True
  then show ?thesis by (simp add: obj_trim_def)
next
  case False
  let ?es = "take cap (sort_key (\<lambda>e. - stamp (snd e)) obj)"
  have "distinct (map fst (sort_key (\<lambda>e. - stamp (snd e)) obj))"
    using wf by (simp add: wf_obj_def distinct_map)
  then have dist: "distinct (map fst ?es)" by (simp add: take_map [symmetric])
  have "e \<in> set (obj_from ?es) \<longleftrightarrow> e \<in> set ?es" for e
  proof -
    have "e \<in> set (obj_from ?es) \<longleftrightarrow> map_of (obj_from ?es) (fst e) = Some (snd e)"
      using wf_obj_entry [OF obj_from_props(1), of "fst e" "snd e" ?es] by simp
    also have "\<dots> \<longleftrightarrow> map_of (rev ?es) (fst e) = Some (snd e)"
      by (simp only: obj_from_props(2))
    also have "\<dots> \<longleftrightarrow> (fst e, snd e) \<in> set (rev ?es)"
      by (rule map_of_eq_Some_iff) (use dist in \<open>simp only: rev_map [symmetric] distinct_rev\<close>)
    finally show ?thesis by simp
  qed
  then have "set (obj_from ?es) = set ?es" by blast
  with False show ?thesis by (simp add: obj_trim_def)
qed

lemma trim_subset:
  assumes wf: "wf_obj obj"
  shows "set (obj_trim cap stamp obj) \<subseteq> set obj"
  by (auto simp: trim_entries [OF wf] dest: in_set_takeD)

lemma trim_length:
  assumes wf: "wf_obj obj"
  shows "length (obj_trim cap stamp obj) \<le> cap"
proof (cases "length obj \<le> cap")
  case False
  let ?es = "take cap (sort_key (\<lambda>e. - stamp (snd e)) obj)"
  have "length (obj_trim cap stamp obj) = card (set (obj_trim cap stamp obj))"
    using trim_wf [OF wf] by (simp add: distinct_card wf_obj_distinct)
  also have "\<dots> \<le> length ?es"
    using False card_length [of ?es] by (simp only: trim_entries [OF wf] if_False)
  finally show ?thesis by simp
qed (simp add: obj_trim_def)

lemma trim_keeps:
  assumes wf: "wf_obj obj"
    and mem: "(k, v) \<in> set obj" and "length (filter (\<lambda>e. fst e \<noteq> k \<and> stamp v \<le> stamp (snd e)) obj) < cap"
  shows "(k, v) \<in> set (obj_trim cap stamp obj)"
proof -
  have "filter (\<lambda>e. e \<noteq> (k, v) \<and> - stamp (snd e) \<le> - stamp (snd (k, v))) obj =
        filter (\<lambda>e. fst e \<noteq> k \<and> stamp v \<le> stamp (snd e)) obj"
    using wf mem by (intro filter_cong) (auto simp: wf_obj_entry)
  with assms take_sort_keeps [OF wf_obj_distinct [OF wf] mem, of "\<lambda>e. - stamp (snd e)" cap]
  show ?thesis by (simp add: trim_entries [OF wf])
qed

lemma trim_length_eq:
  assumes wf: "wf_obj obj"
  shows "length (obj_trim cap stamp obj) = min cap (length obj)"
proof (cases "length obj \<le> cap")
  case False
  let ?es = "take cap (sort_key (\<lambda>e. - stamp (snd e)) obj)"
  have "distinct ?es" using wf by (simp add: wf_obj_distinct)
  then have "card (set ?es) = length ?es" by (rule distinct_card)
  moreover have "length (obj_trim cap stamp obj) = card (set (obj_trim cap stamp obj))"
    using trim_wf [OF wf] by (simp add: distinct_card wf_obj_distinct)
  ultimately show ?thesis using False by (simp add: trim_entries [OF wf])
qed (simp add: obj_trim_def)

text \<open>What is dropped is no newer than anything kept.\<close>

lemma trim_drops_oldest:
  assumes wf: "wf_obj obj" and mem: "e \<in> set obj" "e \<notin> set (obj_trim cap stamp obj)" "d \<in> set (obj_trim cap stamp obj)"
  shows "stamp (snd e) \<le> stamp (snd d)"
proof -
  let ?ys = "sort_key (\<lambda>e. - stamp (snd e)) obj"
  from assms have e: "e \<notin> set (take cap ?ys)" and d: "d \<in> set (take cap ?ys)"
    by (auto simp: trim_entries [OF wf] split: if_splits)
  have "set ?ys = set (take cap ?ys) \<union> set (drop cap ?ys)"
    by (metis append_take_drop_id set_append)
  with mem e have tail: "e \<in> set (drop cap ?ys)" by auto
  have "sorted (map (\<lambda>e. - stamp (snd e)) (take cap ?ys @ drop cap ?ys))" by simp
  with tail d show ?thesis unfolding map_append sorted_append by auto
qed

text \<open>With \<open>cap\<close> entries newer than it, an entry is dropped.\<close>

lemma trim_evicts:
  assumes wf: "wf_obj obj" and mem: "(k, v) \<in> set obj"
    and many: "cap \<le> length (filter (\<lambda>e. stamp v < stamp (snd e)) obj)"
  shows "(k, v) \<notin> set (obj_trim cap stamp obj)"
proof
  let ?trim = "obj_trim cap stamp obj" and ?newer = "filter (\<lambda>e. stamp v < stamp (snd e)) obj"
  assume kept: "(k, v) \<in> set ?trim"
  have "e \<in> set ?trim" if "e \<in> set ?newer" for e
    using that trim_drops_oldest [OF wf _ _ kept, of e] by auto
  then have "insert (k, v) (set ?newer) \<subseteq> set ?trim" using kept by auto
  then have "card (insert (k, v) (set ?newer)) \<le> card (set ?trim)" by (intro card_mono) simp_all
  moreover have "card (set ?newer) = length ?newer"
    using wf by (intro distinct_card) (simp add: wf_obj_distinct)
  moreover have "card (set ?trim) \<le> cap"
    using card_length [of ?trim] trim_length [OF wf, of cap stamp] by linarith
  ultimately show False using many by simp
qed

section \<open>A stored value\<close>

text \<open>
  A value read from storage and written back. A write the browser refuses leaves what was
  there; what is read after one that it takes is the value as far as the store keeps it.
\<close>

locale persisted =
  fixes load :: "stored \<Rightarrow> 'a" and save :: "bool \<Rightarrow> 'a \<Rightarrow> stored \<Rightarrow> stored"
    and valid :: "'a \<Rightarrow> bool" and kept :: "'a \<Rightarrow> 'a"
  assumes load_valid: "valid (load raw)"
    and refused: "save False x raw = raw"
    and round_trip: "valid x \<Longrightarrow> load (save True x raw) = kept x"
    and kept_valid: "valid x \<Longrightarrow> valid (kept x)"
begin

lemma change_read:
  assumes "\<And>x. valid x \<Longrightarrow> valid (f x)"
  shows "load (save True (f (load raw)) raw) = kept (f (load raw))"
  using assms load_valid by (intro round_trip) blast

lemma changes_read:
  assumes "\<And>f x. f \<in> set fs \<Longrightarrow> valid x \<Longrightarrow> valid (f x)"
  shows "load (foldl (\<lambda>raw f. save True (f (load raw)) raw) raw fs) =
    foldl (\<lambda>x f. kept (f x)) (load raw) fs"
  using assms
proof (induction fs arbitrary: raw)
  case (Cons f fs)
  then have "load (save True (f (load raw)) raw) = kept (f (load raw))"
    by (intro change_read) simp
  with Cons show ?case by simp
qed simp

lemma changes_refused:
  "foldl (\<lambda>raw f. save False (f (load raw)) raw) raw fs = raw"
  by (induction fs arbitrary: raw) (simp_all add: refused)

end

end
