(* ===== verification/AlertCenter.thy ===== *)
theory AlertCenter
  imports AlertTypes Storage
begin

text \<open>
  The notification centre's memory (frontend/src/lib/alertCenter.ts): the record of an
  alert, the merge of what a sweep observed into what is remembered, the unread count and
  the stored read set.

  A dictionary keyed by record id is its entries in insertion order; every id holds a
  colon, so no key is an array index and \<open>Object.values\<close> enumerates in that order. Times
  are epoch milliseconds. The stored read set is a list without duplicates in insertion
  order, which is what a JavaScript \<open>Set\<close> is.
\<close>

definition RESOLVED_RETENTION_MS :: int where
  "RESOLVED_RETENTION_MS = 30 * 60000"

record alert_record =
  rec_id :: string
  rec_connectionId :: int
  rec_ruleKey :: alert_rule_key
  rec_severity :: alert_severity
  rec_params :: alert_params
  rec_since :: "string option"
  rec_firstSeen :: int
  rec_lastSeen :: int
  rec_resolvedAt :: "int option"
  rec_read :: bool

type_synonym records = "(string \<times> alert_record) list"
type_synonym observations = "(int \<times> derived_alert list) list"

definition recordId :: "int \<Rightarrow> string \<Rightarrow> string" where
  "recordId connectionId key = show_int connectionId @ '':'' @ key"

text \<open>\<open>Object.values\<close>\<close>

abbreviation values_of :: "records \<Rightarrow> alert_record list" where
  "values_of rs \<equiv> map snd rs"

section \<open>The merge\<close>

definition expired :: "int \<Rightarrow> alert_record \<Rightarrow> bool" where
  "expired now r =
     (case rec_resolvedAt r of None \<Rightarrow> False | Some since \<Rightarrow> now - since > RESOLVED_RETENTION_MS)"

text \<open>Carry forward, dropping deleted connections and expired recoveries.\<close>

definition carryStep :: "int list \<Rightarrow> int \<Rightarrow> records \<Rightarrow> alert_record \<Rightarrow> records" where
  "carryStep known now rs r =
     (if rec_connectionId r \<notin> set known then rs
      else if expired now r then rs
      else AList.update (rec_id r) r rs)"

definition carryForward :: "int list \<Rightarrow> int \<Rightarrow> records \<Rightarrow> records" where
  "carryForward known now previous = foldl (carryStep known now) [] (values_of previous)"

text \<open>
  One derived alert of a connection: a record that is firing is refreshed and keeps its
  episode; one that is new, or back from a recovery, starts one.
\<close>

definition refreshed :: "int \<Rightarrow> int \<Rightarrow> derived_alert \<Rightarrow> alert_record \<Rightarrow> alert_record" where
  "refreshed now cid a before =
     before\<lparr>rec_id := recordId cid (al_key a), rec_connectionId := cid,
            rec_ruleKey := al_ruleKey a, rec_severity := al_severity a,
            rec_params := al_params a, rec_since := al_since a, rec_lastSeen := now\<rparr>"

definition opened :: "int \<Rightarrow> int \<Rightarrow> derived_alert \<Rightarrow> bool \<Rightarrow> alert_record" where
  "opened now cid a seen =
     \<lparr>rec_id = recordId cid (al_key a), rec_connectionId = cid,
      rec_ruleKey = al_ruleKey a, rec_severity = al_severity a,
      rec_params = al_params a, rec_since = al_since a,
      rec_firstSeen = now, rec_lastSeen = now, rec_resolvedAt = None, rec_read = seen\<rparr>"

definition mergeDerived ::
  "string list \<Rightarrow> int \<Rightarrow> int \<Rightarrow> records \<times> alert_record list \<Rightarrow> derived_alert \<Rightarrow>
   records \<times> alert_record list" where
  "mergeDerived read now cid state a =
     (case state of (rs, fired) \<Rightarrow>
       (let i = recordId cid (al_key a); before = map_of rs i in
        case before of
          Some b \<Rightarrow>
            (if rec_resolvedAt b = None
             then (AList.update i (refreshed now cid a b) rs, fired)
             else (let r = opened now cid a False in (AList.update i r rs, fired @ [r])))
        | None \<Rightarrow>
            (let r = opened now cid a (i \<in> set read) in
             (AList.update i r rs, if rec_read r then fired else fired @ [r]))))"

text \<open>Anything the connection was firing and no longer is has recovered.\<close>

definition resolveStep :: "int \<Rightarrow> string list \<Rightarrow> int \<Rightarrow> records \<Rightarrow> alert_record \<Rightarrow> records" where
  "resolveStep cid stillFiring now rs r =
     (if rec_connectionId r \<noteq> cid then rs
      else if rec_resolvedAt r \<noteq> None then rs
      else if rec_id r \<in> set stillFiring then rs
      else AList.update (rec_id r) (r\<lparr>rec_resolvedAt := Some now\<rparr>) rs)"

definition resolveGone :: "int \<Rightarrow> string list \<Rightarrow> int \<Rightarrow> records \<Rightarrow> records" where
  "resolveGone cid stillFiring now rs = foldl (resolveStep cid stillFiring now) rs (values_of rs)"

definition mergeConnection ::
  "string list \<Rightarrow> int \<Rightarrow> records \<times> alert_record list \<Rightarrow> int \<times> derived_alert list \<Rightarrow>
   records \<times> alert_record list" where
  "mergeConnection read now state entry =
     (case entry of (cid, alerts) \<Rightarrow>
       (let stillFiring = map (\<lambda>a. recordId cid (al_key a)) alerts;
            (rs, fired) = foldl (mergeDerived read now cid) state alerts
        in (resolveGone cid stillFiring now rs, fired)))"

definition mergeAlerts ::
  "records \<Rightarrow> observations \<Rightarrow> int list \<Rightarrow> string list \<Rightarrow> int \<Rightarrow> records \<times> alert_record list" where
  "mergeAlerts previous observed known read now =
     foldl (mergeConnection read now) (carryForward known now previous, []) observed"

definition unreadCount :: "records \<Rightarrow> nat" where
  "unreadCount rs =
     length (filter (\<lambda>r. \<not> rec_read r \<and> rec_resolvedAt r = None) (values_of rs))"

section \<open>The stored read set\<close>

definition READ_MEMORY :: nat where
  "READ_MEMORY = 200"

definition set_add :: "'a \<Rightarrow> 'a list \<Rightarrow> 'a list" where
  "set_add x xs = (if x \<in> set xs then xs else xs @ [x])"

definition set_of :: "'a list \<Rightarrow> 'a list" where
  "set_of xs = foldl (\<lambda>s x. set_add x s) [] xs"

text \<open>Of a parsed array only the strings are kept.\<close>

definition json_strings :: "json list \<Rightarrow> string list" where
  "json_strings items = concat (map (\<lambda>v. case v of JStr s \<Rightarrow> [s] | _ \<Rightarrow> []) items)"

definition loadReadIds :: "stored \<Rightarrow> string list" where
  "loadReadIds raw = (case raw of Parsed (JArr items) \<Rightarrow> set_of (json_strings items) | _ \<Rightarrow> [])"

text \<open>\<open>slice(-n)\<close>: the last \<open>n\<close> elements. Storage that refuses the write keeps its value.\<close>

definition slice_last :: "nat \<Rightarrow> 'a list \<Rightarrow> 'a list" where
  "slice_last n xs = drop (length xs - n) xs"

definition saveReadIds :: "bool \<Rightarrow> string list \<Rightarrow> stored \<Rightarrow> stored" where
  "saveReadIds writable ids old =
     (if writable then Parsed (JArr (map JStr (slice_last READ_MEMORY ids))) else old)"

lemma set_add_simps [simp]:
  "set (set_add x xs) = insert x (set xs)" "distinct (set_add x xs) = distinct xs"
  by (auto simp: set_add_def)

lemma set_of_distinct: "distinct xs \<Longrightarrow> set_of xs = xs"
proof -
  have "distinct (acc @ xs) \<Longrightarrow> foldl (\<lambda>s x. set_add x s) acc xs = acc @ xs" for acc
    by (induction xs arbitrary: acc) (auto simp: set_add_def)
  from this [of "[]"] show "distinct xs \<Longrightarrow> set_of xs = xs" by (simp add: set_of_def)
qed

lemma set_of_set: "set (set_of xs) = set xs \<and> distinct (set_of xs)"
proof -
  have "set (foldl (\<lambda>s x. set_add x s) acc xs) = set acc \<union> set xs \<and>
        (distinct acc \<longrightarrow> distinct (foldl (\<lambda>s x. set_add x s) acc xs))" for acc
    by (induction xs arbitrary: acc) auto
  from this [of "[]"] show ?thesis by (simp add: set_of_def)
qed

lemma json_strings_JStr [simp]: "json_strings (map JStr xs) = xs"
  by (induction xs) (simp_all add: json_strings_def)

lemma slice_last_props:
  "length (slice_last n xs) = min n (length xs)" "set (slice_last n xs) \<subseteq> set xs"
  "distinct xs \<Longrightarrow> distinct (slice_last n xs)"
  by (auto simp: slice_last_def dest: in_set_dropD)

lemma save_refused [simp]: "saveReadIds False ids old = old"
  by (simp add: saveReadIds_def)

lemma load_distinct: "distinct (loadReadIds raw)"
  by (auto simp: loadReadIds_def set_of_set split: stored.splits json.splits)

lemma load_save:
  "distinct ids \<Longrightarrow> loadReadIds (saveReadIds True ids old) = slice_last READ_MEMORY ids"
  by (simp add: saveReadIds_def loadReadIds_def set_of_distinct slice_last_props)

interpretation read_ids: persisted loadReadIds saveReadIds distinct "slice_last READ_MEMORY"
  by unfold_locales (simp_all add: load_distinct load_save slice_last_props)

section \<open>Identifiers\<close>

lemma recordId_inj: "recordId c k = recordId d l \<longleftrightarrow> c = d \<and> k = l"
proof
  assume eq: "recordId c k = recordId d l"
  have split: "js_split (CHR '':'') (recordId i s) = show_int i # js_split (CHR '':'') s" for i s
    using js_split_append_sep [OF show_int_no_colon, of i s] by (simp add: recordId_def)
  from eq have "show_int c = show_int d" using split by (metis list.inject)
  then have "c = d" by (simp add: show_int_inj)
  with eq show "c = d \<and> k = l" by (simp add: recordId_def)
qed simp

section \<open>Well-formed dictionaries\<close>

text \<open>Every record sits under its own id, which names its connection.\<close>

definition wf_records :: "records \<Rightarrow> bool" where
  "wf_records rs \<longleftrightarrow>
     distinct (map fst rs) \<and>
     (\<forall>(i, r) \<in> set rs. i = rec_id r \<and> (\<exists>key. rec_id r = recordId (rec_connectionId r) key))"

text \<open>A record may be stored under an id.\<close>

definition fits :: "string \<Rightarrow> alert_record \<Rightarrow> bool" where
  "fits i r \<longleftrightarrow> i = rec_id r \<and> (\<exists>key. rec_id r = recordId (rec_connectionId r) key)"

lemma wf_Nil [simp]: "wf_records []"
  by (simp add: wf_records_def)

lemma wf_update: "wf_records rs \<Longrightarrow> fits i r \<Longrightarrow> wf_records (AList.update i r rs)"
  by (auto simp: wf_records_def fits_def distinct_update in_update_cases)

lemma wf_lookup:
  assumes "wf_records rs" "map_of rs i = Some r"
  shows "fits i r"
  using map_of_SomeD [OF assms(2)] assms(1) by (auto simp: wf_records_def fits_def)

lemma wf_entry: "wf_records rs \<Longrightarrow> (i, r) \<in> set rs \<Longrightarrow> map_of rs i = Some r \<and> fits i r"
  by (auto simp: wf_records_def fits_def)

lemma wf_connection:
  "wf_records rs \<Longrightarrow> map_of rs (recordId c k) = Some r \<Longrightarrow>
   rec_connectionId r = c \<and> rec_id r = recordId c k"
  by (drule (1) wf_lookup) (auto simp: fits_def recordId_inj)

lemma fits_made [simp]:
  "fits (recordId cid (al_key a)) (refreshed now cid a b)"
  "fits (recordId cid (al_key a)) (opened now cid a s)"
  by (auto simp: fits_def refreshed_def opened_def)

end
