(* ===== verification/AlertMerge.thy ===== *)
theory AlertMerge
  imports AlertCenter
begin

text \<open>
  What \<open>mergeAlerts\<close> of AlertCenter does to the record of an id. Each loop of the code is
  first rewritten as one pass over the dictionary; then the record of an id after the merge
  is determined by its record before, and by whether its connection was observed and the
  alert is in the observation.
\<close>

section \<open>The loops as passes over the dictionary\<close>

definition kept :: "int list \<Rightarrow> int \<Rightarrow> alert_record \<Rightarrow> bool" where
  "kept known now r \<longleftrightarrow> rec_connectionId r \<in> set known \<and> \<not> expired now r"

lemma carry_pass:
  "distinct (map fst acc @ map rec_id vs) \<Longrightarrow>
   foldl (carryStep known now) acc vs = acc @ map (\<lambda>r. (rec_id r, r)) (filter (kept known now) vs)"
proof (induction vs arbitrary: acc)
  case Nil
  then show ?case by simp
next
  case (Cons r vs)
  show ?case
  proof (cases "kept known now r")
    case True
    with Cons.prems have "carryStep known now acc r = acc @ [(rec_id r, r)]"
      by (auto simp: carryStep_def kept_def intro: update_new)
    with True Cons show ?thesis by simp
  next
    case False
    then have "carryStep known now acc r = acc"
      by (auto simp: carryStep_def kept_def)
    with False Cons show ?thesis by simp
  qed
qed

lemma wf_ids: "wf_records rs \<Longrightarrow> map rec_id (values_of rs) = map fst rs"
  by (auto simp: wf_records_def)

lemma carryForward_filter:
  assumes "wf_records previous"
  shows "carryForward known now previous = filter (\<lambda>(i, r). kept known now r) previous"
proof -
  have "distinct (map rec_id (values_of previous))"
    using assms by (simp only: wf_ids) (simp add: wf_records_def)
  then have "carryForward known now previous =
      map (\<lambda>r. (rec_id r, r)) (filter (kept known now) (values_of previous))"
    using carry_pass [of "[]" "values_of previous" known now]
    by (simp only: carryForward_def) simp
  also have "\<dots> = filter (\<lambda>(i, r). kept known now r) previous"
  proof -
    have "rec_id (snd e) = fst e" if "e \<in> set previous" for e
      using assms that by (auto simp: wf_records_def)
    then show ?thesis
      by (simp add: filter_map comp_def case_prod_unfold cong: map_cong)
        (auto intro: map_idI)
  qed
  finally show ?thesis .
qed

definition gone :: "int \<Rightarrow> string list \<Rightarrow> alert_record \<Rightarrow> bool" where
  "gone cid stillFiring r \<longleftrightarrow>
     rec_connectionId r = cid \<and> rec_resolvedAt r = None \<and> rec_id r \<notin> set stillFiring"

definition resolvedIf :: "int \<Rightarrow> string list \<Rightarrow> int \<Rightarrow> alert_record \<Rightarrow> alert_record" where
  "resolvedIf cid stillFiring now r =
     (if gone cid stillFiring r then r\<lparr>rec_resolvedAt := Some now\<rparr> else r)"

lemma update_middle:
  "k \<notin> fst ` set xs \<Longrightarrow> AList.update k v (xs @ (k, u) # ys) = xs @ (k, v) # ys"
  by (induction xs) auto

lemma resolve_pass:
  "distinct (map fst (front @ todo)) \<Longrightarrow> \<forall>(i, r) \<in> set todo. i = rec_id r \<Longrightarrow>
   foldl (resolveStep cid still now) (front @ todo) (values_of todo) =
   front @ map (\<lambda>(i, r). (i, resolvedIf cid still now r)) todo"
proof (induction todo arbitrary: front)
  case Nil
  then show ?case by simp
next
  case (Cons e todo)
  obtain i r where e: "e = (i, r)" by (cases e)
  with Cons.prems have i: "i = rec_id r" "rec_id r \<notin> fst ` set front" by auto
  have "resolveStep cid still now (front @ e # todo) r =
      (front @ [(i, resolvedIf cid still now r)]) @ todo"
    using i e by (simp add: resolveStep_def resolvedIf_def gone_def update_middle)
  moreover have "distinct (map fst ((front @ [(i, resolvedIf cid still now r)]) @ todo))"
    using Cons.prems e by auto
  ultimately show ?case
    using Cons.IH [of "front @ [(i, resolvedIf cid still now r)]"] Cons.prems e by simp
qed

lemma resolveGone_map:
  "wf_records rs \<Longrightarrow>
   resolveGone cid still now rs = map (\<lambda>(i, r). (i, resolvedIf cid still now r)) rs"
  using resolve_pass [of "[]" rs cid still now]
  by (auto simp: resolveGone_def wf_records_def)

section \<open>Well-formedness is kept\<close>

lemma wf_filter: "wf_records rs \<Longrightarrow> wf_records (filter p rs)"
  by (auto simp: wf_records_def distinct_map_filter)

lemma wf_carryForward: "wf_records previous \<Longrightarrow> wf_records (carryForward known now previous)"
  by (simp add: carryForward_filter wf_filter)

lemma resolvedIf_fields [simp]:
  "rec_id (resolvedIf cid still now r) = rec_id r"
  "rec_connectionId (resolvedIf cid still now r) = rec_connectionId r"
  "rec_read (resolvedIf cid still now r) = rec_read r"
  by (simp_all add: resolvedIf_def)

lemma wf_resolveGone: "wf_records rs \<Longrightarrow> wf_records (resolveGone cid still now rs)"
  by (auto simp: resolveGone_map wf_records_def comp_def case_prod_unfold)

lemma wf_mergeDerived:
  "wf_records (fst st) \<Longrightarrow> wf_records (fst (mergeDerived read now cid st a))"
  by (cases st) (auto simp: mergeDerived_def Let_def wf_update split: option.splits)

lemma wf_foldl_mergeDerived:
  "wf_records (fst st) \<Longrightarrow> wf_records (fst (foldl (mergeDerived read now cid) st as))"
  by (induction as arbitrary: st) (simp_all add: wf_mergeDerived)

lemma mergeConnection_unfold:
  "mergeConnection read now st (cid, as) =
   (let p = foldl (mergeDerived read now cid) st as in
    (resolveGone cid (map (\<lambda>a. recordId cid (al_key a)) as) now (fst p), snd p))"
  by (simp add: mergeConnection_def Let_def case_prod_unfold)

lemma wf_mergeConnection:
  "wf_records (fst st) \<Longrightarrow> wf_records (fst (mergeConnection read now st e))"
  by (cases e)
    (simp add: mergeConnection_unfold Let_def wf_resolveGone wf_foldl_mergeDerived)

lemma wf_foldl_mergeConnection:
  "wf_records (fst st) \<Longrightarrow> wf_records (fst (foldl (mergeConnection read now) st obs))"
  by (induction obs arbitrary: st) (simp_all add: wf_mergeConnection)

lemma wf_mergeAlerts:
  "wf_records previous \<Longrightarrow> wf_records (fst (mergeAlerts previous observed known read now))"
  by (simp add: mergeAlerts_def wf_foldl_mergeConnection wf_carryForward)

section \<open>One connection\<close>

text \<open>The start and the read state of an alert in the observation, from its record before.\<close>

definition episode ::
  "string list \<Rightarrow> int \<Rightarrow> string \<Rightarrow> alert_record option \<Rightarrow> int \<times> bool" where
  "episode read now i before =
     (case before of
        None \<Rightarrow> (now, i \<in> set read)
      | Some b \<Rightarrow>
          if rec_resolvedAt b = None then (rec_firstSeen b, rec_read b) else (now, False))"

definition firing :: "alert_record option \<Rightarrow> bool" where
  "firing before \<longleftrightarrow> (\<exists>b. before = Some b \<and> rec_resolvedAt b = None)"

text \<open>The record of an alert of the observation after its connection was merged.\<close>

definition standing ::
  "int \<Rightarrow> int \<Rightarrow> derived_alert list \<Rightarrow> int \<times> bool \<Rightarrow> alert_record \<Rightarrow> bool" where
  "standing now cid as ep r \<longleftrightarrow>
     (\<exists>a \<in> set as. rec_id r = recordId cid (al_key a) \<and> rec_ruleKey r = al_ruleKey a \<and>
        rec_severity r = al_severity a \<and> rec_params r = al_params a \<and> rec_since r = al_since a) \<and>
     rec_connectionId r = cid \<and> rec_lastSeen r = now \<and> rec_resolvedAt r = None \<and>
     (rec_firstSeen r, rec_read r) = ep"

abbreviation alert_ids :: "int \<Rightarrow> derived_alert list \<Rightarrow> string list" where
  "alert_ids cid as \<equiv> map (\<lambda>a. recordId cid (al_key a)) as"

lemma standingD:
  "standing now cid as ep r \<Longrightarrow>
   rec_resolvedAt r = None \<and> rec_firstSeen r = fst ep \<and> rec_read r = snd ep"
  by (auto simp: standing_def)

lemma mergeDerived_other:
  "i \<noteq> recordId cid (al_key a) \<Longrightarrow>
   map_of (fst (mergeDerived read now cid st a)) i = map_of (fst st) i"
  by (cases st) (simp add: mergeDerived_def Let_def split: option.splits)

lemma mergeDerived_same:
  assumes "i = recordId cid (al_key a)"
  shows "\<exists>r. map_of (fst (mergeDerived read now cid st a)) i = Some r \<and>
             standing now cid [a] (episode read now i (map_of (fst st) i)) r"
  using assms
  by (cases st)
    (auto simp: mergeDerived_def Let_def standing_def episode_def refreshed_def opened_def
      split: option.splits)

lemma foldl_mergeDerived_other:
  "i \<notin> set (alert_ids cid as) \<Longrightarrow>
   map_of (fst (foldl (mergeDerived read now cid) st as)) i = map_of (fst st) i"
  by (induction as arbitrary: st) (auto simp: mergeDerived_other)

lemma standing_append:
  "standing now cid as ep r \<Longrightarrow> standing now cid (as @ bs) ep r"
  "standing now cid bs ep r \<Longrightarrow> standing now cid (as @ bs) ep r"
  by (auto simp: standing_def)

lemma episode_standing:
  "standing now cid as ep r \<Longrightarrow> episode read now i (Some r) = ep"
  by (auto simp: standing_def episode_def)

lemma foldl_mergeDerived_same:
  assumes "i \<in> set (alert_ids cid as)"
  shows "\<exists>r. map_of (fst (foldl (mergeDerived read now cid) st as)) i = Some r \<and>
             standing now cid as (episode read now i (map_of (fst st) i)) r"
  using assms
proof (induction as rule: rev_induct)
  case Nil
  then show ?case by simp
next
  case (snoc a as)
  let ?p = "foldl (mergeDerived read now cid) st as"
  let ?ep = "episode read now i (map_of (fst st) i)"
  have before: "episode read now i (map_of (fst ?p) i) = ?ep"
  proof (cases "i \<in> set (alert_ids cid as)")
    case True
    from snoc.IH [OF this] obtain r where
      "map_of (fst ?p) i = Some r" "standing now cid as ?ep r" by auto
    then show ?thesis by (simp add: episode_standing)
  next
    case False
    then show ?thesis by (simp add: foldl_mergeDerived_other del: set_map)
  qed
  show ?case
  proof (cases "i = recordId cid (al_key a)")
    case True
    from mergeDerived_same [OF this, of read now ?p] before
    obtain r where "map_of (fst (mergeDerived read now cid ?p a)) i = Some r"
      "standing now cid [a] ?ep r" by auto
    then show ?thesis by (auto intro: standing_append)
  next
    case False
    with snoc.prems have "i \<in> set (alert_ids cid as)" by auto
    from snoc.IH [OF this] False show ?thesis
      by (auto simp: mergeDerived_other intro: standing_append)
  qed
qed

lemma map_of_resolveGone:
  "wf_records rs \<Longrightarrow>
   map_of (resolveGone cid still now rs) i = map_option (resolvedIf cid still now) (map_of rs i)"
  by (simp add: resolveGone_map map_of_map)

lemma mergeConnection_other:
  assumes "wf_records (fst st)" and "cid \<noteq> c"
  shows "map_of (fst (mergeConnection read now st (cid, as))) (recordId c k) =
         map_of (fst st) (recordId c k)"
proof -
  let ?p = "foldl (mergeDerived read now cid) st as"
  have "recordId c k \<notin> set (alert_ids cid as)" using assms(2) by (auto simp: recordId_inj)
  then have same: "map_of (fst ?p) (recordId c k) = map_of (fst st) (recordId c k)"
    by (rule foldl_mergeDerived_other)
  moreover have "map_option (resolvedIf cid still now) (map_of (fst ?p) (recordId c k)) =
      map_of (fst ?p) (recordId c k)" for still
    using wf_connection [OF wf_foldl_mergeDerived [OF assms(1)]] assms(2)
    by (cases "map_of (fst ?p) (recordId c k)") (auto simp: resolvedIf_def gone_def)
  ultimately show ?thesis
    by (simp add: mergeConnection_unfold Let_def map_of_resolveGone wf_foldl_mergeDerived assms(1))
qed

lemma mergeConnection_observed:
  assumes "wf_records (fst st)" and "k \<in> al_key ` set as"
  shows "\<exists>r. map_of (fst (mergeConnection read now st (cid, as))) (recordId cid k) = Some r \<and>
             standing now cid as (episode read now (recordId cid k) (map_of (fst st) (recordId cid k))) r"
proof -
  let ?p = "foldl (mergeDerived read now cid) st as"
  have i: "recordId cid k \<in> set (alert_ids cid as)" using assms(2) by auto
  from foldl_mergeDerived_same [OF this, of read now st] obtain r where
    r: "map_of (fst ?p) (recordId cid k) = Some r"
      "standing now cid as (episode read now (recordId cid k) (map_of (fst st) (recordId cid k))) r"
    by auto
  have "rec_id r = recordId cid k"
    using wf_connection [OF wf_foldl_mergeDerived [OF assms(1)] r(1)] by simp
  with i have "resolvedIf cid (alert_ids cid as) now r = r"
    by (auto simp: resolvedIf_def gone_def)
  with r show ?thesis
    by (simp add: mergeConnection_unfold Let_def map_of_resolveGone wf_foldl_mergeDerived assms(1))
qed

text \<open>The record of an id whose alert is not in the observation of its connection.\<close>

definition settled :: "int \<Rightarrow> alert_record \<Rightarrow> alert_record" where
  "settled now r = (if rec_resolvedAt r = None then r\<lparr>rec_resolvedAt := Some now\<rparr> else r)"

lemma mergeConnection_cleared:
  assumes "wf_records (fst st)" and "k \<notin> al_key ` set as"
  shows "map_of (fst (mergeConnection read now st (cid, as))) (recordId cid k) =
         map_option (settled now) (map_of (fst st) (recordId cid k))"
proof -
  let ?p = "foldl (mergeDerived read now cid) st as"
  have no: "recordId cid k \<notin> set (alert_ids cid as)" using assms(2) by (auto simp: recordId_inj)
  then have same: "map_of (fst ?p) (recordId cid k) = map_of (fst st) (recordId cid k)"
    by (rule foldl_mergeDerived_other)
  have "map_option (resolvedIf cid (alert_ids cid as) now) (map_of (fst ?p) (recordId cid k)) =
      map_option (settled now) (map_of (fst ?p) (recordId cid k))"
    using wf_connection [OF wf_foldl_mergeDerived [OF assms(1)]] no
    by (cases "map_of (fst ?p) (recordId cid k)")
      (auto simp: resolvedIf_def gone_def settled_def)
  with same show ?thesis
    by (simp add: mergeConnection_unfold Let_def map_of_resolveGone wf_foldl_mergeDerived assms(1))
qed

section \<open>What a merge announces\<close>

text \<open>An alert is announced when it opens an episode nobody has seen.\<close>

definition announces :: "string list \<Rightarrow> string \<Rightarrow> alert_record option \<Rightarrow> bool" where
  "announces read i before \<longleftrightarrow>
     (case before of None \<Rightarrow> i \<notin> set read | Some b \<Rightarrow> rec_resolvedAt b \<noteq> None)"

lemma mergeDerived_fired:
  "rec_id ` set (snd (mergeDerived read now cid st a)) =
   rec_id ` set (snd st) \<union>
   (if announces read (recordId cid (al_key a)) (map_of (fst st) (recordId cid (al_key a)))
    then {recordId cid (al_key a)} else {})"
  by (cases st) (auto simp: mergeDerived_def announces_def opened_def Let_def split: option.splits)

lemma foldl_mergeDerived_fired:
  "i \<in> rec_id ` set (snd (foldl (mergeDerived read now cid) st as)) \<longleftrightarrow>
   i \<in> rec_id ` set (snd st) \<or>
   i \<in> set (alert_ids cid as) \<and> announces read i (map_of (fst st) i)"
proof (induction as rule: rev_induct)
  case Nil
  then show ?case by simp
next
  case (snoc a as)
  let ?p = "foldl (mergeDerived read now cid) st as"
  have step: "i \<in> rec_id ` set (snd (mergeDerived read now cid ?p a)) \<longleftrightarrow>
      i \<in> rec_id ` set (snd ?p) \<or>
      i = recordId cid (al_key a) \<and> announces read i (map_of (fst ?p) i)"
    by (auto simp: mergeDerived_fired)
  show ?case
  proof (cases "i \<in> set (alert_ids cid as)")
    case True
    from foldl_mergeDerived_same [OF this, of read now st] have
      "\<not> announces read i (map_of (fst ?p) i)"
      by (auto simp: announces_def standing_def)
    with True step snoc.IH show ?thesis by auto
  next
    case False
    then have "map_of (fst ?p) i = map_of (fst st) i" by (rule foldl_mergeDerived_other)
    with False step snoc.IH show ?thesis by auto
  qed
qed

lemma mergeConnection_fired:
  "i \<in> rec_id ` set (snd (mergeConnection read now st (cid, as))) \<longleftrightarrow>
   i \<in> rec_id ` set (snd st) \<or>
   i \<in> set (alert_ids cid as) \<and> announces read i (map_of (fst st) i)"
  using foldl_mergeDerived_fired [of i read now cid st as]
  by (simp add: mergeConnection_unfold Let_def)

text \<open>Announced records are distinct, and stand in the dictionary unread and firing.\<close>

definition announced :: "int \<Rightarrow> records \<times> alert_record list \<Rightarrow> bool" where
  "announced now st \<longleftrightarrow>
     distinct (map rec_id (snd st)) \<and>
     (\<forall>f \<in> set (snd st). \<exists>r. map_of (fst st) (rec_id f) = Some r \<and>
        rec_resolvedAt r = None \<and> \<not> rec_read r \<and> rec_firstSeen r = now)"

lemma announced_mergeDerived:
  assumes "announced now st"
  shows "announced now (mergeDerived read now cid st a)"
proof -
  obtain rs fired where st: "st = (rs, fired)" by (cases st)
  let ?i = "recordId cid (al_key a)"
  show ?thesis
  proof (cases "map_of rs ?i")
    case None
    with assms st show ?thesis
      by (auto simp: announced_def mergeDerived_def opened_def Let_def)
  next
    case (Some b)
    show ?thesis
    proof (cases "rec_resolvedAt b")
      case None
      have "\<exists>r. map_of (AList.update ?i (refreshed now cid a b) rs) (rec_id f) = Some r \<and>
          rec_resolvedAt r = None \<and> \<not> rec_read r \<and> rec_firstSeen r = now"
        if "f \<in> set fired" for f
        using assms st that \<open>map_of rs ?i = Some b\<close>
        by (cases "rec_id f = ?i") (auto simp: announced_def refreshed_def)
      with None \<open>map_of rs ?i = Some b\<close> assms st show ?thesis
        by (simp add: announced_def mergeDerived_def)
    next
      case (Some at0)
      with \<open>map_of rs ?i = Some b\<close> assms st show ?thesis
        by (auto simp: announced_def mergeDerived_def opened_def Let_def)
    qed
  qed
qed

lemma announced_foldl:
  "announced now st \<Longrightarrow> announced now (foldl (mergeDerived read now cid) st as)"
  by (induction as arbitrary: st) (simp_all add: announced_mergeDerived)

lemma announced_mergeConnection:
  assumes wf: "wf_records (fst st)" and ann: "announced now st"
    and fresh: "\<forall>f \<in> set (snd st). \<forall>k. rec_id f \<noteq> recordId cid k"
  shows "announced now (mergeConnection read now st (cid, as))"
proof -
  let ?p = "foldl (mergeDerived read now cid) st as"
  have ok: "announced now ?p" by (rule announced_foldl [OF ann])
  have wfp: "wf_records (fst ?p)" by (rule wf_foldl_mergeDerived [OF wf])
  have stays: "resolvedIf cid (alert_ids cid as) now r = r"
    if f: "f \<in> set (snd ?p)" and r: "map_of (fst ?p) (rec_id f) = Some r" for f r
  proof (rule ccontr)
    assume "resolvedIf cid (alert_ids cid as) now r \<noteq> r"
    then have g: "rec_connectionId r = cid" "rec_id r \<notin> set (alert_ids cid as)"
      by (auto simp: resolvedIf_def gone_def split: if_splits)
    from wf_lookup [OF wfp r] g(1) obtain k where k: "rec_id f = rec_id r" "rec_id r = recordId cid k"
      by (auto simp: fits_def)
    from f have "rec_id f \<in> rec_id ` set (snd ?p)" by simp
    with k g(2) have "rec_id f \<in> rec_id ` set (snd st)"
      by (simp only: foldl_mergeDerived_fired) auto
    with k fresh show False by (metis imageE)
  qed
  have "\<exists>r. map_of (resolveGone cid (alert_ids cid as) now (fst ?p)) (rec_id f) = Some r \<and>
      rec_resolvedAt r = None \<and> \<not> rec_read r \<and> rec_firstSeen r = now"
    if f: "f \<in> set (snd ?p)" for f
  proof -
    from ok f obtain r where r: "map_of (fst ?p) (rec_id f) = Some r"
      "rec_resolvedAt r = None \<and> \<not> rec_read r \<and> rec_firstSeen r = now"
      by (auto simp: announced_def)
    with stays [OF f r(1)] show ?thesis by (simp add: map_of_resolveGone wfp)
  qed
  with ok show ?thesis
    by (simp add: announced_def mergeConnection_unfold Let_def)
qed

section \<open>The whole merge\<close>

lemma merge_lookup_unobserved:
  "wf_records (fst st) \<Longrightarrow> c \<notin> fst ` set obs \<Longrightarrow>
   map_of (fst (foldl (mergeConnection read now) st obs)) (recordId c k) =
   map_of (fst st) (recordId c k)"
proof (induction obs arbitrary: st)
  case Nil
  then show ?case by simp
next
  case (Cons e obs)
  then obtain cid as where e: "e = (cid, as)" "cid \<noteq> c" by (cases e) auto
  with Cons show ?case by (simp add: mergeConnection_other wf_mergeConnection)
qed

lemma merge_lookup_observed:
  assumes "wf_records (fst st)" "distinct (map fst obs)" "(c, as) \<in> set obs"
  shows "\<exists>st'. wf_records (fst st') \<and>
     map_of (fst st') (recordId c k) = map_of (fst st) (recordId c k) \<and>
     map_of (fst (foldl (mergeConnection read now) st obs)) (recordId c k) =
     map_of (fst (mergeConnection read now st' (c, as))) (recordId c k)"
  using assms
proof (induction obs arbitrary: st)
  case Nil
  then show ?case by simp
next
  case (Cons e obs)
  obtain cid bs where e: "e = (cid, bs)" by (cases e)
  show ?case
  proof (cases "cid = c")
    case True
    with Cons.prems(2) e have c: "c \<notin> fst ` set obs" by simp
    then have "(c, as) \<notin> set obs" by force
    with Cons.prems(3) e True have "bs = as" by simp
    with Cons.prems(1) e True c show ?thesis
      by (intro exI [of _ st]) (simp add: merge_lookup_unobserved wf_mergeConnection)
  next
    case False
    with Cons.prems e have
      "\<exists>st'. wf_records (fst st') \<and>
         map_of (fst st') (recordId c k) =
         map_of (fst (mergeConnection read now st (cid, bs))) (recordId c k) \<and>
         map_of (fst (foldl (mergeConnection read now) (mergeConnection read now st (cid, bs)) obs))
           (recordId c k) =
         map_of (fst (mergeConnection read now st' (c, as))) (recordId c k)"
      by (intro Cons.IH) (auto simp: wf_mergeConnection)
    with False Cons.prems(1) e show ?thesis by (simp add: mergeConnection_other)
  qed
qed

lemma merge_fired:
  "wf_records (fst st) \<Longrightarrow> distinct (map fst obs) \<Longrightarrow>
   recordId c k \<in> rec_id ` set (snd (foldl (mergeConnection read now) st obs)) \<longleftrightarrow>
   recordId c k \<in> rec_id ` set (snd st) \<or>
   (\<exists>as. (c, as) \<in> set obs \<and> k \<in> al_key ` set as \<and>
      announces read (recordId c k) (map_of (fst st) (recordId c k)))"
proof (induction obs arbitrary: st)
  case Nil
  then show ?case by simp
next
  case (Cons e obs)
  obtain cid bs where e: "e = (cid, bs)" by (cases e)
  let ?st = "mergeConnection read now st (cid, bs)"
  have mine: "recordId c k \<in> set (alert_ids cid bs) \<longleftrightarrow> cid = c \<and> k \<in> al_key ` set bs"
    by (auto simp: recordId_inj)
  have IH: "recordId c k \<in> rec_id ` set (snd (foldl (mergeConnection read now) ?st obs)) \<longleftrightarrow>
      recordId c k \<in> rec_id ` set (snd ?st) \<or>
      (\<exists>as. (c, as) \<in> set obs \<and> k \<in> al_key ` set as \<and>
         announces read (recordId c k) (map_of (fst ?st) (recordId c k)))"
    using Cons.prems e by (intro Cons.IH) (simp_all add: wf_mergeConnection)
  show ?case
  proof (cases "cid = c")
    case True
    with Cons.prems(2) e have "c \<notin> fst ` set obs" by simp
    then have "(c, as) \<notin> set obs" for as by force
    with IH e True mine mergeConnection_fired [of "recordId c k" read now st cid bs]
    show ?thesis by auto
  next
    case False
    with IH e mine mergeConnection_fired [of "recordId c k" read now st cid bs] Cons.prems(1)
    show ?thesis by (auto simp: mergeConnection_other)
  qed
qed

lemma fired_source:
  "i \<in> rec_id ` set (snd (foldl (mergeConnection read now) st obs)) \<Longrightarrow>
   i \<in> rec_id ` set (snd st) \<or> (\<exists>e \<in> set obs. i \<in> set (alert_ids (fst e) (snd e)))"
proof (induction obs rule: rev_induct)
  case Nil
  then show ?case by simp
next
  case (snoc e obs)
  obtain cid bs where e: "e = (cid, bs)" by (cases e)
  let ?p = "foldl (mergeConnection read now) st obs"
  from snoc.prems e have "i \<in> rec_id ` set (snd (mergeConnection read now ?p (cid, bs)))"
    by simp
  then have "i \<in> rec_id ` set (snd ?p) \<or> i \<in> set (alert_ids cid bs)"
    by (simp only: mergeConnection_fired) blast
  then show ?case
  proof
    assume "i \<in> rec_id ` set (snd ?p)"
    from snoc.IH [OF this] show ?case by auto
  next
    assume "i \<in> set (alert_ids cid bs)"
    with e show ?case by simp
  qed
qed

lemma announced_merge:
  assumes "wf_records (fst st)" "snd st = []" "distinct (map fst obs)"
  shows "announced now (foldl (mergeConnection read now) st obs)"
  using assms
proof (induction obs rule: rev_induct)
  case Nil
  then show ?case by (simp add: announced_def)
next
  case (snoc e obs)
  obtain cid bs where e: "e = (cid, bs)" by (cases e)
  let ?p = "foldl (mergeConnection read now) st obs"
  from snoc.prems e have cid: "cid \<notin> fst ` set obs" by auto
  have "rec_id f \<noteq> recordId cid k" if f: "f \<in> set (snd ?p)" for f k
  proof
    assume "rec_id f = recordId cid k"
    with f have "recordId cid k \<in> rec_id ` set (snd ?p)" by (metis image_eqI)
    from fired_source [OF this] snoc.prems(2) obtain e' where
      e': "e' \<in> set obs" "recordId cid k \<in> set (alert_ids (fst e') (snd e'))" by auto
    then have "fst e' = cid" by (auto simp: recordId_inj)
    with e'(1) cid show False by auto
  qed
  with snoc e show ?case
    by (auto intro!: announced_mergeConnection wf_foldl_mergeConnection)
qed

lemma map_of_filter_values:
  "distinct (map fst xs) \<Longrightarrow>
   map_of (filter (\<lambda>(i, r). p r) xs) i =
   (case map_of xs i of None \<Rightarrow> None | Some r \<Rightarrow> if p r then Some r else None)"
proof (induction xs)
  case Nil
  then show ?case by simp
next
  case (Cons e xs)
  obtain j r where e: "e = (j, r)" by (cases e)
  with Cons.prems have "map_of (filter (\<lambda>(i, r). p r) xs) j = None"
    by (auto simp: map_of_eq_None_iff)
  with Cons e show ?case by auto
qed

lemma map_of_carried:
  "wf_records previous \<Longrightarrow>
   map_of (carryForward known now previous) i =
   (case map_of previous i of
      None \<Rightarrow> None
    | Some r \<Rightarrow> if kept known now r then Some r else None)"
  by (simp add: carryForward_filter map_of_filter_values wf_records_def)

lemma merge_lookup:
  assumes "wf_records previous" "distinct (map fst observed)" "(c, as) \<in> set observed"
  shows "\<exists>st. wf_records (fst st) \<and>
     map_of (fst st) (recordId c k) = map_of (carryForward known now previous) (recordId c k) \<and>
     map_of (fst (mergeAlerts previous observed known read now)) (recordId c k) =
     map_of (fst (mergeConnection read now st (c, as))) (recordId c k)"
  using merge_lookup_observed [OF _ assms(2,3), of "(carryForward known now previous, [])" k read now]
    wf_carryForward [OF assms(1)]
  by (simp add: mergeAlerts_def)

lemma merge_lookup_present:
  assumes "wf_records previous" "distinct (map fst observed)" "(c, as) \<in> set observed"
    "k \<in> al_key ` set as"
  shows "\<exists>r. map_of (fst (mergeAlerts previous observed known read now)) (recordId c k) = Some r \<and>
     standing now c as
       (episode read now (recordId c k) (map_of (carryForward known now previous) (recordId c k))) r"
  using merge_lookup [OF assms(1,2,3), of k known now read] mergeConnection_observed [OF _ assms(4)]
  by (metis (no_types, lifting))

lemma merge_lookup_absent:
  assumes "wf_records previous" "distinct (map fst observed)" "(c, as) \<in> set observed"
    "k \<notin> al_key ` set as"
  shows "map_of (fst (mergeAlerts previous observed known read now)) (recordId c k) =
     map_option (settled now) (map_of (carryForward known now previous) (recordId c k))"
  using merge_lookup [OF assms(1,2,3), of k known now read] mergeConnection_cleared [OF _ assms(4)]
  by (metis (no_types, lifting))

lemma merge_lookup_silent:
  "wf_records previous \<Longrightarrow> c \<notin> fst ` set observed \<Longrightarrow>
   map_of (fst (mergeAlerts previous observed known read now)) (recordId c k) =
   map_of (carryForward known now previous) (recordId c k)"
  by (simp add: mergeAlerts_def merge_lookup_unobserved wf_carryForward)

lemma merge_fired_carried:
  "wf_records previous \<Longrightarrow> distinct (map fst observed) \<Longrightarrow>
   recordId c k \<in> rec_id ` set (snd (mergeAlerts previous observed known read now)) \<longleftrightarrow>
   (\<exists>as. (c, as) \<in> set observed \<and> k \<in> al_key ` set as \<and>
      announces read (recordId c k) (map_of (carryForward known now previous) (recordId c k)))"
  using merge_fired [of "(carryForward known now previous, [])" observed c k read now]
  by (simp add: mergeAlerts_def wf_carryForward)

lemma settled_resolved [simp]: "rec_resolvedAt (settled now r) \<noteq> None"
  by (simp add: settled_def)

lemma fired_is_id:
  assumes "wf_records previous"
    and "f \<in> set (snd (mergeAlerts previous observed known read now))"
  shows "\<exists>c k. rec_id f = recordId c k \<and> c \<in> fst ` set observed"
proof -
  from assms(2) have
    "rec_id f \<in> rec_id ` set (snd (foldl (mergeConnection read now)
       (carryForward known now previous, []) observed))"
    by (simp add: mergeAlerts_def)
  from fired_source [OF this] show ?thesis by auto
qed

section \<open>Properties of the merge\<close>

text \<open>A record of the samples the properties are applied at.\<close>

definition sample_record :: "int \<Rightarrow> string \<Rightarrow> alert_record" where
  "sample_record cid key =
     \<lparr>rec_id = recordId cid key, rec_connectionId = cid, rec_ruleKey = BrokerOffline,
      rec_severity = Crit, rec_params = [], rec_since = None, rec_firstSeen = 10,
      rec_lastSeen = 10, rec_resolvedAt = None, rec_read = True\<rparr>"

definition sample_records :: records where
  "sample_records =
     [(recordId 1 ''a'', sample_record 1 ''a''),
      (recordId 1 ''b'', (sample_record 1 ''b'')\<lparr>rec_resolvedAt := Some 20\<rparr>),
      (recordId 2 ''a'', sample_record 2 ''a'')]"

definition sample_observed :: observations where
  "sample_observed =
     [(1, [alert ''b'' GroupLag Warn [] None, alert ''c'' GroupLag Warn [] None])]"

lemma sample_wf: "wf_records sample_records"
  by (auto simp: sample_records_def sample_record_def wf_records_def recordId_inj)

lemma sample_lookups:
  "map_of sample_records (recordId 1 ''a'') = Some (sample_record 1 ''a'')"
  "map_of sample_records (recordId 1 ''b'') = Some ((sample_record 1 ''b'')\<lparr>rec_resolvedAt := Some 20\<rparr>)"
  "map_of sample_records (recordId 1 ''c'') = None"
  "map_of sample_records (recordId 2 ''a'') = Some (sample_record 2 ''a'')"
  by (simp_all add: sample_records_def recordId_inj)

lemma sample_observed_simps:
  "distinct (map fst sample_observed)" "fst ` set sample_observed = {1}"
  "(1, [alert ''b'' GroupLag Warn [] None, alert ''c'' GroupLag Warn [] None]) \<in> set sample_observed"
  by (simp_all add: sample_observed_def)

text \<open>The merge keeps the dictionary well formed: ids stay distinct, and every record sits
  under its own id, which names its connection.\<close>

theorem merge_keeps_wf:
  "wf_records previous \<Longrightarrow> wf_records (fst (mergeAlerts previous observed known read now))"
  by (rule wf_mergeAlerts)

lemma merge_keeps_wf_witness:
  "wf_records (fst (mergeAlerts sample_records sample_observed [1, 2] [] 30))"
  by (rule merge_keeps_wf [OF sample_wf])

text \<open>C2. After a merge the firing records of an observed connection are exactly the alerts
  observed on it, whatever was remembered before.\<close>

theorem merge_firing_exact:
  assumes "wf_records previous" "distinct (map fst observed)" "(c, as) \<in> set observed"
  shows "firing (map_of (fst (mergeAlerts previous observed known read now)) (recordId c k)) \<longleftrightarrow>
         k \<in> al_key ` set as"
proof (cases "k \<in> al_key ` set as")
  case True
  with merge_lookup_present [OF assms True, of known read now] show ?thesis
    by (auto simp: firing_def standing_def)
next
  case False
  with merge_lookup_absent [OF assms False, of known read now] show ?thesis
    by (auto simp: firing_def)
qed

lemma merge_firing_exact_witness:
  "firing (map_of (fst (mergeAlerts sample_records sample_observed [1, 2] [] 30)) (recordId 1 ''c'')) \<and>
   \<not> firing (map_of (fst (mergeAlerts sample_records sample_observed [1, 2] [] 30)) (recordId 1 ''a''))"
  using merge_firing_exact [OF sample_wf sample_observed_simps(1,3)] by simp

text \<open>A connection whose poll failed, which is not in the observation, concludes nothing:
  its records are what they were, less the expired recoveries, and all of them go with a
  deleted profile.\<close>

theorem merge_unobserved_kept:
  assumes "wf_records previous" "c \<notin> fst ` set observed"
  shows "map_of (fst (mergeAlerts previous observed known read now)) (recordId c k) =
         (case map_of previous (recordId c k) of
            None \<Rightarrow> None
          | Some r \<Rightarrow> if c \<in> set known \<and> \<not> expired now r then Some r else None)"
  using assms wf_connection [OF assms(1)]
  by (auto simp: merge_lookup_silent map_of_carried kept_def split: option.splits)

lemma merge_unobserved_kept_witness:
  "map_of (fst (mergeAlerts sample_records sample_observed [1, 2] [] 30)) (recordId 2 ''a'') =
   Some (sample_record 2 ''a'')"
  using merge_unobserved_kept [OF sample_wf, of 2 sample_observed "[1, 2]" "[]" 30 "''a''"]
  by (simp add: sample_observed_simps sample_lookups sample_record_def expired_def)

text \<open>An alert that keeps firing keeps its record: when it started and whether it was
  read stay, only the figures and the time it was last seen move.\<close>

theorem merge_refreshes:
  assumes "wf_records previous" "distinct (map fst observed)" "(c, as) \<in> set observed"
    "k \<in> al_key ` set as" "c \<in> set known"
    "map_of previous (recordId c k) = Some b" "rec_resolvedAt b = None"
  shows "\<exists>r. map_of (fst (mergeAlerts previous observed known read now)) (recordId c k) = Some r \<and>
     rec_firstSeen r = rec_firstSeen b \<and> rec_read r = rec_read b \<and> rec_lastSeen r = now \<and>
     rec_resolvedAt r = None"
proof -
  have "map_of (carryForward known now previous) (recordId c k) = Some b"
    using assms wf_connection [OF assms(1,6)] by (simp add: map_of_carried kept_def expired_def)
  with merge_lookup_present [OF assms(1-4), of known read now] assms(7) show ?thesis
    by (auto simp: standing_def episode_def)
qed

lemma merge_refreshes_witness:
  "\<exists>r. map_of (fst (mergeAlerts sample_records [(1, [alert ''a'' GroupLag Warn [] None])] [1] [] 30))
         (recordId 1 ''a'') = Some r \<and>
     rec_firstSeen r = 10 \<and> rec_read r \<and> rec_lastSeen r = 30 \<and> rec_resolvedAt r = None"
  using merge_refreshes [OF sample_wf, of "[(1, [alert ''a'' GroupLag Warn [] None])]" 1
      "[alert ''a'' GroupLag Warn [] None]" "''a''" "[1]" "sample_record 1 ''a''" "[]" 30]
  by (simp add: sample_lookups) (simp add: sample_record_def)

text \<open>A firing alert that an observation of its connection no longer holds is marked
  recovered at the time of the merge, and nothing else of it changes.\<close>

theorem merge_recovers:
  assumes "wf_records previous" "distinct (map fst observed)" "(c, as) \<in> set observed"
    "k \<notin> al_key ` set as" "c \<in> set known"
    "map_of previous (recordId c k) = Some b" "rec_resolvedAt b = None"
  shows "map_of (fst (mergeAlerts previous observed known read now)) (recordId c k) =
         Some (b\<lparr>rec_resolvedAt := Some now\<rparr>)"
  using assms wf_connection [OF assms(1,6)] merge_lookup_absent [OF assms(1-4)]
  by (simp add: map_of_carried kept_def expired_def settled_def)

lemma merge_recovers_witness:
  "map_of (fst (mergeAlerts sample_records sample_observed [1, 2] [] 30)) (recordId 1 ''a'') =
   Some ((sample_record 1 ''a'')\<lparr>rec_resolvedAt := Some 30\<rparr>)"
  by (rule merge_recovers [OF sample_wf sample_observed_simps(1,3)])
    (simp_all add: sample_lookups sample_record_def)

text \<open>C3. What a merge announces: exactly the observed alerts that open an episode nobody has
  seen, which is one with no live record whose id is not in the stored read set, or one back
  from a recovery the list still shows.\<close>

theorem merge_announces_exactly:
  assumes "wf_records previous" "distinct (map fst observed)"
  shows "recordId c k \<in> rec_id ` set (snd (mergeAlerts previous observed known read now)) \<longleftrightarrow>
     (\<exists>as. (c, as) \<in> set observed \<and> k \<in> al_key ` set as) \<and>
     (case map_of previous (recordId c k) of
        None \<Rightarrow> recordId c k \<notin> set read
      | Some b \<Rightarrow>
          if c \<in> set known \<and> \<not> expired now b then rec_resolvedAt b \<noteq> None
          else recordId c k \<notin> set read)"
  using wf_connection [OF assms(1), of c k]
  by (auto simp: merge_fired_carried assms map_of_carried kept_def announces_def
      split: option.splits if_splits)

lemma merge_announces_exactly_witness:
  "recordId 1 ''b'' \<in> rec_id ` set (snd (mergeAlerts sample_records sample_observed [1, 2]
     [recordId 1 ''b'', recordId 1 ''c''] 30)) \<and>
   recordId 1 ''c'' \<notin> rec_id ` set (snd (mergeAlerts sample_records sample_observed [1, 2]
     [recordId 1 ''b'', recordId 1 ''c''] 30))"
  using merge_announces_exactly [OF sample_wf sample_observed_simps(1)]
  by (simp add: sample_lookups sample_observed_def expired_def RESOLVED_RETENTION_MS_def)

text \<open>Every announced record is announced once and stands in the dictionary as a firing,
  unread record that started with this merge.\<close>

theorem merge_announced_stand:
  assumes "wf_records previous" "distinct (map fst observed)"
  shows "distinct (map rec_id (snd (mergeAlerts previous observed known read now))) \<and>
     list_all (\<lambda>f. \<exists>r. map_of (fst (mergeAlerts previous observed known read now)) (rec_id f) = Some r \<and>
        rec_resolvedAt r = None \<and> \<not> rec_read r \<and> rec_firstSeen r = now)
       (snd (mergeAlerts previous observed known read now))"
  using announced_merge [of "(carryForward known now previous, [])" observed now read] assms
  by (simp add: mergeAlerts_def announced_def wf_carryForward list_all_iff)

lemma merge_announced_stand_witness:
  "distinct (map rec_id (snd (mergeAlerts sample_records sample_observed [1, 2] [] 30)))"
  using merge_announced_stand [OF sample_wf sample_observed_simps(1)] by blast

text \<open>Merging the same observation again announces nothing, whatever the clock and the
  read set say then, as long as every observed connection is known.\<close>

theorem merge_again_silent:
  assumes wf: "wf_records previous" and dist: "distinct (map fst observed)"
    and known: "fst ` set observed \<subseteq> set known"
  shows "snd (mergeAlerts (fst (mergeAlerts previous observed known read now)) observed known read' later) = []"
proof (rule ccontr)
  let ?once = "fst (mergeAlerts previous observed known read now)"
  have wf1: "wf_records ?once" by (rule wf_mergeAlerts [OF wf])
  assume "snd (mergeAlerts ?once observed known read' later) \<noteq> []"
  then obtain f where f: "f \<in> set (snd (mergeAlerts ?once observed known read' later))"
    by (meson last_in_set)
  from fired_is_id [OF wf1 f] obtain c k where ck: "rec_id f = recordId c k" by blast
  with f have "recordId c k \<in> rec_id ` set (snd (mergeAlerts ?once observed known read' later))"
    by (metis image_eqI)
  then obtain as where as: "(c, as) \<in> set observed" "k \<in> al_key ` set as"
    and ann: "announces read' (recordId c k) (map_of (carryForward known later ?once) (recordId c k))"
    by (auto simp: merge_fired_carried wf1 dist)
  from merge_lookup_present [OF wf dist as, of known read now] obtain r where
    r: "map_of ?once (recordId c k) = Some r" "rec_resolvedAt r = None" "rec_connectionId r = c"
    by (auto simp: standing_def)
  from as(1) known have "c \<in> set known" by force
  with r ann show False
    by (simp add: map_of_carried wf1 kept_def expired_def announces_def)
qed

lemma merge_again_silent_witness:
  "snd (mergeAlerts (fst (mergeAlerts sample_records sample_observed [1, 2] [] 30)) sample_observed
     [1, 2] [] 40) = []"
  by (rule merge_again_silent [OF sample_wf sample_observed_simps(1)])
    (simp add: sample_observed_simps)

text \<open>An observation of a connection that is not known is not forgotten: every merge of it
  opens the record anew and announces it again, until the observation itself is replaced.\<close>

theorem merge_unknown_reannounces:
  assumes "wf_records previous" "distinct (map fst observed)" "(c, as) \<in> set observed"
    "k \<in> al_key ` set as" "c \<notin> set known" "recordId c k \<notin> set read"
  shows "recordId c k \<in> rec_id ` set (snd (mergeAlerts
           (fst (mergeAlerts previous observed known read now)) observed known read later))"
proof -
  have wf1: "wf_records (fst (mergeAlerts previous observed known read now))"
    by (rule wf_mergeAlerts [OF assms(1)])
  have "map_of (carryForward known later (fst (mergeAlerts previous observed known read now)))
      (recordId c k) = None"
    using wf_connection [OF wf1, of c k] assms(5)
    by (auto simp: map_of_carried wf1 kept_def split: option.splits)
  with assms show ?thesis
    by (auto simp: merge_fired_carried wf1 announces_def)
qed

lemma merge_unknown_reannounces_witness:
  "recordId 1 ''c'' \<in> rec_id ` set (snd (mergeAlerts
     (fst (mergeAlerts sample_records sample_observed [2] [] 30)) sample_observed [2] [] 40))"
  by (rule merge_unknown_reannounces [OF sample_wf sample_observed_simps(1,3)]) simp_all

text \<open>A recurrence is announced while its recovery is still listed, and is silent once
  the recovery has expired: the merge then takes it for a standing alert of an earlier launch
  and marks it read, though the user only acknowledged the earlier episode.\<close>

theorem merge_recurrence:
  assumes "wf_records previous" "distinct (map fst observed)" "(c, as) \<in> set observed"
    "k \<in> al_key ` set as" "c \<in> set known" "map_of previous (recordId c k) = Some b"
    "rec_resolvedAt b = Some ended" "recordId c k \<in> set read"
  shows "if now - ended \<le> RESOLVED_RETENTION_MS
     then recordId c k \<in> rec_id ` set (snd (mergeAlerts previous observed known read now))
     else recordId c k \<notin> rec_id ` set (snd (mergeAlerts previous observed known read now)) \<and>
          (\<exists>r. map_of (fst (mergeAlerts previous observed known read now)) (recordId c k) = Some r \<and>
               rec_read r \<and> rec_resolvedAt r = None \<and> rec_firstSeen r = now)"
proof (cases "now - ended \<le> RESOLVED_RETENTION_MS")
  case True
  with assms wf_connection [OF assms(1,6)] show ?thesis
    by (auto simp: merge_fired_carried map_of_carried kept_def expired_def announces_def)
next
  case False
  with assms wf_connection [OF assms(1,6)] have
    none: "map_of (carryForward known now previous) (recordId c k) = None"
    by (simp add: map_of_carried kept_def expired_def)
  with merge_lookup_present [OF assms(1-4), of known read now] assms(8) have
    "\<exists>r. map_of (fst (mergeAlerts previous observed known read now)) (recordId c k) = Some r \<and>
       rec_read r \<and> rec_resolvedAt r = None \<and> rec_firstSeen r = now"
    by (auto simp: standing_def episode_def)
  with False none assms show ?thesis
    by (auto simp: merge_fired_carried announces_def)
qed

lemma merge_recurrence_witness:
  "recordId 1 ''b'' \<notin> rec_id ` set (snd (mergeAlerts sample_records sample_observed [1]
     [recordId 1 ''b''] 2000000))"
  using merge_recurrence [OF sample_wf sample_observed_simps(1,3), of "''b''" "[1]"
      "(sample_record 1 ''b'')\<lparr>rec_resolvedAt := Some 20\<rparr>" 20 "[recordId 1 ''b'']" 2000000]
  by (simp add: sample_lookups RESOLVED_RETENTION_MS_def)

end
