(* ===== verification/AlertSweep.thy ===== *)
theory AlertSweep
  imports AlertDerive AlertMerge "HOL-Library.Product_Lexorder" "HOL-Library.Multiset"
begin

text \<open>
  The notification centre's store (frontend/src/hooks/useAlertCenter.tsx): one sweep of a
  connection, the facts the last sweeps left, what the merge is fed with, the read actions
  and the grouping the popover draws. The store is a step relation: a sweep is started and
  settles later, so several can be in flight and settle in any order.

  The backend's answers are arguments: \<open>None\<close> is a request that failed. Profile ids are
  database ids, so \<open>Object.entries\<close> of the facts enumerates them in ascending order.
\<close>

record profile =
  prof_id :: int
  prof_name :: string
  prof_kind :: mq_kind
  prof_status :: string

record replies =
  rep_nodes :: "node list option"
  rep_groups :: "subscription list option"
  rep_destinations :: "destination list option"
  rep_connections :: "client_connection list option"

text \<open>Only what the family's rules read; each of the three lists degrades to nothing.\<close>

definition sweepConnection :: "profile \<Rightarrow> replies \<Rightarrow> int \<times> alert_facts option" where
  "sweepConnection p answer =
     (if prof_status p \<noteq> ''online'' then (prof_id p, Some NO_FACTS)
      else
        let rabbit = (prof_kind p = KindRabbitMQ);
            needsDestinations = (prof_kind p \<in> set KINDS_NEEDING_DESTINATIONS)
        in case rep_nodes answer of
             None \<Rightarrow> (prof_id p, None)
           | Some nodes \<Rightarrow>
               (prof_id p,
                Some \<lparr>facts_nodes = nodes,
                      facts_consumerGroups = (if rabbit then [] else nullish (rep_groups answer) []),
                      facts_destinations =
                        (if needsDestinations then nullish (rep_destinations answer) [] else []),
                      facts_connections = (if rabbit then nullish (rep_connections answer) [] else [])\<rparr>))"

lemma sweep_id [simp]: "fst (sweepConnection p answer) = prof_id p"
  by (simp add: sweepConnection_def Let_def split: option.splits)

lemma sweep_gathered: "snd (sweepConnection p answer) = Some f \<Longrightarrow> gathered (prof_kind p) f"
  by (auto simp: sweepConnection_def gathered_def Let_def split: if_splits option.splits)

section \<open>The store\<close>

type_synonym fact_table = "(int \<times> alert_facts option) list"

record center =
  ce_profiles :: "profile list"
  ce_inflight :: "profile list list"
  ce_facts :: fact_table
  ce_records :: records
  ce_loading :: bool
  ce_readIds :: "string list"
  ce_stored :: stored
  ce_rules :: alert_rule_prefs
  ce_lag :: "int option"
  ce_disk :: "int option"

text \<open>The last good read is kept when this one failed; a profile not swept is dropped.\<close>

definition settleFacts :: "(int \<times> alert_facts option) list \<Rightarrow> fact_table \<Rightarrow> fact_table" where
  "settleFacts sweeps previous =
     foldl (\<lambda>next (i, f). AList.update i
              (case f of Some x \<Rightarrow> Some x | None \<Rightarrow> nullish (map_of previous i) None) next)
       [] sweeps"

text \<open>\<open>kinds.get(id)\<close>: a later profile of the same id wins.\<close>

definition kindOf :: "profile list \<Rightarrow> int \<Rightarrow> mq_kind option" where
  "kindOf profiles i = map_of (rev (map (\<lambda>p. (prof_id p, prof_kind p)) profiles)) i"

definition thresholdsOf :: "center \<Rightarrow> alert_thresholds" where
  "thresholdsOf s = \<lparr>th_lag = nullish (ce_lag s) 10000, th_disk = nullish (ce_disk s) 75\<rparr>"

definition observedOf :: "center \<Rightarrow> observations" where
  "observedOf s =
     concat (map (\<lambda>(i, f). case f of
                     None \<Rightarrow> []
                   | Some x \<Rightarrow> [(i, deriveAlerts (kindOf (ce_profiles s) i) x (ce_rules s) (thresholdsOf s))])
                 (sort_key fst (ce_facts s)))"

definition knownOf :: "center \<Rightarrow> int list" where
  "knownOf s = map prof_id (ce_profiles s)"

definition mergeStep :: "int \<Rightarrow> center \<Rightarrow> center \<times> alert_record list" where
  "mergeStep now s =
     (let (merged, fired) =
            mergeAlerts (ce_records s) (observedOf s) (knownOf s) (ce_readIds s) now
      in (s\<lparr>ce_records := merged\<rparr>, fired))"

text \<open>One banner per sweep: the first record announced, and how many more there are.\<close>

definition banner :: "bool \<Rightarrow> alert_record list \<Rightarrow> (alert_record \<times> nat) option" where
  "banner notify fired =
     (if length fired = 0 \<or> \<not> notify then None else Some (hd fired, length fired - 1))"

definition markAllRead :: "bool \<Rightarrow> center \<Rightarrow> center" where
  "markAllRead writable s =
     (let unseen = map fst (filter (\<lambda>(i, r). \<not> rec_read r) (ce_records s));
          ids = foldl (\<lambda>acc i. set_add i acc) (ce_readIds s) unseen
      in if unseen = [] then s
         else s\<lparr>ce_readIds := ids,
                ce_stored := saveReadIds writable ids (ce_stored s),
                ce_records := map (\<lambda>(i, r). (i, if rec_read r then r else r\<lparr>rec_read := True\<rparr>))
                                (ce_records s)\<rparr>)"

definition markRead :: "bool \<Rightarrow> string \<Rightarrow> center \<Rightarrow> center" where
  "markRead writable i s =
     (case map_of (ce_records s) i of
        None \<Rightarrow> s
      | Some r \<Rightarrow>
          if rec_read r then s
          else let ids = set_add i (ce_readIds s) in
            s\<lparr>ce_readIds := ids,
              ce_stored := saveReadIds writable ids (ce_stored s),
              ce_records := AList.update i (r\<lparr>rec_read := True\<rparr>) (ce_records s)\<rparr>)"

text \<open>
  The rows the popover draws: profiles in their order, and in each the firing records
  before the recovered, the newest first.
\<close>

record alert_group =
  grp_connectionId :: int
  grp_name :: string
  grp_kind :: mq_kind
  grp_records :: "alert_record list"

definition bucketOf :: "records \<Rightarrow> int \<Rightarrow> alert_record list" where
  "bucketOf rs i = filter (\<lambda>r. rec_connectionId r = i) (values_of rs)"

definition rowOrder :: "alert_record \<Rightarrow> int \<times> int" where
  "rowOrder r = (if rec_resolvedAt r \<noteq> None then 1 else 0, - rec_firstSeen r)"

definition groupsOf :: "center \<Rightarrow> alert_group list" where
  "groupsOf s =
     concat (map (\<lambda>p. let bucket = bucketOf (ce_records s) (prof_id p) in
                    if length bucket = 0 then []
                    else [\<lparr>grp_connectionId = prof_id p, grp_name = prof_name p,
                           grp_kind = prof_kind p, grp_records = sort_key rowOrder bucket\<rparr>])
                 (ce_profiles s))"

definition openCenter :: "profile list \<Rightarrow> stored \<Rightarrow> alert_rule_prefs \<Rightarrow> int option \<Rightarrow> int option \<Rightarrow> center" where
  "openCenter profiles raw rules lag disk =
     \<lparr>ce_profiles = profiles, ce_inflight = [], ce_facts = [], ce_records = [],
      ce_loading = True, ce_readIds = loadReadIds raw, ce_stored = raw, ce_rules = rules,
      ce_lag = lag, ce_disk = disk\<rparr>"

text \<open>
  The steps. \<open>StartSweep\<close> reads the profile list of the moment; \<open>SettleSweep\<close> is the end of
  any sweep still in flight, with the answers its connections gave.
\<close>

definition settle :: "profile list \<Rightarrow> (profile \<Rightarrow> replies) \<Rightarrow> center \<Rightarrow> center" where
  "settle swept answer s =
     s\<lparr>ce_inflight := remove1 swept (ce_inflight s),
       ce_facts := settleFacts (map (\<lambda>p. sweepConnection p (answer p)) swept) (ce_facts s),
       ce_loading := False\<rparr>"

inductive center_step :: "center \<Rightarrow> center \<Rightarrow> bool" where
  StartSweep: "center_step s (s\<lparr>ce_inflight := ce_inflight s @ [ce_profiles s]\<rparr>)"
| SettleSweep: "swept \<in> set (ce_inflight s) \<Longrightarrow> center_step s (settle swept answer s)"
| Profiles: "center_step s (s\<lparr>ce_profiles := ps\<rparr>)"
| Rule: "center_step s (s\<lparr>ce_rules := toggleRule k (ce_rules s)\<rparr>)"
| Thresholds: "center_step s (s\<lparr>ce_lag := lag, ce_disk := disk\<rparr>)"
| Merge: "center_step s (fst (mergeStep now s))"
| MarkRead: "center_step s (markRead writable i s)"
| MarkAllRead: "center_step s (markAllRead writable s)"

inductive center_reachable :: "center \<Rightarrow> bool" where
  Open: "center_reachable (openCenter profiles raw rules lag disk)"
| Step: "center_reachable s \<Longrightarrow> center_step s t \<Longrightarrow> center_reachable t"

inductive_cases center_stepE: "center_step s t"

section \<open>Lemmas\<close>

lemma settleFacts_append:
  "foldl (\<lambda>next (i, f). AList.update i (g i f) next) acc xs =
   foldl (\<lambda>next (i, x). AList.update i x next) acc (map (\<lambda>(i, f). (i, g i f)) xs)"
  by (induction xs arbitrary: acc) auto

lemma foldl_update_props:
  "distinct (map fst acc) \<Longrightarrow> distinct (map fst (foldl (\<lambda>next (i, f). AList.update i (g i f) next) acc xs))"
  "map_of (foldl (\<lambda>next (i, f). AList.update i (g i f) next) acc xs) j =
   (case map_of (rev (map (\<lambda>(i, f). (i, g i f)) xs)) j of
      Some v \<Rightarrow> Some v | None \<Rightarrow> map_of acc j)"
proof (induction xs arbitrary: acc)
  case (Cons e xs)
  {
    case 1
    with Cons(1) show ?case by (cases e) (simp add: distinct_update)
  next
    case 2
    from Cons(2) [of "AList.update (fst e) (g (fst e) (snd e)) acc"] show ?case
      by (cases e) (auto simp: map_add_def split: option.splits)
  }
qed simp_all

lemma settle_distinct: "distinct (map fst (settleFacts sweeps previous))"
  unfolding settleFacts_def by (rule foldl_update_props(1)) simp

lemma map_of_settleFacts:
  "map_of (settleFacts sweeps previous) j =
   map_of (rev (map (\<lambda>(i, f). (i, case f of Some x \<Rightarrow> Some x
                                      | None \<Rightarrow> nullish (map_of previous i) None)) sweeps)) j"
  unfolding settleFacts_def by (simp add: foldl_update_props(2) split: option.splits)

lemma observed_entry:
  "(i, as) \<in> set (observedOf s) \<longleftrightarrow>
   (\<exists>x. (i, Some x) \<in> set (ce_facts s) \<and>
        as = deriveAlerts (kindOf (ce_profiles s) i) x (ce_rules s) (thresholdsOf s))"
  by (force simp: observedOf_def split: option.splits)

lemma distinct_concat_options:
  "distinct (map fst xs) \<Longrightarrow>
   distinct (map fst (concat (map (\<lambda>(i, f). case f of None \<Rightarrow> [] | Some x \<Rightarrow> [(i, g i x)]) xs)))"
proof (induction xs)
  case Nil
  then show ?case by simp
next
  case (Cons e xs)
  obtain i f where e: "e = (i, f)" by (cases e)
  let ?tail = "concat (map (\<lambda>(i, f). case f of None \<Rightarrow> [] | Some x \<Rightarrow> [(i, g i x)]) xs)"
  have "set (map fst ?tail) \<subseteq> set (map fst xs)"
    by (force split: option.splits)
  moreover from Cons.prems e have "i \<notin> set (map fst xs)" by simp
  ultimately have new: "i \<notin> set (map fst ?tail)" by blast
  have "map fst (concat (map (\<lambda>(i, f). case f of None \<Rightarrow> [] | Some x \<Rightarrow> [(i, g i x)]) (e # xs))) =
      (case f of None \<Rightarrow> [] | Some x \<Rightarrow> [i]) @ map fst ?tail"
    using e by (simp split: option.split)
  with Cons e new show ?case by (cases f) (simp_all del: set_concat set_map)
qed

lemma observed_distinct: "distinct (map fst (ce_facts s)) \<Longrightarrow> distinct (map fst (observedOf s))"
  unfolding observedOf_def
  by (rule distinct_concat_options) (simp add: distinct_map inj_on_def)

lemma markAllRead_records:
  "ce_records (markAllRead writable s) =
   map (\<lambda>(i, r). (i, if rec_read r then r else r\<lparr>rec_read := True\<rparr>)) (ce_records s)"
proof (cases "map fst (filter (\<lambda>(i, r). \<not> rec_read r) (ce_records s)) = []")
  case True
  then have "\<forall>(i, r) \<in> set (ce_records s). rec_read r" by (auto simp: filter_empty_conv)
  then have "map (\<lambda>(i, r). (i, if rec_read r then r else r\<lparr>rec_read := True\<rparr>)) (ce_records s) =
      ce_records s"
    by (auto intro!: map_idI)
  with True show ?thesis by (simp add: markAllRead_def Let_def)
next
  case False
  then show ?thesis by (simp add: markAllRead_def Let_def)
qed

lemma foldl_set_add: "set (foldl (\<lambda>acc i. set_add i acc) xs ys) = set xs \<union> set ys"
  "distinct xs \<Longrightarrow> distinct (foldl (\<lambda>acc i. set_add i acc) xs ys)"
  by (induction ys arbitrary: xs) auto

lemma markAllRead_ids:
  "set (ce_readIds (markAllRead writable s)) =
   set (ce_readIds s) \<union> fst ` {(i, r) \<in> set (ce_records s). \<not> rec_read r}"
proof (cases "map fst (filter (\<lambda>(i, r). \<not> rec_read r) (ce_records s)) = []")
  case True
  then have none: "{(i, r) \<in> set (ce_records s). \<not> rec_read r} = {}"
    by (auto simp: filter_empty_conv)
  from True have "markAllRead writable s = s" by (simp add: markAllRead_def Let_def)
  with none show ?thesis by (simp only: image_empty) simp
next
  case False
  moreover have "set (map fst (filter (\<lambda>(i, r). \<not> rec_read r) (ce_records s))) =
      fst ` {(i, r) \<in> set (ce_records s). \<not> rec_read r}"
    by (force simp: image_iff)
  ultimately show ?thesis
    by (simp add: markAllRead_def Let_def foldl_set_add del: set_map)
qed

section \<open>The store's invariant\<close>

definition read_known :: "records \<Rightarrow> string list \<Rightarrow> bool" where
  "read_known rs read \<longleftrightarrow> (\<forall>i r. map_of rs i = Some r \<longrightarrow> rec_read r \<longrightarrow> i \<in> set read)"

definition center_ok :: "center \<Rightarrow> bool" where
  "center_ok s \<longleftrightarrow>
     wf_records (ce_records s) \<and> distinct (map fst (ce_facts s)) \<and> distinct (ce_readIds s) \<and>
     read_known (ce_records s) (ce_readIds s)"

lemma read_known_mono: "read_known rs xs \<Longrightarrow> set xs \<subseteq> set ys \<Longrightarrow> read_known rs ys"
  by (auto simp: read_known_def)

lemma merge_read_known:
  assumes wf: "wf_records previous" and dist: "distinct (map fst observed)"
    and known: "read_known previous read"
  shows "read_known (fst (mergeAlerts previous observed ids read now)) read"
  unfolding read_known_def
proof (intro allI impI)
  fix i r
  let ?new = "fst (mergeAlerts previous observed ids read now)"
  assume r: "map_of ?new i = Some r" "rec_read r"
  from wf_lookup [OF wf_mergeAlerts [OF wf] r(1)] obtain c k where i: "i = recordId c k"
    by (auto simp: fits_def)
  have carried: "i \<in> set read"
    if "map_of (carryForward ids now previous) i = Some b" "rec_read b" for b
    using that known by (auto simp: map_of_carried wf read_known_def split: option.splits if_splits)
  show "i \<in> set read"
  proof (cases "c \<in> fst ` set observed")
    case False
    with r i wf have "map_of (carryForward ids now previous) i = Some r"
      by (simp add: merge_lookup_silent)
    then show ?thesis using r(2) by (rule carried)
  next
    case True
    then obtain as where as: "(c, as) \<in> set observed" by force
    show ?thesis
    proof (cases "k \<in> al_key ` set as")
      case True
      from merge_lookup_present [OF wf dist as True, where known = ids and now = now and read = read] r i
      have "snd (episode read now i (map_of (carryForward ids now previous) i))"
        by (auto dest: standingD)
      then show ?thesis using carried
        by (auto simp: episode_def split: option.splits if_splits)
    next
      case False
      from merge_lookup_absent [OF wf dist as False, where known = ids and now = now and read = read] r i
      obtain b where "map_of (carryForward ids now previous) i = Some b" "r = settled now b"
        by auto
      with r(2) show ?thesis using carried by (auto simp: settled_def split: if_splits)
    qed
  qed
qed

lemma center_ok_open: "center_ok (openCenter profiles raw rules lag disk)"
  by (simp add: center_ok_def openCenter_def read_known_def load_distinct)

lemma center_ok_merge: "center_ok s \<Longrightarrow> center_ok (fst (mergeStep now s))"
  by (simp add: center_ok_def mergeStep_def case_prod_unfold Let_def wf_mergeAlerts
      merge_read_known observed_distinct)

lemma center_ok_markRead: "center_ok s \<Longrightarrow> center_ok (markRead writable i s)"
proof (cases "map_of (ce_records s) i")
  case None
  then show "center_ok s \<Longrightarrow> ?thesis" by (simp add: markRead_def)
next
  case (Some r)
  assume ok: "center_ok s"
  then have "fits i r" using Some by (auto simp: center_ok_def dest: wf_lookup)
  then have "fits i (r\<lparr>rec_read := True\<rparr>)" by (simp add: fits_def)
  with ok Some show ?thesis
    by (auto simp: center_ok_def markRead_def Let_def wf_update read_known_def)
qed

lemma center_ok_markAllRead: "center_ok s \<Longrightarrow> center_ok (markAllRead writable s)"
proof -
  assume ok: "center_ok s"
  have wf: "wf_records (ce_records (markAllRead writable s))"
    using ok by (auto simp: center_ok_def markAllRead_records wf_records_def comp_def
        case_prod_unfold)
  have "i \<in> set (ce_readIds (markAllRead writable s))"
    if new: "map_of (ce_records (markAllRead writable s)) i = Some r" for i r
  proof -
    from new obtain b where b: "map_of (ce_records s) i = Some b"
      by (auto simp: markAllRead_records map_of_map)
    show ?thesis
    proof (cases "rec_read b")
      case True
      with ok b show ?thesis by (auto simp: center_ok_def read_known_def markAllRead_ids)
    next
      case False
      with map_of_SomeD [OF b] show ?thesis by (force simp: markAllRead_ids)
    qed
  qed
  moreover have "distinct (ce_readIds (markAllRead writable s))"
    and "ce_facts (markAllRead writable s) = ce_facts s"
    using ok by (simp_all add: center_ok_def markAllRead_def Let_def foldl_set_add)
  ultimately show ?thesis
    using ok wf by (simp add: center_ok_def read_known_def)
qed

lemma center_ok_step: "center_step s t \<Longrightarrow> center_ok s \<Longrightarrow> center_ok t"
proof (induction rule: center_step.induct)
  case (SettleSweep swept s answer)
  then show ?case by (simp add: center_ok_def settle_def settle_distinct)
qed (simp_all add: center_ok_merge center_ok_markRead center_ok_markAllRead, simp_all add: center_ok_def)

section \<open>Where the facts come from\<close>

text \<open>Every entry of the fact table is what a sweep of some connection gathered from some answer.\<close>

definition facts_gathered :: "center \<Rightarrow> bool" where
  "facts_gathered s \<longleftrightarrow> (\<forall>e \<in> set (ce_facts s). \<exists>p answer. e = sweepConnection p answer)"

lemma settleFacts_from:
  assumes "e \<in> set (settleFacts sweeps facts)"
  shows "e \<in> set facts \<or> e \<in> set sweeps"
proof -
  from assms have "map_of (settleFacts sweeps facts) (fst e) = Some (snd e)"
    by (intro map_of_is_SomeI) (simp_all add: settle_distinct)
  then have "(fst e, snd e) \<in> set (rev (map (\<lambda>(i, f). (i, case f of Some x \<Rightarrow> Some x
      | None \<Rightarrow> nullish (map_of facts i) None)) sweeps))"
    unfolding map_of_settleFacts by (rule map_of_SomeD)
  then obtain i f where f: "(i, f) \<in> set sweeps" "e = (i,
      case f of Some x \<Rightarrow> Some x | None \<Rightarrow> nullish (map_of facts i) None)"
    by auto
  then show ?thesis
    by (cases f; cases "map_of facts i") (auto dest: map_of_SomeD)
qed

lemma settled_facts_gathered:
  assumes "facts_gathered s"
  shows "facts_gathered (settle swept answer s)"
  unfolding facts_gathered_def
proof
  fix e
  assume "e \<in> set (ce_facts (settle swept answer s))"
  then have "e \<in> set (ce_facts s) \<or> e \<in> (\<lambda>p. sweepConnection p (answer p)) ` set swept"
    using settleFacts_from by (fastforce simp: settle_def)
  then show "\<exists>p answer. e = sweepConnection p answer"
    using assms by (auto simp: facts_gathered_def simp del: split_paired_Ex)
qed

lemma markRead_facts: "ce_facts (markRead writable i s) = ce_facts s" "ce_facts (markAllRead writable s) = ce_facts s"
  by (auto simp: markRead_def markAllRead_def Let_def split: option.split)

lemma facts_gathered_step: "center_step s t \<Longrightarrow> facts_gathered s \<Longrightarrow> facts_gathered t"
proof (induction rule: center_step.induct)
  case (SettleSweep swept s answer)
  then show ?case by (simp add: settled_facts_gathered)
qed (simp_all add: facts_gathered_def markRead_facts mergeStep_def case_prod_unfold Let_def)

section \<open>Properties of the store\<close>

definition sample_profile :: profile where
  "sample_profile = \<lparr>prof_id = 1, prof_name = ''p'', prof_kind = KindRabbitMQ, prof_status = ''online''\<rparr>"

definition sample_center :: center where
  "sample_center = openCenter [sample_profile] NoItem DEFAULT_ALERT_RULES None None"

text \<open>C1. In every reachable state, whatever the order in which sweeps start and settle,
  profiles and settings change and the user reads: every record is filed under the id of its
  connection and its key, no connection has two readings and each reading is what a sweep of a
  connection gathered from some answer, the read ids of the session are kept once each, and every
  record shown as read is among them. (Not conversely: an alert that comes back after it was read
  opens unread. And storage, which keeps the newest ids, may refuse a write.)\<close>

theorem center_invariant: "center_reachable s \<Longrightarrow> center_ok s \<and> facts_gathered s"
proof (induction rule: center_reachable.induct)
  case (Open profiles raw rules lag disk)
  then show ?case by (simp add: center_ok_open) (simp add: facts_gathered_def openCenter_def)
qed (simp add: center_ok_step facts_gathered_step)

lemma center_invariant_witness:
  "center_ok (settle [sample_profile] (\<lambda>p. \<lparr>rep_nodes = Some [], rep_groups = None,
      rep_destinations = None, rep_connections = None\<rparr>)
     (sample_center\<lparr>ce_inflight := [[sample_profile]]\<rparr>))"
proof -
  have start: "center_reachable sample_center"
    by (simp add: sample_center_def center_reachable.Open)
  have one: "sample_center\<lparr>ce_inflight := ce_inflight sample_center @ [ce_profiles sample_center]\<rparr> =
      sample_center\<lparr>ce_inflight := [[sample_profile]]\<rparr>"
    by (simp add: sample_center_def openCenter_def)
  have "center_reachable (sample_center\<lparr>ce_inflight := [[sample_profile]]\<rparr>)"
    using center_reachable.Step [OF start StartSweep] by (simp only: one)
  then show ?thesis
    by (intro center_invariant [THEN conjunct1] center_reachable.Step [OF _ SettleSweep]) simp_all
qed

text \<open>After everything is marked read the bell counts nothing.\<close>

theorem markAllRead_clears: "unreadCount (ce_records (markAllRead writable s)) = 0"
  by (auto simp: unreadCount_def markAllRead_records filter_empty_conv)

text \<open>Marking one record read marks that one and no other, whatever was stored.\<close>

theorem markRead_only_one:
  assumes "map_of (ce_records s) i = Some r"
  shows "map_of (ce_records (markRead writable i s)) j =
         (if j = i then Some (r\<lparr>rec_read := True\<rparr>) else map_of (ce_records s) j)"
  using assms by (cases r) (auto simp: markRead_def Let_def)

lemma markRead_only_one_witness:
  "map_of (ce_records (markRead True (recordId 1 ''a'') (sample_center\<lparr>ce_records :=
      [(recordId 1 ''a'', (sample_record 1 ''a'')\<lparr>rec_read := False\<rparr>)]\<rparr>))) (recordId 1 ''a'') =
   Some (sample_record 1 ''a'')"
  using markRead_only_one [of "sample_center\<lparr>ce_records :=
      [(recordId 1 ''a'', (sample_record 1 ''a'')\<lparr>rec_read := False\<rparr>)]\<rparr>" "recordId 1 ''a''"
      "(sample_record 1 ''a'')\<lparr>rec_read := False\<rparr>" True "recordId 1 ''a''"]
  by (simp add: sample_record_def)

text \<open>A sweep whose cluster read failed keeps the last reading of that connection, so it
  clears nothing and announces nothing by itself.\<close>

theorem failed_sweep_keeps_facts:
  assumes "p \<in> set swept" "distinct (map prof_id swept)" "prof_status p = ''online''"
    "rep_nodes (answer p) = None"
  shows "map_of (ce_facts (settle swept answer s)) (prof_id p) =
         Some (nullish (map_of (ce_facts s) (prof_id p)) None)"
proof -
  let ?g = "\<lambda>(i, f). (i, case f of Some x \<Rightarrow> Some x
                      | None \<Rightarrow> nullish (map_of (ce_facts s) i) None)"
  let ?sweeps = "map (\<lambda>p. sweepConnection p (answer p)) swept"
  have "sweepConnection p (answer p) = (prof_id p, None)"
    using assms by (simp add: sweepConnection_def Let_def)
  then have "(prof_id p, nullish (map_of (ce_facts s) (prof_id p)) None) \<in> set (rev (map ?g ?sweeps))"
    using assms(1) by (force simp: image_iff)
  moreover have "distinct (map fst (rev (map ?g ?sweeps)))"
    using assms(2) by (simp add: comp_def case_prod_unfold rev_map [symmetric])
  ultimately show ?thesis
    by (simp add: settle_def map_of_settleFacts del: set_rev)
qed

lemma failed_sweep_keeps_facts_witness:
  "map_of (ce_facts (settle [sample_profile] (\<lambda>p. \<lparr>rep_nodes = None, rep_groups = None,
      rep_destinations = None, rep_connections = None\<rparr>)
     (sample_center\<lparr>ce_facts := [(1, Some NO_FACTS)]\<rparr>))) 1 = Some (Some NO_FACTS)"
  using failed_sweep_keeps_facts [of sample_profile "[sample_profile]" "\<lambda>p. \<lparr>rep_nodes = None,
      rep_groups = None, rep_destinations = None, rep_connections = None\<rparr>"
      "sample_center\<lparr>ce_facts := [(1, Some NO_FACTS)]\<rparr>"]
  by (simp add: sample_profile_def)

text \<open>Turning a rule off empties the bell of it at the next merge: no record of a
  connection with a reading still fires under that rule.\<close>

theorem switched_off_clears:
  assumes "center_ok s" "(c, Some x) \<in> set (ce_facts s)" "\<not> ce_rules s rule"
    "map_of (ce_records (fst (mergeStep now s))) (recordId c k) = Some r" "rec_resolvedAt r = None"
  shows "rec_ruleKey r \<noteq> rule"
proof -
  let ?as = "deriveAlerts (kindOf (ce_profiles s) c) x (ce_rules s) (thresholdsOf s)"
  have entry: "(c, ?as) \<in> set (observedOf s)" using assms(2) by (auto simp: observed_entry)
  have wf: "wf_records (ce_records s)" and dist: "distinct (map fst (observedOf s))"
    using assms(1) by (simp_all add: center_ok_def observed_distinct)
  have look: "map_of (fst (mergeAlerts (ce_records s) (observedOf s) (knownOf s) (ce_readIds s) now))
      (recordId c k) = Some r"
    using assms(4) by (simp add: mergeStep_def case_prod_unfold Let_def)
  have k: "k \<in> al_key ` set ?as"
  proof (rule ccontr)
    assume "k \<notin> al_key ` set ?as"
    from merge_lookup_absent [OF wf dist entry this, where known = "knownOf s" and now = now and read = "ce_readIds s"] look
    obtain b where "r = settled now b" by (metis map_option_eq_Some)
    with assms(5) show False by simp
  qed
  from merge_lookup_present [OF wf dist entry k, where known = "knownOf s" and now = now and read = "ce_readIds s"] look
  obtain a where a: "a \<in> set ?as" "rec_ruleKey r = al_ruleKey a" by (auto simp: standing_def)
  have "ce_rules s (al_ruleKey a)"
    using a(1) rocketmq.raised_enabled dispatch.raised_enabled
    by (auto simp: deriveAlerts_def split: option.splits)
  with a(2) assms(3) show ?thesis by auto
qed

definition sample_off :: center where
  "sample_off =
     sample_center\<lparr>ce_facts := [(1, Some rabbitmq_sample)], ce_rules := (\<lambda>k. k = BrokerOffline)\<rparr>"

lemma switched_off_clears_witness:
  "\<exists>r. map_of (ce_records (fst (mergeStep 30 sample_off))) (recordId 1 ''node-off-a'') = Some r \<and>
       rec_ruleKey r \<noteq> GroupLag"
proof -
  let ?a = "alert ''node-off-a'' BrokerOffline Crit [(''broker'', PStr ''a''), (''address'', PStr dash)] None"
  have ok: "center_ok sample_off"
    by (simp add: sample_off_def sample_center_def openCenter_def center_ok_def read_known_def
        loadReadIds_def)
  have entry: "(1, Some rabbitmq_sample) \<in> set (ce_facts sample_off)" by (simp add: sample_off_def)
  have off: "\<not> ce_rules sample_off GroupLag" by (simp add: sample_off_def)
  have obs: "observedOf sample_off = [(1, [?a])]"
    by (simp add: observedOf_def sample_off_def sample_center_def openCenter_def kindOf_def
        sample_profile_def deriveAlerts_def byWeight_def thresholdsOf_def rabbitmq_sample_def
        rabbitmq_derive_defs reader_defs Let_def blank_node_def blank_destination_def
        blank_connection_def attr_count_def attr_str_def attr_is_true_def rabbitmq_alarmKind_def
        js_or_def or_undefined_def)
  have records: "ce_records sample_off = []"
    by (simp add: sample_off_def sample_center_def openCenter_def)
  have "\<exists>r. map_of (fst (mergeAlerts (ce_records sample_off) (observedOf sample_off)
        (knownOf sample_off) (ce_readIds sample_off) 30)) (recordId 1 ''node-off-a'') = Some r \<and>
      standing 30 1 [?a] (episode (ce_readIds sample_off) 30 (recordId 1 ''node-off-a'')
        (map_of (carryForward (knownOf sample_off) 30 (ce_records sample_off))
          (recordId 1 ''node-off-a''))) r"
    by (rule merge_lookup_present) (simp_all add: records obs)
  then obtain r where
    "map_of (ce_records (fst (mergeStep 30 sample_off))) (recordId 1 ''node-off-a'') = Some r"
    "rec_resolvedAt r = None"
    by (auto simp: mergeStep_def case_prod_unfold Let_def dest: standingD)
  with switched_off_clears [OF ok entry off] show ?thesis by blast
qed

text \<open>A connection that is offline was swept to nothing: at the next merge every record
  of it that was firing has recovered.\<close>

theorem offline_recovers:
  assumes "center_ok s" "(c, Some NO_FACTS) \<in> set (ce_facts s)"
  shows "\<not> firing (map_of (ce_records (fst (mergeStep now s))) (recordId c k))"
proof -
  have "deriveAlerts (kindOf (ce_profiles s) c) NO_FACTS (ce_rules s) (thresholdsOf s) = []"
    by (simp add: deriveAlerts_def rocketmq.quiet dispatch.quiet split: option.splits)
  with assms(2) have "(c, []) \<in> set (observedOf s)" by (force simp: observed_entry)
  from merge_lookup_absent [OF _ observed_distinct this] assms(1) show ?thesis
    by (auto simp: center_ok_def mergeStep_def case_prod_unfold Let_def firing_def)
qed

lemma offline_recovers_witness:
  "\<not> firing (map_of (ce_records (fst (mergeStep 30 (sample_center\<lparr>ce_facts := [(1, Some NO_FACTS)],
      ce_records := [(recordId 1 ''a'', (sample_record 1 ''a'')\<lparr>rec_read := False\<rparr>)]\<rparr>))))
      (recordId 1 ''a''))"
proof (rule offline_recovers)
  show "center_ok (sample_center\<lparr>ce_facts := [(1, Some NO_FACTS)],
      ce_records := [(recordId 1 ''a'', (sample_record 1 ''a'')\<lparr>rec_read := False\<rparr>)]\<rparr>)"
    by (auto simp: center_ok_def sample_center_def openCenter_def read_known_def loadReadIds_def
        sample_record_def wf_records_def split: if_splits)
qed simp

text \<open>Every reading a sweep takes is one the family's rules can be given: consumer groups
  but for RabbitMQ, destinations only where a rule of the family reads them, connections only
  for RabbitMQ. So on a swept MQTT connection no session rule can fire.\<close>

theorem mqtt_sessions_unswept:
  assumes "snd (sweepConnection p answer) = Some f" "prof_kind p = KindMQTT"
  shows "list_all (\<lambda>a. al_ruleKey a = BrokerOffline) (deriveAlerts (Some (prof_kind p)) f r t)"
  using mqtt_swept [of f r t] sweep_gathered [OF assms(1)] assms(2)
  by (simp add: list_all_iff)

lemma mqtt_sessions_unswept_witness:
  "list_all (\<lambda>a. al_ruleKey a = BrokerOffline)
     (deriveAlerts (Some KindMQTT)
        \<lparr>facts_nodes = [blank_node], facts_consumerGroups = [], facts_destinations = [],
         facts_connections = []\<rparr> DEFAULT_ALERT_RULES sample_limits)"
  using mqtt_sessions_unswept [of "sample_profile\<lparr>prof_kind := KindMQTT\<rparr>"
      "\<lparr>rep_nodes = Some [blank_node], rep_groups = Some [], rep_destinations = None,
        rep_connections = Some [blank_connection]\<rparr>"]
  by (simp add: sample_profile_def sweepConnection_def KINDS_NEEDING_DESTINATIONS_def)

section \<open>The grouping\<close>

lemma groups_records:
  "concat (map grp_records (groupsOf s)) =
   concat (map (\<lambda>p. sort_key rowOrder (bucketOf (ce_records s) (prof_id p))) (ce_profiles s))"
proof -
  have "concat (map grp_records (concat (map (\<lambda>p. let bucket = bucketOf rs (prof_id p) in
          if length bucket = 0 then []
          else [\<lparr>grp_connectionId = prof_id p, grp_name = prof_name p,
                 grp_kind = prof_kind p, grp_records = sort_key rowOrder bucket\<rparr>]) ps))) =
      concat (map (\<lambda>p. sort_key rowOrder (bucketOf rs (prof_id p))) ps)" for rs ps
    by (induction ps) (auto simp: Let_def)
  then show ?thesis by (simp add: groupsOf_def)
qed

lemma buckets_partition:
  "distinct ids \<Longrightarrow>
   mset (concat (map (\<lambda>i. filter (\<lambda>r. rec_connectionId r = i) rs) ids)) =
   mset (filter (\<lambda>r. rec_connectionId r \<in> set ids) rs)"
proof (induction ids)
  case Nil
  then show ?case by simp
next
  case (Cons i ids)
  then have "mset (filter (\<lambda>r. rec_connectionId r \<in> set (i # ids)) rs) =
      mset (filter (\<lambda>r. rec_connectionId r = i) rs) +
      mset (filter (\<lambda>r. rec_connectionId r \<in> set ids) rs)"
    by (intro multiset_eqI) auto
  with Cons show ?case by simp
qed

text \<open>The popover shows every record of every listed profile exactly once.\<close>

theorem groups_partition:
  assumes "distinct (knownOf s)"
  shows "mset (concat (map grp_records (groupsOf s))) =
         mset (filter (\<lambda>r. rec_connectionId r \<in> set (knownOf s)) (values_of (ce_records s)))"
proof -
  have "mset (concat (map (\<lambda>p. sort_key rowOrder (bucketOf rs (prof_id p))) ps)) =
      mset (concat (map (\<lambda>i. filter (\<lambda>r. rec_connectionId r = i) (values_of rs)) (map prof_id ps)))"
    for rs ps
    by (induction ps) (simp_all add: bucketOf_def)
  from this [of "ce_records s" "ce_profiles s"] show ?thesis
    using buckets_partition [OF assms, of "values_of (ce_records s)"]
    by (simp only: groups_records knownOf_def)
qed

lemma groups_partition_witness:
  "mset (concat (map grp_records (groupsOf (sample_center\<lparr>ce_records := sample_records\<rparr>)))) =
   {#sample_record 1 ''a'', (sample_record 1 ''b'')\<lparr>rec_resolvedAt := Some 20\<rparr>#}"
  using groups_partition [of "sample_center\<lparr>ce_records := sample_records\<rparr>"]
  by (simp add: knownOf_def sample_center_def openCenter_def sample_profile_def sample_records_def)
    (simp add: sample_record_def)

text \<open>No group is empty, and within each the firing records come before the recovered
  ones, the newest first.\<close>

theorem groups_sorted:
  "list_all (\<lambda>g. grp_records g \<noteq> [] \<and> sorted (map rowOrder (grp_records g))) (groupsOf s)"
proof -
  have "list_all (\<lambda>g. grp_records g \<noteq> [] \<and> sorted (map rowOrder (grp_records g)))
      (concat (map (\<lambda>p. let bucket = bucketOf rs (prof_id p) in
          if length bucket = 0 then []
          else [\<lparr>grp_connectionId = prof_id p, grp_name = prof_name p,
                 grp_kind = prof_kind p, grp_records = sort_key rowOrder bucket\<rparr>]) ps))" for rs ps
  proof (induction ps)
    case Nil
    then show ?case by simp
  next
    case (Cons p ps)
    have "sort_key rowOrder xs = [] \<longleftrightarrow> xs = []" for xs
      by (metis length_0_conv length_sort)
    with Cons show ?case by (simp add: Let_def)
  qed
  then show ?thesis by (simp only: groupsOf_def)
qed

section \<open>A sweep that settles late\<close>

definition late_answers :: "profile \<Rightarrow> replies" where
  "late_answers p =
     \<lparr>rep_nodes = Some [blank_node\<lparr>node_name := ''a'', node_status := NodeOffline\<rparr>],
      rep_groups = None, rep_destinations = None, rep_connections = None\<rparr>"

definition offline_profile :: profile where
  "offline_profile = sample_profile\<lparr>prof_status := ''offline''\<rparr>"

text \<open>The state the late settlement leaves: an offline profile, nothing in flight, old facts.\<close>

definition late_center :: center where
  "late_center =
     settle [sample_profile] late_answers
       (settle [offline_profile] late_answers
         (sample_center\<lparr>ce_inflight := [[sample_profile], [offline_profile]],
                        ce_profiles := [offline_profile]\<rparr>))"

lemma late_reachable: "center_reachable late_center"
proof -
  have "center_reachable sample_center"
    by (simp add: sample_center_def center_reachable.Open)
  from center_reachable.Step [OF this StartSweep]
  have "center_reachable (sample_center\<lparr>ce_inflight := [[sample_profile]]\<rparr>)"
    by (simp add: sample_center_def openCenter_def)
  from center_reachable.Step [OF this Profiles [of _ "[offline_profile]"]]
  have "center_reachable (sample_center\<lparr>ce_inflight := [[sample_profile]],
      ce_profiles := [offline_profile]\<rparr>)" .
  from center_reachable.Step [OF this StartSweep]
  have "center_reachable (sample_center\<lparr>ce_inflight := [[sample_profile], [offline_profile]],
      ce_profiles := [offline_profile]\<rparr>)"
    by (simp add: sample_center_def openCenter_def)
  from center_reachable.Step [OF this SettleSweep [of "[offline_profile]" _ late_answers]]
  have "center_reachable (settle [offline_profile] late_answers
      (sample_center\<lparr>ce_inflight := [[sample_profile], [offline_profile]],
                     ce_profiles := [offline_profile]\<rparr>))" by simp
  from center_reachable.Step [OF this SettleSweep [of "[sample_profile]" _ late_answers]]
  show ?thesis
    by (simp add: late_center_def settle_def offline_profile_def sample_profile_def)
qed

lemma late_fields:
  "ce_records late_center = []" "ce_readIds late_center = []" "ce_inflight late_center = []"
  "ce_profiles late_center = [offline_profile]"
  by (simp_all add: late_center_def settle_def sample_center_def openCenter_def loadReadIds_def
      offline_profile_def sample_profile_def)

lemma late_observed:
  "observedOf late_center =
   [(1, [alert ''node-off-a'' BrokerOffline Crit
           [(''broker'', PStr ''a''), (''address'', PStr dash)] None])]"
  by (simp add: late_center_def settle_def settleFacts_def sweepConnection_def late_answers_def
      observedOf_def sample_center_def openCenter_def kindOf_def offline_profile_def
      sample_profile_def deriveAlerts_def byWeight_def thresholdsOf_def Let_def
      rabbitmq_derive_defs rabbitmq_nodeName_def blank_node_def js_or_def or_undefined_def
      KINDS_NEEDING_DESTINATIONS_def)

text \<open>Nothing orders the sweeps: one started while a connection was online can settle
  after the one that found it offline. In a reachable state with no sweep in flight and every
  profile offline, the next merge then announces an alert of the closed connection.\<close>

theorem late_sweep_announces:
  "\<exists>s. center_reachable s \<and> ce_inflight s = [] \<and>
       list_all (\<lambda>p. prof_status p = ''offline'') (ce_profiles s) \<and>
       snd (mergeStep now s) \<noteq> []"
proof -
  have "recordId 1 ''node-off-a'' \<in> rec_id ` set (snd (mergeAlerts (ce_records late_center)
      (observedOf late_center) (knownOf late_center) (ce_readIds late_center) now))"
    by (simp add: merge_fired_carried late_observed late_fields announces_def map_of_carried)
  then have "snd (mergeStep now late_center) \<noteq> []"
    by (auto simp: mergeStep_def case_prod_unfold Let_def)
  moreover have "prof_status offline_profile = ''offline''"
    by (simp add: offline_profile_def)
  ultimately show ?thesis using late_reachable late_fields by fastforce
qed

end
