(* ===== verification/EventLog.thy ===== *)
theory EventLog
  imports Main
begin

text \<open>
  The contract between a publisher that numbers its events from 1 and a follower that applies
  them in that order: an event already applied changes nothing, one that skips a number is
  refused, the next one moves the follower by one. Two followers in the same view stay in the
  same view. \<open>None\<close> is a refusal.
\<close>

fun replay :: "('c \<Rightarrow> 'e \<Rightarrow> 'c option) \<Rightarrow> 'c \<Rightarrow> 'e list \<Rightarrow> 'c option" where
  "replay app c [] = Some c"
| "replay app c (e # es) = (case app c e of None \<Rightarrow> None | Some d \<Rightarrow> replay app d es)"

lemma replay_append:
  "replay app c (xs @ ys) = (case replay app c xs of None \<Rightarrow> None | Some d \<Rightarrow> replay app d ys)"
  by (induction xs arbitrary: c) (auto split: option.splits)

lemma replay_take:
  assumes "replay app c log = Some z"
  shows "\<exists>d. replay app c (take n log) = Some d"
proof -
  have "replay app c (take n log @ drop n log) = Some z" using assms by simp
  then show ?thesis unfolding replay_append by (auto split: option.splits)
qed

locale follower =
  fixes app :: "'c \<Rightarrow> 'e \<Rightarrow> 'c option"
    and own :: "'c \<Rightarrow> 'e \<Rightarrow> bool"
    and pos :: "'c \<Rightarrow> int"
    and num :: "'e \<Rightarrow> int"
    and same :: "'c \<Rightarrow> 'c \<Rightarrow> bool"
  assumes same_refl: "same c c"
    and same_sym: "same c d \<Longrightarrow> same d c"
    and same_trans: "same c d \<Longrightarrow> same d f \<Longrightarrow> same c f"
    and same_pos: "same c d \<Longrightarrow> pos c = pos d"
    and same_own: "same c d \<Longrightarrow> own c e = own d e"
    and same_app: "same c d \<Longrightarrow> rel_option same (app c e) (app d e)"
    and own_app: "app c e = Some d \<Longrightarrow> own d e' = own c e'"
    and past: "own c e \<Longrightarrow> num e \<le> pos c \<Longrightarrow> app c e = Some c"
    and skipped: "own c e \<Longrightarrow> pos c + 1 < num e \<Longrightarrow> app c e = None"
    and moved: "own c e \<Longrightarrow> num e = pos c + 1 \<Longrightarrow> app c e = Some d \<Longrightarrow> pos d = num e"
begin

text \<open>A log numbered from 1 that a follower at zero can replay in full.\<close>

definition published :: "'c \<Rightarrow> 'e list \<Rightarrow> bool" where
  "published start log \<longleftrightarrow>
     pos start = 0 \<and> (\<forall>e \<in> set log. own start e) \<and>
     (\<forall>n < length log. num (log ! n) = int n + 1) \<and> replay app start log \<noteq> None"

text \<open>A follower that shows what the first \<open>pos c\<close> events of the log make.\<close>

definition faithful :: "'c \<Rightarrow> 'e list \<Rightarrow> 'c \<Rightarrow> bool" where
  "faithful start log c \<longleftrightarrow>
     0 \<le> pos c \<and> pos c \<le> int (length log) \<and>
     (\<exists>d. replay app start (take (nat (pos c)) log) = Some d \<and> same c d)"

lemma replay_own: "replay app c es = Some d \<Longrightarrow> own d e = own c e"
  by (induction es arbitrary: c) (auto split: option.splits dest: own_app)

lemma replay_same:
  "same c d \<Longrightarrow> rel_option same (replay app c es) (replay app d es)"
proof (induction es arbitrary: c d)
  case (Cons e es)
  from same_app [OF Cons.prems, of e] show ?case
    by (cases "app c e"; cases "app d e") (auto intro: Cons.IH)
qed simp

lemma published_pos:
  assumes pub: "published start log" and n: "n \<le> length log"
    and d: "replay app start (take n log) = Some d"
  shows "pos d = int n"
  using n d
proof (induction n arbitrary: d)
  case 0
  then show ?case using pub by (simp add: published_def)
next
  case (Suc n)
  then have take: "take (Suc n) log = take n log @ [log ! n]" by (simp add: take_Suc_conv_app_nth)
  with Suc.prems obtain c where c: "replay app start (take n log) = Some c"
    and step: "app c (log ! n) = Some d"
    by (auto simp: replay_append split: option.splits)
  have "pos c = int n" using Suc.IH [OF _ c] Suc.prems by simp
  moreover have "num (log ! n) = int n + 1" "own start (log ! n)"
    using pub Suc.prems by (auto simp: published_def)
  ultimately show ?case using moved [OF _ _ step] replay_own [OF c] by simp
qed

lemma published_snoc:
  assumes pub: "published start log" and z: "replay app start log = Some z"
    and e: "own start e" "num e = int (length log) + 1" and d: "app z e = Some d"
  shows "published start (log @ [e]) \<and> replay app start (log @ [e]) = Some d"
  using assms by (auto simp: published_def replay_append nth_append)

lemma faithful_start: "published start log \<Longrightarrow> faithful start log start"
  by (auto simp: faithful_def published_def intro: same_refl)

lemma faithful_whole:
  assumes pub: "published start log" and z: "replay app start log = Some z"
    and c: "same c z"
  shows "faithful start log c"
proof -
  have "pos z = int (length log)" using published_pos [OF pub, of "length log"] z by simp
  with same_pos [OF c] z c show ?thesis by (auto simp: faithful_def)
qed

lemma faithful_longer: "faithful start log c \<Longrightarrow> faithful start (log @ es) c"
  by (auto simp: faithful_def)

text \<open>Whatever event of the log is handed over next, the follower stays faithful.\<close>

lemma faithful_app:
  assumes pub: "published start log" and c: "faithful start log c"
    and e: "e \<in> set log" and d: "app c e = Some d"
  shows "faithful start log d"
proof -
  from c obtain b where b: "replay app start (take (nat (pos c)) log) = Some b" and cb: "same c b"
    and range: "0 \<le> pos c" "pos c \<le> int (length log)" by (auto simp: faithful_def)
  from e obtain n where n: "n < length log" "log ! n = e" by (auto simp: in_set_conv_nth)
  with pub have num: "num e = int n + 1" by (auto simp: published_def)
  have own: "own c e"
    using pub e replay_own [OF b] same_own [OF cb] by (auto simp: published_def)
  consider "num e \<le> pos c" | "num e = pos c + 1" | "pos c + 1 < num e" by linarith
  then show ?thesis
  proof cases
    case 1
    with past [OF own] d c show ?thesis by simp
  next
    case 2
    then have n': "nat (pos c) = n" using num range by simp
    then have next': "take (Suc n) log = take n log @ [e]"
      using n by (simp add: take_Suc_conv_app_nth)
    have pos: "pos d = int (Suc n)" using moved [OF own 2 d] num by simp
    from same_app [OF cb, of e] d obtain f where f: "app b e = Some f" "same d f"
      by (cases "app b e") auto
    have "replay app start (take (Suc n) log) = Some f"
      unfolding next' replay_append using b f n' by simp
    moreover have "nat (pos d) = Suc n" using pos by simp
    ultimately show ?thesis using pos n f unfolding faithful_def by auto
  next
    case 3
    with skipped [OF own] d show ?thesis by simp
  qed
qed

text \<open>Followers started in the same view are published to alike.\<close>

lemma published_same:
  assumes "same start start'" "published start log"
  shows "published start' log"
proof -
  have "own start' e = own start e" for e using same_own [OF assms(1)] by simp
  moreover have "replay app start' log \<noteq> None"
    using replay_same [OF assms(1), of log] assms(2)
    by (cases "replay app start' log") (auto simp: published_def)
  moreover have "pos start' = 0" using same_pos [OF assms(1)] assms(2) by (simp add: published_def)
  ultimately show ?thesis using assms(2) by (simp add: published_def)
qed

text \<open>A faithful follower at the end of the log shows all of it.\<close>

lemma faithful_end:
  assumes "faithful start log c" "pos c = int (length log)" "replay app start log = Some z"
  shows "same c z"
  using assms by (auto simp: faithful_def)

text \<open>Any faithful follower handed the rest of the log in order catches up.\<close>

lemma faithful_catches_up:
  assumes pub: "published start log" and c: "faithful start log c"
    and z: "replay app start log = Some z"
  shows "\<exists>d. replay app c (drop (nat (pos c)) log) = Some d \<and> same d z"
proof -
  from c obtain b where b: "replay app start (take (nat (pos c)) log) = Some b" and cb: "same c b"
    by (auto simp: faithful_def)
  have "replay app start (take (nat (pos c)) log @ drop (nat (pos c)) log) = Some z"
    using z by simp
  then have "replay app b (drop (nat (pos c)) log) = Some z"
    by (simp only: replay_append b option.case)
  with replay_same [OF cb, of "drop (nat (pos c)) log"] show ?thesis
    by (cases "replay app c (drop (nat (pos c)) log)") auto
qed

end

end
