(* ===== verification/Conversation.thy ===== *)
theory Conversation
  imports Json EventLog
begin

text \<open>
  A conversation as the assistant's dock holds it (frontend/src/design/agent/conversation.ts):
  the items, the events that change them, the snapshot it starts from, and the blocks the dock
  draws. The items, events and snapshots are generated bindings of the Go types; an optional
  member is an option, and a member that is \<open>null\<close> on the wire is its absence.
\<close>

record agent_usage =
  us_input :: int
  us_output :: int
  us_cacheRead :: "int option"
  us_cacheWrite :: "int option"

record agent_selection =
  sel_kind :: string
  sel_name :: string

record agent_context =
  cx_connection :: "int option"
  cx_page :: "string option"
  cx_namespace :: "string option"
  cx_selected :: "agent_selection option"

record agent_ask =
  ask_id :: string
  ask_kind :: string
  ask_question :: "string option"
  ask_caveat :: "string option"

record agent_tool =
  tl_call :: string
  tl_name :: string
  tl_title :: string
  tl_blast :: "string option"
  tl_input :: json
  tl_connection :: "json option"
  tl_state :: string
  tl_ask :: "agent_ask option"
  tl_approved :: "string option"
  tl_result :: "string option"
  tl_output :: "json option"
  tl_ms :: "int option"

record agent_item =
  it_id :: string
  it_kind :: string
  it_text :: "string option"
  it_context :: "agent_context option"
  it_tool :: "agent_tool option"
  it_notice :: "string option"
  it_reason :: "string option"

record agent_event =
  ev_session :: string
  ev_seq :: int
  ev_kind :: string
  ev_item :: "agent_item option"
  ev_itemId :: "string option"
  ev_text :: "string option"
  ev_running :: bool
  ev_model :: "string option"
  ev_usage :: "agent_usage option"

record agent_snapshot =
  sn_session :: string
  sn_seq :: int
  sn_title :: "string option"
  sn_running :: bool
  sn_model :: string
  sn_items :: "agent_item list option"
  sn_usage :: "agent_usage option"

record conversation =
  cv_session :: string
  cv_seq :: int
  cv_title :: string
  cv_running :: bool
  cv_model :: string
  cv_items :: "agent_item list"
  cv_usage :: agent_usage

definition NO_USAGE :: agent_usage where
  "NO_USAGE = \<lparr>us_input = 0, us_output = 0, us_cacheRead = None, us_cacheWrite = None\<rparr>"

definition opened_at :: "string \<Rightarrow> string \<Rightarrow> conversation" where
  "opened_at session model =
     \<lparr>cv_session = session, cv_seq = 0, cv_title = '''', cv_running = False, cv_model = model,
      cv_items = [], cv_usage = NO_USAGE\<rparr>"

definition fromSnapshot :: "agent_snapshot \<Rightarrow> conversation" where
  "fromSnapshot snapshot =
     \<lparr>cv_session = sn_session snapshot, cv_seq = sn_seq snapshot,
      cv_title = nullish (sn_title snapshot) '''', cv_running = sn_running snapshot,
      cv_model = sn_model snapshot, cv_items = nullish (sn_items snapshot) [],
      cv_usage = nullish (sn_usage snapshot) NO_USAGE\<rparr>"

section \<open>Applying an event\<close>

text \<open>\<open>None\<close> is the answer \<open>gap\<close>.\<close>

definition applyEvent :: "conversation \<Rightarrow> agent_event \<Rightarrow> conversation option" where
  "applyEvent st e =
     (if ev_session e \<noteq> cv_session st \<or> ev_seq e \<le> cv_seq st then Some st
      else if ev_seq e \<noteq> cv_seq st + 1 then None
      else
        let nxt = st\<lparr>cv_seq := ev_seq e\<rparr> in
        if ev_kind e = ''item'' then
          (case ev_item e of
             None \<Rightarrow> None
           | Some item \<Rightarrow>
               (case find_index (\<lambda>one. it_id one = it_id item) (cv_items st) of
                  None \<Rightarrow> Some (nxt\<lparr>cv_items := cv_items st @ [item]\<rparr>)
                | Some i \<Rightarrow> Some (nxt\<lparr>cv_items := (cv_items st)[i := item]\<rparr>)))
        else if ev_kind e = ''delta'' then
          (case find_index (\<lambda>one. Some (it_id one) = ev_itemId e) (cv_items st) of
             None \<Rightarrow> None
           | Some i \<Rightarrow>
               Some (nxt\<lparr>cv_items := (cv_items st)
                 [i := (cv_items st ! i)\<lparr>it_text :=
                    Some (nullish (it_text (cv_items st ! i)) '''' @ nullish (ev_text e) '''')\<rparr>]\<rparr>))
        else if ev_kind e = ''run'' then
          Some (nxt\<lparr>cv_running := ev_running e,
                    cv_model := (case ev_model e of
                                   None \<Rightarrow> cv_model st
                                 | Some m \<Rightarrow> if m \<noteq> '''' then m else cv_model st),
                    cv_usage := nullish (ev_usage e) (cv_usage st)\<rparr>)
        else if ev_kind e = ''title'' then
          Some (nxt\<lparr>cv_title := nullish (ev_text e) ''''\<rparr>)
        else Some nxt)"

section \<open>What the dock draws\<close>

definition titleOf :: "conversation \<Rightarrow> string" where
  "titleOf c =
     (if cv_title c \<noteq> '''' then cv_title c
      else case find (\<lambda>item. it_kind item = ''user'') (cv_items c) of
             None \<Rightarrow> ''''
           | Some item \<Rightarrow>
               (case it_text item of None \<Rightarrow> '''' | Some t \<Rightarrow> hd (js_split (CHR 0x0A) t)))"

datatype block = One string agent_item | Reads "agent_item list"

definition tool_writes :: "agent_tool \<Rightarrow> bool" where
  "tool_writes tool \<longleftrightarrow> tl_blast tool = Some ''mutate'' \<or> tl_blast tool = Some ''destructive''"

fun read_into :: "block list \<Rightarrow> agent_item \<Rightarrow> block list" where
  "read_into [] item = [Reads [item]]"
| "read_into [Reads items] item = [Reads (items @ [item])]"
| "read_into [b] item = [b, Reads [item]]"
| "read_into (b # bs) item = b # read_into bs item"

definition blockStep :: "block list \<Rightarrow> agent_item \<Rightarrow> block list" where
  "blockStep blocks item =
     (if it_kind item = ''tool'' then
        (case it_tool item of
           None \<Rightarrow> blocks
         | Some tool \<Rightarrow>
             if tool_writes tool then blocks @ [One ''write'' item] else read_into blocks item)
      else if it_kind item \<in> {''user'', ''text'', ''thinking'', ''notice''}
        then blocks @ [One (it_kind item) item]
      else blocks)"

definition blocksOf :: "agent_item list \<Rightarrow> block list" where
  "blocksOf items = foldl blockStep [] items"

text \<open>\<open>item.tool.ask != null\<close> is asked of a tool that is there.\<close>

definition waitingAsk :: "agent_item list \<Rightarrow> agent_item option" where
  "waitingAsk items =
     find (\<lambda>item. case it_tool item of
                    None \<Rightarrow> False
                  | Some tool \<Rightarrow> tl_state tool = ''waiting'' \<and> tl_ask tool \<noteq> None) items"

definition TARGET_KEYS :: "string list" where
  "TARGET_KEYS = [''group'', ''destination'', ''name'', ''messageId'', ''namespace'']"

definition targetOf :: "agent_tool \<Rightarrow> string option" where
  "targetOf tool =
     (case find (\<lambda>v. v \<noteq> None \<and> v \<noteq> Some '''')
             (map (\<lambda>k. json_text (json_member k (tl_input tool))) TARGET_KEYS) of
        None \<Rightarrow> None
      | Some v \<Rightarrow> v)"

definition tokensOf :: "agent_usage \<Rightarrow> int" where
  "tokensOf u = us_input u + us_output u + nullish (us_cacheRead u) 0 + nullish (us_cacheWrite u) 0"

section \<open>Following the events\<close>

text \<open>
  What the numbered events determine from any snapshot on: which conversation, how far, whether
  a run is going, and the items. The title, model and usage also change without an event.
\<close>

definition same_view :: "conversation \<Rightarrow> conversation \<Rightarrow> bool" where
  "same_view c d \<longleftrightarrow>
     cv_session c = cv_session d \<and> cv_seq c = cv_seq d \<and> cv_running c = cv_running d \<and>
     cv_items c = cv_items d"

lemma applyEvent_past:
  "ev_seq e \<le> cv_seq c \<Longrightarrow> applyEvent c e = Some c"
  by (simp add: applyEvent_def)

lemma applyEvent_session: "applyEvent c e = Some d \<Longrightarrow> cv_session d = cv_session c"
  by (auto simp: applyEvent_def Let_def split: if_splits option.splits)

lemma applyEvent_moved:
  "ev_session e = cv_session c \<Longrightarrow> ev_seq e = cv_seq c + 1 \<Longrightarrow> applyEvent c e = Some d \<Longrightarrow>
   cv_seq d = ev_seq e"
  by (auto simp: applyEvent_def Let_def split: if_splits option.splits)

lemma applyEvent_same:
  assumes "same_view c d"
  shows "rel_option same_view (applyEvent c e) (applyEvent d e)"
  using assms
  by (auto simp: applyEvent_def same_view_def Let_def split: option.splits)

lemma applyEvent_skipped:
  "ev_session e = cv_session c \<Longrightarrow> cv_seq c + 1 < ev_seq e \<Longrightarrow> applyEvent c e = None"
  by (simp add: applyEvent_def)

interpretation dock: follower applyEvent "\<lambda>c e. ev_session e = cv_session c" cv_seq ev_seq same_view
proof (rule follower.intro)
  show "rel_option same_view (applyEvent c e) (applyEvent d e)" if "same_view c d" for c d e
    using that by (rule applyEvent_same)
  show "(ev_session e' = cv_session d) = (ev_session e' = cv_session c)"
    if "applyEvent c e = Some d" for c d e e'
    using applyEvent_session [OF that] by simp
  show "applyEvent c e = Some c" if "ev_seq e \<le> cv_seq c" for c e
    using that by (rule applyEvent_past)
  show "applyEvent c e = None" if "ev_session e = cv_session c" "cv_seq c + 1 < ev_seq e" for c e
    using that by (rule applyEvent_skipped)
  show "cv_seq d = ev_seq e"
    if "ev_session e = cv_session c" "ev_seq e = cv_seq c + 1" "applyEvent c e = Some d" for c d e
    using that by (rule applyEvent_moved)
qed (simp_all add: same_view_def)

section \<open>Blocks\<close>

fun block_items :: "block \<Rightarrow> agent_item list" where
  "block_items (One _ item) = [item]"
| "block_items (Reads items) = items"

fun is_reads :: "block \<Rightarrow> bool" where
  "is_reads (Reads _) = True"
| "is_reads (One _ _) = False"

definition drawn :: "agent_item \<Rightarrow> bool" where
  "drawn item \<longleftrightarrow>
     (if it_kind item = ''tool'' then it_tool item \<noteq> None
      else it_kind item \<in> {''user'', ''text'', ''thinking'', ''notice''})"

definition reads :: "agent_item \<Rightarrow> bool" where
  "reads item \<longleftrightarrow>
     it_kind item = ''tool'' \<and> (\<exists>tool. it_tool item = Some tool \<and> \<not> tool_writes tool)"

fun no_adjacent_reads :: "block list \<Rightarrow> bool" where
  "no_adjacent_reads (a # b # bs) \<longleftrightarrow>
     \<not> (is_reads a \<and> is_reads b) \<and> no_adjacent_reads (b # bs)"
| "no_adjacent_reads _ = True"

fun block_fits :: "block \<Rightarrow> bool" where
  "block_fits (Reads items) \<longleftrightarrow> items \<noteq> [] \<and> list_all reads items"
| "block_fits (One _ item) \<longleftrightarrow> \<not> reads item"

lemma read_into_items: "concat (map block_items (read_into bs item)) = concat (map block_items bs) @ [item]"
  by (induction bs item rule: read_into.induct) simp_all

lemma read_into_fits: "list_all block_fits bs \<Longrightarrow> reads item \<Longrightarrow> list_all block_fits (read_into bs item)"
  by (induction bs item rule: read_into.induct) simp_all

lemma read_into_nonempty: "read_into bs item \<noteq> []"
  by (induction bs item rule: read_into.induct) simp_all

lemma read_into_hd: "bs \<noteq> [] \<Longrightarrow> is_reads (hd (read_into bs item)) = is_reads (hd bs)"
  by (induction bs item rule: read_into.induct) simp_all

lemma no_adjacent_Cons:
  "no_adjacent_reads (a # bs) \<longleftrightarrow> (bs = [] \<or> \<not> (is_reads a \<and> is_reads (hd bs))) \<and> no_adjacent_reads bs"
  by (cases bs) auto

lemma read_into_adjacent: "no_adjacent_reads bs \<Longrightarrow> no_adjacent_reads (read_into bs item)"
  by (induction bs item rule: read_into.induct)
    (auto simp: no_adjacent_Cons read_into_nonempty read_into_hd)

lemma one_adjacent: "no_adjacent_reads bs \<Longrightarrow> no_adjacent_reads (bs @ [One k item])"
  by (induction bs) (auto simp: no_adjacent_Cons hd_append)

lemma blocksOf_snoc: "blocksOf (items @ [item]) = blockStep (blocksOf items) item"
  by (simp add: blocksOf_def)

lemma blocksOf_items: "concat (map block_items (blocksOf items)) = filter drawn items"
proof (induction items rule: rev_induct)
  case (snoc item items)
  then show ?case
    by (auto simp: blocksOf_snoc blockStep_def drawn_def read_into_items split: option.splits)
qed (simp add: blocksOf_def)

lemma blocksOf_fits: "list_all block_fits (blocksOf items)"
proof (induction items rule: rev_induct)
  case (snoc item items)
  then show ?case
    by (auto simp: blocksOf_snoc blockStep_def reads_def intro!: read_into_fits split: option.splits)
qed (simp add: blocksOf_def)

lemma blocksOf_adjacent: "no_adjacent_reads (blocksOf items)"
proof (induction items rule: rev_induct)
  case (snoc item items)
  then show ?case
    by (auto simp: blocksOf_snoc blockStep_def read_into_adjacent one_adjacent split: option.splits)
qed (simp add: blocksOf_def)

end
