(* ===== verification/AgentSession.thy ===== *)
theory AgentSession
  imports Conversation
begin

text \<open>
  One conversation as the Go side holds it (internal/agent/assistant: items.go, session.go,
  run.go, prompt.go): its items, the numbered events every change emits, and the snapshot a
  window reads it whole with. Each operation is taken under the manager's lock, so a session
  is a state machine whose steps are those critical sections; \<open>ss_emitted\<close> is what
  \<open>emitLocked\<close> has handed to the window so far.
\<close>

section \<open>Text\<close>

definition continuation :: "char \<Rightarrow> bool" where
  "continuation c \<longleftrightarrow> 0x80 \<le> (of_char c :: nat) \<and> (of_char c :: nat) < 0xC0"

text \<open>The first \<open>n\<close> runes of a UTF-8 text, and how many it has.\<close>

fun take_runes :: "nat \<Rightarrow> string \<Rightarrow> string" where
  "take_runes n [] = []"
| "take_runes n (c # cs) =
     (if continuation c then c # take_runes n cs
      else case n of 0 \<Rightarrow> [] | Suc m \<Rightarrow> c # take_runes m cs)"

definition rune_count :: "string \<Rightarrow> nat" where
  "rune_count s = length (filter (\<lambda>c. \<not> continuation c) s)"

definition ellipsis :: string where
  "ellipsis = [CHR 0xE2, CHR 0x80, CHR 0xA6]"

definition go_titleOf :: "string \<Rightarrow> string" where
  "go_titleOf raw =
     (let t = js_join '' '' (go_fields raw) in
      if rune_count t \<le> 40 then t else take_runes 40 t @ ellipsis)"

definition maxTitle :: nat where
  "maxTitle = 80"

section \<open>Items and what they are on the wire\<close>

record go_usage =
  gu_input :: int
  gu_output :: int
  gu_cacheRead :: int
  gu_cacheWrite :: int

record go_context =
  gc_connection :: int
  gc_page :: string
  gc_namespace :: string
  gc_selected :: "agent_selection option"

record go_ask =
  ga_id :: string
  ga_kind :: string
  ga_question :: string
  ga_caveat :: string

record go_tool =
  gt_call :: string
  gt_name :: string
  gt_title :: string
  gt_blast :: string
  gt_input :: json
  gt_connection :: "json option"
  gt_state :: string
  gt_ask :: "go_ask option"
  gt_approved :: string
  gt_result :: string
  gt_output :: "json option"
  gt_millis :: int

record go_item =
  gi_id :: string
  gi_kind :: string
  gi_text :: string
  gi_context :: "go_context option"
  gi_tool :: "go_tool option"
  gi_notice :: string
  gi_reason :: string

text \<open>\<open>omitempty\<close>: a zero member is left out.\<close>

definition omit_zero :: "int \<Rightarrow> int option" where
  "omit_zero n = (if n = 0 then None else Some n)"

definition wire_usage :: "go_usage \<Rightarrow> agent_usage" where
  "wire_usage u =
     \<lparr>us_input = gu_input u, us_output = gu_output u,
      us_cacheRead = omit_zero (gu_cacheRead u), us_cacheWrite = omit_zero (gu_cacheWrite u)\<rparr>"

definition wire_context :: "go_context \<Rightarrow> agent_context" where
  "wire_context c =
     \<lparr>cx_connection = omit_zero (gc_connection c), cx_page = or_undefined (gc_page c),
      cx_namespace = or_undefined (gc_namespace c), cx_selected = gc_selected c\<rparr>"

definition wire_ask :: "go_ask \<Rightarrow> agent_ask" where
  "wire_ask a =
     \<lparr>ask_id = ga_id a, ask_kind = ga_kind a, ask_question = or_undefined (ga_question a),
      ask_caveat = or_undefined (ga_caveat a)\<rparr>"

definition wire_tool :: "go_tool \<Rightarrow> agent_tool" where
  "wire_tool t =
     \<lparr>tl_call = gt_call t, tl_name = gt_name t, tl_title = gt_title t,
      tl_blast = or_undefined (gt_blast t), tl_input = gt_input t,
      tl_connection = gt_connection t, tl_state = gt_state t,
      tl_ask = map_option wire_ask (gt_ask t), tl_approved = or_undefined (gt_approved t),
      tl_result = or_undefined (gt_result t), tl_output = gt_output t,
      tl_ms = omit_zero (gt_millis t)\<rparr>"

definition wire_item :: "go_item \<Rightarrow> agent_item" where
  "wire_item i =
     \<lparr>it_id = gi_id i, it_kind = gi_kind i, it_text = or_undefined (gi_text i),
      it_context = map_option wire_context (gi_context i),
      it_tool = map_option wire_tool (gi_tool i),
      it_notice = or_undefined (gi_notice i), it_reason = or_undefined (gi_reason i)\<rparr>"

section \<open>The session\<close>

record session =
  ss_id :: string
  ss_model :: string
  ss_title :: string
  ss_seq :: int
  ss_next :: int
  ss_items :: "go_item list"
  ss_usage :: go_usage
  ss_running :: bool
  ss_held :: bool
  ss_emitted :: "agent_event list"

definition startSession :: "string \<Rightarrow> string \<Rightarrow> session" where
  "startSession i model =
     \<lparr>ss_id = i, ss_model = model, ss_title = '''', ss_seq = 0, ss_next = 0, ss_items = [],
      ss_usage = \<lparr>gu_input = 0, gu_output = 0, gu_cacheRead = 0, gu_cacheWrite = 0\<rparr>,
      ss_running = False, ss_held = True, ss_emitted = []\<rparr>"

definition snapshotOf :: "session \<Rightarrow> agent_snapshot" where
  "snapshotOf s =
     \<lparr>sn_session = ss_id s, sn_seq = ss_seq s, sn_title = Some (ss_title s),
      sn_running = ss_running s, sn_model = ss_model s,
      sn_items = Some (map wire_item (ss_items s)), sn_usage = Some (wire_usage (ss_usage s))\<rparr>"

definition bare_event :: "string \<Rightarrow> agent_event" where
  "bare_event kind =
     \<lparr>ev_session = '''', ev_seq = 0, ev_kind = kind, ev_item = None, ev_itemId = None,
      ev_text = None, ev_running = False, ev_model = None, ev_usage = None\<rparr>"

definition emitLocked :: "agent_event \<Rightarrow> session \<Rightarrow> session" where
  "emitLocked e s =
     s\<lparr>ss_seq := ss_seq s + 1,
       ss_emitted := ss_emitted s @ [e\<lparr>ev_session := ss_id s, ev_seq := ss_seq s + 1\<rparr>]\<rparr>"

definition item_event :: "go_item \<Rightarrow> agent_event" where
  "item_event item = (bare_event ''item'')\<lparr>ev_item := Some (wire_item item)\<rparr>"

definition addLocked :: "go_item \<Rightarrow> session \<Rightarrow> session" where
  "addLocked item s =
     (let fresh = ss_next s + 1; named = item\<lparr>gi_id := show_int fresh\<rparr> in
      emitLocked (item_event named) (s\<lparr>ss_next := fresh, ss_items := ss_items s @ [named]\<rparr>))"

text \<open>Both searches run from the end.\<close>

definition find_last :: "('a \<Rightarrow> bool) \<Rightarrow> 'a list \<Rightarrow> nat option" where
  "find_last p xs = map_option (\<lambda>j. length xs - 1 - j) (find_index p (rev xs))"

definition changeLocked :: "string \<Rightarrow> (go_item \<Rightarrow> go_item) \<Rightarrow> session \<Rightarrow> session" where
  "changeLocked i change s =
     (case find_last (\<lambda>one. gi_id one = i) (ss_items s) of
        None \<Rightarrow> s
      | Some pos \<Rightarrow>
          (let changed = change (ss_items s ! pos) in
           emitLocked (item_event changed) (s\<lparr>ss_items := (ss_items s)[pos := changed]\<rparr>)))"

definition changeTool :: "string \<Rightarrow> (go_tool \<Rightarrow> go_tool) \<Rightarrow> session \<Rightarrow> session" where
  "changeTool i change = changeLocked i (\<lambda>item. item\<lparr>gi_tool := map_option change (gi_tool item)\<rparr>)"

definition appendLocked :: "string \<Rightarrow> string \<Rightarrow> session \<Rightarrow> session" where
  "appendLocked i t s =
     (case find_last (\<lambda>one. gi_id one = i) (ss_items s) of
        None \<Rightarrow> s
      | Some pos \<Rightarrow>
          emitLocked ((bare_event ''delta'')\<lparr>ev_itemId := or_undefined i, ev_text := or_undefined t\<rparr>)
            (s\<lparr>ss_items := (ss_items s)[pos := (ss_items s ! pos)\<lparr>gi_text := gi_text (ss_items s ! pos) @ t\<rparr>]\<rparr>))"

definition startLocked :: "session \<Rightarrow> session" where
  "startLocked s =
     emitLocked ((bare_event ''run'')\<lparr>ev_running := True, ev_model := or_undefined (ss_model s)\<rparr>)
       (s\<lparr>ss_running := True\<rparr>)"

definition finishRun :: "session \<Rightarrow> session" where
  "finishRun s =
     emitLocked ((bare_event ''run'')\<lparr>ev_model := or_undefined (ss_model s),
                                    ev_usage := Some (wire_usage (ss_usage s))\<rparr>)
       (s\<lparr>ss_running := False\<rparr>)"

text \<open>The item a message, a notice or a piece of an answer is.\<close>

definition plain_item :: "string \<Rightarrow> string \<Rightarrow> go_item" where
  "plain_item kind t =
     \<lparr>gi_id = '''', gi_kind = kind, gi_text = t, gi_context = None, gi_tool = None,
      gi_notice = '''', gi_reason = ''''\<rparr>"

definition sendSession :: "string \<Rightarrow> go_context \<Rightarrow> session \<Rightarrow> session" where
  "sendSession t place s =
     startLocked
       (addLocked ((plain_item ''user'' t)\<lparr>gi_context := Some place\<rparr>)
          (s\<lparr>ss_title := (if ss_title s = '''' then go_titleOf t else ss_title s)\<rparr>))"

definition continuable :: "string list" where
  "continuable = [''failed'', ''stopped'', ''limit'']"

definition spend :: "go_usage \<Rightarrow> session \<Rightarrow> session" where
  "spend u s =
     s\<lparr>ss_usage :=
         \<lparr>gu_input = gu_input (ss_usage s) + gu_input u,
          gu_output = gu_output (ss_usage s) + gu_output u,
          gu_cacheRead = gu_cacheRead (ss_usage s) + gu_cacheRead u,
          gu_cacheWrite = gu_cacheWrite (ss_usage s) + gu_cacheWrite u\<rparr>\<rparr>"

definition renameTo :: "string \<Rightarrow> string" where
  "renameTo raw =
     (let t = js_join '' '' (go_fields raw) in
      if rune_count t > maxTitle then take_runes maxTitle t else t)"

definition renameSession :: "string \<Rightarrow> session \<Rightarrow> session" where
  "renameSession raw s =
     emitLocked ((bare_event ''title'')\<lparr>ev_text := or_undefined (renameTo raw)\<rparr>)
       (s\<lparr>ss_title := renameTo raw\<rparr>)"

definition forgetSession :: "session \<Rightarrow> session" where
  "forgetSession s = emitLocked (bare_event ''gone'') (s\<lparr>ss_held := False\<rparr>)"

text \<open>
  The steps, one per critical section. \<open>Settle\<close> is the model a run takes up once it has read
  the settings, which are never saved without one; \<open>Piece\<close> and \<open>Append\<close> are a flush of the
  stream, whose pieces are never empty.
\<close>

inductive session_step :: "session \<Rightarrow> session \<Rightarrow> bool" where
  Send: "ss_held s \<Longrightarrow> \<not> ss_running s \<Longrightarrow> go_trim t \<noteq> '''' \<Longrightarrow>
    session_step s (sendSession (go_trim t) place s)"
| Continue: "ss_held s \<Longrightarrow> \<not> ss_running s \<Longrightarrow> ss_items s \<noteq> [] \<Longrightarrow>
    gi_notice (last (ss_items s)) \<in> set continuable \<Longrightarrow> session_step s (startLocked s)"
| Settle: "ss_running s \<Longrightarrow> m \<noteq> '''' \<Longrightarrow> session_step s (s\<lparr>ss_model := m\<rparr>)"
| Card: "ss_running s \<Longrightarrow>
    session_step s (addLocked ((plain_item ''tool'' '''')\<lparr>gi_tool := Some tool\<rparr>) s)"
| Notice: "ss_running s \<Longrightarrow>
    session_step s (addLocked ((plain_item ''notice'' detail)\<lparr>gi_notice := n, gi_reason := r\<rparr>) s)"
| Piece: "ss_running s \<Longrightarrow> t \<noteq> '''' \<Longrightarrow> kind \<in> {''text'', ''thinking''} \<Longrightarrow>
    session_step s (addLocked (plain_item kind t) s)"
| Append: "ss_running s \<Longrightarrow> t \<noteq> '''' \<Longrightarrow> session_step s (appendLocked i t s)"
| Change: "ss_running s \<Longrightarrow> session_step s (changeTool i change s)"
| Spend: "ss_running s \<Longrightarrow> session_step s (spend u s)"
| Finish: "ss_running s \<Longrightarrow> session_step s (finishRun s)"
| Rename: "ss_held s \<Longrightarrow> js_join '' '' (go_fields raw) \<noteq> '''' \<Longrightarrow>
    session_step s (renameSession raw s)"
| Forget: "ss_held s \<Longrightarrow> \<not> ss_running s \<Longrightarrow> session_step s (forgetSession s)"

inductive session_reachable :: "string \<Rightarrow> string \<Rightarrow> session \<Rightarrow> bool" for i model where
  Start: "model \<noteq> '''' \<Longrightarrow> session_reachable i model (startSession i model)"
| Step: "session_reachable i model s \<Longrightarrow> session_step s t \<Longrightarrow> session_reachable i model t"

inductive_cases session_stepE: "session_step s t"

end
