(* ===== verification/SessionEvents.thy ===== *)
theory SessionEvents
  imports AgentSession
begin

text \<open>
  What the events of a Go session make of a follower: replayed from the start they show what a
  snapshot shows. The proof follows the critical sections one by one; each emission extends the
  published log by one event the follower accepts.
\<close>

section \<open>What a session publishes\<close>

lemma find_last_Some: "find_last p xs = Some n \<Longrightarrow> n < length xs \<and> p (xs ! n)"
  by (auto simp: find_last_def dest!: find_index_Some) (simp_all add: rev_nth)

lemma find_last_None: "find_last p xs = None \<longleftrightarrow> \<not> (\<exists>x \<in> set xs. p x)"
  by (simp add: find_last_def find_index_None)

lemma find_last_unique:
  assumes "distinct (map f xs)"
  shows "find_last (\<lambda>x. f x = i) xs = find_index (\<lambda>x. f x = i) xs"
proof (cases "find_index (\<lambda>x. f x = i) xs")
  case None
  then have "find_last (\<lambda>x. f x = i) xs = None" by (simp add: find_last_None find_index_None)
  then show ?thesis by (simp only: None)
next
  case (Some n)
  then have n: "n < length xs" "f (xs ! n) = i" by (auto dest: find_index_Some)
  then have "find_last (\<lambda>x. f x = i) xs \<noteq> None" by (auto simp: find_last_None)
  then obtain m where m: "find_last (\<lambda>x. f x = i) xs = Some m" by auto
  then have "m < length xs" "f (xs ! m) = i" by (auto dest: find_last_Some)
  with n have "m = n" using assms nth_eq_iff_index_eq [of "map f xs" m n] by simp
  with m Some show ?thesis by simp
qed

text \<open>Numbered ids are fresh.\<close>

definition ids_ok :: "session \<Rightarrow> bool" where
  "ids_ok s \<longleftrightarrow>
     distinct (map gi_id (ss_items s)) \<and>
     (\<forall>x \<in> set (ss_items s). \<exists>k. gi_id x = show_int k \<and> k \<le> ss_next s)"

lemma it_id_wire [simp]: "it_id (wire_item x) = gi_id x"
  by (simp add: wire_item_def)

lemma ids_fresh: "ids_ok s \<Longrightarrow> x \<in> set (ss_items s) \<Longrightarrow> gi_id x \<noteq> show_int (ss_next s + 1)"
  by (force simp: ids_ok_def show_int_inj)

definition replayed :: "string \<Rightarrow> session \<Rightarrow> conversation option" where
  "replayed model s = replay applyEvent (opened_at (ss_id s) model) (ss_emitted s)"

text \<open>
  What the events make is what a snapshot shows: always in the numbered view, and with the
  model and the usage as well while no run is going.
\<close>

definition shown_by :: "session \<Rightarrow> conversation \<Rightarrow> bool" where
  "shown_by s z \<longleftrightarrow>
     same_view z (fromSnapshot (snapshotOf s)) \<and>
     (ss_running s \<or> cv_model z = ss_model s \<and> cv_usage z = wire_usage (ss_usage s))"

definition session_ok :: "string \<Rightarrow> string \<Rightarrow> session \<Rightarrow> bool" where
  "session_ok i model s \<longleftrightarrow>
     ss_id s = i \<and> ss_model s \<noteq> '''' \<and> ss_seq s = int (length (ss_emitted s)) \<and> ids_ok s \<and>
     dock.published (opened_at i model) (ss_emitted s) \<and>
     (\<exists>z. replayed model s = Some z \<and> shown_by s z)"

lemma shown_simps:
  "same_view z (fromSnapshot (snapshotOf s)) \<longleftrightarrow>
     cv_session z = ss_id s \<and> cv_seq z = ss_seq s \<and> cv_running z = ss_running s \<and>
     cv_items z = map wire_item (ss_items s)"
  by (auto simp: same_view_def fromSnapshot_def snapshotOf_def)

lemma session_ok_start: "model \<noteq> '''' \<Longrightarrow> session_ok i model (startSession i model)"
  by (simp add: session_ok_def startSession_def ids_ok_def dock.published_def replayed_def
      shown_by_def shown_simps opened_at_def NO_USAGE_def wire_usage_def omit_zero_def)

text \<open>
  One emission: \<open>t\<close> is the session with the change made but not yet announced.
\<close>

lemma emit_ok:
  assumes ok: "session_ok i model s"
    and same: "ss_id t = ss_id s" "ss_seq t = ss_seq s" "ss_emitted t = ss_emitted s"
      "ss_model t \<noteq> ''''" "ids_ok t"
    and app: "\<And>z. replayed model s = Some z \<Longrightarrow> shown_by s z \<Longrightarrow>
      \<exists>d. applyEvent z (e\<lparr>ev_session := ss_id t, ev_seq := ss_seq t + 1\<rparr>) = Some d \<and>
          shown_by (emitLocked e t) d"
  shows "session_ok i model (emitLocked e t)"
proof -
  let ?e = "e\<lparr>ev_session := ss_id t, ev_seq := ss_seq t + 1\<rparr>"
  from ok obtain z where z: "replayed model s = Some z" "shown_by s z"
    and pub: "dock.published (opened_at i model) (ss_emitted s)"
    and i: "ss_id s = i" and seq: "ss_seq s = int (length (ss_emitted s))"
    by (auto simp: session_ok_def)
  from app [OF z] obtain d where d: "applyEvent z ?e = Some d" "shown_by (emitLocked e t) d" by blast
  have rep: "replay applyEvent (opened_at i model) (ss_emitted s) = Some z"
    using z i by (simp add: replayed_def)
  have "dock.published (opened_at i model) (ss_emitted s @ [?e]) \<and>
        replay applyEvent (opened_at i model) (ss_emitted s @ [?e]) = Some d"
    by (rule dock.published_snoc [OF pub rep _ _ d(1)])
      (use i seq same in \<open>simp_all add: opened_at_def\<close>)
  with d same i seq show ?thesis
    by (auto simp: session_ok_def emitLocked_def replayed_def ids_ok_def)
qed


lemma ids_ok_change:
  assumes "ids_ok s" "n < length (ss_items s)" "gi_id x = gi_id (ss_items s ! n)"
  shows "ids_ok (s\<lparr>ss_items := (ss_items s)[n := x]\<rparr>)"
proof -
  have "map gi_id ((ss_items s)[n := x]) = map gi_id (ss_items s)"
    using assms by (simp add: map_update) (metis list_update_id nth_map)
  moreover have "set ((ss_items s)[n := x]) \<subseteq> insert x (set (ss_items s))"
    by (rule set_update_subset_insert)
  ultimately show ?thesis using assms by (fastforce simp: ids_ok_def)
qed

lemma add_ok:
  assumes ok: "session_ok i model s" and title: "\<And>z. shown_by s z \<Longrightarrow> shown_by t z"
    and same: "ss_id t = ss_id s" "ss_seq t = ss_seq s" "ss_emitted t = ss_emitted s"
      "ss_model t = ss_model s" "ss_next t = ss_next s" "ss_items t = ss_items s"
      "ss_running t = ss_running s" "ss_usage t = ss_usage s"
  shows "session_ok i model (addLocked item t)"
  unfolding addLocked_def Let_def
proof (rule emit_ok [OF ok])
  let ?x = "item\<lparr>gi_id := show_int (ss_next t + 1)\<rparr>"
  have ids: "ids_ok s" using ok by (simp add: session_ok_def)
  have fresh: "\<forall>x \<in> set (ss_items s). gi_id x \<noteq> show_int (ss_next s + 1)"
    using ids_fresh [OF ids] by blast
  have none: "find_index (\<lambda>one. it_id one = show_int (ss_next s + 1)) (map wire_item (ss_items s)) = None"
    using fresh by (simp add: find_index_None)
  show "ids_ok (t\<lparr>ss_next := ss_next t + 1, ss_items := ss_items t @ [?x]\<rparr>)"
    using ids fresh same by (auto simp: ids_ok_def; force)
  fix z assume "shown_by s z"
  then show "\<exists>d. applyEvent z ((item_event ?x)\<lparr>ev_session := ss_id (t\<lparr>ss_next := ss_next t + 1, ss_items := ss_items t @ [?x]\<rparr>),
        ev_seq := ss_seq (t\<lparr>ss_next := ss_next t + 1, ss_items := ss_items t @ [?x]\<rparr>) + 1\<rparr>) = Some d \<and>
      shown_by (emitLocked (item_event ?x) (t\<lparr>ss_next := ss_next t + 1, ss_items := ss_items t @ [?x]\<rparr>)) d"
    using none same
    by (auto simp: applyEvent_def item_event_def bare_event_def Let_def shown_by_def shown_simps
        emitLocked_def)
qed (use ok same in \<open>simp_all add: session_ok_def\<close>)

lemma find_wire:
  assumes "ids_ok s" "find_last (\<lambda>one. gi_id one = j) (ss_items s) = Some n"
  shows "find_index (\<lambda>one. it_id one = j) (map wire_item (ss_items s)) = Some n"
    "n < length (ss_items s)" "gi_id (ss_items s ! n) = j"
proof -
  have "find_index (\<lambda>one. it_id one = j) (map wire_item (ss_items s)) =
        find_index (\<lambda>one. gi_id one = j) (ss_items s)"
    by (simp add: find_index_map)
  also have "\<dots> = find_last (\<lambda>one. gi_id one = j) (ss_items s)"
    using assms(1) by (intro find_last_unique [symmetric]) (simp add: ids_ok_def)
  finally show "find_index (\<lambda>one. it_id one = j) (map wire_item (ss_items s)) = Some n"
    using assms(2) by simp
  show "n < length (ss_items s)" "gi_id (ss_items s ! n) = j"
    using find_last_Some [OF assms(2)] by auto
qed

lemma session_ok_ids: "session_ok i model s \<Longrightarrow> ids_ok s"
  by (simp add: session_ok_def)

lemma change_ok:
  assumes ok: "session_ok i model s" and keeps: "\<And>x. gi_id (change x) = gi_id x"
  shows "session_ok i model (changeLocked j change s)"
proof (cases "find_last (\<lambda>one. gi_id one = j) (ss_items s)")
  case None
  with ok show ?thesis by (simp add: changeLocked_def)
next
  case (Some n)
  note found = find_wire [OF session_ok_ids [OF ok] Some]
  let ?x = "change (ss_items s ! n)"
  let ?t = "s\<lparr>ss_items := (ss_items s)[n := ?x]\<rparr>"
  have eq: "changeLocked j change s = emitLocked (item_event ?x) ?t"
    using Some by (simp add: changeLocked_def Let_def)
  show ?thesis
    unfolding eq
  proof (rule emit_ok [OF ok])
    show "ids_ok ?t" using session_ok_ids [OF ok] found(2) by (rule ids_ok_change) (rule keeps)
    fix z assume "shown_by s z"
    then show "\<exists>d. applyEvent z ((item_event ?x)\<lparr>ev_session := ss_id ?t, ev_seq := ss_seq ?t + 1\<rparr>) = Some d \<and>
        shown_by (emitLocked (item_event ?x) ?t) d"
      using found keeps
      by (auto simp: applyEvent_def item_event_def bare_event_def Let_def shown_by_def shown_simps
          emitLocked_def map_update)
  qed (use ok in \<open>simp_all add: session_ok_def\<close>)
qed

lemma or_undefined_append [simp]:
  "t \<noteq> '''' \<Longrightarrow> Some (nullish (or_undefined u) '''' @ nullish (or_undefined t) '''') = or_undefined (u @ t)"
  by (simp add: or_undefined_def)

lemma append_ok:
  assumes ok: "session_ok i model s" and t: "t \<noteq> ''''"
  shows "session_ok i model (appendLocked j t s)"
proof (cases "find_last (\<lambda>one. gi_id one = j) (ss_items s)")
  case None
  with ok show ?thesis by (simp add: appendLocked_def)
next
  case (Some n)
  note found = find_wire [OF session_ok_ids [OF ok] Some]
  let ?x = "(ss_items s ! n)\<lparr>gi_text := gi_text (ss_items s ! n) @ t\<rparr>"
  let ?t = "s\<lparr>ss_items := (ss_items s)[n := ?x]\<rparr>"
  let ?e = "(bare_event ''delta'')\<lparr>ev_itemId := or_undefined j, ev_text := or_undefined t\<rparr>"
  have eq: "appendLocked j t s = emitLocked ?e ?t"
    using Some by (simp add: appendLocked_def)
  from session_ok_ids [OF ok] found(2,3) obtain k where "j = show_int k"
    by (auto simp: ids_ok_def dest: nth_mem)
  then have j: "or_undefined j = Some j" by (simp add: or_undefined_def)
  show ?thesis
    unfolding eq
  proof (rule emit_ok [OF ok])
    show "ids_ok ?t" using session_ok_ids [OF ok] found(2) by (rule ids_ok_change) simp
    fix z assume z: "shown_by s z"
    have item: "(wire_item (ss_items s ! n))\<lparr>it_text :=
        Some (nullish (it_text (wire_item (ss_items s ! n))) '''' @ nullish (or_undefined t) '''')\<rparr> = wire_item ?x"
      using t by (simp add: wire_item_def)
    from z show "\<exists>d. applyEvent z (?e\<lparr>ev_session := ss_id ?t, ev_seq := ss_seq ?t + 1\<rparr>) = Some d \<and>
        shown_by (emitLocked ?e ?t) d"
      using found(1,2) item j
      by (auto simp: applyEvent_def bare_event_def Let_def shown_by_def shown_simps emitLocked_def
          map_update)
  qed (use ok in \<open>simp_all add: session_ok_def\<close>)
qed

lemma start_ok:
  assumes ok: "session_ok i model s"
  shows "session_ok i model (startLocked s)"
  unfolding startLocked_def
  by (rule emit_ok [OF ok])
    (use ok in \<open>auto simp: session_ok_def ids_ok_def applyEvent_def bare_event_def Let_def shown_by_def
       shown_simps emitLocked_def\<close>)

lemma finish_ok:
  assumes ok: "session_ok i model s"
  shows "session_ok i model (finishRun s)"
  unfolding finishRun_def
  by (rule emit_ok [OF ok])
    (use ok in \<open>auto simp: session_ok_def ids_ok_def applyEvent_def bare_event_def Let_def shown_by_def
       shown_simps emitLocked_def or_undefined_def\<close>)

lemma rename_ok:
  assumes ok: "session_ok i model s"
  shows "session_ok i model (renameSession raw s)"
  unfolding renameSession_def
  by (rule emit_ok [OF ok])
    (use ok in \<open>auto simp: session_ok_def ids_ok_def applyEvent_def bare_event_def Let_def shown_by_def
       shown_simps emitLocked_def\<close>)

lemma forget_ok:
  assumes ok: "session_ok i model s"
  shows "session_ok i model (forgetSession s)"
  unfolding forgetSession_def
  by (rule emit_ok [OF ok])
    (use ok in \<open>auto simp: session_ok_def ids_ok_def applyEvent_def bare_event_def Let_def shown_by_def
       shown_simps emitLocked_def\<close>)

lemma silent_ok:
  assumes ok: "session_ok i model s" and run: "ss_running s"
  shows "m \<noteq> '''' \<Longrightarrow> session_ok i model (s\<lparr>ss_model := m\<rparr>)" "session_ok i model (spend u s)"
  using assms by (auto simp: session_ok_def ids_ok_def replayed_def shown_by_def shown_simps spend_def)

lemma session_step_ok:
  assumes "session_step s t" "session_ok i model s"
  shows "session_ok i model t"
  using assms(1)
proof cases
  case (Send u place)
  have "session_ok i model (addLocked ((plain_item ''user'' (go_trim u))\<lparr>gi_context := Some place\<rparr>)
      (s\<lparr>ss_title := (if ss_title s = '''' then go_titleOf (go_trim u) else ss_title s)\<rparr>))"
    by (rule add_ok [OF assms(2)]) (simp_all add: shown_by_def shown_simps)
  then show ?thesis unfolding Send sendSession_def by (rule start_ok)
next
  case (Change j change)
  then show ?thesis using assms(2) by (simp add: changeTool_def change_ok)
qed (use assms(2) in \<open>auto intro: start_ok finish_ok rename_ok forget_ok silent_ok append_ok add_ok\<close>)

lemma session_reachable_ok: "session_reachable i model s \<Longrightarrow> session_ok i model s"
  by (induction rule: session_reachable.induct) (auto intro: session_ok_start session_step_ok)

end
