(* ===== verification/AssistantSync.thy ===== *)
theory AssistantSync
  imports SessionEvents
begin

text \<open>
  The assistant's dock following a conversation (frontend/src/hooks/useAssistant.ts) against
  the sessions that publish it. Events reach the window one by one, any number of times and in
  any order; a snapshot is asked for, taken, and arrives as three separate steps, with anything
  in between. \<open>aw_delivered\<close> is the events handed over so far.
\<close>

datatype request = Reread string | OpenIt string | Reload string

record assistant_world =
  aw_sessions :: "string \<Rightarrow> session option"
  aw_current :: "conversation option"
  aw_reading :: bool
  aw_asked :: "request list"
  aw_answers :: "(request \<times> agent_snapshot option) list"
  aw_started :: "(string \<times> string) list"
  aw_delivered :: "agent_event list"

definition no_sessions :: assistant_world where
  "no_sessions =
     \<lparr>aw_sessions = (\<lambda>_. None), aw_current = None, aw_reading = False, aw_asked = [],
      aw_answers = [], aw_started = [], aw_delivered = []\<rparr>"

section \<open>The hook\<close>

definition commit :: "conversation option \<Rightarrow> assistant_world \<Rightarrow> assistant_world" where
  "commit c w = w\<lparr>aw_current := c\<rparr>"

definition reread :: "string \<Rightarrow> assistant_world \<Rightarrow> assistant_world" where
  "reread session w =
     (if aw_reading w then w
      else w\<lparr>aw_reading := True, aw_asked := aw_asked w @ [Reread session]\<rparr>)"

definition onEvent :: "agent_event \<Rightarrow> assistant_world \<Rightarrow> assistant_world" where
  "onEvent e w =
     (if ev_kind e = ''gone'' then
        (case aw_current w of
           None \<Rightarrow> w
         | Some c \<Rightarrow> if cv_session c = ev_session e then commit None w else w)
      else
        case aw_current w of
          None \<Rightarrow> w
        | Some st \<Rightarrow>
            if ev_session e \<noteq> cv_session st then w
            else (case applyEvent st e of
                    None \<Rightarrow> reread (cv_session st) w
                  | Some nxt \<Rightarrow> commit (Some nxt) w))"

text \<open>A snapshot arriving, or the request failing.\<close>

fun arrive :: "request \<Rightarrow> agent_snapshot option \<Rightarrow> assistant_world \<Rightarrow> assistant_world" where
  "arrive (Reread session) None w = w\<lparr>aw_reading := False\<rparr>"
| "arrive (Reread session) (Some snapshot) w =
     (case aw_current w of
        None \<Rightarrow> w
      | Some c \<Rightarrow> if cv_session c = session then commit (Some (fromSnapshot snapshot)) w else w)
     \<lparr>aw_reading := False\<rparr>"
| "arrive (OpenIt session) None w = w"
| "arrive (OpenIt session) (Some snapshot) w = commit (Some (fromSnapshot snapshot)) w"
| "arrive (Reload session) None w = w"
| "arrive (Reload session) (Some snapshot) w =
     (if aw_current w \<noteq> None then w else commit (Some (fromSnapshot snapshot)) w)"

fun wanted :: "request \<Rightarrow> string" where
  "wanted (Reread session) = session"
| "wanted (OpenIt session) = session"
| "wanted (Reload session) = session"

text \<open>\<open>Snapshot\<close> answers for a conversation that is held.\<close>

definition snapshotNow :: "assistant_world \<Rightarrow> string \<Rightarrow> agent_snapshot option" where
  "snapshotNow w session =
     (case aw_sessions w session of
        None \<Rightarrow> None
      | Some s \<Rightarrow> if ss_held s then Some (snapshotOf s) else None)"

definition others_idle :: "assistant_world \<Rightarrow> bool" where
  "others_idle w \<longleftrightarrow> (\<forall>i s. aw_sessions w i = Some s \<longrightarrow> \<not> ss_running s)"

inductive assistant_step :: "assistant_world \<Rightarrow> assistant_world \<Rightarrow> bool" where
  Serve: "aw_sessions w i = Some s \<Longrightarrow> session_step s t \<Longrightarrow>
    ss_running s \<or> \<not> ss_running t \<or> others_idle w \<Longrightarrow>
    assistant_step w (w\<lparr>aw_sessions := (aw_sessions w)(i \<mapsto> t)\<rparr>)"
| Begin: "aw_sessions w i = None \<Longrightarrow> m \<noteq> '''' \<Longrightarrow>
    assistant_step w (w\<lparr>aw_sessions := (aw_sessions w)(i \<mapsto> startSession i m),
                        aw_started := aw_started w @ [(i, m)]\<rparr>)"
| Opened: "(i, m) \<in> set (aw_started w) \<Longrightarrow>
    assistant_step w (commit (Some (opened_at i m)) (w\<lparr>aw_started := remove1 (i, m) (aw_started w)\<rparr>))"
| AskOpen: "assistant_step w (w\<lparr>aw_asked := aw_asked w @ [OpenIt i]\<rparr>)"
| AskReload: "aw_current w = None \<Longrightarrow>
    assistant_step w (w\<lparr>aw_asked := aw_asked w @ [Reload i]\<rparr>)"
| Answer: "r \<in> set (aw_asked w) \<Longrightarrow>
    assistant_step w (w\<lparr>aw_asked := remove1 r (aw_asked w),
                        aw_answers := aw_answers w @ [(r, snapshotNow w (wanted r))]\<rparr>)"
| Fail: "r \<in> set (aw_asked w) \<Longrightarrow>
    assistant_step w (w\<lparr>aw_asked := remove1 r (aw_asked w), aw_answers := aw_answers w @ [(r, None)]\<rparr>)"
| Arrive: "(r, a) \<in> set (aw_answers w) \<Longrightarrow>
    assistant_step w (arrive r a (w\<lparr>aw_answers := remove1 (r, a) (aw_answers w)\<rparr>))"
| Deliver: "aw_sessions w i = Some s \<Longrightarrow> e \<in> set (ss_emitted s) \<Longrightarrow>
    assistant_step w (onEvent e (w\<lparr>aw_delivered := aw_delivered w @ [e]\<rparr>))"
| StartOver: "assistant_step w (commit None w)"

inductive assistant_reachable :: "assistant_world \<Rightarrow> bool" where
  Begun: "assistant_reachable no_sessions"
| Next: "assistant_reachable w \<Longrightarrow> assistant_step w v \<Longrightarrow> assistant_reachable v"

section \<open>The dock is never wrong\<close>

definition tracks :: "(string \<Rightarrow> session option) \<Rightarrow> conversation \<Rightarrow> bool" where
  "tracks sessions c \<longleftrightarrow>
     (\<exists>s. sessions (cv_session c) = Some s \<and>
          dock.faithful (opened_at (cv_session c) '''') (ss_emitted s) c)"

definition world_ok :: "assistant_world \<Rightarrow> bool" where
  "world_ok w \<longleftrightarrow>
     (\<forall>i s. aw_sessions w i = Some s \<longrightarrow> (\<exists>m. session_ok i m s)) \<and>
     (\<forall>c. aw_current w = Some c \<longrightarrow> tracks (aw_sessions w) c) \<and>
     (\<forall>r snapshot. (r, Some snapshot) \<in> set (aw_answers w) \<longrightarrow>
        tracks (aw_sessions w) (fromSnapshot snapshot)) \<and>
     (\<forall>i m. (i, m) \<in> set (aw_started w) \<longrightarrow> aw_sessions w i \<noteq> None)"

lemma opened_same [simp]: "same_view (opened_at i m) (opened_at i n)"
  by (simp add: same_view_def opened_at_def)

lemma session_published:
  "session_ok i m s \<Longrightarrow> dock.published (opened_at i n) (ss_emitted s)"
  by (rule dock.published_same [OF opened_same [of i m n]]) (simp add: session_ok_def)

lemma session_replay:
  assumes "session_ok i m s"
  shows "\<exists>z. replay applyEvent (opened_at i n) (ss_emitted s) = Some z \<and>
    same_view z (fromSnapshot (snapshotOf s))"
proof -
  from assms obtain z where "replay applyEvent (opened_at i m) (ss_emitted s) = Some z"
    and z: "same_view z (fromSnapshot (snapshotOf s))"
    by (auto simp: session_ok_def replayed_def shown_by_def)
  moreover have "rel_option same_view (replay applyEvent (opened_at i n) (ss_emitted s))
      (replay applyEvent (opened_at i m) (ss_emitted s))"
    by (rule dock.replay_same) (rule opened_same)
  ultimately obtain y where "replay applyEvent (opened_at i n) (ss_emitted s) = Some y" "same_view y z"
    by (cases "replay applyEvent (opened_at i n) (ss_emitted s)") auto
  with dock.same_trans [OF _ z] show ?thesis by blast
qed

lemma snapshot_faithful:
  assumes "session_ok i m s"
  shows "dock.faithful (opened_at i n) (ss_emitted s) (fromSnapshot (snapshotOf s))"
proof -
  from session_replay [OF assms] obtain z where
    "replay applyEvent (opened_at i n) (ss_emitted s) = Some z"
    "same_view z (fromSnapshot (snapshotOf s))" by blast
  then show ?thesis
    using dock.faithful_whole [OF session_published [OF assms]] dock.same_sym by blast
qed

text \<open>A step only ever adds to what was emitted.\<close>

lemma session_step_emits:
  assumes "session_step s t"
  shows "\<exists>es. ss_emitted t = ss_emitted s @ es"
  using assms
  by cases (auto simp: sendSession_def startLocked_def addLocked_def emitLocked_def Let_def
      appendLocked_def changeTool_def changeLocked_def spend_def finishRun_def renameSession_def
      forgetSession_def split: option.splits)

lemma tracks_serve:
  assumes "sessions i = Some s" "session_step s t" "tracks sessions c"
  shows "tracks (sessions(i \<mapsto> t)) c"
proof -
  from session_step_emits [OF assms(2)] obtain es where "ss_emitted t = ss_emitted s @ es" by blast
  with assms(1,3) show ?thesis by (auto simp: tracks_def dock.faithful_longer)
qed

lemma tracks_fresh: "sessions i = None \<Longrightarrow> tracks sessions c \<Longrightarrow> tracks (sessions(i \<mapsto> s)) c"
  by (auto simp: tracks_def)

lemma fromSnapshot_session [simp]: "cv_session (fromSnapshot (snapshotOf s)) = ss_id s"
  by (simp add: fromSnapshot_def snapshotOf_def)

lemma world_session:
  "world_ok w \<Longrightarrow> aw_sessions w i = Some s \<Longrightarrow> \<exists>m. session_ok i m s"
  by (simp add: world_ok_def)

lemma in_remove1: "x \<in> set (remove1 y xs) \<Longrightarrow> x \<in> set xs"
  using set_remove1_subset by fast

lemma tracks_snapshot:
  assumes "world_ok w" "snapshotNow w i = Some snapshot"
  shows "tracks (aw_sessions w) (fromSnapshot snapshot)"
proof -
  from assms(2) obtain s where s: "aw_sessions w i = Some s" "snapshot = snapshotOf s"
    by (auto simp: snapshotNow_def split: option.splits if_splits)
  with world_session [OF assms(1)] obtain m where ok: "session_ok i m s" by blast
  then have "ss_id s = i" by (simp add: session_ok_def)
  with s snapshot_faithful [OF ok] show ?thesis by (simp add: tracks_def)
qed

lemma tracks_event:
  assumes ok: "world_ok w" and s: "aw_sessions w i = Some s" and e: "e \<in> set (ss_emitted s)"
    and c: "tracks (aw_sessions w) c" "ev_session e = cv_session c"
    and app: "applyEvent c e = Some d"
  shows "tracks (aw_sessions w) d"
proof -
  from world_session [OF ok s] obtain m where m: "session_ok i m s" by blast
  note pub = session_published [OF m, of "''''"]
  have "ev_session e = i" using pub e by (auto simp: dock.published_def opened_at_def)
  with c(2) have i: "cv_session c = i" by simp
  with c(1) s have "dock.faithful (opened_at i '''') (ss_emitted s) c" by (simp add: tracks_def)
  from dock.faithful_app [OF pub this e app] show ?thesis
    using s i applyEvent_session [OF app] by (simp add: tracks_def)
qed

lemma world_ok_commit:
  "world_ok w \<Longrightarrow> (\<And>d. c = Some d \<Longrightarrow> tracks (aw_sessions w) d) \<Longrightarrow> world_ok (commit c w)"
  by (auto simp: world_ok_def commit_def)

lemma world_ok_asked [simp]:
  "world_ok (w\<lparr>aw_asked := rs\<rparr>) = world_ok w" "world_ok (w\<lparr>aw_reading := b\<rparr>) = world_ok w"
  "world_ok (w\<lparr>aw_delivered := es\<rparr>) = world_ok w"
  by (simp_all add: world_ok_def)

lemma world_ok_event:
  assumes "world_ok w" "aw_sessions w i = Some s" "e \<in> set (ss_emitted s)"
  shows "world_ok (onEvent e w)"
  using assms tracks_event [OF assms]
  by (auto simp: onEvent_def reread_def world_ok_def commit_def split: option.splits)

lemma world_ok_answer:
  assumes "world_ok w" "\<And>snapshot. a = Some snapshot \<Longrightarrow> tracks (aw_sessions w) (fromSnapshot snapshot)"
  shows "world_ok (w\<lparr>aw_asked := rs, aw_answers := aw_answers w @ [(r, a)]\<rparr>)"
  using assms by (auto simp: world_ok_def)

lemma world_ok_arrive:
  assumes ok: "world_ok w" and a: "(r, a) \<in> set (aw_answers w)"
  shows "world_ok (arrive r a (w\<lparr>aw_answers := remove1 (r, a) (aw_answers w)\<rparr>))"
proof -
  let ?w = "w\<lparr>aw_answers := remove1 (r, a) (aw_answers w)\<rparr>"
  have ok': "world_ok ?w"
    using ok by (auto simp: world_ok_def dest: in_remove1)
  have com: "world_ok (commit (Some (fromSnapshot snapshot)) ?w)" if "a = Some snapshot" for snapshot
    using ok' ok a that by (intro world_ok_commit) (auto simp: world_ok_def)
  show ?thesis
    using ok' com by (cases "(r, a, ?w)" rule: arrive.cases) (auto split: option.splits)
qed

lemma world_ok_serve:
  assumes ok: "world_ok w" and s: "aw_sessions w i = Some s" and t: "session_step s t"
  shows "world_ok (w\<lparr>aw_sessions := (aw_sessions w)(i \<mapsto> t)\<rparr>)"
proof -
  have "\<exists>m. session_ok i m t" using world_session [OF ok s] session_step_ok [OF t] by blast
  then show ?thesis
    using ok tracks_serve [of "aw_sessions w", OF s t] by (auto simp: world_ok_def)
qed

lemma world_ok_begin:
  assumes ok: "world_ok w" and i: "aw_sessions w i = None" and m: "m \<noteq> ''''"
  shows "world_ok (w\<lparr>aw_sessions := (aw_sessions w)(i \<mapsto> startSession i m),
                    aw_started := aw_started w @ [(i, m)]\<rparr>)"
  using ok session_ok_start [OF m, of i] tracks_fresh [of "aw_sessions w", OF i]
  by (auto simp: world_ok_def)

lemma world_ok_opened:
  assumes ok: "world_ok w" and i: "(i, m) \<in> set (aw_started w)"
  shows "world_ok (commit (Some (opened_at i m)) (w\<lparr>aw_started := remove1 (i, m) (aw_started w)\<rparr>))"
proof -
  from ok i obtain s n where s: "aw_sessions w i = Some s" "session_ok i n s"
    unfolding world_ok_def by fastforce
  have "dock.faithful (opened_at i '''') (ss_emitted s) (opened_at i m)"
    by (auto simp: dock.faithful_def opened_at_def same_view_def)
  then have "tracks (aw_sessions w) (opened_at i m)"
    using s by (simp add: tracks_def opened_at_def)
  then show ?thesis
    using ok by (auto simp: world_ok_def commit_def dest!: in_remove1)
qed

lemma world_ok_step:
  assumes "assistant_step w v" "world_ok w"
  shows "world_ok v"
  using assms(1)
proof cases
  case (Serve i s t)
  then show ?thesis using assms(2) by (simp add: world_ok_serve)
next
  case (Begin i m)
  then show ?thesis using assms(2) by (simp add: world_ok_begin)
next
  case (Opened i m)
  then show ?thesis using assms(2) by (simp add: world_ok_opened)
next
  case (Answer r)
  then show ?thesis using assms(2) tracks_snapshot [OF assms(2)] by (simp add: world_ok_answer)
next
  case (Fail r)
  then show ?thesis using world_ok_answer [OF assms(2), of None] by simp
next
  case (Arrive r a)
  then show ?thesis using assms(2) by (simp add: world_ok_arrive)
next
  case (Deliver i s e)
  then show ?thesis using assms(2) by (simp add: world_ok_event)
next
  case StartOver
  then show ?thesis using world_ok_commit [OF assms(2), of None] by simp
qed (use assms(2) in simp_all)

lemma world_ok_reachable: "assistant_reachable w \<Longrightarrow> world_ok w"
proof (induction rule: assistant_reachable.induct)
  case Begun
  show ?case by (simp add: no_sessions_def world_ok_def)
next
  case (Next w v)
  then show ?case by (blast intro: world_ok_step)
qed

section \<open>Properties\<close>

definition sample_place :: go_context where
  "sample_place = \<lparr>gc_connection = 1, gc_page = ''topics'', gc_namespace = '''', gc_selected = None\<rparr>"

definition sample_asked :: session where
  "sample_asked = sendSession ''Why is orders behind?'' sample_place (startSession ''s1'' ''qwen3'')"

definition sample_done :: session where
  "sample_done = finishRun (addLocked (plain_item ''text'' ''It is not.'') sample_asked)"

lemma sample_trim: "go_trim ''Why is orders behind?'' = ''Why is orders behind?''"
  by code_simp

lemma sample_reachable: "session_reachable ''s1'' ''qwen3'' sample_asked"
proof -
  have "session_step (startSession ''s1'' ''qwen3'')
      (sendSession (go_trim ''Why is orders behind?'') sample_place (startSession ''s1'' ''qwen3''))"
    by (rule session_step.Send) (simp_all add: startSession_def sample_trim)
  then show ?thesis
    unfolding sample_asked_def sample_trim
    by (intro session_reachable.Step [OF session_reachable.Start]) simp_all
qed

text \<open>C8. The numbered events tell a window everything a snapshot would: replayed from the
  opening of a conversation they are all accepted, and make the items, the position and the
  running flag Go holds; while no run is going they make its model and usage as well.\<close>

theorem events_tell_all:
  assumes "session_reachable i m s"
  shows "\<exists>z. replay applyEvent (opened_at i m) (ss_emitted s) = Some z \<and>
     same_view z (fromSnapshot (snapshotOf s)) \<and>
     (ss_running s \<or> cv_model z = ss_model s \<and> cv_usage z = wire_usage (ss_usage s))"
  using session_reachable_ok [OF assms]
  by (auto simp: session_ok_def replayed_def shown_by_def)

lemma events_tell_all_witness:
  "\<exists>z. replay applyEvent (opened_at ''s1'' ''qwen3'') (ss_emitted sample_asked) = Some z \<and>
     same_view z (fromSnapshot (snapshotOf sample_asked)) \<and>
     (ss_running sample_asked \<or>
        cv_model z = ss_model sample_asked \<and> cv_usage z = wire_usage (ss_usage sample_asked))"
  by (rule events_tell_all [OF sample_reachable])

text \<open>A window that opened the conversation on a snapshot and saw nothing since.\<close>

definition sample_world :: assistant_world where
  "sample_world =
     (commit (Some (opened_at ''s1'' ''qwen3''))
        (no_sessions\<lparr>aw_sessions := [''s1'' \<mapsto> startSession ''s1'' ''qwen3'']\<rparr>))
     \<lparr>aw_sessions := [''s1'' \<mapsto> sample_asked]\<rparr>"

lemma sample_world_reachable: "assistant_reachable sample_world"
proof -
  let ?s0 = "startSession ''s1'' ''qwen3''"
  let ?w1 = "no_sessions\<lparr>aw_sessions := (aw_sessions no_sessions)(''s1'' \<mapsto> ?s0),
                        aw_started := aw_started no_sessions @ [(''s1'', ''qwen3'')]\<rparr>"
  let ?w2 = "commit (Some (opened_at ''s1'' ''qwen3''))
               (?w1\<lparr>aw_started := remove1 (''s1'', ''qwen3'') (aw_started ?w1)\<rparr>)"
  have 1: "assistant_reachable ?w1"
    by (rule Next [OF Begun], rule Begin) (simp_all add: no_sessions_def)
  have 2: "assistant_reachable ?w2"
    by (rule Next [OF 1], rule Opened) (simp add: no_sessions_def)
  have "session_step ?s0 sample_asked"
    using session_step.Send [of ?s0 "''Why is orders behind?''" sample_place]
    by (simp add: startSession_def sample_trim sample_asked_def)
  then have "assistant_step ?w2 (?w2\<lparr>aw_sessions := (aw_sessions ?w2)(''s1'' \<mapsto> sample_asked)\<rparr>)"
    by (rule Serve [rotated])
      (simp_all add: no_sessions_def commit_def others_idle_def startSession_def)
  from Next [OF 2 this] show ?thesis
    by (simp add: sample_world_def no_sessions_def commit_def)
qed

text \<open>C9. The dock is never wrong, only behind: whatever was delivered, in whatever order and
  however often, and whichever snapshots are under way, the conversation in the dock is the one
  the first events of its session make, and at the last of them it is the one Go holds.\<close>

theorem dock_never_wrong:
  assumes "assistant_reachable w" "aw_current w = Some c"
  shows "\<exists>s d. aw_sessions w (cv_session c) = Some s \<and> 0 \<le> cv_seq c \<and> cv_seq c \<le> ss_seq s \<and>
     replay applyEvent (opened_at (cv_session c) '''') (take (nat (cv_seq c)) (ss_emitted s)) = Some d \<and>
     same_view c d \<and> (cv_seq c < ss_seq s \<or> same_view c (fromSnapshot (snapshotOf s)))"
proof -
  have ok: "world_ok w" using assms(1) by (rule world_ok_reachable)
  with assms(2) obtain s where s: "aw_sessions w (cv_session c) = Some s"
    and f: "dock.faithful (opened_at (cv_session c) '''') (ss_emitted s) c"
    by (auto simp: world_ok_def tracks_def)
  from world_session [OF ok s] obtain m where m: "session_ok (cv_session c) m s" by blast
  then have seq: "ss_seq s = int (length (ss_emitted s))" by (simp add: session_ok_def)
  from f obtain d where d: "0 \<le> cv_seq c" "cv_seq c \<le> int (length (ss_emitted s))" "same_view c d"
    "replay applyEvent (opened_at (cv_session c) '''') (take (nat (cv_seq c)) (ss_emitted s)) = Some d"
    by (auto simp: dock.faithful_def)
  from session_replay [OF m] obtain z where
    z: "replay applyEvent (opened_at (cv_session c) '''') (ss_emitted s) = Some z"
    "same_view z (fromSnapshot (snapshotOf s))" by blast
  have "same_view c (fromSnapshot (snapshotOf s))" if "\<not> cv_seq c < ss_seq s"
    using that d seq dock.faithful_end [OF f _ z(1)] z(2) by (auto intro: dock.same_trans)
  then have "cv_seq c < ss_seq s \<or> same_view c (fromSnapshot (snapshotOf s))" by blast
  moreover have "cv_seq c \<le> ss_seq s" using d seq by simp
  ultimately show ?thesis using s d by blast
qed

lemma dock_never_wrong_witness:
  "\<exists>s d. aw_sessions sample_world ''s1'' = Some s \<and> 0 \<le> (0 :: int) \<and> 0 \<le> ss_seq s \<and>
     replay applyEvent (opened_at ''s1'' '''') (take (nat 0) (ss_emitted s)) = Some d \<and>
     same_view (opened_at ''s1'' ''qwen3'') d \<and>
     (0 < ss_seq s \<or> same_view (opened_at ''s1'' ''qwen3'') (fromSnapshot (snapshotOf s)))"
  using dock_never_wrong [OF sample_world_reachable, of "opened_at ''s1'' ''qwen3''"]
  by (simp add: sample_world_def commit_def opened_at_def)

text \<open>C36. A dock that is behind catches up: handed the events it has not applied, in order, it
  accepts every one and shows what Go holds, from whatever state it is in.\<close>

theorem dock_catches_up:
  assumes "assistant_reachable w" "aw_current w = Some c" "aw_sessions w (cv_session c) = Some s"
  shows "\<exists>d. replay applyEvent c (drop (nat (cv_seq c)) (ss_emitted s)) = Some d \<and>
     same_view d (fromSnapshot (snapshotOf s))"
proof -
  have ok: "world_ok w" using assms(1) by (rule world_ok_reachable)
  with assms(2,3) have f: "dock.faithful (opened_at (cv_session c) '''') (ss_emitted s) c"
    by (auto simp: world_ok_def tracks_def)
  from world_session [OF ok assms(3)] obtain m where m: "session_ok (cv_session c) m s" by blast
  from session_replay [OF m] obtain z where
    z: "replay applyEvent (opened_at (cv_session c) '''') (ss_emitted s) = Some z"
    "same_view z (fromSnapshot (snapshotOf s))" by blast
  from dock.faithful_catches_up [OF session_published [OF m] f z(1)] z(2) show ?thesis
    by (blast intro: dock.same_trans)
qed

lemma dock_catches_up_witness:
  "\<exists>d. replay applyEvent (opened_at ''s1'' ''qwen3'')
         (drop (nat (cv_seq (opened_at ''s1'' ''qwen3''))) (ss_emitted sample_asked)) = Some d \<and>
     same_view d (fromSnapshot (snapshotOf sample_asked))"
  by (rule dock_catches_up [OF sample_world_reachable])
    (simp_all add: sample_world_def commit_def opened_at_def)

text \<open>
  A conversation reopened while its run ends: the snapshot is taken, the run's last event comes
  while nothing is open, and the snapshot arrives after it.
\<close>

definition reopened :: assistant_world where
  "reopened =
     sample_world\<lparr>aw_sessions := [''s1'' \<mapsto> finishRun sample_asked],
       aw_current := Some (fromSnapshot (snapshotOf sample_asked)),
       aw_delivered := ss_emitted (finishRun sample_asked)\<rparr>"

lemma reopened_events:
  "\<exists>e1 e2 e3. ss_emitted sample_asked = [e1, e2] \<and> ss_emitted (finishRun sample_asked) = [e1, e2, e3] \<and>
     ev_kind e1 \<noteq> ''gone'' \<and> ev_kind e2 \<noteq> ''gone'' \<and> ev_kind e3 \<noteq> ''gone''"
  by (simp add: sample_asked_def sendSession_def startLocked_def addLocked_def emitLocked_def Let_def
      finishRun_def startSession_def bare_event_def item_event_def)

lemma onEvent_closed:
  "aw_current w = None \<Longrightarrow> ev_kind e \<noteq> ''gone'' \<Longrightarrow> onEvent e w = w"
  by (simp add: onEvent_def)

lemma sample_held [simp]:
  "ss_held sample_asked" "ss_running sample_asked" "ss_id sample_asked = ''s1''"
  "\<not> ss_running (finishRun sample_asked)"
  by (simp_all add: sample_asked_def sendSession_def startLocked_def addLocked_def emitLocked_def
      Let_def startSession_def finishRun_def)

lemma reopened_reachable: "assistant_reachable reopened"
proof -
  from reopened_events obtain e1 e2 e3 where
    asked: "ss_emitted sample_asked = [e1, e2]" and
    ended: "ss_emitted (finishRun sample_asked) = [e1, e2, e3]" and
    kinds: "ev_kind e1 \<noteq> ''gone''" "ev_kind e2 \<noteq> ''gone''" "ev_kind e3 \<noteq> ''gone''" by blast
  define w where "w asks answers sess es =
    sample_world\<lparr>aw_current := None, aw_asked := asks, aw_answers := answers,
      aw_sessions := [''s1'' \<mapsto> sess], aw_delivered := es\<rparr>"
    for asks :: "request list" and answers :: "(request \<times> agent_snapshot option) list"
      and sess :: session and es :: "agent_event list"
  have none [simp]: "aw_current (w asks answers sess es) = None"
    "aw_sessions (w asks answers sess es) = [''s1'' \<mapsto> sess]"
    "aw_asked (w asks answers sess es) = asks" "aw_answers (w asks answers sess es) = answers"
    "aw_delivered (w asks answers sess es) = es" for asks answers sess es
    by (simp_all add: w_def)
  have upd [simp]: "(w asks answers sess es)\<lparr>aw_delivered := es'\<rparr> = w asks answers sess es'"
    "(w asks answers sess es)\<lparr>aw_asked := asks'\<rparr> = w asks' answers sess es"
    "(w asks answers sess es)\<lparr>aw_answers := answers'\<rparr> = w asks answers' sess es"
    "(w asks answers sess es)\<lparr>aw_sessions := [''s1'' \<mapsto> sess']\<rparr> = w asks answers sess' es"
    for asks answers sess es es' asks' answers' sess'
    by (simp_all add: w_def)
  have deliver: "assistant_reachable (w asks answers sess (es @ [e]))"
    if "assistant_reachable (w asks answers sess es)" "e \<in> set (ss_emitted sess)" "ev_kind e \<noteq> ''gone''"
    for asks answers sess es e
    using Next [OF that(1) Deliver [of _ "''s1''" sess e]] that(2,3)
    by (simp add: onEvent_closed)
  have "assistant_reachable (commit None sample_world)"
    by (rule Next [OF sample_world_reachable StartOver])
  moreover have "commit None sample_world = w [] [] sample_asked []"
    by (simp add: w_def commit_def sample_world_def no_sessions_def)
  ultimately have "assistant_reachable (w [] [] sample_asked [])" by simp
  from deliver [OF deliver [OF this, of e1], of e2] have "assistant_reachable (w [] [] sample_asked [e1, e2])"
    using asked kinds by simp
  from Next [OF this AskOpen [of _ "''s1''"]]
  have "assistant_reachable (w [OpenIt ''s1''] [] sample_asked [e1, e2])" by simp
  from Next [OF this Answer [of "OpenIt ''s1''"]]
  have "assistant_reachable (w [] [(OpenIt ''s1'', Some (snapshotOf sample_asked))] sample_asked [e1, e2])"
    by (simp add: snapshotNow_def)
  from Next [OF this Serve [of _ "''s1''" sample_asked "finishRun sample_asked"]]
  have "assistant_reachable (w [] [(OpenIt ''s1'', Some (snapshotOf sample_asked))] (finishRun sample_asked) [e1, e2])"
    by (simp add: session_step.Finish)
  from deliver [OF this, of e3]
  have "assistant_reachable (w [] [(OpenIt ''s1'', Some (snapshotOf sample_asked))] (finishRun sample_asked) [e1, e2, e3])"
    using ended kinds by simp
  from Next [OF this Arrive [of "OpenIt ''s1''" "Some (snapshotOf sample_asked)"]]
  show ?thesis
    by (simp add: w_def commit_def reopened_def ended sample_world_def no_sessions_def)
qed

text \<open>C37. Behind can be for good: a conversation can end up in the dock as still answering,
  with every event of it delivered once and in order, nothing asked for and nothing under way,
  while Go has ended the run. An event that arrives while the snapshot is on its way is dropped,
  and only a later event finds the gap.\<close>

theorem dock_can_be_left_behind:
  "\<exists>w c s. assistant_reachable w \<and> aw_current w = Some c \<and> aw_sessions w (cv_session c) = Some s \<and>
     aw_delivered w = ss_emitted s \<and> aw_asked w = [] \<and> aw_answers w = [] \<and> \<not> aw_reading w \<and>
     cv_running c \<and> \<not> ss_running s"
proof (intro exI conjI)
  show "assistant_reachable reopened" by (rule reopened_reachable)
  show "aw_current reopened = Some (fromSnapshot (snapshotOf sample_asked))"
    "aw_sessions reopened (cv_session (fromSnapshot (snapshotOf sample_asked))) = Some (finishRun sample_asked)"
    "aw_delivered reopened = ss_emitted (finishRun sample_asked)"
    "aw_asked reopened = []" "aw_answers reopened = []" "\<not> aw_reading reopened"
    by (simp_all add: reopened_def sample_world_def no_sessions_def commit_def)
  show "cv_running (fromSnapshot (snapshotOf sample_asked))" "\<not> ss_running (finishRun sample_asked)"
    by (simp_all add: fromSnapshot_def snapshotOf_def)
qed

text \<open>What the dock draws is the conversation: the blocks hold every item that is drawn, in
  order and once; reads in a row are one block and never two, and nothing but a read is in one.\<close>

theorem blocks_are_the_items:
  "concat (map block_items (blocksOf items)) = filter drawn items \<and>
   no_adjacent_reads (blocksOf items) \<and> list_all block_fits (blocksOf items)"
  by (simp add: blocksOf_items blocksOf_adjacent blocksOf_fits)

end
