(* ===== verification/RecentPicks.thy ===== *)
theory RecentPicks
  imports Storage
begin

text \<open>
  The pickers' memory (frontend/src/lib/recentPicks.ts): for each connection the topics and
  groups last chosen, newest first, bounded twice. A scope key is \<open>String(connID)\<close>, so it is
  never the name of an inherited property. \<open>Date.now()\<close> and whether the browser takes a write
  are arguments.
\<close>

datatype pick_kind = PickTopic | PickGroup

definition MAX_RECENT :: nat where
  "MAX_RECENT = 10"

definition MAX_PICK_SCOPES :: nat where
  "MAX_PICK_SCOPES = 10"

record pick_scope =
  ps_topics :: "string list"
  ps_groups :: "string list"
  ps_updatedAt :: rat

type_synonym picks_file = "(string \<times> pick_scope) list"

section \<open>Reading\<close>

text \<open>The loop of \<open>sanitizeList\<close>: it skips what is not a new text and stops at the limit.\<close>

fun sanitize_from :: "string list \<Rightarrow> json list \<Rightarrow> string list" where
  "sanitize_from out [] = out"
| "sanitize_from out (JStr s # rest) =
     (if s = '''' \<or> s \<in> set out then sanitize_from out rest
      else if length (out @ [s]) = MAX_RECENT then out @ [s]
      else sanitize_from (out @ [s]) rest)"
| "sanitize_from out (_ # rest) = sanitize_from out rest"

fun sanitizeList :: "json option \<Rightarrow> string list" where
  "sanitizeList (Some (JArr items)) = sanitize_from [] items"
| "sanitizeList _ = []"

fun finite_number :: "json option \<Rightarrow> rat" where
  "finite_number (Some (JNum (JFin r))) = r"
| "finite_number _ = 0"

fun sanitizeScope :: "json \<Rightarrow> pick_scope option" where
  "sanitizeScope (JObj ms) =
     Some \<lparr>ps_topics = sanitizeList (map_of ms ''topics''),
           ps_groups = sanitizeList (map_of ms ''groups''),
           ps_updatedAt = finite_number (map_of ms ''updatedAt'')\<rparr>"
| "sanitizeScope _ = None"

definition readStep :: "picks_file \<Rightarrow> string \<times> json \<Rightarrow> picks_file" where
  "readStep entries e =
     (case sanitizeScope (snd e) of None \<Rightarrow> entries | Some sc \<Rightarrow> obj_put (fst e) sc entries)"

definition readPicks :: "stored \<Rightarrow> picks_file" where
  "readPicks raw = (case raw of Parsed (JObj ms) \<Rightarrow> foldl readStep [] ms | _ \<Rightarrow> [])"

section \<open>Writing\<close>

definition scope_json :: "pick_scope \<Rightarrow> json" where
  "scope_json sc =
     JObj [(''topics'', JArr (map JStr (ps_topics sc))), (''groups'', JArr (map JStr (ps_groups sc))),
           (''updatedAt'', JNum (JFin (ps_updatedAt sc)))]"

definition writePicks :: "bool \<Rightarrow> picks_file \<Rightarrow> stored \<Rightarrow> stored" where
  "writePicks writable entries old =
     (if writable then Parsed (JObj (map (\<lambda>(k, sc). (k, scope_json sc)) entries)) else old)"

definition trimPicks :: "picks_file \<Rightarrow> picks_file" where
  "trimPicks entries = obj_trim MAX_PICK_SCOPES ps_updatedAt entries"

fun listOf :: "pick_scope \<Rightarrow> pick_kind \<Rightarrow> string list" where
  "listOf sc PickTopic = ps_topics sc"
| "listOf sc PickGroup = ps_groups sc"

fun setList :: "pick_kind \<Rightarrow> string list \<Rightarrow> pick_scope \<Rightarrow> pick_scope" where
  "setList PickTopic xs sc = sc\<lparr>ps_topics := xs\<rparr>"
| "setList PickGroup xs sc = sc\<lparr>ps_groups := xs\<rparr>"

definition loadRecentPicks :: "string \<Rightarrow> pick_kind \<Rightarrow> stored \<Rightarrow> string list" where
  "loadRecentPicks scopeKey kind raw =
     (case map_of (readPicks raw) scopeKey of None \<Rightarrow> [] | Some sc \<Rightarrow> listOf sc kind)"

definition NEW_SCOPE :: pick_scope where
  "NEW_SCOPE = \<lparr>ps_topics = [], ps_groups = [], ps_updatedAt = 0\<rparr>"

definition newestFirst :: "string \<Rightarrow> string list \<Rightarrow> string list" where
  "newestFirst v xs = take MAX_RECENT (v # filter (\<lambda>x. x \<noteq> v) xs)"

definition pickIn :: "string \<Rightarrow> pick_kind \<Rightarrow> string \<Rightarrow> int \<Rightarrow> picks_file \<Rightarrow> picks_file" where
  "pickIn scopeKey kind v now entries =
     (let sc = nullish (map_of entries scopeKey) NEW_SCOPE in
      trimPicks (obj_put scopeKey
        ((setList kind (newestFirst v (listOf sc kind)) sc)\<lparr>ps_updatedAt := of_int now\<rparr>) entries))"

definition recordRecentPick ::
  "bool \<Rightarrow> int \<Rightarrow> string \<Rightarrow> pick_kind \<Rightarrow> string \<Rightarrow> stored \<Rightarrow> string list \<times> stored" where
  "recordRecentPick writable now scopeKey kind v raw =
     (if v = '''' then (loadRecentPicks scopeKey kind raw, raw)
      else
        (newestFirst v (listOf (nullish (map_of (readPicks raw) scopeKey) NEW_SCOPE) kind),
         writePicks writable (pickIn scopeKey kind v now (readPicks raw)) raw))"

section \<open>Every file is clean\<close>

definition clean_list :: "string list \<Rightarrow> bool" where
  "clean_list xs \<longleftrightarrow> distinct xs \<and> '''' \<notin> set xs \<and> length xs \<le> MAX_RECENT"

definition clean_scope :: "pick_scope \<Rightarrow> bool" where
  "clean_scope sc \<longleftrightarrow> clean_list (ps_topics sc) \<and> clean_list (ps_groups sc)"

definition clean_picks :: "picks_file \<Rightarrow> bool" where
  "clean_picks entries \<longleftrightarrow>
     wf_obj entries \<and> ''__proto__'' \<notin> fst ` set entries \<and>
     (\<forall>(k, sc) \<in> set entries. clean_scope sc)"

lemma sanitize_from_clean:
  "distinct out \<Longrightarrow> '''' \<notin> set out \<Longrightarrow> length out < MAX_RECENT \<Longrightarrow> clean_list (sanitize_from out items)"
  by (induction out items rule: sanitize_from.induct) (auto simp: clean_list_def)

lemma sanitizeList_clean: "clean_list (sanitizeList v)"
  by (cases v rule: sanitizeList.cases)
    (simp_all add: sanitize_from_clean MAX_RECENT_def, simp_all add: clean_list_def MAX_RECENT_def)

lemma sanitizeScope_clean: "sanitizeScope v = Some sc \<Longrightarrow> clean_scope sc"
  by (cases v) (auto simp: clean_scope_def sanitizeList_clean)

lemma sanitize_again:
  "clean_list (out @ xs) \<Longrightarrow> sanitize_from out (map JStr xs) = out @ xs"
proof (induction xs arbitrary: out)
  case (Cons x xs)
  then have "sanitize_from (out @ [x]) (map JStr xs) = (out @ [x]) @ xs" by simp
  moreover have "x \<noteq> ''''" "x \<notin> set out" using Cons.prems by (auto simp: clean_list_def)
  moreover have "xs = []" if "length (out @ [x]) = MAX_RECENT"
  proof -
    have "length (out @ x # xs) \<le> MAX_RECENT" using Cons.prems by (simp add: clean_list_def)
    with that have "length (out @ x # xs) \<le> length (out @ [x])" by (simp only:)
    then show ?thesis by simp
  qed
  ultimately show ?case by auto
qed simp

lemma clean_put:
  assumes "clean_picks entries" "clean_scope sc"
  shows "clean_picks (obj_put k sc entries)"
  using assms set_put [of entries k sc] keys_put [of k sc entries]
  unfolding clean_picks_def by (auto simp: wf_put)

lemma clean_read: "clean_picks (readPicks raw)"
proof -
  have "clean_picks (foldl readStep entries ms)" if "clean_picks entries" for ms entries
    using that
    by (induction ms arbitrary: entries)
      (auto simp: readStep_def clean_put sanitizeScope_clean split: option.splits)
  moreover have "clean_picks []" by (simp add: clean_picks_def)
  ultimately show ?thesis by (auto simp: readPicks_def split: stored.splits json.splits)
qed

lemma sanitize_scope_json: "clean_scope sc \<Longrightarrow> sanitizeScope (scope_json sc) = Some sc"
  using sanitize_again [of "[]"]
  by (simp add: scope_json_def clean_scope_def)

lemma read_write:
  assumes "clean_picks entries"
  shows "readPicks (writePicks True entries old) = entries"
proof -
  have "foldl readStep [] (map (\<lambda>(k, sc). (k, scope_json sc)) entries) = entries"
    using assms
  proof (induction entries rule: rev_induct)
    case (snoc e entries)
    then have "clean_picks entries" by (auto simp: clean_picks_def dest: wf_obj_prefix)
    moreover have "clean_scope (snd e)" "fst e \<noteq> ''__proto__''" "wf_obj (entries @ [(fst e, snd e)])"
      using snoc.prems by (auto simp: clean_picks_def split: prod.splits)
    ultimately show ?case using snoc.IH
      by (cases e) (simp add: readStep_def sanitize_scope_json obj_put_def define_last)
  qed simp
  then show ?thesis by (simp add: readPicks_def writePicks_def)
qed

lemma picks_refused [simp]: "writePicks False entries old = old"
  by (simp add: writePicks_def)

interpretation picks: persisted readPicks writePicks clean_picks "\<lambda>entries. entries"
  by unfold_locales (simp_all add: clean_read read_write)

section \<open>A pick\<close>

lemma clean_newest: "v \<noteq> '''' \<Longrightarrow> clean_list xs \<Longrightarrow> clean_list (newestFirst v xs)"
  by (auto simp: clean_list_def newestFirst_def MAX_RECENT_def dest: in_set_takeD)

lemma clean_lookup:
  "clean_picks entries \<Longrightarrow> clean_scope (nullish (map_of entries k) NEW_SCOPE)"
  by (cases "map_of entries k")
    (auto simp: clean_picks_def clean_scope_def clean_list_def NEW_SCOPE_def dest: map_of_SomeD)

lemma clean_listOf: "clean_scope sc \<Longrightarrow> clean_list (listOf sc kind)"
  by (cases kind) (simp_all add: clean_scope_def)

lemma clean_setList:
  "clean_scope sc \<Longrightarrow> clean_list xs \<Longrightarrow> clean_scope ((setList kind xs sc)\<lparr>ps_updatedAt := t\<rparr>)"
  by (cases kind) (simp_all add: clean_scope_def)

definition touched :: "string \<Rightarrow> pick_kind \<Rightarrow> string \<Rightarrow> int \<Rightarrow> picks_file \<Rightarrow> pick_scope" where
  "touched scopeKey kind v now entries =
     (let sc = nullish (map_of entries scopeKey) NEW_SCOPE in
      (setList kind (newestFirst v (listOf sc kind)) sc)\<lparr>ps_updatedAt := of_int now\<rparr>)"

lemma pickIn_eq: "pickIn k kind v now entries = trimPicks (obj_put k (touched k kind v now entries) entries)"
  by (simp add: pickIn_def touched_def Let_def)

lemma clean_touched: "v \<noteq> '''' \<Longrightarrow> clean_picks entries \<Longrightarrow> clean_scope (touched k kind v now entries)"
  unfolding touched_def Let_def
  by (intro clean_setList clean_newest clean_listOf clean_lookup)

lemma clean_trim: "clean_picks entries \<Longrightarrow> clean_picks (trimPicks entries)"
  using trim_subset [of entries MAX_PICK_SCOPES ps_updatedAt]
  by (fastforce simp: clean_picks_def trimPicks_def trim_wf)

lemma clean_pickIn: "v \<noteq> '''' \<Longrightarrow> clean_picks entries \<Longrightarrow> clean_picks (pickIn k kind v now entries)"
  by (simp add: pickIn_eq clean_trim clean_put clean_touched)

lemma recorded_file:
  "v \<noteq> '''' \<Longrightarrow>
   readPicks (snd (recordRecentPick True now k kind v raw)) = pickIn k kind v now (readPicks raw)"
  by (simp add: recordRecentPick_def read_write clean_pickIn clean_read)

lemma clean_wf: "clean_picks entries \<Longrightarrow> wf_obj entries"
  by (simp add: clean_picks_def)

lemma pick_stays:
  assumes "clean_picks entries" "v \<noteq> ''''" "k \<noteq> ''__proto__''"
    and few: "length (filter (\<lambda>e. fst e \<noteq> k \<and> of_int now \<le> ps_updatedAt (snd e)) entries) < MAX_PICK_SCOPES"
  shows "map_of (pickIn k kind v now entries) k = Some (touched k kind v now entries)"
proof -
  let ?t = "touched k kind v now entries" and ?put = "obj_put k (touched k kind v now entries) entries"
  have wf: "wf_obj ?put" using assms by (simp add: clean_wf wf_put)
  have mem: "(k, ?t) \<in> set ?put"
    using wf assms(3) by (simp add: wf_obj_entry map_of_put)
  have "set (filter (\<lambda>e. fst e \<noteq> k \<and> ps_updatedAt ?t \<le> ps_updatedAt (snd e)) ?put) \<subseteq>
        set (filter (\<lambda>e. fst e \<noteq> k \<and> of_int now \<le> ps_updatedAt (snd e)) entries)"
    using set_put [OF clean_wf [OF assms(1)], of k ?t] by (auto simp: touched_def Let_def)
  then have "card (set (filter (\<lambda>e. fst e \<noteq> k \<and> ps_updatedAt ?t \<le> ps_updatedAt (snd e)) ?put)) \<le>
        card (set (filter (\<lambda>e. fst e \<noteq> k \<and> of_int now \<le> ps_updatedAt (snd e)) entries))"
    by (intro card_mono) simp_all
  moreover have "card (set (filter P xs)) = length (filter P xs)"
    if "distinct xs" for P and xs :: picks_file
    using that by (intro distinct_card) simp
  ultimately have "length (filter (\<lambda>e. fst e \<noteq> k \<and> ps_updatedAt ?t \<le> ps_updatedAt (snd e)) ?put) < MAX_PICK_SCOPES"
    using few wf_obj_distinct [OF wf] wf_obj_distinct [OF clean_wf [OF assms(1)]] by simp
  from trim_keeps [OF wf mem this] show ?thesis
    by (simp add: pickIn_eq trimPicks_def wf_obj_entry trim_wf wf)
qed

lemma listOf_touched:
  "listOf (touched k kind v now entries) kind' =
     (if kind' = kind then newestFirst v (listOf (nullish (map_of entries k) NEW_SCOPE) kind)
      else listOf (nullish (map_of entries k) NEW_SCOPE) kind')"
  by (cases kind; cases kind') (simp_all add: touched_def Let_def)

lemma loadRecent_nullish:
  "loadRecentPicks k kind raw = listOf (nullish (map_of (readPicks raw) k) NEW_SCOPE) kind"
  by (cases "map_of (readPicks raw) k"; cases kind) (simp_all add: loadRecentPicks_def NEW_SCOPE_def)

text \<open>Trimming keeps an entry as it is, or drops it and keeps none that is older.\<close>

lemma trimmed_entry:
  assumes wf: "wf_obj entries" and e: "e \<in> set entries"
  shows "map_of (trimPicks entries) (fst e) = Some (snd e) \<or>
    map_of (trimPicks entries) (fst e) = None \<and> (\<forall>d \<in> set (trimPicks entries). ps_updatedAt (snd e) \<le> ps_updatedAt (snd d))"
proof (cases "e \<in> set (trimPicks entries)")
  case True
  then show ?thesis
    using wf_obj_entry [OF trim_wf [OF wf], of "fst e" "snd e" MAX_PICK_SCOPES ps_updatedAt] by (auto simp: trimPicks_def)
next
  case False
  have "map_of (trimPicks entries) (fst e) \<noteq> Some x" for x
  proof
    assume "map_of (trimPicks entries) (fst e) = Some x"
    then have x: "(fst e, x) \<in> set (trimPicks entries)" by (rule map_of_SomeD)
    then have "(fst e, x) \<in> set entries" using trim_subset [OF wf] by (auto simp: trimPicks_def)
    then have "x = snd e"
      using e wf_obj_entry [OF wf, of "fst e" "snd e"] wf_obj_entry [OF wf, of "fst e" x] by simp
    with x False show False by simp
  qed
  then show ?thesis using trim_drops_oldest [OF wf e] False by (auto simp: trimPicks_def)
qed

section \<open>Properties\<close>

text \<open>A pick is remembered: read back, the list of its kind starts with it and goes on with
  the earlier picks in their order, once each and ten at most, and the other list is unchanged.
  The one condition is that fewer than ten other connections are stamped at or after now.\<close>

theorem pick_is_remembered:
  assumes "v \<noteq> ''''" "scopeKey \<noteq> ''__proto__''"
    "length (filter (\<lambda>e. fst e \<noteq> scopeKey \<and> of_int now \<le> ps_updatedAt (snd e)) (readPicks raw)) < MAX_PICK_SCOPES"
  shows "loadRecentPicks scopeKey kind' (snd (recordRecentPick True now scopeKey kind v raw)) =
     (if kind' = kind then take MAX_RECENT (v # filter (\<lambda>x. x \<noteq> v) (loadRecentPicks scopeKey kind raw))
      else loadRecentPicks scopeKey kind' raw)"
proof -
  have "map_of (readPicks (snd (recordRecentPick True now scopeKey kind v raw))) scopeKey =
      Some (touched scopeKey kind v now (readPicks raw))"
    using assms by (simp add: recorded_file pick_stays clean_read)
  then show ?thesis
    by (simp add: loadRecent_nullish listOf_touched newestFirst_def)
qed

lemma pick_is_remembered_witness:
  "loadRecentPicks ''7'' PickTopic (snd (recordRecentPick True 5 ''7'' PickTopic ''orders''
     (Parsed (JObj [(''7'', JObj [(''topics'', JArr [JStr ''billing'', JStr ''orders''])])])))) =
   [''orders'', ''billing'']"
proof -
  let ?raw = "Parsed (JObj [(''7'', JObj [(''topics'', JArr [JStr ''billing'', JStr ''orders''])])])"
  have raw: "readPicks ?raw = [(''7'', \<lparr>ps_topics = [''billing'', ''orders''], ps_groups = [], ps_updatedAt = 0\<rparr>)]"
    by (simp add: readPicks_def readStep_def obj_put_def obj_define_def MAX_RECENT_def)
  have "loadRecentPicks ''7'' PickTopic ?raw = [''billing'', ''orders'']"
    by (simp add: loadRecentPicks_def raw)
  with pick_is_remembered [of "''orders''" "''7''" 5 ?raw PickTopic PickTopic] show ?thesis
    by (simp add: raw MAX_PICK_SCOPES_def MAX_RECENT_def)
qed

text \<open>The store of recent picks stays bounded and forgets the right ones: after a pick there are at
  most ten connections, no list holds more than ten values or one twice, every other connection is as
  it was or gone, and one that is gone was used no later than any that stayed.\<close>

theorem picks_stay_bounded:
  assumes "v \<noteq> ''''"
  shows "length (readPicks (snd (recordRecentPick True now scopeKey kind v raw))) \<le> MAX_PICK_SCOPES \<and>
     clean_picks (readPicks (snd (recordRecentPick True now scopeKey kind v raw))) \<and>
     list_all (\<lambda>e. fst e = scopeKey \<or>
         map_of (readPicks (snd (recordRecentPick True now scopeKey kind v raw))) (fst e) = Some (snd e) \<or>
         map_of (readPicks (snd (recordRecentPick True now scopeKey kind v raw))) (fst e) = None \<and>
         list_all (\<lambda>d. ps_updatedAt (snd e) \<le> ps_updatedAt (snd d))
           (readPicks (snd (recordRecentPick True now scopeKey kind v raw))))
       (readPicks raw)"
proof -
  let ?put = "obj_put scopeKey (touched scopeKey kind v now (readPicks raw)) (readPicks raw)"
  have clean: "clean_picks ?put" using assms by (simp add: clean_put clean_touched clean_read)
  note wf = clean_wf [OF this] and wf0 = clean_wf [OF clean_read]
  have old: "e \<in> set ?put" if "e \<in> set (readPicks raw)" "fst e \<noteq> scopeKey" for e
    using that wf_obj_entry [OF wf, of "fst e" "snd e"] wf_obj_entry [OF wf0, of "fst e" "snd e" raw]
    by (simp add: obj_put_def split: if_splits)
  have "fst e = scopeKey \<or> map_of (trimPicks ?put) (fst e) = Some (snd e) \<or>
      map_of (trimPicks ?put) (fst e) = None \<and> (\<forall>d \<in> set (trimPicks ?put). ps_updatedAt (snd e) \<le> ps_updatedAt (snd d))"
    if "e \<in> set (readPicks raw)" for e
    using that old trimmed_entry [OF wf, of e] by blast
  moreover have "length (trimPicks ?put) \<le> MAX_PICK_SCOPES" unfolding trimPicks_def by (rule trim_length [OF wf])
  moreover have "readPicks (snd (recordRecentPick True now scopeKey kind v raw)) = trimPicks ?put"
    using assms by (simp add: recorded_file pickIn_eq)
  ultimately show ?thesis using clean_trim [OF clean] by (simp add: list_all_iff)
qed

lemma picks_stay_bounded_witness:
  "length (readPicks (snd (recordRecentPick True 5 ''7'' PickGroup ''billing'' NoItem))) \<le> MAX_PICK_SCOPES"
  using picks_stay_bounded [of "''billing''" 5 "''7''" PickGroup NoItem] by simp

end
