(* ===== verification/ProducerDrafts.thy ===== *)
theory ProducerDrafts
  imports Storage
begin

text \<open>
  What the producer board remembers (frontend/src/lib/producerDrafts.ts): for each connection the
  topic last sent to and the message last sent to each topic, bounded by topics and by
  connections. A text is its UTF-8 bytes, so \<open>TextEncoder\<close> counts its length. The clock and
  whether the browser takes a write are arguments.
\<close>

definition MAX_BODY_BYTES :: nat where
  "MAX_BODY_BYTES = 256 * 1024"

definition MAX_TOPICS_PER_SCOPE :: nat where
  "MAX_TOPICS_PER_SCOPE = 30"

definition MAX_DRAFT_SCOPES :: nat where
  "MAX_DRAFT_SCOPES = 10"

definition MAX_DELAY_LEVEL :: int where
  "MAX_DELAY_LEVEL = 18"

record producer_draft =
  pd_tag :: string
  pd_key :: string
  pd_delay :: jsnum
  pd_body :: string

record stored_draft =
  sd_tag :: string
  sd_key :: string
  sd_delay :: int
  sd_body :: string
  sd_savedAt :: rat

record draft_scope =
  ds_lastTopic :: string
  ds_drafts :: "(string \<times> stored_draft) list"

record producer_scope =
  pr_lastTopic :: string
  pr_drafts :: "(string \<times> producer_draft) list"

type_synonym drafts_file = "(string \<times> draft_scope) list"

section \<open>Reading\<close>

definition js_trunc :: "rat \<Rightarrow> int" where
  "js_trunc r = (if 0 \<le> r then \<lfloor>r\<rfloor> else \<lceil>r\<rceil>)"

fun clampNumber :: "jsnum \<Rightarrow> int" where
  "clampNumber (JFin r) = min (max (js_trunc r) 0) MAX_DELAY_LEVEL"
| "clampNumber _ = 0"

fun clampDelay :: "json option \<Rightarrow> int" where
  "clampDelay (Some (JNum n)) = clampNumber n"
| "clampDelay _ = 0"

fun savedAt_of :: "json option \<Rightarrow> rat" where
  "savedAt_of (Some (JNum (JFin r))) = r"
| "savedAt_of _ = 0"

fun sanitizeDraft :: "json \<Rightarrow> stored_draft option" where
  "sanitizeDraft (JObj ms) =
     (case (json_text (map_of ms ''tag''), json_text (map_of ms ''key''), json_text (map_of ms ''body'')) of
        (Some tag, Some key, Some body) \<Rightarrow>
          Some \<lparr>sd_tag = tag, sd_key = key, sd_delay = clampDelay (map_of ms ''delay''),
                sd_body = body, sd_savedAt = savedAt_of (map_of ms ''savedAt'')\<rparr>
      | _ \<Rightarrow> None)"
| "sanitizeDraft _ = None"

definition draftStep :: "(string \<times> stored_draft) list \<Rightarrow> string \<times> json \<Rightarrow> (string \<times> stored_draft) list" where
  "draftStep drafts e =
     (case sanitizeDraft (snd e) of None \<Rightarrow> drafts | Some d \<Rightarrow> obj_put (fst e) d drafts)"

fun sanitizeDraftScope :: "json \<Rightarrow> draft_scope option" where
  "sanitizeDraftScope (JObj ms) =
     Some \<lparr>ds_lastTopic = nullish (json_text (map_of ms ''lastTopic'')) '''',
           ds_drafts = (case map_of ms ''drafts'' of
                          Some (JObj ds) \<Rightarrow> foldl draftStep [] ds
                        | _ \<Rightarrow> [])\<rparr>"
| "sanitizeDraftScope _ = None"

definition scopeStep :: "drafts_file \<Rightarrow> string \<times> json \<Rightarrow> drafts_file" where
  "scopeStep entries e =
     (case sanitizeDraftScope (snd e) of None \<Rightarrow> entries | Some sc \<Rightarrow> obj_put (fst e) sc entries)"

definition readDrafts :: "stored \<Rightarrow> drafts_file" where
  "readDrafts raw = (case raw of Parsed (JObj ms) \<Rightarrow> foldl scopeStep [] ms | _ \<Rightarrow> [])"

section \<open>Writing\<close>

definition draft_json :: "stored_draft \<Rightarrow> json" where
  "draft_json d =
     JObj [(''tag'', JStr (sd_tag d)), (''key'', JStr (sd_key d)), (''body'', JStr (sd_body d)),
           (''delay'', JNum (JFin (of_int (sd_delay d)))), (''savedAt'', JNum (JFin (sd_savedAt d)))]"

definition draft_scope_json :: "draft_scope \<Rightarrow> json" where
  "draft_scope_json sc =
     JObj [(''lastTopic'', JStr (ds_lastTopic sc)),
           (''drafts'', JObj (map (\<lambda>(t, d). (t, draft_json d)) (ds_drafts sc)))]"

definition writeDrafts :: "bool \<Rightarrow> drafts_file \<Rightarrow> stored \<Rightarrow> stored" where
  "writeDrafts writable entries old =
     (if writable then Parsed (JObj (map (\<lambda>(k, sc). (k, draft_scope_json sc)) entries)) else old)"

definition newestSavedAt :: "draft_scope \<Rightarrow> rat" where
  "newestSavedAt sc = foldl (\<lambda>newest e. max newest (sd_savedAt (snd e))) 0 (ds_drafts sc)"

definition trimScope :: "draft_scope \<Rightarrow> draft_scope" where
  "trimScope sc = sc\<lparr>ds_drafts := obj_trim MAX_TOPICS_PER_SCOPE sd_savedAt (ds_drafts sc)\<rparr>"

definition trimDrafts :: "drafts_file \<Rightarrow> drafts_file" where
  "trimDrafts entries =
     obj_trim MAX_DRAFT_SCOPES newestSavedAt (map (\<lambda>(k, sc). (k, trimScope sc)) entries)"

definition public_draft :: "stored_draft \<Rightarrow> producer_draft" where
  "public_draft d =
     \<lparr>pd_tag = sd_tag d, pd_key = sd_key d, pd_delay = JFin (of_int (sd_delay d)), pd_body = sd_body d\<rparr>"

definition toScope :: "draft_scope option \<Rightarrow> producer_scope" where
  "toScope found =
     (case found of
        None \<Rightarrow> \<lparr>pr_lastTopic = '''', pr_drafts = []\<rparr>
      | Some sc \<Rightarrow>
          \<lparr>pr_lastTopic = ds_lastTopic sc,
           pr_drafts = foldl (\<lambda>ds (t, d). obj_put t (public_draft d) ds) [] (ds_drafts sc)\<rparr>)"

definition loadProducerScope :: "string \<Rightarrow> stored \<Rightarrow> producer_scope" where
  "loadProducerScope scopeKey raw = toScope (map_of (readDrafts raw) scopeKey)"

definition NEW_DRAFT_SCOPE :: draft_scope where
  "NEW_DRAFT_SCOPE = \<lparr>ds_lastTopic = '''', ds_drafts = []\<rparr>"

definition kept_draft :: "int \<Rightarrow> producer_draft \<Rightarrow> stored_draft" where
  "kept_draft now d =
     \<lparr>sd_tag = pd_tag d, sd_key = pd_key d, sd_delay = clampNumber (pd_delay d),
      sd_body = pd_body d, sd_savedAt = of_int now\<rparr>"

definition sentTo :: "string \<Rightarrow> producer_draft \<Rightarrow> int \<Rightarrow> draft_scope \<Rightarrow> draft_scope" where
  "sentTo topic d now sc =
     sc\<lparr>ds_lastTopic := topic,
        ds_drafts := (if length (pd_body d) \<le> MAX_BODY_BYTES
                      then obj_put topic (kept_draft now d) (ds_drafts sc) else ds_drafts sc)\<rparr>"

definition saveIn :: "string \<Rightarrow> string \<Rightarrow> producer_draft \<Rightarrow> int \<Rightarrow> drafts_file \<Rightarrow> drafts_file" where
  "saveIn scopeKey topic d now entries =
     trimDrafts (obj_put scopeKey
       (sentTo topic d now (nullish (map_of entries scopeKey) NEW_DRAFT_SCOPE)) entries)"

definition saveProducerDraft ::
  "bool \<Rightarrow> int \<Rightarrow> string \<Rightarrow> string \<Rightarrow> producer_draft \<Rightarrow> stored \<Rightarrow> producer_scope \<times> stored" where
  "saveProducerDraft writable now scopeKey topic d raw =
     (if topic = '''' then (loadProducerScope scopeKey raw, raw)
      else let trimmed = saveIn scopeKey topic d now (readDrafts raw)
           in (toScope (map_of trimmed scopeKey), writeDrafts writable trimmed raw))"

text \<open>\<open>topic in scope.drafts\<close> also finds what every object inherits.\<close>

definition INHERITED :: "string list" where
  "INHERITED =
     [''constructor'', ''hasOwnProperty'', ''isPrototypeOf'', ''propertyIsEnumerable'',
      ''toLocaleString'', ''toString'', ''valueOf'', ''__proto__'', ''__defineGetter__'',
      ''__defineSetter__'', ''__lookupGetter__'', ''__lookupSetter__'']"

definition clearProducerDraft :: "bool \<Rightarrow> string \<Rightarrow> string \<Rightarrow> stored \<Rightarrow> producer_scope \<times> stored" where
  "clearProducerDraft writable scopeKey topic raw =
     (case map_of (readDrafts raw) scopeKey of
        None \<Rightarrow> (toScope None, raw)
      | Some sc \<Rightarrow>
          if topic \<notin> fst ` set (ds_drafts sc) \<and> topic \<notin> set INHERITED then (toScope (Some sc), raw)
          else
            let cleared = sc\<lparr>ds_drafts := obj_delete topic (ds_drafts sc)\<rparr>
            in (toScope (Some cleared),
                writeDrafts writable (AList.update scopeKey cleared (readDrafts raw)) raw))"

section \<open>Every file is clean\<close>

definition clean_draft :: "stored_draft \<Rightarrow> bool" where
  "clean_draft d \<longleftrightarrow> 0 \<le> sd_delay d \<and> sd_delay d \<le> MAX_DELAY_LEVEL"

definition clean_drafts :: "(string \<times> stored_draft) list \<Rightarrow> bool" where
  "clean_drafts ds \<longleftrightarrow>
     wf_obj ds \<and> ''__proto__'' \<notin> fst ` set ds \<and> (\<forall>(t, d) \<in> set ds. clean_draft d)"

definition clean_file :: "drafts_file \<Rightarrow> bool" where
  "clean_file entries \<longleftrightarrow>
     wf_obj entries \<and> ''__proto__'' \<notin> fst ` set entries \<and>
     (\<forall>(k, sc) \<in> set entries. clean_drafts (ds_drafts sc))"

lemma clamp_bounds: "0 \<le> clampNumber n \<and> clampNumber n \<le> MAX_DELAY_LEVEL"
  by (cases n) (simp_all add: MAX_DELAY_LEVEL_def)

lemma clampDelay_bounds: "0 \<le> clampDelay v \<and> clampDelay v \<le> MAX_DELAY_LEVEL"
  using clamp_bounds by (cases v rule: clampDelay.cases) (simp_all add: MAX_DELAY_LEVEL_def)

lemma clamp_again:
  "0 \<le> n \<Longrightarrow> n \<le> MAX_DELAY_LEVEL \<Longrightarrow> clampNumber (JFin (of_int n)) = n"
  by (simp add: js_trunc_def)

lemma sanitizeDraft_clean: "sanitizeDraft v = Some d \<Longrightarrow> clean_draft d"
  by (cases v) (auto simp: clean_draft_def clampDelay_bounds split: option.splits)

lemma clean_drafts_put:
  assumes "clean_drafts ds" "clean_draft d"
  shows "clean_drafts (obj_put t d ds)"
  using assms set_put [of ds t d] keys_put [of t d ds]
  unfolding clean_drafts_def by (auto simp: wf_put)

lemma clean_drafts_read: "clean_drafts ds \<Longrightarrow> clean_drafts (foldl draftStep ds ms)"
  by (induction ms arbitrary: ds)
    (auto simp: draftStep_def clean_drafts_put sanitizeDraft_clean split: option.splits)

lemma clean_drafts_Nil [simp]: "clean_drafts []"
  by (simp add: clean_drafts_def)

lemma sanitizeDraftScope_clean: "sanitizeDraftScope v = Some sc \<Longrightarrow> clean_drafts (ds_drafts sc)"
  by (cases v) (auto simp: clean_drafts_read split: option.splits json.splits)

lemma clean_file_put:
  assumes "clean_file entries" "clean_drafts (ds_drafts sc)"
  shows "clean_file (obj_put k sc entries)"
  using assms set_put [of entries k sc] keys_put [of k sc entries]
  unfolding clean_file_def by (auto simp: wf_put)

lemma clean_file_read: "clean_file (readDrafts raw)"
proof -
  have "clean_file (foldl scopeStep entries ms)" if "clean_file entries" for ms entries
    using that
    by (induction ms arbitrary: entries)
      (auto simp: scopeStep_def clean_file_put sanitizeDraftScope_clean split: option.splits)
  moreover have "clean_file []" by (simp add: clean_file_def)
  ultimately show ?thesis by (auto simp: readDrafts_def split: stored.splits json.splits)
qed

text \<open>Each level reads back what it wrote.\<close>

lemma read_draft: "clean_draft d \<Longrightarrow> sanitizeDraft (draft_json d) = Some d"
  by (simp add: draft_json_def clean_draft_def clamp_again del: clampNumber.simps)

lemma read_drafts:
  "clean_drafts ds \<Longrightarrow> foldl draftStep [] (map (\<lambda>(t, d). (t, draft_json d)) ds) = ds"
proof (induction ds rule: rev_induct)
  case (snoc e ds)
  then have "clean_drafts ds" by (auto simp: clean_drafts_def dest: wf_obj_prefix)
  moreover have "clean_draft (snd e)" "fst e \<noteq> ''__proto__''" "wf_obj (ds @ [(fst e, snd e)])"
    using snoc.prems by (auto simp: clean_drafts_def split: prod.splits)
  ultimately show ?case using snoc.IH
    by (cases e) (simp add: draftStep_def read_draft obj_put_def define_last)
qed simp

lemma read_scope:
  "clean_drafts (ds_drafts sc) \<Longrightarrow> sanitizeDraftScope (draft_scope_json sc) = Some sc"
  by (simp add: draft_scope_json_def read_drafts)

lemma read_write_drafts:
  assumes "clean_file entries"
  shows "readDrafts (writeDrafts True entries old) = entries"
proof -
  have "foldl scopeStep [] (map (\<lambda>(k, sc). (k, draft_scope_json sc)) entries) = entries"
    using assms
  proof (induction entries rule: rev_induct)
    case (snoc e entries)
    then have "clean_file entries" by (auto simp: clean_file_def dest: wf_obj_prefix)
    moreover have "clean_drafts (ds_drafts (snd e))" "fst e \<noteq> ''__proto__''"
      "wf_obj (entries @ [(fst e, snd e)])"
      using snoc.prems by (auto simp: clean_file_def split: prod.splits)
    ultimately show ?case using snoc.IH
      by (cases e) (simp add: scopeStep_def read_scope obj_put_def define_last)
  qed simp
  then show ?thesis by (simp add: readDrafts_def writeDrafts_def)
qed

lemma drafts_refused [simp]: "writeDrafts False entries old = old"
  by (simp add: writeDrafts_def)

interpretation drafts: persisted readDrafts writeDrafts clean_file "\<lambda>entries. entries"
  by unfold_locales (simp_all add: clean_file_read read_write_drafts)

section \<open>A draft\<close>

lemma le_newest:
  "x \<le> newestSavedAt sc \<longleftrightarrow> x \<le> 0 \<or> (\<exists>e \<in> set (ds_drafts sc). x \<le> sd_savedAt (snd e))"
proof -
  have "x \<le> foldl (\<lambda>newest e. max newest (sd_savedAt (snd e))) n es \<longleftrightarrow>
        x \<le> n \<or> (\<exists>e \<in> set es. x \<le> sd_savedAt (snd e))" for n and es :: "(string \<times> stored_draft) list"
    by (induction es arbitrary: n) auto
  then show ?thesis by (simp add: newestSavedAt_def)
qed

lemma newest_trimScope:
  assumes "clean_drafts (ds_drafts sc)"
  shows "newestSavedAt (trimScope sc) = newestSavedAt sc"
proof (rule antisym)
  have wf: "wf_obj (ds_drafts sc)" using assms by (simp add: clean_drafts_def)
  show "newestSavedAt (trimScope sc) \<le> newestSavedAt sc"
    using trim_subset [OF wf] le_newest [of "newestSavedAt (trimScope sc)" "trimScope sc"]
    by (auto simp: le_newest trimScope_def)
  show "newestSavedAt sc \<le> newestSavedAt (trimScope sc)"
  proof (cases "newestSavedAt sc \<le> 0")
    case False
    then obtain e where e: "e \<in> set (ds_drafts sc)" "newestSavedAt sc \<le> sd_savedAt (snd e)"
      using le_newest [of "newestSavedAt sc" sc] by auto
    let ?trim = "obj_trim MAX_TOPICS_PER_SCOPE sd_savedAt (ds_drafts sc)"
    have "length ?trim \<noteq> 0"
      using e(1) trim_length_eq [OF wf, of MAX_TOPICS_PER_SCOPE sd_savedAt]
      by (cases "ds_drafts sc") (simp_all add: MAX_TOPICS_PER_SCOPE_def)
    then obtain d where d: "d \<in> set ?trim" by (cases ?trim) auto
    have "\<exists>d \<in> set ?trim. sd_savedAt (snd e) \<le> sd_savedAt (snd d)"
      using trim_drops_oldest [OF wf e(1) _ d] d by (cases "e \<in> set ?trim") auto
    then have "\<exists>d \<in> set (ds_drafts (trimScope sc)). newestSavedAt sc \<le> sd_savedAt (snd d)"
      using e(2) unfolding trimScope_def by (auto intro: order_trans)
    then show ?thesis by (simp only: le_newest simp_thms)
  qed (simp add: le_newest)
qed

lemma mapped_file:
  "map fst (map (\<lambda>(k, sc). (k, trimScope sc)) entries) = map fst entries"
  "map_of (map (\<lambda>(k, sc). (k, trimScope sc)) entries) = map_option trimScope \<circ> map_of entries"
  by (induction entries) (auto simp: fun_eq_iff)

lemma wf_mapped: "wf_obj (map (\<lambda>(k, sc). (k, trimScope sc)) entries) = wf_obj entries"
  by (rule wf_obj_keys) (rule mapped_file(1))

lemma clean_trimScope: "clean_drafts (ds_drafts sc) \<Longrightarrow> clean_drafts (ds_drafts (trimScope sc))"
  using trim_subset [of "ds_drafts sc" MAX_TOPICS_PER_SCOPE sd_savedAt]
  by (fastforce simp: clean_drafts_def trimScope_def trim_wf)

lemma clean_wf_file: "clean_file entries \<Longrightarrow> wf_obj entries"
  by (simp add: clean_file_def)

lemma clean_trimDrafts:
  assumes "clean_file entries"
  shows "clean_file (trimDrafts entries)"
proof -
  let ?m = "map (\<lambda>(k, sc). (k, trimScope sc)) entries"
  have "clean_file ?m"
    using assms by (auto simp: clean_file_def wf_mapped image_iff intro: clean_trimScope)
  then show ?thesis
    using trim_subset [of ?m MAX_DRAFT_SCOPES newestSavedAt]
    by (fastforce simp: clean_file_def trimDrafts_def trim_wf)
qed

lemma clean_lookup_drafts:
  "clean_file entries \<Longrightarrow> clean_drafts (ds_drafts (nullish (map_of entries k) NEW_DRAFT_SCOPE))"
  by (cases "map_of entries k") (auto simp: clean_file_def NEW_DRAFT_SCOPE_def dest: map_of_SomeD)

lemma clean_sentTo: "clean_drafts (ds_drafts sc) \<Longrightarrow> clean_drafts (ds_drafts (sentTo topic d now sc))"
  by (simp add: sentTo_def clean_drafts_put clean_draft_def kept_draft_def clamp_bounds)

lemma clean_saveIn: "clean_file entries \<Longrightarrow> clean_file (saveIn k topic d now entries)"
  unfolding saveIn_def
  by (intro clean_trimDrafts clean_file_put clean_sentTo clean_lookup_drafts)

lemma saved_file:
  "topic \<noteq> '''' \<Longrightarrow>
   readDrafts (snd (saveProducerDraft True now k topic d raw)) = saveIn k topic d now (readDrafts raw)"
  by (simp add: saveProducerDraft_def Let_def read_write_drafts clean_saveIn clean_file_read)

lemma saved_load:
  "topic \<noteq> '''' \<Longrightarrow> loadProducerScope k (snd (saveProducerDraft True now k topic d raw)) =
     fst (saveProducerDraft True now k topic d raw)"
  by (simp add: loadProducerScope_def saved_file) (simp add: saveProducerDraft_def Let_def)

lemma toScope_clean:
  assumes "clean_drafts ds"
  shows "foldl (\<lambda>ds (t, d). obj_put t (public_draft d) ds) [] ds = map (\<lambda>(t, d). (t, public_draft d)) ds"
  using assms
proof (induction ds rule: rev_induct)
  case (snoc e ds)
  let ?pub = "map (\<lambda>(t, d). (t, public_draft d))"
  have keys: "map fst (?pub xs) = map fst xs" for xs by (induction xs) auto
  from snoc.prems have "clean_drafts ds" by (auto simp: clean_drafts_def dest: wf_obj_prefix)
  moreover have "wf_obj (?pub (ds @ [e]))"
    using snoc.prems wf_obj_keys [OF keys [of "ds @ [e]"]] by (simp only: clean_drafts_def simp_thms)
  then have "wf_obj (?pub ds @ [(fst e, public_draft (snd e))])" by (cases e) simp
  moreover have "fst e \<noteq> ''__proto__''" using snoc.prems by (auto simp: clean_drafts_def)
  ultimately show ?case using snoc.IH by (cases e) (simp add: obj_put_def define_last)
qed simp

lemma toScope_lookup:
  assumes "clean_drafts (ds_drafts sc)"
  shows "map_of (pr_drafts (toScope (Some sc))) t = map_option public_draft (map_of (ds_drafts sc) t)"
proof -
  have "map_of (map (\<lambda>(t, d). (t, public_draft d)) ds) t = map_option public_draft (map_of ds t)" for ds
    by (induction ds) auto
  then show ?thesis by (simp add: toScope_def toScope_clean [OF assms])
qed

lemma own_draft_stays:
  assumes sc: "clean_drafts (ds_drafts sc)" and t: "t \<noteq> ''__proto__''" "length (pd_body d) \<le> MAX_BODY_BYTES"
    and few: "length (filter (\<lambda>e. fst e \<noteq> t \<and> of_int now \<le> sd_savedAt (snd e)) (ds_drafts sc)) < MAX_TOPICS_PER_SCOPE"
  shows "map_of (ds_drafts (trimScope (sentTo t d now sc))) t = Some (kept_draft now d)"
proof -
  let ?k = "kept_draft now d"
  let ?put = "obj_put t ?k (ds_drafts sc)"
  have wf0: "wf_obj (ds_drafts sc)" using sc by (simp add: clean_drafts_def)
  then have wf: "wf_obj ?put" by (rule wf_put)
  have mem: "(t, ?k) \<in> set ?put" using wf t by (simp add: wf_obj_entry map_of_put)
  have "set (filter (\<lambda>e. fst e \<noteq> t \<and> sd_savedAt ?k \<le> sd_savedAt (snd e)) ?put) \<subseteq>
        set (filter (\<lambda>e. fst e \<noteq> t \<and> of_int now \<le> sd_savedAt (snd e)) (ds_drafts sc))"
    using set_put [OF wf0, of t ?k] by (auto simp: kept_draft_def)
  then have "card (set (filter (\<lambda>e. fst e \<noteq> t \<and> sd_savedAt ?k \<le> sd_savedAt (snd e)) ?put)) \<le>
        card (set (filter (\<lambda>e. fst e \<noteq> t \<and> of_int now \<le> sd_savedAt (snd e)) (ds_drafts sc)))"
    by (intro card_mono) simp_all
  moreover have "card (set (filter P xs)) = length (filter P xs)"
    if "distinct xs" for P and xs :: "(string \<times> stored_draft) list"
    using that by (intro distinct_card) simp
  ultimately have "length (filter (\<lambda>e. fst e \<noteq> t \<and> sd_savedAt ?k \<le> sd_savedAt (snd e)) ?put) < MAX_TOPICS_PER_SCOPE"
    using few wf_obj_distinct [OF wf] wf_obj_distinct [OF wf0] by simp
  from trim_keeps [OF wf mem this] show ?thesis
    using t by (simp add: trimScope_def sentTo_def wf_obj_entry trim_wf wf)
qed

lemma stamp_counts:
  assumes "clean_file entries"
  shows "length (filter (\<lambda>e. P (fst e) (newestSavedAt (snd e)))
      (map (\<lambda>(j, sc). (j, trimScope sc)) entries)) =
    length (filter (\<lambda>e. P (fst e) (newestSavedAt (snd e))) entries)"
proof -
  have "newestSavedAt (trimScope sc) = newestSavedAt sc" if "(j, sc) \<in> set entries" for j sc
    using assms that by (auto simp: clean_file_def intro: newest_trimScope)
  then have "filter ((\<lambda>e. P (fst e) (newestSavedAt (snd e))) \<circ> (\<lambda>(j, sc). (j, trimScope sc))) entries =
      filter (\<lambda>e. P (fst e) (newestSavedAt (snd e))) entries"
    by (intro filter_cong) auto
  then show ?thesis by (simp add: filter_map)
qed

lemma own_scope_stays:
  assumes entries: "clean_file entries" and k: "k \<noteq> ''__proto__''" and sc: "clean_drafts (ds_drafts sc)"
    and stamp: "of_int now \<le> newestSavedAt (trimScope sc)"
    and few: "length (filter (\<lambda>e. fst e \<noteq> k \<and> of_int now \<le> newestSavedAt (snd e)) entries) < MAX_DRAFT_SCOPES"
  shows "map_of (trimDrafts (obj_put k sc entries)) k = Some (trimScope sc)"
proof -
  let ?put = "obj_put k sc entries"
  let ?m = "map (\<lambda>(j, sc). (j, trimScope sc)) ?put"
  have clean: "clean_file ?put" using entries sc by (rule clean_file_put)
  then have wf: "wf_obj ?m" by (simp add: wf_mapped clean_wf_file)
  have mem: "(k, trimScope sc) \<in> set ?m"
    using wf k by (simp only: wf_obj_entry) (simp add: mapped_file map_of_put)
  let ?P = "\<lambda>s e. fst e \<noteq> k \<and> s \<le> newestSavedAt (snd e)"
  let ?own = "newestSavedAt (trimScope sc)"
  have "set (filter (?P ?own) ?put) \<subseteq> set (filter (?P (of_int now)) entries)"
    using set_put [OF clean_wf_file [OF entries], of k sc] stamp by auto
  then have "card (set (filter (?P ?own) ?put)) \<le> card (set (filter (?P (of_int now)) entries))"
    by (intro card_mono) simp_all
  moreover have "card (set (filter P xs)) = length (filter P xs)"
    if "distinct xs" for P and xs :: drafts_file
    using that by (intro distinct_card) simp
  ultimately have "length (filter (?P ?own) ?put) < MAX_DRAFT_SCOPES"
    using few wf_obj_distinct [OF clean_wf_file [OF clean]] wf_obj_distinct [OF clean_wf_file [OF entries]]
    by simp
  then have "length (filter (?P ?own) ?m) < MAX_DRAFT_SCOPES" by (simp only: stamp_counts [OF clean, of "\<lambda>j t. j \<noteq> k \<and> ?own \<le> t"])
  from trim_keeps [OF wf mem this] show ?thesis
    by (simp add: trimDrafts_def wf_obj_entry trim_wf wf)
qed

section \<open>Properties\<close>

text \<open>What was sent is remembered: read back, the connection reopens on the topic and holds
  the message sent to it, its delay clamped to the levels there are. The conditions: the body is
  within the limit, and fewer topics of the connection, and fewer other connections, than are
  kept were saved at or after now.\<close>

theorem draft_is_remembered:
  assumes "topic \<noteq> ''''" "topic \<noteq> ''__proto__''" "scopeKey \<noteq> ''__proto__''"
    "length (pd_body d) \<le> MAX_BODY_BYTES"
    "length (filter (\<lambda>e. fst e \<noteq> topic \<and> of_int now \<le> sd_savedAt (snd e))
       (ds_drafts (nullish (map_of (readDrafts raw) scopeKey) NEW_DRAFT_SCOPE))) < MAX_TOPICS_PER_SCOPE"
    "length (filter (\<lambda>e. fst e \<noteq> scopeKey \<and> of_int now \<le> newestSavedAt (snd e)) (readDrafts raw))
       < MAX_DRAFT_SCOPES"
  shows "pr_lastTopic (loadProducerScope scopeKey (snd (saveProducerDraft True now scopeKey topic d raw))) = topic \<and>
     map_of (pr_drafts (loadProducerScope scopeKey (snd (saveProducerDraft True now scopeKey topic d raw)))) topic =
       Some (d\<lparr>pd_delay := JFin (of_int (clampNumber (pd_delay d)))\<rparr>)"
proof -
  let ?old = "nullish (map_of (readDrafts raw) scopeKey) NEW_DRAFT_SCOPE"
  let ?sc = "sentTo topic d now ?old"
  have old: "clean_drafts (ds_drafts ?old)" by (rule clean_lookup_drafts [OF clean_file_read])
  note own = own_draft_stays [OF old assms(2,4,5)]
  then have "(topic, kept_draft now d) \<in> set (ds_drafts (trimScope ?sc))" by (rule map_of_SomeD)
  then have "of_int now \<le> newestSavedAt (trimScope ?sc)"
    by (force simp: le_newest kept_draft_def)
  from own_scope_stays [OF clean_file_read assms(3) clean_sentTo [OF old] this assms(6)]
  have found: "map_of (saveIn scopeKey topic d now (readDrafts raw)) scopeKey = Some (trimScope ?sc)"
    by (simp add: saveIn_def)
  have "loadProducerScope scopeKey (snd (saveProducerDraft True now scopeKey topic d raw)) = toScope (Some (trimScope ?sc))"
    using assms(1) by (simp add: loadProducerScope_def saved_file found)
  moreover have "clean_drafts (ds_drafts (trimScope ?sc))"
    using old by (intro clean_trimScope clean_sentTo)
  ultimately show ?thesis
    using own by (simp add: toScope_lookup, simp add: toScope_def trimScope_def sentTo_def)
      (simp add: public_draft_def kept_draft_def)
qed

definition sample_draft :: producer_draft where
  "sample_draft = \<lparr>pd_tag = ''t'', pd_key = ''k'', pd_delay = JFin 99, pd_body = ''hello''\<rparr>"

lemma draft_is_remembered_witness:
  "map_of (pr_drafts (loadProducerScope ''7'' (snd (saveProducerDraft True 5 ''7'' ''orders'' sample_draft NoItem)))) ''orders'' =
     Some (sample_draft\<lparr>pd_delay := JFin 18\<rparr>)"
  using draft_is_remembered [of "''orders''" "''7''" sample_draft 5 NoItem]
  by (simp add: sample_draft_def MAX_BODY_BYTES_def readDrafts_def NEW_DRAFT_SCOPE_def
      MAX_TOPICS_PER_SCOPE_def MAX_DRAFT_SCOPES_def js_trunc_def MAX_DELAY_LEVEL_def)

text \<open>Clearing a topic forgets its message and nothing else: the topic to reopen on, every
  other draft of the connection and every other connection read back as before.\<close>

theorem draft_is_forgotten:
  assumes "map_of (readDrafts raw) scopeKey = Some sc"
  shows "map_of (pr_drafts (loadProducerScope scopeKey (snd (clearProducerDraft True scopeKey topic raw)))) t =
       (if t = topic then None else map_of (pr_drafts (loadProducerScope scopeKey raw)) t) \<and>
     pr_lastTopic (loadProducerScope scopeKey (snd (clearProducerDraft True scopeKey topic raw))) = ds_lastTopic sc \<and>
     (other = scopeKey \<or> loadProducerScope other (snd (clearProducerDraft True scopeKey topic raw)) =
        loadProducerScope other raw)"
proof (cases "topic \<notin> fst ` set (ds_drafts sc) \<and> topic \<notin> set INHERITED")
  case True
  have "clean_drafts (ds_drafts sc)"
    using clean_file_read [of raw] map_of_SomeD [OF assms] by (auto simp: clean_file_def)
  moreover have "map_of (ds_drafts sc) topic = None" using True by (simp add: map_of_eq_None_iff)
  ultimately have "map_of (pr_drafts (loadProducerScope scopeKey raw)) topic = None"
    by (simp add: loadProducerScope_def assms toScope_lookup)
  moreover have "clearProducerDraft True scopeKey topic raw = (toScope (Some sc), raw)"
    using True by (simp add: clearProducerDraft_def assms)
  ultimately show ?thesis by (simp add: loadProducerScope_def assms) (simp add: toScope_def)
next
  case False
  let ?cleared = "sc\<lparr>ds_drafts := obj_delete topic (ds_drafts sc)\<rparr>"
  let ?file = "AList.update scopeKey ?cleared (readDrafts raw)"
  have drafts: "clean_drafts (ds_drafts sc)"
    using clean_file_read [of raw] map_of_SomeD [OF assms] by (auto simp: clean_file_def)
  have cleared: "clean_drafts (ds_drafts ?cleared)"
    using drafts set_delete [of topic "ds_drafts sc"] by (auto simp: clean_drafts_def wf_delete)
  have member: "scopeKey \<in> fst ` set (readDrafts raw)" using map_of_SomeD [OF assms] by force
  moreover have "scopeKey \<noteq> ''__proto__''" using member clean_file_read [of raw] unfolding clean_file_def by metis
  ultimately have "?file = obj_put scopeKey ?cleared (readDrafts raw)" by (simp add: obj_put_def obj_define_def)
  then have "clean_file ?file" using clean_file_put [OF clean_file_read cleared, of scopeKey raw] by simp
  then have read: "readDrafts (snd (clearProducerDraft True scopeKey topic raw)) = ?file"
    using False assms by (auto simp: clearProducerDraft_def Let_def read_write_drafts)
  have "map_of (pr_drafts (loadProducerScope scopeKey raw)) t = map_option public_draft (map_of (ds_drafts sc) t)"
    by (simp add: loadProducerScope_def assms toScope_lookup [OF drafts])
  moreover have "loadProducerScope scopeKey (snd (clearProducerDraft True scopeKey topic raw)) = toScope (Some ?cleared)"
    unfolding loadProducerScope_def read by simp
  moreover have "pr_lastTopic (toScope (Some ?cleared)) = ds_lastTopic sc" by (simp add: toScope_def)
  moreover have "loadProducerScope other (snd (clearProducerDraft True scopeKey topic raw)) =
      loadProducerScope other raw" if "other \<noteq> scopeKey"
    unfolding loadProducerScope_def read using that by simp
  ultimately show ?thesis
    using toScope_lookup [OF cleared, of t] by (auto simp: map_of_delete)
qed

lemma draft_is_forgotten_witness:
  "pr_lastTopic (loadProducerScope ''7'' (snd (clearProducerDraft True ''7'' ''orders''
     (snd (saveProducerDraft True 5 ''7'' ''orders'' sample_draft NoItem))))) = ''orders''"
proof -
  let ?raw = "snd (saveProducerDraft True 5 ''7'' ''orders'' sample_draft NoItem)"
  have "readDrafts ?raw = saveIn ''7'' ''orders'' sample_draft 5 []"
    by (simp add: saved_file) (simp add: readDrafts_def)
  then have "map_of (readDrafts ?raw) ''7'' =
      Some (trimScope (sentTo ''orders'' sample_draft 5 NEW_DRAFT_SCOPE))"
    by (simp add: saveIn_def trimDrafts_def obj_trim_def MAX_DRAFT_SCOPES_def obj_put_def obj_define_def)
  from draft_is_forgotten [OF this, of "''orders''"] show ?thesis
    by (simp add: trimScope_def sentTo_def)
qed

text \<open>A message too large to keep can forget more than itself: with ten other connections
  remembered, sending one on a connection not yet remembered leaves that connection without
  even the topic to reopen on. It has no draft, so it counts as the oldest and is evicted.\<close>

theorem oversized_draft_evicts_itself:
  assumes "topic \<noteq> ''''" "scopeKey \<noteq> ''__proto__''" "MAX_BODY_BYTES < length (pd_body d)"
    "map_of (readDrafts raw) scopeKey = None"
    "MAX_DRAFT_SCOPES \<le> length (filter (\<lambda>e. 0 < newestSavedAt (snd e)) (readDrafts raw))"
  shows "loadProducerScope scopeKey (snd (saveProducerDraft writable now scopeKey topic d raw)) =
     \<lparr>pr_lastTopic = '''', pr_drafts = []\<rparr>"
proof (cases writable)
  case False
  then show ?thesis
    using assms by (simp add: saveProducerDraft_def Let_def loadProducerScope_def toScope_def)
next
  case True
  let ?sc = "sentTo topic d now NEW_DRAFT_SCOPE"
  let ?put = "obj_put scopeKey ?sc (readDrafts raw)"
  let ?m = "map (\<lambda>(j, sc). (j, trimScope sc)) ?put"
  have clean: "clean_file ?put"
    by (intro clean_file_put clean_file_read clean_sentTo) (simp add: NEW_DRAFT_SCOPE_def)
  then have wf: "wf_obj ?m" by (simp add: wf_mapped clean_wf_file)
  have zero: "newestSavedAt (trimScope ?sc) = 0"
    using assms(3) by (simp add: newest_trimScope sentTo_def NEW_DRAFT_SCOPE_def) (simp add: newestSavedAt_def)
  have "set (readDrafts raw) \<subseteq> set ?put"
    using assms(4) by (auto simp: obj_put_def wf_obj_entry wf_define clean_wf_file clean_file_read)
  then have "card (set (filter (\<lambda>e. 0 < newestSavedAt (snd e)) (readDrafts raw))) \<le>
      card (set (filter (\<lambda>e. 0 < newestSavedAt (snd e)) ?put))"
    by (intro card_mono) auto
  moreover have "card (set (filter P xs)) = length (filter P xs)"
    if "distinct xs" for P and xs :: drafts_file
    using that by (intro distinct_card) simp
  ultimately have "MAX_DRAFT_SCOPES \<le> length (filter (\<lambda>e. 0 < newestSavedAt (snd e)) ?put)"
    using assms(5) wf_obj_distinct [OF clean_wf_file [OF clean]]
      wf_obj_distinct [OF clean_wf_file [OF clean_file_read [of raw]]] by simp
  then have many: "MAX_DRAFT_SCOPES \<le> length (filter (\<lambda>e. newestSavedAt (trimScope ?sc) < newestSavedAt (snd e)) ?m)"
    by (simp only: zero stamp_counts [OF clean, of "\<lambda>j t. 0 < t"])
  have mem: "(scopeKey, trimScope ?sc) \<in> set ?m"
    using wf assms(2) by (simp only: wf_obj_entry) (simp add: mapped_file map_of_put)
  let ?trim = "obj_trim MAX_DRAFT_SCOPES newestSavedAt ?m"
  have "map_of ?trim scopeKey = None"
  proof (rule ccontr)
    assume "map_of ?trim scopeKey \<noteq> None"
    then obtain sc where sc: "(scopeKey, sc) \<in> set ?trim" by (auto dest: map_of_SomeD)
    then have "(scopeKey, sc) \<in> set ?m" using trim_subset [OF wf] by blast
    then have "sc = trimScope ?sc" using mem by (simp only: wf_obj_entry [OF wf] option.inject)
    with sc trim_evicts [OF wf mem many] show False by simp
  qed
  then show ?thesis
    using True assms(1,4)
    by (simp add: loadProducerScope_def saved_file saveIn_def trimDrafts_def) (simp add: toScope_def)
qed

definition sample_full :: drafts_file where
  "sample_full =
     map (\<lambda>i. (show_nat i, \<lparr>ds_lastTopic = ''t'', ds_drafts = [(''t'', kept_draft 1 sample_draft)]\<rparr>)) [0..<10]"

lemma index_show_nat: "i < 10 \<Longrightarrow> is_index_key (show_nat i)"
  by (auto simp: is_index_key_def list_all_iff dest: show_nat_digits)

lemma not_a_number: "\<not> is_digit (hd k) \<Longrightarrow> k \<noteq> show_nat i"
  using show_nat_hd by auto

lemma sample_full_clean: "clean_file sample_full"
  unfolding clean_file_def
proof (intro conjI)
  have keys: "map fst sample_full = map show_nat [0..<10]" by (simp add: sample_full_def comp_def)
  have "sorted_wrt (<) [0..<10 :: nat]" by simp
  then have "sorted_wrt (\<lambda>i j. is_index_key (show_nat j) \<longrightarrow>
      is_index_key (show_nat i) \<and> digits_val (show_nat i) < digits_val (show_nat j)) [0..<10]"
    by (rule sorted_wrt_mono_rel [rotated]) (auto simp: index_show_nat)
  then show "wf_obj sample_full"
    unfolding wf_obj_def keys by (simp add: sorted_wrt_map distinct_map inj_on_def show_nat_inj)
  have "''__proto__'' \<notin> set (map show_nat [0..<10])"
    by (simp add: image_iff not_a_number is_digit_def)
  then show "''__proto__'' \<notin> fst ` set sample_full" unfolding keys [symmetric] by simp
  have "clean_drafts [(''t'', kept_draft 1 sample_draft)]"
    using clean_drafts_put [OF clean_drafts_Nil, of "kept_draft 1 sample_draft" "''t''"]
    by (simp add: obj_put_def obj_define_def clean_draft_def kept_draft_def clamp_bounds is_index_key_def
        is_digit_def)
  then show "\<forall>(k, sc) \<in> set sample_full. clean_drafts (ds_drafts sc)"
    by (auto simp: sample_full_def)
qed

lemma oversized_draft_evicts_itself_witness:
  "loadProducerScope ''x'' (snd (saveProducerDraft True 5 ''x'' ''orders''
     (sample_draft\<lparr>pd_body := replicate (MAX_BODY_BYTES + 1) (CHR ''a'')\<rparr>)
     (writeDrafts True sample_full NoItem))) = \<lparr>pr_lastTopic = '''', pr_drafts = []\<rparr>"
proof (rule oversized_draft_evicts_itself)
  have read: "readDrafts (writeDrafts True sample_full NoItem) = sample_full"
    by (rule read_write_drafts [OF sample_full_clean])
  show "map_of (readDrafts (writeDrafts True sample_full NoItem)) ''x'' = None"
    unfolding read
    by (simp add: map_of_eq_None_iff sample_full_def image_iff not_a_number is_digit_def)
  show "MAX_DRAFT_SCOPES \<le> length (filter (\<lambda>e. 0 < newestSavedAt (snd e))
      (readDrafts (writeDrafts True sample_full NoItem)))"
    unfolding read
    by (simp add: sample_full_def upt_rec newestSavedAt_def kept_draft_def MAX_DRAFT_SCOPES_def)
qed simp_all

end
