(* ===== verification/ConnProfile.thy ===== *)
theory ConnProfile
  imports Canonical "HOL-Library.Char_ord" "HOL-Library.List_Lexorder"
begin

text \<open>
  One saved connection and the form submission that edits it: the Go structs of
  internal/model/profile.go and internal/bridge/connection.go, the secret map's operations,
  the credentials mode the bridge applies before a submission is stored, and the checks and
  the credential replacement of internal/service/connection (validation.go, mutation.go).

  A Go \<open>map[string]string\<close> is its list of entries; \<open>nil\<close> and the empty map are both the
  empty list. The one test that tells them apart, on the options of an update, always sees
  a map here: \<open>ConnectionDraft.options\<close> is never null. Every statement about a map is about
  its lookups (\<open>map_of\<close>), so the order of the entries never matters. Strings are the UTF-8
  bytes, as in the prelude.
\<close>

section \<open>Profiles, views and submissions\<close>

datatype auth_mechanism =
    AuthZero | AuthNone | AuthACL | AuthPlain | AuthSASLPlain | AuthSASLScram
  | AuthToken | AuthMutualTLS | AuthNKey | AuthCreds

datatype connection_status = StatusZero | StatusOnline | StatusOffline

type_synonym strmap = "(string \<times> string) list"

record profile =
  cp_id :: int
  cp_name :: string
  cp_group :: string
  cp_kind :: mq_kind
  cp_endpoints :: string
  cp_timeoutSec :: int
  cp_mechanism :: auth_mechanism
  cp_status :: connection_status
  cp_lastCheck :: string
  cp_isDefault :: bool
  cp_remark :: string
  cp_options :: strmap
  cp_secrets :: strmap

text \<open>What leaves the Go process: the names of the secrets that hold a value, never a value.\<close>

record connection_view =
  cv_id :: int
  cv_name :: string
  cv_group :: string
  cv_kind :: mq_kind
  cv_endpoints :: string
  cv_timeoutSec :: int
  cv_authMechanism :: auth_mechanism
  cv_options :: strmap
  cv_secretsConfigured :: "string list"
  cv_status :: connection_status
  cv_lastCheck :: string
  cv_isDefault :: bool
  cv_remark :: string

text \<open>\<open>ConnectionDraft\<close> of api/connection.ts: a submission before the secrets policy.\<close>

record connection_draft =
  cd_name :: string
  cd_group :: string
  cd_kind :: mq_kind
  cd_endpoints :: string
  cd_timeoutSec :: int
  cd_authMechanism :: auth_mechanism
  cd_options :: strmap
  cd_secrets :: strmap
  cd_remark :: string

record connection_input = connection_draft +
  ci_credentialsMode :: string

definition toInput :: "connection_draft \<Rightarrow> string \<Rightarrow> connection_input" where
  "toInput d mode =
     \<lparr>cd_name = cd_name d, cd_group = cd_group d, cd_kind = cd_kind d,
      cd_endpoints = cd_endpoints d, cd_timeoutSec = cd_timeoutSec d,
      cd_authMechanism = cd_authMechanism d, cd_options = cd_options d,
      cd_secrets = cd_secrets d, cd_remark = cd_remark d, ci_credentialsMode = mode\<rparr>"

section \<open>Secrets\<close>

definition secretAccessKey :: string where "secretAccessKey = ''accessKey''"

definition secretSecretKey :: string where "secretSecretKey = ''secretKey''"

lemma secret_keys_distinct [simp]:
  "secretAccessKey \<noteq> secretSecretKey" "secretSecretKey \<noteq> secretAccessKey"
  by (simp_all add: secretAccessKey_def secretSecretKey_def)

definition lookup_str :: "strmap \<Rightarrow> string \<Rightarrow> string" where
  "lookup_str m k = nullish (map_of m k) ''''"

definition Secret :: "profile \<Rightarrow> string \<Rightarrow> string" where
  "Secret p k = lookup_str (cp_secrets p) k"

definition set_secret :: "string \<Rightarrow> string \<Rightarrow> strmap \<Rightarrow> strmap" where
  "set_secret k v m = (if v = '''' then AList.delete k m else AList.update k v m)"

definition SetSecret :: "string \<Rightarrow> string \<Rightarrow> profile \<Rightarrow> profile" where
  "SetSecret k v p = p\<lparr>cp_secrets := set_secret k v (cp_secrets p)\<rparr>"

definition configured_secrets :: "strmap \<Rightarrow> string list" where
  "configured_secrets m = sort (map fst (filter (\<lambda>(k, v). v \<noteq> '''') m))"

definition ConfiguredSecrets :: "profile \<Rightarrow> string list" where
  "ConfiguredSecrets p = configured_secrets (cp_secrets p)"

definition ACLEnabled :: "profile \<Rightarrow> bool" where
  "ACLEnabled p \<longleftrightarrow> cp_mechanism p = AuthACL"

definition SetACL :: "bool \<Rightarrow> string \<Rightarrow> string \<Rightarrow> profile \<Rightarrow> profile" where
  "SetACL enabled accessKey secretKey p =
     (if \<not> enabled
      then SetSecret secretSecretKey '''' (SetSecret secretAccessKey '''' (p\<lparr>cp_mechanism := AuthNone\<rparr>))
      else SetSecret secretSecretKey secretKey
             (SetSecret secretAccessKey accessKey (p\<lparr>cp_mechanism := AuthACL\<rparr>)))"

text \<open>A secret map as the store keeps it: one entry per key, none of them blank.\<close>

definition wf_secrets :: "strmap \<Rightarrow> bool" where
  "wf_secrets m \<longleftrightarrow> distinct (map fst m) \<and> (\<forall>(k, v) \<in> set m. v \<noteq> '''')"

lemma wf_secrets_Nil [simp]: "wf_secrets []"
  by (simp add: wf_secrets_def)

lemma map_of_set_secret [simp]:
  "map_of (set_secret k v m) = (map_of m)(k := if v = '''' then None else Some v)"
  by (auto simp: set_secret_def delete_conv')

lemma set_delete_subset: "set (AList.delete k m) \<subseteq> set m"
  by (auto simp: AList.delete_eq)

lemma wf_set_secret [simp]: "wf_secrets m \<Longrightarrow> wf_secrets (set_secret k v m)"
  unfolding wf_secrets_def set_secret_def
  using set_delete_subset [of k m]
  by (auto simp: distinct_delete distinct_update in_update_cases)

lemma wf_secrets_lookup: "wf_secrets m \<Longrightarrow> map_of m k = Some v \<Longrightarrow> v \<noteq> ''''"
  by (auto simp: wf_secrets_def dest!: map_of_SomeD)

lemma lookup_str_blank: "wf_secrets m \<Longrightarrow> lookup_str m k = '''' \<longleftrightarrow> map_of m k = None"
  by (cases "map_of m k") (auto simp: lookup_str_def dest: wf_secrets_lookup)

lemma lookup_str_map_of: "wf_secrets m \<Longrightarrow> lookup_str m k \<noteq> '''' \<Longrightarrow> map_of m k = Some (lookup_str m k)"
  by (cases "map_of m k") (auto simp: lookup_str_def)

lemma configured_wf: "wf_secrets m \<Longrightarrow> configured_secrets m = [] \<longleftrightarrow> m = []"
  by (cases m) (auto simp: configured_secrets_def wf_secrets_def)

lemma configured_keys: "wf_secrets m \<Longrightarrow> set (configured_secrets m) = dom (map_of m)"
  by (auto simp: configured_secrets_def wf_secrets_def dom_map_of_conv_image_fst image_iff)

lemma configured_blind:
  assumes "map_of m = map_of n" "wf_secrets m" "wf_secrets n"
  shows "configured_secrets m = configured_secrets n"
proof (rule sorted_distinct_set_unique)
  show "set (configured_secrets m) = set (configured_secrets n)"
    using assms by (simp add: configured_keys)
qed (use assms(2,3) in \<open>auto simp: configured_secrets_def wf_secrets_def
       intro: distinct_map_filter\<close>)

section \<open>Submissions at the bridge\<close>

datatype conn_error =
    NameEmpty | AddressEmpty | TimeoutRange | AccessKeyRequired | SecretKeyRequired
  | NotFound int | InvalidCredentialsMode | SaveFailed | OptionKeyRequired
  | DefaultNotDeletable | DialFailed | DecodeFailed

definition fill_secrets :: "strmap \<Rightarrow> strmap" where
  "fill_secrets secrets = foldl (\<lambda>m (k, v). set_secret k v m) [] secrets"

definition input_profile :: "'a connection_draft_scheme \<Rightarrow> profile" where
  "input_profile input =
     \<lparr>cp_id = 0, cp_name = cd_name input, cp_group = cd_group input, cp_kind = cd_kind input,
      cp_endpoints = cd_endpoints input, cp_timeoutSec = cd_timeoutSec input,
      cp_mechanism = cd_authMechanism input, cp_status = StatusZero, cp_lastCheck = '''',
      cp_isDefault = False, cp_remark = cd_remark input, cp_options = cd_options input,
      cp_secrets = fill_secrets (cd_secrets input)\<rparr>"

definition redactConnection :: "profile \<Rightarrow> connection_view" where
  "redactConnection p =
     \<lparr>cv_id = cp_id p, cv_name = cp_name p, cv_group = cp_group p, cv_kind = cp_kind p,
      cv_endpoints = cp_endpoints p, cv_timeoutSec = cp_timeoutSec p,
      cv_authMechanism = cp_mechanism p, cv_options = cp_options p,
      cv_secretsConfigured = ConfiguredSecrets p, cv_status = cp_status p,
      cv_lastCheck = cp_lastCheck p, cv_isDefault = cp_isDefault p, cv_remark = cp_remark p\<rparr>"

text \<open>The loop of the preserve branch: every stored secret the submission left blank.\<close>

definition keep_stored :: "strmap \<Rightarrow> strmap \<Rightarrow> strmap" where
  "keep_stored stored typed =
     foldl (\<lambda>m (k, v). if lookup_str m k = '''' then set_secret k v m else m) typed stored"

definition applyCredentialsMode ::
    "(int \<Rightarrow> profile option) \<Rightarrow> int \<Rightarrow> profile \<Rightarrow> string \<Rightarrow> conn_error + profile" where
  "applyCredentialsMode current i p mode =
     (if mode = ''preserve'' \<or> mode = '''' then
        (if i = 0 then Inr p
         else (case current i of
            None \<Rightarrow> Inl (NotFound i)
          | Some c \<Rightarrow> Inr (p\<lparr>cp_secrets := keep_stored (cp_secrets c) (cp_secrets p)\<rparr>)))
      else if mode = ''clear'' then Inr (p\<lparr>cp_secrets := [], cp_mechanism := AuthNone\<rparr>)
      else if mode = ''replace'' then Inr p
      else Inl InvalidCredentialsMode)"

lemma fill_secrets_aux:
  "wf_secrets m \<Longrightarrow> distinct (map fst secrets) \<Longrightarrow>
   wf_secrets (foldl (\<lambda>m (k, v). set_secret k v m) m secrets) \<and>
   map_of (foldl (\<lambda>m (k, v). set_secret k v m) m secrets) k =
     (case map_of secrets k of None \<Rightarrow> map_of m k | Some v \<Rightarrow> if v = '''' then None else Some v)"
proof (induction secrets arbitrary: m)
  case (Cons e es)
  obtain a v where e: "e = (a, v)" by (cases e)
  have "k = a \<Longrightarrow> map_of es k = None"
    using Cons.prems(2) e by (auto simp: map_of_eq_None_iff)
  with Cons.IH [of "set_secret a v m"] Cons.prems e show ?case
    by (auto split: option.splits)
qed simp

lemma wf_fill_secrets [simp]: "distinct (map fst secrets) \<Longrightarrow> wf_secrets (fill_secrets secrets)"
  unfolding fill_secrets_def using fill_secrets_aux [of "[]"] by simp

lemma map_of_fill_secrets:
  "distinct (map fst secrets) \<Longrightarrow>
   map_of (fill_secrets secrets) k = (case map_of secrets k of None \<Rightarrow> None
      | Some v \<Rightarrow> if v = '''' then None else Some v)"
  unfolding fill_secrets_def using fill_secrets_aux [of "[]" secrets k]
  by (simp split: option.split)

text \<open>What preserving does: a typed secret wins, every other stored one is kept.\<close>

lemma keep_stored_aux:
  "wf_secrets typed \<Longrightarrow> wf_secrets stored \<Longrightarrow>
   wf_secrets (keep_stored stored typed) \<and>
   map_of (keep_stored stored typed) = map_of stored ++ map_of typed"
proof (induction stored arbitrary: typed)
  case Nil
  then show ?case by (simp add: keep_stored_def)
next
  case (Cons e es)
  obtain a v where e: "e = (a, v)" by (cases e)
  from Cons.prems e have v: "v \<noteq> ''''" and a: "map_of es a = None" and es: "wf_secrets es"
    by (auto simp: wf_secrets_def map_of_eq_None_iff)
  have step: "keep_stored (e # es) typed =
      keep_stored es (if lookup_str typed a = '''' then set_secret a v typed else typed)"
    by (simp add: keep_stored_def e)
  have blank: "lookup_str typed a = '''' \<longleftrightarrow> map_of typed a = None"
    by (rule lookup_str_blank) (rule Cons.prems(1))
  show ?case
  proof (cases "map_of typed a")
    case None
    with Cons.IH [of "set_secret a v typed"] Cons.prems es v a e step blank
    show ?thesis by (auto simp: fun_eq_iff map_add_def split: option.splits)
  next
    case (Some w)
    with Cons.IH [of typed] Cons.prems es e step blank
    show ?thesis by (auto simp: fun_eq_iff map_add_def split: option.splits)
  qed
qed

lemmas wf_keep_stored [simp] = keep_stored_aux [THEN conjunct1]
lemmas map_of_keep_stored = keep_stored_aux [THEN conjunct2]

lemma keep_stored_none_typed:
  "wf_secrets stored \<Longrightarrow> map_of (keep_stored stored []) = map_of stored"
  by (simp add: map_of_keep_stored)

section \<open>Checks of a submission\<close>

definition hasEndpoint :: "string \<Rightarrow> bool" where
  "hasEndpoint raw \<longleftrightarrow>
     list_ex (\<lambda>c. c \<notin> set [CHR '';'', CHR '','', CHR '' '', CHR 0x09, CHR 0x0D, CHR 0x0A]) raw"

definition normalizeConnectionGroup :: "string \<Rightarrow> string" where
  "normalizeConnectionGroup g = js_join '' '' (go_fields g)"

definition normalizeACLConfig :: "bool \<Rightarrow> string \<Rightarrow> string \<Rightarrow> conn_error + (bool \<times> string \<times> string)" where
  "normalizeACLConfig enableACL accessKey secretKey =
     (let a = go_trim accessKey; s = go_trim secretKey in
      if \<not> enableACL then Inr (False, '''', '''')
      else if a = '''' then Inl AccessKeyRequired
      else if s = '''' then Inl SecretKeyRequired
      else Inr (True, a, s))"

text \<open>\<open>needs\<close> is the injected \<open>EndpointPolicy\<close>: whether the family has an address at all.\<close>

definition validateConnectionFields ::
    "(mq_kind \<Rightarrow> bool) \<Rightarrow> mq_kind \<Rightarrow> string \<Rightarrow> string \<Rightarrow> int \<Rightarrow> conn_error + (string \<times> string)" where
  "validateConnectionFields needs kind name endpoints timeoutSec =
     (let n = go_trim name; e = go_trim endpoints in
      if n = '''' then Inl NameEmpty
      else if needs kind \<and> \<not> hasEndpoint e then Inl AddressEmpty
      else if timeoutSec < 0 \<or> timeoutSec > 300 then Inl TimeoutRange
      else Inr (n, e))"

section \<open>Storing a submission\<close>

text \<open>
  \<open>applyCredentials\<close> replaces the stored credentials by what the submission carries: the
  access key pair only through \<open>SetACL\<close>, everything else as it came. It is the whole of what
  the submission says about credentials, so a key it does not carry is gone.
\<close>

definition other_secrets :: "strmap \<Rightarrow> strmap" where
  "other_secrets m =
     foldl (\<lambda>acc (k, v). if k = secretAccessKey \<or> k = secretSecretKey then acc
                        else set_secret k v acc) [] m"

definition applyCredentials ::
    "profile \<Rightarrow> profile \<Rightarrow> bool \<Rightarrow> string \<Rightarrow> string \<Rightarrow> profile" where
  "applyCredentials connection input enableACL accessKey secretKey =
     (let c = SetACL enableACL accessKey secretKey
                (connection\<lparr>cp_secrets := other_secrets (cp_secrets input)\<rparr>)
      in if \<not> enableACL \<and> cp_mechanism input \<noteq> AuthZero
         then c\<lparr>cp_mechanism := cp_mechanism input\<rparr> else c)"

text \<open>\<open>maps.Equal\<close>\<close>

definition maps_equal :: "strmap \<Rightarrow> strmap \<Rightarrow> bool" where
  "maps_equal a b \<longleftrightarrow> list_all (\<lambda>k. map_of a k = map_of b k) (map fst a @ map fst b)"

lemma maps_equal_iff: "maps_equal a b \<longleftrightarrow> map_of a = map_of b"
proof
  assume eq: "maps_equal a b"
  show "map_of a = map_of b"
  proof
    fix k
    show "map_of a k = map_of b k"
    proof (cases "k \<in> fst ` set a \<or> k \<in> fst ` set b")
      case True
      with eq show ?thesis by (auto simp: maps_equal_def list_all_iff)
    next
      case False
      then have "map_of a k = None" "map_of b k = None" by (auto simp: map_of_eq_None_iff)
      then show ?thesis by simp
    qed
  qed
qed (simp add: maps_equal_def list_all_iff)

definition dialParametersChanged :: "profile \<Rightarrow> profile \<Rightarrow> bool" where
  "dialParametersChanged previous current \<longleftrightarrow>
     cp_kind previous \<noteq> cp_kind current \<or> cp_endpoints previous \<noteq> cp_endpoints current \<or>
     cp_timeoutSec previous \<noteq> cp_timeoutSec current \<or>
     cp_mechanism previous \<noteq> cp_mechanism current \<or>
     \<not> maps_equal (cp_options previous) (cp_options current) \<or>
     \<not> maps_equal (cp_secrets previous) (cp_secrets current)"

definition Repointed :: "profile \<Rightarrow> profile \<Rightarrow> bool" where
  "Repointed previous current =
     dialParametersChanged previous (current\<lparr>cp_timeoutSec := cp_timeoutSec previous\<rparr>)"

lemma wf_other_secrets_aux:
  "wf_secrets acc \<Longrightarrow> distinct (map fst m) \<Longrightarrow>
   wf_secrets (foldl (\<lambda>acc (k, v). if k = secretAccessKey \<or> k = secretSecretKey then acc
                        else set_secret k v acc) acc m) \<and>
   map_of (foldl (\<lambda>acc (k, v). if k = secretAccessKey \<or> k = secretSecretKey then acc
                        else set_secret k v acc) acc m) k =
     (if k = secretAccessKey \<or> k = secretSecretKey then map_of acc k
      else case map_of m k of None \<Rightarrow> map_of acc k | Some v \<Rightarrow> if v = '''' then None else Some v)"
proof (induction m arbitrary: acc)
  case (Cons e es)
  obtain a v where e: "e = (a, v)" by (cases e)
  have "k = a \<Longrightarrow> map_of es k = None"
    using Cons.prems(2) e by (auto simp: map_of_eq_None_iff)
  with Cons.IH [of "if a = secretAccessKey \<or> a = secretSecretKey then acc else set_secret a v acc"]
    Cons.prems e
  show ?case by (auto split: option.splits if_splits)
qed simp

lemma wf_other_secrets [simp]: "distinct (map fst m) \<Longrightarrow> wf_secrets (other_secrets m)"
  unfolding other_secrets_def using wf_other_secrets_aux [of "[]" m] by simp

lemma map_of_other_secrets:
  "wf_secrets m \<Longrightarrow> map_of (other_secrets m) k =
     (if k = secretAccessKey \<or> k = secretSecretKey then None else map_of m k)"
  unfolding other_secrets_def using wf_other_secrets_aux [of "[]" m k] wf_secrets_lookup [of m k]
  by (auto simp: wf_secrets_def split: option.splits)

text \<open>The secrets a stored submission ends up with, key by key.\<close>

lemma applyCredentials_secrets:
  assumes "wf_secrets (cp_secrets input)"
  shows "map_of (cp_secrets (applyCredentials c input enableACL a s)) k =
     (if k = secretAccessKey then (if enableACL \<and> a \<noteq> '''' then Some a else None)
      else if k = secretSecretKey then (if enableACL \<and> s \<noteq> '''' then Some s else None)
      else map_of (cp_secrets input) k)"
  using assms
  by (simp add: applyCredentials_def Let_def SetACL_def SetSecret_def map_of_other_secrets)

lemma wf_applyCredentials [simp]:
  "wf_secrets (cp_secrets input) \<Longrightarrow> wf_secrets (cp_secrets (applyCredentials c input enableACL a s))"
  by (simp add: applyCredentials_def Let_def SetACL_def SetSecret_def wf_secrets_def [of "cp_secrets input"])

lemma applyCredentials_mechanism:
  "cp_mechanism (applyCredentials c input enableACL a s) =
     (if enableACL then AuthACL else if cp_mechanism input = AuthZero then AuthNone
      else cp_mechanism input)"
  by (simp add: applyCredentials_def Let_def SetACL_def SetSecret_def)

lemma applyCredentials_frame [simp]:
  "cp_id (applyCredentials c input e a s) = cp_id c"
  "cp_name (applyCredentials c input e a s) = cp_name c"
  "cp_group (applyCredentials c input e a s) = cp_group c"
  "cp_kind (applyCredentials c input e a s) = cp_kind c"
  "cp_endpoints (applyCredentials c input e a s) = cp_endpoints c"
  "cp_timeoutSec (applyCredentials c input e a s) = cp_timeoutSec c"
  "cp_status (applyCredentials c input e a s) = cp_status c"
  "cp_lastCheck (applyCredentials c input e a s) = cp_lastCheck c"
  "cp_isDefault (applyCredentials c input e a s) = cp_isDefault c"
  "cp_remark (applyCredentials c input e a s) = cp_remark c"
  "cp_options (applyCredentials c input e a s) = cp_options c"
  by (simp_all add: applyCredentials_def Let_def SetACL_def SetSecret_def)

end
