(* ===== verification/DraftBase.thy ===== *)
theory DraftBase
  imports ConnProfile
begin

text \<open>
  What the fifteen connection forms share (design/boards/connections/connectionDraft.ts and
  the draft interfaces of ConnectionForms.tsx): the fields every draft has, the submission a
  form is translated into, and the contract between a form and the store, \<open>draft_family\<close>.

  A numeric field is an \<open>int\<close>: the inputs of the forms write whole numbers only.
\<close>

section \<open>Trimming twice\<close>

lemma strip_words_prefix_id:
  assumes "prefix r (strip_words ws s)"
  shows "strip_words ws r = r"
proof -
  have "find (\<lambda>w. w \<noteq> [] \<and> prefix w r) ws = None"
    using strip_words_no_prefix [of _ ws s] prefix_order.trans [OF _ assms]
    by (auto simp: find_None_iff)
  then show ?thesis by (simp add: strip_words.simps [of ws r])
qed

lemma trim_both_idem:
  fixes trim :: "string \<Rightarrow> string"
  assumes trim: "\<And>s. trim s = rev (strip_words ws' (rev (strip_words ws s)))"
  shows "trim (trim s) = trim s"
proof -
  have "suffix (strip_words ws' (rev (strip_words ws s))) (rev (strip_words ws s))"
    by (rule strip_words_suffix)
  then have "prefix (trim s) (strip_words ws s)"
    by (metis rev_rev_ident suffix_to_prefix trim)
  then have "strip_words ws (trim s) = trim s" by (rule strip_words_prefix_id)
  moreover have "strip_words ws' (rev (trim s)) = rev (trim s)"
    by (simp add: trim strip_words_idem)
  ultimately show ?thesis by (simp add: trim [of "trim s"])
qed

lemma js_trim_idem [simp]: "js_trim (js_trim s) = js_trim s"
  by (rule trim_both_idem) (simp add: js_trim_def js_trim_end_def js_trim_start_def)

lemma go_trim_idem [simp]: "go_trim (go_trim s) = go_trim s"
  by (rule trim_both_idem) (simp add: go_trim_def)

lemma js_trim_Nil [simp]: "js_trim '''' = ''''"
  using length_js_trim [of "''''"] by simp

lemma parse_int10_show_int [simp]: "parse_int10 (show_int i) = Some i"
proof (cases "i < 0")
  case True
  have "js_trim_start (CHR ''-'' # show_nat n) = CHR ''-'' # show_nat n" for n
    by (simp add: js_trim_start_def strip_words.simps js_whitespace_def)
  with True show ?thesis by (simp add: show_int_def parse_int10_def Let_def)
next
  case False
  then show ?thesis by (simp add: show_int_def)
qed

section \<open>Fields every form has\<close>

record form_base =
  df_name :: string
  df_group :: string
  df_remark :: string
  df_timeoutSec :: int

record credential_form = form_base +
  df_credentialsStored :: bool
  df_clearCredentials :: bool

definition DEFAULT_TIMEOUT_SEC :: int where "DEFAULT_TIMEOUT_SEC = 5"

record submission =
  sub_draft :: connection_draft
  sub_mode :: string

definition keepStored :: "'a credential_form_scheme \<Rightarrow> bool" where
  "keepStored d \<longleftrightarrow> df_credentialsStored d \<and> \<not> df_clearCredentials d"

text \<open>\<open>String(b)\<close>\<close>

definition js_bool :: "bool \<Rightarrow> string" where
  "js_bool b = (if b then ''true'' else ''false'')"

lemma js_bool_simps [simp]:
  "js_bool b = ''true'' \<longleftrightarrow> b" "js_bool b = ''false'' \<longleftrightarrow> \<not> b" "js_bool b \<noteq> ''''"
  by (simp_all add: js_bool_def)

text \<open>The three ways a form answers for its blank secrets.\<close>

definition mode_preserving :: "bool \<Rightarrow> bool \<Rightarrow> string" where
  "mode_preserving clear keep =
     (if clear then ''clear'' else if keep then ''preserve'' else ''replace'')"

definition mode_replacing :: "bool \<Rightarrow> bool \<Rightarrow> bool \<Rightarrow> string" where
  "mode_replacing clear typed keep =
     (if clear then ''clear'' else if typed \<or> \<not> keep then ''replace'' else ''preserve'')"

text \<open>\<open>profile.options?.[key]\<close>, and the same with \<open>=== "true"\<close>\<close>

definition opt :: "connection_view \<Rightarrow> string \<Rightarrow> string option" where
  "opt v k = map_of (cv_options v) k"

definition opt_true :: "connection_view \<Rightarrow> string \<Rightarrow> bool" where
  "opt_true v k \<longleftrightarrow> opt v k = Some ''true''"

definition opt_str :: "connection_view \<Rightarrow> string \<Rightarrow> string" where
  "opt_str v k = nullish (opt v k) ''''"

definition numberOption :: "string option \<Rightarrow> int \<Rightarrow> int" where
  "numberOption raw fallback = nullish (parse_int10 (nullish raw '''')) fallback"

definition secrets_stored :: "connection_view \<Rightarrow> bool" where
  "secrets_stored v \<longleftrightarrow> cv_secretsConfigured v \<noteq> []"

named_theorems option_names "the option keys of the forms"
named_theorems draft_defs "definitions to unfold when one form's translation is inspected"

lemmas [draft_defs] = opt_def opt_true_def opt_str_def numberOption_def secrets_stored_def
  mode_preserving_def mode_replacing_def keepStored_def

section \<open>The contract between a form and the store\<close>

text \<open>What the store shows of a profile that was saved from a submission.\<close>

definition view_matches :: "connection_view \<Rightarrow> submission \<Rightarrow> bool" where
  "view_matches v s \<longleftrightarrow> cv_kind v = cd_kind (sub_draft s) \<and>
     cv_endpoints v = cd_endpoints (sub_draft s) \<and> cv_timeoutSec v = cd_timeoutSec (sub_draft s) \<and>
     cv_authMechanism v = cd_authMechanism (sub_draft s) \<and> cv_options v = cd_options (sub_draft s)"

definition typed_any :: "submission \<Rightarrow> bool" where
  "typed_any s \<longleftrightarrow> list_ex (\<lambda>(k, v). v \<noteq> '''') (cd_secrets (sub_draft s))"

text \<open>Some secret is stored exactly when one was typed or the stored ones were kept.\<close>

definition secrets_match :: "connection_view \<Rightarrow> submission \<Rightarrow> bool" where
  "secrets_match v s \<longleftrightarrow>
     (cv_secretsConfigured v \<noteq> [] \<longleftrightarrow> typed_any s \<or> sub_mode s = ''preserve'')"

text \<open>A submission that asks the store for what it already holds.\<close>

definition changes_nothing :: "connection_view \<Rightarrow> submission \<Rightarrow> bool" where
  "changes_nothing v s \<longleftrightarrow> view_matches v s \<and> \<not> typed_any s \<and>
     (if cv_secretsConfigured v \<noteq> [] then sub_mode s = ''preserve''
      else sub_mode s = ''replace'' \<or> sub_mode s = ''clear'' \<and> cv_authMechanism v = AuthNone)"

text \<open>
  One family's form: its translation into a submission, the form a stored profile opens on,
  and the drafts that leave no field to a default the store does not record.
\<close>

locale draft_family =
  fixes kind :: mq_kind
    and submission :: "'d \<Rightarrow> submission"
    and reopen :: "connection_view \<Rightarrow> 'd"
    and settled :: "'d \<Rightarrow> bool"
    and labels :: "'d \<Rightarrow> string \<times> string \<times> string"
  assumes kind: "cd_kind (sub_draft (submission d)) = kind"
    and secret_keys: "distinct (map fst (cd_secrets (sub_draft (submission d))))"
    and mode: "sub_mode (submission d) \<in> {''clear'', ''preserve'', ''replace''}"
    and labels_kept: "labels d = (n, g, r) \<Longrightarrow> cd_name (sub_draft (submission d)) = js_trim n \<and>
          cd_group (sub_draft (submission d)) = g \<and> cd_remark (sub_draft (submission d)) = r"
    and labels_shown: "labels (reopen v) = (cv_name v, cv_group v, cv_remark v)"
    and resubmit: "settled d \<Longrightarrow> view_matches v (submission d) \<Longrightarrow> secrets_match v (submission d) \<Longrightarrow>
          changes_nothing v (submission (reopen v))"
begin

lemma labels_resubmitted:
  "cd_name (sub_draft (submission (reopen v))) = js_trim (cv_name v)"
  "cd_group (sub_draft (submission (reopen v))) = cv_group v"
  "cd_remark (sub_draft (submission (reopen v))) = cv_remark v"
  using labels_kept [OF labels_shown [of v]] by simp_all

end

end
