(* ===== verification/JsText.thy ===== *)
theory JsText
  imports DraftBase
begin

text \<open>
  The string operations the form rules and the list of connections use beside \<open>trim\<close>: the
  tests of their regular expressions, splitting on runs of separators, and the length of a
  string in UTF-16 units. Strings are their UTF-8 bytes.
\<close>

section \<open>Characters\<close>

definition utf16_length :: "string \<Rightarrow> nat" where
  "utf16_length s =
     sum_list (map (\<lambda>c. let n = of_char c :: nat in
       if 128 \<le> n \<and> n < 192 then 0 else if 240 \<le> n then 2 else 1) s)"

definition char_between :: "char \<Rightarrow> nat \<Rightarrow> nat \<Rightarrow> bool" where
  "char_between c lo hi \<longleftrightarrow> lo \<le> (of_char c :: nat) \<and> (of_char c :: nat) \<le> hi"

definition is_lower :: "char \<Rightarrow> bool" where "is_lower c \<longleftrightarrow> char_between c 97 122"
definition is_upper :: "char \<Rightarrow> bool" where "is_upper c \<longleftrightarrow> char_between c 65 90"
definition is_letter :: "char \<Rightarrow> bool" where "is_letter c \<longleftrightarrow> is_lower c \<or> is_upper c"

text \<open>\<open>\\w\<close>\<close>

definition is_word_char :: "char \<Rightarrow> bool" where
  "is_word_char c \<longleftrightarrow> is_letter c \<or> is_digit c \<or> c = CHR ''_''"

section \<open>Tests\<close>

text \<open>\<open>s.includes(needle)\<close>\<close>

fun js_includes :: "string \<Rightarrow> string \<Rightarrow> bool" where
  "js_includes needle [] \<longleftrightarrow> needle = []"
| "js_includes needle (c # cs) \<longleftrightarrow> prefix needle (c # cs) \<or> js_includes needle cs"

lemma js_includes_iff: "js_includes needle s \<longleftrightarrow> (\<exists>a b. s = a @ needle @ b)"
  by (induction s) (auto simp: prefix_def Cons_eq_append_conv)

text \<open>\<open>s.indexOf(needle)\<close>, with \<open>None\<close> for -1\<close>

fun js_indexOf :: "string \<Rightarrow> string \<Rightarrow> nat option" where
  "js_indexOf needle [] = (if needle = [] then Some 0 else None)"
| "js_indexOf needle (c # cs) =
     (if prefix needle (c # cs) then Some 0 else map_option Suc (js_indexOf needle cs))"

text \<open>The \<open>i\<close> flag, over the ASCII letters the patterns have.\<close>

definition lower_ascii :: "char \<Rightarrow> char" where
  "lower_ascii c = (if is_upper c then char_of ((of_char c :: nat) + 32) else c)"

definition prefix_ci :: "string \<Rightarrow> string \<Rightarrow> bool" where
  "prefix_ci p s \<longleftrightarrow> map lower_ascii (take (length p) s) = p"

text \<open>\<open>/^https?:\/\//i\<close>\<close>

definition http_scheme :: "string \<Rightarrow> bool" where
  "http_scheme s \<longleftrightarrow> prefix_ci ''http://'' s \<or> prefix_ci ''https://'' s"

text \<open>\<open>/^[a-z][a-z0-9+.-]*:\/\//i\<close>; no character of the class is a colon, so the run is maximal.\<close>

definition scheme_char :: "char \<Rightarrow> bool" where
  "scheme_char c \<longleftrightarrow> is_letter c \<or> is_digit c \<or> c \<in> set ''+.-''"

definition url_scheme :: "string \<Rightarrow> bool" where
  "url_scheme s \<longleftrightarrow>
     (case s of [] \<Rightarrow> False | c # cs \<Rightarrow> is_letter c \<and> prefix ''://'' (dropWhile scheme_char cs))"

section \<open>Splitting on runs of separators\<close>

text \<open>\<open>s.split(/(?:a|b|...)+/)\<close> for the separators \<open>seps\<close>\<close>

function split_runs :: "string list \<Rightarrow> string \<Rightarrow> string list" where
  "split_runs seps s =
     (case word_until seps s of (w, rest) \<Rightarrow>
        if rest = [] then [w]
        else if length (strip_words seps rest) < length s then w # split_runs seps (strip_words seps rest)
        else [w])"
  by pat_completeness auto
termination by (relation "measure (length \<circ> snd)") auto

declare split_runs.simps [simp del]

lemma strip_words_le: "length (strip_words ws s) \<le> length s"
  by (rule suffix_length_le) (rule strip_words_suffix)

lemma word_until_rest:
  "word_until ws s = (w, rest) \<Longrightarrow> rest \<noteq> [] \<Longrightarrow> \<exists>x \<in> set ws. x \<noteq> [] \<and> prefix x rest"
  by (induction ws s arbitrary: w rest rule: word_until.induct)
    (auto simp: list_ex_iff split: if_splits prod.splits)

text \<open>The guard of the recursion never fails: where a word ended there is a separator to drop.\<close>

lemma split_runs_guard:
  assumes w: "word_until seps s = (w, rest)" and rest: "rest \<noteq> []"
  shows "length (strip_words seps rest) < length s"
proof -
  obtain x where x: "x \<in> set seps" "x \<noteq> []" "prefix x rest" using word_until_rest [OF w rest] by blast
  have "strip_words seps rest \<noteq> rest"
  proof
    assume "strip_words seps rest = rest"
    with strip_words_no_prefix [OF x(1,2), of rest] x(3) show False by simp
  qed
  moreover have "suffix (strip_words seps rest) rest" by (rule strip_words_suffix)
  ultimately have "length (strip_words seps rest) < length rest"
    by (meson suffix_def suffix_length_less strict_suffix_def)
  then show ?thesis using word_until_append [OF w] by simp
qed

lemma split_runs_unfold:
  "split_runs seps s =
     (case word_until seps s of (w, rest) \<Rightarrow>
        if rest = [] then [w] else w # split_runs seps (strip_words seps rest))"
  by (subst split_runs.simps) (auto split: prod.split dest: split_runs_guard)

section \<open>Stripping and splitting over a class of characters\<close>

text \<open>
  In a string of characters of class \<open>ok\<close>, words are the single characters a set names, so
  stripping is \<open>dropWhile\<close> and the end of a word is where a separator stands.
\<close>

definition single_in :: "(char \<Rightarrow> bool) \<Rightarrow> string list \<Rightarrow> bool" where
  "single_in ok ws \<longleftrightarrow> list_all (\<lambda>w. length w = 1 \<or> \<not> list_all ok w) ws"

lemma single_prefix:
  assumes ws: "single_in ok ws" and s: "list_all ok (c # cs)"
  shows "w \<in> set ws \<and> w \<noteq> [] \<and> prefix w (c # cs) \<longleftrightarrow> w = [c] \<and> [c] \<in> set ws"
proof
  assume w: "w \<in> set ws \<and> w \<noteq> [] \<and> prefix w (c # cs)"
  then obtain zs where "c # cs = w @ zs" by (auto simp: prefix_def)
  with s have "list_all ok (w @ zs)" by simp
  then have "list_all ok w" by simp
  with w ws have "length w = 1" by (auto simp: single_in_def list_all_iff)
  with w show "w = [c] \<and> [c] \<in> set ws" by (auto simp: length_Suc_conv prefix_def)
qed auto

lemma strip_words_class:
  assumes ws: "single_in ok ws"
  shows "list_all ok s \<Longrightarrow> strip_words ws s = dropWhile (\<lambda>c. [c] \<in> set ws) s"
proof (induction s)
  case Nil
  then show ?case using strip_words_le [of ws "[]"] by simp
next
  case (Cons c cs)
  note only = single_prefix [OF ws Cons.prems]
  show ?case
  proof (cases "[c] \<in> set ws")
    case True
    with only have "find (\<lambda>w. w \<noteq> [] \<and> prefix w (c # cs)) ws \<noteq> None"
      by (auto simp: find_None_iff)
    then obtain w where w: "find (\<lambda>w. w \<noteq> [] \<and> prefix w (c # cs)) ws = Some w" by blast
    then have "w \<in> set ws \<and> w \<noteq> [] \<and> prefix w (c # cs)" by (auto simp: find_Some_iff)
    with only have "w = [c]" by blast
    with w have "strip_words ws (c # cs) = strip_words ws cs"
      by (simp add: strip_words.simps [of ws "c # cs"])
    with True Cons show ?thesis by simp
  next
    case False
    with only have "find (\<lambda>w. w \<noteq> [] \<and> prefix w (c # cs)) ws = None"
      unfolding find_None_iff by blast
    with False show ?thesis by (simp add: strip_words.simps [of ws "c # cs"])
  qed
qed

lemma word_until_class:
  assumes ws: "single_in ok ws"
  shows "list_all ok s \<Longrightarrow> word_until ws s =
    (takeWhile (\<lambda>c. [c] \<notin> set ws) s, dropWhile (\<lambda>c. [c] \<notin> set ws) s)"
proof (induction s)
  case Nil
  then show ?case by simp
next
  case (Cons c cs)
  have "list_ex (\<lambda>w. w \<noteq> [] \<and> prefix w (c # cs)) ws \<longleftrightarrow> [c] \<in> set ws"
    using single_prefix [OF ws Cons.prems] unfolding list_ex_iff by blast
  with Cons show ?case by simp
qed

section \<open>Trimming ASCII text\<close>

lemma whitespace_class:
  "single_in (\<lambda>c. char_between c 0 127) js_whitespace"
  "single_in (\<lambda>c. char_between c 0 127) (map rev js_whitespace)"
  "single_in (\<lambda>c. char_between c 0 127) go_whitespace"
  "single_in (\<lambda>c. char_between c 0 127) (map rev go_whitespace)"
  by (simp_all add: single_in_def js_whitespace_def go_whitespace_def char_between_def)

definition ascii :: "string \<Rightarrow> bool" where
  "ascii s \<longleftrightarrow> list_all (\<lambda>c. char_between c 0 127) s"

text \<open>The blanks among the ASCII characters, the same in both languages.\<close>

definition is_blank :: "char \<Rightarrow> bool" where
  "is_blank c \<longleftrightarrow> c \<in> set [CHR 0x09, CHR 0x0A, CHR 0x0B, CHR 0x0C, CHR 0x0D, CHR 0x20]"

lemma blank_words:
  "[c] \<in> set js_whitespace \<longleftrightarrow> is_blank c" "[c] \<in> set (map rev js_whitespace) \<longleftrightarrow> is_blank c"
  "[c] \<in> set go_whitespace \<longleftrightarrow> is_blank c" "[c] \<in> set (map rev go_whitespace) \<longleftrightarrow> is_blank c"
  by (auto simp: js_whitespace_def go_whitespace_def is_blank_def)

definition trim_blanks :: "string \<Rightarrow> string" where
  "trim_blanks s = rev (dropWhile is_blank (rev (dropWhile is_blank s)))"

lemma ascii_suffix: "ascii s \<Longrightarrow> suffix w s \<Longrightarrow> ascii w"
  by (auto simp: ascii_def suffix_def)

lemma strip_ascii:
  "ascii s \<Longrightarrow> strip_words js_whitespace s = dropWhile is_blank s"
  "ascii s \<Longrightarrow> strip_words (map rev js_whitespace) s = dropWhile is_blank s"
  "ascii s \<Longrightarrow> strip_words go_whitespace s = dropWhile is_blank s"
  "ascii s \<Longrightarrow> strip_words (map rev go_whitespace) s = dropWhile is_blank s"
  by (simp_all add: ascii_def strip_words_class [OF whitespace_class(1)]
      strip_words_class [OF whitespace_class(2)] strip_words_class [OF whitespace_class(3)]
      strip_words_class [OF whitespace_class(4)] blank_words del: set_map)

lemma trim_ascii:
  assumes "ascii s"
  shows "js_trim s = trim_blanks s" "go_trim s = trim_blanks s"
proof -
  have "ascii (rev (dropWhile is_blank s))"
    using ascii_suffix [OF assms suffix_dropWhile] by (auto simp: ascii_def)
  then show "js_trim s = trim_blanks s" "go_trim s = trim_blanks s"
    using assms
    by (simp_all add: js_trim_def js_trim_start_def js_trim_end_def go_trim_def trim_blanks_def strip_ascii)
qed

lemma trim_blanks_sub: "\<exists>a b. s = a @ trim_blanks s @ b \<and> list_all is_blank a \<and> list_all is_blank b"
proof -
  let ?t = "dropWhile is_blank s"
  have s: "s = takeWhile is_blank s @ ?t" by simp
  have "rev ?t = takeWhile is_blank (rev ?t) @ dropWhile is_blank (rev ?t)" by simp
  then have t: "?t = trim_blanks s @ rev (takeWhile is_blank (rev ?t))"
    unfolding trim_blanks_def by (metis rev_append rev_rev_ident)
  have "list_all is_blank (takeWhile is_blank s)" "list_all is_blank (rev (takeWhile is_blank (rev ?t)))"
    by (auto simp: list_all_iff dest: set_takeWhileD)
  with s t show ?thesis by metis
qed

lemma ascii_trim:
  assumes "ascii s"
  shows "ascii (js_trim s)"
proof -
  obtain a b where "s = a @ trim_blanks s @ b" using trim_blanks_sub by blast
  then have "ascii (a @ trim_blanks s @ b)" using assms by simp
  then show ?thesis by (simp add: trim_ascii [OF assms] ascii_def)
qed

lemma go_trim_of_ascii: "ascii s \<Longrightarrow> go_trim (js_trim s) = js_trim s"
  using trim_ascii [OF ascii_trim, of s] js_trim_idem [of s] by simp

section \<open>Fields between separators\<close>

text \<open>\<open>strings.FieldsFunc\<close> for a class \<open>sep\<close> of ASCII characters\<close>

function fields_on :: "(char \<Rightarrow> bool) \<Rightarrow> string \<Rightarrow> string list" where
  "fields_on sep s =
     (let t = dropWhile sep s in
      if t = [] then []
      else takeWhile (\<lambda>c. \<not> sep c) t # fields_on sep (dropWhile (\<lambda>c. \<not> sep c) t))"
  by pat_completeness auto
termination
proof (relation "measure (length \<circ> snd)")
  fix sep :: "char \<Rightarrow> bool" and s t :: string
  assume t: "t = dropWhile sep s" and "t \<noteq> []"
  then have "\<not> sep (hd t)" by (simp add: hd_dropWhile)
  with \<open>t \<noteq> []\<close> have "length (dropWhile (\<lambda>c. \<not> sep c) t) < length t"
    by (cases t) (simp_all add: length_dropWhile_le less_Suc_eq_le)
  also have "length t \<le> length s" unfolding t by (rule length_dropWhile_le)
  finally show "((sep, dropWhile (\<lambda>c. \<not> sep c) t), sep, s) \<in> measure (length \<circ> snd)" by simp
qed simp

declare fields_on.simps [simp del]

lemma fields_skip: "fields_on sep (dropWhile sep s) = fields_on sep s"
  by (subst (1 2) fields_on.simps) simp

lemma fields_blank: "list_all sep s \<Longrightarrow> fields_on sep s = []"
  by (simp add: fields_on.simps [of sep s] list_all_iff)

lemma fields_word:
  assumes "s \<noteq> []" and "\<not> sep (hd s)"
  shows "fields_on sep s =
    takeWhile (\<lambda>c. \<not> sep c) s # fields_on sep (dropWhile (\<lambda>c. \<not> sep c) s)"
proof -
  have "dropWhile sep s = s" using assms by (cases s) simp_all
  with assms(1) show ?thesis by (simp add: fields_on.simps [of sep s])
qed

lemma word_append:
  assumes "rest = [] \<or> sep (hd rest)"
  shows "takeWhile (\<lambda>c. \<not> sep c) (xs @ rest) = takeWhile (\<lambda>c. \<not> sep c) xs"
    and "dropWhile (\<lambda>c. \<not> sep c) (xs @ rest) = dropWhile (\<lambda>c. \<not> sep c) xs @ rest"
proof -
  have "takeWhile (\<lambda>c. \<not> sep c) rest = []" "dropWhile (\<lambda>c. \<not> sep c) rest = rest"
    using assms by (cases rest; simp)+
  then show "takeWhile (\<lambda>c. \<not> sep c) (xs @ rest) = takeWhile (\<lambda>c. \<not> sep c) xs"
    "dropWhile (\<lambda>c. \<not> sep c) (xs @ rest) = dropWhile (\<lambda>c. \<not> sep c) xs @ rest"
    by (induction xs) simp_all
qed

lemma fields_append:
  assumes rest: "rest = [] \<or> sep (hd rest)"
  shows "fields_on sep (f @ rest) = fields_on sep f @ fields_on sep rest"
proof (induction "length f" arbitrary: f rule: less_induct)
  case less
  let ?t = "dropWhile sep f"
  let ?word = "\<lambda>c. \<not> sep c"
  show ?case
  proof (cases "list_all sep f")
    case True
    then have "dropWhile sep (f @ rest) = dropWhile sep rest"
      by (simp add: dropWhile_append2 list_all_iff)
    then have "fields_on sep (f @ rest) = fields_on sep rest"
      by (metis fields_skip)
    with True show ?thesis by (simp add: fields_blank)
  next
    case False
    then have t: "?t \<noteq> []" by (simp add: list_all_iff)
    then have hd: "\<not> sep (hd ?t)" by (simp add: hd_dropWhile)
    note split = word_append [of rest sep ?t, OF rest]
    have "length (dropWhile ?word ?t) < length ?t"
      using t hd by (cases ?t) (simp_all add: length_dropWhile_le less_Suc_eq_le)
    then have short: "length (dropWhile ?word ?t) < length f"
      using length_dropWhile_le [of sep f] by simp
    have "dropWhile sep (f @ rest) = ?t @ rest"
      using False by (subst dropWhile_append) (auto simp: list_all_iff)
    then have "fields_on sep (f @ rest) = fields_on sep (?t @ rest)"
      using fields_skip [of sep "f @ rest"] by argo
    also have "\<dots> = takeWhile ?word ?t # fields_on sep (dropWhile ?word ?t @ rest)"
      using t hd fields_word [of "?t @ rest" sep] by (simp only: split append_is_Nil_conv hd_append2) simp
    also have "\<dots> = (takeWhile ?word ?t # fields_on sep (dropWhile ?word ?t)) @ fields_on sep rest"
      by (simp only: less [OF short] append_Cons)
    also have "\<dots> = fields_on sep ?t @ fields_on sep rest"
      by (simp only: fields_word [where sep = sep, OF t hd])
    finally show ?thesis by (simp only: fields_skip)
  qed
qed

text \<open>A field holds a character that is no separator, and none that is one.\<close>

lemma fields_chars: "w \<in> set (fields_on sep s) \<Longrightarrow> w \<noteq> [] \<and> set w \<subseteq> set s \<and> (\<forall>c \<in> set w. \<not> sep c)"
proof (induction sep s rule: fields_on.induct)
  case (1 sep s)
  let ?t = "dropWhile sep s"
  have sub: "set ?t \<subseteq> set s" by (auto dest: set_dropWhileD)
  show ?case
  proof (cases "?t = []")
    case True
    with "1.prems" show ?thesis by (simp add: fields_on.simps [of sep s])
  next
    case False
    then have "\<not> sep (hd ?t)" by (simp add: hd_dropWhile)
    with False have head: "takeWhile (\<lambda>c. \<not> sep c) ?t \<noteq> []" by (cases ?t) auto
    have subs: "set (takeWhile (\<lambda>c. \<not> sep c) ?t) \<subseteq> set s"
      "set (dropWhile (\<lambda>c. \<not> sep c) ?t) \<subseteq> set s"
      using sub by (auto dest: set_takeWhileD set_dropWhileD)
    from "1.prems" False consider "w = takeWhile (\<lambda>c. \<not> sep c) ?t"
      | "w \<in> set (fields_on sep (dropWhile (\<lambda>c. \<not> sep c) ?t))"
      unfolding fields_on.simps [of sep s] Let_def by (auto split: if_splits)
    then show ?thesis
    proof cases
      case 1
      with head subs(1) show ?thesis by (auto dest: set_takeWhileD)
    next
      case 2
      with "1.IH" [OF refl False] subs(2) show ?thesis by blast
    qed
  qed
qed

end
