(* ===== verification/DraftsClassic.thy ===== *)
theory DraftsClassic
  imports DraftBase
begin

text \<open>
  The connection forms of RocketMQ, RabbitMQ, Kafka, Pulsar and Redis Streams: the draft each
  form edits and its blank value (ConnectionForms.tsx), the submission it becomes and the
  draft a stored profile opens on (connectionDraft.ts).
\<close>

definition labels_of :: "'a form_base_scheme \<Rightarrow> string \<times> string \<times> string" where
  "labels_of d = (df_name d, df_group d, df_remark d)"

lemmas [draft_defs] = labels_of_def

lemmas contract_defs = view_matches_def secrets_match_def changes_nothing_def typed_any_def

section \<open>RocketMQ\<close>

definition OPTION_VERSION :: string where [option_names]: "OPTION_VERSION = ''version''"
definition OPTION_ACCESS :: string where [option_names]: "OPTION_ACCESS = ''access''"
definition OPTION_NAMESPACE :: string where [option_names]: "OPTION_NAMESPACE = ''namespace''"

datatype rocketmq_version = Version4 | Version5
datatype rocketmq_access = AccessNs | AccessProxy

primrec version_text :: "rocketmq_version \<Rightarrow> string" where
  "version_text Version4 = ''4.x''" | "version_text Version5 = ''5.x''"

primrec access_text :: "rocketmq_access \<Rightarrow> string" where
  "access_text AccessNs = ''ns''" | "access_text AccessProxy = ''proxy''"

record rocketmq_draft = credential_form +
  rk_version :: rocketmq_version
  rk_access :: rocketmq_access
  rk_endpoints :: string
  rk_accessKey :: string
  rk_secretKey :: string
  rk_namespace :: string

definition emptyRocketMQDraft :: rocketmq_draft where
  "emptyRocketMQDraft =
     \<lparr>df_name = '''', df_group = '''', df_remark = '''', df_timeoutSec = DEFAULT_TIMEOUT_SEC,
      df_credentialsStored = False, df_clearCredentials = False,
      rk_version = Version5, rk_access = AccessNs, rk_endpoints = '''', rk_accessKey = '''',
      rk_secretKey = '''', rk_namespace = ''''\<rparr>"

definition rocketMQSubmission :: "rocketmq_draft \<Rightarrow> submission" where
  "rocketMQSubmission draft =
     (let accessKey = js_trim (rk_accessKey draft);
          secretKey = js_trim (rk_secretKey draft);
          typed = (accessKey \<noteq> '''' \<or> secretKey \<noteq> '''');
          keep = keepStored draft
      in \<lparr>sub_draft =
            \<lparr>cd_name = js_trim (df_name draft), cd_group = df_group draft,
             cd_kind = KindRocketMQ, cd_endpoints = js_trim (rk_endpoints draft),
             cd_timeoutSec = df_timeoutSec draft,
             cd_authMechanism = (if typed \<or> keep then AuthACL else AuthNone),
             cd_options =
               [(OPTION_VERSION, version_text (rk_version draft)),
                (OPTION_ACCESS, access_text (rk_access draft)),
                (OPTION_NAMESPACE, js_trim (rk_namespace draft))],
             cd_secrets = [(''accessKey'', accessKey), (''secretKey'', secretKey)],
             cd_remark = df_remark draft\<rparr>,
          sub_mode = mode_preserving (df_clearCredentials draft) keep\<rparr>)"

definition toRocketMQDraft :: "connection_view \<Rightarrow> rocketmq_draft" where
  "toRocketMQDraft v =
     \<lparr>df_name = cv_name v, df_group = cv_group v, df_remark = cv_remark v,
      df_timeoutSec = cv_timeoutSec v,
      df_credentialsStored = secrets_stored v, df_clearCredentials = False,
      rk_version = (if opt v OPTION_VERSION = Some ''4.x'' then Version4 else Version5),
      rk_access = (if opt v OPTION_ACCESS = Some ''proxy'' then AccessProxy else AccessNs),
      rk_endpoints = cv_endpoints v, rk_accessKey = '''', rk_secretKey = '''',
      rk_namespace = opt_str v OPTION_NAMESPACE\<rparr>"

lemma rocketmq_resubmit:
  assumes "view_matches v (rocketMQSubmission d)" "secrets_match v (rocketMQSubmission d)"
    "\<not> df_clearCredentials d"
  shows "changes_nothing v (rocketMQSubmission (toRocketMQDraft v))"
proof -
  have v: "(if version_text x = ''4.x'' then Version4 else Version5) = x" for x by (cases x) simp_all
  have a: "(if access_text x = ''proxy'' then AccessProxy else AccessNs) = x" for x by (cases x) simp_all
  show ?thesis
    using assms
    by (auto simp: contract_defs rocketMQSubmission_def toRocketMQDraft_def Let_def draft_defs
        option_names v a)
qed

interpretation rocketmq: draft_family KindRocketMQ rocketMQSubmission toRocketMQDraft
  "\<lambda>d. \<not> df_clearCredentials d" labels_of
proof
  show "changes_nothing v (rocketMQSubmission (toRocketMQDraft v))"
    if "\<not> df_clearCredentials d" "view_matches v (rocketMQSubmission d)"
      "secrets_match v (rocketMQSubmission d)" for d v
    using that by (intro rocketmq_resubmit)
qed (simp_all add: rocketMQSubmission_def toRocketMQDraft_def Let_def draft_defs)

section \<open>RabbitMQ\<close>

definition OPTION_VHOST :: string where [option_names]: "OPTION_VHOST = ''vhost''"
definition OPTION_AMQP :: string where [option_names]: "OPTION_AMQP = ''amqpEndpoint''"
definition OPTION_TLS :: string where [option_names]: "OPTION_TLS = ''tls''"
definition OPTION_TLS_SKIP_VERIFY :: string where
  [option_names]: "OPTION_TLS_SKIP_VERIFY = ''tlsSkipVerify''"

record rabbitmq_draft = credential_form +
  rb_management :: string
  rb_amqp :: string
  rb_vhost :: string
  rb_username :: string
  rb_password :: string
  rb_tls :: bool
  rb_tlsSkipVerify :: bool

definition emptyRabbitMQDraft :: rabbitmq_draft where
  "emptyRabbitMQDraft =
     \<lparr>df_name = '''', df_group = '''', df_remark = '''', df_timeoutSec = DEFAULT_TIMEOUT_SEC,
      df_credentialsStored = False, df_clearCredentials = False,
      rb_management = '''', rb_amqp = '''', rb_vhost = ''/'', rb_username = '''',
      rb_password = '''', rb_tls = False, rb_tlsSkipVerify = False\<rparr>"

definition rabbitMQSubmission :: "rabbitmq_draft \<Rightarrow> submission" where
  "rabbitMQSubmission draft =
     (let username = js_trim (rb_username draft);
          password = js_trim (rb_password draft);
          typed = (username \<noteq> '''' \<or> password \<noteq> '''')
      in \<lparr>sub_draft =
            \<lparr>cd_name = js_trim (df_name draft), cd_group = df_group draft,
             cd_kind = KindRabbitMQ, cd_endpoints = js_trim (rb_management draft),
             cd_timeoutSec = df_timeoutSec draft, cd_authMechanism = AuthPlain,
             cd_options =
               [(OPTION_VHOST, if js_trim (rb_vhost draft) = '''' then ''/'' else js_trim (rb_vhost draft)),
                (OPTION_AMQP, js_trim (rb_amqp draft)),
                (OPTION_TLS, js_bool (rb_tls draft)),
                (OPTION_TLS_SKIP_VERIFY, js_bool (rb_tls draft \<and> rb_tlsSkipVerify draft))],
             cd_secrets = [(''username'', username), (''password'', password)],
             cd_remark = df_remark draft\<rparr>,
          sub_mode = mode_replacing (df_clearCredentials draft) typed (keepStored draft)\<rparr>)"

definition toRabbitMQDraft :: "connection_view \<Rightarrow> rabbitmq_draft" where
  "toRabbitMQDraft v =
     (let tls = opt_true v OPTION_TLS in
      \<lparr>df_name = cv_name v, df_group = cv_group v, df_remark = cv_remark v,
       df_timeoutSec = cv_timeoutSec v,
       df_credentialsStored = secrets_stored v, df_clearCredentials = False,
       rb_management = cv_endpoints v, rb_amqp = opt_str v OPTION_AMQP,
       rb_vhost = nullish (opt v OPTION_VHOST) ''/'', rb_username = '''', rb_password = '''',
       rb_tls = tls, rb_tlsSkipVerify = (tls \<and> opt_true v OPTION_TLS_SKIP_VERIFY)\<rparr>)"

lemma js_trim_slash [simp]: "js_trim ''/'' = ''/''"
  by (simp add: js_trim_def js_trim_start_def js_trim_end_def strip_words.simps js_whitespace_def)

interpretation rabbitmq: draft_family KindRabbitMQ rabbitMQSubmission toRabbitMQDraft
  "\<lambda>d. \<not> df_clearCredentials d" labels_of
proof
  show "changes_nothing v (rabbitMQSubmission (toRabbitMQDraft v))"
    if "\<not> df_clearCredentials d" "view_matches v (rabbitMQSubmission d)"
      "secrets_match v (rabbitMQSubmission d)" for d v
    using that
    by (auto simp: contract_defs rabbitMQSubmission_def toRabbitMQDraft_def Let_def draft_defs
        option_names)
qed (simp_all add: rabbitMQSubmission_def toRabbitMQDraft_def Let_def draft_defs)

section \<open>Kafka\<close>

definition OPTION_KAFKA_SCRAM_SHA :: string where [option_names]: "OPTION_KAFKA_SCRAM_SHA = ''scramSha''"
definition OPTION_KAFKA_TLS :: string where [option_names]: "OPTION_KAFKA_TLS = ''tls''"
definition OPTION_KAFKA_TLS_SKIP_VERIFY :: string where
  [option_names]: "OPTION_KAFKA_TLS_SKIP_VERIFY = ''tlsSkipVerify''"
definition OPTION_KAFKA_TLS_CA_FILE :: string where
  [option_names]: "OPTION_KAFKA_TLS_CA_FILE = ''tlsCaFile''"

datatype kafka_mechanism = KafkaNone | KafkaSaslPlain | KafkaSaslScram
datatype kafka_scram_sha = Sha256 | Sha512

primrec scram_text :: "kafka_scram_sha \<Rightarrow> string" where
  "scram_text Sha256 = ''256''" | "scram_text Sha512 = ''512''"

record kafka_draft = credential_form +
  kf_endpoints :: string
  kf_mechanism :: kafka_mechanism
  kf_scramSha :: kafka_scram_sha
  kf_username :: string
  kf_password :: string
  kf_tls :: bool
  kf_tlsCaFile :: string
  kf_tlsSkipVerify :: bool

definition emptyKafkaDraft :: kafka_draft where
  "emptyKafkaDraft =
     \<lparr>df_name = '''', df_group = '''', df_remark = '''', df_timeoutSec = DEFAULT_TIMEOUT_SEC,
      df_credentialsStored = False, df_clearCredentials = False,
      kf_endpoints = '''', kf_mechanism = KafkaNone, kf_scramSha = Sha512, kf_username = '''',
      kf_password = '''', kf_tls = False, kf_tlsCaFile = '''', kf_tlsSkipVerify = False\<rparr>"

text \<open>\<open>MECHANISM\<close> and its partial inverse \<open>KAFKA_MECHANISM_BY_STORED\<close>\<close>

primrec MECHANISM :: "kafka_mechanism \<Rightarrow> auth_mechanism" where
  "MECHANISM KafkaNone = AuthNone"
| "MECHANISM KafkaSaslPlain = AuthSASLPlain"
| "MECHANISM KafkaSaslScram = AuthSASLScram"

definition KAFKA_MECHANISM_BY_STORED :: "auth_mechanism \<Rightarrow> kafka_mechanism option" where
  "KAFKA_MECHANISM_BY_STORED m =
     (if m = AuthSASLPlain then Some KafkaSaslPlain
      else if m = AuthSASLScram then Some KafkaSaslScram else None)"

lemma kafka_mechanism_back [simp]:
  "nullish (KAFKA_MECHANISM_BY_STORED (MECHANISM m)) KafkaNone = m"
  by (cases m) (simp_all add: KAFKA_MECHANISM_BY_STORED_def)

lemma MECHANISM_none [simp]: "MECHANISM m = AuthNone \<longleftrightarrow> m = KafkaNone"
  by (cases m) simp_all

definition kafkaSubmission :: "kafka_draft \<Rightarrow> submission" where
  "kafkaSubmission draft =
     (let authenticating = (kf_mechanism draft \<noteq> KafkaNone);
          username = (if authenticating then js_trim (kf_username draft) else '''');
          password = (if authenticating then js_trim (kf_password draft) else '''');
          typed = (username \<noteq> '''' \<or> password \<noteq> '''');
          keep = (authenticating \<and> keepStored draft)
      in \<lparr>sub_draft =
            \<lparr>cd_name = js_trim (df_name draft), cd_group = df_group draft,
             cd_kind = KindKafka, cd_endpoints = js_trim (kf_endpoints draft),
             cd_timeoutSec = df_timeoutSec draft,
             cd_authMechanism = MECHANISM (kf_mechanism draft),
             cd_options =
               [(OPTION_KAFKA_SCRAM_SHA, scram_text (kf_scramSha draft)),
                (OPTION_KAFKA_TLS, js_bool (kf_tls draft)),
                (OPTION_KAFKA_TLS_CA_FILE, if kf_tls draft then js_trim (kf_tlsCaFile draft) else ''''),
                (OPTION_KAFKA_TLS_SKIP_VERIFY, js_bool (kf_tls draft \<and> kf_tlsSkipVerify draft))],
             cd_secrets = [(''username'', username), (''password'', password)],
             cd_remark = df_remark draft\<rparr>,
          sub_mode = mode_replacing (\<not> authenticating \<or> df_clearCredentials draft) typed keep\<rparr>)"

definition toKafkaDraft :: "connection_view \<Rightarrow> kafka_draft" where
  "toKafkaDraft v =
     (let tls = opt_true v OPTION_KAFKA_TLS;
          mechanism = nullish (KAFKA_MECHANISM_BY_STORED (cv_authMechanism v)) KafkaNone in
      \<lparr>df_name = cv_name v, df_group = cv_group v, df_remark = cv_remark v,
       df_timeoutSec = cv_timeoutSec v,
       df_credentialsStored = (mechanism \<noteq> KafkaNone \<and> secrets_stored v),
       df_clearCredentials = False,
       kf_endpoints = cv_endpoints v, kf_mechanism = mechanism,
       kf_scramSha = (if opt v OPTION_KAFKA_SCRAM_SHA = Some ''256'' then Sha256 else Sha512),
       kf_username = '''', kf_password = '''', kf_tls = tls,
       kf_tlsCaFile = (if tls then opt_str v OPTION_KAFKA_TLS_CA_FILE else ''''),
       kf_tlsSkipVerify = (tls \<and> opt_true v OPTION_KAFKA_TLS_SKIP_VERIFY)\<rparr>)"

lemma scram_back [simp]: "(if scram_text x = ''256'' then Sha256 else Sha512) = x"
  by (cases x) simp_all

interpretation kafka: draft_family KindKafka kafkaSubmission toKafkaDraft
  "\<lambda>d. \<not> df_clearCredentials d" labels_of
proof
  show "changes_nothing v (kafkaSubmission (toKafkaDraft v))"
    if "\<not> df_clearCredentials d" "view_matches v (kafkaSubmission d)"
      "secrets_match v (kafkaSubmission d)" for d v
    using that
    by (auto simp: contract_defs kafkaSubmission_def toKafkaDraft_def Let_def draft_defs
        option_names)
qed (simp_all add: kafkaSubmission_def toKafkaDraft_def Let_def draft_defs)

section \<open>Pulsar\<close>

definition OPTION_PULSAR_ADMIN_URL :: string where [option_names]: "OPTION_PULSAR_ADMIN_URL = ''adminUrl''"
definition OPTION_PULSAR_TENANT :: string where [option_names]: "OPTION_PULSAR_TENANT = ''tenant''"
definition OPTION_PULSAR_NAMESPACE :: string where
  [option_names]: "OPTION_PULSAR_NAMESPACE = ''namespace''"
definition OPTION_PULSAR_TLS :: string where [option_names]: "OPTION_PULSAR_TLS = ''tls''"
definition OPTION_PULSAR_TLS_CA_FILE :: string where
  [option_names]: "OPTION_PULSAR_TLS_CA_FILE = ''tlsCaFile''"
definition OPTION_PULSAR_TLS_SKIP_VERIFY :: string where
  [option_names]: "OPTION_PULSAR_TLS_SKIP_VERIFY = ''tlsSkipVerify''"

datatype pulsar_auth = PulsarNone | PulsarToken

record pulsar_draft = credential_form +
  pl_service :: string
  pl_admin :: string
  pl_tenant :: string
  pl_namespace :: string
  pl_auth :: pulsar_auth
  pl_token :: string
  pl_tls :: bool
  pl_tlsCaFile :: string
  pl_tlsSkipVerify :: bool

definition emptyPulsarDraft :: pulsar_draft where
  "emptyPulsarDraft =
     \<lparr>df_name = '''', df_group = '''', df_remark = '''', df_timeoutSec = DEFAULT_TIMEOUT_SEC,
      df_credentialsStored = False, df_clearCredentials = False,
      pl_service = '''', pl_admin = '''', pl_tenant = ''public'', pl_namespace = ''default'',
      pl_auth = PulsarNone, pl_token = '''', pl_tls = False, pl_tlsCaFile = '''',
      pl_tlsSkipVerify = False\<rparr>"

definition pulsarSubmission :: "pulsar_draft \<Rightarrow> submission" where
  "pulsarSubmission draft =
     (let authenticating = (pl_auth draft \<noteq> PulsarNone);
          token = (if authenticating then js_trim (pl_token draft) else '''');
          typed = (token \<noteq> '''');
          keep = (authenticating \<and> keepStored draft)
      in \<lparr>sub_draft =
            \<lparr>cd_name = js_trim (df_name draft), cd_group = df_group draft,
             cd_kind = KindPulsar, cd_endpoints = js_trim (pl_service draft),
             cd_timeoutSec = df_timeoutSec draft,
             cd_authMechanism = (if authenticating then AuthToken else AuthNone),
             cd_options =
               [(OPTION_PULSAR_ADMIN_URL, js_trim (pl_admin draft)),
                (OPTION_PULSAR_TENANT, js_trim (pl_tenant draft)),
                (OPTION_PULSAR_NAMESPACE, js_trim (pl_namespace draft)),
                (OPTION_PULSAR_TLS, js_bool (pl_tls draft)),
                (OPTION_PULSAR_TLS_CA_FILE, if pl_tls draft then js_trim (pl_tlsCaFile draft) else ''''),
                (OPTION_PULSAR_TLS_SKIP_VERIFY, js_bool (pl_tls draft \<and> pl_tlsSkipVerify draft))],
             cd_secrets = [(''token'', token)],
             cd_remark = df_remark draft\<rparr>,
          sub_mode = mode_replacing (\<not> authenticating \<or> df_clearCredentials draft) typed keep\<rparr>)"

definition toPulsarDraft :: "connection_view \<Rightarrow> pulsar_draft" where
  "toPulsarDraft v =
     (let tls = opt_true v OPTION_PULSAR_TLS;
          auth = (if cv_authMechanism v = AuthToken then PulsarToken else PulsarNone) in
      \<lparr>df_name = cv_name v, df_group = cv_group v, df_remark = cv_remark v,
       df_timeoutSec = cv_timeoutSec v,
       df_credentialsStored = (auth \<noteq> PulsarNone \<and> secrets_stored v),
       df_clearCredentials = False,
       pl_service = cv_endpoints v, pl_admin = opt_str v OPTION_PULSAR_ADMIN_URL,
       pl_tenant = nullish (opt v OPTION_PULSAR_TENANT) ''public'',
       pl_namespace = nullish (opt v OPTION_PULSAR_NAMESPACE) ''default'',
       pl_auth = auth, pl_token = '''', pl_tls = tls,
       pl_tlsCaFile = (if tls then opt_str v OPTION_PULSAR_TLS_CA_FILE else ''''),
       pl_tlsSkipVerify = (tls \<and> opt_true v OPTION_PULSAR_TLS_SKIP_VERIFY)\<rparr>)"

interpretation pulsar: draft_family KindPulsar pulsarSubmission toPulsarDraft
  "\<lambda>d. \<not> df_clearCredentials d" labels_of
proof
  show "changes_nothing v (pulsarSubmission (toPulsarDraft v))"
    if "\<not> df_clearCredentials d" "view_matches v (pulsarSubmission d)"
      "secrets_match v (pulsarSubmission d)" for d v
    using that
    by (auto simp: contract_defs pulsarSubmission_def toPulsarDraft_def Let_def draft_defs
        option_names)
qed (simp_all add: pulsarSubmission_def toPulsarDraft_def Let_def draft_defs)

section \<open>Redis Streams\<close>

definition OPTION_REDIS_DEPLOYMENT :: string where [option_names]: "OPTION_REDIS_DEPLOYMENT = ''deployment''"
definition OPTION_REDIS_MASTER_NAME :: string where
  [option_names]: "OPTION_REDIS_MASTER_NAME = ''masterName''"
definition OPTION_REDIS_DB :: string where [option_names]: "OPTION_REDIS_DB = ''db''"
definition OPTION_REDIS_STREAM_FILTER :: string where
  [option_names]: "OPTION_REDIS_STREAM_FILTER = ''streamFilter''"
definition OPTION_REDIS_TLS :: string where [option_names]: "OPTION_REDIS_TLS = ''tls''"
definition OPTION_REDIS_TLS_SKIP_VERIFY :: string where
  [option_names]: "OPTION_REDIS_TLS_SKIP_VERIFY = ''tlsSkipVerify''"

datatype redis_deployment = Standalone | Sentinel | Cluster

definition REDIS_DEPLOYMENTS :: "redis_deployment list" where
  "REDIS_DEPLOYMENTS = [Standalone, Sentinel, Cluster]"

primrec deployment_text :: "redis_deployment \<Rightarrow> string" where
  "deployment_text Standalone = ''standalone''"
| "deployment_text Sentinel = ''sentinel''"
| "deployment_text Cluster = ''cluster''"

text \<open>A stored value that is none of the three opens as a standalone server.\<close>

definition deployment_of :: "string option \<Rightarrow> redis_deployment" where
  "deployment_of raw =
     nullish (find (\<lambda>m. raw = Some (deployment_text m)) REDIS_DEPLOYMENTS) Standalone"

lemma deployment_back [simp]: "deployment_of (Some (deployment_text m)) = m"
  by (cases m) (simp_all add: deployment_of_def REDIS_DEPLOYMENTS_def)

record redis_draft = credential_form +
  rd_deployment :: redis_deployment
  rd_endpoints :: string
  rd_masterName :: string
  rd_db :: int
  rd_streamFilter :: string
  rd_username :: string
  rd_password :: string
  rd_tls :: bool
  rd_tlsSkipVerify :: bool

definition emptyRedisDraft :: redis_draft where
  "emptyRedisDraft =
     \<lparr>df_name = '''', df_group = '''', df_remark = '''', df_timeoutSec = DEFAULT_TIMEOUT_SEC,
      df_credentialsStored = False, df_clearCredentials = False,
      rd_deployment = Standalone, rd_endpoints = '''', rd_masterName = '''', rd_db = 0,
      rd_streamFilter = '''', rd_username = '''', rd_password = '''', rd_tls = False,
      rd_tlsSkipVerify = False\<rparr>"

definition redisSubmission :: "redis_draft \<Rightarrow> submission" where
  "redisSubmission draft =
     (let username = js_trim (rd_username draft);
          password = js_trim (rd_password draft);
          typed = (username \<noteq> '''' \<or> password \<noteq> '''');
          keep = keepStored draft
      in \<lparr>sub_draft =
            \<lparr>cd_name = js_trim (df_name draft), cd_group = df_group draft,
             cd_kind = KindRedisStream, cd_endpoints = js_trim (rd_endpoints draft),
             cd_timeoutSec = df_timeoutSec draft,
             cd_authMechanism = (if typed \<or> keep then AuthPlain else AuthNone),
             cd_options =
               [(OPTION_REDIS_DEPLOYMENT, deployment_text (rd_deployment draft)),
                (OPTION_REDIS_MASTER_NAME,
                   if rd_deployment draft = Sentinel then js_trim (rd_masterName draft) else ''''),
                (OPTION_REDIS_DB, if rd_deployment draft = Cluster then ''0'' else show_int (rd_db draft)),
                (OPTION_REDIS_STREAM_FILTER, js_trim (rd_streamFilter draft)),
                (OPTION_REDIS_TLS, js_bool (rd_tls draft)),
                (OPTION_REDIS_TLS_SKIP_VERIFY, js_bool (rd_tls draft \<and> rd_tlsSkipVerify draft))],
             cd_secrets = [(''username'', username), (''password'', password)],
             cd_remark = df_remark draft\<rparr>,
          sub_mode = mode_replacing (df_clearCredentials draft) typed keep\<rparr>)"

definition toRedisDraft :: "connection_view \<Rightarrow> redis_draft" where
  "toRedisDraft v =
     (let deployment = deployment_of (opt v OPTION_REDIS_DEPLOYMENT);
          tls = opt_true v OPTION_REDIS_TLS;
          db = parse_int10 (nullish (opt v OPTION_REDIS_DB) ''0'') in
      \<lparr>df_name = cv_name v, df_group = cv_group v, df_remark = cv_remark v,
       df_timeoutSec = cv_timeoutSec v,
       df_credentialsStored = secrets_stored v, df_clearCredentials = False,
       rd_deployment = deployment, rd_endpoints = cv_endpoints v,
       rd_masterName = (if deployment = Sentinel then opt_str v OPTION_REDIS_MASTER_NAME else ''''),
       rd_db = (case db of None \<Rightarrow> 0 | Some n \<Rightarrow> if deployment = Cluster \<or> n < 0 then 0 else n),
       rd_streamFilter = opt_str v OPTION_REDIS_STREAM_FILTER,
       rd_username = '''', rd_password = '''', rd_tls = tls,
       rd_tlsSkipVerify = (tls \<and> opt_true v OPTION_REDIS_TLS_SKIP_VERIFY)\<rparr>)"

lemma show_int_0 [simp]: "show_int 0 = ''0''"
  by code_simp

interpretation redis: draft_family KindRedisStream redisSubmission toRedisDraft
  "\<lambda>d. \<not> df_clearCredentials d \<and> 0 \<le> rd_db d" labels_of
proof
  show "changes_nothing v (redisSubmission (toRedisDraft v))"
    if "\<not> df_clearCredentials d \<and> 0 \<le> rd_db d" "view_matches v (redisSubmission d)"
      "secrets_match v (redisSubmission d)" for d v
    using that
    by (auto simp: contract_defs redisSubmission_def toRedisDraft_def Let_def draft_defs
        option_names)
qed (simp_all add: redisSubmission_def toRedisDraft_def Let_def draft_defs)

end
