(* ===== verification/DraftsBrokers.thy ===== *)
theory DraftsBrokers
  imports DraftsClassic
begin

text \<open>
  The connection forms of MQTT, NATS, ActiveMQ, NSQ, IBM MQ and Solace: drafts, submissions
  and the draft a stored profile opens on. Most of them carry two credentials on one form,
  so a stored secret is preserved whatever is typed beside it.
\<close>

section \<open>MQTT\<close>

definition OPTION_MQTT_PROTOCOL :: string where [option_names]: "OPTION_MQTT_PROTOCOL = ''protocolVersion''"
definition OPTION_MQTT_TRANSPORT :: string where [option_names]: "OPTION_MQTT_TRANSPORT = ''transport''"
definition OPTION_MQTT_WS_PATH :: string where [option_names]: "OPTION_MQTT_WS_PATH = ''wsPath''"
definition OPTION_MQTT_CLIENT_ID :: string where [option_names]: "OPTION_MQTT_CLIENT_ID = ''clientId''"
definition OPTION_MQTT_KEEP_ALIVE :: string where [option_names]: "OPTION_MQTT_KEEP_ALIVE = ''keepAliveSec''"
definition OPTION_MQTT_CLEAN_START :: string where [option_names]: "OPTION_MQTT_CLEAN_START = ''cleanStart''"
definition OPTION_MQTT_SESSION_EXPIRY :: string where
  [option_names]: "OPTION_MQTT_SESSION_EXPIRY = ''sessionExpirySec''"
definition OPTION_MQTT_TLS_CA_FILE :: string where [option_names]: "OPTION_MQTT_TLS_CA_FILE = ''tlsCaFile''"
definition OPTION_MQTT_TLS_SKIP_VERIFY :: string where
  [option_names]: "OPTION_MQTT_TLS_SKIP_VERIFY = ''tlsSkipVerify''"
definition OPTION_MQTT_MANAGEMENT_URL :: string where
  [option_names]: "OPTION_MQTT_MANAGEMENT_URL = ''managementUrl''"

datatype mqtt_version = Mqtt5 | Mqtt311
datatype mqtt_transport = Tcp | Tls | Ws | Wss
datatype mqtt_mechanism = MqttNone | MqttPlain

primrec mqtt_protocol_text :: "mqtt_version \<Rightarrow> string" where
  "mqtt_protocol_text Mqtt5 = ''5''" | "mqtt_protocol_text Mqtt311 = ''311''"

primrec transport_text :: "mqtt_transport \<Rightarrow> string" where
  "transport_text Tcp = ''tcp''" | "transport_text Tls = ''tls''"
| "transport_text Ws = ''ws''" | "transport_text Wss = ''wss''"

definition MQTT_TRANSPORTS :: "mqtt_transport list" where
  "MQTT_TRANSPORTS = [Tcp, Tls, Ws, Wss]"

definition transport_of :: "string option \<Rightarrow> mqtt_transport" where
  "transport_of raw = nullish (find (\<lambda>m. raw = Some (transport_text m)) MQTT_TRANSPORTS) Tcp"

lemma transport_back [simp]: "transport_of (Some (transport_text m)) = m"
  by (cases m) (simp_all add: transport_of_def MQTT_TRANSPORTS_def)

lemma mqtt_protocol_back [simp]:
  "(if mqtt_protocol_text p = ''311'' then Mqtt311 else Mqtt5) = p"
  by (cases p) simp_all

record mqtt_draft = credential_form +
  mq_endpoints :: string
  mq_protocol :: mqtt_version
  mq_transport :: mqtt_transport
  mq_wsPath :: string
  mq_clientId :: string
  mq_keepAliveSec :: int
  mq_cleanStart :: bool
  mq_sessionExpirySec :: int
  mq_mechanism :: mqtt_mechanism
  mq_username :: string
  mq_password :: string
  mq_tlsCaFile :: string
  mq_tlsSkipVerify :: bool
  mq_managementUrl :: string
  mq_managementKey :: string
  mq_managementSecret :: string

definition emptyMqttDraft :: mqtt_draft where
  "emptyMqttDraft =
     \<lparr>df_name = '''', df_group = '''', df_remark = '''', df_timeoutSec = DEFAULT_TIMEOUT_SEC,
      df_credentialsStored = False, df_clearCredentials = False,
      mq_endpoints = '''', mq_protocol = Mqtt5, mq_transport = Tcp, mq_wsPath = ''/mqtt'',
      mq_clientId = '''', mq_keepAliveSec = 60, mq_cleanStart = True, mq_sessionExpirySec = 0,
      mq_mechanism = MqttNone, mq_username = '''', mq_password = '''', mq_tlsCaFile = '''',
      mq_tlsSkipVerify = False, mq_managementUrl = '''', mq_managementKey = '''',
      mq_managementSecret = ''''\<rparr>"

definition mqtt_encrypted :: "mqtt_transport \<Rightarrow> bool" where
  "mqtt_encrypted t \<longleftrightarrow> t = Tls \<or> t = Wss"

definition mqtt_webSocket :: "mqtt_transport \<Rightarrow> bool" where
  "mqtt_webSocket t \<longleftrightarrow> t = Ws \<or> t = Wss"

definition mqttSubmission :: "mqtt_draft \<Rightarrow> submission" where
  "mqttSubmission draft =
     (let authenticating = (mq_mechanism draft \<noteq> MqttNone);
          username = (if authenticating then js_trim (mq_username draft) else '''');
          password = (if authenticating then js_trim (mq_password draft) else '''');
          managementUrl = js_trim (mq_managementUrl draft);
          managementKey = (if managementUrl = '''' then '''' else js_trim (mq_managementKey draft));
          managementSecret = (if managementUrl = '''' then '''' else js_trim (mq_managementSecret draft));
          encrypted = mqtt_encrypted (mq_transport draft);
          webSocket = mqtt_webSocket (mq_transport draft)
      in \<lparr>sub_draft =
            \<lparr>cd_name = js_trim (df_name draft), cd_group = df_group draft,
             cd_kind = KindMQTT, cd_endpoints = js_trim (mq_endpoints draft),
             cd_timeoutSec = df_timeoutSec draft,
             cd_authMechanism = (if authenticating then AuthPlain else AuthNone),
             cd_options =
               [(OPTION_MQTT_PROTOCOL, mqtt_protocol_text (mq_protocol draft)),
                (OPTION_MQTT_TRANSPORT, transport_text (mq_transport draft)),
                (OPTION_MQTT_WS_PATH, if webSocket then js_trim (mq_wsPath draft) else ''''),
                (OPTION_MQTT_CLIENT_ID, js_trim (mq_clientId draft)),
                (OPTION_MQTT_KEEP_ALIVE, show_int (mq_keepAliveSec draft)),
                (OPTION_MQTT_CLEAN_START, js_bool (mq_cleanStart draft)),
                (OPTION_MQTT_SESSION_EXPIRY,
                   if mq_protocol draft = Mqtt5 then show_int (mq_sessionExpirySec draft) else ''0''),
                (OPTION_MQTT_TLS_CA_FILE, if encrypted then js_trim (mq_tlsCaFile draft) else ''''),
                (OPTION_MQTT_TLS_SKIP_VERIFY, js_bool (encrypted \<and> mq_tlsSkipVerify draft)),
                (OPTION_MQTT_MANAGEMENT_URL, managementUrl)],
             cd_secrets =
               [(''username'', username), (''password'', password),
                (''managementApiKey'', managementKey), (''managementSecretKey'', managementSecret)],
             cd_remark = df_remark draft\<rparr>,
          sub_mode = mode_preserving (df_clearCredentials draft) (keepStored draft)\<rparr>)"

definition toMqttDraft :: "connection_view \<Rightarrow> mqtt_draft" where
  "toMqttDraft v =
     (let transport = transport_of (opt v OPTION_MQTT_TRANSPORT);
          encrypted = mqtt_encrypted transport;
          protocol = (if opt v OPTION_MQTT_PROTOCOL = Some ''311'' then Mqtt311 else Mqtt5);
          mechanism = (if cv_authMechanism v = AuthPlain then MqttPlain else MqttNone) in
      \<lparr>df_name = cv_name v, df_group = cv_group v, df_remark = cv_remark v,
       df_timeoutSec = cv_timeoutSec v,
       df_credentialsStored = secrets_stored v, df_clearCredentials = False,
       mq_endpoints = cv_endpoints v, mq_protocol = protocol, mq_transport = transport,
       mq_wsPath = js_or (opt_str v OPTION_MQTT_WS_PATH) ''/mqtt'',
       mq_clientId = opt_str v OPTION_MQTT_CLIENT_ID,
       mq_keepAliveSec = numberOption (opt v OPTION_MQTT_KEEP_ALIVE) 60,
       mq_cleanStart = (opt v OPTION_MQTT_CLEAN_START \<noteq> Some ''false''),
       mq_sessionExpirySec =
         (if protocol = Mqtt5 then numberOption (opt v OPTION_MQTT_SESSION_EXPIRY) 0 else 0),
       mq_mechanism = mechanism, mq_username = '''', mq_password = '''',
       mq_tlsCaFile = (if encrypted then opt_str v OPTION_MQTT_TLS_CA_FILE else ''''),
       mq_tlsSkipVerify = (encrypted \<and> opt_true v OPTION_MQTT_TLS_SKIP_VERIFY),
       mq_managementUrl = opt_str v OPTION_MQTT_MANAGEMENT_URL,
       mq_managementKey = '''', mq_managementSecret = ''''\<rparr>)"

text \<open>The WebSocket path is the one field with a default the store does not record.\<close>

definition mqtt_settled :: "mqtt_draft \<Rightarrow> bool" where
  "mqtt_settled d \<longleftrightarrow> \<not> df_clearCredentials d \<and>
     (mqtt_webSocket (mq_transport d) \<longrightarrow> js_trim (mq_wsPath d) \<noteq> '''')"

lemma mqtt_resubmit:
  assumes "mqtt_settled d" "view_matches v (mqttSubmission d)" "secrets_match v (mqttSubmission d)"
  shows "changes_nothing v (mqttSubmission (toMqttDraft v))"
proof (cases "mq_mechanism d")
  case MqttNone
  with assms show ?thesis
    by (auto simp: contract_defs mqttSubmission_def toMqttDraft_def Let_def draft_defs
        option_names mqtt_settled_def js_or_def)
next
  case MqttPlain
  with assms show ?thesis
    by (auto simp: contract_defs mqttSubmission_def toMqttDraft_def Let_def draft_defs
        option_names mqtt_settled_def js_or_def)
qed

interpretation mqtt: draft_family KindMQTT mqttSubmission toMqttDraft mqtt_settled labels_of
proof
  show "changes_nothing v (mqttSubmission (toMqttDraft v))"
    if "mqtt_settled d" "view_matches v (mqttSubmission d)" "secrets_match v (mqttSubmission d)" for d v
    using that by (rule mqtt_resubmit)
qed (simp_all add: mqttSubmission_def toMqttDraft_def Let_def draft_defs)

section \<open>NATS\<close>

definition OPTION_NATS_TLS :: string where [option_names]: "OPTION_NATS_TLS = ''tls''"
definition OPTION_NATS_TLS_CA_FILE :: string where [option_names]: "OPTION_NATS_TLS_CA_FILE = ''tlsCaFile''"
definition OPTION_NATS_TLS_CERT_FILE :: string where
  [option_names]: "OPTION_NATS_TLS_CERT_FILE = ''tlsCertFile''"
definition OPTION_NATS_TLS_KEY_FILE :: string where [option_names]: "OPTION_NATS_TLS_KEY_FILE = ''tlsKeyFile''"
definition OPTION_NATS_TLS_SKIP_VERIFY :: string where
  [option_names]: "OPTION_NATS_TLS_SKIP_VERIFY = ''tlsSkipVerify''"
definition OPTION_NATS_MONITOR_URL :: string where [option_names]: "OPTION_NATS_MONITOR_URL = ''monitorUrl''"
definition OPTION_NATS_JS_DOMAIN :: string where [option_names]: "OPTION_NATS_JS_DOMAIN = ''jsDomain''"
definition OPTION_NATS_CREDS_FILE :: string where [option_names]: "OPTION_NATS_CREDS_FILE = ''credsFile''"

datatype nats_mechanism = NatsNone | NatsPlain | NatsToken | NatsNkey | NatsCreds | NatsMtls

primrec NATS_MECHANISMS :: "nats_mechanism \<Rightarrow> auth_mechanism" where
  "NATS_MECHANISMS NatsNone = AuthNone"
| "NATS_MECHANISMS NatsPlain = AuthPlain"
| "NATS_MECHANISMS NatsToken = AuthToken"
| "NATS_MECHANISMS NatsNkey = AuthNKey"
| "NATS_MECHANISMS NatsCreds = AuthCreds"
| "NATS_MECHANISMS NatsMtls = AuthMutualTLS"

fun NATS_MECHANISM_OF :: "auth_mechanism \<Rightarrow> nats_mechanism option" where
  "NATS_MECHANISM_OF AuthPlain = Some NatsPlain"
| "NATS_MECHANISM_OF AuthToken = Some NatsToken"
| "NATS_MECHANISM_OF AuthNKey = Some NatsNkey"
| "NATS_MECHANISM_OF AuthCreds = Some NatsCreds"
| "NATS_MECHANISM_OF AuthMutualTLS = Some NatsMtls"
| "NATS_MECHANISM_OF _ = None"

lemma nats_mechanism_back [simp]:
  "nullish (NATS_MECHANISM_OF (NATS_MECHANISMS m)) NatsNone = m"
  by (cases m) simp_all

record nats_draft = credential_form +
  nt_endpoints :: string
  nt_mechanism :: nats_mechanism
  nt_username :: string
  nt_password :: string
  nt_token :: string
  nt_nkeySeed :: string
  nt_credsFile :: string
  nt_tls :: bool
  nt_tlsCaFile :: string
  nt_tlsCertFile :: string
  nt_tlsKeyFile :: string
  nt_tlsSkipVerify :: bool
  nt_monitorUrl :: string
  nt_systemUser :: string
  nt_systemPassword :: string
  nt_jsDomain :: string

definition emptyNatsDraft :: nats_draft where
  "emptyNatsDraft =
     \<lparr>df_name = '''', df_group = '''', df_remark = '''', df_timeoutSec = DEFAULT_TIMEOUT_SEC,
      df_credentialsStored = False, df_clearCredentials = False,
      nt_endpoints = '''', nt_mechanism = NatsNone, nt_username = '''', nt_password = '''',
      nt_token = '''', nt_nkeySeed = '''', nt_credsFile = '''', nt_tls = False,
      nt_tlsCaFile = '''', nt_tlsCertFile = '''', nt_tlsKeyFile = '''', nt_tlsSkipVerify = False,
      nt_monitorUrl = '''', nt_systemUser = '''', nt_systemPassword = '''', nt_jsDomain = ''''\<rparr>"

definition natsSubmission :: "nats_draft \<Rightarrow> submission" where
  "natsSubmission draft =
     (let mechanism = nt_mechanism draft;
          encrypted = (nt_tls draft \<or> mechanism = NatsMtls)
      in \<lparr>sub_draft =
            \<lparr>cd_name = js_trim (df_name draft), cd_group = df_group draft,
             cd_kind = KindNATS, cd_endpoints = js_trim (nt_endpoints draft),
             cd_timeoutSec = df_timeoutSec draft,
             cd_authMechanism = NATS_MECHANISMS mechanism,
             cd_options =
               [(OPTION_NATS_TLS, js_bool (nt_tls draft)),
                (OPTION_NATS_TLS_CA_FILE, if encrypted then js_trim (nt_tlsCaFile draft) else ''''),
                (OPTION_NATS_TLS_SKIP_VERIFY, js_bool (encrypted \<and> nt_tlsSkipVerify draft)),
                (OPTION_NATS_TLS_CERT_FILE,
                   if mechanism = NatsMtls then js_trim (nt_tlsCertFile draft) else ''''),
                (OPTION_NATS_TLS_KEY_FILE,
                   if mechanism = NatsMtls then js_trim (nt_tlsKeyFile draft) else ''''),
                (OPTION_NATS_CREDS_FILE,
                   if mechanism = NatsCreds then js_trim (nt_credsFile draft) else ''''),
                (OPTION_NATS_MONITOR_URL, js_trim (nt_monitorUrl draft)),
                (OPTION_NATS_JS_DOMAIN, js_trim (nt_jsDomain draft))],
             cd_secrets =
               [(''username'', if mechanism = NatsPlain then js_trim (nt_username draft) else ''''),
                (''password'', if mechanism = NatsPlain then js_trim (nt_password draft) else ''''),
                (''token'', if mechanism = NatsToken then js_trim (nt_token draft) else ''''),
                (''nkeySeed'', if mechanism = NatsNkey then js_trim (nt_nkeySeed draft) else ''''),
                (''systemUser'', js_trim (nt_systemUser draft)),
                (''systemPassword'', js_trim (nt_systemPassword draft))],
             cd_remark = df_remark draft\<rparr>,
          sub_mode = mode_preserving (df_clearCredentials draft) (keepStored draft)\<rparr>)"

definition toNatsDraft :: "connection_view \<Rightarrow> nats_draft" where
  "toNatsDraft v =
     (let mechanism = nullish (NATS_MECHANISM_OF (cv_authMechanism v)) NatsNone;
          tls = opt_true v OPTION_NATS_TLS;
          encrypted = (tls \<or> mechanism = NatsMtls) in
      \<lparr>df_name = cv_name v, df_group = cv_group v, df_remark = cv_remark v,
       df_timeoutSec = cv_timeoutSec v,
       df_credentialsStored = secrets_stored v, df_clearCredentials = False,
       nt_endpoints = cv_endpoints v, nt_mechanism = mechanism, nt_username = '''',
       nt_password = '''', nt_token = '''', nt_nkeySeed = '''',
       nt_credsFile = (if mechanism = NatsCreds then opt_str v OPTION_NATS_CREDS_FILE else ''''),
       nt_tls = tls,
       nt_tlsCaFile = (if encrypted then opt_str v OPTION_NATS_TLS_CA_FILE else ''''),
       nt_tlsCertFile = (if mechanism = NatsMtls then opt_str v OPTION_NATS_TLS_CERT_FILE else ''''),
       nt_tlsKeyFile = (if mechanism = NatsMtls then opt_str v OPTION_NATS_TLS_KEY_FILE else ''''),
       nt_tlsSkipVerify = (encrypted \<and> opt_true v OPTION_NATS_TLS_SKIP_VERIFY),
       nt_monitorUrl = opt_str v OPTION_NATS_MONITOR_URL, nt_systemUser = '''',
       nt_systemPassword = '''', nt_jsDomain = opt_str v OPTION_NATS_JS_DOMAIN\<rparr>)"

lemma nats_resubmit:
  assumes "\<not> df_clearCredentials d" "view_matches v (natsSubmission d)"
    "secrets_match v (natsSubmission d)"
  shows "changes_nothing v (natsSubmission (toNatsDraft v))"
  using assms
  by (cases "nt_mechanism d")
    (auto simp: contract_defs natsSubmission_def toNatsDraft_def Let_def draft_defs option_names)

interpretation nats: draft_family KindNATS natsSubmission toNatsDraft
  "\<lambda>d. \<not> df_clearCredentials d" labels_of
proof
  show "changes_nothing v (natsSubmission (toNatsDraft v))"
    if "\<not> df_clearCredentials d" "view_matches v (natsSubmission d)"
      "secrets_match v (natsSubmission d)" for d v
    using that by (rule nats_resubmit)
qed (simp_all add: natsSubmission_def toNatsDraft_def Let_def draft_defs)

section \<open>ActiveMQ\<close>

definition OPTION_ACTIVEMQ_JOLOKIA_PATH :: string where
  [option_names]: "OPTION_ACTIVEMQ_JOLOKIA_PATH = ''jolokiaPath''"
definition OPTION_ACTIVEMQ_BROKER_NAME :: string where
  [option_names]: "OPTION_ACTIVEMQ_BROKER_NAME = ''brokerName''"
definition OPTION_ACTIVEMQ_ORIGIN :: string where [option_names]: "OPTION_ACTIVEMQ_ORIGIN = ''originHeader''"
definition OPTION_ACTIVEMQ_AMQP_URL :: string where [option_names]: "OPTION_ACTIVEMQ_AMQP_URL = ''amqpUrl''"
definition OPTION_ACTIVEMQ_TLS_SKIP_VERIFY :: string where
  [option_names]: "OPTION_ACTIVEMQ_TLS_SKIP_VERIFY = ''tlsSkipVerify''"

text \<open>ActiveMQ, IBM MQ and Solace each declare the same two mechanisms, and the same reading.\<close>

datatype activemq_mechanism = ActiveMQNone | ActiveMQPlain

primrec ACTIVEMQ_MECHANISMS :: "activemq_mechanism \<Rightarrow> auth_mechanism" where
  "ACTIVEMQ_MECHANISMS ActiveMQNone = AuthNone"
| "ACTIVEMQ_MECHANISMS ActiveMQPlain = AuthPlain"

record activemq_draft = credential_form +
  am_endpoints :: string
  am_mechanism :: activemq_mechanism
  am_username :: string
  am_password :: string
  am_jolokiaPath :: string
  am_brokerName :: string
  am_originHeader :: string
  am_tlsSkipVerify :: bool
  am_amqpUrl :: string
  am_amqpUsername :: string
  am_amqpPassword :: string

definition emptyActiveMQDraft :: activemq_draft where
  "emptyActiveMQDraft =
     \<lparr>df_name = '''', df_group = '''', df_remark = '''', df_timeoutSec = DEFAULT_TIMEOUT_SEC,
      df_credentialsStored = False, df_clearCredentials = False,
      am_endpoints = '''', am_mechanism = ActiveMQPlain, am_username = '''', am_password = '''',
      am_jolokiaPath = '''', am_brokerName = '''', am_originHeader = '''',
      am_tlsSkipVerify = False, am_amqpUrl = '''', am_amqpUsername = '''', am_amqpPassword = ''''\<rparr>"

definition activeMQSubmission :: "activemq_draft \<Rightarrow> submission" where
  "activeMQSubmission draft =
     (let mechanism = am_mechanism draft;
          amqpUrl = js_trim (am_amqpUrl draft)
      in \<lparr>sub_draft =
            \<lparr>cd_name = js_trim (df_name draft), cd_group = df_group draft,
             cd_kind = KindActiveMQ, cd_endpoints = js_trim (am_endpoints draft),
             cd_timeoutSec = df_timeoutSec draft,
             cd_authMechanism = ACTIVEMQ_MECHANISMS mechanism,
             cd_options =
               [(OPTION_ACTIVEMQ_JOLOKIA_PATH, js_trim (am_jolokiaPath draft)),
                (OPTION_ACTIVEMQ_BROKER_NAME, js_trim (am_brokerName draft)),
                (OPTION_ACTIVEMQ_ORIGIN, js_trim (am_originHeader draft)),
                (OPTION_ACTIVEMQ_AMQP_URL, amqpUrl),
                (OPTION_ACTIVEMQ_TLS_SKIP_VERIFY, js_bool (am_tlsSkipVerify draft))],
             cd_secrets =
               [(''username'', if mechanism = ActiveMQPlain then js_trim (am_username draft) else ''''),
                (''password'', if mechanism = ActiveMQPlain then js_trim (am_password draft) else ''''),
                (''amqpUsername'', if amqpUrl = '''' then '''' else js_trim (am_amqpUsername draft)),
                (''amqpPassword'', if amqpUrl = '''' then '''' else js_trim (am_amqpPassword draft))],
             cd_remark = df_remark draft\<rparr>,
          sub_mode = mode_preserving (df_clearCredentials draft) (keepStored draft)\<rparr>)"

definition toActiveMQDraft :: "connection_view \<Rightarrow> activemq_draft" where
  "toActiveMQDraft v =
     \<lparr>df_name = cv_name v, df_group = cv_group v, df_remark = cv_remark v,
      df_timeoutSec = cv_timeoutSec v,
      df_credentialsStored = secrets_stored v, df_clearCredentials = False,
      am_endpoints = cv_endpoints v,
      am_mechanism = (if cv_authMechanism v = AuthNone then ActiveMQNone else ActiveMQPlain),
      am_username = '''', am_password = '''',
      am_jolokiaPath = opt_str v OPTION_ACTIVEMQ_JOLOKIA_PATH,
      am_brokerName = opt_str v OPTION_ACTIVEMQ_BROKER_NAME,
      am_originHeader = opt_str v OPTION_ACTIVEMQ_ORIGIN,
      am_tlsSkipVerify = opt_true v OPTION_ACTIVEMQ_TLS_SKIP_VERIFY,
      am_amqpUrl = opt_str v OPTION_ACTIVEMQ_AMQP_URL, am_amqpUsername = '''', am_amqpPassword = ''''\<rparr>"

lemma activemq_resubmit:
  assumes "\<not> df_clearCredentials d" "view_matches v (activeMQSubmission d)"
    "secrets_match v (activeMQSubmission d)"
  shows "changes_nothing v (activeMQSubmission (toActiveMQDraft v))"
  using assms
  by (cases "am_mechanism d")
    (auto simp: contract_defs activeMQSubmission_def toActiveMQDraft_def Let_def draft_defs option_names)

interpretation activemq: draft_family KindActiveMQ activeMQSubmission toActiveMQDraft
  "\<lambda>d. \<not> df_clearCredentials d" labels_of
proof
  show "changes_nothing v (activeMQSubmission (toActiveMQDraft v))"
    if "\<not> df_clearCredentials d" "view_matches v (activeMQSubmission d)"
      "secrets_match v (activeMQSubmission d)" for d v
    using that by (rule activemq_resubmit)
qed (simp_all add: activeMQSubmission_def toActiveMQDraft_def Let_def draft_defs)

section \<open>NSQ\<close>

definition OPTION_NSQ_LOOKUPD :: string where [option_names]: "OPTION_NSQ_LOOKUPD = ''lookupdEndpoints''"
definition OPTION_NSQ_TLS_SKIP_VERIFY :: string where
  [option_names]: "OPTION_NSQ_TLS_SKIP_VERIFY = ''tlsSkipVerify''"

text \<open>The one form with no credential at all.\<close>

record nsq_draft = form_base +
  nq_endpoints :: string
  nq_lookupdEndpoints :: string
  nq_tlsSkipVerify :: bool

definition emptyNsqDraft :: nsq_draft where
  "emptyNsqDraft =
     \<lparr>df_name = '''', df_group = '''', df_remark = '''', df_timeoutSec = DEFAULT_TIMEOUT_SEC,
      nq_endpoints = '''', nq_lookupdEndpoints = '''', nq_tlsSkipVerify = False\<rparr>"

definition nsqSubmission :: "nsq_draft \<Rightarrow> submission" where
  "nsqSubmission draft =
     \<lparr>sub_draft =
        \<lparr>cd_name = js_trim (df_name draft), cd_group = df_group draft,
         cd_kind = KindNSQ, cd_endpoints = js_trim (nq_endpoints draft),
         cd_timeoutSec = df_timeoutSec draft, cd_authMechanism = AuthNone,
         cd_options =
           [(OPTION_NSQ_LOOKUPD, js_trim (nq_lookupdEndpoints draft)),
            (OPTION_NSQ_TLS_SKIP_VERIFY, js_bool (nq_tlsSkipVerify draft))],
         cd_secrets = [], cd_remark = df_remark draft\<rparr>,
      sub_mode = ''replace''\<rparr>"

definition toNsqDraft :: "connection_view \<Rightarrow> nsq_draft" where
  "toNsqDraft v =
     \<lparr>df_name = cv_name v, df_group = cv_group v, df_remark = cv_remark v,
      df_timeoutSec = cv_timeoutSec v,
      nq_endpoints = cv_endpoints v, nq_lookupdEndpoints = opt_str v OPTION_NSQ_LOOKUPD,
      nq_tlsSkipVerify = opt_true v OPTION_NSQ_TLS_SKIP_VERIFY\<rparr>"

interpretation nsq: draft_family KindNSQ nsqSubmission toNsqDraft "\<lambda>d. True" labels_of
proof
  show "changes_nothing v (nsqSubmission (toNsqDraft v))"
    if "view_matches v (nsqSubmission d)" "secrets_match v (nsqSubmission d)" for d v
    using that
    by (auto simp: contract_defs nsqSubmission_def toNsqDraft_def draft_defs option_names)
qed (simp_all add: nsqSubmission_def toNsqDraft_def draft_defs)

section \<open>IBM MQ\<close>

definition OPTION_IBMMQ_QUEUE_MANAGER :: string where
  [option_names]: "OPTION_IBMMQ_QUEUE_MANAGER = ''queueManager''"
definition OPTION_IBMMQ_TLS_SKIP_VERIFY :: string where
  [option_names]: "OPTION_IBMMQ_TLS_SKIP_VERIFY = ''tlsSkipVerify''"

datatype ibmmq_mechanism = IbmMqNone | IbmMqPlain

primrec IBMMQ_MECHANISMS :: "ibmmq_mechanism \<Rightarrow> auth_mechanism" where
  "IBMMQ_MECHANISMS IbmMqNone = AuthNone"
| "IBMMQ_MECHANISMS IbmMqPlain = AuthPlain"

record ibmmq_draft = credential_form +
  ib_endpoints :: string
  ib_mechanism :: ibmmq_mechanism
  ib_username :: string
  ib_password :: string
  ib_queueManager :: string
  ib_messagingUsername :: string
  ib_messagingPassword :: string
  ib_tlsSkipVerify :: bool

definition emptyIbmMqDraft :: ibmmq_draft where
  "emptyIbmMqDraft =
     \<lparr>df_name = '''', df_group = '''', df_remark = '''', df_timeoutSec = DEFAULT_TIMEOUT_SEC,
      df_credentialsStored = False, df_clearCredentials = False,
      ib_endpoints = '''', ib_mechanism = IbmMqPlain, ib_username = '''', ib_password = '''',
      ib_queueManager = '''', ib_messagingUsername = '''', ib_messagingPassword = '''',
      ib_tlsSkipVerify = False\<rparr>"

definition ibmMqSubmission :: "ibmmq_draft \<Rightarrow> submission" where
  "ibmMqSubmission draft =
     (let mechanism = ib_mechanism draft;
          authenticated = (mechanism = IbmMqPlain)
      in \<lparr>sub_draft =
            \<lparr>cd_name = js_trim (df_name draft), cd_group = df_group draft,
             cd_kind = KindIBMMQ, cd_endpoints = js_trim (ib_endpoints draft),
             cd_timeoutSec = df_timeoutSec draft,
             cd_authMechanism = IBMMQ_MECHANISMS mechanism,
             cd_options =
               [(OPTION_IBMMQ_QUEUE_MANAGER, js_trim (ib_queueManager draft)),
                (OPTION_IBMMQ_TLS_SKIP_VERIFY, js_bool (ib_tlsSkipVerify draft))],
             cd_secrets =
               [(''username'', if authenticated then js_trim (ib_username draft) else ''''),
                (''password'', if authenticated then js_trim (ib_password draft) else ''''),
                (''messagingUsername'', if authenticated then js_trim (ib_messagingUsername draft) else ''''),
                (''messagingPassword'', if authenticated then js_trim (ib_messagingPassword draft) else '''')],
             cd_remark = df_remark draft\<rparr>,
          sub_mode = mode_preserving (df_clearCredentials draft) (keepStored draft)\<rparr>)"

definition toIbmMqDraft :: "connection_view \<Rightarrow> ibmmq_draft" where
  "toIbmMqDraft v =
     \<lparr>df_name = cv_name v, df_group = cv_group v, df_remark = cv_remark v,
      df_timeoutSec = cv_timeoutSec v,
      df_credentialsStored = secrets_stored v, df_clearCredentials = False,
      ib_endpoints = cv_endpoints v,
      ib_mechanism = (if cv_authMechanism v = AuthNone then IbmMqNone else IbmMqPlain),
      ib_username = '''', ib_password = '''',
      ib_queueManager = opt_str v OPTION_IBMMQ_QUEUE_MANAGER,
      ib_messagingUsername = '''', ib_messagingPassword = '''',
      ib_tlsSkipVerify = opt_true v OPTION_IBMMQ_TLS_SKIP_VERIFY\<rparr>"

lemma ibmmq_resubmit:
  assumes "\<not> df_clearCredentials d" "view_matches v (ibmMqSubmission d)"
    "secrets_match v (ibmMqSubmission d)"
  shows "changes_nothing v (ibmMqSubmission (toIbmMqDraft v))"
  using assms
  by (cases "ib_mechanism d")
    (auto simp: contract_defs ibmMqSubmission_def toIbmMqDraft_def Let_def draft_defs option_names)

interpretation ibmmq: draft_family KindIBMMQ ibmMqSubmission toIbmMqDraft
  "\<lambda>d. \<not> df_clearCredentials d" labels_of
proof
  show "changes_nothing v (ibmMqSubmission (toIbmMqDraft v))"
    if "\<not> df_clearCredentials d" "view_matches v (ibmMqSubmission d)"
      "secrets_match v (ibmMqSubmission d)" for d v
    using that by (rule ibmmq_resubmit)
qed (simp_all add: ibmMqSubmission_def toIbmMqDraft_def Let_def draft_defs)

section \<open>Solace\<close>

definition OPTION_SOLACE_MSG_VPN :: string where [option_names]: "OPTION_SOLACE_MSG_VPN = ''msgVpn''"
definition OPTION_SOLACE_REST_URL :: string where [option_names]: "OPTION_SOLACE_REST_URL = ''restUrl''"
definition OPTION_SOLACE_TLS_SKIP_VERIFY :: string where
  [option_names]: "OPTION_SOLACE_TLS_SKIP_VERIFY = ''tlsSkipVerify''"

datatype solace_mechanism = SolaceNone | SolacePlain

primrec SOLACE_MECHANISMS :: "solace_mechanism \<Rightarrow> auth_mechanism" where
  "SOLACE_MECHANISMS SolaceNone = AuthNone"
| "SOLACE_MECHANISMS SolacePlain = AuthPlain"

record solace_draft = credential_form +
  so_endpoints :: string
  so_mechanism :: solace_mechanism
  so_username :: string
  so_password :: string
  so_msgVpn :: string
  so_restUrl :: string
  so_restUsername :: string
  so_restPassword :: string
  so_tlsSkipVerify :: bool

definition emptySolaceDraft :: solace_draft where
  "emptySolaceDraft =
     \<lparr>df_name = '''', df_group = '''', df_remark = '''', df_timeoutSec = DEFAULT_TIMEOUT_SEC,
      df_credentialsStored = False, df_clearCredentials = False,
      so_endpoints = '''', so_mechanism = SolacePlain, so_username = '''', so_password = '''',
      so_msgVpn = '''', so_restUrl = '''', so_restUsername = '''', so_restPassword = '''',
      so_tlsSkipVerify = False\<rparr>"

text \<open>The REST pair is kept whatever the SEMP mechanism is: it is another interface's account.\<close>

definition solaceSubmission :: "solace_draft \<Rightarrow> submission" where
  "solaceSubmission draft =
     (let mechanism = so_mechanism draft;
          authenticated = (mechanism = SolacePlain)
      in \<lparr>sub_draft =
            \<lparr>cd_name = js_trim (df_name draft), cd_group = df_group draft,
             cd_kind = KindSolace, cd_endpoints = js_trim (so_endpoints draft),
             cd_timeoutSec = df_timeoutSec draft,
             cd_authMechanism = SOLACE_MECHANISMS mechanism,
             cd_options =
               [(OPTION_SOLACE_MSG_VPN, js_trim (so_msgVpn draft)),
                (OPTION_SOLACE_REST_URL, js_trim (so_restUrl draft)),
                (OPTION_SOLACE_TLS_SKIP_VERIFY, js_bool (so_tlsSkipVerify draft))],
             cd_secrets =
               [(''username'', if authenticated then js_trim (so_username draft) else ''''),
                (''password'', if authenticated then js_trim (so_password draft) else ''''),
                (''restUsername'', js_trim (so_restUsername draft)),
                (''restPassword'', js_trim (so_restPassword draft))],
             cd_remark = df_remark draft\<rparr>,
          sub_mode = mode_preserving (df_clearCredentials draft) (keepStored draft)\<rparr>)"

definition toSolaceDraft :: "connection_view \<Rightarrow> solace_draft" where
  "toSolaceDraft v =
     \<lparr>df_name = cv_name v, df_group = cv_group v, df_remark = cv_remark v,
      df_timeoutSec = cv_timeoutSec v,
      df_credentialsStored = secrets_stored v, df_clearCredentials = False,
      so_endpoints = cv_endpoints v,
      so_mechanism = (if cv_authMechanism v = AuthNone then SolaceNone else SolacePlain),
      so_username = '''', so_password = '''',
      so_msgVpn = opt_str v OPTION_SOLACE_MSG_VPN, so_restUrl = opt_str v OPTION_SOLACE_REST_URL,
      so_restUsername = '''', so_restPassword = '''',
      so_tlsSkipVerify = opt_true v OPTION_SOLACE_TLS_SKIP_VERIFY\<rparr>"

lemma solace_resubmit:
  assumes "\<not> df_clearCredentials d" "view_matches v (solaceSubmission d)"
    "secrets_match v (solaceSubmission d)"
  shows "changes_nothing v (solaceSubmission (toSolaceDraft v))"
  using assms
  by (cases "so_mechanism d")
    (auto simp: contract_defs solaceSubmission_def toSolaceDraft_def Let_def draft_defs option_names)

interpretation solace: draft_family KindSolace solaceSubmission toSolaceDraft
  "\<lambda>d. \<not> df_clearCredentials d" labels_of
proof
  show "changes_nothing v (solaceSubmission (toSolaceDraft v))"
    if "\<not> df_clearCredentials d" "view_matches v (solaceSubmission d)"
      "secrets_match v (solaceSubmission d)" for d v
    using that by (rule solace_resubmit)
qed (simp_all add: solaceSubmission_def toSolaceDraft_def Let_def draft_defs)

end
