(* ===== verification/DraftsHosted.thy ===== *)
theory DraftsHosted
  imports DraftsClassic
begin

text \<open>
  The connection forms of the hosted families, SQS, Google Pub/Sub, Azure Service Bus and
  Kinesis: drafts, submissions and the draft a stored profile opens on. The mechanism says
  whether a credential of its own was given; without one the machine's identity is used.
\<close>

section \<open>SQS\<close>

definition OPTION_SQS_REGION :: string where [option_names]: "OPTION_SQS_REGION = ''region''"
definition OPTION_SQS_QUEUE_PREFIX :: string where [option_names]: "OPTION_SQS_QUEUE_PREFIX = ''queuePrefix''"
definition OPTION_SQS_ENDPOINT_URL :: string where [option_names]: "OPTION_SQS_ENDPOINT_URL = ''endpointUrl''"

record sqs_draft = credential_form +
  sq_region :: string
  sq_accessKeyId :: string
  sq_secretAccessKey :: string
  sq_sessionToken :: string
  sq_queuePrefix :: string
  sq_endpointUrl :: string

definition emptySqsDraft :: sqs_draft where
  "emptySqsDraft =
     \<lparr>df_name = '''', df_group = '''', df_remark = '''', df_timeoutSec = DEFAULT_TIMEOUT_SEC,
      df_credentialsStored = False, df_clearCredentials = False,
      sq_region = '''', sq_accessKeyId = '''', sq_secretAccessKey = '''', sq_sessionToken = '''',
      sq_queuePrefix = '''', sq_endpointUrl = ''''\<rparr>"

definition sqsSubmission :: "sqs_draft \<Rightarrow> submission" where
  "sqsSubmission draft =
     (let accessKeyId = js_trim (sq_accessKeyId draft);
          secretAccessKey = js_trim (sq_secretAccessKey draft);
          sessionToken = js_trim (sq_sessionToken draft);
          typed = (accessKeyId \<noteq> '''' \<or> secretAccessKey \<noteq> '''' \<or> sessionToken \<noteq> '''');
          keep = keepStored draft
      in \<lparr>sub_draft =
            \<lparr>cd_name = js_trim (df_name draft), cd_group = df_group draft,
             cd_kind = KindSQS, cd_endpoints = '''', cd_timeoutSec = df_timeoutSec draft,
             cd_authMechanism = (if typed \<or> keep then AuthPlain else AuthNone),
             cd_options =
               [(OPTION_SQS_REGION, js_trim (sq_region draft)),
                (OPTION_SQS_QUEUE_PREFIX, js_trim (sq_queuePrefix draft)),
                (OPTION_SQS_ENDPOINT_URL, js_trim (sq_endpointUrl draft))],
             cd_secrets =
               [(''awsAccessKeyId'', accessKeyId), (''awsSecretAccessKey'', secretAccessKey),
                (''awsSessionToken'', sessionToken)],
             cd_remark = df_remark draft\<rparr>,
          sub_mode = mode_preserving (df_clearCredentials draft) keep\<rparr>)"

definition toSqsDraft :: "connection_view \<Rightarrow> sqs_draft" where
  "toSqsDraft v =
     \<lparr>df_name = cv_name v, df_group = cv_group v, df_remark = cv_remark v,
      df_timeoutSec = cv_timeoutSec v,
      df_credentialsStored = (cv_authMechanism v = AuthPlain \<and> secrets_stored v),
      df_clearCredentials = False,
      sq_region = opt_str v OPTION_SQS_REGION, sq_accessKeyId = '''', sq_secretAccessKey = '''',
      sq_sessionToken = '''', sq_queuePrefix = opt_str v OPTION_SQS_QUEUE_PREFIX,
      sq_endpointUrl = opt_str v OPTION_SQS_ENDPOINT_URL\<rparr>"

interpretation sqs: draft_family KindSQS sqsSubmission toSqsDraft
  "\<lambda>d. \<not> df_clearCredentials d" labels_of
proof
  show "changes_nothing v (sqsSubmission (toSqsDraft v))"
    if "\<not> df_clearCredentials d" "view_matches v (sqsSubmission d)"
      "secrets_match v (sqsSubmission d)" for d v
    using that
    by (auto simp: contract_defs sqsSubmission_def toSqsDraft_def Let_def draft_defs option_names)
qed (simp_all add: sqsSubmission_def toSqsDraft_def Let_def draft_defs)

section \<open>Google Pub/Sub\<close>

definition OPTION_PUBSUB_PROJECT_ID :: string where [option_names]: "OPTION_PUBSUB_PROJECT_ID = ''projectId''"
definition OPTION_PUBSUB_EMULATOR_HOST :: string where
  [option_names]: "OPTION_PUBSUB_EMULATOR_HOST = ''emulatorHost''"
definition OPTION_PUBSUB_RESOURCE_PREFIX :: string where
  [option_names]: "OPTION_PUBSUB_RESOURCE_PREFIX = ''resourcePrefix''"

record googlepubsub_draft = credential_form +
  gp_projectId :: string
  gp_credentialsJson :: string
  gp_resourcePrefix :: string
  gp_emulatorHost :: string

definition emptyGooglePubSubDraft :: googlepubsub_draft where
  "emptyGooglePubSubDraft =
     \<lparr>df_name = '''', df_group = '''', df_remark = '''', df_timeoutSec = DEFAULT_TIMEOUT_SEC,
      df_credentialsStored = False, df_clearCredentials = False,
      gp_projectId = '''', gp_credentialsJson = '''', gp_resourcePrefix = '''', gp_emulatorHost = ''''\<rparr>"

definition googlePubSubSubmission :: "googlepubsub_draft \<Rightarrow> submission" where
  "googlePubSubSubmission draft =
     (let credentials = js_trim (gp_credentialsJson draft);
          keep = keepStored draft
      in \<lparr>sub_draft =
            \<lparr>cd_name = js_trim (df_name draft), cd_group = df_group draft,
             cd_kind = KindGooglePubSub, cd_endpoints = '''', cd_timeoutSec = df_timeoutSec draft,
             cd_authMechanism = (if credentials \<noteq> '''' \<or> keep then AuthPlain else AuthNone),
             cd_options =
               [(OPTION_PUBSUB_PROJECT_ID, js_trim (gp_projectId draft)),
                (OPTION_PUBSUB_RESOURCE_PREFIX, js_trim (gp_resourcePrefix draft)),
                (OPTION_PUBSUB_EMULATOR_HOST, js_trim (gp_emulatorHost draft))],
             cd_secrets = [(''googleCredentialsJson'', credentials)],
             cd_remark = df_remark draft\<rparr>,
          sub_mode = mode_preserving (df_clearCredentials draft) keep\<rparr>)"

definition toGooglePubSubDraft :: "connection_view \<Rightarrow> googlepubsub_draft" where
  "toGooglePubSubDraft v =
     \<lparr>df_name = cv_name v, df_group = cv_group v, df_remark = cv_remark v,
      df_timeoutSec = cv_timeoutSec v,
      df_credentialsStored = (cv_authMechanism v = AuthPlain \<and> secrets_stored v),
      df_clearCredentials = False,
      gp_projectId = opt_str v OPTION_PUBSUB_PROJECT_ID, gp_credentialsJson = '''',
      gp_resourcePrefix = opt_str v OPTION_PUBSUB_RESOURCE_PREFIX,
      gp_emulatorHost = opt_str v OPTION_PUBSUB_EMULATOR_HOST\<rparr>"

interpretation googlepubsub: draft_family KindGooglePubSub googlePubSubSubmission toGooglePubSubDraft
  "\<lambda>d. \<not> df_clearCredentials d" labels_of
proof
  show "changes_nothing v (googlePubSubSubmission (toGooglePubSubDraft v))"
    if "\<not> df_clearCredentials d" "view_matches v (googlePubSubSubmission d)"
      "secrets_match v (googlePubSubSubmission d)" for d v
    using that
    by (auto simp: contract_defs googlePubSubSubmission_def toGooglePubSubDraft_def Let_def
        draft_defs option_names)
qed (simp_all add: googlePubSubSubmission_def toGooglePubSubDraft_def Let_def draft_defs)

section \<open>Azure Service Bus\<close>

definition OPTION_SB_KEY_NAME :: string where [option_names]: "OPTION_SB_KEY_NAME = ''sharedAccessKeyName''"
definition OPTION_SB_EMULATOR_MANAGEMENT :: string where
  [option_names]: "OPTION_SB_EMULATOR_MANAGEMENT = ''emulatorManagementHost''"
definition OPTION_SB_ENTITY_PREFIX :: string where [option_names]: "OPTION_SB_ENTITY_PREFIX = ''entityPrefix''"

definition SB_DEFAULT_KEY_NAME :: string where
  "SB_DEFAULT_KEY_NAME = ''RootManageSharedAccessKey''"

record azureservicebus_draft = credential_form +
  sb_endpoints :: string
  sb_keyName :: string
  sb_sharedAccessKey :: string
  sb_connectionString :: string
  sb_entityPrefix :: string
  sb_emulatorManagement :: string

definition emptyAzureServiceBusDraft :: azureservicebus_draft where
  "emptyAzureServiceBusDraft =
     \<lparr>df_name = '''', df_group = '''', df_remark = '''', df_timeoutSec = DEFAULT_TIMEOUT_SEC,
      df_credentialsStored = False, df_clearCredentials = False,
      sb_endpoints = '''', sb_keyName = SB_DEFAULT_KEY_NAME, sb_sharedAccessKey = '''',
      sb_connectionString = '''', sb_entityPrefix = '''', sb_emulatorManagement = ''''\<rparr>"

definition azureServiceBusSubmission :: "azureservicebus_draft \<Rightarrow> submission" where
  "azureServiceBusSubmission draft =
     (let key = js_trim (sb_sharedAccessKey draft);
          connectionString = js_trim (sb_connectionString draft);
          keep = keepStored draft;
          given = (key \<noteq> '''' \<or> connectionString \<noteq> '''' \<or> keep)
      in \<lparr>sub_draft =
            \<lparr>cd_name = js_trim (df_name draft), cd_group = df_group draft,
             cd_kind = KindAzureServiceBus, cd_endpoints = js_trim (sb_endpoints draft),
             cd_timeoutSec = df_timeoutSec draft,
             cd_authMechanism = (if given then AuthPlain else AuthNone),
             cd_options =
               [(OPTION_SB_KEY_NAME, js_trim (sb_keyName draft)),
                (OPTION_SB_ENTITY_PREFIX, js_trim (sb_entityPrefix draft)),
                (OPTION_SB_EMULATOR_MANAGEMENT, js_trim (sb_emulatorManagement draft))],
             cd_secrets =
               [(''azureSharedAccessKey'', key), (''azureConnectionString'', connectionString)],
             cd_remark = df_remark draft\<rparr>,
          sub_mode = mode_preserving (df_clearCredentials draft) keep\<rparr>)"

definition toAzureServiceBusDraft :: "connection_view \<Rightarrow> azureservicebus_draft" where
  "toAzureServiceBusDraft v =
     \<lparr>df_name = cv_name v, df_group = cv_group v, df_remark = cv_remark v,
      df_timeoutSec = cv_timeoutSec v,
      df_credentialsStored = (cv_authMechanism v = AuthPlain \<and> secrets_stored v),
      df_clearCredentials = False,
      sb_endpoints = cv_endpoints v,
      sb_keyName = js_or (opt_str v OPTION_SB_KEY_NAME) ''RootManageSharedAccessKey'',
      sb_sharedAccessKey = '''', sb_connectionString = '''',
      sb_entityPrefix = opt_str v OPTION_SB_ENTITY_PREFIX,
      sb_emulatorManagement = opt_str v OPTION_SB_EMULATOR_MANAGEMENT\<rparr>"

text \<open>A blank policy name opens as the portal's default, so saving again would write that.\<close>

interpretation azureservicebus: draft_family KindAzureServiceBus azureServiceBusSubmission
  toAzureServiceBusDraft "\<lambda>d. \<not> df_clearCredentials d \<and> js_trim (sb_keyName d) \<noteq> ''''" labels_of
proof
  show "changes_nothing v (azureServiceBusSubmission (toAzureServiceBusDraft v))"
    if "\<not> df_clearCredentials d \<and> js_trim (sb_keyName d) \<noteq> ''''"
      "view_matches v (azureServiceBusSubmission d)"
      "secrets_match v (azureServiceBusSubmission d)" for d v
    using that
    by (auto simp: contract_defs azureServiceBusSubmission_def toAzureServiceBusDraft_def Let_def
        draft_defs option_names js_or_def)
qed (simp_all add: azureServiceBusSubmission_def toAzureServiceBusDraft_def Let_def draft_defs)

section \<open>Kinesis\<close>

definition OPTION_KINESIS_REGION :: string where [option_names]: "OPTION_KINESIS_REGION = ''region''"
definition OPTION_KINESIS_STREAM_PREFIX :: string where
  [option_names]: "OPTION_KINESIS_STREAM_PREFIX = ''streamPrefix''"
definition OPTION_KINESIS_ENDPOINT_URL :: string where
  [option_names]: "OPTION_KINESIS_ENDPOINT_URL = ''endpointUrl''"

record kinesis_draft = credential_form +
  kn_region :: string
  kn_accessKeyId :: string
  kn_secretAccessKey :: string
  kn_sessionToken :: string
  kn_streamPrefix :: string
  kn_endpointUrl :: string

definition emptyKinesisDraft :: kinesis_draft where
  "emptyKinesisDraft =
     \<lparr>df_name = '''', df_group = '''', df_remark = '''', df_timeoutSec = DEFAULT_TIMEOUT_SEC,
      df_credentialsStored = False, df_clearCredentials = False,
      kn_region = '''', kn_accessKeyId = '''', kn_secretAccessKey = '''', kn_sessionToken = '''',
      kn_streamPrefix = '''', kn_endpointUrl = ''''\<rparr>"

definition kinesisSubmission :: "kinesis_draft \<Rightarrow> submission" where
  "kinesisSubmission draft =
     (let accessKeyId = js_trim (kn_accessKeyId draft);
          secretAccessKey = js_trim (kn_secretAccessKey draft);
          sessionToken = js_trim (kn_sessionToken draft);
          typed = (accessKeyId \<noteq> '''' \<or> secretAccessKey \<noteq> '''' \<or> sessionToken \<noteq> '''');
          keep = keepStored draft
      in \<lparr>sub_draft =
            \<lparr>cd_name = js_trim (df_name draft), cd_group = df_group draft,
             cd_kind = KindKinesis, cd_endpoints = '''', cd_timeoutSec = df_timeoutSec draft,
             cd_authMechanism = (if typed \<or> keep then AuthPlain else AuthNone),
             cd_options =
               [(OPTION_KINESIS_REGION, js_trim (kn_region draft)),
                (OPTION_KINESIS_STREAM_PREFIX, js_trim (kn_streamPrefix draft)),
                (OPTION_KINESIS_ENDPOINT_URL, js_trim (kn_endpointUrl draft))],
             cd_secrets =
               [(''awsAccessKeyId'', accessKeyId), (''awsSecretAccessKey'', secretAccessKey),
                (''awsSessionToken'', sessionToken)],
             cd_remark = df_remark draft\<rparr>,
          sub_mode = mode_preserving (df_clearCredentials draft) keep\<rparr>)"

definition toKinesisDraft :: "connection_view \<Rightarrow> kinesis_draft" where
  "toKinesisDraft v =
     \<lparr>df_name = cv_name v, df_group = cv_group v, df_remark = cv_remark v,
      df_timeoutSec = cv_timeoutSec v,
      df_credentialsStored = (cv_authMechanism v = AuthPlain \<and> secrets_stored v),
      df_clearCredentials = False,
      kn_region = opt_str v OPTION_KINESIS_REGION, kn_accessKeyId = '''', kn_secretAccessKey = '''',
      kn_sessionToken = '''', kn_streamPrefix = opt_str v OPTION_KINESIS_STREAM_PREFIX,
      kn_endpointUrl = opt_str v OPTION_KINESIS_ENDPOINT_URL\<rparr>"

interpretation kinesis: draft_family KindKinesis kinesisSubmission toKinesisDraft
  "\<lambda>d. \<not> df_clearCredentials d" labels_of
proof
  show "changes_nothing v (kinesisSubmission (toKinesisDraft v))"
    if "\<not> df_clearCredentials d" "view_matches v (kinesisSubmission d)"
      "secrets_match v (kinesisSubmission d)" for d v
    using that
    by (auto simp: contract_defs kinesisSubmission_def toKinesisDraft_def Let_def draft_defs
        option_names)
qed (simp_all add: kinesisSubmission_def toKinesisDraft_def Let_def draft_defs)

end
