(* ===== verification/Protocols.thy ===== *)
theory Protocols
  imports Canonical
begin

text \<open>
  The protocol registry of the shell (design/data/protocols.ts): the protocols and the pages
  of each sidebar, their order in the picker and the three groups they are sorted into. An
  icon is a component of the lucide library, kept here by its name; a label is a translation
  key.
\<close>

section \<open>Protocols, pages and entries\<close>

datatype protocol_id =
    P_RocketMQ | P_Kafka | P_RabbitMQ | P_Pulsar | P_Redis
  | P_MQTT | P_NATS | P_ActiveMQ | P_NSQ | P_SQS
  | P_GooglePubSub | P_AzureServiceBus | P_Kinesis | P_IBMMQ | P_Solace

datatype page_id =
    Page_overview | Page_topics | Page_shards | Page_channels | Page_exchanges
  | Page_vhosts | Page_policies | Page_definitions | Page_replication | Page_quotas
  | Page_consumers | Page_messages | Page_dlq | Page_producer | Page_subscribe
  | Page_clients | Page_cluster | Page_alerts | Page_acl

datatype lucide_icon =
    Icon_BellRing | Icon_Boxes | Icon_Cable | Icon_FileJson | Icon_Gauge
  | Icon_House | Icon_Layers | Icon_Mail | Icon_Plug | Icon_Radio
  | Icon_ScrollText | Icon_Send | Icon_Server | Icon_Shield | Icon_Split
  | Icon_TriangleAlert | Icon_Users | Icon_Waypoints

primrec protocol_text :: "protocol_id \<Rightarrow> string" where
  "protocol_text P_RocketMQ = ''rocketmq''"
| "protocol_text P_Kafka = ''kafka''"
| "protocol_text P_RabbitMQ = ''rabbitmq''"
| "protocol_text P_Pulsar = ''pulsar''"
| "protocol_text P_Redis = ''redis''"
| "protocol_text P_MQTT = ''mqtt''"
| "protocol_text P_NATS = ''nats''"
| "protocol_text P_ActiveMQ = ''activemq''"
| "protocol_text P_NSQ = ''nsq''"
| "protocol_text P_SQS = ''sqs''"
| "protocol_text P_GooglePubSub = ''google-pubsub''"
| "protocol_text P_AzureServiceBus = ''azure-servicebus''"
| "protocol_text P_Kinesis = ''kinesis''"
| "protocol_text P_IBMMQ = ''ibmmq''"
| "protocol_text P_Solace = ''solace''"

primrec page_text :: "page_id \<Rightarrow> string" where
  "page_text Page_overview = ''overview''"
| "page_text Page_topics = ''topics''"
| "page_text Page_shards = ''shards''"
| "page_text Page_channels = ''channels''"
| "page_text Page_exchanges = ''exchanges''"
| "page_text Page_vhosts = ''vhosts''"
| "page_text Page_policies = ''policies''"
| "page_text Page_definitions = ''definitions''"
| "page_text Page_replication = ''replication''"
| "page_text Page_quotas = ''quotas''"
| "page_text Page_consumers = ''consumers''"
| "page_text Page_messages = ''messages''"
| "page_text Page_dlq = ''dlq''"
| "page_text Page_producer = ''producer''"
| "page_text Page_subscribe = ''subscribe''"
| "page_text Page_clients = ''clients''"
| "page_text Page_cluster = ''cluster''"
| "page_text Page_alerts = ''alerts''"
| "page_text Page_acl = ''acl''"

record nav_entry =
  ne_id :: page_id
  ne_icon :: lucide_icon
  ne_label :: string

record nav_group =
  ng_label :: "string option"
  ng_items :: "nav_entry list"

record protocol =
  pt_id :: protocol_id
  pt_name :: string
  pt_badge :: string
  pt_badgeClass :: string
  pt_nav :: "nav_group list"

abbreviation entry :: "page_id \<Rightarrow> lucide_icon \<Rightarrow> string \<Rightarrow> nav_entry" where
  "entry i c l \<equiv> \<lparr>ne_id = i, ne_icon = c, ne_label = l\<rparr>"

definition BROWSE :: string where "BROWSE = ''shell.nav.browse''"
definition OPS :: string where "OPS = ''shell.nav.ops''"

section \<open>The registry\<close>

definition rocketmq_protocol :: protocol where
  "rocketmq_protocol =
     \<lparr>pt_id = P_RocketMQ, pt_name = ''RocketMQ'', pt_badge = ''RMQ 4/5'', pt_badgeClass = ''pRMQ'',
      pt_nav =
       [\<lparr>ng_label = None,
          ng_items =
           [entry Page_overview Icon_House ''shell.nav.rocketmq.overview'']\<rparr>,
        \<lparr>ng_label = Some BROWSE,
          ng_items =
           [entry Page_topics Icon_Layers ''shell.nav.rocketmq.topics'',
            entry Page_consumers Icon_Users ''shell.nav.rocketmq.consumers'',
            entry Page_messages Icon_Mail ''shell.nav.rocketmq.messages'',
            entry Page_dlq Icon_TriangleAlert ''shell.nav.rocketmq.dlq'',
            entry Page_producer Icon_Send ''shell.nav.rocketmq.producer'']\<rparr>,
        \<lparr>ng_label = Some OPS,
          ng_items =
           [entry Page_cluster Icon_Server ''shell.nav.rocketmq.cluster'',
            entry Page_alerts Icon_BellRing ''shell.nav.rocketmq.alerts'',
            entry Page_acl Icon_Shield ''shell.nav.rocketmq.acl'']\<rparr>]\<rparr>"

definition kafka_protocol :: protocol where
  "kafka_protocol =
     \<lparr>pt_id = P_Kafka, pt_name = ''Kafka'', pt_badge = ''KAFKA'', pt_badgeClass = ''pKFK'',
      pt_nav =
       [\<lparr>ng_label = None,
          ng_items =
           [entry Page_overview Icon_House ''shell.nav.kafka.overview'']\<rparr>,
        \<lparr>ng_label = Some BROWSE,
          ng_items =
           [entry Page_topics Icon_Layers ''shell.nav.kafka.topics'',
            entry Page_consumers Icon_Users ''shell.nav.kafka.consumers'',
            entry Page_messages Icon_Mail ''shell.nav.kafka.messages'',
            entry Page_producer Icon_Send ''shell.nav.kafka.producer'']\<rparr>,
        \<lparr>ng_label = Some OPS,
          ng_items =
           [entry Page_cluster Icon_Server ''shell.nav.kafka.cluster'',
            entry Page_acl Icon_Shield ''shell.nav.kafka.acl'',
            entry Page_quotas Icon_Gauge ''shell.nav.kafka.quotas'',
            entry Page_alerts Icon_BellRing ''shell.nav.kafka.alerts'']\<rparr>]\<rparr>"

definition rabbitmq_protocol :: protocol where
  "rabbitmq_protocol =
     \<lparr>pt_id = P_RabbitMQ, pt_name = ''RabbitMQ'', pt_badge = ''RABBIT'', pt_badgeClass = ''pAMQ'',
      pt_nav =
       [\<lparr>ng_label = None,
          ng_items =
           [entry Page_overview Icon_House ''shell.nav.rabbitmq.overview'']\<rparr>,
        \<lparr>ng_label = Some BROWSE,
          ng_items =
           [entry Page_topics Icon_Layers ''shell.nav.rabbitmq.topics'',
            entry Page_exchanges Icon_Waypoints ''shell.nav.rabbitmq.exchanges'',
            entry Page_consumers Icon_Users ''shell.nav.rabbitmq.consumers'',
            entry Page_messages Icon_Mail ''shell.nav.rabbitmq.messages'',
            entry Page_dlq Icon_TriangleAlert ''shell.nav.rabbitmq.dlq'',
            entry Page_producer Icon_Send ''shell.nav.rabbitmq.producer'']\<rparr>,
        \<lparr>ng_label = Some OPS,
          ng_items =
           [entry Page_cluster Icon_Server ''shell.nav.rabbitmq.cluster'',
            entry Page_vhosts Icon_Boxes ''shell.nav.rabbitmq.vhosts'',
            entry Page_policies Icon_ScrollText ''shell.nav.rabbitmq.policies'',
            entry Page_replication Icon_Cable ''shell.nav.rabbitmq.replication'',
            entry Page_definitions Icon_FileJson ''shell.nav.rabbitmq.definitions'',
            entry Page_alerts Icon_BellRing ''shell.nav.rabbitmq.alerts'',
            entry Page_acl Icon_Shield ''shell.nav.rabbitmq.acl'']\<rparr>]\<rparr>"

definition pulsar_protocol :: protocol where
  "pulsar_protocol =
     \<lparr>pt_id = P_Pulsar, pt_name = ''Pulsar'', pt_badge = ''PULSAR'', pt_badgeClass = ''pPLS'',
      pt_nav =
       [\<lparr>ng_label = None,
          ng_items =
           [entry Page_overview Icon_House ''shell.nav.pulsar.overview'']\<rparr>,
        \<lparr>ng_label = Some BROWSE,
          ng_items =
           [entry Page_vhosts Icon_Boxes ''shell.nav.pulsar.vhosts'',
            entry Page_topics Icon_Layers ''shell.nav.pulsar.topics'',
            entry Page_consumers Icon_Users ''shell.nav.pulsar.consumers'',
            entry Page_messages Icon_Mail ''shell.nav.pulsar.messages'',
            entry Page_dlq Icon_TriangleAlert ''shell.nav.pulsar.dlq'',
            entry Page_producer Icon_Send ''shell.nav.pulsar.producer'']\<rparr>,
        \<lparr>ng_label = Some OPS,
          ng_items =
           [entry Page_cluster Icon_Server ''shell.nav.pulsar.cluster'',
            entry Page_alerts Icon_BellRing ''shell.nav.pulsar.alerts'',
            entry Page_acl Icon_Shield ''shell.nav.pulsar.acl'']\<rparr>]\<rparr>"

definition redis_protocol :: protocol where
  "redis_protocol =
     \<lparr>pt_id = P_Redis, pt_name = ''Redis Stream'', pt_badge = ''REDIS'', pt_badgeClass = ''pRDS'',
      pt_nav =
       [\<lparr>ng_label = None,
          ng_items =
           [entry Page_overview Icon_House ''shell.nav.redis.overview'']\<rparr>,
        \<lparr>ng_label = Some BROWSE,
          ng_items =
           [entry Page_topics Icon_Layers ''shell.nav.redis.topics'',
            entry Page_consumers Icon_Users ''shell.nav.redis.consumers'',
            entry Page_messages Icon_Mail ''shell.nav.redis.messages'',
            entry Page_dlq Icon_TriangleAlert ''shell.nav.redis.dlq'',
            entry Page_producer Icon_Send ''shell.nav.redis.producer'']\<rparr>,
        \<lparr>ng_label = Some OPS,
          ng_items =
           [entry Page_cluster Icon_Server ''shell.nav.redis.cluster'',
            entry Page_clients Icon_Plug ''shell.nav.redis.clients'',
            entry Page_alerts Icon_BellRing ''shell.nav.redis.alerts'',
            entry Page_acl Icon_Shield ''shell.nav.redis.acl'']\<rparr>]\<rparr>"

definition mqtt_protocol :: protocol where
  "mqtt_protocol =
     \<lparr>pt_id = P_MQTT, pt_name = ''MQTT'', pt_badge = ''MQTT'', pt_badgeClass = ''pMQT'',
      pt_nav =
       [\<lparr>ng_label = None,
          ng_items =
           [entry Page_overview Icon_House ''shell.nav.mqtt.overview'']\<rparr>,
        \<lparr>ng_label = Some BROWSE,
          ng_items =
           [entry Page_topics Icon_Layers ''shell.nav.mqtt.topics'',
            entry Page_subscribe Icon_Radio ''shell.nav.mqtt.subscribe'',
            entry Page_producer Icon_Send ''shell.nav.mqtt.producer'',
            entry Page_clients Icon_Plug ''shell.nav.mqtt.clients'']\<rparr>,
        \<lparr>ng_label = Some OPS,
          ng_items =
           [entry Page_cluster Icon_Server ''shell.nav.mqtt.cluster'',
            entry Page_alerts Icon_BellRing ''shell.nav.mqtt.alerts'']\<rparr>]\<rparr>"

definition nats_protocol :: protocol where
  "nats_protocol =
     \<lparr>pt_id = P_NATS, pt_name = ''NATS'', pt_badge = ''NATS 2.x'', pt_badgeClass = ''pNAT'',
      pt_nav =
       [\<lparr>ng_label = None,
          ng_items =
           [entry Page_overview Icon_House ''shell.nav.nats.overview'']\<rparr>,
        \<lparr>ng_label = Some BROWSE,
          ng_items =
           [entry Page_topics Icon_Layers ''shell.nav.nats.topics'',
            entry Page_consumers Icon_Users ''shell.nav.nats.consumers'',
            entry Page_messages Icon_Mail ''shell.nav.nats.messages'',
            entry Page_producer Icon_Send ''shell.nav.nats.producer'',
            entry Page_subscribe Icon_Radio ''shell.nav.nats.subscribe'']\<rparr>,
        \<lparr>ng_label = Some OPS,
          ng_items =
           [entry Page_cluster Icon_Server ''shell.nav.nats.cluster'',
            entry Page_clients Icon_Plug ''shell.nav.nats.clients'',
            entry Page_vhosts Icon_Boxes ''shell.nav.nats.vhosts'',
            entry Page_alerts Icon_BellRing ''shell.nav.nats.alerts'']\<rparr>]\<rparr>"

definition activemq_protocol :: protocol where
  "activemq_protocol =
     \<lparr>pt_id = P_ActiveMQ, pt_name = ''ActiveMQ'', pt_badge = ''AMQ'', pt_badgeClass = ''pAMQ'',
      pt_nav =
       [\<lparr>ng_label = None,
          ng_items =
           [entry Page_overview Icon_House ''shell.nav.activemq.overview'']\<rparr>,
        \<lparr>ng_label = Some BROWSE,
          ng_items =
           [entry Page_topics Icon_Layers ''shell.nav.activemq.topics'',
            entry Page_consumers Icon_Users ''shell.nav.activemq.consumers'',
            entry Page_messages Icon_Mail ''shell.nav.activemq.messages'',
            entry Page_dlq Icon_TriangleAlert ''shell.nav.activemq.dlq'',
            entry Page_producer Icon_Send ''shell.nav.activemq.producer'',
            entry Page_subscribe Icon_Radio ''shell.nav.activemq.subscribe'']\<rparr>,
        \<lparr>ng_label = Some OPS,
          ng_items =
           [entry Page_cluster Icon_Server ''shell.nav.activemq.cluster'',
            entry Page_clients Icon_Plug ''shell.nav.activemq.clients'',
            entry Page_alerts Icon_BellRing ''shell.nav.activemq.alerts'']\<rparr>]\<rparr>"

definition nsq_protocol :: protocol where
  "nsq_protocol =
     \<lparr>pt_id = P_NSQ, pt_name = ''NSQ'', pt_badge = ''NSQ'', pt_badgeClass = ''pNSQ'',
      pt_nav =
       [\<lparr>ng_label = None,
          ng_items =
           [entry Page_overview Icon_House ''shell.nav.nsq.overview'']\<rparr>,
        \<lparr>ng_label = Some BROWSE,
          ng_items =
           [entry Page_topics Icon_Layers ''shell.nav.nsq.topics'',
            entry Page_consumers Icon_Users ''shell.nav.nsq.consumers'',
            entry Page_producer Icon_Send ''shell.nav.nsq.producer'']\<rparr>,
        \<lparr>ng_label = Some OPS,
          ng_items =
           [entry Page_cluster Icon_Server ''shell.nav.nsq.cluster'',
            entry Page_clients Icon_Plug ''shell.nav.nsq.clients'',
            entry Page_alerts Icon_BellRing ''shell.nav.nsq.alerts'']\<rparr>]\<rparr>"

definition sqs_protocol :: protocol where
  "sqs_protocol =
     \<lparr>pt_id = P_SQS, pt_name = ''Amazon SQS'', pt_badge = ''SQS'', pt_badgeClass = ''pSQS'',
      pt_nav =
       [\<lparr>ng_label = None,
          ng_items =
           [entry Page_overview Icon_House ''shell.nav.sqs.overview'']\<rparr>,
        \<lparr>ng_label = Some BROWSE,
          ng_items =
           [entry Page_topics Icon_Layers ''shell.nav.sqs.topics'',
            entry Page_messages Icon_Mail ''shell.nav.sqs.messages'',
            entry Page_dlq Icon_TriangleAlert ''shell.nav.sqs.dlq'',
            entry Page_producer Icon_Send ''shell.nav.sqs.producer'']\<rparr>,
        \<lparr>ng_label = Some OPS,
          ng_items =
           [entry Page_alerts Icon_BellRing ''shell.nav.sqs.alerts'']\<rparr>]\<rparr>"

definition googlepubsub_protocol :: protocol where
  "googlepubsub_protocol =
     \<lparr>pt_id = P_GooglePubSub, pt_name = ''Google Pub/Sub'', pt_badge = ''PUB/SUB'', pt_badgeClass = ''pGPS'',
      pt_nav =
       [\<lparr>ng_label = None,
          ng_items =
           [entry Page_overview Icon_House ''shell.nav.google-pubsub.overview'']\<rparr>,
        \<lparr>ng_label = Some BROWSE,
          ng_items =
           [entry Page_topics Icon_Layers ''shell.nav.google-pubsub.topics'',
            entry Page_consumers Icon_Users ''shell.nav.google-pubsub.consumers'',
            entry Page_messages Icon_Mail ''shell.nav.google-pubsub.messages'',
            entry Page_dlq Icon_TriangleAlert ''shell.nav.google-pubsub.dlq'',
            entry Page_producer Icon_Send ''shell.nav.google-pubsub.producer'']\<rparr>,
        \<lparr>ng_label = Some OPS,
          ng_items =
           [entry Page_alerts Icon_BellRing ''shell.nav.google-pubsub.alerts'']\<rparr>]\<rparr>"

definition azureservicebus_protocol :: protocol where
  "azureservicebus_protocol =
     \<lparr>pt_id = P_AzureServiceBus, pt_name = ''Azure Service Bus'', pt_badge = ''SB'', pt_badgeClass = ''pASB'',
      pt_nav =
       [\<lparr>ng_label = None,
          ng_items =
           [entry Page_overview Icon_House ''shell.nav.azure-servicebus.overview'']\<rparr>,
        \<lparr>ng_label = Some BROWSE,
          ng_items =
           [entry Page_topics Icon_Layers ''shell.nav.azure-servicebus.topics'',
            entry Page_consumers Icon_Users ''shell.nav.azure-servicebus.consumers'',
            entry Page_exchanges Icon_Waypoints ''shell.nav.azure-servicebus.exchanges'',
            entry Page_messages Icon_Mail ''shell.nav.azure-servicebus.messages'',
            entry Page_dlq Icon_TriangleAlert ''shell.nav.azure-servicebus.dlq'',
            entry Page_producer Icon_Send ''shell.nav.azure-servicebus.producer'']\<rparr>,
        \<lparr>ng_label = Some OPS,
          ng_items =
           [entry Page_alerts Icon_BellRing ''shell.nav.azure-servicebus.alerts'']\<rparr>]\<rparr>"

definition kinesis_protocol :: protocol where
  "kinesis_protocol =
     \<lparr>pt_id = P_Kinesis, pt_name = ''Amazon Kinesis'', pt_badge = ''KDS'', pt_badgeClass = ''pKDS'',
      pt_nav =
       [\<lparr>ng_label = None,
          ng_items =
           [entry Page_overview Icon_House ''shell.nav.kinesis.overview'']\<rparr>,
        \<lparr>ng_label = Some BROWSE,
          ng_items =
           [entry Page_topics Icon_Layers ''shell.nav.kinesis.topics'',
            entry Page_shards Icon_Split ''shell.nav.kinesis.shards'',
            entry Page_consumers Icon_Users ''shell.nav.kinesis.consumers'',
            entry Page_messages Icon_Mail ''shell.nav.kinesis.messages'',
            entry Page_producer Icon_Send ''shell.nav.kinesis.producer'']\<rparr>,
        \<lparr>ng_label = Some OPS,
          ng_items =
           [entry Page_alerts Icon_BellRing ''shell.nav.kinesis.alerts'']\<rparr>]\<rparr>"

definition ibmmq_protocol :: protocol where
  "ibmmq_protocol =
     \<lparr>pt_id = P_IBMMQ, pt_name = ''IBM MQ'', pt_badge = ''IMQ'', pt_badgeClass = ''pIMQ'',
      pt_nav =
       [\<lparr>ng_label = None,
          ng_items =
           [entry Page_overview Icon_House ''shell.nav.ibmmq.overview'']\<rparr>,
        \<lparr>ng_label = Some BROWSE,
          ng_items =
           [entry Page_topics Icon_Layers ''shell.nav.ibmmq.topics'',
            entry Page_channels Icon_Cable ''shell.nav.ibmmq.channels'',
            entry Page_consumers Icon_Users ''shell.nav.ibmmq.consumers'',
            entry Page_messages Icon_Mail ''shell.nav.ibmmq.messages'',
            entry Page_producer Icon_Send ''shell.nav.ibmmq.producer'']\<rparr>,
        \<lparr>ng_label = Some OPS,
          ng_items =
           [entry Page_dlq Icon_TriangleAlert ''shell.nav.ibmmq.dlq'',
            entry Page_alerts Icon_BellRing ''shell.nav.ibmmq.alerts'']\<rparr>]\<rparr>"

definition solace_protocol :: protocol where
  "solace_protocol =
     \<lparr>pt_id = P_Solace, pt_name = ''Solace PubSub+'', pt_badge = ''SOL'', pt_badgeClass = ''pSOL'',
      pt_nav =
       [\<lparr>ng_label = None,
          ng_items =
           [entry Page_overview Icon_House ''shell.nav.solace.overview'']\<rparr>,
        \<lparr>ng_label = Some BROWSE,
          ng_items =
           [entry Page_topics Icon_Layers ''shell.nav.solace.topics'',
            entry Page_exchanges Icon_Split ''shell.nav.solace.exchanges'',
            entry Page_messages Icon_Mail ''shell.nav.solace.messages'',
            entry Page_producer Icon_Send ''shell.nav.solace.producer'',
            entry Page_clients Icon_Plug ''shell.nav.solace.clients'']\<rparr>,
        \<lparr>ng_label = Some OPS,
          ng_items =
           [entry Page_dlq Icon_TriangleAlert ''shell.nav.solace.dlq'',
            entry Page_cluster Icon_Server ''shell.nav.solace.cluster'',
            entry Page_alerts Icon_BellRing ''shell.nav.solace.alerts'']\<rparr>]\<rparr>"

primrec PROTOCOLS :: "protocol_id \<Rightarrow> protocol" where
  "PROTOCOLS P_RocketMQ = rocketmq_protocol"
| "PROTOCOLS P_Kafka = kafka_protocol"
| "PROTOCOLS P_RabbitMQ = rabbitmq_protocol"
| "PROTOCOLS P_Pulsar = pulsar_protocol"
| "PROTOCOLS P_Redis = redis_protocol"
| "PROTOCOLS P_MQTT = mqtt_protocol"
| "PROTOCOLS P_NATS = nats_protocol"
| "PROTOCOLS P_ActiveMQ = activemq_protocol"
| "PROTOCOLS P_NSQ = nsq_protocol"
| "PROTOCOLS P_SQS = sqs_protocol"
| "PROTOCOLS P_GooglePubSub = googlepubsub_protocol"
| "PROTOCOLS P_AzureServiceBus = azureservicebus_protocol"
| "PROTOCOLS P_Kinesis = kinesis_protocol"
| "PROTOCOLS P_IBMMQ = ibmmq_protocol"
| "PROTOCOLS P_Solace = solace_protocol"

definition PROTOCOL_ORDER :: "protocol_id list" where
  "PROTOCOL_ORDER = [P_RocketMQ, P_Kafka, P_RabbitMQ, P_Pulsar, P_Redis, P_MQTT, P_NATS, P_ActiveMQ, P_NSQ, P_SQS, P_GooglePubSub, P_AzureServiceBus, P_Kinesis, P_IBMMQ, P_Solace]"

section \<open>Readers\<close>

definition pagesOf :: "protocol_id \<Rightarrow> page_id list" where
  "pagesOf p = concat (map (\<lambda>g. map ne_id (ng_items g)) (pt_nav (PROTOCOLS p)))"

text \<open>The two nested loops return at the first entry of the page, else the page's own id.\<close>

definition labelOf :: "protocol_id \<Rightarrow> page_id \<Rightarrow> string" where
  "labelOf p page =
     (case find (\<lambda>e. ne_id e = page) (concat (map ng_items (pt_nav (PROTOCOLS p)))) of
        Some e \<Rightarrow> ne_label e | None \<Rightarrow> page_text page)"

definition READY :: "protocol_id list" where
  "READY = [P_RocketMQ, P_RabbitMQ, P_Kafka, P_Pulsar, P_Redis, P_MQTT, P_NATS, P_ActiveMQ, P_NSQ, P_SQS, P_GooglePubSub, P_AzureServiceBus, P_Kinesis, P_IBMMQ, P_Solace]"

definition isProtocolReady :: "protocol_id \<Rightarrow> bool" where
  "isProtocolReady p \<longleftrightarrow> p \<in> set READY"

datatype protocol_group = SelfHosted | Hosted | Enterprise

primrec GROUP_OF :: "protocol_id \<Rightarrow> protocol_group" where
  "GROUP_OF P_RocketMQ = SelfHosted"
| "GROUP_OF P_Kafka = SelfHosted"
| "GROUP_OF P_RabbitMQ = SelfHosted"
| "GROUP_OF P_Pulsar = SelfHosted"
| "GROUP_OF P_Redis = SelfHosted"
| "GROUP_OF P_MQTT = SelfHosted"
| "GROUP_OF P_NATS = SelfHosted"
| "GROUP_OF P_ActiveMQ = SelfHosted"
| "GROUP_OF P_NSQ = SelfHosted"
| "GROUP_OF P_SQS = Hosted"
| "GROUP_OF P_GooglePubSub = Hosted"
| "GROUP_OF P_AzureServiceBus = Hosted"
| "GROUP_OF P_Kinesis = Hosted"
| "GROUP_OF P_IBMMQ = Enterprise"
| "GROUP_OF P_Solace = Enterprise"

definition PROTOCOL_GROUPS :: "(protocol_group \<times> string) list" where
  "PROTOCOL_GROUPS =
     [(SelfHosted, ''page.connections.group.selfHosted''),
      (Hosted, ''page.connections.group.hosted''),
      (Enterprise, ''page.connections.group.enterprise'')]"

definition protocolsIn :: "protocol_group \<Rightarrow> protocol_id list" where
  "protocolsIn g = filter (\<lambda>p. GROUP_OF p = g) PROTOCOL_ORDER"

definition groupOf :: "protocol_id \<Rightarrow> protocol_group" where
  "groupOf p = GROUP_OF p"

lemma order_complete: "p \<in> set PROTOCOL_ORDER"
  by (cases p) (simp_all add: PROTOCOL_ORDER_def)

lemma order_distinct: "distinct PROTOCOL_ORDER"
  by (simp add: PROTOCOL_ORDER_def)

lemma ready_all: "isProtocolReady p"
  by (cases p) (simp_all add: isProtocolReady_def READY_def)

end
