(* ===== verification/DraftDispatch.thy ===== *)
theory DraftDispatch
  imports DraftsBrokers DraftsHosted Protocols Json
begin

text \<open>
  The dialog's side of connectionDraft.ts: the union of the fifteen drafts, the dispatch on
  its tag, what the dialog opens on and what a connection test depends on.
\<close>

section \<open>The union of the drafts\<close>

datatype protocol_draft =
    D_RocketMQ rocketmq_draft | D_RabbitMQ rabbitmq_draft | D_Kafka kafka_draft
  | D_Pulsar pulsar_draft | D_Redis redis_draft | D_MQTT mqtt_draft | D_NATS nats_draft
  | D_ActiveMQ activemq_draft | D_NSQ nsq_draft | D_SQS sqs_draft
  | D_GooglePubSub googlepubsub_draft | D_AzureServiceBus azureservicebus_draft
  | D_Kinesis kinesis_draft | D_IBMMQ ibmmq_draft | D_Solace solace_draft

primrec draft_protocol :: "protocol_draft \<Rightarrow> protocol_id" where
  "draft_protocol (D_RocketMQ d) = P_RocketMQ"
| "draft_protocol (D_RabbitMQ d) = P_RabbitMQ"
| "draft_protocol (D_Kafka d) = P_Kafka"
| "draft_protocol (D_Pulsar d) = P_Pulsar"
| "draft_protocol (D_Redis d) = P_Redis"
| "draft_protocol (D_MQTT d) = P_MQTT"
| "draft_protocol (D_NATS d) = P_NATS"
| "draft_protocol (D_ActiveMQ d) = P_ActiveMQ"
| "draft_protocol (D_NSQ d) = P_NSQ"
| "draft_protocol (D_SQS d) = P_SQS"
| "draft_protocol (D_GooglePubSub d) = P_GooglePubSub"
| "draft_protocol (D_AzureServiceBus d) = P_AzureServiceBus"
| "draft_protocol (D_Kinesis d) = P_Kinesis"
| "draft_protocol (D_IBMMQ d) = P_IBMMQ"
| "draft_protocol (D_Solace d) = P_Solace"

definition DRAFTABLE :: "protocol_id list" where
  "DRAFTABLE =
     [P_RocketMQ, P_RabbitMQ, P_Kafka, P_Pulsar, P_Redis, P_MQTT, P_NATS, P_ActiveMQ, P_NSQ,
      P_SQS, P_GooglePubSub, P_AzureServiceBus, P_Kinesis, P_IBMMQ, P_Solace]"

definition isDraftable :: "protocol_id \<Rightarrow> bool" where
  "isDraftable p \<longleftrightarrow> p \<in> set DRAFTABLE"

fun emptyDraft :: "protocol_id \<Rightarrow> protocol_draft" where
  "emptyDraft P_RabbitMQ = D_RabbitMQ emptyRabbitMQDraft"
| "emptyDraft P_Kafka = D_Kafka emptyKafkaDraft"
| "emptyDraft P_Pulsar = D_Pulsar emptyPulsarDraft"
| "emptyDraft P_Redis = D_Redis emptyRedisDraft"
| "emptyDraft P_MQTT = D_MQTT emptyMqttDraft"
| "emptyDraft P_NATS = D_NATS emptyNatsDraft"
| "emptyDraft P_ActiveMQ = D_ActiveMQ emptyActiveMQDraft"
| "emptyDraft P_NSQ = D_NSQ emptyNsqDraft"
| "emptyDraft P_SQS = D_SQS emptySqsDraft"
| "emptyDraft P_GooglePubSub = D_GooglePubSub emptyGooglePubSubDraft"
| "emptyDraft P_AzureServiceBus = D_AzureServiceBus emptyAzureServiceBusDraft"
| "emptyDraft P_Kinesis = D_Kinesis emptyKinesisDraft"
| "emptyDraft P_IBMMQ = D_IBMMQ emptyIbmMqDraft"
| "emptyDraft P_Solace = D_Solace emptySolaceDraft"
| "emptyDraft _ = D_RocketMQ emptyRocketMQDraft"

fun toSubmission :: "protocol_draft \<Rightarrow> submission" where
  "toSubmission (D_RabbitMQ d) = rabbitMQSubmission d"
| "toSubmission (D_Kafka d) = kafkaSubmission d"
| "toSubmission (D_Pulsar d) = pulsarSubmission d"
| "toSubmission (D_Redis d) = redisSubmission d"
| "toSubmission (D_MQTT d) = mqttSubmission d"
| "toSubmission (D_NATS d) = natsSubmission d"
| "toSubmission (D_ActiveMQ d) = activeMQSubmission d"
| "toSubmission (D_NSQ d) = nsqSubmission d"
| "toSubmission (D_SQS d) = sqsSubmission d"
| "toSubmission (D_GooglePubSub d) = googlePubSubSubmission d"
| "toSubmission (D_AzureServiceBus d) = azureServiceBusSubmission d"
| "toSubmission (D_Kinesis d) = kinesisSubmission d"
| "toSubmission (D_IBMMQ d) = ibmMqSubmission d"
| "toSubmission (D_Solace d) = solaceSubmission d"
| "toSubmission (D_RocketMQ d) = rocketMQSubmission d"

definition toDraft :: "connection_view \<Rightarrow> protocol_draft" where
  "toDraft v =
     (case cv_kind v of
        KindRabbitMQ \<Rightarrow> D_RabbitMQ (toRabbitMQDraft v)
      | KindKafka \<Rightarrow> D_Kafka (toKafkaDraft v)
      | KindPulsar \<Rightarrow> D_Pulsar (toPulsarDraft v)
      | KindRedisStream \<Rightarrow> D_Redis (toRedisDraft v)
      | KindMQTT \<Rightarrow> D_MQTT (toMqttDraft v)
      | KindNATS \<Rightarrow> D_NATS (toNatsDraft v)
      | KindActiveMQ \<Rightarrow> D_ActiveMQ (toActiveMQDraft v)
      | KindNSQ \<Rightarrow> D_NSQ (toNsqDraft v)
      | KindSQS \<Rightarrow> D_SQS (toSqsDraft v)
      | KindGooglePubSub \<Rightarrow> D_GooglePubSub (toGooglePubSubDraft v)
      | KindAzureServiceBus \<Rightarrow> D_AzureServiceBus (toAzureServiceBusDraft v)
      | KindKinesis \<Rightarrow> D_Kinesis (toKinesisDraft v)
      | KindIBMMQ \<Rightarrow> D_IBMMQ (toIbmMqDraft v)
      | KindSolace \<Rightarrow> D_Solace (toSolaceDraft v)
      | _ \<Rightarrow> D_RocketMQ (toRocketMQDraft v))"

datatype dialog_step = StepProtocol | StepForm

definition dialogOpening ::
    "connection_view option \<Rightarrow> protocol_id option \<Rightarrow> dialog_step \<times> protocol_draft" where
  "dialogOpening editing family =
     (case editing of
        Some v \<Rightarrow> (StepForm, toDraft v)
      | None \<Rightarrow>
          (case family of
             Some p \<Rightarrow> (if isProtocolReady p \<and> isDraftable p then (StepForm, emptyDraft p)
                        else (StepProtocol, emptyDraft P_RocketMQ))
           | None \<Rightarrow> (StepProtocol, emptyDraft P_RocketMQ)))"

section \<open>The kind of a protocol\<close>

text \<open>\<open>PROTOCOL_BY_KIND\<close> of design/data/connections.ts; Redis Stream is "redis" to the shell.\<close>

fun protocolOfKind :: "mq_kind \<Rightarrow> protocol_id option" where
  "protocolOfKind KindRocketMQ = Some P_RocketMQ"
| "protocolOfKind KindKafka = Some P_Kafka"
| "protocolOfKind KindRabbitMQ = Some P_RabbitMQ"
| "protocolOfKind KindPulsar = Some P_Pulsar"
| "protocolOfKind KindRedisStream = Some P_Redis"
| "protocolOfKind KindMQTT = Some P_MQTT"
| "protocolOfKind KindNATS = Some P_NATS"
| "protocolOfKind KindActiveMQ = Some P_ActiveMQ"
| "protocolOfKind KindNSQ = Some P_NSQ"
| "protocolOfKind KindSQS = Some P_SQS"
| "protocolOfKind KindGooglePubSub = Some P_GooglePubSub"
| "protocolOfKind KindAzureServiceBus = Some P_AzureServiceBus"
| "protocolOfKind KindKinesis = Some P_Kinesis"
| "protocolOfKind KindIBMMQ = Some P_IBMMQ"
| "protocolOfKind KindSolace = Some P_Solace"
| "protocolOfKind KindZero = None"

lemma submission_protocol:
  "protocolOfKind (cd_kind (sub_draft (toSubmission d))) = Some (draft_protocol d)"
  by (cases d)
    (simp_all add: rocketmq.kind rabbitmq.kind kafka.kind pulsar.kind redis.kind mqtt.kind
      nats.kind activemq.kind nsq.kind sqs.kind googlepubsub.kind azureservicebus.kind
      kinesis.kind ibmmq.kind solace.kind)

lemma reopened_protocol:
  "draft_protocol (toDraft v) = nullish (protocolOfKind (cv_kind v)) P_RocketMQ"
  by (cases "cv_kind v") (simp_all add: toDraft_def)

lemma empty_protocol: "draft_protocol (emptyDraft p) = p"
  by (cases p) simp_all

lemma draftable_all: "isDraftable p"
  by (cases p) (simp_all add: isDraftable_def DRAFTABLE_def)

section \<open>Resubmitting a profile that was not touched\<close>

text \<open>Drafts that leave no field to a default the store does not record.\<close>

fun settled_draft :: "protocol_draft \<Rightarrow> bool" where
  "settled_draft (D_RocketMQ d) \<longleftrightarrow> \<not> df_clearCredentials d"
| "settled_draft (D_RabbitMQ d) \<longleftrightarrow> \<not> df_clearCredentials d"
| "settled_draft (D_Kafka d) \<longleftrightarrow> \<not> df_clearCredentials d"
| "settled_draft (D_Pulsar d) \<longleftrightarrow> \<not> df_clearCredentials d"
| "settled_draft (D_Redis d) \<longleftrightarrow> \<not> df_clearCredentials d \<and> 0 \<le> rd_db d"
| "settled_draft (D_MQTT d) \<longleftrightarrow> mqtt_settled d"
| "settled_draft (D_NATS d) \<longleftrightarrow> \<not> df_clearCredentials d"
| "settled_draft (D_ActiveMQ d) \<longleftrightarrow> \<not> df_clearCredentials d"
| "settled_draft (D_NSQ d) \<longleftrightarrow> True"
| "settled_draft (D_SQS d) \<longleftrightarrow> \<not> df_clearCredentials d"
| "settled_draft (D_GooglePubSub d) \<longleftrightarrow> \<not> df_clearCredentials d"
| "settled_draft (D_AzureServiceBus d) \<longleftrightarrow> \<not> df_clearCredentials d \<and> js_trim (sb_keyName d) \<noteq> ''''"
| "settled_draft (D_Kinesis d) \<longleftrightarrow> \<not> df_clearCredentials d"
| "settled_draft (D_IBMMQ d) \<longleftrightarrow> \<not> df_clearCredentials d"
| "settled_draft (D_Solace d) \<longleftrightarrow> \<not> df_clearCredentials d"

lemma resubmission_changes_nothing:
  assumes d: "settled_draft d" and v: "view_matches v (toSubmission d)"
    and s: "secrets_match v (toSubmission d)"
  shows "changes_nothing v (toSubmission (toDraft v))"
proof -
  have kind: "cv_kind v = cd_kind (sub_draft (toSubmission d))"
    using v by (simp add: view_matches_def)
  show ?thesis
    using d v s kind
    by (cases d)
      (simp_all add: toDraft_def
        rocketmq.kind rocketmq.resubmit rabbitmq.kind rabbitmq.resubmit
        kafka.kind kafka.resubmit pulsar.kind pulsar.resubmit redis.kind redis.resubmit
        mqtt.kind mqtt.resubmit nats.kind nats.resubmit activemq.kind activemq.resubmit
        nsq.kind nsq.resubmit sqs.kind sqs.resubmit googlepubsub.kind googlepubsub.resubmit
        azureservicebus.kind azureservicebus.resubmit kinesis.kind kinesis.resubmit
        ibmmq.kind ibmmq.resubmit solace.kind solace.resubmit)
qed

end
