(* ===== verification/ConnValidation.thy ===== *)
theory ConnValidation
  imports JsText DraftDispatch
begin

text \<open>
  Whether a connection form can be submitted, and the message when it cannot
  (design/boards/connections/connectionValidation.ts): one function per family, the
  dispatch with the two checks every form shares, and what an accepted form guarantees.
  The translator \<open>t\<close> is the argument it is in the code.
\<close>

section \<open>Counting addresses\<close>

definition address_separators :: "string list" where
  "address_separators = [CHR '',''] # [CHR '';''] # js_whitespace"

definition countAddresses :: "string \<Rightarrow> nat" where
  "countAddresses raw =
     length (filter (\<lambda>part. js_trim part \<noteq> '''') (split_runs address_separators raw))"

text \<open>Among ASCII characters the separators are the blanks, the comma and the semicolon.\<close>

definition address_break :: "char \<Rightarrow> bool" where
  "address_break c \<longleftrightarrow> is_blank c \<or> c = CHR '','' \<or> c = CHR '';''"

lemma separators_class: "single_in (\<lambda>c. char_between c 0 127) address_separators"
  by (simp add: address_separators_def single_in_def js_whitespace_def char_between_def)

lemma separator_words: "[c] \<in> set address_separators \<longleftrightarrow> address_break c"
  by (auto simp: address_separators_def address_break_def blank_words)

lemma trim_word:
  assumes "ascii w" and "\<forall>c \<in> set w. \<not> is_blank c"
  shows "js_trim w = w"
proof -
  have none: "dropWhile is_blank xs = xs" if "\<forall>c \<in> set xs. \<not> is_blank c" for xs
    using that by (cases xs) simp_all
  have "dropWhile is_blank w = w" "dropWhile is_blank (rev w) = rev w"
    using assms(2) by (auto intro: none)
  then show ?thesis by (simp add: trim_ascii [OF assms(1)] trim_blanks_def)
qed

text \<open>The count is the number of fields between separators.\<close>

lemma countAddresses_fields:
  "ascii s \<Longrightarrow> countAddresses s = length (fields_on address_break s)"
proof (induction "length s" arbitrary: s rule: less_induct)
  case less
  let ?word = "\<lambda>c. \<not> address_break c"
  let ?w = "takeWhile ?word s" and ?rest = "dropWhile ?word s"
  have asc: "ascii ?w" "ascii ?rest" "ascii (dropWhile address_break ?rest)"
    using less.prems by (auto simp: ascii_def list_all_iff dest: set_takeWhileD set_dropWhileD)
  have until: "word_until address_separators s = (?w, ?rest)"
    using word_until_class [OF separators_class] less.prems by (simp add: ascii_def separator_words)
  have strip: "strip_words address_separators ?rest = dropWhile address_break ?rest"
    using strip_words_class [OF separators_class] asc(2) by (simp add: ascii_def separator_words)
  have trimmed: "js_trim ?w = ?w"
    by (rule trim_word [OF asc(1)]) (auto simp: address_break_def dest: set_takeWhileD)
  have step: "countAddresses s = (if ?w = [] then 0 else 1) +
      (if ?rest = [] then 0 else countAddresses (dropWhile address_break ?rest))"
    unfolding countAddresses_def
    by (subst split_runs_unfold) (simp add: until strip trimmed del: dropWhile_eq_Nil_conv)
  have tail: "?rest \<noteq> [] \<Longrightarrow> countAddresses (dropWhile address_break ?rest) = length (fields_on address_break ?rest)"
  proof -
    assume "?rest \<noteq> []"
    from split_runs_guard [OF until this] strip have "length (dropWhile address_break ?rest) < length s" by simp
    from less.hyps [OF this asc(3)] show ?thesis by (simp only: fields_skip)
  qed
  have none: "fields_on address_break [] = []" by (simp add: fields_blank)
  show ?case
  proof (cases "?w = []")
    case True
    then have "?rest = s" by (cases s) (auto split: if_splits)
    with True step tail none show ?thesis by (cases "s = []") simp_all
  next
    case False
    then have "s \<noteq> []" "\<not> address_break (hd s)" by (cases s; auto split: if_splits)+
    from fields_word [where sep = address_break, OF this] False step tail none show ?thesis
      by (cases "?rest = []") (simp_all del: dropWhile_eq_Nil_conv)
  qed
qed

lemma countAddresses_trim:
  assumes "ascii s"
  shows "countAddresses (js_trim s) = countAddresses s"
proof -
  obtain a b where s: "s = a @ trim_blanks s @ b" and blank: "list_all is_blank a" "list_all is_blank b"
    using trim_blanks_sub by blast
  have br: "list_all address_break a" "list_all address_break b"
    using blank by (auto simp: list_all_iff address_break_def)
  have "fields_on address_break s = fields_on address_break (trim_blanks s @ b)"
    using br(1) fields_skip [of address_break "a @ trim_blanks s @ b"]
      fields_skip [of address_break "trim_blanks s @ b"] s
    by (metis dropWhile_append2 list_all_iff)
  also have "\<dots> = fields_on address_break (trim_blanks s)"
    using fields_append [of b address_break "trim_blanks s"] br(2) fields_blank [OF br(2)]
    by (cases b) simp_all
  finally show ?thesis
    using countAddresses_fields [OF ascii_trim [OF assms]]
    by (simp add: countAddresses_fields [OF assms] trim_ascii [OF assms])
qed

section \<open>The rules of each family\<close>

definition blank :: "string \<Rightarrow> bool" where "blank s \<longleftrightarrow> js_trim s = ''''"

text \<open>Half of a pair of credentials.\<close>

definition half_pair :: "string \<Rightarrow> string \<Rightarrow> bool" where
  "half_pair a b \<longleftrightarrow> (js_trim a = '''') \<noteq> (js_trim b = '''')"

named_theorems family_rules "the rules of the fifteen forms"

definition rabbitmq_reason :: "(string \<Rightarrow> string) \<Rightarrow> rabbitmq_draft \<Rightarrow> string option" where
  [family_rules]: "rabbitmq_reason t d =
     (if blank (rb_management d) then Some (t ''page.connections.managementRequired'')
      else if \<not> keepStored d \<and> blank (rb_username d)
      then Some (t ''page.connections.usernameRequired'')
      else None)"

definition kafka_reason :: "(string \<Rightarrow> string) \<Rightarrow> kafka_draft \<Rightarrow> string option" where
  [family_rules]: "kafka_reason t d =
     (if blank (kf_endpoints d) then Some (t ''page.connections.bootstrapRequired'')
      else if kf_mechanism d \<noteq> KafkaNone \<and> \<not> keepStored d \<and> blank (kf_username d)
      then Some (t ''page.connections.usernameRequired'')
      else None)"

definition pulsar_reason :: "(string \<Rightarrow> string) \<Rightarrow> pulsar_draft \<Rightarrow> string option" where
  [family_rules]: "pulsar_reason t d =
     (if blank (pl_service d) then Some (t ''page.connections.serviceUrlRequired'')
      else if blank (pl_admin d) then Some (t ''page.connections.adminUrlRequired'')
      else if blank (pl_tenant d) \<or> blank (pl_namespace d)
      then Some (t ''page.connections.scopeRequired'')
      else if pl_auth d = PulsarToken \<and> \<not> keepStored d \<and> blank (pl_token d)
      then Some (t ''page.connections.tokenRequired'')
      else None)"

definition redis_reason :: "(string \<Rightarrow> string) \<Rightarrow> redis_draft \<Rightarrow> string option" where
  [family_rules]: "redis_reason t d =
     (if blank (rd_endpoints d) then Some (t ''page.connections.endpointsRequired'')
      else if rd_deployment d = Standalone \<and> countAddresses (rd_endpoints d) > 1
      then Some (t ''page.connections.form.redis.oneAddressOnly'')
      else if rd_deployment d = Sentinel \<and> blank (rd_masterName d)
      then Some (t ''page.connections.form.redis.masterNameRequired'')
      else None)"

definition mqtt_reason :: "(string \<Rightarrow> string) \<Rightarrow> mqtt_draft \<Rightarrow> string option" where
  [family_rules]: "mqtt_reason t d =
     (if blank (mq_endpoints d) then Some (t ''page.connections.brokerRequired'')
      else if mq_mechanism d \<noteq> MqttNone \<and> \<not> keepStored d \<and> blank (mq_username d)
      then Some (t ''page.connections.usernameRequired'')
      else if \<not> blank (mq_managementUrl d) \<and> \<not> keepStored d \<and> blank (mq_managementKey d)
      then Some (t ''page.connections.form.mqtt.managementKeyRequired'')
      else None)"

definition nats_reason :: "(string \<Rightarrow> string) \<Rightarrow> nats_draft \<Rightarrow> string option" where
  [family_rules]: "nats_reason t d =
     (let stored = keepStored d; m = nt_mechanism d in
      if blank (nt_endpoints d) then Some (t ''page.connections.form.nats.serversRequired'')
      else if \<not> stored \<and> m = NatsPlain \<and> blank (nt_username d)
      then Some (t ''page.connections.usernameRequired'')
      else if \<not> stored \<and> m = NatsToken \<and> blank (nt_token d)
      then Some (t ''page.connections.form.nats.tokenRequired'')
      else if \<not> stored \<and> m = NatsNkey \<and> blank (nt_nkeySeed d)
      then Some (t ''page.connections.form.nats.nkeySeedRequired'')
      else if m = NatsCreds \<and> blank (nt_credsFile d)
      then Some (t ''page.connections.form.nats.credsFileRequired'')
      else if m = NatsMtls \<and> (blank (nt_tlsCertFile d) \<or> blank (nt_tlsKeyFile d))
      then Some (t ''page.connections.form.nats.certPairRequired'')
      else if \<not> stored \<and> \<not> blank (nt_systemUser d) \<and> blank (nt_systemPassword d)
      then Some (t ''page.connections.form.nats.systemPasswordRequired'')
      else None)"

definition activemq_reason :: "(string \<Rightarrow> string) \<Rightarrow> activemq_draft \<Rightarrow> string option" where
  [family_rules]: "activemq_reason t d =
     (if blank (am_endpoints d) then Some (t ''page.connections.endpointsRequired'')
      else if \<not> http_scheme (js_trim (am_endpoints d))
      then Some (t ''page.connections.form.activemq.consoleScheme'')
      else None)"

definition nsq_reason :: "(string \<Rightarrow> string) \<Rightarrow> nsq_draft \<Rightarrow> string option" where
  [family_rules]: "nsq_reason t d =
     (if blank (nq_endpoints d) then Some (t ''page.connections.form.nsq.nsqdRequired'') else None)"

definition sqs_reason :: "(string \<Rightarrow> string) \<Rightarrow> sqs_draft \<Rightarrow> string option" where
  [family_rules]: "sqs_reason t d =
     (let endpoint = js_trim (sq_endpointUrl d) in
      if blank (sq_region d) then Some (t ''page.connections.form.sqs.regionRequired'')
      else if \<not> keepStored d \<and> half_pair (sq_accessKeyId d) (sq_secretAccessKey d)
      then Some (t ''page.connections.form.sqs.credentialPairRequired'')
      else if endpoint \<noteq> '''' \<and> \<not> http_scheme endpoint
      then Some (t ''page.connections.form.sqs.endpointScheme'')
      else None)"

definition googlepubsub_reason :: "(string \<Rightarrow> string) \<Rightarrow> googlepubsub_draft \<Rightarrow> string option" where
  [family_rules]: "googlepubsub_reason t d =
     (let credentials = js_trim (gp_credentialsJson d); emulator = js_trim (gp_emulatorHost d) in
      if blank (gp_projectId d) then Some (t ''page.connections.form.google-pubsub.projectRequired'')
      else if \<not> keepStored d \<and> credentials \<noteq> '''' \<and> \<not> prefix ''{'' credentials
      then Some (t ''page.connections.form.google-pubsub.credentialsNotJson'')
      else if emulator \<noteq> '''' \<and> url_scheme emulator
      then Some (t ''page.connections.form.google-pubsub.emulatorHostNoScheme'')
      else None)"

definition azureservicebus_reason ::
    "(string \<Rightarrow> string) \<Rightarrow> azureservicebus_draft \<Rightarrow> string option" where
  [family_rules]: "azureservicebus_reason t d =
     (let key = js_trim (sb_sharedAccessKey d); connectionString = js_trim (sb_connectionString d);
          emulator = js_trim (sb_emulatorManagement d) in
      if blank (sb_endpoints d)
      then Some (t ''page.connections.form.azure-servicebus.namespaceRequired'')
      else if \<not> keepStored d \<and> key = '''' \<and> connectionString = ''''
      then Some (t ''page.connections.form.azure-servicebus.credentialRequired'')
      else if connectionString \<noteq> '''' \<and> \<not> js_includes ''Endpoint='' connectionString
      then Some (t ''page.connections.form.azure-servicebus.connectionStringMalformed'')
      else if emulator \<noteq> '''' \<and> url_scheme emulator
      then Some (t ''page.connections.form.azure-servicebus.emulatorManagementNoScheme'')
      else None)"

definition kinesis_reason :: "(string \<Rightarrow> string) \<Rightarrow> kinesis_draft \<Rightarrow> string option" where
  [family_rules]: "kinesis_reason t d =
     (let endpoint = js_trim (kn_endpointUrl d) in
      if blank (kn_region d) then Some (t ''page.connections.form.kinesis.regionRequired'')
      else if \<not> keepStored d \<and> half_pair (kn_accessKeyId d) (kn_secretAccessKey d)
      then Some (t ''page.connections.form.kinesis.credentialPairRequired'')
      else if endpoint \<noteq> '''' \<and> \<not> http_scheme endpoint
      then Some (t ''page.connections.form.kinesis.endpointScheme'')
      else None)"

text \<open>\<open>/^[A-Za-z0-9._/%]{1,48}$/\<close>\<close>

definition mq_object_name :: "string \<Rightarrow> bool" where
  "mq_object_name s \<longleftrightarrow> 1 \<le> length s \<and> length s \<le> 48 \<and>
     list_all (\<lambda>c. is_letter c \<or> is_digit c \<or> c \<in> set ''._/%'') s"

definition ibmmq_reason :: "(string \<Rightarrow> string) \<Rightarrow> ibmmq_draft \<Rightarrow> string option" where
  [family_rules]: "ibmmq_reason t d =
     (let endpoints = js_trim (ib_endpoints d); qmgr = js_trim (ib_queueManager d) in
      if endpoints = '''' then Some (t ''page.connections.form.ibmmq.mqwebRequired'')
      else if \<not> http_scheme endpoints then Some (t ''page.connections.form.ibmmq.mqwebScheme'')
      else if qmgr \<noteq> '''' \<and> \<not> mq_object_name qmgr
      then Some (t ''page.connections.form.ibmmq.queueManagerName'')
      else if ib_mechanism d = IbmMqPlain \<and> \<not> keepStored d \<and>
          half_pair (ib_messagingUsername d) (ib_messagingPassword d)
      then Some (t ''page.connections.form.ibmmq.messagingPairRequired'')
      else None)"

definition solace_reason :: "(string \<Rightarrow> string) \<Rightarrow> solace_draft \<Rightarrow> string option" where
  [family_rules]: "solace_reason t d =
     (let endpoints = js_trim (so_endpoints d); vpn = js_trim (so_msgVpn d) in
      if endpoints = '''' then Some (t ''page.connections.form.solace.sempRequired'')
      else if \<not> http_scheme endpoints then Some (t ''page.connections.form.solace.sempScheme'')
      else if vpn \<noteq> '''' \<and> (utf16_length vpn > 32 \<or> list_ex (\<lambda>c. c \<in> set ''*?'') vpn)
      then Some (t ''page.connections.form.solace.msgVpnName'')
      else if \<not> keepStored d \<and> half_pair (so_restUsername d) (so_restPassword d)
      then Some (t ''page.connections.form.solace.restPairRequired'')
      else None)"

definition rocketmq_reason :: "(string \<Rightarrow> string) \<Rightarrow> rocketmq_draft \<Rightarrow> string option" where
  [family_rules]: "rocketmq_reason t d =
     (if blank (rk_endpoints d) then Some (t ''page.connections.endpointsRequired'')
      else if rk_version d = Version5 \<and> rk_access d = AccessProxy
      then Some (t ''page.connections.form.rocketmq.proxyNote'')
      else if \<not> list_all (\<lambda>c. is_word_char c \<or> c \<in> set ''|-'') (js_trim (rk_namespace d))
      then Some (t ''page.connections.form.rocketmq.namespaceInvalid'')
      else None)"

section \<open>The dispatch\<close>

text \<open>\<open>draft.value\<close>, as far as every form has it.\<close>

fun shared_fields :: "protocol_draft \<Rightarrow> string \<times> int" where
  "shared_fields (D_RocketMQ d) = (df_name d, df_timeoutSec d)"
| "shared_fields (D_RabbitMQ d) = (df_name d, df_timeoutSec d)"
| "shared_fields (D_Kafka d) = (df_name d, df_timeoutSec d)"
| "shared_fields (D_Pulsar d) = (df_name d, df_timeoutSec d)"
| "shared_fields (D_Redis d) = (df_name d, df_timeoutSec d)"
| "shared_fields (D_MQTT d) = (df_name d, df_timeoutSec d)"
| "shared_fields (D_NATS d) = (df_name d, df_timeoutSec d)"
| "shared_fields (D_ActiveMQ d) = (df_name d, df_timeoutSec d)"
| "shared_fields (D_NSQ d) = (df_name d, df_timeoutSec d)"
| "shared_fields (D_SQS d) = (df_name d, df_timeoutSec d)"
| "shared_fields (D_GooglePubSub d) = (df_name d, df_timeoutSec d)"
| "shared_fields (D_AzureServiceBus d) = (df_name d, df_timeoutSec d)"
| "shared_fields (D_Kinesis d) = (df_name d, df_timeoutSec d)"
| "shared_fields (D_IBMMQ d) = (df_name d, df_timeoutSec d)"
| "shared_fields (D_Solace d) = (df_name d, df_timeoutSec d)"

fun family_reason :: "(string \<Rightarrow> string) \<Rightarrow> protocol_draft \<Rightarrow> string option" where
  "family_reason t (D_RabbitMQ d) = rabbitmq_reason t d"
| "family_reason t (D_Kafka d) = kafka_reason t d"
| "family_reason t (D_Pulsar d) = pulsar_reason t d"
| "family_reason t (D_Redis d) = redis_reason t d"
| "family_reason t (D_MQTT d) = mqtt_reason t d"
| "family_reason t (D_NATS d) = nats_reason t d"
| "family_reason t (D_ActiveMQ d) = activemq_reason t d"
| "family_reason t (D_NSQ d) = nsq_reason t d"
| "family_reason t (D_SQS d) = sqs_reason t d"
| "family_reason t (D_GooglePubSub d) = googlepubsub_reason t d"
| "family_reason t (D_AzureServiceBus d) = azureservicebus_reason t d"
| "family_reason t (D_Kinesis d) = kinesis_reason t d"
| "family_reason t (D_IBMMQ d) = ibmmq_reason t d"
| "family_reason t (D_Solace d) = solace_reason t d"
| "family_reason t (D_RocketMQ d) = rocketmq_reason t d"

definition draftInvalidReason :: "(string \<Rightarrow> string) \<Rightarrow> protocol_draft \<Rightarrow> string option" where
  "draftInvalidReason t draft =
     (case shared_fields draft of (name, timeoutSec) \<Rightarrow>
        if blank name then Some (t ''page.connections.nameRequired'')
        else if timeoutSec < 0 \<or> timeoutSec > 300 then Some (t ''page.connections.timeoutRange'')
        else family_reason t draft)"

section \<open>A form that was valid stays valid\<close>

lemma blank_trim [simp]: "blank (js_trim s) = blank s"
  by (simp add: blank_def)

lemma half_pair_blank [simp]: "\<not> half_pair '''' ''''"
  by (simp add: half_pair_def)

lemma blank_Nil [simp]: "blank ''''"
  by (simp add: blank_def)

lemma submitted_name: "cd_name (sub_draft (toSubmission d)) = js_trim (fst (shared_fields d))"
  using rocketmq.labels_kept rabbitmq.labels_kept kafka.labels_kept pulsar.labels_kept
    redis.labels_kept mqtt.labels_kept nats.labels_kept activemq.labels_kept nsq.labels_kept
    sqs.labels_kept googlepubsub.labels_kept azureservicebus.labels_kept kinesis.labels_kept
    ibmmq.labels_kept solace.labels_kept
  by (cases d) (simp_all add: labels_of_def)

lemma submitted_timeout: "cd_timeoutSec (sub_draft (toSubmission d)) = snd (shared_fields d)"
  by (cases d)
    (simp_all add: rocketMQSubmission_def rabbitMQSubmission_def kafkaSubmission_def
      pulsarSubmission_def redisSubmission_def mqttSubmission_def natsSubmission_def
      activeMQSubmission_def nsqSubmission_def sqsSubmission_def googlePubSubSubmission_def
      azureServiceBusSubmission_def kinesisSubmission_def ibmMqSubmission_def
      solaceSubmission_def Let_def)

lemma rocketmq_stays_valid:
  assumes "rocketmq_reason t d = None" and "\<not> df_clearCredentials d" and "view_matches v (rocketMQSubmission d)"
    and "secrets_match v (rocketMQSubmission d)"
  shows "rocketmq_reason t (toRocketMQDraft v) = None"
  using assms
  by (cases "rk_version d"; cases "rk_access d")
    (auto simp: rocketmq_reason_def contract_defs rocketMQSubmission_def toRocketMQDraft_def Let_def draft_defs
      option_names half_pair_def blank_def split: if_splits)

lemma rabbitmq_stays_valid:
  assumes "rabbitmq_reason t d = None" and "\<not> df_clearCredentials d" and "view_matches v (rabbitMQSubmission d)"
    and "secrets_match v (rabbitMQSubmission d)"
  shows "rabbitmq_reason t (toRabbitMQDraft v) = None"
  using assms
  by (auto simp: rabbitmq_reason_def contract_defs rabbitMQSubmission_def toRabbitMQDraft_def Let_def draft_defs
      option_names half_pair_def blank_def split: if_splits)

lemma kafka_stays_valid:
  assumes "kafka_reason t d = None" and "\<not> df_clearCredentials d" and "view_matches v (kafkaSubmission d)"
    and "secrets_match v (kafkaSubmission d)"
  shows "kafka_reason t (toKafkaDraft v) = None"
  using assms
  by (auto simp: kafka_reason_def contract_defs kafkaSubmission_def toKafkaDraft_def Let_def draft_defs
      option_names half_pair_def blank_def split: if_splits)

lemma pulsar_stays_valid:
  assumes "pulsar_reason t d = None" and "\<not> df_clearCredentials d" and "view_matches v (pulsarSubmission d)"
    and "secrets_match v (pulsarSubmission d)"
  shows "pulsar_reason t (toPulsarDraft v) = None"
  using assms
  by (cases "pl_auth d")
    (auto simp: pulsar_reason_def contract_defs pulsarSubmission_def toPulsarDraft_def Let_def draft_defs
      option_names half_pair_def blank_def split: if_splits)

lemma mqtt_stays_valid:
  assumes "mqtt_reason t d = None" and "\<not> df_clearCredentials d" and "view_matches v (mqttSubmission d)"
    and "secrets_match v (mqttSubmission d)"
  shows "mqtt_reason t (toMqttDraft v) = None"
  using assms
  by (auto simp: mqtt_reason_def contract_defs mqttSubmission_def toMqttDraft_def Let_def draft_defs
      option_names half_pair_def blank_def split: if_splits)

lemma nats_stays_valid:
  assumes "nats_reason t d = None" and "\<not> df_clearCredentials d" and "view_matches v (natsSubmission d)"
    and "secrets_match v (natsSubmission d)"
  shows "nats_reason t (toNatsDraft v) = None"
  using assms
  by (auto simp: nats_reason_def contract_defs natsSubmission_def toNatsDraft_def Let_def draft_defs
      option_names half_pair_def blank_def split: if_splits)

lemma activemq_stays_valid:
  assumes "activemq_reason t d = None" and "\<not> df_clearCredentials d" and "view_matches v (activeMQSubmission d)"
    and "secrets_match v (activeMQSubmission d)"
  shows "activemq_reason t (toActiveMQDraft v) = None"
  using assms
  by (auto simp: activemq_reason_def contract_defs activeMQSubmission_def toActiveMQDraft_def Let_def draft_defs
      option_names half_pair_def blank_def split: if_splits)

lemma nsq_stays_valid:
  assumes "nsq_reason t d = None" and "view_matches v (nsqSubmission d)"
    and "secrets_match v (nsqSubmission d)"
  shows "nsq_reason t (toNsqDraft v) = None"
  using assms
  by (auto simp: nsq_reason_def contract_defs nsqSubmission_def toNsqDraft_def Let_def draft_defs
      option_names half_pair_def blank_def split: if_splits)

lemma sqs_stays_valid:
  assumes "sqs_reason t d = None" and "\<not> df_clearCredentials d" and "view_matches v (sqsSubmission d)"
    and "secrets_match v (sqsSubmission d)"
  shows "sqs_reason t (toSqsDraft v) = None"
  using assms
  by (auto simp: sqs_reason_def contract_defs sqsSubmission_def toSqsDraft_def Let_def draft_defs
      option_names half_pair_def blank_def split: if_splits)

lemma googlepubsub_stays_valid:
  assumes "googlepubsub_reason t d = None" and "\<not> df_clearCredentials d" and "view_matches v (googlePubSubSubmission d)"
    and "secrets_match v (googlePubSubSubmission d)"
  shows "googlepubsub_reason t (toGooglePubSubDraft v) = None"
  using assms
  by (auto simp: googlepubsub_reason_def contract_defs googlePubSubSubmission_def toGooglePubSubDraft_def Let_def draft_defs
      option_names half_pair_def blank_def split: if_splits)

lemma azureservicebus_stays_valid:
  assumes "azureservicebus_reason t d = None" and "\<not> df_clearCredentials d" and "view_matches v (azureServiceBusSubmission d)"
    and "secrets_match v (azureServiceBusSubmission d)"
  shows "azureservicebus_reason t (toAzureServiceBusDraft v) = None"
  using assms
  by (auto simp: azureservicebus_reason_def contract_defs azureServiceBusSubmission_def toAzureServiceBusDraft_def Let_def draft_defs
      option_names half_pair_def blank_def split: if_splits)

lemma kinesis_stays_valid:
  assumes "kinesis_reason t d = None" and "\<not> df_clearCredentials d" and "view_matches v (kinesisSubmission d)"
    and "secrets_match v (kinesisSubmission d)"
  shows "kinesis_reason t (toKinesisDraft v) = None"
  using assms
  by (auto simp: kinesis_reason_def contract_defs kinesisSubmission_def toKinesisDraft_def Let_def draft_defs
      option_names half_pair_def blank_def split: if_splits)

lemma ibmmq_stays_valid:
  assumes "ibmmq_reason t d = None" and "\<not> df_clearCredentials d" and "view_matches v (ibmMqSubmission d)"
    and "secrets_match v (ibmMqSubmission d)"
  shows "ibmmq_reason t (toIbmMqDraft v) = None"
  using assms
  by (auto simp: ibmmq_reason_def contract_defs ibmMqSubmission_def toIbmMqDraft_def Let_def draft_defs
      option_names half_pair_def blank_def split: if_splits)

lemma solace_stays_valid:
  assumes "solace_reason t d = None" and "\<not> df_clearCredentials d" and "view_matches v (solaceSubmission d)"
    and "secrets_match v (solaceSubmission d)"
  shows "solace_reason t (toSolaceDraft v) = None"
  using assms
  by (auto simp: solace_reason_def contract_defs solaceSubmission_def toSolaceDraft_def Let_def draft_defs
      option_names half_pair_def blank_def split: if_splits)

lemma redis_stays_valid:
  assumes "redis_reason t d = None" and "\<not> df_clearCredentials d"
    and "view_matches v (redisSubmission d)" and "secrets_match v (redisSubmission d)"
    and "ascii (rd_endpoints d)"
  shows "redis_reason t (toRedisDraft v) = None"
  using assms
  by (cases "rd_deployment d")
    (auto simp: redis_reason_def contract_defs redisSubmission_def toRedisDraft_def Let_def draft_defs
      option_names blank_def deployment_of_def REDIS_DEPLOYMENTS_def
      countAddresses_trim split: if_splits)

lemma shared_reopened: "shared_fields (toDraft v) = (cv_name v, cv_timeoutSec v)"
  by (cases "cv_kind v")
    (simp_all add: toDraft_def toRocketMQDraft_def toRabbitMQDraft_def toKafkaDraft_def
      toPulsarDraft_def toRedisDraft_def toMqttDraft_def toNatsDraft_def toActiveMQDraft_def
      toNsqDraft_def toSqsDraft_def toGooglePubSubDraft_def toAzureServiceBusDraft_def
      toKinesisDraft_def toIbmMqDraft_def toSolaceDraft_def Let_def)

text \<open>The address of a Redis form, whose count of addresses is taken before it is trimmed, is ASCII.\<close>

fun address_ascii :: "protocol_draft \<Rightarrow> bool" where
  "address_ascii (D_Redis d) \<longleftrightarrow> ascii (rd_endpoints d)"
| "address_ascii _ \<longleftrightarrow> True"

text \<open>The clear control, which every family but NSQ has.\<close>

fun clearing :: "protocol_draft \<Rightarrow> bool" where
  "clearing (D_RocketMQ d) \<longleftrightarrow> df_clearCredentials d"
| "clearing (D_RabbitMQ d) \<longleftrightarrow> df_clearCredentials d"
| "clearing (D_Kafka d) \<longleftrightarrow> df_clearCredentials d"
| "clearing (D_Pulsar d) \<longleftrightarrow> df_clearCredentials d"
| "clearing (D_Redis d) \<longleftrightarrow> df_clearCredentials d"
| "clearing (D_MQTT d) \<longleftrightarrow> df_clearCredentials d"
| "clearing (D_NATS d) \<longleftrightarrow> df_clearCredentials d"
| "clearing (D_ActiveMQ d) \<longleftrightarrow> df_clearCredentials d"
| "clearing (D_NSQ d) \<longleftrightarrow> False"
| "clearing (D_SQS d) \<longleftrightarrow> df_clearCredentials d"
| "clearing (D_GooglePubSub d) \<longleftrightarrow> df_clearCredentials d"
| "clearing (D_AzureServiceBus d) \<longleftrightarrow> df_clearCredentials d"
| "clearing (D_Kinesis d) \<longleftrightarrow> df_clearCredentials d"
| "clearing (D_IBMMQ d) \<longleftrightarrow> df_clearCredentials d"
| "clearing (D_Solace d) \<longleftrightarrow> df_clearCredentials d"

lemma family_stays_valid:
  assumes "family_reason t d = None" and "\<not> clearing d" and "address_ascii d"
    and v: "view_matches v (toSubmission d)" and "secrets_match v (toSubmission d)"
  shows "family_reason t (toDraft v) = None"
proof -
  have kind: "cv_kind v = cd_kind (sub_draft (toSubmission d))"
    using v by (simp add: view_matches_def)
  show ?thesis
    using assms kind
    by (cases d)
      (simp_all add: toDraft_def rocketmq.kind rocketmq_stays_valid rabbitmq.kind rabbitmq_stays_valid
        kafka.kind kafka_stays_valid pulsar.kind pulsar_stays_valid redis.kind redis_stays_valid
        mqtt.kind mqtt_stays_valid nats.kind nats_stays_valid activemq.kind activemq_stays_valid
        nsq.kind nsq_stays_valid sqs.kind sqs_stays_valid googlepubsub.kind googlepubsub_stays_valid
        azureservicebus.kind azureservicebus_stays_valid kinesis.kind kinesis_stays_valid
        ibmmq.kind ibmmq_stays_valid solace.kind solace_stays_valid)
qed

end
