(* ===== verification/ConnStore.thy ===== *)
theory ConnStore
  imports ConnProfile
begin

text \<open>
  The connection service of internal/service/connection: the profiles in memory with the
  next id, the file they are saved to, and the registry of open clients
  (internal/driver/registry.go behind internal/app/runtime.go). One definition per exported
  operation, each returning its result and the state it leaves.

  What the outside answers is an argument: \<open>save\<close> says whether the atomic write of the
  store went through (a failed one leaves the file as it was), \<open>dial\<close> whether the driver
  opened the client, \<open>now\<close> is the clock. The two mutexes make every operation one step.
  A client is recorded as the profile it was dialled with. The file holds the records as
  they decode; their encryption is not modelled.
\<close>

section \<open>State\<close>

text \<open>Ids are \<open>int\<close>s of the Go side: 64 bits, and counting past the largest one wraps.\<close>

definition go_int :: "int \<Rightarrow> int" where
  "go_int n = (n + 2 ^ 63) mod 2 ^ 64 - 2 ^ 63"

abbreviation max_int :: int where
  "max_int \<equiv> 2 ^ 63 - 1"

lemma go_int_id: "- (2 ^ 63) \<le> n \<Longrightarrow> n \<le> max_int \<Longrightarrow> go_int n = n"
  by (simp add: go_int_def)

record app_settings =
  st_connectTimeoutSec :: int
  st_autoConnectLast :: bool
  st_globalAccessKey :: string
  st_globalSecretKey :: string

record client_registry =
  rg_conns :: "(int \<times> profile) list"
  rg_activeID :: int

record conn_service =
  cs_connections :: "(int \<times> profile) list"
  cs_nextID :: int
  cs_file :: "profile list"
  cs_registry :: client_registry
  cs_reconnectReload :: bool

type_synonym 'a outcome = "(conn_error + 'a) \<times> conn_service"

section \<open>The registry of open clients\<close>

definition registry_Open :: "bool \<Rightarrow> profile \<Rightarrow> client_registry \<Rightarrow> client_registry option" where
  "registry_Open dial p r =
     (if dial then Some (r\<lparr>rg_conns := AList.update (cp_id p) p (rg_conns r)\<rparr>) else None)"

definition registry_SetActive :: "int \<Rightarrow> client_registry \<Rightarrow> client_registry option" where
  "registry_SetActive i r =
     (if map_of (rg_conns r) i = None then None else Some (r\<lparr>rg_activeID := i\<rparr>))"

definition registry_ActiveID :: "client_registry \<Rightarrow> int" where
  "registry_ActiveID r = (if map_of (rg_conns r) (rg_activeID r) = None then 0 else rg_activeID r)"

definition registry_IDs :: "client_registry \<Rightarrow> int list" where
  "registry_IDs r = sort (map fst (rg_conns r))"

definition registry_Close :: "int \<Rightarrow> client_registry \<Rightarrow> client_registry" where
  "registry_Close i r =
     r\<lparr>rg_conns := AList.delete i (rg_conns r),
       rg_activeID := (if rg_activeID r = i then 0 else rg_activeID r)\<rparr>"

definition registry_CloseAll :: "client_registry \<Rightarrow> client_registry" where
  "registry_CloseAll r = r\<lparr>rg_conns := [], rg_activeID := 0\<rparr>"

definition runtime_Connect :: "bool \<Rightarrow> profile \<Rightarrow> client_registry \<Rightarrow> client_registry option" where
  "runtime_Connect dial p r =
     (case registry_Open dial p r of None \<Rightarrow> None | Some r' \<Rightarrow> registry_SetActive (cp_id p) r')"

text \<open>The loop over the remaining ids stops at the first one that can be made active.\<close>

fun promote :: "int list \<Rightarrow> client_registry \<Rightarrow> client_registry" where
  "promote [] r = r"
| "promote (i # is) r = (case registry_SetActive i r of Some r' \<Rightarrow> r' | None \<Rightarrow> promote is r)"

definition runtime_Remove :: "int \<Rightarrow> client_registry \<Rightarrow> client_registry" where
  "runtime_Remove i r =
     (let r' = registry_Close i r in
      if registry_ActiveID r' \<noteq> 0 then r' else promote (registry_IDs r') r')"

lemma promote_conns [simp]: "rg_conns (promote is r) = rg_conns r"
  by (induction "is") (auto simp: registry_SetActive_def split: option.splits)

lemma runtime_Remove_conns [simp]: "rg_conns (runtime_Remove i r) = AList.delete i (rg_conns r)"
  by (simp add: runtime_Remove_def registry_Close_def Let_def)

lemma runtime_Connect_Some:
  "runtime_Connect dial p r = Some r' \<Longrightarrow>
   dial \<and> rg_conns r' = AList.update (cp_id p) p (rg_conns r) \<and> rg_activeID r' = cp_id p"
  by (auto simp: runtime_Connect_def registry_Open_def registry_SetActive_def
      split: option.splits if_splits)

lemma runtime_Connect_dials: "runtime_Connect dial p r = None \<longleftrightarrow> \<not> dial"
  by (auto simp: runtime_Connect_def registry_Open_def registry_SetActive_def split: option.splits)

section \<open>What a profile is dialled with\<close>

definition defaultConnectionTimeout :: int where "defaultConnectionTimeout = 5"

definition getConnectTimeout :: "app_settings option \<Rightarrow> profile \<Rightarrow> int" where
  "getConnectTimeout st p =
     (if cp_timeoutSec p > 0 then cp_timeoutSec p
      else (case st of Some s \<Rightarrow> st_connectTimeoutSec s | None \<Rightarrow> defaultConnectionTimeout))"

definition resolveACLCredentials :: "app_settings option \<Rightarrow> profile \<Rightarrow> bool \<times> string \<times> string" where
  "resolveACLCredentials st p =
     (if ACLEnabled p then (True, Secret p secretAccessKey, Secret p secretSecretKey)
      else if cp_mechanism p \<noteq> AuthZero \<and> cp_mechanism p \<noteq> AuthNone then (False, '''', '''')
      else (case st of
          None \<Rightarrow> (False, '''', '''')
        | Some s \<Rightarrow>
            if go_trim (st_globalAccessKey s) \<noteq> '''' \<and> go_trim (st_globalSecretKey s) \<noteq> ''''
            then (True, st_globalAccessKey s, st_globalSecretKey s)
            else (False, '''', '''')))"

definition resolveForDial :: "app_settings option \<Rightarrow> profile \<Rightarrow> profile" where
  "resolveForDial st p =
     (case resolveACLCredentials st p of (enableACL, accessKey, secretKey) \<Rightarrow>
       (let resolved = SetACL enableACL accessKey secretKey
              (p\<lparr>cp_timeoutSec := getConnectTimeout st p\<rparr>)
        in if \<not> enableACL \<and> cp_mechanism p \<noteq> AuthZero
           then resolved\<lparr>cp_mechanism := cp_mechanism p\<rparr> else resolved))"

section \<open>Saving\<close>

definition sortedConnectionIDs :: "(int \<times> profile) list \<Rightarrow> int list" where
  "sortedConnectionIDs m = sort (map fst m)"

definition copyConnectionsSorted :: "(int \<times> profile) list \<Rightarrow> profile list" where
  "copyConnectionsSorted m = map snd (sort_key fst m)"

definition saveConnections :: "bool \<Rightarrow> conn_service \<Rightarrow> conn_service option" where
  "saveConnections save s =
     (if save then Some (s\<lparr>cs_file := copyConnectionsSorted (cs_connections s)\<rparr>) else None)"

abbreviation stored_at :: "conn_service \<Rightarrow> int \<Rightarrow> profile option" where
  "stored_at s i \<equiv> map_of (cs_connections s) i"

definition put_profile :: "int \<Rightarrow> profile \<Rightarrow> conn_service \<Rightarrow> conn_service" where
  "put_profile i p s = s\<lparr>cs_connections := AList.update i p (cs_connections s)\<rparr>"

lemma put_profile_simps [simp]:
  "cs_connections (put_profile i p s) = AList.update i p (cs_connections s)"
  "cs_nextID (put_profile i p s) = cs_nextID s" "cs_file (put_profile i p s) = cs_file s"
  "cs_registry (put_profile i p s) = cs_registry s"
  "cs_reconnectReload (put_profile i p s) = cs_reconnectReload s"
  by (simp_all add: put_profile_def)

section \<open>Connecting and disconnecting\<close>

definition connectRuntime ::
    "app_settings option \<Rightarrow> bool \<Rightarrow> bool \<Rightarrow> string \<Rightarrow> int \<Rightarrow> conn_service \<Rightarrow> unit outcome" where
  "connectRuntime st dial save now i s =
     (case stored_at s i of
        None \<Rightarrow> (Inl (NotFound i), s)
      | Some p \<Rightarrow>
          (case runtime_Connect dial (resolveForDial st p) (cs_registry s) of
             None \<Rightarrow> (Inl DialFailed, s)
           | Some r \<Rightarrow>
               (let s' = put_profile i (p\<lparr>cp_status := StatusOnline, cp_lastCheck := now\<rparr>)
                           (s\<lparr>cs_registry := r\<rparr>)
                in case saveConnections save s' of
                     None \<Rightarrow> (Inl SaveFailed, s')
                   | Some s'' \<Rightarrow> (Inr (), s''))))"

definition Connect ::
    "app_settings option \<Rightarrow> bool \<Rightarrow> bool \<Rightarrow> string \<Rightarrow> int \<Rightarrow> conn_service \<Rightarrow> unit outcome" where
  "Connect st dial save now i s = connectRuntime st dial save now i s"

definition default_id :: "(int \<times> profile) list \<Rightarrow> int" where
  "default_id m = (case find (\<lambda>(i, p). cp_isDefault p) m of None \<Rightarrow> 0 | Some (i, p) \<Rightarrow> cp_id p)"

definition ConnectDefault ::
    "app_settings option \<Rightarrow> bool \<Rightarrow> bool \<Rightarrow> string \<Rightarrow> conn_service \<Rightarrow> unit outcome" where
  "ConnectDefault st dial save now s =
     (if (case st of Some a \<Rightarrow> \<not> st_autoConnectLast a | None \<Rightarrow> False) then (Inr (), s)
      else (let d = default_id (cs_connections s) in
            if d = 0 then (Inr (), s) else Connect st dial save now d s))"

definition Disconnect :: "bool \<Rightarrow> string \<Rightarrow> int \<Rightarrow> conn_service \<Rightarrow> unit outcome" where
  "Disconnect save now i s =
     (case stored_at s i of
        None \<Rightarrow> (Inl (NotFound i), s)
      | Some p \<Rightarrow>
          (let s' = put_profile i (p\<lparr>cp_status := StatusOffline, cp_lastCheck := now\<rparr>)
                      (s\<lparr>cs_registry := runtime_Remove i (cs_registry s)\<rparr>)
           in case saveConnections save s' of
                None \<Rightarrow> (Inl SaveFailed, s') | Some s'' \<Rightarrow> (Inr (), s'')))"

text \<open>\<open>reached\<close> is what the probe through the driver answered; nothing is registered or saved.\<close>

definition TestConnection ::
    "bool \<Rightarrow> string \<Rightarrow> int \<Rightarrow> conn_service \<Rightarrow> (conn_error + string) \<times> conn_service" where
  "TestConnection reached now i s =
     (case stored_at s i of
        None \<Rightarrow> (Inl (NotFound i), s)
      | Some p \<Rightarrow> (if reached then Inr ''online'' else Inl DialFailed,
                    put_profile i (p\<lparr>cp_lastCheck := now\<rparr>) s))"

definition GetConnection :: "int \<Rightarrow> conn_service \<Rightarrow> conn_error + profile" where
  "GetConnection i s = (case stored_at s i of None \<Rightarrow> Inl (NotFound i) | Some p \<Rightarrow> Inr p)"

definition GetConnections :: "conn_service \<Rightarrow> profile list" where
  "GetConnections s = copyConnectionsSorted (cs_connections s)"

section \<open>Adding and editing\<close>

definition AddConnection ::
    "(mq_kind \<Rightarrow> bool) \<Rightarrow> bool \<Rightarrow> profile \<Rightarrow> conn_service \<Rightarrow> profile outcome" where
  "AddConnection needs save input s =
     (let kind = (if cp_kind input = KindZero then KindRocketMQ else cp_kind input) in
      case validateConnectionFields needs kind (cp_name input) (cp_endpoints input)
             (cp_timeoutSec input) of
        Inl e \<Rightarrow> (Inl e, s)
      | Inr (name, endpoints) \<Rightarrow>
          (case normalizeACLConfig (ACLEnabled input) (Secret input secretAccessKey)
                  (Secret input secretSecretKey) of
             Inl e \<Rightarrow> (Inl e, s)
           | Inr (enableACL, accessKey, secretKey) \<Rightarrow>
               (let connection = applyCredentials
                      \<lparr>cp_id = cs_nextID s, cp_name = name,
                       cp_group = normalizeConnectionGroup (cp_group input), cp_kind = kind,
                       cp_endpoints = endpoints, cp_timeoutSec = cp_timeoutSec input,
                       cp_mechanism = AuthZero, cp_status = StatusOffline, cp_lastCheck = ''-'',
                       cp_isDefault = (cs_connections s = []), cp_remark = cp_remark input,
                       cp_options = cp_options input, cp_secrets = []\<rparr>
                      input enableACL accessKey secretKey;
                    s' = put_profile (cs_nextID s) connection s
                in case saveConnections save s' of
                     None \<Rightarrow> (Inl SaveFailed,
                        s'\<lparr>cs_connections := AList.delete (cs_nextID s) (cs_connections s')\<rparr>)
                   | Some s'' \<Rightarrow> (Inr connection, s''\<lparr>cs_nextID := go_int (cs_nextID s + 1)\<rparr>))))"

definition editedKind :: "int \<Rightarrow> mq_kind \<Rightarrow> conn_service \<Rightarrow> mq_kind" where
  "editedKind i submitted s =
     (if submitted \<noteq> KindZero then submitted
      else (case stored_at s i of Some p \<Rightarrow> cp_kind p | None \<Rightarrow> KindRocketMQ))"

text \<open>
  Storing an edited profile and, when that invalidates an open client, dialling again: the
  common tail of \<open>UpdateConnection\<close> and \<open>SetOption\<close>. \<open>redial\<close> and \<open>save2\<close> answer for the
  second dial. A failed redial leaves the edit saved and the client gone.
\<close>

definition store_edit ::
    "app_settings option \<Rightarrow> bool \<Rightarrow> bool \<Rightarrow> bool \<Rightarrow> string \<Rightarrow> int \<Rightarrow> profile \<Rightarrow> bool \<Rightarrow> profile \<Rightarrow>
     conn_service \<Rightarrow> profile outcome" where
  "store_edit st save redial save2 now i previous changed connection s =
     (let wasOnline = (cp_status previous = StatusOnline);
          connection' = (if changed then connection\<lparr>cp_status := StatusOffline\<rparr> else connection)
      in case saveConnections save (put_profile i connection' s) of
           None \<Rightarrow> (Inl SaveFailed, put_profile i previous s)
         | Some s' \<Rightarrow>
             (if changed \<and> wasOnline
              then (case connectRuntime st redial save2 now i
                            (s'\<lparr>cs_registry := runtime_Remove i (cs_registry s')\<rparr>) of
                      (Inl e, s'') \<Rightarrow> (Inl e, s'')
                    | (Inr _, s'') \<Rightarrow> (GetConnection i s'', s''))
              else (Inr connection', s')))"

definition edited_profile :: "profile \<Rightarrow> profile \<Rightarrow> string \<Rightarrow> string \<Rightarrow> bool \<times> string \<times> string \<Rightarrow> profile" where
  "edited_profile previous input name endpoints acl =
     (case acl of (enableACL, accessKey, secretKey) \<Rightarrow>
       (applyCredentials
          (previous\<lparr>cp_name := name, cp_group := normalizeConnectionGroup (cp_group input),
             cp_endpoints := endpoints,
             cp_kind := (if cp_kind input \<noteq> KindZero then cp_kind input else cp_kind previous),
             cp_options := cp_options input, cp_timeoutSec := cp_timeoutSec input\<rparr>)
          input enableACL accessKey secretKey)\<lparr>cp_remark := cp_remark input\<rparr>)"

definition UpdateConnection ::
    "(mq_kind \<Rightarrow> bool) \<Rightarrow> app_settings option \<Rightarrow> bool \<Rightarrow> bool \<Rightarrow> bool \<Rightarrow> string \<Rightarrow> int \<Rightarrow> profile \<Rightarrow>
     conn_service \<Rightarrow> profile outcome" where
  "UpdateConnection needs st save redial save2 now i input s =
     (case validateConnectionFields needs (editedKind i (cp_kind input) s) (cp_name input)
             (cp_endpoints input) (cp_timeoutSec input) of
        Inl e \<Rightarrow> (Inl e, s)
      | Inr (name, endpoints) \<Rightarrow>
          (case stored_at s i of
             None \<Rightarrow> (Inl (NotFound i), s)
           | Some previous \<Rightarrow>
               (case normalizeACLConfig (ACLEnabled input) (Secret input secretAccessKey)
                       (Secret input secretSecretKey) of
                  Inl e \<Rightarrow> (Inl e, s)
                | Inr acl \<Rightarrow>
                    (let connection = edited_profile previous input name endpoints acl
                     in store_edit st save redial save2 now i previous
                          (dialParametersChanged previous connection) connection s))))"

definition SetOption ::
    "app_settings option \<Rightarrow> bool \<Rightarrow> bool \<Rightarrow> bool \<Rightarrow> string \<Rightarrow> int \<Rightarrow> string \<Rightarrow> string \<Rightarrow>
     conn_service \<Rightarrow> profile outcome" where
  "SetOption st save redial save2 now i key v s =
     (let k = go_trim key in
      if k = '''' then (Inl OptionKeyRequired, s)
      else (case stored_at s i of
          None \<Rightarrow> (Inl (NotFound i), s)
        | Some previous \<Rightarrow>
            (let options = (if v = '''' then AList.delete k (cp_options previous)
                            else AList.update k v (cp_options previous))
             in if maps_equal (cp_options previous) options then (Inr previous, s)
                else store_edit st save redial save2 now i previous True
                       (previous\<lparr>cp_options := options\<rparr>) s)))"

section \<open>Deleting and choosing the default\<close>

definition set_default_flag :: "int \<Rightarrow> bool \<Rightarrow> (int \<times> profile) list \<Rightarrow> (int \<times> profile) list" where
  "set_default_flag i b m = map (\<lambda>(j, p). if j = i then (j, p\<lparr>cp_isDefault := b\<rparr>) else (j, p)) m"

definition DeleteConnection :: "bool \<Rightarrow> int \<Rightarrow> conn_service \<Rightarrow> unit outcome" where
  "DeleteConnection save i s =
     (case stored_at s i of
        None \<Rightarrow> (Inl (NotFound i), s)
      | Some deleted \<Rightarrow>
          (if cp_isDefault deleted \<and> length (cs_connections s) > 1
           then (Inl DefaultNotDeletable, s)
           else
             (let rest = AList.delete i (cs_connections s);
                  newDefault = (if rest \<noteq> [] \<and> cp_isDefault deleted
                                then hd (sortedConnectionIDs rest) else 0);
                  rest' = (if newDefault \<noteq> 0 then set_default_flag newDefault True rest else rest);
                  s' = s\<lparr>cs_connections := rest'\<rparr>
              in case saveConnections save s' of
                   None \<Rightarrow> (Inl SaveFailed,
                      s\<lparr>cs_connections := AList.update i deleted
                          (if newDefault \<noteq> 0 then set_default_flag newDefault False rest' else rest')\<rparr>)
                 | Some s'' \<Rightarrow>
                     (Inr (), if cp_status deleted = StatusOnline
                              then s''\<lparr>cs_registry := runtime_Remove i (cs_registry s'')\<rparr>
                              else s''))))"

definition SetDefaultConnection :: "bool \<Rightarrow> int \<Rightarrow> conn_service \<Rightarrow> unit outcome" where
  "SetDefaultConnection save i s =
     (case stored_at s i of
        None \<Rightarrow> (Inl (NotFound i), s)
      | Some p \<Rightarrow>
          (if cp_isDefault p then (Inr (), s)
           else
             (let previous = default_id (cs_connections s);
                  cleared = map (\<lambda>(j, q). (j, q\<lparr>cp_isDefault := False\<rparr>)) (cs_connections s);
                  s' = s\<lparr>cs_connections := set_default_flag i True cleared\<rparr>
              in case saveConnections save s' of
                   None \<Rightarrow> (Inl SaveFailed,
                      s\<lparr>cs_connections :=
                          (let undone = set_default_flag i False (cs_connections s') in
                           if previous \<noteq> 0 then set_default_flag previous True undone else undone)\<rparr>)
                 | Some s'' \<Rightarrow> (Inr (), s''))))"

section \<open>Loading\<close>

text \<open>
  One step of the loop of \<open>buildConnectionState\<close>: an id that is missing or taken is replaced
  by a fresh one, the access key pair is normalised, and only the first default stays one.
\<close>

definition load_profile :: "int \<Rightarrow> bool \<Rightarrow> profile \<Rightarrow> profile" where
  "load_profile i isDefault p =
     (let p1 = p\<lparr>cp_id := i, cp_group := normalizeConnectionGroup (cp_group p),
                 cp_status := StatusOffline, cp_lastCheck := ''-''\<rparr>;
          mechanism = cp_mechanism p;
          (enabled, accessKey, secretKey) =
            (case normalizeACLConfig (ACLEnabled p) (Secret p secretAccessKey)
                    (Secret p secretSecretKey) of
               Inl _ \<Rightarrow> (False, '''', '''') | Inr r \<Rightarrow> r);
          p2 = SetACL enabled accessKey secretKey p1;
          p3 = (if \<not> enabled \<and> mechanism \<noteq> AuthACL then p2\<lparr>cp_mechanism := mechanism\<rparr> else p2)
      in p3\<lparr>cp_isDefault := isDefault\<rparr>)"

fun build_step :: "(int \<times> profile) list \<times> int \<times> bool \<Rightarrow> profile \<Rightarrow> (int \<times> profile) list \<times> int \<times> bool" where
  "build_step (loaded, nextID, hasDefault) p =
     (let i1 = (if cp_id p \<le> 0 then nextID else cp_id p);
          n1 = (if i1 \<ge> nextID then go_int (i1 + 1) else nextID);
          (i2, n2) = (if map_of loaded i1 \<noteq> None then (n1, go_int (n1 + 1)) else (i1, n1))
      in (AList.update i2 (load_profile i2 (cp_isDefault p \<and> \<not> hasDefault) p) loaded, n2,
          hasDefault \<or> cp_isDefault p))"

definition buildConnectionState :: "profile list \<Rightarrow> (int \<times> profile) list \<times> int" where
  "buildConnectionState connections =
     (case foldl build_step ([], 1, False) connections of (loaded, nextID, hasDefault) \<Rightarrow>
        (if loaded \<noteq> [] \<and> \<not> hasDefault
         then set_default_flag (hd (sortedConnectionIDs loaded)) True loaded else loaded, nextID))"

text \<open>A file that does not decode is \<open>None\<close>; it leaves the profiles in memory as they are.\<close>

definition loadConnections :: "profile list option \<Rightarrow> conn_service \<Rightarrow> conn_service option" where
  "loadConnections decoded s =
     (case decoded of None \<Rightarrow> None
      | Some ps \<Rightarrow> (case buildConnectionState ps of (m, n) \<Rightarrow>
          Some (s\<lparr>cs_connections := m, cs_nextID := n\<rparr>)))"

definition restoreRuntime ::
    "app_settings option \<Rightarrow> bool \<Rightarrow> bool \<Rightarrow> string \<Rightarrow> bool \<Rightarrow> conn_service \<Rightarrow> unit outcome" where
  "restoreRuntime st dial save now shouldReconnect s =
     (let s1 = s\<lparr>cs_registry := registry_CloseAll (cs_registry s)\<rparr>;
          d = default_id (cs_connections s1);
          (r, s2) = (if shouldReconnect \<and> d \<noteq> 0 then connectRuntime st dial save now d s1
                     else (Inr (), s1))
      in case r of Inl e \<Rightarrow> (Inl e, s2)
         | Inr _ \<Rightarrow> (Inr (), s2\<lparr>cs_reconnectReload := False\<rparr>))"

definition reload_plan :: "conn_service \<Rightarrow> bool" where
  "reload_plan s \<longleftrightarrow> cs_reconnectReload s \<or>
     list_ex (\<lambda>(i, p). cp_status p = StatusOnline) (cs_connections s)"

definition Reload ::
    "app_settings option \<Rightarrow> bool \<Rightarrow> bool \<Rightarrow> string \<Rightarrow> profile list option \<Rightarrow> conn_service \<Rightarrow> unit outcome" where
  "Reload st dial save now decoded s =
     (let plan = reload_plan s in
      case loadConnections decoded s of
        None \<Rightarrow> (Inl DecodeFailed, s)
      | Some s' \<Rightarrow> restoreRuntime st dial save now plan (s'\<lparr>cs_reconnectReload := plan\<rparr>))"

end
