(* ===== verification/ConnInvariant.thy ===== *)
theory ConnInvariant
  imports ConnStore
begin

text \<open>
  What holds of the connection service whatever it is asked and whatever the disk and the
  brokers answer: the ids and the single default (\<open>wf_store\<close>), the agreement of the open
  clients with the stored profiles (\<open>clients_ok\<close>), both preserved by every operation and so
  true in every reachable state, and that an operation whose save fails leaves no trace.
\<close>

section \<open>Well-formed stores\<close>

definition default_flags :: "(int \<times> profile) list \<Rightarrow> bool list" where
  "default_flags m = map (\<lambda>(i, p). cp_isDefault p) m"

definition default_count :: "(int \<times> profile) list \<Rightarrow> nat" where
  "default_count m = length (filter id (default_flags m))"

lemma default_count_simps [simp]:
  "default_count [] = 0"
  "default_count ((i, p) # m) = (if cp_isDefault p then 1 else 0) + default_count m"
  "default_count (m @ m') = default_count m + default_count m'"
  by (simp_all add: default_count_def default_flags_def)

definition good_entry :: "int \<Rightarrow> int \<times> profile \<Rightarrow> bool" where
  "good_entry n e \<longleftrightarrow> cp_id (snd e) = fst e \<and> 0 < fst e \<and> fst e < n \<and> wf_secrets (cp_secrets (snd e))"

definition wf_store :: "(int \<times> profile) list \<Rightarrow> int \<Rightarrow> bool" where
  "wf_store m n \<longleftrightarrow> distinct (map fst m) \<and> list_all (good_entry n) m \<and> 0 < n \<and>
     default_count m = (if m = [] then 0 else 1)"

lemma map_update_same:
  "map_of m i = Some q \<Longrightarrow> f (i, p) = f (i, q) \<Longrightarrow> map f (AList.update i p m) = map f m"
  by (induction m) auto

lemma wf_store_lookup:
  "wf_store m n \<Longrightarrow> map_of m i = Some p \<Longrightarrow>
   cp_id p = i \<and> 0 < i \<and> i < n \<and> wf_secrets (cp_secrets p)"
  by (auto simp: wf_store_def list_all_iff good_entry_def dest!: map_of_SomeD)

lemma list_all_update: "list_all P m \<Longrightarrow> P (i, p) \<Longrightarrow> list_all P (AList.update i p m)"
  by (induction m) auto

lemma update_nonempty [simp]: "AList.update i p m \<noteq> []"
  by (cases m) auto

lemma wf_store_update:
  assumes wf: "wf_store m n" and q: "map_of m i = Some q"
    and p: "cp_id p = cp_id q" "cp_isDefault p = cp_isDefault q" "wf_secrets (cp_secrets p)"
  shows "wf_store (AList.update i p m) n"
proof -
  have "default_flags (AList.update i p m) = default_flags m"
    unfolding default_flags_def by (rule map_update_same [OF q]) (simp add: p)
  moreover have "m \<noteq> []" using q by auto
  moreover have "good_entry n (i, p)"
    using wf_store_lookup [OF wf q] p by (simp add: good_entry_def)
  ultimately show ?thesis
    using wf by (simp add: wf_store_def default_count_def distinct_update list_all_update)
qed

lemma wf_store_fresh: "wf_store m n \<Longrightarrow> n \<le> i \<Longrightarrow> i \<notin> fst ` set m"
  by (force simp: wf_store_def list_all_iff good_entry_def)

lemma wf_store_add:
  assumes wf: "wf_store m n" and p: "cp_id p = n" "wf_secrets (cp_secrets p)"
    "cp_isDefault p \<longleftrightarrow> m = []"
  shows "wf_store (AList.update n p m) (n + 1)"
proof -
  have new: "AList.update n p m = m @ [(n, p)]"
    by (rule update_new) (rule wf_store_fresh [OF wf order_refl])
  have "n \<notin> fst ` set m" by (rule wf_store_fresh [OF wf order_refl])
  then show ?thesis
    using wf p
    by (auto simp: wf_store_def new list_all_iff good_entry_def)
qed

lemma default_count_delete:
  "distinct (map fst m) \<Longrightarrow> map_of m i = Some p \<Longrightarrow>
   default_count m = default_count (AList.delete i m) + (if cp_isDefault p then 1 else 0)"
proof (induction m)
  case (Cons e m)
  obtain j q where e: "e = (j, q)" by (cases e)
  show ?case
  proof (cases "j = i")
    case True
    with Cons.prems e have "i \<notin> fst ` set m" by auto
    then have "AList.delete i m = m" by (rule delete_id)
    with True Cons.prems e show ?thesis by simp
  next
    case False
    with Cons e show ?thesis by simp
  qed
qed simp

lemma wf_store_delete:
  assumes wf: "wf_store m n" and p: "map_of m i = Some p"
    and d: "\<not> cp_isDefault p \<or> length m \<le> 1"
  shows "wf_store (AList.delete i m) n"
proof -
  have keys: "distinct (map fst m)" and good: "list_all (good_entry n) m"
    and one: "default_count m = 1" "0 < n"
    using wf p by (auto simp: wf_store_def split: if_splits)
  have "default_count (AList.delete i m) = (if AList.delete i m = [] then 0 else 1)"
  proof (cases "cp_isDefault p")
    case True
    with d p have "length m = 1" by (cases m) auto
    with p have "AList.delete i m = []" by (cases m) (auto split: if_splits)
    then show ?thesis by simp
  next
    case False
    with default_count_delete [OF keys p] one have c: "default_count (AList.delete i m) = 1" by simp
    then have "AList.delete i m \<noteq> []" by auto
    with c show ?thesis by simp
  qed
  with keys good one show ?thesis
    using set_delete_subset [of i m]
    by (auto simp: wf_store_def list_all_iff distinct_delete)
qed

subsection \<open>Default flags\<close>

lemma set_default_flag_keys [simp]: "map fst (set_default_flag i b m) = map fst m"
  by (induction m) (auto simp: set_default_flag_def)

lemma set_default_flag_Nil [simp]: "set_default_flag i b m = [] \<longleftrightarrow> m = []"
  by (simp add: set_default_flag_def)

lemma set_default_flag_good:
  "list_all (good_entry n) (set_default_flag i b m) = list_all (good_entry n) m"
  by (induction m) (auto simp: set_default_flag_def good_entry_def split: if_splits)

lemma map_of_set_default_flag:
  "map_of (set_default_flag i b m) j =
     (if j = i then map_option (\<lambda>p. p\<lparr>cp_isDefault := b\<rparr>) (map_of m j) else map_of m j)"
  by (induction m) (auto simp: set_default_flag_def)

lemma default_count_absent:
  "i \<notin> fst ` set m \<Longrightarrow> default_count (set_default_flag i b m) = default_count m"
  by (induction m) (auto simp: set_default_flag_def)

lemma default_count_raise:
  "distinct (map fst m) \<Longrightarrow> default_count m = 0 \<Longrightarrow> i \<in> fst ` set m \<Longrightarrow>
   default_count (set_default_flag i True m) = 1"
proof (induction m)
  case (Cons e m)
  obtain j q where e: "e = (j, q)" by (cases e)
  from Cons.prems(2) e have q: "\<not> cp_isDefault q" and m: "default_count m = 0"
    by (auto split: if_splits)
  have cons: "set_default_flag i True (e # m) =
      (if j = i then (j, q\<lparr>cp_isDefault := True\<rparr>) else (j, q)) # set_default_flag i True m"
    by (simp add: set_default_flag_def e)
  show ?case
  proof (cases "j = i")
    case True
    with Cons.prems(1) e have "i \<notin> fst ` set m" by auto
    from default_count_absent [OF this, of True] m True show ?thesis
      unfolding cons by simp
  next
    case False
    with Cons.prems(1,3) e have "distinct (map fst m)" "i \<in> fst ` set m" by auto
    from Cons.IH [OF this(1) m this(2)] False q show ?thesis
      unfolding cons by simp
  qed
qed simp

lemma hd_sorted_ids: "m \<noteq> [] \<Longrightarrow> hd (sortedConnectionIDs m) \<in> fst ` set m"
proof -
  assume "m \<noteq> []"
  have ids: "set (sortedConnectionIDs m) = fst ` set m" by (simp add: sortedConnectionIDs_def)
  with \<open>m \<noteq> []\<close> have "sortedConnectionIDs m \<noteq> []" by auto
  then have "hd (sortedConnectionIDs m) \<in> set (sortedConnectionIDs m)" by (rule hd_in_set)
  with ids show ?thesis by simp
qed

lemma wf_store_raise:
  assumes "distinct (map fst m)" "list_all (good_entry n) m" "0 < n" "default_count m = 0"
    "i \<in> fst ` set m"
  shows "wf_store (set_default_flag i True m) n"
  using assms default_count_raise [OF assms(1,4,5)]
  by (auto simp: wf_store_def set_default_flag_good)

lemma default_count_cleared:
  "default_count (map (\<lambda>(j, q). (j, q\<lparr>cp_isDefault := False\<rparr>)) m) = 0"
  by (induction m) auto

subsection \<open>Loading any file gives a well-formed store\<close>

lemma load_profile_simps:
  "cp_id (load_profile i d p) = i" "cp_isDefault (load_profile i d p) = d"
  "cp_status (load_profile i d p) = StatusOffline"
  "wf_secrets (cp_secrets p) \<Longrightarrow> wf_secrets (cp_secrets (load_profile i d p))"
  by (auto simp: load_profile_def Let_def SetACL_def SetSecret_def
      split: prod.splits sum.splits)

text \<open>An entry with a good id; \<open>w\<close> says whether its secrets are of interest.\<close>

definition id_entry :: "bool \<Rightarrow> int \<Rightarrow> int \<times> profile \<Rightarrow> bool" where
  "id_entry w n e \<longleftrightarrow> cp_id (snd e) = fst e \<and> 0 < fst e \<and> fst e < n \<and> (w \<longrightarrow> wf_secrets (cp_secrets (snd e)))"

lemma id_entry_True [simp]: "id_entry True n = good_entry n"
  by (auto simp: id_entry_def good_entry_def fun_eq_iff)

lemma id_entry_mono: "id_entry w n e \<Longrightarrow> n \<le> n' \<Longrightarrow> id_entry w n' e"
  by (auto simp: id_entry_def)

definition build_inv :: "bool \<Rightarrow> (int \<times> profile) list \<times> int \<times> bool \<Rightarrow> bool" where
  "build_inv w st = (case st of (loaded, nextID, hasDefault) \<Rightarrow>
     distinct (map fst loaded) \<and> list_all (id_entry w nextID) loaded \<and> 0 < nextID \<and>
     default_count loaded = (if hasDefault then 1 else 0) \<and>
     list_all (\<lambda>(i, p). cp_status p = StatusOffline) loaded)"

text \<open>A file whose ids can be counted past: none is so large that handing out one more id per profile
  would wrap.\<close>

definition ids_fit :: "profile list \<Rightarrow> bool" where
  "ids_fit ps \<longleftrightarrow> int (length ps) < max_int \<and> list_all (\<lambda>p. cp_id p + int (length ps) \<le> max_int) ps"

lemma build_step_inv:
  assumes inv: "build_inv w st" and p: "w \<Longrightarrow> wf_secrets (cp_secrets p)"
    and room: "fst (snd st) + int r + 1 \<le> max_int" "cp_id p + int r + 1 \<le> max_int"
  shows "build_inv w (build_step st p)" "fst (snd (build_step st p)) + int r \<le> max_int"
    "length (fst (build_step st p)) = Suc (length (fst st))"
proof -
  obtain m n h where st: "st = (m, n, h)" by (cases st)
  from inv st have keys: "distinct (map fst m)" and good: "list_all (id_entry w n) m"
    and n: "0 < n" and count: "default_count m = (if h then 1 else 0)"
    and off: "list_all (\<lambda>(i, p). cp_status p = StatusOffline) m"
    by (auto simp: build_inv_def)
  have fresh: "n \<le> j \<Longrightarrow> j \<notin> fst ` set m" for j
    using good by (force simp: list_all_iff id_entry_def)
  define i1 where "i1 = (if cp_id p \<le> 0 then n else cp_id p)"
  define n1 where "n1 = (if i1 \<ge> n then i1 + 1 else n)"
  define i2 where "i2 = (if map_of m i1 \<noteq> None then n1 else i1)"
  define n2 where "n2 = (if map_of m i1 \<noteq> None then n1 + 1 else n1)"
  let ?p = "load_profile i2 (cp_isDefault p \<and> \<not> h) p"
  have taken: "map_of m i1 \<noteq> None \<Longrightarrow> i1 < n"
    using fresh [of i1] by (auto simp: map_of_eq_None_iff not_le [symmetric])
  have "go_int (i1 + 1) = i1 + 1" "go_int (n + 1) = n + 1"
    using room n by (simp_all add: st i1_def go_int_id)
  then have step: "build_step st p = (AList.update i2 ?p m, n2, h \<or> cp_isDefault p)"
    using taken unfolding st build_step.simps Let_def i1_def [symmetric]
    by (auto simp: i2_def n2_def n1_def split: prod.splits)
  have bounds: "0 < i2" "i2 < n2" "n \<le> n2" and new: "i2 \<notin> fst ` set m"
    using n fresh
    by (auto simp: i2_def n2_def n1_def i1_def map_of_eq_None_iff split: if_splits)
  have "list_all (id_entry w n2) m"
    using good id_entry_mono [OF _ bounds(3)] by (auto simp: list_all_iff)
  moreover have "id_entry w n2 (i2, ?p)"
    using bounds p by (simp add: id_entry_def load_profile_simps)
  moreover have "default_count (m @ [(i2, ?p)]) = (if h \<or> cp_isDefault p then 1 else 0)"
    using count by (simp add: load_profile_simps)
  ultimately show "build_inv w (build_step st p)"
    using keys off new bounds n
    by (simp add: step build_inv_def update_new [OF new] load_profile_simps)
  show "fst (snd (build_step st p)) + int r \<le> max_int"
    using room taken unfolding step by (auto simp: st n2_def n1_def i1_def)
  show "length (fst (build_step st p)) = Suc (length (fst st))"
    unfolding step by (simp add: st update_new [OF new])
qed

lemma build_fold_inv:
  assumes "build_inv w st" "w \<Longrightarrow> list_all (\<lambda>p. wf_secrets (cp_secrets p)) ps"
    "fst (snd st) + int (length ps) \<le> max_int" "list_all (\<lambda>p. cp_id p + int (length ps) \<le> max_int) ps"
  shows "build_inv w (foldl build_step st ps) \<and> fst (snd (foldl build_step st ps)) \<le> max_int \<and>
    length (fst (foldl build_step st ps)) = length (fst st) + length ps"
  using assms
proof (induction ps arbitrary: st)
  case (Cons p ps)
  have secrets: "w \<Longrightarrow> wf_secrets (cp_secrets p)" and room: "fst (snd st) + int (length ps) + 1 \<le> max_int"
      "cp_id p + int (length ps) + 1 \<le> max_int"
    using Cons.prems by simp_all
  note step = build_step_inv [OF Cons.prems(1) secrets room]
  have "list_all (\<lambda>p. cp_id p + int (length ps) \<le> max_int) ps"
    using Cons.prems(4) by (auto simp: list_all_iff)
  with Cons.IH [OF step(1) _ step(2)] Cons.prems(2) step(3) show ?case by simp
qed simp

lemma build_result:
  assumes secrets: "w \<Longrightarrow> list_all (\<lambda>p. wf_secrets (cp_secrets p)) ps" and fit: "ids_fit ps"
    and "buildConnectionState ps = (m, n)"
  shows "distinct (map fst m)" "list_all (id_entry w n) m" "0 < n" "n \<le> max_int"
    "default_count m = (if m = [] then 0 else 1)" "list_all (\<lambda>(i, p). cp_status p = StatusOffline) m"
    "length m = length ps"
proof -
  obtain l k h where f: "foldl build_step ([], 1, False) ps = (l, k, h)"
    by (metis prod_cases3)
  have "build_inv w ([], 1, False)" by (simp add: build_inv_def)
  from build_fold_inv [OF this secrets] fit f
  have inv: "distinct (map fst l)" "list_all (id_entry w k) l" "0 < k" "k \<le> max_int" "length l = length ps"
    "default_count l = (if h then 1 else 0)" "list_all (\<lambda>(i, p). cp_status p = StatusOffline) l"
    by (auto simp: build_inv_def ids_fit_def)
  have m: "m = (if l \<noteq> [] \<and> \<not> h then set_default_flag (hd (sortedConnectionIDs l)) True l else l)" "n = k"
    using assms(3) f by (auto simp: buildConnectionState_def split: if_splits)
  have entries: "list_all (id_entry w k) (set_default_flag i True l) = list_all (id_entry w k) l" for i
    by (induction l) (auto simp: set_default_flag_def id_entry_def split: if_splits)
  have status: "list_all (\<lambda>(i, p). cp_status p = StatusOffline) (set_default_flag i True l) =
      list_all (\<lambda>(i, p). cp_status p = StatusOffline) l" for i
    by (induction l) (auto simp: set_default_flag_def split: if_splits)
  show "default_count m = (if m = [] then 0 else 1)"
    using inv(1,6) default_count_raise [OF inv(1) _ hd_sorted_ids] by (auto simp: m)
  have "length (set_default_flag i True l) = length l" for i by (simp add: set_default_flag_def)
  then show "distinct (map fst m)" "list_all (id_entry w n) m" "0 < n" "n \<le> max_int"
    "list_all (\<lambda>(i, p). cp_status p = StatusOffline) m" "length m = length ps"
    using inv by (simp_all add: m entries status)
qed

lemma build_wf:
  assumes "list_all (\<lambda>p. wf_secrets (cp_secrets p)) ps" and "ids_fit ps"
  shows "wf_store (fst (buildConnectionState ps)) (snd (buildConnectionState ps)) \<and>
    list_all (\<lambda>(i, p). cp_status p = StatusOffline) (fst (buildConnectionState ps))"
  using build_result [where w = True, OF assms prod.collapse [symmetric]] by (simp add: wf_store_def)

section \<open>Open clients follow the stored profiles\<close>

abbreviation same_dial :: "profile \<Rightarrow> profile \<Rightarrow> bool" where
  "same_dial p q \<equiv> \<not> dialParametersChanged p q"

lemma same_dial_iff:
  "same_dial p q \<longleftrightarrow> cp_kind p = cp_kind q \<and> cp_endpoints p = cp_endpoints q \<and>
     cp_timeoutSec p = cp_timeoutSec q \<and> cp_mechanism p = cp_mechanism q \<and>
     map_of (cp_options p) = map_of (cp_options q) \<and> map_of (cp_secrets p) = map_of (cp_secrets q)"
  by (auto simp: dialParametersChanged_def maps_equal_iff)

lemma same_dial_refl [simp]: "same_dial p p"
  by (simp add: same_dial_iff)

lemma same_dial_trans: "same_dial p q \<Longrightarrow> same_dial q r \<Longrightarrow> same_dial p r"
  by (simp add: same_dial_iff)

lemma same_dial_status [simp]:
  "same_dial p (q\<lparr>cp_status := x\<rparr>) = same_dial p q"
  "same_dial p (q\<lparr>cp_lastCheck := t\<rparr>) = same_dial p q"
  "same_dial p (q\<lparr>cp_isDefault := b\<rparr>) = same_dial p q"
  by (simp_all add: same_dial_iff)

text \<open>Two profiles that dial alike resolve alike: the settings read nothing else of them.\<close>

lemma resolveACL_cong:
  assumes "same_dial p q"
  shows "resolveACLCredentials st p = resolveACLCredentials st q"
  using assms
  by (simp add: same_dial_iff resolveACLCredentials_def ACLEnabled_def Secret_def lookup_str_def)

lemma resolve_same_dial:
  assumes "same_dial p q"
  shows "same_dial (resolveForDial st p) (resolveForDial st q)"
proof -
  obtain e a s where r: "resolveACLCredentials st q = (e, a, s)" by (metis prod_cases3)
  have t: "getConnectTimeout st p = getConnectTimeout st q"
    using assms by (simp add: same_dial_iff getConnectTimeout_def)
  show ?thesis
    using assms t
    by (simp add: same_dial_iff resolveForDial_def resolveACL_cong [OF assms] r Let_def
        SetACL_def SetSecret_def)
qed

lemma resolve_id [simp]: "cp_id (resolveForDial st p) = cp_id p"
  by (simp add: resolveForDial_def Let_def SetACL_def SetSecret_def split: prod.split)

text \<open>
  Profile \<open>i\<close> is online exactly when it has an open client, and that client was dialled with
  what the profile says now.
\<close>

definition client_current ::
    "app_settings option \<Rightarrow> (int \<times> profile) list \<Rightarrow> (int \<times> profile) list \<Rightarrow> int \<Rightarrow> bool" where
  "client_current st clients profiles i =
     (case map_of clients i of
        Some d \<Rightarrow> (case map_of profiles i of
             Some p \<Rightarrow> cp_status p = StatusOnline \<and> \<not> dialParametersChanged d (resolveForDial st p)
           | None \<Rightarrow> False)
      | None \<Rightarrow> (case map_of profiles i of
             Some p \<Rightarrow> cp_status p \<noteq> StatusOnline | None \<Rightarrow> True))"

definition clients_ok :: "app_settings option \<Rightarrow> conn_service \<Rightarrow> bool" where
  "clients_ok st s \<longleftrightarrow>
     (\<forall>i. client_current st (rg_conns (cs_registry s)) (cs_connections s) i)"

definition conn_ok :: "app_settings option \<Rightarrow> conn_service \<Rightarrow> bool" where
  "conn_ok st s \<longleftrightarrow> wf_store (cs_connections s) (cs_nextID s) \<and> clients_ok st s"

lemma saveConnections_Some:
  "saveConnections save s = Some s' \<longleftrightarrow>
     save \<and> s' = s\<lparr>cs_file := copyConnectionsSorted (cs_connections s)\<rparr>"
  by (auto simp: saveConnections_def)

lemma saveConnections_None: "saveConnections save s = None \<longleftrightarrow> \<not> save"
  by (simp add: saveConnections_def)

text \<open>Putting back a profile that dials alike, with the same status, changes nothing.\<close>

lemma conn_ok_put:
  assumes ok: "conn_ok st s" and p: "stored_at s i = Some p"
    and q: "cp_id q = cp_id p" "cp_isDefault q = cp_isDefault p" "cp_status q = cp_status p"
      "wf_secrets (cp_secrets q)" "same_dial p q"
  shows "conn_ok st (put_profile i q s)"
proof -
  have wf: "wf_store (AList.update i q (cs_connections s)) (cs_nextID s)"
    using ok q(1,2,4) by (auto simp: conn_ok_def intro: wf_store_update [OF _ p])
  have res: "same_dial d (resolveForDial st p) \<Longrightarrow> same_dial d (resolveForDial st q)" for d
    using resolve_same_dial [OF q(5), of st] by (rule same_dial_trans [rotated])
  have "client_current st (rg_conns (cs_registry s)) (AList.update i q (cs_connections s)) j" for j
  proof -
    have "client_current st (rg_conns (cs_registry s)) (cs_connections s) j"
      using ok by (simp add: conn_ok_def clients_ok_def)
    then show ?thesis
      using p q(3) res by (auto simp: client_current_def split: option.splits)
  qed
  with wf show ?thesis by (simp add: conn_ok_def clients_ok_def)
qed

lemma conn_ok_put_offline:
  assumes ok: "conn_ok st s" and p: "stored_at s i = Some p"
    and q: "cp_id q = cp_id p" "cp_isDefault q = cp_isDefault p" "cp_status q = StatusOffline"
      "wf_secrets (cp_secrets q)"
    and r: "rg_conns r = AList.delete i (rg_conns (cs_registry s))"
  shows "conn_ok st (put_profile i q s\<lparr>cs_registry := r\<rparr>)"
proof -
  have wf: "wf_store (AList.update i q (cs_connections s)) (cs_nextID s)"
    using ok q(1,2,4) by (auto simp: conn_ok_def intro: wf_store_update [OF _ p])
  have "client_current st (rg_conns r) (AList.update i q (cs_connections s)) j" for j
  proof -
    have "client_current st (rg_conns (cs_registry s)) (cs_connections s) j"
      using ok by (simp add: conn_ok_def clients_ok_def)
    then show ?thesis
      using q(3) by (auto simp: r client_current_def delete_conv' split: option.splits)
  qed
  with wf show ?thesis by (simp add: conn_ok_def clients_ok_def)
qed

lemma conn_ok_registry_cong:
  "conn_ok st s \<Longrightarrow> cs_connections s' = cs_connections s \<Longrightarrow> cs_nextID s' = cs_nextID s \<Longrightarrow>
   rg_conns (cs_registry s') = rg_conns (cs_registry s) \<Longrightarrow> conn_ok st s'"
  by (simp add: conn_ok_def clients_ok_def)

lemma connectRuntime_ok:
  assumes "conn_ok st s"
  shows "conn_ok st (snd (connectRuntime st dial save now i s))"
proof (cases "stored_at s i")
  case None
  with assms show ?thesis by (simp add: connectRuntime_def)
next
  case (Some p)
  then have p: "cp_id p = i" "wf_secrets (cp_secrets p)"
    using assms by (auto simp: conn_ok_def dest: wf_store_lookup)
  show ?thesis
  proof (cases "runtime_Connect dial (resolveForDial st p) (cs_registry s)")
    case None
    with Some assms show ?thesis by (simp add: connectRuntime_def)
  next
    case r: (Some r)
    let ?q = "p\<lparr>cp_status := StatusOnline, cp_lastCheck := now\<rparr>"
    let ?s = "put_profile i ?q (s\<lparr>cs_registry := r\<rparr>)"
    have conns: "rg_conns r = AList.update i (resolveForDial st p) (rg_conns (cs_registry s))"
      using runtime_Connect_Some [OF r] p by simp
    have res: "same_dial (resolveForDial st p) (resolveForDial st ?q)"
      by (rule resolve_same_dial) simp
    have wf: "wf_store (AList.update i ?q (cs_connections s)) (cs_nextID s)"
      using assms Some p by (intro wf_store_update [where q = p]) (simp_all add: conn_ok_def)
    have "client_current st (rg_conns r) (AList.update i ?q (cs_connections s)) j" for j
    proof -
      have "client_current st (rg_conns (cs_registry s)) (cs_connections s) j"
        using assms by (simp add: conn_ok_def clients_ok_def)
      then show ?thesis
        using res by (auto simp: conns client_current_def split: option.splits)
    qed
    with wf have ok: "conn_ok st ?s" by (simp add: conn_ok_def clients_ok_def)
    show ?thesis
    proof (cases "saveConnections save ?s")
      case None
      with Some r ok show ?thesis by (simp add: connectRuntime_def)
    next
      case saved: (Some s')
      then have "conn_ok st s'"
        by (intro conn_ok_registry_cong [OF ok]) (simp_all add: saveConnections_Some)
      with Some r saved show ?thesis by (simp add: connectRuntime_def)
    qed
  qed
qed

section \<open>Every operation keeps the store well formed and the clients current\<close>

lemma conn_ok_file [simp]: "conn_ok st (s\<lparr>cs_file := f\<rparr>) = conn_ok st s"
  by (simp add: conn_ok_def clients_ok_def)

lemma conn_ok_reload_flag [simp]: "conn_ok st (s\<lparr>cs_reconnectReload := b\<rparr>) = conn_ok st s"
  by (simp add: conn_ok_def clients_ok_def)

lemma conn_ok_lookup:
  "conn_ok st s \<Longrightarrow> stored_at s i = Some p \<Longrightarrow> cp_id p = i \<and> wf_secrets (cp_secrets p)"
  by (auto simp: conn_ok_def dest: wf_store_lookup)

lemma put_same:
  assumes "conn_ok st s" "stored_at s i = Some p"
  shows "put_profile i p s = s"
proof -
  have "AList.update i p m = m" if "map_of m i = Some p" for m :: "(int \<times> profile) list"
    using that by (induction m) (auto split: if_splits)
  with assms(2) show ?thesis by (simp add: put_profile_def)
qed

lemma offline_no_client:
  assumes "conn_ok st s" "stored_at s i = Some p" "cp_status p \<noteq> StatusOnline"
  shows "map_of (rg_conns (cs_registry s)) i = None"
proof -
  have "client_current st (rg_conns (cs_registry s)) (cs_connections s) i"
    using assms(1) by (simp add: conn_ok_def clients_ok_def)
  with assms(2,3) show ?thesis by (auto simp: client_current_def split: option.splits)
qed

lemma store_edit_ok:
  assumes ok: "conn_ok st s" and p: "stored_at s i = Some previous"
    and c: "cp_id c = cp_id previous" "cp_isDefault c = cp_isDefault previous"
      "cp_status c = cp_status previous" "wf_secrets (cp_secrets c)"
    and unchanged: "\<not> changed \<Longrightarrow> same_dial previous c"
  shows "conn_ok st (snd (store_edit st save redial save2 now i previous changed c s))"
proof (cases save)
  case False
  then show ?thesis
    using ok put_same [OF ok p] by (simp add: store_edit_def saveConnections_def)
next
  case save: True
  show ?thesis
  proof (cases changed)
    case False
    then show ?thesis
      using save conn_ok_put [OF ok p c(1,2,3,4)] unchanged
      by (simp add: store_edit_def saveConnections_def)
  next
    case True
    let ?c = "c\<lparr>cp_status := StatusOffline\<rparr>"
    show ?thesis
    proof (cases "cp_status previous = StatusOnline")
      case online: True
      let ?r = "runtime_Remove i (cs_registry s)"
      let ?s = "put_profile i ?c s\<lparr>cs_registry := ?r\<rparr>"
      let ?f = "copyConnectionsSorted (AList.update i ?c (cs_connections s))"
      have "conn_ok st ?s"
        by (rule conn_ok_put_offline [OF ok p]) (simp_all add: c)
      then have ok': "conn_ok st (?s\<lparr>cs_file := ?f\<rparr>)" by simp
      have eq: "put_profile i ?c s\<lparr>cs_file := ?f, cs_registry := ?r\<rparr> = ?s\<lparr>cs_file := ?f\<rparr>"
        by (simp add: put_profile_def)
      obtain res s'' where run: "connectRuntime st redial save2 now i
          (put_profile i ?c s\<lparr>cs_file := ?f, cs_registry := ?r\<rparr>) = (res, s'')"
        by (metis surj_pair)
      have "conn_ok st s''"
        using connectRuntime_ok [OF ok', of redial save2 now i] run unfolding eq by simp
      then show ?thesis
        using save True online run
        by (simp add: store_edit_def saveConnections_def split: sum.split)
    next
      case offline: False
      from offline_no_client [OF ok p this]
      have "i \<notin> fst ` set (rg_conns (cs_registry s))" by (simp add: map_of_eq_None_iff)
      then have gone: "AList.delete i (rg_conns (cs_registry s)) = rg_conns (cs_registry s)"
        by (rule delete_id)
      have "conn_ok st (put_profile i ?c s\<lparr>cs_registry := cs_registry s\<rparr>)"
        by (rule conn_ok_put_offline [OF ok p]) (simp_all add: c gone)
      then have "conn_ok st (put_profile i ?c s)"
        by (rule conn_ok_registry_cong) simp_all
      then show ?thesis
        using save True offline by (simp add: store_edit_def saveConnections_def Let_def)
    qed
  qed
qed

lemma edited_profile_frame:
  "cp_id (edited_profile p input n e acl) = cp_id p"
  "cp_isDefault (edited_profile p input n e acl) = cp_isDefault p"
  "cp_status (edited_profile p input n e acl) = cp_status p"
  "cp_lastCheck (edited_profile p input n e acl) = cp_lastCheck p"
  "wf_secrets (cp_secrets input) \<Longrightarrow> wf_secrets (cp_secrets (edited_profile p input n e acl))"
  by (simp_all add: edited_profile_def split: prod.split)

lemma UpdateConnection_ok:
  assumes ok: "conn_ok st s" and wf: "wf_secrets (cp_secrets input)"
  shows "conn_ok st (snd (UpdateConnection needs st save redial save2 now i input s))"
proof (cases "validateConnectionFields needs (editedKind i (cp_kind input) s) (cp_name input)
             (cp_endpoints input) (cp_timeoutSec input)")
  case (Inl e)
  with ok show ?thesis by (simp add: UpdateConnection_def)
next
  case (Inr ne)
  obtain n e where ne: "ne = (n, e)" by (cases ne)
  show ?thesis
  proof (cases "stored_at s i")
    case None
    with ok Inr ne show ?thesis by (simp add: UpdateConnection_def)
  next
    case (Some previous)
    show ?thesis
    proof (cases "normalizeACLConfig (ACLEnabled input) (Secret input secretAccessKey)
                       (Secret input secretSecretKey)")
      case (Inl e)
      with ok Inr ne Some show ?thesis by (simp add: UpdateConnection_def)
    next
      case acl: (Inr eas)
      have "conn_ok st (snd (store_edit st save redial save2 now i previous
          (dialParametersChanged previous (edited_profile previous input n e eas))
          (edited_profile previous input n e eas) s))"
        by (rule store_edit_ok [OF ok Some]) (simp_all add: edited_profile_frame wf)
      with Inr ne Some acl show ?thesis by (simp add: UpdateConnection_def Let_def)
    qed
  qed
qed

lemma SetOption_ok:
  assumes ok: "conn_ok st s"
  shows "conn_ok st (snd (SetOption st save redial save2 now i key v s))"
proof (cases "stored_at s i")
  case None
  with ok show ?thesis by (simp add: SetOption_def Let_def)
next
  case (Some previous)
  have "conn_ok st (snd (store_edit st save redial save2 now i previous True
          (previous\<lparr>cp_options := opts\<rparr>) s))" for opts
    using conn_ok_lookup [OF ok Some] by (intro store_edit_ok [OF ok Some]) simp_all
  with ok Some show ?thesis by (simp add: SetOption_def Let_def)
qed

lemma conn_ok_clients: "conn_ok st s \<Longrightarrow> client_current st (rg_conns (cs_registry s)) (cs_connections s) i"
  by (simp add: conn_ok_def clients_ok_def)

lemma unstored_no_client:
  assumes "conn_ok st s" "stored_at s i = None"
  shows "map_of (rg_conns (cs_registry s)) i = None"
  using conn_ok_clients [OF assms(1), of i] assms(2)
  by (auto simp: client_current_def split: option.splits)

lemma client_current_cong:
  assumes "map_of clients' i = map_of clients i"
    and "map_of profiles' i = map_option f (map_of profiles i)"
    and "\<And>p. same_dial p (f p)" "\<And>p. cp_status (f p) = cp_status p"
    and "client_current st clients profiles i"
  shows "client_current st clients' profiles' i"
  using assms(5) resolve_same_dial [OF assms(3), of st] same_dial_trans
  by (auto simp: client_current_def assms(1,2,4) split: option.splits)

lemma AddConnection_ok:
  assumes ok: "conn_ok st s" and wf: "wf_secrets (cp_secrets input)" and room: "cs_nextID s < max_int"
  shows "conn_ok st (snd (AddConnection needs save input s))"
proof -
  let ?n = "cs_nextID s" and ?m = "cs_connections s"
  have store: "wf_store ?m ?n" using ok by (simp add: conn_ok_def)
  have count: "go_int (?n + 1) = ?n + 1" using store room by (intro go_int_id) (simp_all add: wf_store_def)
  have fresh: "?n \<notin> fst ` set ?m" by (rule wf_store_fresh [OF store order_refl])
  then have none: "map_of ?m ?n = None" by (simp add: map_of_eq_None_iff)
  have add: "conn_ok st (put_profile ?n p s\<lparr>cs_file := f, cs_nextID := ?n + 1\<rparr>)"
    if p: "cp_id p = ?n" "wf_secrets (cp_secrets p)" "cp_isDefault p \<longleftrightarrow> ?m = []"
      "cp_status p = StatusOffline" for p f
  proof -
    have "client_current st (rg_conns (cs_registry s)) (AList.update ?n p ?m) j" for j
      using conn_ok_clients [OF ok, of j] unstored_no_client [OF ok none] p(4)
      by (auto simp: client_current_def split: option.splits)
    with wf_store_add [OF store p(1,2,3)] show ?thesis
      by (simp add: conn_ok_def clients_ok_def)
  qed
  have undo: "AList.delete ?n (AList.update ?n p ?m) = ?m" for p
    using fresh by (simp add: delete_update_same)
  have keep: "put_profile ?n p s\<lparr>cs_connections := ?m\<rparr> = s" for p
    by (simp add: put_profile_def)
  show ?thesis
    using ok wf
    by (auto simp: AddConnection_def Let_def saveConnections_def undo keep count intro!: add
        split: sum.split prod.split)
qed

lemma DeleteConnection_ok:
  assumes ok: "conn_ok st s"
  shows "conn_ok st (snd (DeleteConnection save i s))"
proof (cases "stored_at s i")
  case None
  with ok show ?thesis by (simp add: DeleteConnection_def)
next
  case (Some p)
  let ?m = "cs_connections s" and ?n = "cs_nextID s"
  let ?rest = "AList.delete i ?m"
  have store: "wf_store ?m ?n" using ok by (simp add: conn_ok_def)
  show ?thesis
  proof (cases "cp_isDefault p \<and> length ?m > 1")
    case True
    with ok Some show ?thesis by (simp add: DeleteConnection_def)
  next
    case False
    then have d: "\<not> cp_isDefault p \<or> length ?m \<le> 1" by auto
    have no_new: "\<not> (?rest \<noteq> [] \<and> cp_isDefault p)"
      using d Some by (cases ?m) auto
    have del: "conn_ok st (s\<lparr>cs_connections := ?rest, cs_file := f, cs_registry := r\<rparr>)"
      if r: "rg_conns r = AList.delete i (rg_conns (cs_registry s))" for f r
    proof -
      have "client_current st (rg_conns r) ?rest j" for j
        using conn_ok_clients [OF ok, of j]
        by (auto simp: r client_current_def delete_conv' split: option.splits)
      with wf_store_delete [OF store Some d] show ?thesis
        by (simp add: conn_ok_def clients_ok_def)
    qed
    have gone: "cp_status p \<noteq> StatusOnline \<Longrightarrow>
        conn_ok st (s\<lparr>cs_connections := ?rest, cs_file := f\<rparr>)" for f
    proof -
      assume "cp_status p \<noteq> StatusOnline"
      from offline_no_client [OF ok Some this]
      have "i \<notin> fst ` set (rg_conns (cs_registry s))" by (simp add: map_of_eq_None_iff)
      then have "rg_conns (cs_registry s) = AList.delete i (rg_conns (cs_registry s))" by simp
      from del [OF this, of f] show ?thesis by (rule conn_ok_registry_cong) simp_all
    qed
    have undo: "conn_ok st (s\<lparr>cs_connections := AList.update i p ?rest\<rparr>)"
    proof -
      have "i \<notin> fst ` set ?rest" by (rule delete_notin_dom)
      then have up: "AList.update i p ?rest = ?rest @ [(i, p)]" by (rule update_new)
      have "?m \<noteq> []" using Some by auto
      then have wf: "wf_store (AList.update i p ?rest) ?n"
        using store Some default_count_delete [of ?m i p] set_delete_subset [of i ?m]
          \<open>i \<notin> fst ` set ?rest\<close> wf_store_lookup [OF store Some]
        unfolding up
        by (auto simp: wf_store_def list_all_iff distinct_delete good_entry_def)
      have same: "map_of (AList.update i p ?rest) = map_of ?m"
        using Some by (auto simp: delete_conv' fun_eq_iff)
      have "client_current st (rg_conns (cs_registry s)) (AList.update i p ?rest) j" for j
        using conn_ok_clients [OF ok, of j] unfolding client_current_def same .
      with wf show ?thesis by (simp add: conn_ok_def clients_ok_def)
    qed
    from False no_new Some del [of "runtime_Remove i (cs_registry s)"] gone undo
    show ?thesis
      by (auto simp: DeleteConnection_def Let_def saveConnections_def)
  qed
qed

text \<open>Profiles that only change their default flag, to a single default again.\<close>

definition reflagged :: "(int \<times> profile) list \<Rightarrow> (int \<times> profile) list \<Rightarrow> bool" where
  "reflagged m m' \<longleftrightarrow>
     (\<forall>j. \<exists>b. map_of m' j = map_option (\<lambda>q. q\<lparr>cp_isDefault := b\<rparr>) (map_of m j))"

definition cleared_flags :: "(int \<times> profile) list \<Rightarrow> (int \<times> profile) list" where
  "cleared_flags m = map (\<lambda>(j, q). (j, q\<lparr>cp_isDefault := False\<rparr>)) m"

lemma reflagged_cleared: "reflagged m (cleared_flags m)"
  unfolding reflagged_def cleared_flags_def by (auto simp: map_of_map intro: exI [of _ False])

lemma reflagged_set: "reflagged m m' \<Longrightarrow> reflagged m (set_default_flag k c m')"
  unfolding reflagged_def
proof (intro allI)
  fix j assume "\<forall>j. \<exists>b. map_of m' j = map_option (\<lambda>q. q\<lparr>cp_isDefault := b\<rparr>) (map_of m j)"
  then obtain b where "map_of m' j = map_option (\<lambda>q. q\<lparr>cp_isDefault := b\<rparr>) (map_of m j)" by blast
  then show "\<exists>b. map_of (set_default_flag k c m') j =
      map_option (\<lambda>q. q\<lparr>cp_isDefault := b\<rparr>) (map_of m j)"
    by (cases "map_of m j") (auto simp: map_of_set_default_flag)
qed

lemma conn_ok_reflagged:
  assumes ok: "conn_ok st s" and wf: "wf_store m' (cs_nextID s)"
    and re: "reflagged (cs_connections s) m'"
  shows "conn_ok st (s\<lparr>cs_connections := m'\<rparr>)"
proof -
  have "client_current st (rg_conns (cs_registry s)) m' j" for j
  proof -
    obtain b where b: "map_of m' j = map_option (\<lambda>q. q\<lparr>cp_isDefault := b\<rparr>) (stored_at s j)"
      using re unfolding reflagged_def by blast
    show ?thesis
      by (rule client_current_cong [OF refl b _ _ conn_ok_clients [OF ok]]) simp_all
  qed
  with wf show ?thesis by (simp add: conn_ok_def clients_ok_def)
qed

lemma wf_one_default:
  assumes wf: "wf_store m n" and k: "k \<in> fst ` set m"
  shows "wf_store (set_default_flag k True (cleared_flags m)) n"
proof (rule wf_store_raise)
  have keys: "map fst (cleared_flags m) = map fst m"
    by (simp add: cleared_flags_def comp_def split_def)
  show "distinct (map fst (cleared_flags m))" unfolding keys using wf by (simp add: wf_store_def)
  show "k \<in> fst ` set (cleared_flags m)" using k keys by (metis set_map)
  show "list_all (good_entry n) (cleared_flags m)"
    using wf by (auto simp: wf_store_def list_all_iff good_entry_def cleared_flags_def)
qed (use wf in \<open>simp_all add: default_count_cleared cleared_flags_def wf_store_def\<close>)

lemma default_id_stored:
  assumes wf: "wf_store m n" and "m \<noteq> []"
  shows "default_id m \<in> fst ` set m" and "default_id m \<noteq> 0"
proof -
  have "default_count m = 1" using assms by (simp add: wf_store_def)
  then have "filter id (default_flags m) \<noteq> []" by (auto simp: default_count_def)
  then obtain j q where "(j, q) \<in> set m" "cp_isDefault q"
    by (force simp: default_flags_def filter_empty_conv)
  then obtain j' q' where f: "find (\<lambda>(i, p). cp_isDefault p) m = Some (j', q')"
    by (cases "find (\<lambda>(i, p). cp_isDefault p) m") (auto simp: find_None_iff)
  then have "(j', q') \<in> set m" by (metis find_Some_iff nth_mem)
  moreover from this have "cp_id q' = j'" "0 < j'"
    using wf by (auto simp: wf_store_def list_all_iff good_entry_def)
  ultimately show "default_id m \<in> fst ` set m" "default_id m \<noteq> 0"
    using f by (force simp: default_id_def)+
qed

lemma set_default_undo:
  "set_default_flag d True (set_default_flag i False (set_default_flag i True (cleared_flags m))) =
   set_default_flag d True (cleared_flags m)"
  by (auto simp: set_default_flag_def cleared_flags_def)

lemma SetDefaultConnection_ok:
  assumes ok: "conn_ok st s"
  shows "conn_ok st (snd (SetDefaultConnection save i s))"
proof (cases "stored_at s i")
  case None
  with ok show ?thesis by (simp add: SetDefaultConnection_def)
next
  case (Some p)
  let ?m = "cs_connections s" and ?d = "default_id (cs_connections s)"
  have store: "wf_store ?m (cs_nextID s)" using ok by (simp add: conn_ok_def)
  have "?m \<noteq> []" and i: "i \<in> fst ` set ?m" using Some by (auto dest: map_of_SomeD intro: rev_image_eqI)
  note d = default_id_stored [OF store \<open>?m \<noteq> []\<close>]
  have raised: "conn_ok st (s\<lparr>cs_connections := set_default_flag k True (cleared_flags ?m)\<rparr>)"
    if "k \<in> fst ` set ?m" for k
    by (rule conn_ok_reflagged [OF ok wf_one_default [OF store that]])
      (intro reflagged_set reflagged_cleared)
  show ?thesis
    using Some ok raised [OF i] raised [OF d(1)] d(2)
    by (simp add: SetDefaultConnection_def saveConnections_def Let_def
        set_default_undo [unfolded cleared_flags_def] cleared_flags_def)
qed

lemma Disconnect_ok:
  assumes ok: "conn_ok st s"
  shows "conn_ok st (snd (Disconnect save now i s))"
proof (cases "stored_at s i")
  case None
  with ok show ?thesis by (simp add: Disconnect_def)
next
  case (Some p)
  let ?q = "p\<lparr>cp_status := StatusOffline, cp_lastCheck := now\<rparr>"
  let ?r = "runtime_Remove i (cs_registry s)"
  have "conn_ok st (put_profile i ?q s\<lparr>cs_registry := ?r\<rparr>)"
    using conn_ok_lookup [OF ok Some] by (intro conn_ok_put_offline [OF ok Some]) simp_all
  then have "conn_ok st (put_profile i ?q (s\<lparr>cs_registry := ?r\<rparr>))"
    by (rule conn_ok_registry_cong) simp_all
  then show ?thesis
    using Some by (simp add: Disconnect_def saveConnections_def Let_def)
qed

lemma TestConnection_ok:
  assumes ok: "conn_ok st s"
  shows "conn_ok st (snd (TestConnection reached now i s))"
proof (cases "stored_at s i")
  case None
  with ok show ?thesis by (simp add: TestConnection_def)
next
  case (Some p)
  then have "conn_ok st (put_profile i (p\<lparr>cp_lastCheck := now\<rparr>) s)"
    using conn_ok_lookup [OF ok Some] by (intro conn_ok_put [OF ok Some]) simp_all
  with Some show ?thesis by (simp add: TestConnection_def)
qed

lemma ConnectDefault_ok: "conn_ok st s \<Longrightarrow> conn_ok st (snd (ConnectDefault st dial save now s))"
  by (simp add: ConnectDefault_def Connect_def Let_def connectRuntime_ok)

lemma Reload_ok:
  assumes ok: "conn_ok st s"
    and ps: "\<And>ps. decoded = Some ps \<Longrightarrow> list_all (\<lambda>p. wf_secrets (cp_secrets p)) ps \<and> ids_fit ps"
  shows "conn_ok st (snd (Reload st dial save now decoded s))"
proof (cases decoded)
  case None
  with ok show ?thesis by (simp add: Reload_def loadConnections_def)
next
  case (Some qs)
  obtain m n where mn: "buildConnectionState qs = (m, n)" by (cases "buildConnectionState qs")
  with build_wf [of qs] ps [OF Some] have wf: "wf_store m n"
    and off: "list_all (\<lambda>(i, p). cp_status p = StatusOffline) m" by auto
  define s1 where "s1 = s\<lparr>cs_connections := m, cs_nextID := n, cs_reconnectReload := reload_plan s,
      cs_registry := registry_CloseAll (cs_registry s)\<rparr>"
  have "client_current st [] m i" for i
    using off by (auto simp: client_current_def list_all_iff dest!: map_of_SomeD split: option.split)
  with wf have ok1: "conn_ok st s1"
    by (simp add: s1_def conn_ok_def clients_ok_def registry_CloseAll_def)
  have "conn_ok st (snd (restoreRuntime st dial save now b (s1\<lparr>cs_registry := r\<rparr>)))"
    if "registry_CloseAll r = cs_registry s1" for b r
  proof -
    have "s1\<lparr>cs_registry := r, cs_registry := registry_CloseAll r\<rparr> = s1"
      using that by simp
    then show ?thesis
      using ok1 connectRuntime_ok [OF ok1, of dial save now "default_id (cs_connections s1)"]
      by (auto simp: restoreRuntime_def Let_def split: prod.split sum.split)
  qed
  from this [of "cs_registry s" "reload_plan s"]
  show ?thesis using Some mn
    by (simp add: Reload_def loadConnections_def Let_def s1_def)
qed

section \<open>Runs of the service\<close>

text \<open>\<open>New\<close>: an empty service, with the file's profiles when it decodes.\<close>

definition service_new :: "profile list option \<Rightarrow> conn_service" where
  "service_new decoded =
     (let s = \<lparr>cs_connections = [], cs_nextID = 1,
               cs_file = (case decoded of Some ps \<Rightarrow> ps | None \<Rightarrow> []),
               cs_registry = \<lparr>rg_conns = [], rg_activeID = 0\<rparr>, cs_reconnectReload = False\<rparr>
      in case loadConnections decoded s of None \<Rightarrow> s | Some s' \<Rightarrow> s')"

abbreviation clean_profiles :: "profile list \<Rightarrow> bool" where
  "clean_profiles ps \<equiv> list_all (\<lambda>p. wf_secrets (cp_secrets p)) ps \<and> ids_fit ps"

inductive conn_step ::
    "(mq_kind \<Rightarrow> bool) \<Rightarrow> app_settings option \<Rightarrow> conn_service \<Rightarrow> conn_service \<Rightarrow> bool"
  for needs :: "mq_kind \<Rightarrow> bool" and st :: "app_settings option" where
  add: "wf_secrets (cp_secrets input) \<Longrightarrow> cs_nextID s < max_int \<Longrightarrow>
     conn_step needs st s (snd (AddConnection needs save input s))"
| update: "wf_secrets (cp_secrets input) \<Longrightarrow>
     conn_step needs st s (snd (UpdateConnection needs st save redial save2 now i input s))"
| set_option: "conn_step needs st s (snd (SetOption st save redial save2 now i key v s))"
| delete: "conn_step needs st s (snd (DeleteConnection save i s))"
| set_default: "conn_step needs st s (snd (SetDefaultConnection save i s))"
| connect: "conn_step needs st s (snd (Connect st dial save now i s))"
| connect_default: "conn_step needs st s (snd (ConnectDefault st dial save now s))"
| disconnect: "conn_step needs st s (snd (Disconnect save now i s))"
| test: "conn_step needs st s (snd (TestConnection reached now i s))"
| reload: "(\<And>ps. decoded = Some ps \<Longrightarrow> clean_profiles ps) \<Longrightarrow>
     conn_step needs st s (snd (Reload st dial save now decoded s))"

inductive conn_reachable ::
    "(mq_kind \<Rightarrow> bool) \<Rightarrow> app_settings option \<Rightarrow> conn_service \<Rightarrow> bool"
  for needs :: "mq_kind \<Rightarrow> bool" and st :: "app_settings option" where
  start: "(\<And>ps. decoded = Some ps \<Longrightarrow> clean_profiles ps) \<Longrightarrow>
     conn_reachable needs st (service_new decoded)"
| step: "conn_reachable needs st s \<Longrightarrow> conn_step needs st s s' \<Longrightarrow> conn_reachable needs st s'"

lemma service_new_ok:
  assumes "\<And>ps. decoded = Some ps \<Longrightarrow> clean_profiles ps"
  shows "conn_ok st (service_new decoded)"
proof (cases decoded)
  case None
  then show ?thesis
    by (simp add: service_new_def loadConnections_def conn_ok_def clients_ok_def wf_store_def
        client_current_def)
next
  case (Some ps)
  obtain m n where mn: "buildConnectionState ps = (m, n)" by (cases "buildConnectionState ps")
  with build_wf [of ps] assms [OF Some] have wf: "wf_store m n"
    and off: "list_all (\<lambda>(i, p). cp_status p = StatusOffline) m" by auto
  have "client_current st [] m i" for i
    using off by (auto simp: client_current_def list_all_iff dest!: map_of_SomeD split: option.split)
  with wf Some mn show ?thesis
    by (simp add: service_new_def loadConnections_def conn_ok_def clients_ok_def)
qed

lemma conn_step_ok: "conn_step needs st s s' \<Longrightarrow> conn_ok st s \<Longrightarrow> conn_ok st s'"
  by (induction rule: conn_step.induct)
    (simp_all add: AddConnection_ok UpdateConnection_ok SetOption_ok DeleteConnection_ok
      SetDefaultConnection_ok Connect_def connectRuntime_ok ConnectDefault_ok Disconnect_ok
      TestConnection_ok Reload_ok)

lemma conn_reachable_ok: "conn_reachable needs st s \<Longrightarrow> conn_ok st s"
  by (induction rule: conn_reachable.induct) (auto intro: service_new_ok conn_step_ok)

lemma one_default_unique:
  assumes "default_count m = 1" "distinct (map fst m)"
  shows "\<exists>!i. \<exists>p. map_of m i = Some p \<and> cp_isDefault p"
  using assms
proof (induction m)
  case (Cons e m)
  obtain j q where e: "e = (j, q)" by (cases e)
  have none: "\<not> (map_of m i = Some p \<and> cp_isDefault p)" if "default_count m = 0" for m :: "(int \<times> profile) list" and i p
    using that by (induction m) (auto split: if_splits)
  from Cons.prems e have new: "map_of m j = None" by (auto simp: map_of_eq_None_iff)
  show ?case
  proof (cases "cp_isDefault q")
    case True
    with Cons.prems e have "default_count m = 0" by simp
    with none True e show ?thesis by (intro ex1I [of _ j]) (auto split: if_splits)
  next
    case False
    with Cons e have one: "\<exists>!i. \<exists>p. map_of m i = Some p \<and> cp_isDefault p" by simp
    have "(\<exists>p. map_of (e # m) i = Some p \<and> cp_isDefault p) =
        (\<exists>p. map_of m i = Some p \<and> cp_isDefault p)" for i
      using False e new by auto
    with one show ?thesis by simp
  qed
qed simp

lemma default_id_iff:
  assumes wf: "wf_store m n" and q: "map_of m j = Some q"
  shows "cp_isDefault q \<longleftrightarrow> j = default_id m"
proof -
  have keys: "distinct (map fst m)" and one: "default_count m = 1"
    using wf q by (auto simp: wf_store_def split: if_splits)
  from one have "filter id (default_flags m) \<noteq> []" by (auto simp: default_count_def)
  then obtain j1 q1 where "(j1, q1) \<in> set m" "cp_isDefault q1"
    by (force simp: default_flags_def filter_empty_conv)
  then obtain j2 q2 where f: "find (\<lambda>(i, p). cp_isDefault p) m = Some (j2, q2)"
    by (cases "find (\<lambda>(i, p). cp_isDefault p) m") (auto simp: find_None_iff)
  then have "(j2, q2) \<in> set m" and d: "cp_isDefault q2"
    by (metis find_Some_iff nth_mem) (metis (mono_tags, lifting) f case_prod_conv find_Some_iff)
  then have look: "map_of m j2 = Some q2" using keys by simp
  then have id: "default_id m = j2"
    using f wf_store_lookup [OF wf look] by (simp add: default_id_def)
  have ex: "\<exists>!i. \<exists>p. map_of m i = Some p \<and> cp_isDefault p"
    by (rule one_default_unique [OF one keys])
  show ?thesis
  proof
    assume "cp_isDefault q"
    with ex look d q have "j = j2" by blast
    with id show "j = default_id m" by simp
  next
    assume "j = default_id m"
    with id look d q show "cp_isDefault q" by simp
  qed
qed

lemma set_default_restored:
  assumes wf: "wf_store m n"
  shows "map_of (set_default_flag (default_id m) True (cleared_flags m)) = map_of m"
proof
  fix j
  have upd: "q\<lparr>cp_isDefault := b\<rparr> = q" if "cp_isDefault q = b" for q b
    using that by (cases q) auto
  have "map_of (cleared_flags m) j = map_option (\<lambda>q. q\<lparr>cp_isDefault := False\<rparr>) (map_of m j)" for j
    unfolding cleared_flags_def by (simp add: map_of_map)
  then show "map_of (set_default_flag (default_id m) True (cleared_flags m)) j = map_of m j"
    using default_id_iff [OF wf, of j]
    by (cases "map_of m j") (auto simp: map_of_set_default_flag upd)
qed

text \<open>What the screens and the file see of the state: the same before and after.\<close>

definition same_state :: "conn_service \<Rightarrow> conn_service \<Rightarrow> bool" where
  "same_state s s' \<longleftrightarrow> map_of (cs_connections s') = map_of (cs_connections s) \<and>
     cs_nextID s' = cs_nextID s \<and> cs_file s' = cs_file s \<and> cs_registry s' = cs_registry s"

lemma same_state_refl [simp]: "same_state s s"
  by (simp add: same_state_def)

lemma unsaved_edit:
  assumes "conn_ok st s" "stored_at s i = Some p"
  shows "store_edit st False redial save2 now i p changed c s = (Inl SaveFailed, s)"
  using put_same [OF assms] by (simp add: store_edit_def saveConnections_def)

lemma unsaved_add: "conn_ok st s \<Longrightarrow> same_state s (snd (AddConnection needs False input s))"
proof -
  assume ok: "conn_ok st s"
  then have "cs_nextID s \<notin> fst ` set (cs_connections s)"
    by (simp add: conn_ok_def wf_store_fresh [OF _ order_refl])
  then have "AList.delete (cs_nextID s) (AList.update (cs_nextID s) p (cs_connections s)) =
      cs_connections s" for p
    by (simp add: delete_update_same)
  then show ?thesis
    by (auto simp: AddConnection_def Let_def saveConnections_def same_state_def
        split: sum.split prod.split)
qed

lemma update_delete_map: "map_of m i = Some p \<Longrightarrow> map_of (AList.update i p (AList.delete i m)) = map_of m"
  by (auto simp: delete_conv' fun_eq_iff)

lemma deleted_default_alone:
  "map_of m i = Some p \<Longrightarrow> \<not> (cp_isDefault p \<and> length m > 1) \<Longrightarrow>
   \<not> (AList.delete i m \<noteq> [] \<and> cp_isDefault p)"
  by (cases m) auto

lemma unsaved_delete: "same_state s (snd (DeleteConnection False i s))"
proof (cases "stored_at s i")
  case (Some p)
  show ?thesis
  proof (cases "cp_isDefault p \<and> length (cs_connections s) > 1")
    case False
    from deleted_default_alone [OF Some this]
    consider "\<not> cp_isDefault p" | "AList.delete i (cs_connections s) = []" by auto
    then show ?thesis
      using Some False update_delete_map [OF Some]
      by cases (simp_all add: DeleteConnection_def Let_def saveConnections_def same_state_def)
  qed (use Some in \<open>simp add: DeleteConnection_def\<close>)
qed (simp add: DeleteConnection_def)

lemma unsaved_set_default: "conn_ok st s \<Longrightarrow> same_state s (snd (SetDefaultConnection False i s))"
proof (cases "stored_at s i")
  case (Some p)
  assume "conn_ok st s"
  then have store: "wf_store (cs_connections s) (cs_nextID s)" by (simp add: conn_ok_def)
  from Some have "cs_connections s \<noteq> []" by auto
  with Some set_default_restored [OF store] default_id_stored [OF store] show ?thesis
    by (simp add: SetDefaultConnection_def saveConnections_def Let_def same_state_def
        set_default_undo [unfolded cleared_flags_def] cleared_flags_def)
qed (simp add: SetDefaultConnection_def)

lemma unsaved_update:
  "conn_ok st s \<Longrightarrow>
   same_state s (snd (UpdateConnection needs st False redial save2 now i input s))"
  by (simp add: UpdateConnection_def unsaved_edit Let_def split: sum.split option.split prod.split)

lemma unsaved_set_option:
  "conn_ok st s \<Longrightarrow> same_state s (snd (SetOption st False redial save2 now i key v s))"
  by (simp add: SetOption_def unsaved_edit Let_def split: option.split)

section \<open>What the service guarantees\<close>

text \<open>C6. However the stored file looks (ids missing, repeated or negative, no default or several,
  secrets of any shape), loading it keeps every profile, under ids that are distinct, positive and
  below the next one to hand out, with exactly one of them the default. The one condition is that
  the ids leave room to count: an id so near the largest 64-bit integer that one more per profile
  would wrap is excluded, and then the next id is within that integer too.\<close>

theorem loading_repairs_any_file:
  assumes "ids_fit ps" and "buildConnectionState ps = (m, nextID)"
  shows "length m = length ps \<and> distinct (map fst m) \<and> nextID \<le> max_int \<and>
    (\<forall>(i, p) \<in> set m. cp_id p = i \<and> 0 < i \<and> i < nextID \<and> cp_status p = StatusOffline) \<and>
    length (filter (\<lambda>(i, p). cp_isDefault p) m) = (if ps = [] then 0 else 1)"
proof -
  note r = build_result [where w = False, OF _ assms, simplified]
  have "length (filter (\<lambda>(i, p). cp_isDefault p) l) = default_count l" for l :: "(int \<times> profile) list"
    by (induction l) auto
  with r show ?thesis
    by (auto simp: list_all_iff id_entry_def)
qed

text \<open>What the condition keeps out: behind an id that is the largest integer the next one is negative.\<close>

lemma largest_id_wraps:
  "cp_id p = max_int \<Longrightarrow> snd (buildConnectionState [p]) = - (2 ^ 63)"
  by (simp add: buildConnectionState_def go_int_def Let_def split: prod.split)

definition sample_profile :: "int \<Rightarrow> bool \<Rightarrow> profile" where
  "sample_profile i d =
     \<lparr>cp_id = i, cp_name = ''a'', cp_group = '''', cp_kind = KindKafka, cp_endpoints = ''h:9092'',
      cp_timeoutSec = 5, cp_mechanism = AuthSASLPlain, cp_status = StatusOnline,
      cp_lastCheck = ''-'', cp_isDefault = d, cp_remark = '''', cp_options = [(''tls'', ''true'')],
      cp_secrets = [(''username'', ''u''), (''password'', ''p'')]\<rparr>"

theorem loading_repairs_any_file_witness:
  "length (fst (buildConnectionState [sample_profile 3 True, sample_profile 3 True, sample_profile 0 False])) = 3 \<and>
   map fst (fst (buildConnectionState [sample_profile 3 True, sample_profile 3 True, sample_profile 0 False])) = [3, 4, 5]"
proof -
  have "ids_fit [sample_profile 3 True, sample_profile 3 True, sample_profile 0 False]"
    by (simp add: sample_profile_def ids_fit_def)
  from loading_repairs_any_file [OF this prod.collapse [symmetric]] show ?thesis
    by (simp add: buildConnectionState_def sample_profile_def load_profile_def Let_def go_int_def
        normalizeACLConfig_def ACLEnabled_def SetACL_def SetSecret_def set_secret_def)
qed

text \<open>C5. In every state the service can reach, by any sequence of operations whatever the disk
  and the brokers answer, the ids in memory are distinct and below the next one, and a service
  that holds any profile has exactly one default among them.\<close>

theorem exactly_one_default:
  assumes "conn_reachable needs st s" and "cs_connections s \<noteq> []"
  shows "distinct (map fst (cs_connections s)) \<and>
    (\<forall>(i, p) \<in> set (cs_connections s). cp_id p = i \<and> 0 < i \<and> i < cs_nextID s) \<and>
    (\<exists>!i. \<exists>p. stored_at s i = Some p \<and> cp_isDefault p)"
proof -
  have wf: "wf_store (cs_connections s) (cs_nextID s)"
    using conn_reachable_ok [OF assms(1)] by (simp add: conn_ok_def)
  with assms(2) one_default_unique [of "cs_connections s"] show ?thesis
    by (auto simp: wf_store_def list_all_iff good_entry_def)
qed

definition sample_service :: conn_service where
  "sample_service = service_new (Some [sample_profile 3 False, sample_profile 5 False])"

lemma sample_service_reachable: "conn_reachable (\<lambda>_. True) None sample_service"
  unfolding sample_service_def
  by (rule conn_reachable.start) (auto simp: sample_profile_def wf_secrets_def ids_fit_def)

lemma sample_service_value:
  "sample_service = \<lparr>cs_connections = [(3, load_profile 3 False (sample_profile 3 False)\<lparr>cp_isDefault := True\<rparr>),
      (5, load_profile 5 False (sample_profile 5 False))], cs_nextID = 6,
      cs_file = [sample_profile 3 False, sample_profile 5 False],
      cs_registry = \<lparr>rg_conns = [], rg_activeID = 0\<rparr>, cs_reconnectReload = False\<rparr>"
proof -
  have s: "sortedConnectionIDs [(3, p), (5, q)] = [3, 5]" for p q :: profile
    by (simp add: sortedConnectionIDs_def)
  have d: "cp_id (sample_profile i b) = i" "\<not> cp_isDefault (sample_profile i False)" for i b
    by (simp_all add: sample_profile_def)
  show ?thesis
    by (simp add: sample_service_def service_new_def loadConnections_def buildConnectionState_def
        Let_def s d set_default_flag_def go_int_def)
qed

theorem exactly_one_default_witness:
  "\<exists>!i. \<exists>p. stored_at sample_service i = Some p \<and> cp_isDefault p"
  using exactly_one_default [OF sample_service_reachable]
  by (simp add: sample_service_value del: map_of.simps)






text \<open>Two profiles that differ in nothing but their status and the time they were last checked.\<close>

definition unstamped :: "profile \<Rightarrow> profile" where
  "unstamped p = p\<lparr>cp_status := StatusOffline, cp_lastCheck := ''''\<rparr>"

lemma unstamped_simps [simp]:
  "unstamped (p\<lparr>cp_status := x\<rparr>) = unstamped p" "unstamped (p\<lparr>cp_lastCheck := t\<rparr>) = unstamped p"
  "unstamped (p\<lparr>cp_status := x, cp_lastCheck := t\<rparr>) = unstamped p"
  by (simp_all add: unstamped_def)

lemma unstamped_put:
  assumes "map_of m i = Some p" and "unstamped q = unstamped p"
  shows "map_option unstamped (map_of (AList.update i q m) j) = map_option unstamped (map_of m j)"
    "map unstamped (copyConnectionsSorted (AList.update i q m)) = map unstamped (copyConnectionsSorted m)"
proof -
  show "map_option unstamped (map_of (AList.update i q m) j) = map_option unstamped (map_of m j)"
    using assms by (simp add: update_conv')
  have insort: "insort_key fst (apsnd unstamped x) (map (apsnd unstamped) xs) = map (apsnd unstamped) (insort_key fst x xs)"
    for x :: "int \<times> profile" and xs by (induction xs) auto
  have "sort_key fst (map (apsnd unstamped) xs) = map (apsnd unstamped) (sort_key fst xs)" for xs :: "(int \<times> profile) list"
    by (induction xs) (simp_all add: insort)
  then have "map unstamped (copyConnectionsSorted xs) = map snd (sort_key fst (map (apsnd unstamped) xs))" for xs
    by (simp add: copyConnectionsSorted_def o_def)
  moreover have "map (apsnd unstamped) (AList.update i q m) = map (apsnd unstamped) m"
    by (rule map_update_same [OF assms(1)]) (simp add: assms(2))
  ultimately show "map unstamped (copyConnectionsSorted (AList.update i q m)) = map unstamped (copyConnectionsSorted m)"
    by simp
qed

lemma unsaved_connect:
  "cs_file (snd (connectRuntime st dial False now i s)) = cs_file s \<and>
   cs_nextID (snd (connectRuntime st dial False now i s)) = cs_nextID s \<and>
   map_option unstamped (stored_at (snd (connectRuntime st dial False now i s)) j) = map_option unstamped (stored_at s j)"
  using unstamped_put(1) [of "cs_connections s" i]
  by (auto simp: connectRuntime_def saveConnections_def Let_def split: option.split)

lemma unsaved_disconnect:
  "cs_file (snd (Disconnect False now i s)) = cs_file s \<and> cs_nextID (snd (Disconnect False now i s)) = cs_nextID s \<and>
   map_option unstamped (stored_at (snd (Disconnect False now i s)) j) = map_option unstamped (stored_at s j)"
  using unstamped_put(1) [of "cs_connections s" i]
  by (auto simp: Disconnect_def saveConnections_def Let_def split: option.split)

lemma connectRuntime_unrecorded:
  assumes "fst (connectRuntime st dial save now i s) = Inl SaveFailed"
    and "cs_file s = copyConnectionsSorted (cs_connections s)"
  shows "map unstamped (cs_file (snd (connectRuntime st dial save now i s))) =
    map unstamped (copyConnectionsSorted (cs_connections (snd (connectRuntime st dial save now i s))))"
  using assms unstamped_put(2) [of "cs_connections s" i]
  by (auto simp: connectRuntime_def saveConnections_def Let_def split: option.splits if_splits)

lemma edit_unrecorded:
  assumes "fst (store_edit st True redial save2 now i previous changed c s) = Inl SaveFailed"
  shows "map unstamped (cs_file (snd (store_edit st True redial save2 now i previous changed c s))) =
    map unstamped (copyConnectionsSorted (cs_connections (snd (store_edit st True redial save2 now i previous changed c s))))"
proof -
  let ?c = "if changed then c\<lparr>cp_status := StatusOffline\<rparr> else c"
  let ?s = "put_profile i ?c s\<lparr>cs_file := copyConnectionsSorted (AList.update i ?c (cs_connections s)),
    cs_registry := runtime_Remove i (cs_registry s)\<rparr>"
  obtain r s'' where run: "connectRuntime st redial save2 now i ?s = (r, s'')" by (metis surj_pair)
  have "changed \<and> cp_status previous = StatusOnline" using assms
    by (auto simp: store_edit_def saveConnections_def Let_def split: if_splits)
  with assms run have "r = Inl SaveFailed" "snd (store_edit st True redial save2 now i previous changed c s) = s''"
    by (auto simp: store_edit_def saveConnections_def Let_def GetConnection_def split: sum.splits option.splits)
  with connectRuntime_unrecorded [of st redial save2 now i ?s] run show ?thesis by simp
qed

text \<open>C7. Memory never runs ahead of the disk. An add, an edit, an option change, a delete or a choice
  of default whose save fails changes nothing: the profiles, the file, the next id and the open
  clients are what they were. Connecting and disconnecting open or close the client first, so a
  failed save keeps the file, and of each profile all but its status and the time of its check. And
  an edit that was saved, but whose connecting again could not be, leaves the file and the memory
  with the same profiles but for those two.\<close>

theorem failed_save_changes_nothing:
  assumes "conn_reachable needs st s"
  shows "(\<forall>s' \<in> {snd (AddConnection needs False input s),
        snd (UpdateConnection needs st False redial save2 now i input s),
        snd (SetOption st False redial save2 now i key v s),
        snd (DeleteConnection False i s), snd (SetDefaultConnection False i s)}.
      (\<forall>j. stored_at s' j = stored_at s j) \<and> cs_nextID s' = cs_nextID s \<and>
      cs_file s' = cs_file s \<and> cs_registry s' = cs_registry s) \<and>
    (\<forall>s' \<in> {snd (Connect st dial False now i s), snd (ConnectDefault st dial False now s), snd (Disconnect False now i s)}.
      cs_file s' = cs_file s \<and> cs_nextID s' = cs_nextID s \<and>
      (\<forall>j. map_option unstamped (stored_at s' j) = map_option unstamped (stored_at s j))) \<and>
    (\<forall>result \<in> {UpdateConnection needs st True redial False now i input s, SetOption st True redial False now i key v s}.
      fst result = Inl SaveFailed \<longrightarrow>
      map unstamped (cs_file (snd result)) = map unstamped (copyConnectionsSorted (cs_connections (snd result))))"
proof -
  note ok = conn_reachable_ok [OF assms]
  have edits: "\<forall>s' \<in> {snd (AddConnection needs False input s),
        snd (UpdateConnection needs st False redial save2 now i input s),
        snd (SetOption st False redial save2 now i key v s),
        snd (DeleteConnection False i s), snd (SetDefaultConnection False i s)}. same_state s s'"
    using unsaved_add [OF ok] unsaved_update [OF ok] unsaved_set_option [OF ok]
      unsaved_delete unsaved_set_default [OF ok] by simp
  have redials: "fst (UpdateConnection needs st True redial False now i input s) = Inl SaveFailed \<Longrightarrow>
      map unstamped (cs_file (snd (UpdateConnection needs st True redial False now i input s))) =
      map unstamped (copyConnectionsSorted (cs_connections (snd (UpdateConnection needs st True redial False now i input s))))"
    "fst (SetOption st True redial False now i key v s) = Inl SaveFailed \<Longrightarrow>
      map unstamped (cs_file (snd (SetOption st True redial False now i key v s))) =
      map unstamped (copyConnectionsSorted (cs_connections (snd (SetOption st True redial False now i key v s))))"
    using edit_unrecorded
    by (auto simp: UpdateConnection_def SetOption_def Let_def validateConnectionFields_def normalizeACLConfig_def
        split: sum.splits option.splits prod.splits if_splits)
  show ?thesis
    using edits redials unsaved_connect unsaved_disconnect
    by (simp add: same_state_def fun_eq_iff Connect_def ConnectDefault_def Let_def)
qed

theorem failed_save_changes_nothing_witness:
  "stored_at (snd (DeleteConnection False 5 sample_service)) 5 \<noteq> None \<and>
   stored_at (snd (SetDefaultConnection False 5 sample_service)) 3 = stored_at sample_service 3"
proof -
  have "stored_at (snd (DeleteConnection False 5 sample_service)) 5 = stored_at sample_service 5"
    "stored_at (snd (SetDefaultConnection False 5 sample_service)) 3 = stored_at sample_service 3"
    using failed_save_changes_nothing [OF sample_service_reachable, where i = 5] by simp_all
  then show ?thesis by (simp add: sample_service_value)
qed

end
