(* ===== verification/ConnEdit.thy ===== *)
theory ConnEdit
  imports DraftDispatch ConnInvariant
begin

text \<open>
  A connection form all the way to the store and back: the bridge's \<open>Add\<close>, \<open>Update\<close> and
  \<open>Probe\<close> (internal/bridge/connection.go) between the drafts of the dialog and the
  connection service. The properties here are about the composition: what an edit that was
  not touched does, what each credentials mode leaves in the store, and that a test dials
  what a save would.
\<close>

section \<open>The bridge\<close>

definition view_of :: "conn_error + profile \<Rightarrow> conn_error + connection_view" where
  "view_of r = (case r of Inl e \<Rightarrow> Inl e | Inr p \<Rightarrow> Inr (redactConnection p))"

definition bridge_List :: "conn_service \<Rightarrow> connection_view list" where
  "bridge_List s = map redactConnection (GetConnections s)"

definition bridge_Add ::
    "(mq_kind \<Rightarrow> bool) \<Rightarrow> bool \<Rightarrow> connection_input \<Rightarrow> conn_service \<Rightarrow> connection_view outcome" where
  "bridge_Add needs save input s =
     (case AddConnection needs save (input_profile input) s of (r, s') \<Rightarrow> (view_of r, s'))"

definition bridge_Update ::
    "(mq_kind \<Rightarrow> bool) \<Rightarrow> app_settings option \<Rightarrow> bool \<Rightarrow> bool \<Rightarrow> bool \<Rightarrow> string \<Rightarrow> int \<Rightarrow>
     connection_input \<Rightarrow> conn_service \<Rightarrow> connection_view outcome" where
  "bridge_Update needs st save redial save2 now i input s =
     (case applyCredentialsMode (stored_at s) i (input_profile input) (ci_credentialsMode input) of
        Inl e \<Rightarrow> (Inl e, s)
      | Inr p \<Rightarrow> (case UpdateConnection needs st save redial save2 now i p s of (r, s') \<Rightarrow> (view_of r, s')))"

text \<open>The profile a probe hands to the driver, once the checks before it pass.\<close>

definition ProbeProfile ::
    "(mq_kind \<Rightarrow> bool) \<Rightarrow> app_settings option \<Rightarrow> profile \<Rightarrow> conn_error + profile" where
  "ProbeProfile needs st p =
     (let p' = (if cp_kind p = KindZero then p\<lparr>cp_kind := KindRocketMQ\<rparr> else p) in
      if needs (cp_kind p') \<and> go_trim (cp_endpoints p') = '''' then Inl AddressEmpty
      else Inr (resolveForDial st p'))"

definition bridge_Probe ::
    "(mq_kind \<Rightarrow> bool) \<Rightarrow> app_settings option \<Rightarrow> int \<Rightarrow> connection_input \<Rightarrow> conn_service \<Rightarrow>
     conn_error + profile" where
  "bridge_Probe needs st i input s =
     (case applyCredentialsMode (stored_at s) i (input_profile input) (ci_credentialsMode input) of
        Inl e \<Rightarrow> Inl e | Inr p \<Rightarrow> ProbeProfile needs st p)"

abbreviation submit :: "submission \<Rightarrow> connection_input" where
  "submit sub \<equiv> toInput (sub_draft sub) (sub_mode sub)"

lemma view_of_Inr: "view_of r = Inr v \<longleftrightarrow> (\<exists>p. r = Inr p \<and> v = redactConnection p)"
  by (auto simp: view_of_def split: sum.splits)

section \<open>What an accepted update leaves in the store\<close>

lemma connectRuntime_stored:
  assumes "stored_at s i = Some p"
  shows "\<exists>x t. stored_at (snd (connectRuntime st dial save now i s)) i =
    Some (p\<lparr>cp_status := x, cp_lastCheck := t\<rparr>)"
proof -
  have same: "\<exists>x t. p = p\<lparr>cp_status := x, cp_lastCheck := t\<rparr>"
    by (intro exI [of _ "cp_status p"] exI [of _ "cp_lastCheck p"]) simp
  with assms show ?thesis
    by (auto simp: connectRuntime_def saveConnections_def Let_def split: option.split)
qed

lemma store_edit_stored:
  assumes "fst (store_edit st save redial save2 now i previous changed c s) = Inr q"
  shows "save \<and> (\<exists>x t. stored_at (snd (store_edit st save redial save2 now i previous changed c s)) i =
    Some (c\<lparr>cp_status := x, cp_lastCheck := t\<rparr>))"
proof (cases save)
  case False
  with assms show ?thesis by (simp add: store_edit_def saveConnections_def Let_def)
next
  case save: True
  show ?thesis
  proof (cases "changed \<and> cp_status previous = StatusOnline")
    case False
    have "\<exists>x t. c = c\<lparr>cp_status := x, cp_lastCheck := t\<rparr>"
      by (intro exI [of _ "cp_status c"] exI [of _ "cp_lastCheck c"]) simp
    moreover have "\<exists>x t. c\<lparr>cp_status := StatusOffline\<rparr> = c\<lparr>cp_status := x, cp_lastCheck := t\<rparr>"
      by (intro exI [of _ "StatusOffline"] exI [of _ "cp_lastCheck c"]) simp
    ultimately show ?thesis
      using save False by (auto simp: store_edit_def saveConnections_def Let_def)
  next
    case True
    let ?c = "c\<lparr>cp_status := StatusOffline\<rparr>"
    let ?s1 = "put_profile i ?c s"
    let ?s2 = "?s1\<lparr>cs_file := copyConnectionsSorted (cs_connections ?s1),
        cs_registry := runtime_Remove i (cs_registry s)\<rparr>"
    obtain r s'' where run: "connectRuntime st redial save2 now i ?s2 = (r, s'')"
      by (metis surj_pair)
    have "stored_at ?s2 i = Some ?c" by simp
    from connectRuntime_stored [OF this, of st redial save2 now] run
    have "\<exists>x t. stored_at s'' i = Some (c\<lparr>cp_status := x, cp_lastCheck := t\<rparr>)" by simp
    moreover have "snd (store_edit st save redial save2 now i previous changed c s) = s''"
      using save True run
      by (simp add: store_edit_def saveConnections_def Let_def split: sum.split)
    ultimately show ?thesis using save by simp
  qed
qed

lemma UpdateConnection_accepted:
  assumes "fst (UpdateConnection needs st save redial save2 now i input s) = Inr q"
  obtains previous name endpoints acl x t where
    "stored_at s i = Some previous"
    "validateConnectionFields needs (editedKind i (cp_kind input) s) (cp_name input)
       (cp_endpoints input) (cp_timeoutSec input) = Inr (name, endpoints)"
    "normalizeACLConfig (ACLEnabled input) (Secret input secretAccessKey)
       (Secret input secretSecretKey) = Inr acl"
    "stored_at (snd (UpdateConnection needs st save redial save2 now i input s)) i =
       Some ((edited_profile previous input name endpoints acl)\<lparr>cp_status := x, cp_lastCheck := t\<rparr>)"
proof -
  from assms obtain name endpoints where v: "validateConnectionFields needs
      (editedKind i (cp_kind input) s) (cp_name input) (cp_endpoints input) (cp_timeoutSec input) =
      Inr (name, endpoints)"
    by (auto simp: UpdateConnection_def split: sum.splits)
  with assms obtain previous where p: "stored_at s i = Some previous"
    by (auto simp: UpdateConnection_def split: option.splits)
  with assms v obtain acl where a: "normalizeACLConfig (ACLEnabled input)
      (Secret input secretAccessKey) (Secret input secretSecretKey) = Inr acl"
    by (auto simp: UpdateConnection_def split: sum.splits)
  have eq: "UpdateConnection needs st save redial save2 now i input s =
      store_edit st save redial save2 now i previous
        (dialParametersChanged previous (edited_profile previous input name endpoints acl))
        (edited_profile previous input name endpoints acl) s"
    using v p a by (simp add: UpdateConnection_def Let_def)
  from store_edit_stored [OF assms [unfolded eq]] that p v a show ?thesis
    unfolding eq by blast
qed

lemma normalizeACL_Inr:
  "normalizeACLConfig e a k = Inr acl \<Longrightarrow>
   acl = (e, if e then go_trim a else '''', if e then go_trim k else '''') \<and>
   (e \<longrightarrow> go_trim a \<noteq> '''' \<and> go_trim k \<noteq> '''')"
  by (auto simp: normalizeACLConfig_def Let_def split: if_splits)

lemma edited_secrets:
  assumes "wf_secrets (cp_secrets input)"
  shows "map_of (cp_secrets (edited_profile previous input name endpoints (e, a, k))) key =
     (if key = secretAccessKey then (if e \<and> a \<noteq> '''' then Some a else None)
      else if key = secretSecretKey then (if e \<and> k \<noteq> '''' then Some k else None)
      else map_of (cp_secrets input) key)"
  by (simp add: edited_profile_def applyCredentials_secrets [OF assms])

lemma edited_mechanism:
  "cp_mechanism (edited_profile previous input name endpoints (e, a, k)) =
     (if e then AuthACL else if cp_mechanism input = AuthZero then AuthNone else cp_mechanism input)"
  by (simp add: edited_profile_def applyCredentials_mechanism)

lemma submit_simps [simp]:
  "cd_secrets (submit sub) = cd_secrets (sub_draft sub)"
  "ci_credentialsMode (submit sub) = sub_mode sub"
  "input_profile (submit sub) = input_profile (sub_draft sub)"
  by (simp_all add: toInput_def input_profile_def)

lemma toInput_simps [simp]:
  "cd_secrets (toInput d m) = cd_secrets d" "ci_credentialsMode (toInput d m) = m"
  by (simp_all add: toInput_def)

lemma input_profile_wf [simp]:
  "distinct (map fst (cd_secrets input)) \<Longrightarrow> wf_secrets (cp_secrets (input_profile input))"
  by (simp add: input_profile_def)

lemma input_secret:
  assumes "distinct (map fst (cd_secrets input))"
  shows "map_of (cp_secrets (input_profile input)) key = or_undefined (lookup_str (cd_secrets input) key)"
  using assms
  by (simp add: input_profile_def map_of_fill_secrets lookup_str_def or_undefined_def split: option.split)

text \<open>The promise the modes make, secret by secret.\<close>

definition secret_policy :: "string \<Rightarrow> string \<Rightarrow> string option \<Rightarrow> string option" where
  "secret_policy mode typed stored =
     (if mode = ''clear'' then None
      else if typed \<noteq> '''' then Some typed
      else if mode = ''preserve'' \<or> mode = '''' then stored else None)"

lemma applied_mode:
  assumes mode: "applyCredentialsMode current i p mode = Inr p'" and "i \<noteq> 0"
    and stored: "current i = Some c"
    and wf: "wf_secrets (cp_secrets p)" "wf_secrets (cp_secrets c)"
  shows "wf_secrets (cp_secrets p') \<and>
    map_of (cp_secrets p') key =
      secret_policy mode (lookup_str (cp_secrets p) key) (map_of (cp_secrets c) key)"
proof -
  have blank: "lookup_str (cp_secrets p) key = '''' \<longleftrightarrow> map_of (cp_secrets p) key = None"
    by (rule lookup_str_blank [OF wf(1)])
  have typed: "map_of (cp_secrets p) key = Some w \<Longrightarrow> lookup_str (cp_secrets p) key = w" for w
    by (simp add: lookup_str_def)
  show ?thesis
    using mode \<open>i \<noteq> 0\<close> stored wf blank
    by (cases "map_of (cp_secrets p) key")
      (auto simp: applyCredentialsMode_def secret_policy_def map_of_keep_stored map_add_def typed
        split: if_splits)
qed

lemma bridge_accepted:
  assumes "fst (bridge_Update needs st save redial save2 now i input s) = Inr v"
  obtains p' where "applyCredentialsMode (stored_at s) i (input_profile input) (ci_credentialsMode input) = Inr p'"
    "snd (bridge_Update needs st save redial save2 now i input s) =
       snd (UpdateConnection needs st save redial save2 now i p' s)"
    "\<exists>q. fst (UpdateConnection needs st save redial save2 now i p' s) = Inr q"
proof -
  obtain p' where p': "applyCredentialsMode (stored_at s) i (input_profile input)
      (ci_credentialsMode input) = Inr p'"
    using assms by (auto simp: bridge_Update_def split: sum.splits)
  obtain r s' where u: "UpdateConnection needs st save redial save2 now i p' s = (r, s')"
    by (metis surj_pair)
  show ?thesis
    by (rule that [OF p']) (use assms p' u in \<open>auto simp: bridge_Update_def view_of_Inr\<close>)
qed

text \<open>What the store keeps of a secret once the mode has had its say: the access key pair belongs to one
  mechanism, so it stays only with that, and trimmed.\<close>

definition pair_policy :: "auth_mechanism \<Rightarrow> string \<Rightarrow> string option \<Rightarrow> string option" where
  "pair_policy mechanism key kept =
     (if key = secretAccessKey \<or> key = secretSecretKey
      then (if mechanism = AuthACL then map_option go_trim kept else None) else kept)"

lemma edited_policy:
  assumes "wf_secrets (cp_secrets p)"
    and acl: "normalizeACLConfig (ACLEnabled p) (Secret p secretAccessKey) (Secret p secretSecretKey) = Inr acl"
  shows "map_of (cp_secrets (edited_profile previous p name endpoints acl)) key =
    pair_policy (cp_mechanism (edited_profile previous p name endpoints acl)) key (map_of (cp_secrets p) key)"
proof -
  let ?e = "ACLEnabled p" and ?a = "Secret p secretAccessKey" and ?k = "Secret p secretSecretKey"
  have acl_eq: "acl = (?e, if ?e then go_trim ?a else '''', if ?e then go_trim ?k else '''')"
    and typed: "?e \<Longrightarrow> go_trim ?a \<noteq> '''' \<and> go_trim ?k \<noteq> ''''"
    using normalizeACL_Inr [OF acl] by auto
  have held: "map_of (cp_secrets p) x = Some (Secret p x)" if "go_trim (Secret p x) \<noteq> ''''" for x
  proof (cases "map_of (cp_secrets p) x")
    case None
    moreover have "go_trim '''' = ''''" by code_simp
    ultimately show ?thesis using that by (simp add: Secret_def lookup_str_def)
  qed (simp add: Secret_def lookup_str_def)
  show ?thesis
    using typed held edited_secrets [OF assms(1)]
    by (cases ?e) (auto simp: acl_eq pair_policy_def edited_mechanism ACLEnabled_def)
qed

lemma update_policy:
  assumes reach: "conn_reachable needs st s" and old: "stored_at s i = Some old"
    and keys: "distinct (map fst (cd_secrets input))"
    and accepted: "fst (bridge_Update needs st save redial save2 now i input s) = Inr v"
  shows "\<exists>new. stored_at (snd (bridge_Update needs st save redial save2 now i input s)) i = Some new \<and>
    map_of (cp_secrets new) key = pair_policy (cp_mechanism new) key
      (secret_policy (ci_credentialsMode input) (lookup_str (cd_secrets input) key) (map_of (cp_secrets old) key))"
proof -
  note ok = conn_reachable_ok [OF reach]
  have i: "i \<noteq> 0" "wf_secrets (cp_secrets old)"
    using ok old by (auto simp: conn_ok_def dest: wf_store_lookup)
  obtain p' where p': "applyCredentialsMode (stored_at s) i (input_profile input)
      (ci_credentialsMode input) = Inr p'"
    and s': "snd (bridge_Update needs st save redial save2 now i input s) =
      snd (UpdateConnection needs st save redial save2 now i p' s)"
    and acc: "\<exists>q. fst (UpdateConnection needs st save redial save2 now i p' s) = Inr q"
    by (rule bridge_accepted [OF accepted])
  note policy = applied_mode [OF p' i(1) old input_profile_wf [OF keys] i(2), of key]
  from acc obtain q where q: "fst (UpdateConnection needs st save redial save2 now i p' s) = Inr q"
    by blast
  obtain previous name endpoints acl x t where
    acl: "normalizeACLConfig (ACLEnabled p') (Secret p' secretAccessKey) (Secret p' secretSecretKey) = Inr acl"
    and new: "stored_at (snd (UpdateConnection needs st save redial save2 now i p' s)) i =
       Some ((edited_profile previous p' name endpoints acl)\<lparr>cp_status := x, cp_lastCheck := t\<rparr>)"
    by (rule UpdateConnection_accepted [OF q])
  have look: "lookup_str (cp_secrets (input_profile input)) key = lookup_str (cd_secrets input) key"
    by (simp add: lookup_str_def [of "cp_secrets _"] input_secret [OF keys] or_undefined_def)
  from policy edited_policy [OF conjunct1 [OF policy] acl, of previous name endpoints key] look new s'
  show ?thesis by simp
qed

text \<open>C10. An accepted update of a stored connection leaves every secret, of every name, exactly as its
  credentials mode promises: a typed value wins, a blank one keeps what is stored under preserve
  and drops it under replace, and clear drops everything. The access key pair belongs to
  RocketMQ's mechanism: the profile keeps it only with that, and trimmed.\<close>

theorem update_follows_secret_policy:
  assumes "conn_reachable needs st s" and "stored_at s i = Some old"
    and "distinct (map fst (cd_secrets input))"
    and "fst (bridge_Update needs st save redial save2 now i input s) = Inr v"
  shows "\<exists>new. stored_at (snd (bridge_Update needs st save redial save2 now i input s)) i = Some new \<and>
    map_of (cp_secrets new) key =
      (let kept = secret_policy (ci_credentialsMode input) (lookup_str (cd_secrets input) key)
             (map_of (cp_secrets old) key)
       in if key = ''accessKey'' \<or> key = ''secretKey''
          then (if cp_mechanism new = AuthACL then map_option go_trim kept else None) else kept)"
  using update_policy [OF assms, of key]
  by (simp add: pair_policy_def secretAccessKey_def secretSecretKey_def Let_def)

text \<open>After an accepted update in clear mode nothing of a credential is left: no secret of any
  name, and a mechanism that authenticates nobody. What was typed beside the clear control is
  dropped with the rest.\<close>

theorem clearing_leaves_nothing:
  assumes "fst (bridge_Update needs st save redial save2 now i input s) = Inr v"
    and "ci_credentialsMode input = ''clear''"
  shows "\<exists>p. stored_at (snd (bridge_Update needs st save redial save2 now i input s)) i = Some p \<and>
    map_of (cp_secrets p) = Map.empty \<and> cp_mechanism p = AuthNone \<and>
    (cd_kind input \<noteq> KindZero \<longrightarrow> cp_kind p = cd_kind input)"
proof -
  obtain p' where p': "applyCredentialsMode (stored_at s) i (input_profile input)
      (ci_credentialsMode input) = Inr p'"
    and s': "snd (bridge_Update needs st save redial save2 now i input s) =
      snd (UpdateConnection needs st save redial save2 now i p' s)"
    and acc: "\<exists>q. fst (UpdateConnection needs st save redial save2 now i p' s) = Inr q"
    by (rule bridge_accepted [OF assms(1)])
  have cleared: "cp_secrets p' = []" "cp_mechanism p' = AuthNone" "cp_kind p' = cd_kind input"
    using p' assms(2) by (auto simp: applyCredentialsMode_def input_profile_def)
  from acc obtain q where q: "fst (UpdateConnection needs st save redial save2 now i p' s) = Inr q"
    by blast
  obtain previous name endpoints acl x t where
    acl: "normalizeACLConfig (ACLEnabled p') (Secret p' secretAccessKey) (Secret p' secretSecretKey) = Inr acl"
    and new: "stored_at (snd (UpdateConnection needs st save redial save2 now i p' s)) i =
       Some ((edited_profile previous p' name endpoints acl)\<lparr>cp_status := x, cp_lastCheck := t\<rparr>)"
    by (rule UpdateConnection_accepted [OF q])
  have "acl = (False, '''', '''')"
    using acl cleared by (auto simp: ACLEnabled_def dest: normalizeACL_Inr)
  moreover have "cp_kind p' \<noteq> KindZero \<Longrightarrow> cp_kind (edited_profile previous p' name endpoints acl) = cp_kind p'"
    by (simp add: edited_profile_def split: prod.split)
  ultimately show ?thesis using new s' cleared edited_secrets [of p' previous name endpoints False] edited_mechanism [of previous p']
    by (auto simp: fun_eq_iff)
qed

definition sample_input :: "string \<Rightarrow> connection_input" where
  "sample_input mode =
     \<lparr>cd_name = ''a'', cd_group = '''', cd_kind = KindKafka, cd_endpoints = ''h:9092'',
      cd_timeoutSec = 5, cd_authMechanism = AuthSASLPlain, cd_options = [(''tls'', ''true'')],
      cd_secrets = [(''username'', ''''), (''password'', ''new'')], cd_remark = '''',
      ci_credentialsMode = mode\<rparr>"

abbreviation sample_update :: "string \<Rightarrow> connection_view outcome" where
  "sample_update mode \<equiv>
     bridge_Update (\<lambda>_. True) None True True True ''t'' 3 (sample_input mode) sample_service"

lemma sample_accepted: "\<not> isl (fst (sample_update ''preserve''))" "\<not> isl (fst (sample_update ''clear''))"
  by code_simp+

lemma sample_stored: "stored_at sample_service 3 \<noteq> None"
  "map_of (cp_secrets (the (stored_at sample_service 3))) ''username'' = Some ''u''"
  "map_of (cp_secrets (the (stored_at sample_service 3))) ''password'' = Some ''p''"
  by code_simp+

theorem update_follows_secret_policy_witness:
  "\<exists>new. stored_at (snd (sample_update ''preserve'')) 3 = Some new \<and>
     map_of (cp_secrets new) ''password'' = Some ''new''"
proof -
  obtain v where v: "fst (sample_update ''preserve'') = Inr v"
    using sample_accepted(1) by (auto simp: isl_def split: sum.splits) (metis sum.exhaust)
  obtain old where old: "stored_at sample_service 3 = Some old" using sample_stored(1) by auto
  have keys: "distinct (map fst (cd_secrets (sample_input ''preserve'')))"
    by (simp add: sample_input_def)
  show ?thesis
    using update_follows_secret_policy [OF sample_service_reachable old keys v, of "''password''"]
    by (simp add: sample_input_def secret_policy_def lookup_str_def)
qed

theorem clearing_leaves_nothing_witness:
  "\<exists>p. stored_at (snd (sample_update ''clear'')) 3 = Some p \<and> map_of (cp_secrets p) = Map.empty"
proof -
  obtain v where v: "fst (sample_update ''clear'') = Inr v"
    using sample_accepted(2) by (auto simp: isl_def split: sum.splits) (metis sum.exhaust)
  have "ci_credentialsMode (sample_input ''clear'') = ''clear''" by (simp add: sample_input_def)
  from clearing_leaves_nothing [OF v this] show ?thesis by auto
qed

section \<open>An edit that was not touched\<close>

text \<open>A profile as the service stores one: what its own checks and normalisations leave alone.\<close>

definition stored_normal :: "(mq_kind \<Rightarrow> bool) \<Rightarrow> profile \<Rightarrow> bool" where
  "stored_normal needs p \<longleftrightarrow>
     validateConnectionFields needs (cp_kind p) (cp_name p) (cp_endpoints p) (cp_timeoutSec p) =
       Inr (cp_name p, cp_endpoints p) \<and>
     js_trim (cp_name p) = cp_name p \<and> normalizeConnectionGroup (cp_group p) = cp_group p \<and>
     cp_kind p \<noteq> KindZero \<and> cp_mechanism p \<noteq> AuthZero \<and>
     (if ACLEnabled p
      then normalizeACLConfig True (Secret p secretAccessKey) (Secret p secretSecretKey) =
        Inr (True, Secret p secretAccessKey, Secret p secretSecretKey)
      else Secret p secretAccessKey = '''' \<and> Secret p secretSecretKey = '''')"

lemma fill_blank:
  assumes "list_all (\<lambda>(k, v). v = '''') xs"
  shows "fill_secrets xs = []"
proof -
  have "foldl (\<lambda>m (k, v). set_secret k v m) [] xs = []"
    using assms by (induction xs) (auto simp: set_secret_def)
  then show ?thesis by (simp add: fill_secrets_def)
qed

lemma untyped_blank: "\<not> typed_any sub \<Longrightarrow> list_all (\<lambda>(k, v). v = '''') (cd_secrets (sub_draft sub))"
  by (auto simp: typed_any_def list_ex_iff list_all_iff)

lemma labels_as_they_were:
  "cd_name (sub_draft (toSubmission (toDraft v))) = js_trim (cv_name v) \<and>
   cd_group (sub_draft (toSubmission (toDraft v))) = cv_group v \<and>
   cd_remark (sub_draft (toSubmission (toDraft v))) = cv_remark v"
  by (cases "cv_kind v")
    (simp_all add: toDraft_def rocketmq.labels_resubmitted rabbitmq.labels_resubmitted
      kafka.labels_resubmitted pulsar.labels_resubmitted redis.labels_resubmitted
      mqtt.labels_resubmitted nats.labels_resubmitted activemq.labels_resubmitted
      nsq.labels_resubmitted sqs.labels_resubmitted googlepubsub.labels_resubmitted
      azureservicebus.labels_resubmitted kinesis.labels_resubmitted ibmmq.labels_resubmitted
      solace.labels_resubmitted)

lemma redact_simps [simp]:
  "cv_id (redactConnection p) = cp_id p" "cv_name (redactConnection p) = cp_name p"
  "cv_group (redactConnection p) = cp_group p" "cv_kind (redactConnection p) = cp_kind p"
  "cv_endpoints (redactConnection p) = cp_endpoints p"
  "cv_timeoutSec (redactConnection p) = cp_timeoutSec p"
  "cv_authMechanism (redactConnection p) = cp_mechanism p"
  "cv_options (redactConnection p) = cp_options p"
  "cv_secretsConfigured (redactConnection p) = configured_secrets (cp_secrets p)"
  "cv_remark (redactConnection p) = cp_remark p"
  by (simp_all add: redactConnection_def ConfiguredSecrets_def)

text \<open>What the bridge makes of a submission that asks for what is stored: the same profile.\<close>

lemma untouched_profile:
  assumes "i \<noteq> 0" and p: "current i = Some p" and wf: "wf_secrets (cp_secrets p)"
    and sub: "changes_nothing (redactConnection p) sub"
    and labels: "cd_name (sub_draft sub) = cp_name p" "cd_group (sub_draft sub) = cp_group p"
      "cd_remark (sub_draft sub) = cp_remark p"
  shows "\<exists>q. applyCredentialsMode current i (input_profile (sub_draft sub)) (sub_mode sub) = Inr q \<and>
    wf_secrets (cp_secrets q) \<and> map_of (cp_secrets q) = map_of (cp_secrets p) \<and>
    cp_mechanism q = cp_mechanism p \<and> cp_kind q = cp_kind p \<and> cp_endpoints q = cp_endpoints p \<and>
    cp_timeoutSec q = cp_timeoutSec p \<and> cp_options q = cp_options p \<and> cp_name q = cp_name p \<and>
    cp_group q = cp_group p \<and> cp_remark q = cp_remark p"
proof -
  have match: "view_matches (redactConnection p) sub" and untyped: "\<not> typed_any sub"
    and mode: "if configured_secrets (cp_secrets p) \<noteq> [] then sub_mode sub = ''preserve''
      else sub_mode sub = ''replace'' \<or> sub_mode sub = ''clear'' \<and> cp_mechanism p = AuthNone"
    using sub by (auto simp: changes_nothing_def split: if_splits)
  have blank: "fill_secrets (cd_secrets (sub_draft sub)) = []"
    by (rule fill_blank [OF untyped_blank [OF untyped]])
  show ?thesis
  proof (cases "configured_secrets (cp_secrets p) = []")
    case True
    then have "cp_secrets p = []" using configured_wf [OF wf] by simp
    with True mode match labels blank show ?thesis
      by (auto simp: applyCredentialsMode_def input_profile_def view_matches_def)
  next
    case False
    with mode match labels blank assms(1) p wf show ?thesis
      by (auto simp: applyCredentialsMode_def input_profile_def view_matches_def
          keep_stored_none_typed)
  qed
qed

lemma edited_same:
  assumes normal: "stored_normal needs p" and wf: "wf_secrets (cp_secrets p)" "wf_secrets (cp_secrets q)"
    and q: "map_of (cp_secrets q) = map_of (cp_secrets p)" "cp_mechanism q = cp_mechanism p"
      "cp_kind q = cp_kind p" "cp_endpoints q = cp_endpoints p" "cp_timeoutSec q = cp_timeoutSec p"
      "cp_options q = cp_options p"
    and acl: "normalizeACLConfig (ACLEnabled q) (Secret q secretAccessKey) (Secret q secretSecretKey) = Inr acl"
  shows "same_dial p (edited_profile p q n (cp_endpoints p) acl)"
proof -
  obtain e a k where eak: "acl = (e, a, k)" by (metis prod_cases3)
  have sec: "Secret q x = Secret p x" for x by (simp add: Secret_def lookup_str_def q(1))
  have en: "ACLEnabled q = ACLEnabled p" by (simp add: ACLEnabled_def q(2))
  have e: "e = ACLEnabled p" using normalizeACL_Inr [OF acl] eak en by simp
  have keys: "map_of (cp_secrets p) secretAccessKey = (if e \<and> a \<noteq> '''' then Some a else None)"
    "map_of (cp_secrets p) secretSecretKey = (if e \<and> k \<noteq> '''' then Some k else None)"
  proof -
    have "if ACLEnabled p then a = Secret p secretAccessKey \<and> k = Secret p secretSecretKey
      else Secret p secretAccessKey = '''' \<and> Secret p secretSecretKey = ''''"
      using normal acl eak by (auto simp: stored_normal_def en sec split: if_splits)
    then show "map_of (cp_secrets p) secretAccessKey = (if e \<and> a \<noteq> '''' then Some a else None)"
      "map_of (cp_secrets p) secretSecretKey = (if e \<and> k \<noteq> '''' then Some k else None)"
      using e lookup_str_blank [OF wf(1)] lookup_str_map_of [OF wf(1)]
      by (auto simp: Secret_def split: if_splits)
  qed
  have mech: "e \<Longrightarrow> cp_mechanism p = AuthACL" using e by (simp add: ACLEnabled_def)
  have "map_of (cp_secrets (edited_profile p q n (cp_endpoints p) acl)) = map_of (cp_secrets p)"
    using keys by (auto simp: fun_eq_iff eak edited_secrets [OF wf(2)] q(1))
  moreover have "cp_mechanism (edited_profile p q n (cp_endpoints p) acl) = cp_mechanism p"
    using mech normal by (cases e) (simp_all add: eak edited_mechanism q(2) stored_normal_def)
  ultimately show ?thesis
    using q normal by (simp add: same_dial_iff edited_profile_def stored_normal_def eak)
qed

text \<open>C11. Opening the form of a saved connection and saving it untouched is a no-op, for every one
  of the fifteen families: the answer shows the profile as it was, every stored secret is still
  there although none ever came back to the form, and the open client is not dropped. The
  connection is what some form of its family submitted, with the clear control off, a Redis
  database that is not negative, a Service Bus key that is named and, over WebSocket, an MQTT path
  that is typed (for what a cleared form leaves, see ConnSubmit); and the stored profile is in the
  service's own normal form (\<open>stored_normal\<close>): names and addresses trimmed and valid, a mechanism
  recorded, and a key pair only with its mechanism.\<close>

theorem untouched_edit_is_noop:
  assumes reach: "conn_reachable needs st s" and p: "stored_at s i = Some p"
    and normal: "stored_normal needs p"
    and saved: "settled_draft d" "view_matches (redactConnection p) (toSubmission d)"
      "secrets_match (redactConnection p) (toSubmission d)"
  defines "again \<equiv> submit (toSubmission (toDraft (redactConnection p)))"
  shows "fst (bridge_Update needs st True redial save2 now i again s) = Inr (redactConnection p) \<and>
    cs_registry (snd (bridge_Update needs st True redial save2 now i again s)) = cs_registry s \<and>
    (\<exists>q. stored_at (snd (bridge_Update needs st True redial save2 now i again s)) i = Some q \<and>
      map_of (cp_secrets q) = map_of (cp_secrets p) \<and> \<not> dialParametersChanged p q)"
proof -
  let ?sub = "toSubmission (toDraft (redactConnection p))"
  note ok = conn_reachable_ok [OF reach]
  have id: "i \<noteq> 0" "cp_id p = i" and wf: "wf_secrets (cp_secrets p)"
    using ok p by (auto simp: conn_ok_def dest: wf_store_lookup)
  have labels: "cd_name (sub_draft ?sub) = cp_name p" "cd_group (sub_draft ?sub) = cp_group p"
    "cd_remark (sub_draft ?sub) = cp_remark p"
    using labels_as_they_were [of "redactConnection p"] normal by (simp_all add: stored_normal_def)
  obtain q where q: "applyCredentialsMode (stored_at s) i (input_profile (sub_draft ?sub)) (sub_mode ?sub) = Inr q"
    and qwf: "wf_secrets (cp_secrets q)" and sec: "map_of (cp_secrets q) = map_of (cp_secrets p)"
    and dial: "cp_mechanism q = cp_mechanism p" "cp_kind q = cp_kind p"
      "cp_endpoints q = cp_endpoints p" "cp_timeoutSec q = cp_timeoutSec p" "cp_options q = cp_options p"
    and lab: "cp_name q = cp_name p" "cp_group q = cp_group p" "cp_remark q = cp_remark p"
    using untouched_profile [where current = "stored_at s", OF id(1) p wf
        resubmission_changes_nothing [OF saved] labels]
    by blast
  have valid: "validateConnectionFields needs (editedKind i (cp_kind q) s) (cp_name q) (cp_endpoints q)
      (cp_timeoutSec q) = Inr (cp_name p, cp_endpoints p)"
    using normal by (simp add: stored_normal_def editedKind_def dial lab)
  have secret: "Secret q x = Secret p x" for x by (simp add: Secret_def lookup_str_def sec)
  obtain acl where acl: "normalizeACLConfig (ACLEnabled q) (Secret q secretAccessKey)
      (Secret q secretSecretKey) = Inr acl"
    using normal
    by (cases "ACLEnabled p")
      (simp_all add: stored_normal_def ACLEnabled_def dial(1) secret normalizeACLConfig_def)
  let ?e = "edited_profile p q (cp_name p) (cp_endpoints p) acl"
  have same: "same_dial p ?e"
    by (rule edited_same [OF normal wf qwf sec dial acl])
  have eq: "bridge_Update needs st True redial save2 now i again s =
      (Inr (redactConnection ?e), put_profile i ?e s\<lparr>cs_file := copyConnectionsSorted (AList.update i ?e (cs_connections s))\<rparr>)"
    using q valid p acl same
    by (simp add: again_def bridge_Update_def UpdateConnection_def Let_def store_edit_def
        saveConnections_def view_of_def)
  have secrets: "map_of (cp_secrets ?e) = map_of (cp_secrets p)" using same by (simp add: same_dial_iff)
  have "configured_secrets (cp_secrets ?e) = configured_secrets (cp_secrets p)"
    by (rule configured_blind [OF secrets _ wf]) (simp add: edited_profile_frame qwf)
  moreover have "cp_group ?e = cp_group p" "cp_name ?e = cp_name p" "cp_remark ?e = cp_remark p"
    "cp_options ?e = cp_options p"
    using normal by (simp_all add: edited_profile_def lab dial(5) stored_normal_def split: prod.split)
  ultimately have "redactConnection ?e = redactConnection p"
    using same by (simp add: redactConnection_def same_dial_iff edited_profile_frame ConfiguredSecrets_def)
  with eq same secrets show ?thesis by simp
qed

section \<open>A connection added from a form\<close>

definition sample_form :: protocol_draft where
  "sample_form = D_Kafka (emptyKafkaDraft\<lparr>df_name := '' b '', kf_endpoints := ''h:9092'',
     kf_mechanism := KafkaSaslPlain, kf_username := ''u'', kf_password := ''p'', kf_tls := True\<rparr>)"

definition added_service :: conn_service where
  "added_service =
     snd (bridge_Add (\<lambda>_. True) True (submit (toSubmission sample_form)) (service_new None))"

definition added_profile :: profile where
  "added_profile = the (stored_at added_service 1)"

lemma added_stored: "stored_at added_service 1 = Some added_profile"
proof -
  have "stored_at added_service 1 \<noteq> None" by code_simp
  then show ?thesis by (auto simp: added_profile_def)
qed


lemma bridge_Add_reachable:
  assumes "conn_reachable needs st s" and keys: "distinct (map fst (cd_secrets input))"
    and room: "cs_nextID s < max_int"
  shows "conn_reachable needs st (snd (bridge_Add needs save input s))"
proof -
  have "snd (bridge_Add needs save input s) = snd (AddConnection needs save (input_profile input) s)"
    by (simp add: bridge_Add_def split: prod.split)
  moreover have "wf_secrets (cp_secrets (input_profile input))"
    using keys by (simp add: input_profile_def)
  ultimately show ?thesis
    using conn_reachable.step [OF assms(1) conn_step.add [OF _ room]] by simp
qed

lemma added_service_reachable: "conn_reachable (\<lambda>_. True) None added_service"
  unfolding added_service_def
  by (rule bridge_Add_reachable, rule conn_reachable.start) (simp, code_simp, code_simp)

lemma added_facts:
  "settled_draft sample_form"
  "view_matches (redactConnection added_profile) (toSubmission sample_form)"
  "secrets_match (redactConnection added_profile) (toSubmission sample_form)"
  "stored_normal (\<lambda>_. True) added_profile"
  by code_simp+

theorem untouched_edit_is_noop_witness:
  "fst (bridge_Update (\<lambda>_. True) None True True True ''t'' 1
     (submit (toSubmission (toDraft (redactConnection added_profile)))) added_service) =
   Inr (redactConnection added_profile)"
  using untouched_edit_is_noop [OF added_service_reachable added_stored added_facts(4,1,2,3)] by blast

section \<open>A test dials what a save would\<close>

lemma normalizeACL_cases:
  assumes "normalizeACLConfig (ACLEnabled p) (Secret p secretAccessKey) (Secret p secretSecretKey) = Inr acl"
    and "ACLEnabled p \<Longrightarrow> go_trim (Secret p secretAccessKey) = Secret p secretAccessKey \<and>
      go_trim (Secret p secretSecretKey) = Secret p secretSecretKey"
  shows "acl = (if ACLEnabled p then (True, Secret p secretAccessKey, Secret p secretSecretKey)
    else (False, '''', ''''))"
  using assms by (auto simp: normalizeACLConfig_def Let_def split: if_splits)

lemma resolve_edited:
  assumes wf: "wf_secrets (cp_secrets p)" and kind: "cp_kind p \<noteq> KindZero"
    and acl: "acl = (if ACLEnabled p then (True, Secret p secretAccessKey, Secret p secretSecretKey)
      else (False, '''', ''''))"
  shows "same_dial (resolveForDial st (edited_profile previous p n (cp_endpoints p) acl)) (resolveForDial st p)"
    (is "same_dial (resolveForDial st ?e) _")
proof (cases "ACLEnabled p")
  case True
  have "map_of (cp_secrets ?e) = map_of (cp_secrets p)"
    using True lookup_str_blank [OF wf] lookup_str_map_of [OF wf]
    by (auto simp: fun_eq_iff acl edited_secrets [OF wf] Secret_def)
  moreover have "cp_mechanism ?e = cp_mechanism p"
    using True by (simp add: acl edited_mechanism) (simp add: ACLEnabled_def)
  ultimately have "same_dial ?e p"
    using kind by (simp add: same_dial_iff edited_profile_def split: prod.split)
  then show ?thesis by (rule resolve_same_dial)
next
  case False
  have mech: "cp_mechanism ?e = (if cp_mechanism p = AuthZero then AuthNone else cp_mechanism p)"
    using False by (simp add: acl edited_mechanism)
  have same: "cp_timeoutSec ?e = cp_timeoutSec p" "cp_kind ?e = cp_kind p"
    "cp_endpoints ?e = cp_endpoints p" "cp_options ?e = cp_options p"
    using kind by (simp_all add: edited_profile_def split: prod.split)
  have time: "getConnectTimeout st ?e = getConnectTimeout st p"
    by (simp add: getConnectTimeout_def same)
  have sec: "map_of (cp_secrets ?e) key =
      (if key = secretAccessKey \<or> key = secretSecretKey then None else map_of (cp_secrets p) key)" for key
    using False by (simp add: acl edited_secrets [OF wf])
  have res: "resolveACLCredentials st ?e = resolveACLCredentials st p"
    using False mech by (auto simp: resolveACLCredentials_def ACLEnabled_def split: if_splits)
  obtain e a k where r: "resolveACLCredentials st p = (e, a, k)" by (metis prod_cases3)
  have "e \<Longrightarrow> cp_mechanism p = AuthZero \<or> cp_mechanism p = AuthNone"
    using r False by (auto simp: resolveACLCredentials_def split: if_splits)
  then show ?thesis
    using sec
    by (cases e) (auto simp: same_dial_iff resolveForDial_def res r Let_def SetACL_def SetSecret_def
        same time mech fun_eq_iff)
qed

text \<open>C12. What a connection test dials is what the client opened after saving the same form dials:
  the address, the timeout, the mechanism, the options and every credential, those filled in
  from the store and from the application settings included. The form must name its family, and
  its address and access keys must carry no blanks at their ends, which only a save trims.\<close>

theorem probe_is_what_a_save_dials:
  assumes reach: "conn_reachable needs st s" and keys: "distinct (map fst (cd_secrets input))"
    and accepted: "fst (bridge_Update needs st save redial save2 now i input s) = Inr v"
    and probed: "bridge_Probe needs st i input s = Inr q"
    and kind: "cd_kind input \<noteq> KindZero"
    and trimmed: "go_trim (cd_endpoints input) = cd_endpoints input"
      "cp_mechanism q = AuthACL \<Longrightarrow> go_trim (Secret q ''accessKey'') = Secret q ''accessKey'' \<and>
        go_trim (Secret q ''secretKey'') = Secret q ''secretKey''"
  shows "\<exists>p. stored_at (snd (bridge_Update needs st save redial save2 now i input s)) i = Some p \<and>
    \<not> dialParametersChanged (resolveForDial st p) q"
proof -
  obtain p' where p': "applyCredentialsMode (stored_at s) i (input_profile input)
      (ci_credentialsMode input) = Inr p'"
    and s': "snd (bridge_Update needs st save redial save2 now i input s) =
      snd (UpdateConnection needs st save redial save2 now i p' s)"
    and acc: "\<exists>q. fst (UpdateConnection needs st save redial save2 now i p' s) = Inr q"
    by (rule bridge_accepted [OF accepted])
  from acc obtain r where r: "fst (UpdateConnection needs st save redial save2 now i p' s) = Inr r"
    by blast
  obtain previous name endpoints acl x t where prev: "stored_at s i = Some previous"
    and valid: "validateConnectionFields needs (editedKind i (cp_kind p') s) (cp_name p')
       (cp_endpoints p') (cp_timeoutSec p') = Inr (name, endpoints)"
    and acl: "normalizeACLConfig (ACLEnabled p') (Secret p' secretAccessKey) (Secret p' secretSecretKey) = Inr acl"
    and new: "stored_at (snd (UpdateConnection needs st save redial save2 now i p' s)) i =
       Some ((edited_profile previous p' name endpoints acl)\<lparr>cp_status := x, cp_lastCheck := t\<rparr>)"
    by (rule UpdateConnection_accepted [OF r])
  have i: "i \<noteq> 0" "wf_secrets (cp_secrets previous)"
    using conn_reachable_ok [OF reach] prev by (auto simp: conn_ok_def dest: wf_store_lookup)
  have wf: "wf_secrets (cp_secrets p')"
    using applied_mode [OF p' i(1) prev input_profile_wf [OF keys] i(2)] by blast
  have frame: "cp_kind p' = cd_kind input" "cp_endpoints p' = cd_endpoints input"
    using p' by (auto simp: applyCredentialsMode_def input_profile_def split: if_splits option.splits)
  have q: "q = resolveForDial st p'"
    using probed p' kind frame by (simp add: bridge_Probe_def ProbeProfile_def Let_def split: if_splits)
  have "ACLEnabled p' \<Longrightarrow> cp_mechanism q = AuthACL \<and> Secret q ''accessKey'' = Secret p' secretAccessKey \<and>
      Secret q ''secretKey'' = Secret p' secretSecretKey"
    by (simp add: q resolveForDial_def resolveACLCredentials_def SetACL_def SetSecret_def Secret_def
        lookup_str_def secretAccessKey_def secretSecretKey_def split: option.split)
  with trimmed(2) have eq: "acl = (if ACLEnabled p' then (True, Secret p' secretAccessKey, Secret p' secretSecretKey)
      else (False, '''', ''''))"
    using normalizeACL_cases [OF acl] by auto
  have "endpoints = cp_endpoints p'"
    using valid trimmed(1) frame by (auto simp: validateConnectionFields_def Let_def split: if_splits)
  with resolve_edited [OF wf _ eq, of st previous name] kind frame
  have same: "same_dial (resolveForDial st (edited_profile previous p' name endpoints acl)) q"
    by (simp add: q)
  have "same_dial ((edited_profile previous p' name endpoints acl)\<lparr>cp_status := x, cp_lastCheck := t\<rparr>)
      (edited_profile previous p' name endpoints acl)"
    by (simp add: same_dial_iff)
  from same_dial_trans [OF resolve_same_dial [OF this] same] new s' show ?thesis by auto
qed

definition sample_probe :: "conn_error + profile" where
  "sample_probe = bridge_Probe (\<lambda>_. True) None 3 (sample_input ''preserve'') sample_service"

lemma sample_probed: "\<exists>q. sample_probe = Inr q \<and> cp_mechanism q \<noteq> AuthACL"
proof -
  have "case sample_probe of Inl _ \<Rightarrow> False | Inr q \<Rightarrow> cp_mechanism q \<noteq> AuthACL" by code_simp
  then show ?thesis by (auto split: sum.splits)
qed

theorem probe_is_what_a_save_dials_witness:
  "\<exists>q p. sample_probe = Inr q \<and> stored_at (snd (sample_update ''preserve'')) 3 = Some p \<and>
     \<not> dialParametersChanged (resolveForDial None p) q"
proof -
  obtain q where q: "sample_probe = Inr q" "cp_mechanism q \<noteq> AuthACL" using sample_probed by blast
  obtain v where v: "fst (sample_update ''preserve'') = Inr v"
    using sample_accepted(1) by (auto simp: isl_def split: sum.splits) (metis sum.exhaust)
  have input: "distinct (map fst (cd_secrets (sample_input ''preserve'')))"
    "cd_kind (sample_input ''preserve'') \<noteq> KindZero"
    "go_trim (cd_endpoints (sample_input ''preserve'')) = cd_endpoints (sample_input ''preserve'')"
    by code_simp+
  show ?thesis
    using probe_is_what_a_save_dials [OF sample_service_reachable input(1) v
        q(1) [unfolded sample_probe_def] input(2,3)] q by blast
qed

section \<open>Switching the mechanism of a NATS connection\<close>

text \<open>The submission of a NATS form blanks the credentials of the mechanisms that are not picked,
  but it asks the store to keep what is blank: a token that was stored is still stored after an
  accepted edit that switched the connection to any other mechanism.\<close>

theorem nats_switch_keeps_token:
  assumes reach: "conn_reachable needs st s" and old: "stored_at s i = Some old"
    and kept: "df_credentialsStored d" "\<not> df_clearCredentials d" and switched: "nt_mechanism d \<noteq> NatsToken"
    and accepted: "fst (bridge_Update needs st save redial save2 now i (submit (natsSubmission d)) s) = Inr v"
  shows "\<exists>new. stored_at (snd (bridge_Update needs st save redial save2 now i (submit (natsSubmission d)) s)) i = Some new \<and>
    map_of (cp_secrets new) ''token'' = map_of (cp_secrets old) ''token''"
proof -
  have keys: "distinct (map fst (cd_secrets (submit (natsSubmission d))))"
    by (simp add: nats.secret_keys)
  have "sub_mode (natsSubmission d) = ''preserve''"
    using kept by (simp add: natsSubmission_def Let_def mode_preserving_def keepStored_def)
  moreover have "lookup_str (cd_secrets (sub_draft (natsSubmission d))) ''token'' = ''''"
    using switched by (simp add: natsSubmission_def Let_def lookup_str_def)
  ultimately show ?thesis
    using update_policy [OF reach old keys accepted, of "''token''"]
    by (simp add: secret_policy_def pair_policy_def secretAccessKey_def secretSecretKey_def)
qed

definition nats_form :: nats_draft where
  "nats_form = emptyNatsDraft\<lparr>df_name := ''n'', nt_endpoints := ''h:4222'',
     nt_mechanism := NatsToken, nt_token := ''tok''\<rparr>"

definition nats_service :: conn_service where
  "nats_service = snd (bridge_Add (\<lambda>_. True) True (submit (natsSubmission nats_form)) (service_new None))"

definition nats_switched :: nats_draft where
  "nats_switched = (toNatsDraft (redactConnection (the (stored_at nats_service 1))))\<lparr>nt_mechanism := NatsNone\<rparr>"

abbreviation nats_saved :: "connection_view outcome" where
  "nats_saved \<equiv> bridge_Update (\<lambda>_. True) None True True True ''t'' 1 (submit (natsSubmission nats_switched)) nats_service"

lemma nats_service_reachable: "conn_reachable (\<lambda>_. True) None nats_service"
  unfolding nats_service_def
  by (rule bridge_Add_reachable, rule conn_reachable.start) (simp, simp add: nats.secret_keys, code_simp)

lemma nats_sample_facts:
  "stored_at nats_service 1 \<noteq> None"
  "map_of (cp_secrets (the (stored_at nats_service 1))) ''token'' = Some ''tok''"
  "df_credentialsStored nats_switched" "\<not> df_clearCredentials nats_switched"
  "nt_mechanism nats_switched = NatsNone" "\<not> isl (fst nats_saved)"
  by code_simp+

theorem nats_switch_keeps_token_witness:
  "\<exists>new. stored_at (snd nats_saved) 1 = Some new \<and> map_of (cp_secrets new) ''token'' = Some ''tok''"
proof -
  obtain old where old: "stored_at nats_service 1 = Some old" using nats_sample_facts(1) by auto
  obtain v where v: "fst nats_saved = Inr v"
    using nats_sample_facts(6) by (auto simp: isl_def split: sum.splits) (metis sum.exhaust)
  have "nt_mechanism nats_switched \<noteq> NatsToken" using nats_sample_facts(5) by simp
  from nats_switch_keeps_token [OF nats_service_reachable old nats_sample_facts(3,4) this v] old
  show ?thesis using nats_sample_facts(2) by simp
qed

end
