(* ===== verification/ConnSubmit.thy ===== *)
theory ConnSubmit
  imports ConnValidation ConnEdit
begin

text \<open>
  The two ends of the connection dialog together: what the form's rules accept
  (connectionValidation.ts) the service behind the bridge stores
  (internal/service/connection).
\<close>

section \<open>What the form accepts, the service stores\<close>

text \<open>RocketMQ's access key, the one credential the service itself insists on having whole: both
  halves typed, or neither and none kept.\<close>

fun key_pair_whole :: "protocol_draft \<Rightarrow> bool" where
  "key_pair_whole (D_RocketMQ d) \<longleftrightarrow>
     (if js_trim (rk_accessKey d) = '''' \<and> js_trim (rk_secretKey d) = '''' then \<not> keepStored d
      else js_trim (rk_accessKey d) \<noteq> '''' \<and> js_trim (rk_secretKey d) \<noteq> '''')"
| "key_pair_whole _ \<longleftrightarrow> True"

fun ascii_keys :: "protocol_draft \<Rightarrow> bool" where
  "ascii_keys (D_RocketMQ d) \<longleftrightarrow> ascii (rk_accessKey d) \<and> ascii (rk_secretKey d)"
| "ascii_keys _ \<longleftrightarrow> True"

lemma submitted_kind: "cd_kind (sub_draft (toSubmission d)) \<noteq> KindZero"
  using submission_protocol [of d] by auto

lemma submitted_keys: "distinct (map fst (cd_secrets (sub_draft (toSubmission d))))"
  by (cases d)
    (simp_all add: rocketmq.secret_keys rabbitmq.secret_keys kafka.secret_keys pulsar.secret_keys
      redis.secret_keys mqtt.secret_keys nats.secret_keys activemq.secret_keys nsq.secret_keys
      sqs.secret_keys googlepubsub.secret_keys azureservicebus.secret_keys kinesis.secret_keys
      ibmmq.secret_keys solace.secret_keys)

lemma only_rocketmq_acl:
  assumes "cd_authMechanism (sub_draft (toSubmission d)) = AuthACL"
  obtains r where "d = D_RocketMQ r"
    "js_trim (rk_accessKey r) \<noteq> '''' \<or> js_trim (rk_secretKey r) \<noteq> '''' \<or> keepStored r"
proof -
  have nats: "NATS_MECHANISMS m \<noteq> AuthACL" for m by (cases m) simp_all
  have active: "ACTIVEMQ_MECHANISMS m \<noteq> AuthACL" for m by (cases m) simp_all
  have ibm: "IBMMQ_MECHANISMS m \<noteq> AuthACL" for m by (cases m) simp_all
  have sol: "SOLACE_MECHANISMS m \<noteq> AuthACL" for m by (cases m) simp_all
  have kafka: "MECHANISM m \<noteq> AuthACL" for m by (cases m) simp_all
  note submissions = rocketMQSubmission_def rabbitMQSubmission_def kafkaSubmission_def
    pulsarSubmission_def redisSubmission_def mqttSubmission_def natsSubmission_def
    activeMQSubmission_def nsqSubmission_def sqsSubmission_def googlePubSubSubmission_def
    azureServiceBusSubmission_def kinesisSubmission_def ibmMqSubmission_def solaceSubmission_def
  show ?thesis
    using assms that
    by (cases d)
      (simp_all add: submissions Let_def nats active ibm sol kafka split: if_splits)
qed

lemma submitted_acl:
  assumes "ascii_keys d"
  shows "isl (normalizeACLConfig (ACLEnabled (input_profile (sub_draft (toSubmission d))))
    (Secret (input_profile (sub_draft (toSubmission d))) secretAccessKey)
    (Secret (input_profile (sub_draft (toSubmission d))) secretSecretKey)) = (\<not> key_pair_whole d)"
proof -
  have enabled: "ACLEnabled (input_profile (sub_draft (toSubmission d))) =
      (cd_authMechanism (sub_draft (toSubmission d)) = AuthACL)"
    by (simp add: ACLEnabled_def input_profile_def)
  show ?thesis
  proof (cases "cd_authMechanism (sub_draft (toSubmission d)) = AuthACL")
    case True
    then obtain r where r: "d = D_RocketMQ r" by (rule only_rocketmq_acl)
    have secret: "Secret (input_profile (sub_draft (toSubmission d))) key =
        lookup_str (cd_secrets (sub_draft (toSubmission d))) key" for key
      using input_secret [OF submitted_keys, of d key]
      by (simp add: Secret_def lookup_str_def or_undefined_def split: option.split if_splits)
    have keys: "Secret (input_profile (sub_draft (toSubmission d))) secretAccessKey = js_trim (rk_accessKey r)"
      "Secret (input_profile (sub_draft (toSubmission d))) secretSecretKey = js_trim (rk_secretKey r)"
      unfolding secret
      by (simp_all add: r rocketMQSubmission_def Let_def lookup_str_def secretAccessKey_def secretSecretKey_def)
    have "go_trim (js_trim (rk_accessKey r)) = js_trim (rk_accessKey r)"
      "go_trim (js_trim (rk_secretKey r)) = js_trim (rk_secretKey r)"
      using assms by (simp_all add: r go_trim_of_ascii)
    moreover have "js_trim (rk_accessKey r) \<noteq> '''' \<or> js_trim (rk_secretKey r) \<noteq> '''' \<or> keepStored r"
      using True by (auto simp: r rocketMQSubmission_def Let_def split: if_splits)
    ultimately show ?thesis
      unfolding enabled keys using True by (auto simp: normalizeACLConfig_def Let_def r)
  next
    case False
    then have "key_pair_whole d"
      by (cases d) (auto simp: rocketMQSubmission_def Let_def split: if_splits)
    with False show ?thesis by (simp add: enabled normalizeACLConfig_def Let_def)
  qed
qed

text \<open>C13. Of a form the dialog lets through the service refuses no name and no timeout: it is stored,
  whatever its family, if and only if an address the family needs is more than separators and a
  RocketMQ access key comes with its secret, the two points the dialog does not check. Stored, the
  connection is in the list under its trimmed name, and the form it opens on is of the same
  family; refused, it leaves the service as it was. The name and the access key are ASCII, where
  the two sides trim alike.\<close>

theorem valid_form_is_stored:
  assumes valid: "draftInvalidReason t d = None"
    and name: "ascii (fst (shared_fields d))" and keys: "ascii_keys d"
  shows "case bridge_Add needs True (submit (toSubmission d)) s of (result, s') \<Rightarrow>
    ((\<exists>v. result = Inr v) \<longleftrightarrow> key_pair_whole d \<and>
       (needs (cd_kind (sub_draft (toSubmission d))) \<longrightarrow> hasEndpoint (go_trim (cd_endpoints (sub_draft (toSubmission d)))))) \<and>
    (case result of
       Inl e \<Rightarrow> s' = s \<and> e \<in> {AddressEmpty, AccessKeyRequired, SecretKeyRequired}
     | Inr v \<Rightarrow> v \<in> set (bridge_List s') \<and> cv_name v = js_trim (fst (shared_fields d)) \<and>
         draft_protocol (toDraft v) = draft_protocol d)"
proof -
  let ?sub = "sub_draft (toSubmission d)"
  let ?p = "input_profile ?sub"
  let ?addressed = "needs (cd_kind ?sub) \<longrightarrow> hasEndpoint (go_trim (cd_endpoints ?sub))"
  have given: "js_trim (fst (shared_fields d)) \<noteq> ''''" "0 \<le> snd (shared_fields d)"
    "snd (shared_fields d) \<le> 300"
    using valid by (auto simp: draftInvalidReason_def blank_def split: prod.splits if_splits)
  have fields: "cp_name ?p = js_trim (fst (shared_fields d))" "cp_timeoutSec ?p = snd (shared_fields d)"
    "cp_kind ?p = cd_kind ?sub" "cp_endpoints ?p = cd_endpoints ?sub"
    by (simp_all add: input_profile_def submitted_name submitted_timeout)
  have checked: "validateConnectionFields needs (cd_kind ?sub) (cp_name ?p) (cp_endpoints ?p)
      (cp_timeoutSec ?p) = (if ?addressed then Inr (js_trim (fst (shared_fields d)), go_trim (cd_endpoints ?sub))
        else Inl AddressEmpty)"
    using given go_trim_of_ascii [OF name]
    by (auto simp: validateConnectionFields_def fields Let_def)
  note acl = submitted_acl [OF keys]
  show ?thesis
  proof (cases "?addressed \<and> key_pair_whole d")
    case False
    then obtain e where "AddConnection needs True ?p s = (Inl e, s)" "e \<in> {AddressEmpty, AccessKeyRequired, SecretKeyRequired}"
      using checked acl submitted_kind [of d]
      by (cases ?addressed) (auto simp: AddConnection_def fields Let_def normalizeACLConfig_def split: if_splits)
    with False show ?thesis by (auto simp: bridge_Add_def view_of_def)
  next
    case True
    with acl have "\<not> isl (normalizeACLConfig (ACLEnabled ?p) (Secret ?p secretAccessKey) (Secret ?p secretSecretKey))"
      by simp
    then obtain enabled a k where "normalizeACLConfig (ACLEnabled ?p) (Secret ?p secretAccessKey)
        (Secret ?p secretSecretKey) = Inr (enabled, a, k)"
      by (cases "normalizeACLConfig (ACLEnabled ?p) (Secret ?p secretAccessKey) (Secret ?p secretSecretKey)") auto
    then obtain c s' where add: "AddConnection needs True ?p s = (Inr c, s')"
      and c: "cp_name c = js_trim (fst (shared_fields d))" "cp_kind c = cd_kind ?sub"
      and stored: "cs_connections s' = AList.update (cs_nextID s) c (cs_connections s)"
      using checked True submitted_kind [of d]
      by (simp add: AddConnection_def fields Let_def saveConnections_def)
    have "c \<in> set (GetConnections s')"
      using map_of_SomeD [of "cs_connections s'" "cs_nextID s" c]
      by (force simp: GetConnections_def copyConnectionsSorted_def stored)
    then have "redactConnection c \<in> set (bridge_List s')" by (simp add: bridge_List_def)
    moreover have "draft_protocol (toDraft (redactConnection c)) = draft_protocol d"
      using submission_protocol [of d] by (simp add: reopened_protocol c)
    ultimately show ?thesis using True by (simp add: bridge_Add_def add view_of_def c)
  qed
qed

theorem valid_form_is_stored_witness:
  "\<exists>v. v \<in> set (bridge_List (snd (bridge_Add (\<lambda>_. True) True (submit (toSubmission sample_form))
     (service_new None)))) \<and> cv_name v = ''b'' \<and> draft_protocol (toDraft v) = P_Kafka"
proof -
  have facts: "draftInvalidReason id sample_form = None" "ascii (fst (shared_fields sample_form))"
    "ascii_keys sample_form" "key_pair_whole sample_form"
    "hasEndpoint (go_trim (cd_endpoints (sub_draft (toSubmission sample_form))))"
    "js_trim (fst (shared_fields sample_form)) = ''b''" "draft_protocol sample_form = P_Kafka"
    by code_simp+
  obtain result s' where run: "bridge_Add (\<lambda>_. True) True (submit (toSubmission sample_form)) (service_new None) = (result, s')"
    by (metis surj_pair)
  from valid_form_is_stored [OF facts(1-3), of "\<lambda>_. True" "service_new None"] facts(4-7) run
  show ?thesis by (auto split: sum.splits)
qed

text \<open>C14. A form that could be saved can be saved again: when the store shows a profile that was
  saved from a valid form with its clear control off, the form it opens on is valid too, in every
  one of the fifteen families, although every secret field of it is blank. (The addresses of a
  Redis form, which are counted before they are trimmed, are ASCII.)\<close>

theorem saved_form_reopens_valid:
  assumes "draftInvalidReason t d = None" and "\<not> clearing d" and "address_ascii d"
    and "view_matches v (toSubmission d)" and "secrets_match v (toSubmission d)"
    and "cv_name v = cd_name (sub_draft (toSubmission d))"
  shows "draftInvalidReason t (toDraft v) = None"
proof -
  have time: "cv_timeoutSec v = snd (shared_fields d)"
    using assms(4) by (simp add: view_matches_def submitted_timeout)
  show ?thesis
    using assms family_stays_valid [of t d v]
    by (auto simp: draftInvalidReason_def shared_reopened submitted_name time split: if_splits prod.splits)
qed

theorem saved_form_reopens_valid_witness:
  "draftInvalidReason id (toDraft (redactConnection added_profile)) = None"
proof -
  have facts: "draftInvalidReason id sample_form = None" "\<not> clearing sample_form" "address_ascii sample_form"
    "cv_name (redactConnection added_profile) = cd_name (sub_draft (toSubmission sample_form))"
    by code_simp+
  show ?thesis
    by (rule saved_form_reopens_valid [OF facts(1-3) added_facts(2,3) facts(4)])
qed

text \<open>C15. The clear control of a RabbitMQ form passes the dialog only with a user name typed beside it,
  and then drops that name with everything else that was stored: the form the saved connection
  opens on is one the dialog refuses.\<close>

theorem clearing_leaves_an_invalid_form:
  assumes valid: "draftInvalidReason t (D_RabbitMQ d) = None" and clear: "df_clearCredentials d"
    and accepted: "fst (bridge_Update needs st save redial save2 now i (submit (toSubmission (D_RabbitMQ d))) s) = Inr v"
  shows "js_trim (rb_username d) \<noteq> '''' \<and>
    (\<exists>p. stored_at (snd (bridge_Update needs st save redial save2 now i (submit (toSubmission (D_RabbitMQ d))) s)) i = Some p \<and>
      map_of (cp_secrets p) = Map.empty \<and> draftInvalidReason t (toDraft (redactConnection p)) \<noteq> None)"
proof -
  have typed: "js_trim (rb_username d) \<noteq> ''''"
    using valid clear
    by (auto simp: draftInvalidReason_def rabbitmq_reason_def keepStored_def blank_def split: prod.splits if_splits)
  have mode: "ci_credentialsMode (submit (toSubmission (D_RabbitMQ d))) = ''clear''"
    and kind: "cd_kind (submit (toSubmission (D_RabbitMQ d))) = KindRabbitMQ"
    using clear by (simp_all add: rabbitMQSubmission_def Let_def mode_replacing_def toInput_def)
  from clearing_leaves_nothing [OF accepted mode] kind obtain p where
    p: "stored_at (snd (bridge_Update needs st save redial save2 now i (submit (toSubmission (D_RabbitMQ d))) s)) i = Some p"
      "map_of (cp_secrets p) = Map.empty" "cp_kind p = KindRabbitMQ" by auto
  have "cp_secrets p = []" using p(2) by (cases "cp_secrets p") (auto simp: fun_eq_iff split: if_splits)
  then have "rabbitmq_reason t (toRabbitMQDraft (redactConnection p)) \<noteq> None"
    by (simp add: rabbitmq_reason_def toRabbitMQDraft_def Let_def keepStored_def secrets_stored_def
        redactConnection_def ConfiguredSecrets_def configured_secrets_def)
  then have "draftInvalidReason t (toDraft (redactConnection p)) \<noteq> None"
    using p(3) by (auto simp: draftInvalidReason_def toDraft_def redactConnection_def split: prod.splits)
  with typed p show ?thesis by auto
qed

definition sample_queue :: rabbitmq_draft where
  "sample_queue = emptyRabbitMQDraft\<lparr>df_name := ''q'', rb_management := ''http://h:15672'', rb_username := ''u'', rb_password := ''p''\<rparr>"

definition sample_cleared :: rabbitmq_draft where
  "sample_cleared = sample_queue\<lparr>df_credentialsStored := True, df_clearCredentials := True, rb_username := ''v'', rb_password := ''''\<rparr>"

definition sample_queues :: conn_service where
  "sample_queues = snd (bridge_Add (\<lambda>_. True) True (submit (toSubmission (D_RabbitMQ sample_queue))) (service_new None))"

theorem clearing_leaves_an_invalid_form_witness:
  "\<exists>p. stored_at (snd (bridge_Update (\<lambda>_. True) None True True True ''t'' 1
      (submit (toSubmission (D_RabbitMQ sample_cleared))) sample_queues)) 1 = Some p \<and>
    draftInvalidReason id (toDraft (redactConnection p)) \<noteq> None"
proof -
  have facts: "draftInvalidReason id (D_RabbitMQ sample_cleared) = None" "df_clearCredentials sample_cleared"
    "\<not> isl (fst (bridge_Update (\<lambda>_. True) None True True True ''t'' 1
      (submit (toSubmission (D_RabbitMQ sample_cleared))) sample_queues))"
    by code_simp+
  obtain v where "fst (bridge_Update (\<lambda>_. True) None True True True ''t'' 1
      (submit (toSubmission (D_RabbitMQ sample_cleared))) sample_queues) = Inr v"
    using facts(3) by (metis sum.exhaust isl_def)
  from clearing_leaves_an_invalid_form [OF facts(1,2) this] show ?thesis by blast
qed

end
