(* ===== verification/RedisDial.thy ===== *)
theory RedisDial
  imports ConnSubmit
begin

text \<open>
  What the Redis driver makes of a profile (internal/driver/redisstream/client.go, \<open>configOf\<close>
  and what it calls), against the rules of the Redis form: the form counts addresses the way
  the driver does, so a form that was accepted is only refused by the driver for an address it
  cannot read.

  \<open>net.SplitHostPort\<close> and \<open>net.JoinHostPort\<close> are Go's own and are written out.
\<close>

section \<open>Go's string functions\<close>

text \<open>The position of the last \<open>c\<close>; \<open>strings.Index\<close> is \<open>js_indexOf\<close>.\<close>

definition last_index :: "char \<Rightarrow> string \<Rightarrow> nat option" where
  "last_index c s =
     (if c \<in> set s then Some (length s - 1 - length (takeWhile (\<lambda>d. d \<noteq> c) (rev s))) else None)"

definition SplitHostPort :: "string \<Rightarrow> (string \<times> string) option" where
  "SplitHostPort hostport =
     (case last_index (CHR '':'') hostport of
        None \<Rightarrow> None
      | Some i \<Rightarrow>
          if prefix ''['' hostport then
            (case js_indexOf '']'' hostport of
               None \<Rightarrow> None
             | Some e \<Rightarrow>
                 if e + 1 \<noteq> i then None
                 else if CHR ''['' \<in> set (drop 1 hostport) \<or> CHR '']'' \<in> set (drop (e + 1) hostport)
                 then None
                 else Some (drop 1 (take e hostport), drop (i + 1) hostport))
          else if CHR '':'' \<in> set (take i hostport) then None
          else if CHR ''['' \<in> set hostport \<or> CHR '']'' \<in> set hostport then None
          else Some (take i hostport, drop (i + 1) hostport))"

definition JoinHostPort :: "string \<Rightarrow> string \<Rightarrow> string" where
  "JoinHostPort host port =
     (if CHR '':'' \<in> set host then ''['' @ host @ '']:'' @ port else host @ '':'' @ port)"

text \<open>\<open>strings.Trim(s, "[]")\<close>\<close>

definition trim_brackets :: "string \<Rightarrow> string" where
  "trim_brackets s =
     rev (dropWhile (\<lambda>c. c \<in> set ''[]'') (rev (dropWhile (\<lambda>c. c \<in> set ''[]'') s)))"

section \<open>Addresses\<close>

datatype dial_error = AddressMissing | InvalidAddress string | OneAddressOnly nat | InvalidDB string
  | MasterNameMissing

definition default_port :: string where "default_port = ''6379''"

definition normaliseAddr :: "string \<Rightarrow> dial_error + string" where
  "normaliseAddr raw =
     (let addr = go_trim raw;
          addr = (case js_indexOf ''://'' addr of Some i \<Rightarrow> drop (i + 3) addr | None \<Rightarrow> addr);
          addr = (case last_index (CHR ''@'') addr of Some i \<Rightarrow> drop (i + 1) addr | None \<Rightarrow> addr);
          addr = (case js_indexOf ''/'' addr of Some i \<Rightarrow> take i addr | None \<Rightarrow> addr)
      in if addr = '''' then Inl AddressMissing
         else if SplitHostPort addr \<noteq> None then Inr addr
         else
           (let addr = (if count_list addr (CHR '':'') > 1 \<and> \<not> prefix ''['' addr
                        then ''['' @ addr @ '']'' else addr);
                withPort = JoinHostPort (trim_brackets addr) default_port
            in if SplitHostPort withPort = None then Inl (InvalidAddress raw) else Inr withPort))"

definition go_address_break :: "char \<Rightarrow> bool" where
  "go_address_break c \<longleftrightarrow>
     c \<in> set [CHR '','', CHR '';'', CHR 0x0A, CHR 0x0D, CHR 0x09, CHR '' '']"

fun collect_addrs :: "string list \<Rightarrow> string list \<Rightarrow> dial_error + string list" where
  "collect_addrs addrs [] = Inr addrs"
| "collect_addrs addrs (f # fs) =
     (case normaliseAddr f of
        Inl e \<Rightarrow> Inl e
      | Inr addr \<Rightarrow> collect_addrs (if addr \<in> set addrs then addrs else addrs @ [addr]) fs)"

definition parseAddrs :: "string \<Rightarrow> dial_error + string list" where
  "parseAddrs raw =
     (case collect_addrs [] (fields_on go_address_break raw) of
        Inl e \<Rightarrow> Inl e
      | Inr addrs \<Rightarrow> if addrs = [] then Inl AddressMissing else Inr addrs)"

section \<open>The whole of a profile\<close>

definition deploymentOf :: "string \<Rightarrow> redis_deployment" where
  "deploymentOf raw =
     (if go_trim raw = ''sentinel'' then Sentinel
      else if go_trim raw = ''cluster'' then Cluster else Standalone)"

definition parseDB :: "string \<Rightarrow> dial_error + int" where
  "parseDB raw =
     (let r = go_trim raw in
      if r = '''' then Inr 0
      else case go_Atoi r of
             Some db \<Rightarrow> if db < 0 then Inl (InvalidDB r) else Inr db
           | None \<Rightarrow> Inl (InvalidDB r))"

text \<open>\<open>connectionName\<close>: a rune outside the safe set becomes one dash, so the bytes that continue
  a rune add none.\<close>

definition connectionName :: "string \<Rightarrow> string" where
  "connectionName p =
     (let name = go_trim p in
      if name = '''' then ''mq-studio''
      else ''mq-studio.'' @
        map (\<lambda>c. if is_letter c \<or> is_digit c \<or> c \<in> set ''._-'' then c else CHR ''-'')
          (filter (\<lambda>c. \<not> char_between c 128 191) name))"

record client_config =
  rc_Deployment :: redis_deployment
  rc_Addrs :: "string list"
  rc_MasterName :: string
  rc_DB :: int
  rc_Username :: string
  rc_Password :: string
  rc_TLS :: bool
  rc_TLSSkipVerify :: bool
  rc_StreamFilter :: string
  rc_ClientName :: string
  rc_DialTimeoutSec :: int

definition configOf :: "profile \<Rightarrow> dial_error + client_config" where
  "configOf p =
     (let opt_of = lookup_str (cp_options p); deployment = deploymentOf (opt_of ''deployment'');
          masterName = go_trim (opt_of ''masterName'') in
      case parseAddrs (cp_endpoints p) of
        Inl e \<Rightarrow> Inl e
      | Inr addrs \<Rightarrow>
          if deployment = Standalone \<and> length addrs > 1 then Inl (OneAddressOnly (length addrs))
          else case parseDB (opt_of ''db'') of
                 Inl e \<Rightarrow> Inl e
               | Inr db \<Rightarrow>
                   if deployment = Sentinel \<and> masterName = '''' then Inl MasterNameMissing
                   else Inr \<lparr>rc_Deployment = deployment, rc_Addrs = addrs, rc_MasterName = masterName,
                     rc_DB = db, rc_Username = Secret p ''username'', rc_Password = Secret p ''password'',
                     rc_TLS = (opt_of ''tls'' = ''true''),
                     rc_TLSSkipVerify = (opt_of ''tlsSkipVerify'' = ''true''),
                     rc_StreamFilter = go_trim (opt_of ''streamFilter''),
                     rc_ClientName = connectionName (cp_name p),
                     rc_DialTimeoutSec = (if cp_timeoutSec p > 0 then cp_timeoutSec p else 5)\<rparr>)"

section \<open>The form against the driver\<close>

lemma go_break_only: "go_address_break c \<Longrightarrow> address_break c"
  by (auto simp: go_address_break_def address_break_def is_blank_def)

text \<open>Fields of a coarser class of separators, each with a word of the finer one in it.\<close>

lemma fields_coarser:
  assumes finer: "\<And>c. coarse c \<Longrightarrow> sep c"
  shows "\<forall>f \<in> set (fields_on coarse s). \<exists>c \<in> set f. \<not> sep c \<Longrightarrow>
    length (fields_on coarse s) \<le> length (fields_on sep s)"
proof (induction "length s" arbitrary: s rule: less_induct)
  case less
  let ?t = "dropWhile coarse s"
  let ?w = "takeWhile (\<lambda>c. \<not> coarse c) ?t" and ?rest = "dropWhile (\<lambda>c. \<not> coarse c) ?t"
  show ?case
  proof (cases "?t = []")
    case True
    then show ?thesis by (subst fields_on.simps) simp
  next
    case False
    have fields: "fields_on coarse s = ?w # fields_on coarse ?rest"
      using False by (subst fields_on.simps) (simp add: Let_def del: dropWhile_eq_Nil_conv)
    have hd: "\<not> coarse (hd ?t)" using False by (simp add: hd_dropWhile)
    have "length ?rest < length ?t"
      using False hd by (cases ?t) (simp_all add: length_dropWhile_le less_Suc_eq_le)
    then have "length ?rest < length s" using length_dropWhile_le [of coarse s] by simp
    from less.hyps [OF this] less.prems
    have tail: "length (fields_on coarse ?rest) \<le> length (fields_on sep ?rest)" by (simp add: fields)
    have "?rest = [] \<or> sep (hd ?rest)"
      using finer hd_dropWhile [of "\<lambda>c. \<not> coarse c" ?t] by blast
    from fields_append [of ?rest sep ?w, OF this]
    have "fields_on sep ?t = fields_on sep ?w @ fields_on sep ?rest" by simp
    moreover have "fields_on sep s = fields_on sep ?t"
    proof -
      have "\<forall>c \<in> set (takeWhile coarse s). sep c" using finer by (auto dest: set_takeWhileD)
      then have "dropWhile sep (takeWhile coarse s @ ?t) = dropWhile sep ?t"
        by (intro dropWhile_append2) blast
      then show ?thesis by (metis fields_skip takeWhile_dropWhile_id)
    qed
    moreover have "fields_on sep ?w \<noteq> []"
    proof -
      obtain c where "c \<in> set ?w" "\<not> sep c" using less.prems fields by auto
      then have "dropWhile sep ?w \<noteq> []" unfolding dropWhile_eq_Nil_conv by blast
      then show ?thesis by (subst fields_on.simps) (simp add: Let_def del: dropWhile_eq_Nil_conv)
    qed
    ultimately have "length (fields_on sep s) \<ge> 1 + length (fields_on sep ?rest)"
      by (simp only: length_append length_greater_0_conv [symmetric])
    with tail show ?thesis by (simp only: fields list.size)
  qed
qed

lemma collect_bounds:
  "collect_addrs acc fs = Inr addrs \<Longrightarrow> length addrs \<le> length acc + length fs \<and>
     (\<forall>f \<in> set fs. \<exists>a. normaliseAddr f = Inr a)"
  by (induction acc fs arbitrary: addrs rule: collect_addrs.induct)
    (fastforce split: sum.splits if_splits)+

text \<open>A field of blanks only is an error, so every field that is read has a word in it.\<close>

lemma read_field_word:
  assumes "normaliseAddr f = Inr a" and "ascii f" and "\<forall>c \<in> set f. \<not> go_address_break c"
  shows "\<exists>c \<in> set f. \<not> address_break c"
proof (rule ccontr)
  assume "\<not> ?thesis"
  with assms(3) have "\<forall>c \<in> set f. is_blank c"
    by (auto simp: address_break_def go_address_break_def)
  then have "dropWhile is_blank f = []" unfolding dropWhile_eq_Nil_conv .
  then have "go_trim f = ''''"
    unfolding trim_ascii [OF assms(2)] trim_blanks_def by (simp only: rev.simps dropWhile.simps)
  then have "normaliseAddr f = Inl AddressMissing"
    by (simp add: normaliseAddr_def Let_def last_index_def)
  with assms(1) show False by simp
qed

lemma parse_count:
  assumes "parseAddrs raw = Inr addrs" and asc: "ascii raw"
  shows "1 \<le> length addrs" "length addrs \<le> countAddresses raw"
proof -
  from assms(1) have c: "collect_addrs [] (fields_on go_address_break raw) = Inr addrs" and "addrs \<noteq> []"
    by (auto simp: parseAddrs_def split: sum.splits if_splits)
  then show "1 \<le> length addrs" by (simp add: Suc_le_eq)
  have "\<exists>c \<in> set f. \<not> address_break c" if f: "f \<in> set (fields_on go_address_break raw)" for f
  proof -
    obtain a where "normaliseAddr f = Inr a" using collect_bounds [OF c] f by blast
    moreover have "ascii f" using fields_chars [OF f] asc by (auto simp: ascii_def list_all_iff)
    ultimately show ?thesis using fields_chars [OF f] by (intro read_field_word) blast+
  qed
  then have "length (fields_on go_address_break raw) \<le> length (fields_on address_break raw)"
    using fields_coarser [of go_address_break address_break raw] go_break_only by blast
  with collect_bounds [OF c] show "length addrs \<le> countAddresses raw"
    by (simp add: countAddresses_fields [OF asc])
qed

lemma parseDB_show:
  assumes "0 \<le> n" "n < 2 ^ 63"
  shows "parseDB (show_int n) = Inr n"
proof -
  obtain k where k: "n = int k" using assms(1) nonneg_int_cases by blast
  have digits: "list_all is_digit (show_nat k)" by (auto simp: list_all_iff intro: show_nat_digits)
  have "ascii (show_nat k)"
    using digits by (auto simp: ascii_def list_all_iff is_digit_def char_between_def)
  then have trim: "go_trim (show_nat k) = show_nat k"
    using js_trim_show_nat [of k] trim_ascii [of "show_nat k"] by simp
  have "\<not> prefix ''-'' (show_nat k)" "\<not> prefix ''+'' (show_nat k)"
    using digits by (cases "show_nat k"; auto simp: is_digit_def)+
  with assms k digits show ?thesis
    by (simp add: show_int_def parseDB_def trim go_Atoi_def Let_def)
qed

lemma deploymentOf_text: "deploymentOf (deployment_text m) = m"
proof -
  have "deploymentOf ''standalone'' = Standalone" "deploymentOf ''sentinel'' = Sentinel"
    "deploymentOf ''cluster'' = Cluster"
    by code_simp+
  then show ?thesis by (cases m) simp_all
qed

text \<open>C16. A Redis form that was accepted is dialled as it was filled in: once the driver can read
  its addresses, nothing else of the profile is refused, the deployment and the addresses are the
  form's, and a standalone profile is dialled at exactly one address, never as a cluster.\<close>

theorem redis_form_is_dialled:
  assumes valid: "redis_reason t d = None" and db: "0 \<le> rd_db d" "rd_db d < 2 ^ 63"
    and asc: "ascii (rd_endpoints d)" "ascii (rd_masterName d)"
    and addrs: "parseAddrs (js_trim (rd_endpoints d)) = Inr addrs"
  shows "\<exists>c. configOf (input_profile (sub_draft (redisSubmission d))) = Inr c \<and>
    rc_Deployment c = rd_deployment d \<and> rc_Addrs c = addrs \<and>
    (length addrs = 1 \<or> rd_deployment d \<noteq> Standalone)"
proof -
  let ?p = "input_profile (sub_draft (redisSubmission d))"
  let ?option = "lookup_str (cp_options ?p)"
  have count: "1 \<le> length addrs" "length addrs \<le> countAddresses (rd_endpoints d)"
    using parse_count [OF addrs ascii_trim [OF asc(1)]] by (simp_all add: countAddresses_trim [OF asc(1)])
  have one: "length addrs = 1" if "rd_deployment d = Standalone"
    using valid that count by (auto simp: redis_reason_def split: if_splits)
  have opts: "?option ''deployment'' = deployment_text (rd_deployment d)"
    "?option ''masterName'' = (if rd_deployment d = Sentinel then js_trim (rd_masterName d) else '''')"
    "?option ''db'' = (if rd_deployment d = Cluster then ''0'' else show_int (rd_db d))"
    "cp_endpoints ?p = js_trim (rd_endpoints d)"
    by (simp_all add: input_profile_def redisSubmission_def Let_def option_names lookup_str_def
        del: deployment_text.simps)
  have dep: "deploymentOf (?option ''deployment'') = rd_deployment d"
    by (simp only: opts deploymentOf_text)
  have "parseDB ''0'' = Inr 0" by code_simp
  then have parsed: "\<exists>n. parseDB (?option ''db'') = Inr n"
    using parseDB_show [OF db] by (simp only: opts) simp
  have master: "go_trim (?option ''masterName'') \<noteq> ''''" if "rd_deployment d = Sentinel"
    using valid that go_trim_of_ascii [OF asc(2)]
    by (simp add: opts redis_reason_def blank_def split: if_splits)
  obtain n where n: "parseDB (?option ''db'') = Inr n" using parsed by blast
  have "rd_deployment d = Standalone \<Longrightarrow> \<not> 1 < length addrs" using one by simp
  then show ?thesis
    using one master unfolding configOf_def Let_def dep n opts(4) addrs by auto
qed

definition redis_sample :: redis_draft where
  "redis_sample = emptyRedisDraft\<lparr>df_name := ''r'', rd_endpoints := '' redis://10.2.0.8 ''\<rparr>"

theorem redis_form_is_dialled_witness:
  "\<exists>c. configOf (input_profile (sub_draft (redisSubmission redis_sample))) = Inr c \<and>
    rc_Addrs c = [''10.2.0.8:6379'']"
proof -
  have facts: "redis_reason id redis_sample = None" "0 \<le> rd_db redis_sample"
    "rd_db redis_sample < 2 ^ 63" "ascii (rd_endpoints redis_sample)" "ascii (rd_masterName redis_sample)"
    "parseAddrs (js_trim (rd_endpoints redis_sample)) = Inr [''10.2.0.8:6379'']"
    by code_simp+
  from redis_form_is_dialled [OF facts] show ?thesis by blast
qed

text \<open>The form counts an address as often as it is written, the driver counts servers: the same
  server twice is refused by the form and dialled by the driver.\<close>

lemma repeated_address:
  "countAddresses ''a,a'' = 2" "parseAddrs ''a,a'' = Inr [''a:6379'']"
  by code_simp+

end
