(* ===== verification/ConnRows.thy ===== *)
theory ConnRows
  imports JsText Protocols DraftDispatch
begin

text \<open>
  The list of connections: a profile as the shell draws it (design/data/connections.ts) and
  what the selection bar works with (design/boards/connections/connectionSelection.ts).
\<close>

section \<open>A profile as a row\<close>

fun kind_text :: "mq_kind \<Rightarrow> string" where
  "kind_text KindZero = ''''"
| "kind_text KindRocketMQ = ''rocketmq''"
| "kind_text KindKafka = ''kafka''"
| "kind_text KindRabbitMQ = ''rabbitmq''"
| "kind_text KindPulsar = ''pulsar''"
| "kind_text KindActiveMQ = ''activemq''"
| "kind_text KindRedisStream = ''redis-stream''"
| "kind_text KindNATS = ''nats''"
| "kind_text KindNSQ = ''nsq''"
| "kind_text KindMQTT = ''mqtt''"
| "kind_text KindSQS = ''sqs''"
| "kind_text KindGooglePubSub = ''google-pubsub''"
| "kind_text KindAzureServiceBus = ''azure-servicebus''"
| "kind_text KindKinesis = ''kinesis''"
| "kind_text KindIBMMQ = ''ibmmq''"
| "kind_text KindSolace = ''solace''"

datatype row_status = RowOnline | RowOffline | RowFailed

text \<open>\<open>Connection\<close> of the shell. \<open>latency\<close> is what the hook that dials adds later.\<close>

record row =
  ro_key :: string
  ro_id :: int
  ro_name :: string
  ro_protocol :: "protocol_id option"
  ro_kind :: mq_kind
  ro_protocolLabel :: string
  ro_address :: string
  ro_scope :: "string option"
  ro_status :: row_status
  ro_latency :: "string option"
  ro_lastUsed :: string
  ro_isDefault :: bool
  ro_remark :: string

text \<open>\<open>s.trim().replace(/\/+$/, "")\<close>\<close>

definition without_slashes :: "string \<Rightarrow> string" where
  "without_slashes s = rev (dropWhile (\<lambda>c. c = CHR ''/'') (rev (js_trim s)))"

definition queueManagerAddress :: "connection_view \<Rightarrow> string" where
  "queueManagerAddress v =
     (let server = without_slashes (cv_endpoints v); qmgr = js_trim (opt_str v ''queueManager'')
      in if server = '''' \<or> qmgr = '''' then server else server @ ''/'' @ qmgr)"

definition msgVpnAddress :: "connection_view \<Rightarrow> string" where
  "msgVpnAddress v =
     (let broker = without_slashes (cv_endpoints v); vpn = js_trim (opt_str v ''msgVpn'')
      in if broker = '''' \<or> vpn = '''' then broker else broker @ ''/'' @ vpn)"

definition namespaceOf :: "string \<Rightarrow> string" where
  "namespaceOf endpoints =
     (let first = without_slashes (takeWhile (\<lambda>c. c \<notin> set [CHR '','', CHR '';'', CHR 0x0A]) endpoints)
      in case js_indexOf ''://'' first of None \<Rightarrow> first | Some scheme \<Rightarrow> drop (scheme + 3) first)"

definition addressOf :: "connection_view \<Rightarrow> string" where
  "addressOf v =
     (if cv_kind v = KindSQS then opt_str v ''region''
      else if cv_kind v = KindKinesis then opt_str v ''region''
      else if cv_kind v = KindGooglePubSub then opt_str v ''projectId''
      else if cv_kind v = KindAzureServiceBus then namespaceOf (cv_endpoints v)
      else if cv_kind v = KindIBMMQ then queueManagerAddress v
      else if cv_kind v = KindSolace then msgVpnAddress v
      else cv_endpoints v)"

definition scopeOf :: "connection_view \<Rightarrow> string option" where
  "scopeOf v =
     (let option = (if cv_kind v = KindRocketMQ then opt v ''namespace''
                    else if cv_kind v = KindSolace then opt v ''msgVpn'' else None)
      in or_undefined (nullish option ''''))"

definition toShellConnection :: "connection_view \<Rightarrow> row" where
  "toShellConnection v =
     \<lparr>ro_key = show_int (cv_id v), ro_id = cv_id v, ro_name = cv_name v,
      ro_protocol = protocolOfKind (cv_kind v), ro_kind = cv_kind v,
      ro_protocolLabel = (case protocolOfKind (cv_kind v) of
         Some p \<Rightarrow> pt_name (PROTOCOLS p) | None \<Rightarrow> kind_text (cv_kind v)),
      ro_address = addressOf v, ro_scope = scopeOf v,
      ro_status = (if cv_status v = StatusOnline then RowOnline else RowOffline),
      ro_latency = None, ro_lastUsed = cv_lastCheck v, ro_isDefault = cv_isDefault v,
      ro_remark = cv_remark v\<rparr>"

section \<open>The selection\<close>

datatype bulk_action = BulkConnect | BulkDisconnect | BulkTest | BulkDelete

datatype connection_op = Connecting | Disconnecting | Testing

definition set_key :: "bool \<Rightarrow> string set \<Rightarrow> string \<Rightarrow> string set" where
  "set_key on s k = (if on then insert k s else s - {k})"

definition clickSelection ::
    "string set \<Rightarrow> row list \<Rightarrow> string \<Rightarrow> string option \<Rightarrow> bool \<Rightarrow> string set" where
  "clickSelection selected rows key anchor rng =
     (let on = (key \<notin> selected);
          start = (case anchor of
             Some a \<Rightarrow> if rng then find_index (\<lambda>c. ro_key c = a) rows else None
           | None \<Rightarrow> None)
      in case (start, find_index (\<lambda>c. ro_key c = key) rows) of
           (Some i, Some j) \<Rightarrow>
             foldl (set_key on) selected
               (map ro_key (take (max i j + 1 - min i j) (drop (min i j) rows)))
         | _ \<Rightarrow> set_key on selected key)"

datatype header_state = HeaderOff | HeaderOn | HeaderPartial

definition headerChecked :: "row list \<Rightarrow> string set \<Rightarrow> header_state" where
  "headerChecked rows selected =
     (let ticked = length (filter (\<lambda>c. ro_key c \<in> selected) rows)
      in if ticked = 0 then HeaderOff
         else if ticked = length rows then HeaderOn else HeaderPartial)"

definition bulkTargets ::
    "bulk_action \<Rightarrow> row list \<Rightarrow> (int \<Rightarrow> connection_op option) \<Rightarrow> row list" where
  "bulkTargets action connections pending =
     (if action = BulkDelete then connections
      else filter (\<lambda>c. pending (ro_id c) = None \<and>
             (case action of BulkConnect \<Rightarrow> ro_status c \<noteq> RowOnline
              | BulkDisconnect \<Rightarrow> ro_status c = RowOnline | _ \<Rightarrow> True)) connections)"

definition deletePlan :: "row list \<Rightarrow> nat \<Rightarrow> row list \<times> row option" where
  "deletePlan targets count =
     (let order = filter (\<lambda>c. \<not> ro_isDefault c) targets
      in case find ro_isDefault targets of
           None \<Rightarrow> (order, None)
         | Some d \<Rightarrow> if length targets = count then (order @ [d], None) else (order, Some d))"

section \<open>Clicking\<close>

lemma set_keys: "foldl (set_key on) s ks = (if on then s \<union> set ks else s - set ks)"
  by (induction ks arbitrary: s) (auto simp: set_key_def)

text \<open>The keys of the rows between two positions, both included.\<close>

definition keys_between :: "row list \<Rightarrow> nat \<Rightarrow> nat \<Rightarrow> string set" where
  "keys_between rows i j = {ro_key (rows ! n) | n. min i j \<le> n \<and> n \<le> max i j \<and> n < length rows}"

lemma slice_keys:
  assumes "hi < length xs" and "lo \<le> hi"
  shows "set (take (hi + 1 - lo) (drop lo xs)) = {xs ! n | n. lo \<le> n \<and> n \<le> hi}"
proof -
  have "hi + 1 - lo \<le> length (drop lo xs)" using assms by simp
  from nth_image [OF this] have "set (take (hi + 1 - lo) (drop lo xs)) = (\<lambda>n. xs ! (lo + n)) ` {..<hi + 1 - lo}"
    using assms by (auto simp: atLeast0LessThan)
  also have "\<dots> = {xs ! n | n. lo \<le> n \<and> n \<le> hi}"
  proof (intro set_eqI iffI)
    fix x assume "x \<in> {xs ! n | n. lo \<le> n \<and> n \<le> hi}"
    then obtain n where n: "x = xs ! n" "lo \<le> n" "n \<le> hi" by blast
    then have "x = xs ! (lo + (n - lo))" "n - lo < hi + 1 - lo" by auto
    then show "x \<in> (\<lambda>n. xs ! (lo + n)) ` {..<hi + 1 - lo}" by blast
  qed auto
  finally show ?thesis .
qed

lemma range_click:
  assumes a: "find_index (\<lambda>c. ro_key c = a) rows = Some i"
    and k: "find_index (\<lambda>c. ro_key c = key) rows = Some j"
  shows "clickSelection selected rows key (Some a) True =
    (if key \<in> selected then selected - keys_between rows i j else selected \<union> keys_between rows i j)"
proof -
  have len: "i < length rows" "j < length rows" using find_index_Some [OF a] find_index_Some [OF k] by auto
  have "set (map ro_key (take (max i j + 1 - min i j) (drop (min i j) rows))) = keys_between rows i j"
    using slice_keys [of "max i j" rows "min i j"] len by (auto simp: keys_between_def)
  then show ?thesis
    using a k by (simp add: clickSelection_def Let_def set_keys)
qed

lemma clicked_in_range:
  "find_index (\<lambda>c. ro_key c = key) rows = Some j \<Longrightarrow> key \<in> keys_between rows i j"
  by (auto dest!: find_index_Some simp: keys_between_def intro!: exI [of _ j])

text \<open>A range click moves every row between the anchor and the clicked one to the state the
  clicked row is moving to, and nothing else; the same click again clears exactly those rows, or
  ticks them again, wherever the anchor stands.\<close>

theorem range_click_moves_the_range:
  assumes a: "find_index (\<lambda>c. ro_key c = a) rows = Some i"
    and k: "find_index (\<lambda>c. ro_key c = key) rows = Some j"
  shows "clickSelection selected rows key (Some a) True =
      (if key \<in> selected then selected - keys_between rows i j else selected \<union> keys_between rows i j) \<and>
    clickSelection (clickSelection selected rows key (Some a) True) rows key (Some a) True =
      (if key \<in> selected then selected \<union> keys_between rows i j else selected - keys_between rows i j)"
  using clicked_in_range [OF k, of i] by (auto simp: range_click [OF a k])

definition sample_row :: "int \<Rightarrow> row" where
  "sample_row i =
     \<lparr>ro_key = show_int i, ro_id = i, ro_name = ''conn'', ro_protocol = Some P_Kafka,
      ro_kind = KindKafka, ro_protocolLabel = ''Kafka'', ro_address = ''h:9092'', ro_scope = None,
      ro_status = RowOffline, ro_latency = None, ro_lastUsed = ''-'', ro_isDefault = (i = 1),
      ro_remark = ''''\<rparr>"

theorem range_click_moves_the_range_witness:
  "clickSelection {''2''} (map sample_row [1, 2, 3, 4, 5]) ''4'' (Some ''2'') True =
     {''2''} \<union> keys_between (map sample_row [1, 2, 3, 4, 5]) 1 3"
proof -
  have "find_index (\<lambda>c. ro_key c = ''2'') (map sample_row [1, 2, 3, 4, 5]) = Some 1"
    "find_index (\<lambda>c. ro_key c = ''4'') (map sample_row [1, 2, 3, 4, 5]) = Some 3"
    by code_simp+
  from range_click_moves_the_range [OF this, of "{''2''}"] show ?thesis by simp
qed

section \<open>The header checkbox and the delete plan\<close>

lemma header_states:
  "headerChecked rows selected = HeaderOn \<longleftrightarrow> rows \<noteq> [] \<and> (\<forall>c \<in> set rows. ro_key c \<in> selected)"
  "headerChecked rows selected = HeaderOff \<longleftrightarrow> (\<forall>c \<in> set rows. ro_key c \<notin> selected)"
proof -
  have "length (filter (\<lambda>c. ro_key c \<in> selected) rows) = length rows \<longleftrightarrow> (\<forall>c \<in> set rows. ro_key c \<in> selected)"
    by (metis filter_True length_filter_less less_irrefl)
  then show "headerChecked rows selected = HeaderOn \<longleftrightarrow> rows \<noteq> [] \<and> (\<forall>c \<in> set rows. ro_key c \<in> selected)"
    "headerChecked rows selected = HeaderOff \<longleftrightarrow> (\<forall>c \<in> set rows. ro_key c \<notin> selected)"
    by (auto simp: headerChecked_def Let_def filter_empty_conv)
qed

text \<open>What a plan leaves out is the default profile, and only while others stay.\<close>

lemma deletePlan_order:
  assumes "deletePlan targets count = (order, kept)"
  shows "(\<exists>d. kept = Some d \<and> d \<in> set targets \<and> ro_isDefault d \<and> length targets \<noteq> count \<and>
      order = filter (\<lambda>c. \<not> ro_isDefault c) targets) \<or>
    kept = None \<and> (order = filter (\<lambda>c. \<not> ro_isDefault c) targets \<and> (\<forall>c \<in> set targets. \<not> ro_isDefault c) \<or>
      (\<exists>d. d \<in> set targets \<and> ro_isDefault d \<and> length targets = count \<and>
        order = filter (\<lambda>c. \<not> ro_isDefault c) targets @ [d]))"
proof (cases "find ro_isDefault targets")
  case None
  with assms show ?thesis by (auto simp: deletePlan_def find_None_iff)
next
  case (Some d)
  then have "d \<in> set targets" "ro_isDefault d" by (auto simp: find_Some_iff)
  with Some assms show ?thesis by (auto simp: deletePlan_def Let_def split: if_splits)
qed

end
