(* ===== verification/ConnBulk.thy ===== *)
theory ConnBulk
  imports ConnRows ConnEdit
begin

text \<open>
  The profiles the shell works with and an action over several of them:
  hooks/useConnectionProfiles.ts, the profiles as last read and what each row is doing, and
  boards/connections/useConnectionBulk.tsx, which runs one action over a selection, one
  connection at a time, on top of the connection service.

  An \<open>environment\<close> is what one call meets outside the model: whether the configuration file
  could be written, whether a dial succeeded, the clock, the label of the measured round trip,
  whether the list could be read afterwards, and the wording of an error. A dial is one step
  here: what else happens while it is in flight is folded into \<open>others\<close>, which may do anything
  to the state before each turn of a run.
\<close>

section \<open>The profiles as the shell holds them\<close>

record shell_state =
  sh_service :: conn_service
  sh_profiles :: "connection_view list"
  sh_pending :: "int \<Rightarrow> connection_op option"
  sh_errors :: "int \<Rightarrow> string option"
  sh_latency :: "int \<Rightarrow> string option"

record environment =
  en_settings :: "app_settings option"
  en_save :: bool
  en_reached :: bool
  en_now :: string
  en_latency :: string
  en_loads :: bool
  en_message :: "conn_error \<Rightarrow> string"
  en_load_error :: string

definition shell_row :: "shell_state \<Rightarrow> connection_view \<Rightarrow> row" where
  "shell_row w v =
     (let shell = toShellConnection v in
      if ro_status shell = RowOnline then shell\<lparr>ro_latency := sh_latency w (cv_id v)\<rparr>
      else if sh_errors w (cv_id v) \<noteq> None then shell\<lparr>ro_status := RowFailed\<rparr> else shell)"

definition connections :: "shell_state \<Rightarrow> row list" where
  "connections w = map (shell_row w) (sh_profiles w)"

definition load :: "environment \<Rightarrow> shell_state \<Rightarrow> shell_state" where
  "load e w = (if en_loads e then w\<lparr>sh_profiles := bridge_List (sh_service w)\<rparr> else w)"

definition dial ::
    "environment \<Rightarrow> int \<Rightarrow> connection_op \<Rightarrow> (conn_service \<Rightarrow> (conn_error + 'a) \<times> conn_service) \<Rightarrow>
     shell_state \<Rightarrow> string option \<times> shell_state" where
  "dial e i op run w =
     (let w1 = w\<lparr>sh_pending := (sh_pending w)(i := Some op)\<rparr> in
      case run (sh_service w1) of
        (Inr _, s') \<Rightarrow>
          (None, load e (w1\<lparr>sh_service := s', sh_errors := (sh_errors w1)(i := None),
             sh_latency := (sh_latency w1)(i := Some (en_latency e)),
             sh_pending := (sh_pending w1)(i := None)\<rparr>))
      | (Inl err, s') \<Rightarrow>
          (Some (en_message e err), load e (w1\<lparr>sh_service := s',
             sh_errors := (sh_errors w1)(i := Some (en_message e err)),
             sh_pending := (sh_pending w1)(i := None)\<rparr>)))"

definition hook_connect :: "environment \<Rightarrow> int \<Rightarrow> shell_state \<Rightarrow> string option \<times> shell_state" where
  "hook_connect e i =
     dial e i Connecting (Connect (en_settings e) (en_reached e) (en_save e) (en_now e) i)"

definition hook_test :: "environment \<Rightarrow> int \<Rightarrow> shell_state \<Rightarrow> string option \<times> shell_state" where
  "hook_test e i = dial e i Testing (TestConnection (en_reached e) (en_now e) i)"

definition hook_disconnect :: "environment \<Rightarrow> int \<Rightarrow> shell_state \<Rightarrow> string option \<times> shell_state" where
  "hook_disconnect e i w =
     (case dial e i Disconnecting (Disconnect (en_save e) (en_now e) i) w of
        (r, w') \<Rightarrow> (r, w'\<lparr>sh_latency := (sh_latency w')(i := None)\<rparr>))"

text \<open>A deletion that went through is reported as failed when the list cannot be read after it.\<close>

definition hook_remove :: "environment \<Rightarrow> int \<Rightarrow> shell_state \<Rightarrow> string option \<times> shell_state" where
  "hook_remove e i w =
     (case DeleteConnection (en_save e) i (sh_service w) of
        (Inl err, s') \<Rightarrow> (Some (en_message e err), w\<lparr>sh_service := s'\<rparr>)
      | (Inr _, s') \<Rightarrow>
          (let w' = w\<lparr>sh_service := s', sh_errors := (sh_errors w)(i := None)\<rparr>
           in if en_loads e then (None, load e w') else (Some (en_load_error e), w')))"

section \<open>A run over several connections\<close>

definition settle ::
    "environment \<Rightarrow> bulk_action \<Rightarrow> row \<Rightarrow> shell_state \<Rightarrow> string option \<times> shell_state" where
  "settle e action c =
     (case action of BulkDelete \<Rightarrow> hook_remove e (ro_id c) | BulkConnect \<Rightarrow> hook_connect e (ro_id c)
      | BulkDisconnect \<Rightarrow> hook_disconnect e (ro_id c) | BulkTest \<Rightarrow> hook_test e (ro_id c))"

record bulk_run =
  br_done :: nat
  br_succeeded :: nat
  br_failures :: "(string \<times> string) list"
  br_gone :: "string list"
  br_state :: shell_state

text \<open>
  One turn, and the loop: \<open>stop n\<close> is whether a stop was asked for before turn \<open>n\<close>, \<open>others n\<close>
  what the rest of the program did up to it, \<open>env n\<close> what its call meets.
\<close>

definition bulk_turn ::
    "(nat \<Rightarrow> environment) \<Rightarrow> (nat \<Rightarrow> shell_state \<Rightarrow> shell_state) \<Rightarrow> bulk_action \<Rightarrow> string \<Rightarrow>
     bulk_run \<Rightarrow> bulk_run" where
  "bulk_turn env others action key r =
     (let n = br_done r; w = others n (br_state r); r = r\<lparr>br_done := n + 1, br_state := w\<rparr> in
      case find (\<lambda>c. ro_key c = key) (connections w) of
        None \<Rightarrow> r
      | Some c \<Rightarrow>
          if bulkTargets action [c] (sh_pending w) = [] then r
          else (case settle (env n) action c w of
             (Some err, w') \<Rightarrow> r\<lparr>br_failures := br_failures r @ [(ro_name c, err)], br_state := w'\<rparr>
           | (None, w') \<Rightarrow>
               r\<lparr>br_succeeded := br_succeeded r + 1, br_state := w',
                 br_gone := br_gone r @
                   (if action = BulkDisconnect \<or> action = BulkDelete then [ro_key c] else [])\<rparr>))"

fun run_loop ::
    "(nat \<Rightarrow> environment) \<Rightarrow> (nat \<Rightarrow> shell_state \<Rightarrow> shell_state) \<Rightarrow> (nat \<Rightarrow> bool) \<Rightarrow> bulk_action \<Rightarrow>
     string list \<Rightarrow> bulk_run \<Rightarrow> bulk_run" where
  "run_loop env others stop action [] r = r"
| "run_loop env others stop action (k # ks) r =
     (if stop (br_done r) then r
      else run_loop env others stop action ks (bulk_turn env others action k r))"

definition runAll ::
    "(nat \<Rightarrow> environment) \<Rightarrow> (nat \<Rightarrow> shell_state \<Rightarrow> shell_state) \<Rightarrow> (nat \<Rightarrow> bool) \<Rightarrow> bulk_action \<Rightarrow>
     row list \<Rightarrow> shell_state \<Rightarrow> bulk_run" where
  "runAll env others stop action order w =
     run_loop env others stop action (map ro_key order)
       \<lparr>br_done = 0, br_succeeded = 0, br_failures = [], br_gone = [], br_state = w\<rparr>"

text \<open>What the run says when it ends.\<close>

datatype bulk_toast =
    ToastNothing
  | ToastFailed nat nat "string \<times> string"
  | ToastDone nat "nat option"
  | ToastStopped nat

definition bulk_report :: "nat \<Rightarrow> bulk_run \<Rightarrow> bulk_toast" where
  "bulk_report queued r =
     (let left = queued - br_done r; stopped = (if left > 0 then Some left else None) in
      case br_failures r of
        first # _ \<Rightarrow> ToastFailed (length (br_failures r)) (br_succeeded r + length (br_failures r)) first
      | [] \<Rightarrow> if br_succeeded r > 0 then ToastDone (br_succeeded r) stopped
              else case stopped of Some n \<Rightarrow> ToastStopped n | None \<Rightarrow> ToastNothing)"

text \<open>What a start does with a selection: nothing, a refusal that names the profile it keeps, or
  a run in an order; \<open>confirmed\<close> answers the question a delete asks.\<close>

datatype bulk_start = StartNothing | StartKept string | StartRun "row list"

definition bulk_start_of ::
    "bulk_action \<Rightarrow> row list \<Rightarrow> (row list \<Rightarrow> row option \<Rightarrow> bool) \<Rightarrow> shell_state \<Rightarrow> bulk_start" where
  "bulk_start_of action selection confirmed w =
     (let order = bulkTargets action selection (sh_pending w) in
      if action = BulkDelete then
        (case deletePlan order (length (connections w)) of (plan, kept) \<Rightarrow>
           if plan = [] then (case kept of Some c \<Rightarrow> StartKept (ro_name c) | None \<Rightarrow> StartNothing)
           else if confirmed plan kept then StartRun plan else StartNothing)
      else if order = [] then StartNothing else StartRun order)"

section \<open>Rows and stored profiles\<close>

definition loaded :: "shell_state \<Rightarrow> bool" where
  "loaded w \<longleftrightarrow> sh_profiles w = bridge_List (sh_service w)"

lemma shell_row_simps [simp]:
  "ro_key (shell_row w v) = show_int (cv_id v)" "ro_id (shell_row w v) = cv_id v"
  "ro_isDefault (shell_row w v) = cv_isDefault v" "ro_name (shell_row w v) = cv_name v"
  by (simp_all add: shell_row_def toShellConnection_def Let_def)

lemma listed_iff:
  assumes "wf_store (cs_connections s) n"
  shows "v \<in> set (bridge_List s) \<longleftrightarrow> (\<exists>p. stored_at s (cv_id v) = Some p \<and> v = redactConnection p)"
proof -
  have d: "distinct (map fst (cs_connections s))" using assms by (simp add: wf_store_def)
  have "v \<in> set (bridge_List s) \<longleftrightarrow> (\<exists>(i, p) \<in> set (cs_connections s). v = redactConnection p)"
    by (force simp: bridge_List_def GetConnections_def copyConnectionsSorted_def)
  also have "\<dots> \<longleftrightarrow> (\<exists>i p. stored_at s i = Some p \<and> v = redactConnection p)"
    using d by auto
  also have "\<dots> \<longleftrightarrow> (\<exists>p. stored_at s (cv_id v) = Some p \<and> v = redactConnection p)"
    using wf_store_lookup [OF assms] by (metis redact_simps(1))
  finally show ?thesis .
qed

lemma find_row:
  assumes wf: "wf_store (cs_connections (sh_service w)) n" and "loaded w"
    and p: "stored_at (sh_service w) i = Some p"
  shows "find (\<lambda>c. ro_key c = show_int i) (connections w) = Some (shell_row w (redactConnection p))"
proof -
  have id: "cp_id p = i" using wf_store_lookup [OF wf p] by simp
  have "redactConnection p \<in> set (sh_profiles w)"
    using \<open>loaded w\<close> p id by (simp add: loaded_def listed_iff [OF wf])
  then have "shell_row w (redactConnection p) \<in> set (connections w)" by (simp add: connections_def)
  then have "\<exists>c \<in> set (connections w). ro_key c = show_int i"
    by (rule bexI [rotated]) (simp add: id)
  then obtain c where c: "find (\<lambda>c. ro_key c = show_int i) (connections w) = Some c"
    by (cases "find (\<lambda>c. ro_key c = show_int i) (connections w)") (auto simp: find_None_iff)
  then have "c \<in> set (connections w)" "ro_key c = show_int i" by (auto simp: find_Some_iff)
  then obtain v where v: "v \<in> set (sh_profiles w)" "c = shell_row w v" "cv_id v = i"
    by (auto simp: connections_def show_int_inj)
  with \<open>loaded w\<close> p have "v = redactConnection p" by (auto simp: loaded_def listed_iff [OF wf])
  with c v show ?thesis by simp
qed

section \<open>Deleting a selection\<close>

text \<open>Profiles that can be deleted in this order: the default one last, and only with all others.\<close>

definition deletable :: "conn_service \<Rightarrow> int list \<Rightarrow> bool" where
  "deletable s ids \<longleftrightarrow> distinct ids \<and>
     (\<forall>i \<in> set ids. \<exists>p. stored_at s i = Some p \<and>
        (cp_isDefault p \<longrightarrow> last ids = i \<and> set ids = dom (map_of (cs_connections s))))"

lemma DeleteConnection_goes:
  assumes p: "stored_at s i = Some p" and ok: "\<not> cp_isDefault p \<or> length (cs_connections s) = 1"
  shows "fst (DeleteConnection True i s) = Inr () \<and>
    cs_connections (snd (DeleteConnection True i s)) = AList.delete i (cs_connections s)"
proof -
  have "\<not> (AList.delete i (cs_connections s) \<noteq> [] \<and> cp_isDefault p)"
    using ok p by (auto simp: length_Suc_conv split: if_splits)
  with p ok show ?thesis
    by (auto simp: DeleteConnection_def Let_def saveConnections_def)
qed

lemma deletable_step:
  assumes d: "deletable s (i # ids)" and wf: "wf_store (cs_connections s) n"
  obtains p where "stored_at s i = Some p" "\<not> cp_isDefault p \<or> length (cs_connections s) = 1"
    "\<And>s'. cs_connections s' = AList.delete i (cs_connections s) \<Longrightarrow> deletable s' ids"
proof -
  from d obtain p where p: "stored_at s i = Some p"
    and def: "cp_isDefault p \<longrightarrow> last (i # ids) = i \<and> set (i # ids) = dom (map_of (cs_connections s))"
    by (auto simp: deletable_def)
  have last: "last ids \<noteq> i" if "ids \<noteq> []"
    using d that by (auto simp: deletable_def)
  have one: "length (cs_connections s) = 1" if "cp_isDefault p"
  proof -
    have "ids = []" using def that last by (cases ids) auto
    with def that have "fst ` set (cs_connections s) = {i}" by (simp add: dom_map_of_conv_image_fst)
    moreover have "distinct (map fst (cs_connections s))" using wf by (simp add: wf_store_def)
    ultimately show ?thesis using distinct_card [of "map fst (cs_connections s)"] by simp
  qed
  have "deletable s' ids" if s': "cs_connections s' = AList.delete i (cs_connections s)" for s'
    unfolding deletable_def
  proof (intro conjI ballI)
    show "distinct ids" using d by (simp add: deletable_def)
    fix j assume j: "j \<in> set ids"
    with d have ij: "j \<noteq> i" by (auto simp: deletable_def)
    from d j obtain q where q: "stored_at s j = Some q"
      "cp_isDefault q \<longrightarrow> last (i # ids) = j \<and> set (i # ids) = dom (map_of (cs_connections s))"
      by (auto simp: deletable_def)
    have "set ids = dom (map_of (cs_connections s'))" if "cp_isDefault q"
    proof -
      have "dom (map_of (cs_connections s')) = dom (map_of (cs_connections s)) - {i}"
        by (auto simp: s' delete_conv')
      with q(2) that d show ?thesis by (auto simp: deletable_def)
    qed
    with q ij j show "\<exists>p. stored_at s' j = Some p \<and>
        (cp_isDefault p \<longrightarrow> last ids = j \<and> set ids = dom (map_of (cs_connections s')))"
      by (intro exI [of _ q]) (auto simp: s' delete_conv' split: if_splits)
  qed
  with p one that show ?thesis by blast
qed

definition quiet :: "environment \<Rightarrow> bool" where "quiet e \<longleftrightarrow> en_save e \<and> en_loads e"

lemma delete_turn:
  assumes ok: "conn_ok st (sh_service (br_state r))" and l: "loaded (br_state r)"
    and d: "deletable (sh_service (br_state r)) (i # ids)" and e: "quiet (env (br_done r))"
  defines "r' \<equiv> bulk_turn env (\<lambda>_ w. w) BulkDelete (show_int i) r"
  shows "br_failures r' = br_failures r \<and> br_succeeded r' = br_succeeded r + 1 \<and>
    br_gone r' = br_gone r @ [show_int i] \<and> loaded (br_state r') \<and>
    conn_ok st (sh_service (br_state r')) \<and> deletable (sh_service (br_state r')) ids \<and>
    cs_connections (sh_service (br_state r')) =
      AList.delete i (cs_connections (sh_service (br_state r)))"
proof -
  let ?s = "sh_service (br_state r)"
  have wf: "wf_store (cs_connections ?s) (cs_nextID ?s)" using ok by (simp add: conn_ok_def)
  obtain p where p: "stored_at ?s i = Some p" "\<not> cp_isDefault p \<or> length (cs_connections ?s) = 1"
    and rest: "\<And>s'. cs_connections s' = AList.delete i (cs_connections ?s) \<Longrightarrow> deletable s' ids"
    using deletable_step [OF d wf, of thesis] by blast
  have id: "cp_id p = i" using wf_store_lookup [OF wf p(1)] by simp
  obtain s' where del: "DeleteConnection True i ?s = (Inr (), s')"
    and s': "cs_connections s' = AList.delete i (cs_connections ?s)"
    using DeleteConnection_goes [OF p] by (metis prod.collapse)
  have ok': "conn_ok st s'" using DeleteConnection_ok [OF ok, of True i] by (simp add: del)
  have e': "en_save (env (br_done r))" "en_loads (env (br_done r))" using e by (simp_all add: quiet_def)
  show ?thesis
    using rest [OF s'] ok' s' del
    by (simp add: r'_def bulk_turn_def Let_def find_row [OF wf l p(1)] bulkTargets_def settle_def
        hook_remove_def e' id load_def loaded_def)
qed

lemma delete_loop:
  assumes e: "\<And>n. quiet (env n)"
  shows "conn_ok st (sh_service (br_state r)) \<Longrightarrow> loaded (br_state r) \<Longrightarrow>
    deletable (sh_service (br_state r)) ids \<Longrightarrow>
    r' = run_loop env (\<lambda>_ w. w) (\<lambda>_. False) BulkDelete (map show_int ids) r \<Longrightarrow>
    br_failures r' = br_failures r \<and> br_succeeded r' = br_succeeded r + length ids \<and>
    br_gone r' = br_gone r @ map show_int ids \<and> loaded (br_state r') \<and>
    (\<forall>i. stored_at (sh_service (br_state r')) i =
       (if i \<in> set ids then None else stored_at (sh_service (br_state r)) i))"
proof (induction ids arbitrary: r)
  case (Cons i ids)
  note turn = delete_turn [OF Cons.prems(1-3) e]
  let ?r = "bulk_turn env (\<lambda>_ w. w) BulkDelete (show_int i) r"
  from turn Cons.IH [of ?r] Cons.prems(4)
  show ?case by (auto simp: delete_conv')
qed simp

lemma wf_store_default_unique:
  assumes "wf_store m n" and "map_of m i = Some p" "cp_isDefault p" "map_of m j = Some q" "cp_isDefault q"
  shows "i = j"
proof -
  have "m \<noteq> []" using assms(2) by auto
  with assms(1) one_default_unique [of m] assms(2-5) show ?thesis by (auto simp: wf_store_def)
qed

text \<open>The order a delete of rows on screen runs in is such an order.\<close>

lemma plan_deletable:
  assumes wf: "wf_store (cs_connections (sh_service w)) n" and l: "loaded w"
    and sub: "set selection \<subseteq> set (connections w)" and dist: "distinct (map ro_id selection)"
    and plan: "deletePlan selection (length (connections w)) = (order, kept)"
  shows "deletable (sh_service w) (map ro_id order)"
proof -
  let ?s = "sh_service w"
  have row: "\<exists>p. stored_at ?s (ro_id c) = Some p \<and> cp_isDefault p = ro_isDefault c" if "c \<in> set selection" for c
  proof -
    have "c \<in> set (connections w)" using that sub by blast
    then have "c \<in> shell_row w ` set (bridge_List ?s)"
      using l by (simp only: connections_def loaded_def set_map)
    then obtain v where v: "v \<in> set (bridge_List ?s)" "c = shell_row w v" by blast
    from v(1) listed_iff [OF wf, of v] obtain p where p: "stored_at ?s (cv_id v) = Some p" "v = redactConnection p"
      by blast
    have "cv_isDefault v = cp_isDefault p" by (simp add: p(2) redactConnection_def)
    with v p show ?thesis by auto
  qed
  have all: "set (map ro_id selection) = dom (map_of (cs_connections ?s))"
    if "length selection = length (connections w)"
  proof -
    have len: "length (connections w) = length (cs_connections ?s)"
      using l by (simp add: connections_def loaded_def bridge_List_def GetConnections_def
          copyConnectionsSorted_def)
    have "set (map ro_id selection) \<subseteq> dom (map_of (cs_connections ?s))" using row by fastforce
    moreover have "card (dom (map_of (cs_connections ?s))) = length (cs_connections ?s)"
      using wf distinct_card [of "map fst (cs_connections ?s)"]
      by (simp add: wf_store_def dom_map_of_conv_image_fst)
    ultimately show ?thesis
      using that len distinct_card [OF dist] by (intro card_subset_eq) (simp_all add: finite_dom_map_of)
  qed
  let ?plain = "filter (\<lambda>c. \<not> ro_isDefault c) selection"
  have plain: "distinct (map ro_id ?plain)" using dist by (simp add: distinct_map_filter)
  consider "order = ?plain" | d where "d \<in> set selection" "ro_isDefault d"
      "length selection = length (connections w)" "order = ?plain @ [d]"
    using deletePlan_order [OF plan] by blast
  then show ?thesis
  proof cases
    case 1
    with plain row show ?thesis by (force simp: deletable_def)
  next
    case 2
    have other: "c = d" if "c \<in> set selection" "ro_isDefault c" for c
    proof -
      have "\<exists>p q. stored_at ?s (ro_id c) = Some p \<and> cp_isDefault p \<and>
          stored_at ?s (ro_id d) = Some q \<and> cp_isDefault q"
        using row [OF that(1)] row [OF 2(1)] that(2) 2(2) by auto
      then obtain p q where "stored_at ?s (ro_id c) = Some p" "cp_isDefault p"
        "stored_at ?s (ro_id d) = Some q" "cp_isDefault q"
        by blast
      then have "ro_id c = ro_id d" by (rule wf_store_default_unique [OF wf])
      with that(1) 2(1) dist show ?thesis by (auto simp: distinct_map inj_on_def)
    qed
    have "set order = set selection"
      unfolding 2(4) using other 2(1) by auto
    then have ids: "set (map ro_id order) = set (map ro_id selection)" by (simp only: set_map)
    have "ro_id d \<notin> set (map ro_id ?plain)"
      using dist 2(1,2) by (auto simp: distinct_map inj_on_def)
    with plain 2(4) have "distinct (map ro_id order)" by simp
    moreover have "\<exists>p. stored_at ?s i = Some p \<and> (cp_isDefault p \<longrightarrow> last (map ro_id order) = i \<and>
        set (map ro_id order) = dom (map_of (cs_connections ?s)))" if "i \<in> set (map ro_id order)" for i
    proof -
      have "i \<in> ro_id ` set selection" using that ids by simp
      then obtain c where c: "c \<in> set selection" "ro_id c = i" by blast
      with row obtain p where p: "stored_at ?s i = Some p" "cp_isDefault p = ro_isDefault c" by blast
      with c other ids all [OF 2(3)] 2(4) show ?thesis by (intro exI [of _ p]) auto
    qed
    ultimately show ?thesis by (simp add: deletable_def)
  qed
qed

text \<open>C34. A bulk delete that nothing disturbs never meets the refusal the service keeps for the
  default profile: as long as every save and every read of the list succeeds, nobody else changes
  the profiles and the run is not stopped, every connection of the plan goes, in its order, each is
  reported as gone and none as failed, and of the store nothing else is touched, the default
  profile included unless every connection was selected. (What a run reports when it is disturbed
  is stated below.)\<close>

theorem bulk_delete_completes:
  assumes reach: "conn_reachable needs st (sh_service w)" and loaded: "loaded w"
    and onscreen: "set selection \<subseteq> set (connections w)" "distinct (map ro_id selection)"
    and start: "bulk_start_of BulkDelete selection confirmed w = StartRun order"
    and quiet: "\<And>n. quiet (env n)"
  defines "r \<equiv> runAll env (\<lambda>_ w. w) (\<lambda>_. False) BulkDelete order w"
  shows "br_failures r = [] \<and> br_succeeded r = length order \<and> br_gone r = map ro_key order \<and>
    (\<forall>i. stored_at (sh_service (br_state r)) i =
       (if i \<in> ro_id ` set order then None else stored_at (sh_service w) i)) \<and>
    (\<forall>c \<in> set selection. c \<in> set order \<or> ro_isDefault c)"
proof -
  note ok = conn_reachable_ok [OF reach]
  then have wf: "wf_store (cs_connections (sh_service w)) (cs_nextID (sh_service w))"
    by (simp add: conn_ok_def)
  obtain kept where plan: "deletePlan selection (length (connections w)) = (order, kept)"
    using start by (auto simp: bulk_start_of_def bulkTargets_def split: prod.splits if_splits option.splits)
  have del: "deletable (sh_service w) (map ro_id order)"
    by (rule plan_deletable [OF wf loaded onscreen plan])
  have sub: "set order \<subseteq> set selection" "\<forall>c \<in> set selection. c \<in> set order \<or> ro_isDefault c"
    using deletePlan_order [OF plan] by auto
  have keys: "map ro_key order = map show_int (map ro_id order)"
    using sub(1) onscreen(1) by (auto simp: connections_def)
  let ?r0 = "\<lparr>br_done = 0, br_succeeded = 0, br_failures = [], br_gone = [], br_state = w\<rparr>"
  have "r = run_loop env (\<lambda>_ w. w) (\<lambda>_. False) BulkDelete (map show_int (map ro_id order)) ?r0"
    by (simp only: r_def runAll_def keys)
  from delete_loop [where env = env and r = ?r0, OF quiet _ _ _ this, of st] ok loaded del keys sub(2)
  show ?thesis by simp
qed

text \<open>Two profiles, both selected: the default one goes last.\<close>

definition sample_shell :: shell_state where
  "sample_shell = \<lparr>sh_service = sample_service, sh_profiles = bridge_List sample_service,
     sh_pending = (\<lambda>_. None), sh_errors = (\<lambda>_. None), sh_latency = (\<lambda>_. None)\<rparr>"

definition sample_env :: environment where
  "sample_env = \<lparr>en_settings = None, en_save = True, en_reached = True, en_now = ''now'',
     en_latency = ''1ms'', en_loads = True, en_message = (\<lambda>_. ''error''), en_load_error = ''error''\<rparr>"

abbreviation sample_delete :: bulk_run where
  "sample_delete \<equiv> runAll (\<lambda>_. sample_env) (\<lambda>_ w. w) (\<lambda>_. False) BulkDelete
     (rev (connections sample_shell)) sample_shell"

lemma sample_plan:
  "bulk_start_of BulkDelete (connections sample_shell) (\<lambda>_ _. True) sample_shell =
     StartRun (rev (connections sample_shell))"
  "distinct (map ro_id (connections sample_shell))" "map ro_key (rev (connections sample_shell)) = [''5'', ''3'']"
  by code_simp+

theorem bulk_delete_completes_witness:
  "br_failures sample_delete = [] \<and> br_gone sample_delete = [''5'', ''3'']"
proof -
  have "conn_reachable (\<lambda>_. True) None (sh_service sample_shell)" "loaded sample_shell"
    by (simp_all add: sample_shell_def sample_service_reachable loaded_def)
  moreover have "quiet ((\<lambda>_. sample_env) n)" for n :: nat by (simp add: quiet_def sample_env_def)
  ultimately show ?thesis
    using bulk_delete_completes [OF _ _ order_refl sample_plan(2,1), of "\<lambda>_. True" None "\<lambda>_. sample_env"]
      sample_plan(3) by simp
qed

section \<open>What a run reports\<close>

lemma turn_counts:
  "br_done (bulk_turn env others action k r) = br_done r + 1 \<and>
   br_succeeded (bulk_turn env others action k r) + length (br_failures (bulk_turn env others action k r)) \<le>
     br_succeeded r + length (br_failures r) + 1"
  by (simp add: bulk_turn_def Let_def split: option.split prod.split)

lemma loop_counts:
  "r' = run_loop env others stop action ks r \<Longrightarrow>
   br_done r \<le> br_done r' \<and> br_done r' \<le> br_done r + length ks \<and>
   br_succeeded r' + length (br_failures r') + br_done r \<le>
     br_succeeded r + length (br_failures r) + br_done r' \<and>
   (br_done r' < br_done r + length ks \<longrightarrow> stop (br_done r'))"
proof (induction ks arbitrary: r)
  case (Cons k ks)
  show ?case
  proof (cases "stop (br_done r)")
    case False
    have "r' = run_loop env others stop action ks (bulk_turn env others action k r)"
      using Cons.prems False by simp
    from Cons.IH [OF this] turn_counts [of env others action k r] show ?thesis by auto
  qed (use Cons.prems in simp)
qed simp

text \<open>C35. Whatever happens to the connections while a run is under way - rows deleted or dialled from
  elsewhere, calls that fail, a stop - it ends after at most one turn per queued connection, it
  counts no connection twice, it is cut short only by a stop, and it announces success only when
  nothing it tried failed.\<close>

theorem bulk_run_is_accounted_for:
  "br_done (runAll env others stop action order w) \<le> length order \<and>
   br_succeeded (runAll env others stop action order w) +
     length (br_failures (runAll env others stop action order w)) \<le> br_done (runAll env others stop action order w) \<and>
   (br_done (runAll env others stop action order w) = length order \<or>
     stop (br_done (runAll env others stop action order w))) \<and>
   (case bulk_report (length order) (runAll env others stop action order w) of
      ToastDone n left \<Rightarrow> br_failures (runAll env others stop action order w) = [] \<and> 0 < n \<and>
        n = br_succeeded (runAll env others stop action order w)
    | _ \<Rightarrow> True)"
proof -
  let ?r = "runAll env others stop action order w"
  from loop_counts [OF runAll_def [of env others stop action order w]]
  have "br_done ?r \<le> length order \<and> br_succeeded ?r + length (br_failures ?r) \<le> br_done ?r \<and>
    (br_done ?r < length order \<longrightarrow> stop (br_done ?r))" by simp
  moreover have "case bulk_report (length order) ?r of
      ToastDone n left \<Rightarrow> br_failures ?r = [] \<and> 0 < n \<and> n = br_succeeded ?r | _ \<Rightarrow> True"
    by (auto simp: bulk_report_def Let_def split: list.splits option.splits)
  ultimately show ?thesis by (intro conjI) auto
qed

end
