(* ===== verification/Capabilities.thy ===== *)
theory Capabilities
  imports Protocols
begin

text \<open>
  What a connection can do (internal/model/capability.go) and what each driver declares of it
  (internal/driver/*/conn.go). A driver starts from its family's best case and takes back what
  the endpoint did not answer, with the reason; the answers of the endpoint are arguments. The
  contract the drivers owe the window is the locale \<open>declaring_driver\<close>: what is supported is
  never also degraded, and nothing of the best case is dropped in silence.
\<close>

section \<open>Capabilities\<close>

datatype (plugins only: code) capability =
    CapDestinationList | CapDestinationCreate | CapDestinationUpdate
  | CapDestinationDelete | CapPartitions | CapShards
  | CapChannels | CapDestinationPurge | CapDestinationMove
  | CapQueueRebalance | CapStreamTrim | CapSubscriptionList
  | CapSubscriptionCreate | CapSubscriptionDelete | CapSubscriptionLag
  | CapOffsetReset | CapOffsetClone | CapQueueOffset
  | CapSubscriptionPosition | CapSubscriptionRuntime | CapPendingEntries
  | CapPendingAdmin | CapMessageQuery | CapMessageByID
  | CapMessageTrack | CapMessageResend | CapMessageReplay
  | CapMessageLiveTail | CapLiveStream | CapDLQ
  | CapPublish | CapPublishRich | CapEntryPublish
  | CapProducerInspect | CapDelayedDelivery | CapClusterTopology
  | CapDirectory | CapNodeConfig | CapNodeMaintenance
  | CapNodeWritePerm | CapClusterMetrics | CapReassign
  | CapTransactions | CapQuotaList | CapQuotaAdmin
  | CapSlowLog | CapLogDirs | CapClusterCensus
  | CapClientInspect | CapClientClose | CapClusterHealth
  | CapDeadLetterTopology | CapAccessControl | CapAccessDirectory
  | CapAclUsers | CapNamespaceList | CapNamespaceAdmin
  | CapNamespaceLimits | CapIdentityList | CapIdentityAdmin
  | CapIdentityPermissions | CapPolicyList | CapPolicyAdmin
  | CapParameterAdmin | CapDefinitionsExport | CapDefinitionsImport
  | CapReplication | CapStreamClients | CapRouting
  | CapRoutingAdmin | CapConnectionScope

primrec capability_text :: "capability \<Rightarrow> string" where
  "capability_text CapDestinationList = ''destination.list''"
| "capability_text CapDestinationCreate = ''destination.create''"
| "capability_text CapDestinationUpdate = ''destination.update''"
| "capability_text CapDestinationDelete = ''destination.delete''"
| "capability_text CapPartitions = ''destination.partitions''"
| "capability_text CapShards = ''destination.shards''"
| "capability_text CapChannels = ''channel.list''"
| "capability_text CapDestinationPurge = ''destination.purge''"
| "capability_text CapDestinationMove = ''destination.move''"
| "capability_text CapQueueRebalance = ''destination.rebalance''"
| "capability_text CapStreamTrim = ''destination.trim''"
| "capability_text CapSubscriptionList = ''subscription.list''"
| "capability_text CapSubscriptionCreate = ''subscription.create''"
| "capability_text CapSubscriptionDelete = ''subscription.delete''"
| "capability_text CapSubscriptionLag = ''subscription.lag''"
| "capability_text CapOffsetReset = ''subscription.resetOffset''"
| "capability_text CapOffsetClone = ''subscription.cloneOffset''"
| "capability_text CapQueueOffset = ''subscription.queueOffset''"
| "capability_text CapSubscriptionPosition = ''subscription.position''"
| "capability_text CapSubscriptionRuntime = ''subscription.runtime''"
| "capability_text CapPendingEntries = ''message.pending''"
| "capability_text CapPendingAdmin = ''message.pendingAdmin''"
| "capability_text CapMessageQuery = ''message.query''"
| "capability_text CapMessageByID = ''message.byId''"
| "capability_text CapMessageTrack = ''message.track''"
| "capability_text CapMessageResend = ''message.resend''"
| "capability_text CapMessageReplay = ''message.replay''"
| "capability_text CapMessageLiveTail = ''message.liveTail''"
| "capability_text CapLiveStream = ''message.liveStream''"
| "capability_text CapDLQ = ''message.dlq''"
| "capability_text CapPublish = ''message.publish''"
| "capability_text CapPublishRich = ''message.publishRich''"
| "capability_text CapEntryPublish = ''message.publishEntry''"
| "capability_text CapProducerInspect = ''message.producerInspect''"
| "capability_text CapDelayedDelivery = ''message.delayedDelivery''"
| "capability_text CapClusterTopology = ''cluster.topology''"
| "capability_text CapDirectory = ''cluster.directory''"
| "capability_text CapNodeConfig = ''cluster.nodeConfig''"
| "capability_text CapNodeMaintenance = ''cluster.nodeMaintenance''"
| "capability_text CapNodeWritePerm = ''cluster.writePerm''"
| "capability_text CapClusterMetrics = ''cluster.metrics''"
| "capability_text CapReassign = ''destination.reassign''"
| "capability_text CapTransactions = ''transaction.list''"
| "capability_text CapQuotaList = ''quota.list''"
| "capability_text CapQuotaAdmin = ''quota.admin''"
| "capability_text CapSlowLog = ''cluster.slowLog''"
| "capability_text CapLogDirs = ''cluster.logDirs''"
| "capability_text CapClusterCensus = ''cluster.census''"
| "capability_text CapClientInspect = ''client.inspect''"
| "capability_text CapClientClose = ''client.close''"
| "capability_text CapClusterHealth = ''cluster.health''"
| "capability_text CapDeadLetterTopology = ''message.dlqTopology''"
| "capability_text CapAccessControl = ''access.control''"
| "capability_text CapAccessDirectory = ''access.directory''"
| "capability_text CapAclUsers = ''access.aclUsers''"
| "capability_text CapNamespaceList = ''namespace.list''"
| "capability_text CapNamespaceAdmin = ''namespace.admin''"
| "capability_text CapNamespaceLimits = ''namespace.limits''"
| "capability_text CapIdentityList = ''identity.list''"
| "capability_text CapIdentityAdmin = ''identity.admin''"
| "capability_text CapIdentityPermissions = ''identity.permissions''"
| "capability_text CapPolicyList = ''policy.list''"
| "capability_text CapPolicyAdmin = ''policy.admin''"
| "capability_text CapParameterAdmin = ''parameter.admin''"
| "capability_text CapDefinitionsExport = ''definitions.export''"
| "capability_text CapDefinitionsImport = ''definitions.import''"
| "capability_text CapReplication = ''replication.admin''"
| "capability_text CapStreamClients = ''stream.clients''"
| "capability_text CapRouting = ''routing.exchanges''"
| "capability_text CapRoutingAdmin = ''routing.admin''"
| "capability_text CapConnectionScope = ''connection.scope''"

definition all_capabilities :: "capability list" where
  "all_capabilities =
     [
      CapDestinationList, CapDestinationCreate, CapDestinationUpdate, CapDestinationDelete,
      CapPartitions, CapShards, CapChannels, CapDestinationPurge, CapDestinationMove,
      CapQueueRebalance, CapStreamTrim, CapSubscriptionList, CapSubscriptionCreate,
      CapSubscriptionDelete, CapSubscriptionLag, CapOffsetReset, CapOffsetClone,
      CapQueueOffset, CapSubscriptionPosition, CapSubscriptionRuntime, CapPendingEntries,
      CapPendingAdmin, CapMessageQuery, CapMessageByID, CapMessageTrack, CapMessageResend,
      CapMessageReplay, CapMessageLiveTail, CapLiveStream, CapDLQ, CapPublish, CapPublishRich,
      CapEntryPublish, CapProducerInspect, CapDelayedDelivery, CapClusterTopology,
      CapDirectory, CapNodeConfig, CapNodeMaintenance, CapNodeWritePerm, CapClusterMetrics,
      CapReassign, CapTransactions, CapQuotaList, CapQuotaAdmin, CapSlowLog, CapLogDirs,
      CapClusterCensus, CapClientInspect, CapClientClose, CapClusterHealth,
      CapDeadLetterTopology, CapAccessControl, CapAccessDirectory, CapAclUsers,
      CapNamespaceList, CapNamespaceAdmin, CapNamespaceLimits, CapIdentityList,
      CapIdentityAdmin, CapIdentityPermissions, CapPolicyList, CapPolicyAdmin,
      CapParameterAdmin, CapDefinitionsExport, CapDefinitionsImport, CapReplication,
      CapStreamClients, CapRouting, CapRoutingAdmin, CapConnectionScope]"
text \<open>Degraded reasons and caveats are maps in Go and plain objects in the window; both sides read
  them by key only.\<close>

record capabilities =
  cb_supported :: "capability list"
  cb_degraded :: "capability \<Rightarrow> string option"
  cb_caveats :: "capability \<Rightarrow> string option"

definition NewCapabilities :: "capability list \<Rightarrow> capabilities" where
  "NewCapabilities supported =
     \<lparr>cb_supported = supported, cb_degraded = Map.empty, cb_caveats = Map.empty\<rparr>"

definition Has :: "capabilities \<Rightarrow> capability \<Rightarrow> bool" where
  "Has c k \<longleftrightarrow> k \<in> set (cb_supported c)"

definition without :: "capability list \<Rightarrow> capability \<Rightarrow> capability list" where
  "without capabilities unwanted = filter (\<lambda>k. k \<noteq> unwanted) capabilities"

definition WithDegraded :: "capability \<Rightarrow> string \<Rightarrow> capabilities \<Rightarrow> capabilities" where
  "WithDegraded k reason c =
     c\<lparr>cb_supported := filter (\<lambda>x. x \<noteq> k) (cb_supported c),
       cb_degraded := (cb_degraded c)(k := Some reason)\<rparr>"

definition WithCaveat :: "capability \<Rightarrow> string \<Rightarrow> capabilities \<Rightarrow> capabilities" where
  "WithCaveat k caveat c = c\<lparr>cb_caveats := (cb_caveats c)(k := Some caveat)\<rparr>"

text \<open>The loops that degrade a list of capabilities for one reason.\<close>

definition degrade_each :: "capability list \<Rightarrow> string \<Rightarrow> capabilities \<Rightarrow> capabilities" where
  "degrade_each ks reason c = foldl (\<lambda>c k. WithDegraded k reason c) c ks"

section \<open>The best case of each family\<close>

definition rocketmq_capabilities :: "capability list" where
  "rocketmq_capabilities =
     [CapDestinationList, CapDestinationCreate, CapDestinationUpdate, CapDestinationDelete,
      CapPartitions, CapSubscriptionList, CapSubscriptionCreate, CapSubscriptionDelete,
      CapSubscriptionLag, CapOffsetReset, CapOffsetClone, CapQueueOffset,
      CapSubscriptionRuntime, CapMessageQuery, CapMessageByID, CapMessageTrack,
      CapMessageLiveTail, CapMessageResend, CapMessageReplay, CapDLQ, CapPublish,
      CapDelayedDelivery, CapProducerInspect, CapClusterTopology, CapClusterMetrics,
      CapDirectory, CapNodeConfig, CapNodeMaintenance, CapNodeWritePerm, CapAccessControl,
      CapAccessDirectory, CapConnectionScope]"

definition kafka_capabilities :: "capability list" where
  "kafka_capabilities =
     [CapDestinationList, CapDestinationCreate, CapDestinationUpdate, CapDestinationDelete,
      CapPartitions, CapDestinationPurge, CapQueueRebalance, CapReassign, CapSubscriptionList,
      CapSubscriptionDelete, CapSubscriptionLag, CapOffsetReset, CapOffsetClone,
      CapQueueOffset, CapMessageQuery, CapMessageByID, CapMessageLiveTail, CapPublish,
      CapClusterTopology, CapClusterMetrics, CapNodeConfig, CapLogDirs, CapAccessDirectory,
      CapQuotaList, CapQuotaAdmin, CapTransactions]"

definition rabbitmq_capabilities :: "capability list" where
  "rabbitmq_capabilities =
     [CapDestinationList, CapDestinationCreate, CapDestinationDelete, CapDestinationPurge,
      CapDestinationMove, CapQueueRebalance, CapSubscriptionList, CapSubscriptionLag,
      CapMessageQuery, CapDeadLetterTopology, CapPublish, CapPublishRich, CapClusterTopology,
      CapClusterMetrics, CapClusterCensus, CapClientInspect, CapClientClose, CapClusterHealth,
      CapNamespaceList, CapNamespaceAdmin, CapNamespaceLimits, CapIdentityList,
      CapIdentityAdmin, CapIdentityPermissions, CapPolicyList, CapPolicyAdmin,
      CapParameterAdmin, CapDefinitionsExport, CapDefinitionsImport, CapReplication,
      CapStreamClients, CapRouting, CapRoutingAdmin]"

definition pulsar_capabilities :: "capability list" where
  "pulsar_capabilities =
     [CapClusterTopology, CapClusterMetrics, CapNodeConfig, CapClusterHealth, CapNamespaceList,
      CapNamespaceAdmin, CapNamespaceLimits, CapDestinationList, CapDestinationCreate,
      CapDestinationUpdate, CapDestinationDelete, CapPartitions, CapSubscriptionList,
      CapSubscriptionCreate, CapSubscriptionDelete, CapSubscriptionLag, CapSubscriptionRuntime,
      CapOffsetReset, CapMessageQuery, CapMessageByID, CapMessageLiveTail,
      CapDeadLetterTopology, CapPublish, CapDelayedDelivery, CapProducerInspect,
      CapIdentityPermissions]"

definition redis_capabilities :: "capability list" where
  "redis_capabilities =
     [CapDestinationList, CapDestinationCreate, CapDestinationDelete, CapStreamTrim,
      CapSubscriptionList, CapSubscriptionCreate, CapSubscriptionDelete, CapSubscriptionLag,
      CapSubscriptionPosition, CapMessageQuery, CapMessageByID, CapEntryPublish,
      CapPendingEntries, CapPendingAdmin, CapClusterTopology, CapClusterMetrics, CapNodeConfig,
      CapNodeMaintenance, CapSlowLog, CapClientInspect, CapClientClose, CapAclUsers]"

definition mqtt_capabilities :: "capability list" where
  "mqtt_capabilities =
     [CapDestinationList, CapPublish, CapLiveStream, CapClusterTopology, CapClusterMetrics,
      CapClientInspect, CapClientClose]"

definition activemq_capabilities :: "capability list" where
  "activemq_capabilities =
     [CapDestinationList, CapDestinationCreate, CapDestinationDelete, CapDestinationPurge,
      CapDestinationMove, CapSubscriptionList, CapSubscriptionCreate, CapSubscriptionDelete,
      CapSubscriptionLag, CapMessageQuery, CapMessageByID, CapDeadLetterTopology, CapPublish,
      CapPublishRich, CapClusterTopology, CapClusterMetrics, CapNodeConfig, CapClusterCensus,
      CapClientInspect, CapClientClose, CapLiveStream]"

definition nsq_capabilities :: "capability list" where
  "nsq_capabilities =
     [CapDestinationList, CapDestinationCreate, CapDestinationDelete, CapDestinationPurge,
      CapSubscriptionList, CapSubscriptionCreate, CapSubscriptionDelete, CapSubscriptionLag,
      CapPublish, CapDelayedDelivery, CapClusterTopology, CapClusterMetrics, CapNodeConfig,
      CapClientInspect, CapDirectory]"

definition sqs_capabilities :: "capability list" where
  "sqs_capabilities =
     [CapDestinationList, CapDestinationCreate, CapDestinationUpdate, CapDestinationDelete,
      CapDestinationPurge, CapMessageQuery, CapPublish, CapDelayedDelivery,
      CapDeadLetterTopology]"

definition googlepubsub_capabilities :: "capability list" where
  "googlepubsub_capabilities =
     [CapDestinationList, CapDestinationCreate, CapDestinationUpdate, CapDestinationDelete,
      CapSubscriptionList, CapSubscriptionCreate, CapSubscriptionDelete,
      CapSubscriptionPosition, CapOffsetReset, CapMessageQuery, CapPublish,
      CapDeadLetterTopology]"

definition azureservicebus_capabilities :: "capability list" where
  "azureservicebus_capabilities =
     [CapDestinationList, CapDestinationCreate, CapDestinationUpdate, CapDestinationDelete,
      CapSubscriptionList, CapSubscriptionCreate, CapSubscriptionDelete, CapSubscriptionLag,
      CapMessageQuery, CapPublish, CapDelayedDelivery, CapDLQ, CapMessageResend, CapRouting,
      CapRoutingAdmin]"

definition kinesis_capabilities :: "capability list" where
  "kinesis_capabilities =
     [CapDestinationList, CapDestinationCreate, CapDestinationUpdate, CapDestinationDelete,
      CapShards, CapMessageQuery, CapMessageByID, CapPublish, CapSubscriptionList,
      CapSubscriptionCreate, CapSubscriptionDelete]"

definition ibmmq_capabilities :: "capability list" where
  "ibmmq_capabilities =
     [CapDestinationList, CapDestinationCreate, CapDestinationDelete, CapChannels,
      CapMessageQuery, CapMessageByID, CapPublish, CapDeadLetterTopology, CapSubscriptionList,
      CapSubscriptionLag]"

definition solace_capabilities :: "capability list" where
  "solace_capabilities =
     [CapDestinationList, CapDestinationCreate, CapDestinationDelete, CapConnectionScope,
      CapMessageQuery, CapMessageByID, CapPublish, CapDeadLetterTopology, CapRouting,
      CapRoutingAdmin, CapClusterTopology, CapClusterMetrics, CapClientInspect]"

definition protocolCapabilities :: "capability list" where
  "protocolCapabilities =
     [CapPublish, CapLiveStream]"

definition jetStreamCapabilities :: "capability list" where
  "jetStreamCapabilities =
     [CapDestinationList, CapDestinationCreate, CapDestinationUpdate, CapDestinationDelete,
      CapPartitions, CapStreamTrim, CapSubscriptionList, CapSubscriptionCreate,
      CapSubscriptionDelete, CapSubscriptionLag, CapMessageQuery, CapMessageByID,
      CapMessageLiveTail, CapClusterCensus]"

definition clusterCapabilities :: "capability list" where
  "clusterCapabilities =
     [CapClusterTopology, CapClusterMetrics, CapNodeConfig, CapClusterHealth, CapClientInspect,
      CapClientClose, CapNamespaceList]"

definition systemOnlyCapabilities :: "capability list" where
  "systemOnlyCapabilities =
     [CapClientClose]"

definition monitorOnlyCapabilities :: "capability list" where
  "monitorOnlyCapabilities =
     [CapClusterHealth]"

section \<open>What each driver declares\<close>

definition rocketmq_declares :: capabilities where
  "rocketmq_declares = NewCapabilities rocketmq_capabilities"

text \<open>Kafka: the reason the first round trip failed for, and whether the cluster has an
  authorizer (a call that failed counts as none).\<close>

definition kafka_declares :: "string option \<Rightarrow> bool \<Rightarrow> capabilities" where
  "kafka_declares ping directoryEnabled =
     (let c = WithCaveat CapDestinationPurge ''mq.kafka.caveat.truncateKeepsOffsets''
                (NewCapabilities kafka_capabilities)
      in case ping of
           Some reason \<Rightarrow> degrade_each kafka_capabilities reason c
         | None \<Rightarrow>
             if \<not> directoryEnabled
             then WithDegraded CapAccessDirectory ''mq.kafka.degraded.accessControl'' c
             else c)"

text \<open>RabbitMQ: the reason the overview failed for, whether the plugins answered, and the reason
  the data plane failed for.\<close>

definition rabbitmq_dataPlane :: "capability list" where
  "rabbitmq_dataPlane = [CapMessageQuery, CapPublish]"

definition rabbitmq_declares :: "string option \<Rightarrow> bool \<Rightarrow> bool \<Rightarrow> string option \<Rightarrow> capabilities" where
  "rabbitmq_declares overview replication streams dataPlane =
     (let c = WithCaveat CapMessageQuery ''mq.rabbitmq.caveat.browseAltersQueue''
                (NewCapabilities rabbitmq_capabilities)
      in case overview of
           Some reason \<Rightarrow> degrade_each rabbitmq_capabilities reason c
         | None \<Rightarrow>
             (let c1 = (if replication then c
                        else WithDegraded CapReplication ''mq.rabbitmq.degraded.replicationPlugin'' c);
                  c2 = (if streams then c1
                        else WithDegraded CapStreamClients ''mq.rabbitmq.degraded.streamPlugin'' c1)
              in case dataPlane of
                   Some reason \<Rightarrow> degrade_each rabbitmq_dataPlane reason c2
                 | None \<Rightarrow> c2))"

definition pulsar_dataPlane :: "capability list" where
  "pulsar_dataPlane = [CapMessageQuery, CapMessageLiveTail, CapPublish, CapDelayedDelivery]"

definition pulsar_declares :: "string option \<Rightarrow> bool \<Rightarrow> bool \<Rightarrow> capabilities" where
  "pulsar_declares admin loadReport dataPlane =
     (let c = NewCapabilities pulsar_capabilities
      in case admin of
           Some reason \<Rightarrow> degrade_each pulsar_capabilities reason c
         | None \<Rightarrow>
             (let c1 = (if loadReport then c
                        else WithDegraded CapClusterMetrics ''mq.pulsar.degraded.loadReport'' c)
              in if dataPlane then c1
                 else degrade_each pulsar_dataPlane ''mq.pulsar.degraded.dataPlaneUnreachable'' c1))"

definition redis_declares :: "string option \<Rightarrow> capabilities" where
  "redis_declares ping =
     (let c = NewCapabilities redis_capabilities
      in case ping of
           Some reason \<Rightarrow> degrade_each redis_capabilities reason c
         | None \<Rightarrow> c)"

text \<open>MQTT: the reason the management API is not there (blank when it is), and what reading the
  \<open>$SYS\<close> tree came to.\<close>

datatype sys_tree = SysFailed | SysEmpty | SysRead

definition mqtt_declares :: "string \<Rightarrow> sys_tree \<Rightarrow> capabilities" where
  "mqtt_declares management tree =
     (let c = NewCapabilities mqtt_capabilities;
          c1 = (if management \<noteq> ''''
                then WithDegraded CapClientClose management (WithDegraded CapClientInspect management c)
                else c);
          reason = (case tree of SysFailed \<Rightarrow> ''mq.mqtt.degraded.sysRefused''
                     | SysEmpty \<Rightarrow> ''mq.mqtt.degraded.sysSilent'' | SysRead \<Rightarrow> '''')
      in if reason = '''' \<or> management = '''' then c1
         else WithDegraded CapClusterMetrics reason (WithDegraded CapClusterTopology reason c1))"

record nats_tiers =
  tr_jetStream :: bool
  tr_jetStreamReason :: string
  tr_monitor :: bool
  tr_monitorReason :: string
  tr_system :: bool
  tr_systemReason :: string

definition nats_capabilities :: "capability list" where
  "nats_capabilities = protocolCapabilities @ jetStreamCapabilities @ clusterCapabilities"

definition nats_declares :: "nats_tiers \<Rightarrow> capabilities" where
  "nats_declares t =
     (let c = NewCapabilities nats_capabilities;
          c1 = (if tr_jetStream t then c
                else degrade_each jetStreamCapabilities (tr_jetStreamReason t) c)
      in if \<not> tr_system t \<and> \<not> tr_monitor t
         then degrade_each clusterCapabilities (tr_systemReason t) c1
         else
           (let c2 = (if tr_system t then c1
                      else degrade_each systemOnlyCapabilities (tr_systemReason t) c1)
            in if tr_monitor t then c2
               else degrade_each monitorOnlyCapabilities (tr_monitorReason t) c2))"

text \<open>The drivers that write the set out: \<open>without\<close> takes a capability off the supported list and
  the reason is set beside it.\<close>

definition take_back :: "capability \<Rightarrow> string \<Rightarrow> capabilities \<Rightarrow> capabilities" where
  "take_back k reason c =
     c\<lparr>cb_supported := without (cb_supported c) k, cb_degraded := (cb_degraded c)(k := Some reason)\<rparr>"

definition activemq_declares :: "bool \<Rightarrow> string \<Rightarrow> capabilities" where
  "activemq_declares classic amqpReason =
     (let c = NewCapabilities activemq_capabilities;
          c1 = (if classic
                then WithCaveat CapMessageQuery ''mq.activemq.caveat.browseCapped'' c else c)
      in if amqpReason \<noteq> '''' then take_back CapLiveStream amqpReason c1 else c1)"

definition nsq_declares :: "string list \<Rightarrow> capabilities" where
  "nsq_declares lookupd =
     (let c = NewCapabilities nsq_capabilities
      in if length lookupd = 0
         then take_back CapDirectory ''mq.nsq.degraded.lookupdAbsent'' c else c)"

definition sqs_declares :: capabilities where
  "sqs_declares =
     WithCaveat CapMessageQuery ''mq.sqs.caveat.receiveHides'' (NewCapabilities sqs_capabilities)"

definition googlepubsub_declares :: capabilities where
  "googlepubsub_declares =
     \<lparr>cb_supported = googlepubsub_capabilities,
      cb_degraded = [CapSubscriptionLag \<mapsto> ''mq.google-pubsub.degraded.lagInMonitoring''],
      cb_caveats = [CapMessageQuery \<mapsto> ''mq.google-pubsub.caveat.pullDelivers'']\<rparr>"

definition azureservicebus_declares :: "bool \<Rightarrow> capabilities" where
  "azureservicebus_declares emulator =
     (let degraded = (if emulator
            then [CapSubscriptionLag \<mapsto> ''mq.azure-servicebus.degraded.countsNotInEmulator'']
            else Map.empty)
      in \<lparr>cb_supported = filter (\<lambda>k. degraded k = None) azureservicebus_capabilities,
          cb_degraded = degraded, cb_caveats = Map.empty\<rparr>)"

definition kinesis_declares :: capabilities where
  "kinesis_declares =
     \<lparr>cb_supported = kinesis_capabilities,
      cb_degraded = [CapSubscriptionLag \<mapsto> ''mq.kinesis.degraded.positionInDynamo''],
      cb_caveats = [CapMessageQuery \<mapsto> ''mq.kinesis.caveat.readQuota'']\<rparr>"

definition messagingCapabilities :: "capability list" where
  "messagingCapabilities =
     [CapMessageQuery, CapMessageByID, CapPublish, CapDeadLetterTopology,
      CapSubscriptionList, CapSubscriptionLag]"

definition ibmmq_declares :: "string \<Rightarrow> capabilities" where
  "ibmmq_declares messagingReason =
     (let c = NewCapabilities ibmmq_capabilities
      in if messagingReason \<noteq> ''''
         then foldl (\<lambda>c k. take_back k messagingReason c) c messagingCapabilities
         else WithCaveat CapPublish ''mq.ibmmq.caveat.sendQueueOnly''
                (WithCaveat CapMessageQuery ''mq.ibmmq.caveat.browseCharacterOnly'' c))"

definition restCapabilities :: "capability list" where
  "restCapabilities = [CapPublish]"

definition solace_declares :: "string \<Rightarrow> capabilities" where
  "solace_declares restReason =
     (let c = NewCapabilities solace_capabilities;
          c1 = (if restReason \<noteq> ''''
                then foldl (\<lambda>c k. take_back k restReason c) c restCapabilities else c)
      in WithCaveat CapMessageQuery ''mq.solace.caveat.browseNoPayload'' c1)"

section \<open>The contract of a driver\<close>

lemma capability_text_inj: "inj capability_text"
proof -
  have "distinct (map capability_text all_capabilities)"
    by (simp add: all_capabilities_def)
  moreover have "k \<in> set all_capabilities" for k
    by (cases k) (simp_all add: all_capabilities_def)
  ultimately show ?thesis
    by (auto simp: distinct_map inj_on_def)
qed

text \<open>\<open>reported\<close> is what the window can still tell apart from a capability the family lacks.\<close>

definition reported :: "capabilities \<Rightarrow> capability \<Rightarrow> bool" where
  "reported c k \<longleftrightarrow> Has c k \<or> cb_degraded c k \<noteq> None"

definition told_apart :: "capabilities \<Rightarrow> bool" where
  "told_apart c \<longleftrightarrow> (\<forall>k. Has c k \<longrightarrow> cb_degraded c k = None)"

named_theorems declaring "how the operations on a capability set change what is reported"

lemma told_apart_new [declaring]: "told_apart (NewCapabilities ks)"
  by (simp add: told_apart_def NewCapabilities_def)

lemma told_apart_degraded [declaring]: "told_apart c \<Longrightarrow> told_apart (WithDegraded k reason c)"
  by (simp add: told_apart_def WithDegraded_def Has_def)

lemma told_apart_caveat [declaring]: "told_apart (WithCaveat k caveat c) = told_apart c"
  by (simp add: told_apart_def WithCaveat_def Has_def)

lemma take_back_is_degraded [declaring]: "take_back k reason c = WithDegraded k reason c"
  by (simp add: take_back_def WithDegraded_def without_def)

lemma reported_new [declaring]: "reported (NewCapabilities ks) k \<longleftrightarrow> k \<in> set ks"
  by (simp add: reported_def NewCapabilities_def Has_def)

lemma reported_degraded [declaring]: "reported (WithDegraded k reason c) k' \<longleftrightarrow> k' = k \<or> reported c k'"
  by (auto simp: reported_def WithDegraded_def Has_def)

lemma reported_caveat [declaring]: "reported (WithCaveat k caveat c) k' = reported c k'"
  by (simp add: reported_def WithCaveat_def Has_def)

lemma told_apart_each [declaring]: "told_apart c \<Longrightarrow> told_apart (degrade_each ks reason c)"
  by (induction ks arbitrary: c) (simp_all add: degrade_each_def declaring)

lemma reported_each [declaring]: "reported (degrade_each ks reason c) k \<longleftrightarrow> k \<in> set ks \<or> reported c k"
  by (induction ks arbitrary: c) (auto simp: degrade_each_def declaring)

lemma take_back_each [declaring]: "foldl (\<lambda>c k. WithDegraded k reason c) c ks = degrade_each ks reason c"
  by (simp add: degrade_each_def)

locale declaring_driver =
  fixes best :: "capability list" and declares :: "'answer \<Rightarrow> capabilities"
  assumes apart: "told_apart (declares a)"
    and kept: "k \<in> set best \<Longrightarrow> reported (declares a) k"
    and within: "reported (declares a) k \<Longrightarrow> k \<in> set best \<or> k = CapSubscriptionLag"
begin

lemma reports_best: "k \<noteq> CapSubscriptionLag \<Longrightarrow> reported (declares a) k \<longleftrightarrow> k \<in> set best"
  using kept within by blast

lemma reason_or_support: "k \<in> set best \<Longrightarrow> Has (declares a) k \<longleftrightarrow> cb_degraded (declares a) k = None"
  using apart kept [of k a] by (auto simp: told_apart_def reported_def)

end

interpretation rocketmq_driver: declaring_driver rocketmq_capabilities "\<lambda>_::unit. rocketmq_declares"
  by unfold_locales (simp_all add: rocketmq_declares_def declaring)

interpretation kafka_driver:
  declaring_driver kafka_capabilities "\<lambda>(ping, directory). kafka_declares ping directory"
  by unfold_locales
    (auto simp: kafka_declares_def Let_def declaring kafka_capabilities_def split: option.splits if_splits)

interpretation rabbitmq_driver: declaring_driver rabbitmq_capabilities
    "\<lambda>(overview, replication, streams, dataPlane). rabbitmq_declares overview replication streams dataPlane"
  by unfold_locales
    (auto simp: rabbitmq_declares_def Let_def declaring rabbitmq_capabilities_def rabbitmq_dataPlane_def
      split: option.splits if_splits)

interpretation pulsar_driver: declaring_driver pulsar_capabilities
    "\<lambda>(admin, loadReport, dataPlane). pulsar_declares admin loadReport dataPlane"
  by unfold_locales
    (auto simp: pulsar_declares_def Let_def declaring pulsar_capabilities_def pulsar_dataPlane_def
      split: option.splits if_splits)

interpretation redis_driver: declaring_driver redis_capabilities redis_declares
  by unfold_locales
    (auto simp: redis_declares_def Let_def declaring split: option.splits)

interpretation mqtt_driver: declaring_driver mqtt_capabilities
    "\<lambda>(management, tree). mqtt_declares management tree"
  by unfold_locales
    (auto simp: mqtt_declares_def Let_def declaring mqtt_capabilities_def split: if_splits sys_tree.splits)

lemma nats_groups:
  "set jetStreamCapabilities \<subseteq> set nats_capabilities" "set clusterCapabilities \<subseteq> set nats_capabilities"
  "set systemOnlyCapabilities \<subseteq> set nats_capabilities" "set monitorOnlyCapabilities \<subseteq> set nats_capabilities"
  by (auto simp: nats_capabilities_def systemOnlyCapabilities_def monitorOnlyCapabilities_def
      clusterCapabilities_def)

interpretation nats_driver: declaring_driver nats_capabilities nats_declares
  using nats_groups
  by unfold_locales (auto simp: nats_declares_def Let_def declaring split: if_splits)

interpretation activemq_driver: declaring_driver activemq_capabilities
    "\<lambda>(classic, amqpReason). activemq_declares classic amqpReason"
  by unfold_locales
    (auto simp: activemq_declares_def Let_def declaring activemq_capabilities_def split: if_splits)

interpretation nsq_driver: declaring_driver nsq_capabilities nsq_declares
  by unfold_locales (auto simp: nsq_declares_def Let_def declaring nsq_capabilities_def split: if_splits)

interpretation sqs_driver: declaring_driver sqs_capabilities "\<lambda>_::unit. sqs_declares"
  by unfold_locales (simp_all add: sqs_declares_def declaring)

text \<open>The three that write their degraded map out.\<close>

lemma declared_apart:
  "told_apart \<lparr>cb_supported = ks, cb_degraded = d, cb_caveats = v\<rparr> \<longleftrightarrow> (\<forall>k \<in> set ks. d k = None)"
  "reported \<lparr>cb_supported = ks, cb_degraded = d, cb_caveats = v\<rparr> k \<longleftrightarrow> k \<in> set ks \<or> d k \<noteq> None"
  by (auto simp: told_apart_def reported_def Has_def)

interpretation googlepubsub_driver:
  declaring_driver googlepubsub_capabilities "\<lambda>_::unit. googlepubsub_declares"
  by unfold_locales
    (auto simp: googlepubsub_declares_def declared_apart googlepubsub_capabilities_def split: if_splits)

interpretation azureservicebus_driver:
  declaring_driver azureservicebus_capabilities azureservicebus_declares
  by unfold_locales
    (auto simp: azureservicebus_declares_def Let_def declared_apart azureservicebus_capabilities_def
      split: if_splits)

interpretation kinesis_driver: declaring_driver kinesis_capabilities "\<lambda>_::unit. kinesis_declares"
  by unfold_locales
    (auto simp: kinesis_declares_def declared_apart kinesis_capabilities_def split: if_splits)

interpretation ibmmq_driver: declaring_driver ibmmq_capabilities ibmmq_declares
  by unfold_locales
    (auto simp: ibmmq_declares_def Let_def declaring ibmmq_capabilities_def messagingCapabilities_def
      split: if_splits)

interpretation solace_driver: declaring_driver solace_capabilities solace_declares
  by unfold_locales
    (auto simp: solace_declares_def Let_def declaring solace_capabilities_def restCapabilities_def
      split: if_splits)

section \<open>Any connection\<close>

text \<open>What an endpoint of any family answered, and what its driver makes of it.\<close>

datatype endpoint_answer =
    A_RocketMQ
  | A_Kafka "string option" bool
  | A_RabbitMQ "string option" bool bool "string option"
  | A_Pulsar "string option" bool bool
  | A_Redis "string option"
  | A_MQTT string sys_tree
  | A_NATS nats_tiers
  | A_ActiveMQ bool string
  | A_NSQ "string list"
  | A_SQS
  | A_GooglePubSub
  | A_AzureServiceBus bool
  | A_Kinesis
  | A_IBMMQ string
  | A_Solace string

primrec answer_protocol :: "endpoint_answer \<Rightarrow> protocol_id" where
  "answer_protocol A_RocketMQ = P_RocketMQ"
| "answer_protocol (A_Kafka p d) = P_Kafka"
| "answer_protocol (A_RabbitMQ o' r s d) = P_RabbitMQ"
| "answer_protocol (A_Pulsar a l d) = P_Pulsar"
| "answer_protocol (A_Redis p) = P_Redis"
| "answer_protocol (A_MQTT m t) = P_MQTT"
| "answer_protocol (A_NATS t) = P_NATS"
| "answer_protocol (A_ActiveMQ c r) = P_ActiveMQ"
| "answer_protocol (A_NSQ l) = P_NSQ"
| "answer_protocol A_SQS = P_SQS"
| "answer_protocol A_GooglePubSub = P_GooglePubSub"
| "answer_protocol (A_AzureServiceBus e) = P_AzureServiceBus"
| "answer_protocol A_Kinesis = P_Kinesis"
| "answer_protocol (A_IBMMQ r) = P_IBMMQ"
| "answer_protocol (A_Solace r) = P_Solace"

primrec connCapabilities :: "endpoint_answer \<Rightarrow> capabilities" where
  "connCapabilities A_RocketMQ = rocketmq_declares"
| "connCapabilities (A_Kafka p d) = kafka_declares p d"
| "connCapabilities (A_RabbitMQ o' r s d) = rabbitmq_declares o' r s d"
| "connCapabilities (A_Pulsar a l d) = pulsar_declares a l d"
| "connCapabilities (A_Redis p) = redis_declares p"
| "connCapabilities (A_MQTT m t) = mqtt_declares m t"
| "connCapabilities (A_NATS t) = nats_declares t"
| "connCapabilities (A_ActiveMQ c r) = activemq_declares c r"
| "connCapabilities (A_NSQ l) = nsq_declares l"
| "connCapabilities A_SQS = sqs_declares"
| "connCapabilities A_GooglePubSub = googlepubsub_declares"
| "connCapabilities (A_AzureServiceBus e) = azureservicebus_declares e"
| "connCapabilities A_Kinesis = kinesis_declares"
| "connCapabilities (A_IBMMQ r) = ibmmq_declares r"
| "connCapabilities (A_Solace r) = solace_declares r"

primrec best_case :: "protocol_id \<Rightarrow> capability list" where
  "best_case P_RocketMQ = rocketmq_capabilities"
| "best_case P_Kafka = kafka_capabilities"
| "best_case P_RabbitMQ = rabbitmq_capabilities"
| "best_case P_Pulsar = pulsar_capabilities"
| "best_case P_Redis = redis_capabilities"
| "best_case P_MQTT = mqtt_capabilities"
| "best_case P_NATS = nats_capabilities"
| "best_case P_ActiveMQ = activemq_capabilities"
| "best_case P_NSQ = nsq_capabilities"
| "best_case P_SQS = sqs_capabilities"
| "best_case P_GooglePubSub = googlepubsub_capabilities"
| "best_case P_AzureServiceBus = azureservicebus_capabilities"
| "best_case P_Kinesis = kinesis_capabilities"
| "best_case P_IBMMQ = ibmmq_capabilities"
| "best_case P_Solace = solace_capabilities"

lemma any_driver_apart: "told_apart (connCapabilities a)"
  using rocketmq_driver.apart kafka_driver.apart [of "(p, d)" for p d] rabbitmq_driver.apart [of "(o1, r, s, d)" for o1 r s d] pulsar_driver.apart [of "(x, l, d)" for x l d]
    redis_driver.apart mqtt_driver.apart [of "(m, t)" for m t] nats_driver.apart activemq_driver.apart [of "(c, r)" for c r] nsq_driver.apart
    sqs_driver.apart googlepubsub_driver.apart azureservicebus_driver.apart kinesis_driver.apart
    ibmmq_driver.apart solace_driver.apart
  by (cases a) simp_all

lemma any_driver_reports:
  assumes "k \<noteq> CapSubscriptionLag"
  shows "reported (connCapabilities a) k \<longleftrightarrow> k \<in> set (best_case (answer_protocol a))"
  using assms rocketmq_driver.reports_best kafka_driver.reports_best [of k "(p, d)" for p d] rabbitmq_driver.reports_best [of k "(o1, r, s, d)" for o1 r s d]
    pulsar_driver.reports_best [of k "(x, l, d)" for x l d] redis_driver.reports_best mqtt_driver.reports_best [of k "(m, t)" for m t]
    nats_driver.reports_best activemq_driver.reports_best [of k "(c, r)" for c r] nsq_driver.reports_best
    sqs_driver.reports_best googlepubsub_driver.reports_best azureservicebus_driver.reports_best
    kinesis_driver.reports_best ibmmq_driver.reports_best solace_driver.reports_best
  by (cases a) simp_all

end
