(* ===== verification/Navigation.thy ===== *)
theory Navigation
  imports Capabilities
begin

text \<open>
  Which pages a connection opens (mq/navigation.ts), and the three places that ask: the sidebar
  (design/shell/Sidebar.tsx), the command palette (design/shell/CommandPalette.tsx) and the gate
  in front of a board (design/boards/misc/Unavailable.tsx). The lemmas join the table of this
  file to the page lists of design/data/protocols.ts and to what the drivers declare.
\<close>

section \<open>What a page needs\<close>

text \<open>A page asks for one capability or for any of a list.\<close>

definition requires :: "(string \<times> capability list) list" where
  "requires =
     [(''topics'', [CapDestinationList]),
      (''shards'', [CapShards]),
      (''channels'', [CapChannels]),
      (''consumers'', [CapSubscriptionList]),
      (''exchanges'', [CapRouting]),
      (''messages'', [CapMessageQuery]),
      (''subscribe'', [CapLiveStream]),
      (''dlq'', [CapDLQ, CapDeadLetterTopology, CapPendingEntries]),
      (''vhosts'', [CapNamespaceList]),
      (''policies'', [CapPolicyList]),
      (''definitions'', [CapDefinitionsExport]),
      (''replication'', [CapReplication]),
      (''quotas'', [CapQuotaList]),
      (''producer'', [CapPublish, CapEntryPublish]),
      (''clients'', [CapClientInspect]),
      (''cluster'', [CapClusterTopology]),
      (''acl'', [CapAccessControl, CapIdentityList, CapAccessDirectory, CapIdentityPermissions,
        CapAclUsers]),
      (''alerts'', [CapClusterMetrics, CapDestinationList])]"

definition alwaysAvailable :: "string list" where
  "alwaysAvailable = [''home'', ''connections'', ''settings'', ''github'']"

text \<open>What the window holds of a connection's capabilities (mq/capabilities.ts).\<close>

record capability_state =
  cs_capabilities :: capabilities
  cs_loading :: bool

definition has :: "capability_state \<Rightarrow> capability \<Rightarrow> bool" where
  "has c k \<longleftrightarrow> k \<in> set (cb_supported (cs_capabilities c))"

definition degradedReason :: "capability_state \<Rightarrow> capability \<Rightarrow> string option" where
  "degradedReason c k = cb_degraded (cs_capabilities c) k"

section \<open>Availability\<close>

definition asked :: "string \<Rightarrow> capability list" where
  "asked i = (case map_of requires i of None \<Rightarrow> [] | Some wanted \<Rightarrow> wanted)"

definition known :: "capability_state \<Rightarrow> string \<Rightarrow> capability option" where
  "known c i = find (\<lambda>k. has c k \<or> degradedReason c k \<noteq> None) (asked i)"

definition nav_unknown :: "capability_state \<Rightarrow> bool \<Rightarrow> bool" where
  "nav_unknown c online \<longleftrightarrow> \<not> online \<or> cs_loading c"

definition nav_visible :: "capability_state \<Rightarrow> bool \<Rightarrow> string \<Rightarrow> bool" where
  "nav_visible c online i \<longleftrightarrow>
     i \<in> set alwaysAvailable \<or> asked i = [] \<or> nav_unknown c online \<or> known c i \<noteq> None"

definition nav_disabled :: "capability_state \<Rightarrow> bool \<Rightarrow> string \<Rightarrow> bool" where
  "nav_disabled c online i \<longleftrightarrow>
     i \<notin> set alwaysAvailable \<and> asked i \<noteq> [] \<and> \<not> nav_unknown c online \<and>
     \<not> list_ex (has c) (asked i)"

definition nav_reason :: "capability_state \<Rightarrow> string \<Rightarrow> string option" where
  "nav_reason c i = (case known c i of Some k \<Rightarrow> degradedReason c k | None \<Rightarrow> None)"

section \<open>Where it is asked\<close>

text \<open>An entry of the sidebar as it is drawn: whether it is marked as limited, and the reason its
  hint gives. A group without a visible entry is not drawn.\<close>

record sidebar_entry =
  sb_page :: page_id
  sb_limited :: bool
  sb_reason :: "string option"

definition sidebarEntry :: "capability_state \<Rightarrow> bool \<Rightarrow> page_id \<Rightarrow> sidebar_entry" where
  "sidebarEntry c online i =
     (let limited = nav_disabled c online (page_text i)
      in \<lparr>sb_page = i, sb_limited = limited,
          sb_reason = (if limited then nav_reason c (page_text i) else None)\<rparr>)"

definition sidebarGroups ::
    "capability_state \<Rightarrow> bool \<Rightarrow> protocol_id \<Rightarrow> (string option \<times> sidebar_entry list) list" where
  "sidebarGroups c online p =
     filter (\<lambda>(_, items). items \<noteq> [])
       (map (\<lambda>g. (ng_label g,
           map (sidebarEntry c online)
             (filter (\<lambda>i. nav_visible c online (page_text i)) (map ne_id (ng_items g)))))
         (pt_nav (PROTOCOLS p)))"

definition palettePages :: "capability_state \<Rightarrow> bool \<Rightarrow> protocol_id \<Rightarrow> page_id list" where
  "palettePages c online p =
     concat (map (\<lambda>g. filter (\<lambda>i. nav_visible c online (page_text i)) (map ne_id (ng_items g)))
       (pt_nav (PROTOCOLS p)))"

text \<open>The gate draws the board unless the page is disabled with a reason, which it draws instead.\<close>

definition pageGate :: "capability_state \<Rightarrow> bool \<Rightarrow> string \<Rightarrow> string option" where
  "pageGate c online page = (if nav_disabled c online page then nav_reason c page else None)"

section \<open>Coherence\<close>

lemma known_iff: "known c i \<noteq> None \<longleftrightarrow> (\<exists>k \<in> set (asked i). has c k \<or> degradedReason c k \<noteq> None)"
  by (auto simp: known_def find_None_iff)

lemma known_Some: "known c i = Some k \<Longrightarrow> k \<in> set (asked i) \<and> (has c k \<or> degradedReason c k \<noteq> None)"
  by (auto simp: known_def find_Some_iff)

text \<open>A page that is drawn as limited always has a reason to give.\<close>

lemma limited_has_reason:
  assumes "nav_visible c online i" and "nav_disabled c online i"
  shows "nav_reason c i \<noteq> None"
proof -
  obtain k where k: "known c i = Some k" using assms by (auto simp: nav_visible_def nav_disabled_def)
  then have "\<not> has c k" using known_Some [OF k] assms(2) by (auto simp: nav_disabled_def list_ex_iff)
  then show ?thesis using k known_Some [OF k] by (simp add: nav_reason_def)
qed

lemma unknown_shows_all:
  assumes "nav_unknown c online"
  shows "nav_visible c online i" "\<not> nav_disabled c online i" "pageGate c online i = None"
  using assms by (simp_all add: nav_visible_def nav_disabled_def pageGate_def)

lemma drawn_groups:
  "concat (map (\<lambda>x. map f (snd x)) (filter (\<lambda>(_, items). items \<noteq> []) gs)) =
   concat (map (\<lambda>x. map f (snd x)) gs)"
  by (induction gs) auto

text \<open>The palette offers the pages the sidebar draws, in the same order.\<close>

lemma palette_follows_sidebar:
  "palettePages c online p = map sb_page (concat (map snd (sidebarGroups c online p)))"
  by (simp add: palettePages_def sidebarGroups_def map_concat comp_def sidebarEntry_def Let_def
      drawn_groups)

section \<open>The sidebar of a family\<close>

text \<open>A capability set is asked about as a driver declared it.\<close>

definition answered :: "endpoint_answer \<Rightarrow> capability_state" where
  "answered a = \<lparr>cs_capabilities = connCapabilities a, cs_loading = False\<rparr>"

lemma answered_known:
  "has (answered a) k \<or> degradedReason (answered a) k \<noteq> None \<longleftrightarrow> reported (connCapabilities a) k"
  by (simp add: has_def degradedReason_def answered_def reported_def Has_def)

lemma lag_opens_nothing: "CapSubscriptionLag \<notin> set (asked i)"
  by (simp add: asked_def requires_def)

lemma visible_of_best_case:
  "nav_visible (answered a) True i \<longleftrightarrow> i \<in> set alwaysAvailable \<or> asked i = [] \<or>
     (\<exists>k \<in> set (asked i). k \<in> set (best_case (answer_protocol a)))"
proof -
  have "known (answered a) i \<noteq> None \<longleftrightarrow> (\<exists>k \<in> set (asked i). k \<in> set (best_case (answer_protocol a)))"
    using lag_opens_nothing [of i] any_driver_reports [of _ a]
    unfolding known_iff answered_known by metis
  then show ?thesis by (simp add: nav_visible_def nav_unknown_def answered_def)
qed

lemmas best_cases =
  rocketmq_capabilities_def kafka_capabilities_def rabbitmq_capabilities_def pulsar_capabilities_def
  redis_capabilities_def mqtt_capabilities_def nats_capabilities_def protocolCapabilities_def
  jetStreamCapabilities_def clusterCapabilities_def activemq_capabilities_def nsq_capabilities_def
  sqs_capabilities_def googlepubsub_capabilities_def azureservicebus_capabilities_def
  kinesis_capabilities_def ibmmq_capabilities_def solace_capabilities_def

definition all_pages :: "page_id list" where
  "all_pages =
     [Page_overview, Page_topics, Page_shards, Page_channels, Page_exchanges, Page_vhosts,
      Page_policies, Page_definitions, Page_replication, Page_quotas, Page_consumers,
      Page_messages, Page_dlq, Page_producer, Page_subscribe, Page_clients, Page_cluster,
      Page_alerts, Page_acl]"

lemma all_pages_complete: "i \<in> set all_pages"
  by (cases i) (simp_all add: all_pages_def)

definition opened_by :: "protocol_id \<Rightarrow> page_id list" where
  "opened_by p =
     filter (\<lambda>i. asked (page_text i) = [] \<or> list_ex (\<lambda>k. k \<in> set (best_case p)) (asked (page_text i)))
       all_pages"

lemma asked_pages:
  "asked (page_text Page_overview) = []"
  "asked (page_text Page_topics) = [CapDestinationList]"
  "asked (page_text Page_shards) = [CapShards]"
  "asked (page_text Page_channels) = [CapChannels]"
  "asked (page_text Page_exchanges) = [CapRouting]"
  "asked (page_text Page_vhosts) = [CapNamespaceList]"
  "asked (page_text Page_policies) = [CapPolicyList]"
  "asked (page_text Page_definitions) = [CapDefinitionsExport]"
  "asked (page_text Page_replication) = [CapReplication]"
  "asked (page_text Page_quotas) = [CapQuotaList]"
  "asked (page_text Page_consumers) = [CapSubscriptionList]"
  "asked (page_text Page_messages) = [CapMessageQuery]"
  "asked (page_text Page_dlq) = [CapDLQ, CapDeadLetterTopology, CapPendingEntries]"
  "asked (page_text Page_producer) = [CapPublish, CapEntryPublish]"
  "asked (page_text Page_subscribe) = [CapLiveStream]"
  "asked (page_text Page_clients) = [CapClientInspect]"
  "asked (page_text Page_cluster) = [CapClusterTopology]"
  "asked (page_text Page_alerts) = [CapClusterMetrics, CapDestinationList]"
  "asked (page_text Page_acl) = [CapAccessControl, CapIdentityList, CapAccessDirectory,
     CapIdentityPermissions, CapAclUsers]"
  by (simp_all add: asked_def requires_def)

lemmas protocol_defs =
  rocketmq_protocol_def kafka_protocol_def rabbitmq_protocol_def pulsar_protocol_def
  redis_protocol_def mqtt_protocol_def nats_protocol_def activemq_protocol_def nsq_protocol_def
  sqs_protocol_def googlepubsub_protocol_def azureservicebus_protocol_def kinesis_protocol_def
  ibmmq_protocol_def solace_protocol_def

lemma page_not_standalone: "page_text i \<notin> set alwaysAvailable"
  by (cases i) (simp_all add: alwaysAvailable_def)

lemma listed_is_opened:
  "set (opened_by p) = set (pagesOf p) \<union> (if p = P_RabbitMQ then {Page_clients} else {})"
  by (cases p)
    (simp_all del: page_text.simps
      add: opened_by_def all_pages_def asked_pages best_cases pagesOf_def protocol_defs, auto)

lemma pages_drawn:
  "palettePages c online p = filter (\<lambda>i. nav_visible c online (page_text i)) (pagesOf p)"
  by (simp add: palettePages_def pagesOf_def filter_concat comp_def)

lemma sidebar_entries:
  assumes "(l, items) \<in> set (sidebarGroups c online p)" and "e \<in> set items"
  shows "\<exists>i. e = sidebarEntry c online i \<and> nav_visible c online (page_text i)"
  using assms by (auto simp: sidebarGroups_def)

lemma visible_pages:
  "nav_visible (answered a) True (page_text i) \<longleftrightarrow>
     i \<in> set (pagesOf (answer_protocol a)) \<or> answer_protocol a = P_RabbitMQ \<and> i = Page_clients"
proof -
  have "nav_visible (answered a) True (page_text i) \<longleftrightarrow> i \<in> set (opened_by (answer_protocol a))"
    using page_not_standalone [of i] all_pages_complete [of i]
    by (simp add: visible_of_best_case opened_by_def list_ex_iff Bex_def)
  then show ?thesis
    using listed_is_opened [of "answer_protocol a"] by (auto split: if_splits)
qed

lemma sidebar_of_answer: "palettePages (answered a) True (answer_protocol a) = pagesOf (answer_protocol a)"
  by (simp add: pages_drawn filter_id_conv visible_pages)

text \<open>C33. Whatever an endpoint answered when it was dialled, the sidebar draws every page of its
  family's list, and of the pages the list leaves out a driver opens none (RabbitMQ's client
  connections apart, which it reports and the list does not name); an entry is marked as limited
  exactly when there is a reason to give for it.\<close>

theorem sidebar_fits_the_family:
  "(\<forall>i. nav_visible (answered a) True (page_text i) \<longleftrightarrow>
     i \<in> set (pagesOf (answer_protocol a)) \<or> answer_protocol a = P_RabbitMQ \<and> i = Page_clients) \<and>
   palettePages (answered a) True (answer_protocol a) = pagesOf (answer_protocol a) \<and>
   list_all (\<lambda>(_, items). list_all (\<lambda>e. sb_limited e = (sb_reason e \<noteq> None)) items)
     (sidebarGroups (answered a) True (answer_protocol a))"
proof -
  let ?p = "answer_protocol a"

  have marked: "sb_limited e = (sb_reason e \<noteq> None)"
    if "(l, items) \<in> set (sidebarGroups (answered a) True ?p)" and "e \<in> set items" for l items e
  proof -
    from sidebar_entries [OF that] obtain i
      where i: "e = sidebarEntry (answered a) True i" "nav_visible (answered a) True (page_text i)"
      by blast
    show ?thesis using limited_has_reason [OF i(2)] by (simp add: i(1) sidebarEntry_def Let_def)
  qed
  have "list_all (\<lambda>(_, items). list_all (\<lambda>e. sb_limited e = (sb_reason e \<noteq> None)) items)
      (sidebarGroups (answered a) True ?p)"
    unfolding list_all_iff using marked by blast
  then show ?thesis using visible_pages sidebar_of_answer by blast
qed

end
