(* ===== verification/CapabilityScope.thy ===== *)
theory CapabilityScope
  imports Navigation
begin

text \<open>
  The capabilities the window holds for the tab in front (\<open>useCapabilityState\<close> of
  mq/capabilities.ts). The provider stays mounted while tabs change, so one effect follows the
  connection in scope: it asks Go, and what it holds is replaced when an answer lands. Changes of
  scope and answers interleave as they like; the relation below allows every order.
\<close>

section \<open>The effect\<close>

text \<open>\<open>cp_cancelled\<close> is the ref that the cleanup of one run sets and the next run clears;
  \<open>cp_asked\<close> are the requests under way, each with the connection it was made for.\<close>

record capability_scope =
  cp_id :: int
  cp_online :: bool
  cp_capabilities :: capabilities
  cp_loading :: bool
  cp_cancelled :: bool
  cp_asked :: "int list"

definition empty_capabilities :: capabilities where
  "empty_capabilities = NewCapabilities []"

definition asks :: "int \<Rightarrow> bool \<Rightarrow> bool" where
  "asks i online \<longleftrightarrow> \<not> (i = 0 \<or> \<not> online)"

definition run_effect :: "int \<Rightarrow> bool \<Rightarrow> capability_scope \<Rightarrow> capability_scope" where
  "run_effect i online s =
     (let s' = s\<lparr>cp_id := i, cp_online := online, cp_cancelled := False, cp_loading := True\<rparr>
      in if \<not> asks i online
         then s'\<lparr>cp_capabilities := empty_capabilities, cp_loading := False\<rparr>
         else s'\<lparr>cp_asked := i # cp_asked s'\<rparr>)"

text \<open>Only a run that asked returned a cleanup.\<close>

definition run_cleanup :: "capability_scope \<Rightarrow> capability_scope" where
  "run_cleanup s = (if asks (cp_id s) (cp_online s) then s\<lparr>cp_cancelled := True\<rparr> else s)"

definition mounted :: "int \<Rightarrow> bool \<Rightarrow> capability_scope" where
  "mounted i online =
     run_effect i online
       \<lparr>cp_id = i, cp_online = online, cp_capabilities = empty_capabilities, cp_loading = True,
        cp_cancelled = False, cp_asked = []\<rparr>"

definition rescope :: "int \<Rightarrow> bool \<Rightarrow> capability_scope \<Rightarrow> capability_scope" where
  "rescope i online s =
     (if i = cp_id s \<and> online = cp_online s then s else run_effect i online (run_cleanup s))"

text \<open>An answer for a connection lands; \<open>None\<close> is a request that failed.\<close>

definition answer :: "int \<Rightarrow> capabilities option \<Rightarrow> capability_scope \<Rightarrow> capability_scope" where
  "answer i r s =
     (let s' = s\<lparr>cp_asked := remove1 i (cp_asked s)\<rparr>
      in if cp_cancelled s then s'
         else s'\<lparr>cp_capabilities := (case r of Some c \<Rightarrow> c | None \<Rightarrow> empty_capabilities),
                 cp_loading := False\<rparr>)"

definition shown_state :: "capability_scope \<Rightarrow> capability_state" where
  "shown_state s = \<lparr>cs_capabilities = cp_capabilities s, cs_loading = cp_loading s\<rparr>"

section \<open>Every order of events\<close>

text \<open>\<open>of_conn\<close> is what Go answers for a connection. The flag records whether the scope ever
  changed while a request was under way.\<close>

inductive scope_reachable :: "(int \<Rightarrow> capabilities) \<Rightarrow> bool \<Rightarrow> capability_scope \<Rightarrow> bool"
  for of_conn where
  scope_mounted: "scope_reachable of_conn False (mounted i online)"
| scope_changed: "scope_reachable of_conn crossed s \<Longrightarrow>
    scope_reachable of_conn (crossed \<or> cp_asked s \<noteq> []) (rescope i online s)"
| scope_answered: "scope_reachable of_conn crossed s \<Longrightarrow> i \<in> set (cp_asked s) \<Longrightarrow>
    r = None \<or> r = Some (of_conn i) \<Longrightarrow> scope_reachable of_conn crossed (answer i r s)"

inductive_cases scope_reachableE: "scope_reachable of_conn crossed s"

lemmas scope_defs = run_effect_def run_cleanup_def mounted_def rescope_def answer_def asks_def Let_def

text \<open>What is shown once nothing is awaited, when no answer was ever overtaken.\<close>

definition in_step :: "(int \<Rightarrow> capabilities) \<Rightarrow> capability_scope \<Rightarrow> bool" where
  "in_step of_conn s \<longleftrightarrow>
     \<not> cp_cancelled s \<and>
     (if cp_loading s then asks (cp_id s) (cp_online s) \<and> cp_asked s = [cp_id s]
      else cp_asked s = [] \<and>
        (cp_capabilities s = empty_capabilities \<or>
         asks (cp_id s) (cp_online s) \<and> cp_capabilities s = of_conn (cp_id s)))"

lemma in_step_mounted: "in_step of_conn (mounted i online)"
  by (simp add: in_step_def scope_defs)

lemma in_step_changed: "in_step of_conn s \<Longrightarrow> cp_asked s = [] \<Longrightarrow> in_step of_conn (rescope i online s)"
  by (auto simp: in_step_def scope_defs)

lemma in_step_answered:
  "in_step of_conn s \<Longrightarrow> i \<in> set (cp_asked s) \<Longrightarrow> r = None \<or> r = Some (of_conn i) \<Longrightarrow>
   in_step of_conn (answer i r s)"
  by (auto simp: in_step_def scope_defs split: if_splits)

lemma in_step_reachable: "scope_reachable of_conn crossed s \<Longrightarrow> \<not> crossed \<Longrightarrow> in_step of_conn s"
  by (induction rule: scope_reachable.induct)
    (auto intro: in_step_mounted in_step_changed in_step_answered)

text \<open>Whatever the order, nothing is invented.\<close>

lemma shown_was_answered:
  "scope_reachable of_conn crossed s \<Longrightarrow>
   cp_capabilities s = empty_capabilities \<or> (\<exists>i. cp_capabilities s = of_conn i)"
  by (induction rule: scope_reachable.induct) (auto simp: scope_defs split: if_splits)

text \<open>C32. As long as no answer is overtaken by a change of tab, the pages offered are those of the
  connection in front: while its answer is awaited all of its family's, and afterwards all again,
  unless the request failed or nothing is dialled.\<close>

theorem pages_follow_the_tab:
  assumes reach: "scope_reachable of_conn False s"
    and dialled: "asks (cp_id s) (cp_online s)" and answers: "of_conn (cp_id s) = connCapabilities a"
    and some: "cp_capabilities s \<noteq> empty_capabilities \<or> cp_loading s"
  shows "palettePages (shown_state s) (cp_online s) (answer_protocol a) = pagesOf (answer_protocol a)"
proof (cases "cp_loading s")
  case True
  then show ?thesis by (simp add: pages_drawn unknown_shows_all nav_unknown_def shown_state_def)
next
  case False
  then have "shown_state s = answered a"
    using in_step_reachable [OF reach] some answers
    by (auto simp: in_step_def shown_state_def answered_def)
  moreover have "cp_online s" using dialled by (simp add: asks_def)
  ultimately show ?thesis by (simp add: sidebar_of_answer)
qed

definition sample_conns :: "int \<Rightarrow> capabilities" where
  "sample_conns i = connCapabilities (if i = 1 then A_NSQ [] else A_RocketMQ)"

definition sample_scope :: capability_scope where
  "sample_scope = answer 1 (Some (sample_conns 1)) (mounted 1 True)"

theorem pages_follow_the_tab_witness:
  "palettePages (shown_state sample_scope) True P_NSQ = pagesOf P_NSQ \<and>
   cp_capabilities sample_scope = nsq_declares []"
proof -
  have "scope_reachable sample_conns False sample_scope"
    unfolding sample_scope_def
    by (rule scope_answered [OF scope_mounted]) (simp_all add: scope_defs)
  moreover have fields: "cp_id sample_scope = 1" "cp_online sample_scope"
    "cp_capabilities sample_scope = nsq_declares []" "sample_conns 1 = connCapabilities (A_NSQ [])"
    by (simp_all add: sample_scope_def sample_conns_def scope_defs)
  moreover have "nsq_declares [] \<noteq> empty_capabilities"
    by (auto simp: nsq_declares_def Let_def take_back_def empty_capabilities_def NewCapabilities_def
        dest!: arg_cong [of _ _ cb_degraded] fun_cong [of _ _ CapDirectory])
  ultimately show ?thesis
    using pages_follow_the_tab [of sample_conns sample_scope "A_NSQ []"] by (simp add: asks_def)
qed

section \<open>An answer that comes late\<close>

text \<open>Two tabs, both dialled: the second is opened while the first is awaited, and answered first.\<close>

definition overtaken :: "(int \<Rightarrow> capabilities) \<Rightarrow> capability_scope" where
  "overtaken of_conn =
     answer 1 (Some (of_conn 1)) (answer 2 (Some (of_conn 2)) (rescope 2 True (mounted 1 True)))"

lemma overtaken_reachable: "scope_reachable of_conn True (overtaken of_conn)"
proof -
  have "scope_reachable of_conn True (rescope 2 True (mounted 1 True))"
    using scope_changed [OF scope_mounted, of of_conn 1 True 2 True] by (simp add: scope_defs)
  then show ?thesis
    unfolding overtaken_def
    by (intro scope_answered) (simp_all add: scope_defs)
qed

lemma overtaken_fields:
  "cp_id (overtaken of_conn) = 2" "cp_online (overtaken of_conn)" "cp_asked (overtaken of_conn) = []"
  "\<not> cp_loading (overtaken of_conn)" "cp_capabilities (overtaken of_conn) = of_conn 1"
  by (simp_all add: overtaken_def scope_defs)

text \<open>The answer of a tab that was left behind is not dropped: it can replace the one of the tab
  in front, with nothing left under way to correct it. The sidebar of that tab then hides pages
  its broker has.\<close>

theorem late_answer_hides_pages:
  "(\<forall>of_conn. \<exists>s. scope_reachable of_conn True s \<and> cp_id s = 2 \<and> cp_online s \<and> cp_asked s = [] \<and>
     \<not> cp_loading s \<and> cp_capabilities s = of_conn 1) \<and>
   (\<exists>s. scope_reachable sample_conns True s \<and> cp_asked s = [] \<and> \<not> cp_loading s \<and>
     sample_conns (cp_id s) = connCapabilities A_RocketMQ \<and>
     Page_messages \<in> set (pagesOf P_RocketMQ) \<and>
     Page_messages \<notin> set (palettePages (shown_state s) (cp_online s) P_RocketMQ))"
proof -
  let ?s = "overtaken sample_conns"
  have "shown_state ?s = answered (A_NSQ [])"
    by (simp add: shown_state_def answered_def overtaken_fields sample_conns_def)
  then have "Page_messages \<notin> set (palettePages (shown_state ?s) (cp_online ?s) P_RocketMQ)"
    using visible_pages [of "A_NSQ []" Page_messages]
    by (simp del: page_text.simps add: pages_drawn overtaken_fields pagesOf_def protocol_defs)
  moreover have "Page_messages \<in> set (pagesOf P_RocketMQ)" by (simp add: pagesOf_def protocol_defs)
  moreover have "sample_conns (cp_id ?s) = connCapabilities A_RocketMQ"
    by (simp add: overtaken_fields sample_conns_def)
  moreover have "\<exists>s. scope_reachable of_conn True s \<and> cp_id s = 2 \<and> cp_online s \<and> cp_asked s = [] \<and>
      \<not> cp_loading s \<and> cp_capabilities s = of_conn 1" for of_conn
    using overtaken_reachable overtaken_fields by blast
  ultimately show ?thesis
    using overtaken_reachable overtaken_fields(3,4) by blast
qed

end
