(* ===== verification/WindowSession.thy ===== *)
theory WindowSession
  imports Storage
begin

text \<open>
  The tabs of the window (design/DesignApp.tsx) and what is remembered of them
  (design/data/session.ts): reading a stored session with its sanitising, narrowing it to the
  profiles that loaded, and the operations on the tabs, each followed by the effect that writes
  the session back. A page is kept as its text, unchecked, as the code casts it.
\<close>

section \<open>The stored session\<close>

record shell_session =
  ss_openTabs :: "string list"
  ss_activeTab :: "string option"
  ss_pageByTab :: "(string \<times> string) list"
  ss_navCollapsed :: bool

text \<open>\<open>Partial<ShellSession>\<close>: a member that is absent is \<open>None\<close>.\<close>

record partial_session =
  ps_openTabs :: "string list option"
  ps_activeTab :: "string option"
  ps_pageByTab :: "(string \<times> string) list option"
  ps_navCollapsed :: "bool option"

definition no_session :: partial_session where
  "no_session = \<lparr>ps_openTabs = None, ps_activeTab = None, ps_pageByTab = None, ps_navCollapsed = None\<rparr>"

definition json_strings_of :: "json list \<Rightarrow> string list" where
  "json_strings_of items = List.map_filter (\<lambda>v. case v of JStr s \<Rightarrow> Some s | _ \<Rightarrow> None) items"

definition read_openTabs :: "json \<Rightarrow> string list option" where
  "read_openTabs parsed =
     (case json_member ''openTabs'' parsed of Some (JArr items) \<Rightarrow> Some (json_strings_of items) | _ \<Rightarrow> None)"

text \<open>\<open>Object.entries\<close> of a value whose \<open>typeof\<close> is object; an array has its indices for keys.\<close>

fun json_entries :: "json \<Rightarrow> (string \<times> json) list option" where
  "json_entries (JObj ms) = Some ms"
| "json_entries (JArr items) = Some (zip (map show_nat [0..<length items]) items)"
| "json_entries _ = None"

definition text_entries :: "(string \<times> json) list \<Rightarrow> (string \<times> string) list" where
  "text_entries es = List.map_filter (\<lambda>(k, v). case v of JStr s \<Rightarrow> Some (k, s) | _ \<Rightarrow> None) es"

definition read_pageByTab :: "json \<Rightarrow> (string \<times> string) list option" where
  "read_pageByTab parsed =
     (case json_member ''pageByTab'' parsed of None \<Rightarrow> None
      | Some v \<Rightarrow> map_option (\<lambda>es. obj_from (text_entries es)) (json_entries v))"

definition read_navCollapsed :: "json \<Rightarrow> bool option" where
  "read_navCollapsed parsed = (case json_member ''navCollapsed'' parsed of Some (JBool b) \<Rightarrow> Some b | _ \<Rightarrow> None)"

text \<open>\<open>None\<close> is the exception: the members are read outside the \<open>try\<close>, and \<open>null\<close> has none.\<close>

definition readSession :: "stored \<Rightarrow> partial_session option" where
  "readSession raw =
     (case raw of
        NoItem \<Rightarrow> Some no_session
      | Unparsable \<Rightarrow> Some no_session
      | Parsed JNull \<Rightarrow> None
      | Parsed parsed \<Rightarrow>
          Some \<lparr>ps_openTabs = read_openTabs parsed,
                ps_activeTab = json_text (json_member ''activeTab'' parsed),
                ps_pageByTab = read_pageByTab parsed,
                ps_navCollapsed = read_navCollapsed parsed\<rparr>)"

text \<open>\<open>tabs[0] ?? null\<close>\<close>

definition first_tab :: "string list \<Rightarrow> string option" where
  "first_tab tabs = (if tabs = [] then None else Some (hd tabs))"

lemma first_tab_in: "first_tab ts = Some k \<Longrightarrow> k \<in> set ts"
  by (auto simp: first_tab_def split: if_splits)

lemma first_tab_None [simp]: "first_tab ts = None \<longleftrightarrow> ts = []"
  by (simp add: first_tab_def)

definition restoreSession ::
    "partial_session \<Rightarrow> string list \<Rightarrow> string list \<times> string option \<times> (string \<times> string) list" where
  "restoreSession stored known =
     (let openTabs = filter (\<lambda>k. k \<in> set known) (nullish (ps_openTabs stored) []);
          activeTab = (case ps_activeTab stored of
             Some k \<Rightarrow> if k \<in> set openTabs then Some k else first_tab openTabs
           | None \<Rightarrow> first_tab openTabs);
          pageByTab = obj_from (filter (\<lambda>(k, _). k \<in> set openTabs) (nullish (ps_pageByTab stored) []))
      in (openTabs, activeTab, pageByTab))"

definition session_json :: "shell_session \<Rightarrow> json" where
  "session_json s =
     JObj [(''openTabs'', JArr (map JStr (ss_openTabs s))),
           (''activeTab'', case ss_activeTab s of Some k \<Rightarrow> JStr k | None \<Rightarrow> JNull),
           (''pageByTab'', JObj (map (\<lambda>(k, p). (k, JStr p)) (ss_pageByTab s))),
           (''navCollapsed'', JBool (ss_navCollapsed s))]"

definition writeSession :: "bool \<Rightarrow> shell_session \<Rightarrow> stored \<Rightarrow> stored" where
  "writeSession writable s old = (if writable then Parsed (session_json s) else old)"

section \<open>The window\<close>

datatype window_view = ViewTab | ViewConnections | ViewSettings "string option"

record window =
  wn_session :: partial_session
  wn_tabs :: shell_session
  wn_restored :: bool
  wn_view :: window_view
  wn_previousView :: window_view
  wn_stored :: stored

definition openWindow :: "stored \<Rightarrow> window option" where
  "openWindow raw =
     map_option (\<lambda>p. \<lparr>wn_session = p,
         wn_tabs = \<lparr>ss_openTabs = [], ss_activeTab = None, ss_pageByTab = [],
                    ss_navCollapsed = nullish (ps_navCollapsed p) False\<rparr>,
         wn_restored = False, wn_view = ViewConnections, wn_previousView = ViewTab,
         wn_stored = raw\<rparr>)
       (readSession raw)"

text \<open>The effect that restores, once the profiles have loaded.\<close>

definition restoreTabs :: "string list \<Rightarrow> window \<Rightarrow> window" where
  "restoreTabs known w =
     (if wn_restored w then w
      else case restoreSession (wn_session w) known of (openTabs, activeTab, pageByTab) \<Rightarrow>
        (let w' = w\<lparr>wn_restored := True, wn_tabs := (wn_tabs w)\<lparr>ss_pageByTab := pageByTab\<rparr>\<rparr>
         in if openTabs = [] then w'
            else w'\<lparr>wn_tabs := (wn_tabs w')\<lparr>ss_openTabs := openTabs, ss_activeTab := activeTab\<rparr>,
                    wn_view := ViewTab\<rparr>))"

definition goto :: "window_view \<Rightarrow> window \<Rightarrow> window" where
  "goto v w = w\<lparr>wn_previousView := (if wn_view w = ViewTab then ViewTab else wn_previousView w), wn_view := v\<rparr>"

definition openTab :: "string \<Rightarrow> window \<Rightarrow> window" where
  "openTab key w =
     (let tabs = ss_openTabs (wn_tabs w)
      in w\<lparr>wn_tabs := (wn_tabs w)\<lparr>ss_openTabs := (if key \<in> set tabs then tabs else tabs @ [key]),
             ss_activeTab := Some key\<rparr>,
           wn_view := ViewTab\<rparr>)"

definition closeTab :: "string \<Rightarrow> window \<Rightarrow> window" where
  "closeTab key w =
     (let rest = filter (\<lambda>t. t \<noteq> key) (ss_openTabs (wn_tabs w))
      in w\<lparr>wn_tabs := (wn_tabs w)\<lparr>ss_openTabs := rest,
             ss_activeTab := (if ss_activeTab (wn_tabs w) = Some key
                              then first_tab rest
                              else ss_activeTab (wn_tabs w))\<rparr>,
           wn_view := (if rest = [] then ViewConnections else wn_view w)\<rparr>)"

definition dropTabs :: "string list \<Rightarrow> window \<Rightarrow> window" where
  "dropTabs keys w =
     w\<lparr>wn_tabs := (wn_tabs w)\<lparr>
         ss_openTabs := filter (\<lambda>k. k \<notin> set keys) (ss_openTabs (wn_tabs w)),
         ss_activeTab := (case ss_activeTab (wn_tabs w) of
            Some k \<Rightarrow> if k \<in> set keys then None else Some k | None \<Rightarrow> None)\<rparr>\<rparr>"

definition setPage :: "string \<Rightarrow> string \<Rightarrow> window \<Rightarrow> window" where
  "setPage key page w =
     w\<lparr>wn_tabs := (wn_tabs w)\<lparr>ss_pageByTab := obj_define key page (ss_pageByTab (wn_tabs w))\<rparr>\<rparr>"

definition selectPage :: "string \<Rightarrow> window \<Rightarrow> window" where
  "selectPage page w = (case ss_activeTab (wn_tabs w) of None \<Rightarrow> w | Some key \<Rightarrow> setPage key page w)"

text \<open>The tray names a connection (blank for the tab in front) and a page (blank for the one the
  tab was left on).\<close>

definition trayNavigate :: "string \<Rightarrow> string \<Rightarrow> window \<Rightarrow> window" where
  "trayNavigate conn page w =
     (if page = ''settings'' then goto (ViewSettings None) w
      else
        let key = (if conn \<noteq> '''' then Some conn else ss_activeTab (wn_tabs w))
        in if page = ''connections'' then goto ViewConnections w
           else case key of
               None \<Rightarrow> goto ViewConnections w
             | Some k \<Rightarrow> (if page \<noteq> '''' then setPage k page (openTab k w) else openTab k w))"

definition toggleNav :: "window \<Rightarrow> window" where
  "toggleNav w = w\<lparr>wn_tabs := (wn_tabs w)\<lparr>ss_navCollapsed := \<not> ss_navCollapsed (wn_tabs w)\<rparr>\<rparr>"

text \<open>The effect that writes: after a render in which the tabs or the restoring changed.\<close>

definition persisted :: "bool \<Rightarrow> window \<Rightarrow> window \<Rightarrow> window" where
  "persisted writable before after =
     (if wn_restored after \<and> (wn_tabs after \<noteq> wn_tabs before \<or> \<not> wn_restored before)
      then after\<lparr>wn_stored := writeSession writable (wn_tabs after) (wn_stored after)\<rparr>
      else after)"

section \<open>Every use of a window\<close>

text \<open>\<open>raw\<close> is what was stored when the window opened.\<close>

inductive window_reachable :: "bool \<Rightarrow> stored \<Rightarrow> window \<Rightarrow> bool"
  for writable raw where
  window_opened: "openWindow raw = Some w \<Longrightarrow> window_reachable writable raw w"
| window_restored: "window_reachable writable raw w \<Longrightarrow>
    window_reachable writable raw (persisted writable w (restoreTabs known w))"
| window_used: "window_reachable writable raw w \<Longrightarrow>
    w' \<in> {openTab k w, closeTab k w, dropTabs ks w, selectPage p w, trayNavigate k p w, toggleNav w, goto v w} \<Longrightarrow>
    window_reachable writable raw (persisted writable w w')"

lemmas window_ops = openTab_def closeTab_def dropTabs_def setPage_def selectPage_def toggleNav_def goto_def Let_def

section \<open>What is written reads back\<close>

lemma json_strings_back [simp]: "json_strings_of (map JStr xs) = xs"
  by (simp add: json_strings_of_def List.map_filter_def comp_def)

lemma text_entries_back [simp]: "text_entries (map (\<lambda>(k, p). (k, JStr p)) es) = es"
  by (induction es) (auto simp: text_entries_def List.map_filter_def)


section \<open>The invariant of the tabs\<close>

definition tabs_ok :: "shell_session \<Rightarrow> bool" where
  "tabs_ok s \<longleftrightarrow>
     wf_obj (ss_pageByTab s) \<and>
     (case ss_activeTab s of None \<Rightarrow> True | Some k \<Rightarrow> k \<in> set (ss_openTabs s))"

lemma tabs_ok_operations:
  assumes "tabs_ok (wn_tabs w)"
  shows "tabs_ok (wn_tabs (openTab k w))" "tabs_ok (wn_tabs (closeTab k w))"
    "tabs_ok (wn_tabs (dropTabs ks w))" "tabs_ok (wn_tabs (setPage k p w))"
    "tabs_ok (wn_tabs (toggleNav w))" "tabs_ok (wn_tabs (goto v w))"
  using assms
  by (auto simp: tabs_ok_def window_ops wf_define split: option.splits dest: first_tab_in)

lemma tabs_ok_selectPage: "tabs_ok (wn_tabs w) \<Longrightarrow> tabs_ok (wn_tabs (selectPage p w))"
  by (auto simp: selectPage_def tabs_ok_operations split: option.splits)

lemma tabs_ok_tray: "tabs_ok (wn_tabs w) \<Longrightarrow> tabs_ok (wn_tabs (trayNavigate k p w))"
  by (auto simp: trayNavigate_def Let_def tabs_ok_operations split: option.splits)

lemma restored_active: "restoreSession st known = (ts, a, ps) \<Longrightarrow>
    wf_obj ps \<and> set ts \<subseteq> set known \<and> (case a of None \<Rightarrow> ts = [] | Some k \<Rightarrow> k \<in> set ts) \<and> fst ` set ps \<subseteq> set ts"
proof -
  assume r: "restoreSession st known = (ts, a, ps)"
  have "set ts \<subseteq> set known" using r by (auto simp: restoreSession_def Let_def)
  moreover have ps: "ps = obj_from (filter (\<lambda>(k, _). k \<in> set ts) (nullish (ps_pageByTab st) []))"
    using r by (auto simp: restoreSession_def Let_def)
  moreover have "fst ` set ps \<subseteq> set ts" unfolding ps obj_from_props by auto
  moreover have "wf_obj ps" unfolding ps by (rule obj_from_props)
  moreover have "case a of None \<Rightarrow> ts = [] | Some k \<Rightarrow> k \<in> set ts"
  proof (cases a)
    case None
    then show ?thesis using r
      by (auto simp: restoreSession_def Let_def split: option.splits if_splits)
  next
    case (Some k)
    have ts: "ts = filter (\<lambda>k. k \<in> set known) (nullish (ps_openTabs st) [])"
      and a: "a = (case ps_activeTab st of Some k \<Rightarrow> if k \<in> set ts then Some k else first_tab ts
        | None \<Rightarrow> first_tab ts)"
      using r by (auto simp: restoreSession_def Let_def)
    show ?thesis using Some a first_tab_in [of ts k] by (simp split: option.splits if_splits)
  qed
  ultimately show ?thesis by blast
qed




text \<open>What is stored, once the tabs have been restored and while the storage takes writes.\<close>

definition window_ok :: "bool \<Rightarrow> stored \<Rightarrow> window \<Rightarrow> bool" where
  "window_ok writable raw w \<longleftrightarrow>
     tabs_ok (wn_tabs w) \<and>
     (if wn_restored w \<and> writable then wn_stored w = Parsed (session_json (wn_tabs w))
      else wn_stored w = raw)"

lemma window_ok_persisted:
  assumes "window_ok writable raw w" and "tabs_ok (wn_tabs w')"
    and "wn_stored w' = wn_stored w" and "wn_restored w \<Longrightarrow> wn_restored w'"
    and "wn_restored w' \<Longrightarrow> \<not> wn_restored w \<Longrightarrow> True"
  shows "window_ok writable raw (persisted writable w w')"
  using assms by (auto simp: window_ok_def persisted_def writeSession_def)

lemma tray_frame:
  "wn_stored (trayNavigate k p w) = wn_stored w \<and> wn_restored (trayNavigate k p w) = wn_restored w"
  by (simp add: window_ops trayNavigate_def split: option.splits)

lemma operations_frame:
  assumes "w' \<in> {openTab k w, closeTab k w, dropTabs ks w, selectPage p w, trayNavigate k p w, toggleNav w, goto v w}"
  shows "wn_stored w' = wn_stored w \<and> wn_restored w' = wn_restored w"
  using assms tray_frame [of k p w] by (auto simp: window_ops split: option.splits)

lemma window_ok_reachable:
  "window_reachable writable raw w \<Longrightarrow> window_ok writable raw w"
proof (induction rule: window_reachable.induct)
  case (window_opened w)
  then show ?case by (auto simp: openWindow_def window_ok_def tabs_ok_def)
next
  case (window_restored w known)
  have "tabs_ok (wn_tabs (restoreTabs known w))"
  proof (cases "restoreSession (wn_session w) known")
    case (fields ts a ps)
    then show ?thesis
      using window_restored.IH restored_active [OF fields]
      by (auto simp: restoreTabs_def Let_def window_ok_def tabs_ok_def split: option.splits)
  qed
  then show ?case
    using window_restored.IH
    by (intro window_ok_persisted) (auto simp: restoreTabs_def Let_def split: prod.splits)
next
  case (window_used w w' k ks p v)
  have "tabs_ok (wn_tabs w')"
    using window_used.hyps(2) window_used.IH
    by (auto simp: window_ok_def tabs_ok_operations tabs_ok_selectPage tabs_ok_tray)
  then show ?case
    using window_used.IH operations_frame [OF window_used.hyps(2)] by (intro window_ok_persisted) auto
qed

section \<open>Properties\<close>

text \<open>C23. Whatever text was stored, short of a bare \<open>null\<close>, the window opens; and in every state it
  can get to from there the tab in front is one of the open tabs. A stored \<open>null\<close> is the one value
  it cannot be opened on.\<close>

theorem window_survives_its_storage:
  "(openWindow raw = None \<longleftrightarrow> raw = Parsed JNull) \<and>
   (\<nexists>w k. window_reachable writable raw w \<and> ss_activeTab (wn_tabs w) = Some k \<and>
     k \<notin> set (ss_openTabs (wn_tabs w)))"
proof -
  have "openWindow raw = None \<longleftrightarrow> raw = Parsed JNull"
    by (auto simp: openWindow_def readSession_def split: stored.splits json.splits)
  then show ?thesis
    using window_ok_reachable [of writable raw] by (fastforce simp: window_ok_def tabs_ok_def)
qed





end
