(* ===== verification/RocketTail.thy ===== *)
theory RocketTail
  imports Prelude "HOL-Library.Char_ord" "HOL-Library.List_Lexorder" "HOL-Library.Product_Lexorder" "HOL-Library.Multiset"
begin

text \<open>
  The incremental tail of a RocketMQ topic (\<open>TailMessages\<close> of
  internal/driver/rocketmq/message_tail.go, with the cursor of internal/model/message.go): one
  poll asks every queue where it ends, pulls from those that moved, and hands back what came with
  the cursor for the next poll. The route, the ends and the pulls are the answers of the client
  library and arguments here; what its documentation says of a pull is \<open>pull_documented\<close>.
\<close>

section \<open>Cursor and batch\<close>

text \<open>A queue is named by its broker and its number; \<open>queueKey\<close> joins them with a colon, and the
  number has none, so the pair is as good a key.\<close>

type_synonym queue_key = "string \<times> int"

record queue_position =
  qp_node :: string
  qp_queue :: int
  qp_offset :: int

type_synonym tail_cursor = "queue_position list"

record tail_queue =
  tq_node :: string
  tq_address :: string
  tq_queue :: int

text \<open>Of a message only what the tail reads or is judged by: \<open>tm_node\<close> is the broker it was pulled
  from, which the pull knows and \<open>convertMessageExt\<close> does not keep.\<close>

record tail_message =
  tm_node :: string
  tm_queue :: int
  tm_offset :: int
  tm_storeTimestamp :: int
  tm_body :: string

record tail_batch =
  bt_messages :: "tail_message list"
  bt_cursor :: tail_cursor
  bt_dropped :: int

definition queueKey :: "tail_queue \<Rightarrow> queue_key" where
  "queueKey q = (tq_node q, tq_queue q)"

abbreviation message_key :: "tail_message \<Rightarrow> queue_key" where
  "message_key m \<equiv> (tm_node m, tm_queue m)"

abbreviation position_key :: "queue_position \<Rightarrow> queue_key" where
  "position_key p \<equiv> (qp_node p, qp_queue p)"

abbreviation position_at :: "tail_queue \<Rightarrow> int \<Rightarrow> queue_position" where
  "position_at q n \<equiv> \<lparr>qp_node = tq_node q, qp_queue = tq_queue q, qp_offset = n\<rparr>"

text \<open>Filling the map of known positions: a later entry of a key replaces an earlier one.\<close>

definition known_positions :: "tail_cursor \<Rightarrow> queue_key \<Rightarrow> int option" where
  "known_positions c = foldl (\<lambda>m p. m(position_key p \<mapsto> qp_offset p)) Map.empty c"

definition sortPositions :: "tail_cursor \<Rightarrow> tail_cursor" where
  "sortPositions ps = sort_key position_key ps"

section \<open>One poll\<close>

datatype tail_error = BlankTopic | NoRoute | NoQueues | EndsUnread | PullsFailed

text \<open>What a pull came to: it failed, or the messages, the next offset and the lowest one left.\<close>

datatype pull_result = PullFailed | Pulled "tail_message list" int int

definition defaultTailLimit :: int where
  "defaultTailLimit = 64"

text \<open>The first loop: the positions that need no pull, and the queues that are behind. A queue
  whose end could not be read is left where it was (the missing end reads as zero), or left out
  when it has no position yet.\<close>

fun place :: "bool \<Rightarrow> (queue_key \<Rightarrow> int option) \<Rightarrow> (queue_key \<Rightarrow> int option) \<Rightarrow> tail_queue list \<Rightarrow>
    tail_cursor \<times> tail_queue list" where
  "place opening known ends [] = ([], [])"
| "place opening known ends (q # qs) =
     (let (positions, behind) = place opening known ends qs in
      case (if opening then None else known (queueKey q)) of
        None \<Rightarrow> (case ends (queueKey q) of
            None \<Rightarrow> (positions, behind)
          | Some e \<Rightarrow> (position_at q e # positions, behind))
      | Some n \<Rightarrow> (if n \<ge> nullish (ends (queueKey q)) 0
                 then (position_at q n # positions, behind) else (positions, q # behind)))"

record tail_pull =
  tp_queue :: tail_queue
  tp_messages :: "tail_message list"
  tp_next :: int
  tp_dropped :: int
  tp_failed :: bool

definition pull_one :: "int \<Rightarrow> pull_result \<Rightarrow> tail_queue \<Rightarrow> tail_pull" where
  "pull_one start returned q =
     (case returned of
        PullFailed \<Rightarrow> \<lparr>tp_queue = q, tp_messages = [], tp_next = start, tp_dropped = 0, tp_failed = True\<rparr>
      | Pulled ms next lowest \<Rightarrow>
          \<lparr>tp_queue = q, tp_messages = ms, tp_next = (if next < start then start else next),
           tp_dropped = (if lowest > start then lowest - start else 0), tp_failed = False\<rparr>)"

text \<open>\<open>topic\<close> is the name after trimming and the namespace prefix.\<close>

definition TailMessages ::
    "string \<Rightarrow> tail_queue list option \<Rightarrow> (queue_key \<Rightarrow> int option) \<Rightarrow>
     (tail_queue \<Rightarrow> int \<Rightarrow> int \<Rightarrow> pull_result) \<Rightarrow> tail_cursor \<Rightarrow> int \<Rightarrow> tail_error + tail_batch" where
  "TailMessages topic route ends pull cursor limit0 =
     (if topic = '''' then Inl BlankTopic
      else case route of None \<Rightarrow> Inl NoRoute | Some queues \<Rightarrow>
        (if queues = [] then Inl NoQueues
         else if list_all (\<lambda>q. ends (queueKey q) = None) queues then Inl EndsUnread
         else
           (let limit = (if limit0 \<le> 0 then defaultTailLimit else limit0);
                known = known_positions cursor;
                (positions, behind) = place (cursor = []) known ends queues
            in if behind = []
               then Inr \<lparr>bt_messages = [], bt_cursor = sortPositions positions, bt_dropped = 0\<rparr>
               else
                 (let perQueue = max 1 (limit div int (length behind));
                      results = map (\<lambda>q. let start = nullish (known (queueKey q)) 0
                                         in pull_one start (pull q start perQueue) q) behind
                  in if list_all tp_failed results then Inl PullsFailed
                     else Inr
                       \<lparr>bt_messages = sort_key tm_storeTimestamp (concat (map tp_messages results)),
                        bt_cursor = sortPositions
                          (positions @ map (\<lambda>r. position_at (tp_queue r) (tp_next r)) results),
                        bt_dropped = sum_list (map tp_dropped results)\<rparr>))))"

section \<open>The first loop, queue by queue\<close>

definition is_behind :: "tail_cursor \<Rightarrow> (queue_key \<Rightarrow> int option) \<Rightarrow> tail_queue \<Rightarrow> bool" where
  "is_behind c ends q \<longleftrightarrow>
     (case known_positions c (queueKey q) of
        Some n \<Rightarrow> n < nullish (ends (queueKey q)) 0 | None \<Rightarrow> False)"

definition stays_at :: "tail_cursor \<Rightarrow> (queue_key \<Rightarrow> int option) \<Rightarrow> tail_queue \<Rightarrow> int option" where
  "stays_at c ends q =
     (case known_positions c (queueKey q) of
        Some n \<Rightarrow> if is_behind c ends q then None else Some n | None \<Rightarrow> ends (queueKey q))"

lemma known_nothing [simp]: "known_positions [] = Map.empty"
  by (simp add: known_positions_def)

lemma place_eq:
  "place (c = []) (known_positions c) ends qs =
     (List.map_filter (\<lambda>q. map_option (position_at q) (stays_at c ends q)) qs, filter (is_behind c ends) qs)"
proof (induction qs)
  case (Cons q qs)
  then show ?case
    by (auto simp: Let_def stays_at_def is_behind_def List.map_filter_simps split: option.splits)
qed (simp add: List.map_filter_simps)


lemma known_iff_in:
  assumes "distinct (map position_key c)"
  shows "known_positions c k = Some n \<longleftrightarrow> (\<exists>p \<in> set c. position_key p = k \<and> qp_offset p = n)"
  using assms
proof (induction c rule: rev_induct)
  case (snoc p c)
  have "known_positions (c @ [p]) = (known_positions c)(position_key p \<mapsto> qp_offset p)"
    by (simp add: known_positions_def)
  with snoc show ?case by (auto simp: image_iff)
qed simp

lemma known_iff_pair:
  assumes "distinct (map position_key c)"
  shows "known_positions c k = Some n \<longleftrightarrow> (k, n) \<in> set (map (\<lambda>p. (position_key p, qp_offset p)) c)"
  unfolding known_iff_in [OF assms] by auto

lemma known_same_set:
  assumes "distinct (map position_key c)" and "mset c = mset d"
  shows "known_positions c = known_positions d"
proof -
  have "distinct (map position_key d)"
    using assms by (metis mset_map mset_eq_imp_distinct_iff)
  then have "known_positions c k = Some n \<longleftrightarrow> known_positions d k = Some n" for k n
    using assms known_iff_in mset_eq_setD [OF assms(2)] by simp
  then show ?thesis by (metis (no_types, lifting) ext not_None_eq)
qed

section \<open>What the client library promises of a pull\<close>

text \<open>The messages are those of the queue, at the offsets from the first one still stored up to the
  next one to read, with none left out.\<close>

definition pull_documented :: "(tail_queue \<Rightarrow> int \<Rightarrow> int \<Rightarrow> pull_result) \<Rightarrow> bool" where
  "pull_documented pull \<longleftrightarrow>
     (\<forall>q start n. case pull q start n of
        PullFailed \<Rightarrow> True
      | Pulled ms next lowest \<Rightarrow>
          list_all (\<lambda>m. message_key m = queueKey q) ms \<and> lowest \<le> max start next \<and>
          map tm_offset ms = [max start lowest .. max start next - 1])"

lemma pull_one_documented:
  fixes start n :: int and q :: tail_queue
  assumes "pull_documented pull"
  defines "r \<equiv> pull_one start (pull q start n) q"
  shows "list_all (\<lambda>m. message_key m = queueKey q) (tp_messages r)" "tp_queue r = q"
    "0 \<le> tp_dropped r" "start + tp_dropped r \<le> tp_next r"
    "map tm_offset (tp_messages r) = [start + tp_dropped r .. tp_next r - 1]"
proof -
  from assms(1) have "case pull q start n of PullFailed \<Rightarrow> True
      | Pulled ms next lowest \<Rightarrow>
          list_all (\<lambda>m. message_key m = queueKey q) ms \<and> lowest \<le> max start next \<and>
          map tm_offset ms = [max start lowest .. max start next - 1]"
    by (simp add: pull_documented_def)
  then show "list_all (\<lambda>m. message_key m = queueKey q) (tp_messages r)" "tp_queue r = q"
    "0 \<le> tp_dropped r" "start + tp_dropped r \<le> tp_next r"
    "map tm_offset (tp_messages r) = [start + tp_dropped r .. tp_next r - 1]"
    unfolding r_def by (cases "pull q start n"; simp add: pull_one_def max_def split: if_splits)+
qed

section \<open>A poll, queue by queue\<close>

definition pulled_from :: "(tail_queue \<Rightarrow> int \<Rightarrow> int \<Rightarrow> pull_result) \<Rightarrow> tail_cursor \<Rightarrow> int \<Rightarrow> tail_queue \<Rightarrow> tail_pull" where
  "pulled_from pull c perQueue q =
     (let start = nullish (known_positions c (queueKey q)) 0 in pull_one start (pull q start perQueue) q)"

text \<open>A poll that succeeded, in one piece: the queues that were behind and what each handed back.\<close>

lemma poll_parts:
  assumes "TailMessages topic (Some queues) ends pull cursor limit = Inr b"
  obtains perQueue where
    "mset (bt_messages b) =
       mset (concat (map (\<lambda>q. tp_messages (pulled_from pull cursor perQueue q)) (filter (is_behind cursor ends) queues)))"
    "sorted (map tm_storeTimestamp (bt_messages b))"
    "bt_dropped b =
       sum_list (map (\<lambda>q. tp_dropped (pulled_from pull cursor perQueue q)) (filter (is_behind cursor ends) queues))"
    "mset (bt_cursor b) =
       mset (List.map_filter (\<lambda>q. map_option (position_at q) (stays_at cursor ends q)) queues @
         map (\<lambda>q. position_at (tp_queue (pulled_from pull cursor perQueue q)) (tp_next (pulled_from pull cursor perQueue q)))
           (filter (is_behind cursor ends) queues))"
proof -
  let ?behind = "filter (is_behind cursor ends) queues"
  let ?per = "max 1 ((if limit \<le> 0 then defaultTailLimit else limit) div int (length ?behind))"
  let ?stay = "List.map_filter (\<lambda>q. map_option (position_at q) (stays_at cursor ends q)) queues"
  have b: "b = (if ?behind = []
      then \<lparr>bt_messages = [], bt_cursor = sortPositions ?stay, bt_dropped = 0\<rparr>
      else \<lparr>bt_messages = sort_key tm_storeTimestamp
              (concat (map tp_messages (map (pulled_from pull cursor ?per) ?behind))),
            bt_cursor = sortPositions (?stay @
              map (\<lambda>r. position_at (tp_queue r) (tp_next r)) (map (pulled_from pull cursor ?per) ?behind)),
            bt_dropped = sum_list (map tp_dropped (map (pulled_from pull cursor ?per) ?behind))\<rparr>)"
    using assms unfolding TailMessages_def place_eq pulled_from_def Let_def
    by (auto simp: Let_def split: if_splits)
  show thesis
  proof (cases "?behind = []")
    case True
    show thesis by (rule that [of ?per]) (use True in \<open>simp_all add: b sortPositions_def\<close>)
  next
    case False
    show thesis by (rule that [of ?per]) (use False in \<open>simp_all add: b sortPositions_def comp_def\<close>)
  qed
qed

lemma other_queues:
  assumes "\<And>x. list_all (\<lambda>m. message_key m = queueKey x) (g x)" and "k \<notin> queueKey ` set qs"
  shows "filter (\<lambda>m. message_key m = k) (concat (map g (filter P qs))) = []"
  using assms(2)
proof (induction qs)
  case (Cons x qs)
  with assms(1) [of x] show ?case by (auto simp: list_all_iff filter_empty_conv)
qed simp

lemma queue_messages:
  assumes "pull_documented pull" and "distinct (map queueKey queues)" and "q \<in> set queues"
  shows "filter (\<lambda>m. message_key m = queueKey q)
      (concat (map (\<lambda>q. tp_messages (pulled_from pull c per q)) (filter P queues))) =
    (if P q then tp_messages (pulled_from pull c per q) else [])"
  using assms(2,3)
proof (induction queues)
  case (Cons q' qs)
  have own: "list_all (\<lambda>m. message_key m = queueKey q') (tp_messages (pulled_from pull c per q'))"
    using pull_one_documented(1) [OF assms(1)] by (simp add: pulled_from_def Let_def)
  have none: "filter (\<lambda>m. message_key m = queueKey q)
      (concat (map (\<lambda>q. tp_messages (pulled_from pull c per q)) (filter P qs))) = []"
    if "queueKey q \<notin> queueKey ` set qs"
    using that pull_one_documented(1) [OF assms(1)]
    by (intro other_queues) (simp_all add: pulled_from_def Let_def)
  show ?case
  proof (cases "q = q'")
    case True
    with Cons.prems have "queueKey q \<notin> queueKey ` set qs" by simp
    with own True none show ?thesis by (auto simp: list_all_iff filter_id_conv)
  next
    case False
    with Cons.prems have "q \<in> set qs" by simp
    moreover from this Cons.prems have "queueKey q \<noteq> queueKey q'" by (metis distinct.simps(2) image_eqI list.set_map list.simps(9))
    ultimately have "q \<in> set qs" "queueKey q \<noteq> queueKey q'" by simp_all
    with own Cons show ?thesis by (auto simp: list_all_iff filter_empty_conv)
  qed
qed simp

lemma in_map_filter: "y \<in> set (List.map_filter f xs) \<longleftrightarrow> (\<exists>x \<in> set xs. f x = Some y)"
  by (induction xs) (auto simp: List.map_filter_simps split: option.splits)

lemma distinct_parts:
  assumes "distinct (map g xs)" and "\<And>x. A x \<Longrightarrow> B x \<Longrightarrow> False"
  shows "distinct (map g (filter A xs @ filter B xs))"
  using assms(1)
proof (induction xs)
  case (Cons x xs)
  then show ?case using assms(2) [of x] by (auto simp: image_iff)
qed simp

lemma new_positions:
  assumes "distinct (map queueKey queues)"
    and "mset (bt_cursor b) =
       mset (List.map_filter (\<lambda>q. map_option (position_at q) (stays_at cursor ends q)) queues @
         map (\<lambda>q. position_at q (f q)) (filter (is_behind cursor ends) queues))"
  shows "q \<in> set queues \<Longrightarrow> known_positions (bt_cursor b) (queueKey q) =
      (if is_behind cursor ends q then Some (f q) else stays_at cursor ends q)"
    and "k \<notin> queueKey ` set queues \<Longrightarrow> known_positions (bt_cursor b) k = None"
proof -
  let ?c = "List.map_filter (\<lambda>q. map_option (position_at q) (stays_at cursor ends q)) queues @
         map (\<lambda>q. position_at q (f q)) (filter (is_behind cursor ends) queues)"
  have not_both: "is_behind cursor ends q \<Longrightarrow> stays_at cursor ends q = None" for q
    by (auto simp: stays_at_def is_behind_def split: option.splits)
  have keys: "map position_key (List.map_filter (\<lambda>q. map_option (position_at q) (stays_at cursor ends q)) queues) =
      map queueKey (filter (\<lambda>q. stays_at cursor ends q \<noteq> None) queues)"
    by (induction queues) (auto simp: List.map_filter_simps queueKey_def)
  have split: "map position_key ?c =
      map queueKey (filter (\<lambda>q. stays_at cursor ends q \<noteq> None) queues @ filter (is_behind cursor ends) queues)"
    by (simp add: keys comp_def queueKey_def)
  have dist: "distinct (map position_key ?c)"
    unfolding split by (rule distinct_parts [OF assms(1)]) (simp add: not_both)
  have known: "known_positions (bt_cursor b) = known_positions ?c"
    using known_same_set [OF dist assms(2) [symmetric]] by simp
  have at: "known_positions ?c k = Some n \<longleftrightarrow>
      (\<exists>q \<in> set queues. queueKey q = k \<and>
        (if is_behind cursor ends q then n = f q else stays_at cursor ends q = Some n))" for k n
  proof -
    have "map (\<lambda>p. (position_key p, qp_offset p)) ?c =
        List.map_filter (\<lambda>q. map_option (\<lambda>n. (queueKey q, n)) (stays_at cursor ends q)) queues @
        map (\<lambda>q. (queueKey q, f q)) (filter (is_behind cursor ends) queues)"
      by (simp add: queueKey_def) (induction queues, auto simp: List.map_filter_simps split: option.splits)
    moreover have "known_positions ?c k = Some n \<longleftrightarrow>
        (k, n) \<in> set (map (\<lambda>p. (position_key p, qp_offset p)) ?c)"
      by (rule known_iff_pair [OF dist])
    ultimately have "known_positions ?c k = Some n \<longleftrightarrow>
        (\<exists>q \<in> set queues. stays_at cursor ends q = Some n \<and> queueKey q = k) \<or>
        (\<exists>q \<in> set queues. is_behind cursor ends q \<and> f q = n \<and> queueKey q = k)"
      by (auto simp: in_map_filter)
    moreover have "\<not> is_behind cursor ends q" if "stays_at cursor ends q = Some n" for q
      using not_both [of q] that by auto
    ultimately show ?thesis unfolding if_bool_eq_disj by blast
  qed
  show "known_positions (bt_cursor b) k = None" if "k \<notin> queueKey ` set queues"
  proof (cases "known_positions (bt_cursor b) k")
    case (Some n)
    then show ?thesis using at [of k n] that unfolding known by blast
  qed
  show "known_positions (bt_cursor b) (queueKey q) =
      (if is_behind cursor ends q then Some (f q) else stays_at cursor ends q)" if "q \<in> set queues"
  proof -
    have "q' = q" if "q' \<in> set queues" "queueKey q' = queueKey q" for q'
      using assms(1) that \<open>q \<in> set queues\<close> by (auto simp: distinct_map inj_on_def)
    then have "known_positions (bt_cursor b) (queueKey q) = Some n \<longleftrightarrow>
        (if is_behind cursor ends q then Some (f q) else stays_at cursor ends q) = Some n" for n
      using at [of "queueKey q" n] \<open>q \<in> set queues\<close> unfolding known by (auto split: if_splits)
    then show ?thesis by (metis not_None_eq)
  qed
qed

lemma queue_drops:
  assumes "distinct (map queueKey queues)" and "\<And>q. 0 \<le> g q"
  shows "sum_list (map g (filter P queues)) = sum_list (map (\<lambda>q. if P q then g q else (0::int)) queues)"
  by (induction queues) simp_all

lemma poll_accounts:
  assumes documented: "pull_documented pull" and queues: "distinct (map queueKey queues)"
    and polled: "TailMessages topic (Some queues) ends pull cursor limit = Inr b"
  shows "\<exists>dropped. bt_dropped b = sum_list (map dropped queues) \<and>
    sorted (map tm_storeTimestamp (bt_messages b)) \<and>
    (\<forall>q \<in> set queues. case known_positions cursor (queueKey q) of
        None \<Rightarrow> known_positions (bt_cursor b) (queueKey q) = ends (queueKey q)
      | Some n \<Rightarrow> (case known_positions (bt_cursor b) (queueKey q) of
          None \<Rightarrow> False
        | Some n' \<Rightarrow> 0 \<le> dropped q \<and> n + dropped q \<le> n' \<and>
            mset (map tm_offset (filter (\<lambda>m. message_key m = queueKey q) (bt_messages b))) =
              mset [n + dropped q .. n' - 1]))"
proof -
  obtain per where
    messages: "mset (bt_messages b) =
       mset (concat (map (\<lambda>q. tp_messages (pulled_from pull cursor per q)) (filter (is_behind cursor ends) queues)))"
    and sorted: "sorted (map tm_storeTimestamp (bt_messages b))"
    and drops: "bt_dropped b =
       sum_list (map (\<lambda>q. tp_dropped (pulled_from pull cursor per q)) (filter (is_behind cursor ends) queues))"
    and positions: "mset (bt_cursor b) =
       mset (List.map_filter (\<lambda>q. map_option (position_at q) (stays_at cursor ends q)) queues @
         map (\<lambda>q. position_at (tp_queue (pulled_from pull cursor per q)) (tp_next (pulled_from pull cursor per q)))
           (filter (is_behind cursor ends) queues))"
    using poll_parts [OF polled] by blast
  let ?r = "pulled_from pull cursor per"
  have r: "tp_queue (?r q) = q" "0 \<le> tp_dropped (?r q)"
    "nullish (known_positions cursor (queueKey q)) 0 + tp_dropped (?r q) \<le> tp_next (?r q)"
    "map tm_offset (tp_messages (?r q)) =
      [nullish (known_positions cursor (queueKey q)) 0 + tp_dropped (?r q) .. tp_next (?r q) - 1]" for q
    using pull_one_documented [OF documented] by (simp_all add: pulled_from_def Let_def)
  note next_position = new_positions(1) [OF queues positions [unfolded r(1)]]
  let ?d = "\<lambda>q. if is_behind cursor ends q then tp_dropped (?r q) else 0"
  have total: "bt_dropped b = sum_list (map ?d queues)"
    unfolding drops using r(2) by (intro queue_drops [OF queues])
  have each: "case known_positions cursor (queueKey q) of
        None \<Rightarrow> known_positions (bt_cursor b) (queueKey q) = ends (queueKey q)
      | Some n \<Rightarrow> (case known_positions (bt_cursor b) (queueKey q) of
          None \<Rightarrow> False
        | Some n' \<Rightarrow> 0 \<le> ?d q \<and> n + ?d q \<le> n' \<and>
            mset (map tm_offset (filter (\<lambda>m. message_key m = queueKey q) (bt_messages b))) =
              mset [n + ?d q .. n' - 1])" if q: "q \<in> set queues" for q
  proof -
    have own: "mset (map tm_offset (filter (\<lambda>m. message_key m = queueKey q) (bt_messages b))) =
        mset (map tm_offset (if is_behind cursor ends q then tp_messages (?r q) else []))"
      by (simp only: mset_map mset_filter messages
          flip: queue_messages [OF documented queues q, of cursor per "is_behind cursor ends"])
    show ?thesis
      unfolding own next_position [OF q]
      using r(2-4) [of q] by (auto simp: stays_at_def is_behind_def split: option.splits)
  qed
  show ?thesis
    by (rule exI [of _ ?d], intro conjI ballI) (rule total, rule sorted, rule each)
qed

text \<open>Every message of a batch belongs to a queue that was asked about and had a position, and a
  queue that was not asked about has none afterwards.\<close>

lemma poll_keys:
  assumes documented: "pull_documented pull" and queues: "distinct (map queueKey queues)"
    and polled: "TailMessages topic (Some queues) ends pull cursor limit = Inr b"
  shows "m \<in> set (bt_messages b) \<Longrightarrow>
      \<exists>q \<in> set queues. queueKey q = message_key m \<and> known_positions cursor (queueKey q) \<noteq> None"
    and "k \<notin> queueKey ` set queues \<Longrightarrow> known_positions (bt_cursor b) k = None"
proof -
  obtain per where messages: "mset (bt_messages b) =
       mset (concat (map (\<lambda>q. tp_messages (pulled_from pull cursor per q)) (filter (is_behind cursor ends) queues)))"
    and positions: "mset (bt_cursor b) =
       mset (List.map_filter (\<lambda>q. map_option (position_at q) (stays_at cursor ends q)) queues @
         map (\<lambda>q. position_at (tp_queue (pulled_from pull cursor per q)) (tp_next (pulled_from pull cursor per q)))
           (filter (is_behind cursor ends) queues))"
    using poll_parts [OF polled] by blast
  have own: "tp_queue (pulled_from pull c n x) = x"
    "list_all (\<lambda>m. message_key m = queueKey x) (tp_messages (pulled_from pull c n x))" for c n x
    using pull_one_documented [OF documented] by (simp_all add: pulled_from_def Let_def)
  show "\<exists>q \<in> set queues. queueKey q = message_key m \<and> known_positions cursor (queueKey q) \<noteq> None"
    if "m \<in> set (bt_messages b)"
  proof -
    have "m \<in> (\<Union>q \<in> {q \<in> set queues. is_behind cursor ends q}. set (tp_messages (pulled_from pull cursor per q)))"
      using that mset_eq_setD [OF messages] by simp
    then obtain q where "q \<in> set queues" "is_behind cursor ends q"
      "m \<in> set (tp_messages (pulled_from pull cursor per q))" by blast
    then show ?thesis using own(2) [where c = cursor and n = per and x = q] by (auto simp: list_all_iff is_behind_def split: option.splits)
  qed
  show "known_positions (bt_cursor b) k = None" if "k \<notin> queueKey ` set queues"
    by (rule new_positions(2) [OF queues positions [unfolded own(1)] that])
qed

text \<open>C17. One poll accounts for every queue it is given: between the position a queue had and the one
  it gets, each message is either in the batch, once, or counted as dropped because the log no
  longer held it. Nothing is skipped in silence and nothing is fetched that a later poll would
  fetch again, whatever the budget cut off or which brokers failed to answer.\<close>

theorem poll_accounts_for_every_queue:
  assumes "pull_documented pull" and "distinct (map queueKey queues)"
    and "TailMessages topic (Some queues) ends pull cursor limit = Inr b"
  shows "\<exists>dropped. bt_dropped b = sum_list (map dropped queues) \<and>
    sorted (map tm_storeTimestamp (bt_messages b)) \<and>
    (\<forall>q \<in> set queues. case known_positions cursor (queueKey q) of
        None \<Rightarrow> known_positions (bt_cursor b) (queueKey q) = ends (queueKey q)
      | Some n \<Rightarrow> (case known_positions (bt_cursor b) (queueKey q) of
          None \<Rightarrow> False
        | Some n' \<Rightarrow> 0 \<le> dropped q \<and> n + dropped q \<le> n' \<and>
            mset (map tm_offset (filter (\<lambda>m. message_key m = queueKey q) (bt_messages b))) =
              mset [n + dropped q .. n' - 1]))"
  by (rule poll_accounts [OF assms])

text \<open>A queue at offset 5 whose log begins at 6 and ends at 9.\<close>

definition sample_queue :: "string \<Rightarrow> tail_queue" where
  "sample_queue node = \<lparr>tq_node = node, tq_address = ''10.0.0.1:10911'', tq_queue = 0\<rparr>"

definition sample_pull :: "tail_queue \<Rightarrow> int \<Rightarrow> int \<Rightarrow> pull_result" where
  "sample_pull q start n =
     Pulled (map (\<lambda>i. \<lparr>tm_node = tq_node q, tm_queue = tq_queue q, tm_offset = i,
                       tm_storeTimestamp = i, tm_body = ''m''\<rparr>) [max start 6 .. 8])
       (max start 9) 6"

lemma sample_documented: "pull_documented sample_pull"
  by (auto simp: pull_documented_def sample_pull_def queueKey_def list_all_iff comp_def max_def)

definition sample_cursor :: tail_cursor where
  "sample_cursor = [position_at (sample_queue ''a'') 5]"

lemma sample_poll:
  "TailMessages ''t'' (Some [sample_queue ''a'']) (\<lambda>_. Some 9) sample_pull sample_cursor 0 =
     Inr \<lparr>bt_messages = map (\<lambda>i. \<lparr>tm_node = ''a'', tm_queue = 0, tm_offset = i,
            tm_storeTimestamp = i, tm_body = ''m''\<rparr>) [6, 7, 8],
          bt_cursor = [position_at (sample_queue ''a'') 9], bt_dropped = 1\<rparr>"
  by code_simp

theorem poll_accounts_for_every_queue_witness:
  "\<exists>b dropped. TailMessages ''t'' (Some [sample_queue ''a'']) (\<lambda>_. Some 9) sample_pull sample_cursor 0 = Inr b \<and>
     bt_dropped b = dropped (sample_queue ''a'') \<and> dropped (sample_queue ''a'') = 1 \<and>
     map tm_offset (bt_messages b) = [6, 7, 8]"
  using poll_accounts_for_every_queue [OF sample_documented _ sample_poll]
  by (fastforce simp: sample_poll)

section \<open>A queue that is missing once\<close>

lemma filter_none:
  assumes "mset xs = mset ys" and "filter P ys = []"
  shows "filter P xs = []"
  using assms(2) mset_eq_setD [OF assms(1)] by (simp add: filter_empty_conv)

text \<open>A queue that is missing from the route for one poll (its broker is down, or has no address)
  loses its place: the next poll that sees it again opens it at its end, and what arrived in
  between is neither shown nor counted as dropped.\<close>

theorem missing_queue_loses_its_place:
  assumes documented: "pull_documented pull" and known: "known_positions cursor (queueKey q) = Some n"
    and without: "TailMessages topic (Some queues) ends pull cursor limit = Inr b"
      "distinct (map queueKey queues)" "queueKey q \<notin> queueKey ` set queues"
    and again: "TailMessages topic (Some queues') ends' pull (bt_cursor b) limit = Inr b'"
      "distinct (map queueKey queues')" "q \<in> set queues'" "ends' (queueKey q) = Some e"
  shows "known_positions (bt_cursor b') (queueKey q) = Some e \<and>
    filter (\<lambda>m. message_key m = queueKey q) (bt_messages b @ bt_messages b') = []"
proof -
  obtain per where messages: "mset (bt_messages b) =
       mset (concat (map (\<lambda>q. tp_messages (pulled_from pull cursor per q)) (filter (is_behind cursor ends) queues)))"
    and positions: "mset (bt_cursor b) =
       mset (List.map_filter (\<lambda>q. map_option (position_at q) (stays_at cursor ends q)) queues @
         map (\<lambda>q. position_at (tp_queue (pulled_from pull cursor per q)) (tp_next (pulled_from pull cursor per q)))
           (filter (is_behind cursor ends) queues))"
    using poll_parts [OF without(1)] by blast
  obtain per' where messages': "mset (bt_messages b') =
       mset (concat (map (\<lambda>q. tp_messages (pulled_from pull (bt_cursor b) per' q))
         (filter (is_behind (bt_cursor b) ends') queues')))"
    and positions': "mset (bt_cursor b') =
       mset (List.map_filter (\<lambda>q. map_option (position_at q) (stays_at (bt_cursor b) ends' q)) queues' @
         map (\<lambda>q. position_at (tp_queue (pulled_from pull (bt_cursor b) per' q))
             (tp_next (pulled_from pull (bt_cursor b) per' q)))
           (filter (is_behind (bt_cursor b) ends') queues'))"
    using poll_parts [OF again(1)] by blast
  have own: "tp_queue (pulled_from pull c m x) = x"
    "list_all (\<lambda>m. message_key m = queueKey x) (tp_messages (pulled_from pull c m x))" for c m x
    using pull_one_documented [OF documented] by (simp_all add: pulled_from_def Let_def)
  have gone: "known_positions (bt_cursor b) (queueKey q) = None"
    by (rule new_positions(2) [OF without(2) positions [unfolded own(1)] without(3)])
  have fresh: "known_positions (bt_cursor b') (queueKey q) = Some e"
    using new_positions(1) [OF again(2) positions' [unfolded own(1)] again(3)] gone again(4)
    by (simp add: is_behind_def stays_at_def)
  have "filter (\<lambda>m. message_key m = queueKey q) (bt_messages b) = []"
    by (rule filter_none [OF messages other_queues [OF own(2) without(3)]])
  moreover have "filter (\<lambda>m. message_key m = queueKey q) (bt_messages b') = []"
    using queue_messages [OF documented again(2,3), of "bt_cursor b" per' "is_behind (bt_cursor b) ends'"] gone
    by (intro filter_none [OF messages']) (simp add: is_behind_def)
  ultimately show ?thesis using fresh by simp
qed

theorem missing_queue_loses_its_place_witness:
  "\<exists>b b'. TailMessages ''t'' (Some [sample_queue ''b'']) (\<lambda>_. Some 9) sample_pull sample_cursor 0 = Inr b \<and>
     TailMessages ''t'' (Some [sample_queue ''a'']) (\<lambda>_. Some 9) sample_pull (bt_cursor b) 0 = Inr b' \<and>
     known_positions sample_cursor (''a'', 0) = Some 5 \<and> known_positions (bt_cursor b') (''a'', 0) = Some 9 \<and>
     bt_dropped b + bt_dropped b' = 0 \<and>
     filter (\<lambda>m. message_key m = (''a'', 0)) (bt_messages b @ bt_messages b') = []"
proof -
  obtain b where b: "TailMessages ''t'' (Some [sample_queue ''b'']) (\<lambda>_. Some 9) sample_pull sample_cursor 0 = Inr b"
    "bt_cursor b = [position_at (sample_queue ''b'') 9]" "bt_dropped b = 0"
    by (simp add: TailMessages_def sample_cursor_def sample_queue_def queueKey_def known_positions_def sortPositions_def)
  obtain b' where b': "TailMessages ''t'' (Some [sample_queue ''a'']) (\<lambda>_. Some 9) sample_pull (bt_cursor b) 0 = Inr b'"
    "bt_dropped b' = 0"
    by (simp add: b TailMessages_def sample_cursor_def sample_queue_def queueKey_def known_positions_def sortPositions_def)
  have key: "queueKey (sample_queue ''a'') = (''a'', 0)" and "known_positions sample_cursor (''a'', 0) = Some 5"
    by (simp_all add: queueKey_def sample_queue_def sample_cursor_def known_positions_def)
  then show ?thesis
    using missing_queue_loses_its_place [OF sample_documented, of sample_cursor "sample_queue ''a''" 5, OF _ b(1) _ _ b'(1), of 9]
      b b' by (auto simp: queueKey_def sample_queue_def)
qed

end
