(* ===== verification/MessageTail.thy ===== *)
theory MessageTail
  imports RocketTail
begin

text \<open>
  The live tail of a board (hooks/useMessageTail.ts): the rows it shows, the cursor it holds and
  the one request it has under way, together with the polls of RocketTail that answer it. Ticks,
  answers, stops, clears and changes of topic come in any order.
\<close>

section \<open>The hook\<close>

definition TAIL_BUFFER :: nat where
  "TAIL_BUFFER = 500"

text \<open>\<open>th_poll\<close> is the request under way: the cursor it was sent with, and whether the effect that
  sent it has been cleaned up. The last three are not in the code: what has been accepted since
  the rows were last cleared, and how far each queue had been filled at the last poll.\<close>

record tail_hook =
  th_messages :: "tail_message list"
  th_dropped :: int
  th_running :: bool
  th_error :: "string option"
  th_cursor :: tail_cursor
  th_poll :: "(tail_cursor \<times> bool) option"
  th_log :: "tail_message list"
  th_high :: "queue_key \<Rightarrow> int"

definition tail_mounted :: tail_hook where
  "tail_mounted =
     \<lparr>th_messages = [], th_dropped = 0, th_running = False, th_error = None, th_cursor = [],
      th_poll = None, th_log = [], th_high = (\<lambda>_. 0)\<rparr>"

definition clear :: "tail_hook \<Rightarrow> tail_hook" where
  "clear h = h\<lparr>th_cursor := [], th_messages := [], th_dropped := 0, th_error := None, th_log := []\<rparr>"

text \<open>The cleanup of the effect, which runs when \<open>running\<close>, the topic or the connection changes.\<close>

definition cancel_poll :: "tail_hook \<Rightarrow> tail_hook" where
  "cancel_poll h = h\<lparr>th_poll := map_option (\<lambda>(c, _). (c, True)) (th_poll h)\<rparr>"

definition stop :: "tail_hook \<Rightarrow> tail_hook" where
  "stop h = (if th_running h then cancel_poll (h\<lparr>th_running := False\<rparr>) else h)"

definition start :: "tail_hook \<Rightarrow> tail_hook" where
  "start h = (clear h)\<lparr>th_running := True\<rparr>"

definition retopic :: "tail_hook \<Rightarrow> tail_hook" where
  "retopic h = clear (cancel_poll (h\<lparr>th_running := False\<rparr>))"

text \<open>A tick: nothing while a request is under way.\<close>

definition poll :: "tail_hook \<Rightarrow> tail_hook" where
  "poll h = (if th_poll h = None then h\<lparr>th_poll := Some (th_cursor h, False)\<rparr> else h)"

definition arrived :: "tail_batch \<Rightarrow> tail_hook \<Rightarrow> tail_hook" where
  "arrived b h =
     (case th_poll h of
        None \<Rightarrow> h
      | Some (_, cancelled) \<Rightarrow>
          (if cancelled then h\<lparr>th_poll := None\<rparr>
           else h\<lparr>th_poll := None, th_cursor := bt_cursor b, th_error := None,
                  th_dropped := (if bt_dropped b > 0 then th_dropped h + bt_dropped b else th_dropped h),
                  th_messages := (if length (bt_messages b) > 0
                    then take TAIL_BUFFER (rev (bt_messages b) @ th_messages h) else th_messages h),
                  th_log := th_log h @ bt_messages b\<rparr>))"

definition poll_failed :: "string \<Rightarrow> tail_hook \<Rightarrow> tail_hook" where
  "poll_failed e h =
     (case th_poll h of
        None \<Rightarrow> h
      | Some (_, cancelled) \<Rightarrow>
          (if cancelled then h\<lparr>th_poll := None\<rparr> else h\<lparr>th_poll := None, th_error := Some e\<rparr>))"

section \<open>What answers a poll\<close>

text \<open>A batch the driver makes of a cursor while the queues fill from \<open>low\<close> to \<open>high\<close>.\<close>

definition tail_answer :: "tail_cursor \<Rightarrow> (queue_key \<Rightarrow> int) \<Rightarrow> tail_batch \<Rightarrow> (queue_key \<Rightarrow> int) \<Rightarrow> bool" where
  "tail_answer cursor low b high \<longleftrightarrow>
     (\<exists>topic queues ends pull limit.
        TailMessages topic (Some queues) ends pull cursor limit = Inr b \<and>
        pull_documented pull \<and> distinct (map queueKey queues) \<and>
        (\<forall>k. low k \<le> high k) \<and> (\<forall>k e. ends k = Some e \<longrightarrow> low k \<le> e \<and> e \<le> high k) \<and>
        (\<forall>m \<in> set (bt_messages b). tm_offset m < high (message_key m)))"

inductive tail_reachable :: "tail_hook \<Rightarrow> bool" where
  tail_opened: "tail_reachable tail_mounted"
| tail_button: "tail_reachable h \<Longrightarrow> h' \<in> {start h, stop h, clear h, retopic h, cancel_poll h} \<Longrightarrow> tail_reachable h'"
| tail_tick: "tail_reachable h \<Longrightarrow> th_running h \<Longrightarrow> tail_reachable (poll h)"
| tail_arrived: "tail_reachable h \<Longrightarrow> th_poll h = Some (cursor, cancelled) \<Longrightarrow>
    tail_answer cursor (th_high h) b high \<Longrightarrow> tail_reachable ((arrived b h)\<lparr>th_high := high\<rparr>)"
| tail_failed: "tail_reachable h \<Longrightarrow> tail_reachable (poll_failed e h)"

lemmas tail_ops = start_def stop_def clear_def retopic_def cancel_poll_def poll_def poll_failed_def

section \<open>Each message once\<close>

abbreviation message_id :: "tail_message \<Rightarrow> queue_key \<times> int" where
  "message_id m \<equiv> (message_key m, tm_offset m)"

text \<open>A cursor is ahead of what has been accepted: of a queue it places, everything accepted lies
  before its place.\<close>

definition ahead :: "tail_cursor \<Rightarrow> tail_message list \<Rightarrow> bool" where
  "ahead c accepted \<longleftrightarrow>
     (\<forall>m \<in> set accepted. case known_positions c (message_key m) of Some n \<Rightarrow> tm_offset m < n | None \<Rightarrow> True)"

definition tail_ok :: "tail_hook \<Rightarrow> bool" where
  "tail_ok h \<longleftrightarrow>
     th_messages h = take TAIL_BUFFER (rev (th_log h)) \<and> distinct (map message_id (th_log h)) \<and>
     (\<forall>m \<in> set (th_log h). tm_offset m < th_high h (message_key m)) \<and> ahead (th_cursor h) (th_log h) \<and>
     (case th_poll h of Some (c, False) \<Rightarrow> ahead c (th_log h) | _ \<Rightarrow> True)"

lemma ahead_Nil [simp]: "ahead c []" "ahead [] accepted"
  by (simp_all add: ahead_def)

lemma distinct_by_queue:
  assumes "\<And>m. m \<in> set ms \<Longrightarrow> distinct (map tm_offset (filter (\<lambda>x. message_key x = message_key m) ms))"
  shows "distinct (map message_id ms)"
  using assms
proof (induction ms)
  case (Cons m ms)
  have "distinct (map tm_offset (filter (\<lambda>x. message_key x = message_key y) ms))" if "y \<in> set ms" for y
    using Cons.prems [of y] that by (auto split: if_splits)
  with Cons.IH have "distinct (map message_id ms)" by blast
  moreover have "message_id m \<notin> message_id ` set ms"
    using Cons.prems [of m] by auto
  ultimately show ?case by simp
qed simp

text \<open>What a batch does to the messages accepted so far.\<close>

lemma batch_follows:
  assumes answer: "tail_answer c low b high" and "ahead c accepted"
    and below: "\<forall>m \<in> set accepted. tm_offset m < low (message_key m)"
    and dist: "distinct (map message_id accepted)"
  shows "distinct (map message_id (accepted @ bt_messages b))" "ahead (bt_cursor b) (accepted @ bt_messages b)"
    "\<forall>m \<in> set (accepted @ bt_messages b). tm_offset m < high (message_key m)"
proof -
  obtain topic queues ends pull limit where
    polled: "TailMessages topic (Some queues) ends pull c limit = Inr b"
    and documented: "pull_documented pull" and queues: "distinct (map queueKey queues)"
    and mono: "\<forall>k. low k \<le> high k" and ends: "\<forall>k e. ends k = Some e \<longrightarrow> low k \<le> e \<and> e \<le> high k"
    and top: "\<forall>m \<in> set (bt_messages b). tm_offset m < high (message_key m)"
    using answer unfolding tail_answer_def by blast
  obtain d where acc: "\<forall>q \<in> set queues. case known_positions c (queueKey q) of
        None \<Rightarrow> known_positions (bt_cursor b) (queueKey q) = ends (queueKey q)
      | Some n \<Rightarrow> (case known_positions (bt_cursor b) (queueKey q) of
          None \<Rightarrow> False
        | Some n' \<Rightarrow> 0 \<le> d q \<and> n + d q \<le> n' \<and>
            mset (map tm_offset (filter (\<lambda>m. message_key m = queueKey q) (bt_messages b))) =
              mset [n + d q .. n' - 1])"
    using poll_accounts [OF documented queues polled] by blast
  note keys = poll_keys [OF documented queues polled]
  text \<open>one message of the batch\<close>
  have new: "\<exists>q n n'. queueKey q = message_key m \<and> known_positions c (message_key m) = Some n \<and>
      known_positions (bt_cursor b) (message_key m) = Some n' \<and> n \<le> tm_offset m \<and> tm_offset m < n' \<and>
      distinct (map tm_offset (filter (\<lambda>x. message_key x = message_key m) (bt_messages b)))"
    if m: "m \<in> set (bt_messages b)" for m
  proof -
    from keys(1) [OF m] obtain q n where q: "q \<in> set queues" "queueKey q = message_key m"
      "known_positions c (message_key m) = Some n" by auto
    with acc obtain n' where n': "known_positions (bt_cursor b) (message_key m) = Some n'" "0 \<le> d q"
      and offs: "mset (map tm_offset (filter (\<lambda>x. message_key x = message_key m) (bt_messages b))) =
        mset [n + d q .. n' - 1]"
      by (fastforce split: option.splits)
    have "tm_offset m \<in> set [n + d q .. n' - 1]"
      using m by (subst mset_eq_setD [OF offs, symmetric]) simp
    moreover have "distinct (map tm_offset (filter (\<lambda>x. message_key x = message_key m) (bt_messages b)))"
      using mset_eq_imp_distinct_iff [OF offs] by simp
    ultimately show ?thesis using q n' by auto
  qed
  text \<open>one message accepted before\<close>
  have old: "case known_positions (bt_cursor b) (message_key m) of Some n' \<Rightarrow> tm_offset m < n' | None \<Rightarrow> True"
    if m: "m \<in> set accepted" for m
  proof (cases "message_key m \<in> queueKey ` set queues")
    case True
    then obtain q where q: "q \<in> set queues" "queueKey q = message_key m" by auto
    show ?thesis
    proof (cases "known_positions c (message_key m)")
      case None
      with acc q have "known_positions (bt_cursor b) (message_key m) = ends (message_key m)" by fastforce
      moreover have "tm_offset m < low (message_key m)" using below m by blast
      moreover have "low (message_key m) \<le> e" if "ends (message_key m) = Some e" for e using ends that by blast
      ultimately show ?thesis by (cases "ends (message_key m)") (auto intro: less_le_trans)
    next
      case (Some n)
      with assms(2) m have "tm_offset m < n" by (auto simp: ahead_def)
      with acc q Some show ?thesis by (fastforce split: option.splits)
    qed
  next
    case False
    then show ?thesis using keys(2) by (simp split: option.split)
  qed
  have "distinct (map message_id (bt_messages b))"
    by (rule distinct_by_queue) (use new in blast)
  moreover
  have "message_id m \<notin> message_id ` set accepted" if "m \<in> set (bt_messages b)" for m
  proof
    assume "message_id m \<in> message_id ` set accepted"
    then obtain x where x: "x \<in> set accepted" "message_key x = message_key m" "tm_offset x = tm_offset m" by auto
    with assms(2) new [OF that] show False by (fastforce simp: ahead_def)
  qed
  then have "x \<notin> message_id ` set accepted" if "x \<in> message_id ` set (bt_messages b)" for x
    using that by (elim imageE) (simp only: not_False_eq_True)
  then have "message_id ` set accepted \<inter> message_id ` set (bt_messages b) = {}" by (meson disjoint_iff)
  ultimately show "distinct (map message_id (accepted @ bt_messages b))"
    using dist by (simp only: map_append distinct_append set_map)
  show "ahead (bt_cursor b) (accepted @ bt_messages b)"
    using old new unfolding ahead_def by fastforce
  show "\<forall>m \<in> set (accepted @ bt_messages b). tm_offset m < high (message_key m)"
    using top below mono by (auto intro: less_le_trans)
qed

lemma take_rev_append: "take n (rev (xs @ ys)) = take n (rev ys @ take n (rev xs))"
  by (simp add: min_def)

lemma tail_ok_arrived:
  assumes ok: "tail_ok h" and sent: "th_poll h = Some (c, cancelled)"
    and answer: "tail_answer c (th_high h) b high"
  shows "tail_ok ((arrived b h)\<lparr>th_high := high\<rparr>)"
proof (cases cancelled)
  case True
  have "\<forall>k. th_high h k \<le> high k" using answer by (auto simp: tail_answer_def)
  with ok sent True show ?thesis by (auto simp: tail_ok_def arrived_def intro: less_le_trans)
next
  case False
  have "ahead c (th_log h)" using ok sent False by (simp add: tail_ok_def)
  then show ?thesis
    using batch_follows [OF answer, of "th_log h"] ok sent False
    by (auto simp: tail_ok_def arrived_def take_rev_append)
qed

lemma tail_ok_running [simp]: "tail_ok (h\<lparr>th_running := b\<rparr>) = tail_ok h"
  by (simp add: tail_ok_def split: option.split prod.split bool.split)

lemma tail_ok_clear: "tail_ok h \<Longrightarrow> tail_ok (clear h)"
  by (simp add: tail_ok_def clear_def split: option.splits bool.splits)

lemma tail_ok_cancel: "tail_ok h \<Longrightarrow> tail_ok (cancel_poll h)"
  by (auto simp: tail_ok_def cancel_poll_def split: option.splits)

lemma tail_ok_reachable: "tail_reachable h \<Longrightarrow> tail_ok h"
proof (induction rule: tail_reachable.induct)
  case tail_opened
  then show ?case by (simp add: tail_ok_def tail_mounted_def)
next
  case (tail_button h h')
  then show ?case
    by (auto simp: start_def stop_def retopic_def tail_ok_clear tail_ok_cancel)
next
  case (tail_tick h)
  then show ?case by (auto simp: tail_ok_def tail_ops split: option.splits)
next
  case (tail_arrived h cursor cancelled b high)
  then show ?case by (intro tail_ok_arrived)
next
  case (tail_failed h e)
  then show ?case by (auto simp: tail_ok_def tail_ops split: option.splits)
qed

text \<open>C18. Whatever order ticks, answers, failures, stops, clears and changes of topic come in, the
  rows are the newest of the messages accepted since they were last cleared, the newest first,
  five hundred at most, and no message is among them twice.\<close>

theorem tail_shows_each_message_once:
  assumes "tail_reachable h"
  shows "th_messages h = take TAIL_BUFFER (rev (th_log h)) \<and> length (th_messages h) \<le> 500 \<and>
    distinct (map message_id (th_messages h))"
proof -
  have ok: "th_messages h = take TAIL_BUFFER (rev (th_log h))" "distinct (map message_id (th_log h))"
    using tail_ok_reachable [OF assms] by (simp_all add: tail_ok_def)
  then have "distinct (map message_id (th_messages h))"
    by (simp add: take_map [symmetric] rev_map [symmetric] distinct_take)
  with ok(1) show ?thesis by (simp add: TAIL_BUFFER_def)
qed

text \<open>Opened at offset 5, then two ticks: rows 8, 7 and 6, and one message dropped.\<close>

definition sample_hook :: "tail_hook \<Rightarrow> bool" where
  "sample_hook h \<longleftrightarrow> tail_reachable h \<and> map tm_offset (th_messages h) = [8, 7, 6] \<and> th_dropped h = 1"

lemma sample_opening:
  "TailMessages ''t'' (Some [sample_queue ''a'']) (\<lambda>_. Some 5) sample_pull [] 0 =
     Inr \<lparr>bt_messages = [], bt_cursor = sample_cursor, bt_dropped = 0\<rparr>"
  by code_simp

lemma sample_running:
  defines "h \<equiv> tail_mounted\<lparr>th_running := True, th_cursor := sample_cursor, th_high := \<lambda>_. 5\<rparr>"
  shows "th_running h" "th_poll (poll h) = Some (sample_cursor, False)" "th_high (poll h) = (\<lambda>_. 5)"
    "th_messages (poll h) = []" "th_dropped (poll h) = 0"
  by (simp_all add: h_def poll_def tail_mounted_def)

lemma sample_hook_exists: "\<exists>h. sample_hook h"
proof -
  let ?b = "\<lparr>bt_messages = [], bt_cursor = sample_cursor, bt_dropped = 0\<rparr>"
  let ?h1 = "poll (start tail_mounted)"
  have "tail_answer [] (th_high ?h1) ?b (\<lambda>_. 5)"
    unfolding tail_answer_def
    by (intro exI [of _ "''t''"] exI [of _ "[sample_queue ''a'']"] exI [of _ "\<lambda>_. Some 5"] exI [of _ sample_pull]
        exI [of _ 0]) (simp add: sample_opening sample_documented tail_ops tail_mounted_def)
  moreover have "tail_reachable (start tail_mounted)"
    by (rule tail_button [OF tail_opened]) simp
  then have "tail_reachable ?h1" by (rule tail_tick) (simp add: tail_ops)
  moreover have "th_poll ?h1 = Some ([], False)" by (simp add: tail_ops tail_mounted_def)
  ultimately have "tail_reachable ((arrived ?b ?h1)\<lparr>th_high := \<lambda>_. 5\<rparr>)" by (intro tail_arrived)
  moreover have "(arrived ?b ?h1)\<lparr>th_high := \<lambda>_. 5\<rparr> =
      tail_mounted\<lparr>th_running := True, th_cursor := sample_cursor, th_high := \<lambda>_. 5\<rparr>"
    by (simp add: tail_ops arrived_def tail_mounted_def)
  ultimately obtain h where two: "tail_reachable h" "th_running h"
    and state: "th_poll (poll h) = Some (sample_cursor, False)" "th_high (poll h) = (\<lambda>_. 5)"
      "th_messages (poll h) = []" "th_dropped (poll h) = 0"
    by (metis (no_types, lifting) sample_running)
  obtain b where b: "TailMessages ''t'' (Some [sample_queue ''a'']) (\<lambda>_. Some 9) sample_pull sample_cursor 0 = Inr b"
    "map tm_offset (bt_messages b) = [6, 7, 8]" "bt_dropped b = 1" "length (bt_messages b) = 3"
    by (simp add: sample_poll)
  have "\<forall>m \<in> set (bt_messages b). tm_offset m < 9"
  proof
    fix m assume "m \<in> set (bt_messages b)"
    then have "tm_offset m \<in> set (map tm_offset (bt_messages b))" by simp
    then show "tm_offset m < 9" by (auto simp: b)
  qed
  then have "tail_answer sample_cursor (th_high (poll h)) b (\<lambda>_. 9)"
    unfolding tail_answer_def state(2)
    by (intro exI [of _ "''t''"] exI [of _ "[sample_queue ''a'']"] exI [of _ "\<lambda>_. Some 9"] exI [of _ sample_pull]
        exI [of _ 0]) (simp add: b(1) sample_documented)
  from tail_arrived [OF tail_tick [OF two] state(1) this]
  have "sample_hook ((arrived b (poll h))\<lparr>th_high := \<lambda>_. 9\<rparr>)"
    using state b by (simp add: sample_hook_def arrived_def TAIL_BUFFER_def flip: rev_map)
  then show ?thesis by blast
qed

theorem tail_shows_each_message_once_witness:
  "\<exists>h. tail_reachable h \<and> map tm_offset (th_messages h) = [8, 7, 6] \<and>
     th_messages h = take TAIL_BUFFER (rev (th_log h)) \<and> distinct (map message_id (th_messages h))"
proof -
  obtain h where h: "tail_reachable h" "map tm_offset (th_messages h) = [8, 7, 6]"
    using sample_hook_exists by (auto simp: sample_hook_def)
  from tail_shows_each_message_once [OF h(1)] h show ?thesis by (intro exI [of _ h] conjI) (elim conjE, assumption)+
qed

end
