(* ===== verification/TopicFilter.thy ===== *)
theory TopicFilter
  imports Prelude
begin

text \<open>
  MQTT topic filters (internal/driver/mqtt/topicfilter.go): splitting a shared subscription,
  checking a filter before it is sent, and matching a topic against it, level by level with an
  index, as the driver routes what a session delivers. The matching is proved equal to the rules
  of the protocol, stated as an inductive relation.
\<close>

section \<open>The code\<close>

definition sharedPrefix :: string where
  "sharedPrefix = ''$share/''"

definition splitShared :: "string \<Rightarrow> string \<times> string" where
  "splitShared f =
     (if \<not> prefix sharedPrefix f then ('''', f)
      else (let rest = drop (length sharedPrefix) f
            in case find_index (\<lambda>c. c = CHR ''/'') rest of
                 None \<Rightarrow> ('''', f)
               | Some slash \<Rightarrow> (take slash rest, drop (slash + 1) rest)))"

abbreviation levels :: "string \<Rightarrow> string list" where
  "levels s \<equiv> js_split CHR ''/'' s"

text \<open>The loop over the levels of the filter.\<close>

function match_from :: "string list \<Rightarrow> string list \<Rightarrow> nat \<Rightarrow> bool" where
  "match_from fs ts i =
     (if i < length fs then
        (let level = fs ! i in
         if level = ''#'' then i = length fs - 1
         else if i \<ge> length ts then False
         else if level = ''+'' then match_from fs ts (i + 1)
         else if level \<noteq> ts ! i then False
         else match_from fs ts (i + 1))
      else length fs = length ts)"
  by pat_completeness auto
termination by (relation "measure (\<lambda>(fs, ts, i). length fs - i)") auto

declare match_from.simps [simp del]

definition matchesFilter :: "string \<Rightarrow> string \<Rightarrow> bool" where
  "matchesFilter f topic =
     (if f = '''' \<or> topic = '''' then False
      else (let fs = levels (snd (splitShared f)); ts = levels topic
            in if prefix ''$'' topic \<and> (fs ! 0 = ''#'' \<or> fs ! 0 = ''+'') then False
               else match_from fs ts 0))"

text \<open>The loop that refuses a filter: \<open>#\<close> anywhere but last, or a wildcard inside a level.\<close>

fun valid_levels :: "string list \<Rightarrow> bool" where
  "valid_levels [] = True"
| "valid_levels (level # rest) =
     (if level = ''#'' then rest = [] \<and> valid_levels rest
      else if level = ''+'' then valid_levels rest
      else if CHR ''+'' \<in> set level \<or> CHR ''#'' \<in> set level then False
      else valid_levels rest)"

definition validFilter :: "string \<Rightarrow> bool" where
  "validFilter f =
     (if f = '''' then False
      else (let shared = prefix sharedPrefix f; (group, rest) = splitShared f
            in if rest = '''' \<or> shared \<and> group = '''' then False else valid_levels (levels rest)))"

section \<open>The rules of the protocol\<close>

inductive covers :: "string list \<Rightarrow> string list \<Rightarrow> bool" where
  covers_end: "covers [] []"
| covers_rest: "covers [''#''] ts"
| covers_one: "covers fs ts \<Longrightarrow> covers (''+'' # fs) (t # ts)"
| covers_same: "l \<noteq> ''#'' \<Longrightarrow> l \<noteq> ''+'' \<Longrightarrow> covers fs ts \<Longrightarrow> covers (l # fs) (l # ts)"

inductive_simps covers_Nil: "covers [] ts"
inductive_simps covers_Cons: "covers (f # fs) ts"

lemma valid_hash_last: "valid_levels fs \<Longrightarrow> i < length fs \<Longrightarrow> fs ! i = ''#'' \<Longrightarrow> i = length fs - 1"
proof (induction fs arbitrary: i)
  case (Cons f fs)
  then show ?case
    by (cases i) (fastforce split: if_splits)+
qed simp

lemma match_from_covers:
  assumes "valid_levels fs" and "i \<le> length fs" and "i \<le> length ts"
  shows "match_from fs ts i \<longleftrightarrow> covers (drop i fs) (drop i ts)"
  using assms
proof (induction fs ts i rule: match_from.induct)
  case (1 fs ts i)
  show ?case
  proof (cases "i < length fs")
    case False
    with 1(4) have "i = length fs" by simp
    then show ?thesis using 1(5) by (auto simp: match_from.simps [of fs ts "length fs"] covers_Nil)
  next
    case i: True
    then have fs: "drop i fs = fs ! i # drop (Suc i) fs" by (simp add: Cons_nth_drop_Suc)
    have hash: "fs ! i = ''#'' \<Longrightarrow> i = length fs - 1 \<and> drop (Suc i) fs = []"
      using valid_hash_last [OF 1(3) i] by auto
    show ?thesis
    proof (cases "i < length ts")
      case False
      then have "drop i ts = []" by simp
      then show ?thesis
        using i hash False by (auto simp: match_from.simps [of fs ts i] fs covers_Cons Let_def)
    next
      case True
      then have ts: "drop i ts = ts ! i # drop (Suc i) ts" by (simp add: Cons_nth_drop_Suc)
      have step: "match_from fs ts (i + 1) \<longleftrightarrow> covers (drop (Suc i) fs) (drop (Suc i) ts)"
        if "fs ! i \<noteq> ''#''" "fs ! i = ''+'' \<or> fs ! i = ts ! i"
        using 1 i True that by (cases "fs ! i = ''+''") simp_all
      show ?thesis
        using i True hash step
        by (auto simp: match_from.simps [of fs ts i] fs ts covers_Cons Let_def)
    qed
  qed
qed

lemma valid_shape:
  assumes "validFilter f"
  shows "f \<noteq> ''''" "valid_levels (levels (snd (splitShared f)))"
  using assms by (auto simp: validFilter_def Let_def split: if_splits prod.splits)

text \<open>C22. The driver routes a message to a stream exactly when the protocol's rules say its filter
  covers the topic: \<open>+\<close> one level, \<open>#\<close> what is left including nothing, and neither of them, in
  front, a topic that begins with a dollar sign.\<close>

theorem routes_as_specified:
  assumes "validFilter f" and "topic \<noteq> ''''"
  shows "matchesFilter f topic \<longleftrightarrow>
    covers (levels (snd (splitShared f))) (levels topic) \<and>
    \<not> (prefix ''$'' topic \<and> hd (levels (snd (splitShared f))) \<in> {''#'', ''+''})"
proof -
  have "levels (snd (splitShared f)) \<noteq> []" by (rule js_split_nonempty)
  then show ?thesis
    using valid_shape [OF assms(1)] assms(2) match_from_covers [of "levels (snd (splitShared f))" 0 "levels topic"]
    by (auto simp: matchesFilter_def Let_def hd_conv_nth)
qed

theorem routes_as_specified_witness:
  "matchesFilter ''$share/g/a/+/#'' ''a/b'' \<and> covers [''a'', ''+'', ''#''] [''a'', ''b''] \<and>
   \<not> matchesFilter ''#'' ''$SYS/x''"
proof -
  have valid: "validFilter ''$share/g/a/+/#''" "validFilter ''#''" by code_simp+
  have shape: "levels (snd (splitShared ''$share/g/a/+/#'')) = [''a'', ''+'', ''#'']" "levels ''a/b'' = [''a'', ''b'']"
    "prefix ''$'' ''$SYS/x''" "\<not> prefix ''$'' ''a/b''" "levels (snd (splitShared ''#'')) = [''#'']"
    by code_simp+
  have "covers [''a'', ''+'', ''#''] [''a'', ''b'']"
    by (auto simp: covers_Cons)
  then show ?thesis
    using routes_as_specified [OF valid(1), of "''a/b''"] routes_as_specified [OF valid(2), of "''$SYS/x''"] shape
    by simp
qed

end
