(* ===== verification/LiveBuffer.thy ===== *)
theory LiveBuffer
  imports Prelude
begin

text \<open>
  What a driver owes a panel that follows a live subscription (internal/model/livestream.go): a
  buffer of bounded size that numbers what arrives, and a read of what came after a number. The
  contract is the locale \<open>live_buffer\<close>; its lemmas say what a reader gets of a whole run of
  arrivals and reads.
\<close>

record live_message =
  lm_seq :: int
  lm_destination :: string
  lm_filter :: string
  lm_receivedAt :: string
  lm_body :: string
  lm_truncated :: bool
  lm_attributes :: "(string \<times> string) list"

record live_batch =
  lb_messages :: "live_message list"
  lb_cursor :: int
  lb_dropped :: int
  lb_received :: int
  lb_live :: bool

section \<open>What is held\<close>

text \<open>The arrivals with their numbers, from 1, and those a buffer of the given size still holds.\<close>

definition numbered :: "live_message list \<Rightarrow> live_message list" where
  "numbered ms = map (\<lambda>(i, m). m\<lparr>lm_seq := int i\<rparr>) (enumerate 1 ms)"

definition held :: "nat \<Rightarrow> live_message list \<Rightarrow> live_message list" where
  "held cap ms = drop (length ms - cap) (numbered ms)"

definition between :: "int \<Rightarrow> int \<Rightarrow> live_message list \<Rightarrow> live_message list" where
  "between a c = filter (\<lambda>m. a < lm_seq m \<and> lm_seq m \<le> c)"

lemma length_numbered [simp]: "length (numbered ms) = length ms"
  by (simp add: numbered_def)

lemma numbered_Nil [simp]: "numbered [] = []"
  by (simp add: numbered_def)

lemma numbered_snoc: "numbered (ms @ [m]) = numbered ms @ [m\<lparr>lm_seq := int (length ms) + 1\<rparr>]"
  by (simp add: numbered_def enumerate_append_eq)

lemma seqs_numbered: "map lm_seq (numbered ms) = [1 .. int (length ms)]"
proof (induction ms rule: rev_induct)
  case (snoc m ms)
  have "[1 .. int (length ms) + 1] = [1 .. int (length ms)] @ [int (length ms) + 1]"
    by (subst upto_rec2) simp_all
  with snoc show ?case by (simp add: numbered_snoc add.commute)
qed simp

lemma seq_numbered: "i < length ms \<Longrightarrow> lm_seq (numbered ms ! i) = int i + 1"
  using arg_cong [OF seqs_numbered, of "\<lambda>xs. xs ! i", of ms] by simp

lemma seq_range: "m \<in> set (numbered ms) \<Longrightarrow> 1 \<le> lm_seq m \<and> lm_seq m \<le> int (length ms)"
  by (auto simp: in_set_conv_nth seq_numbered)

lemma distinct_numbered: "distinct (map lm_seq (numbered ms))"
  by (simp add: seqs_numbered)

lemma held_seq:
  assumes "m \<in> set (numbered ms)"
  shows "m \<in> set (held cap ms) \<longleftrightarrow> int (length ms - cap) < lm_seq m"
proof -
  obtain i where i: "i < length ms" "m = numbered ms ! i" using assms by (auto simp: in_set_conv_nth)
  show ?thesis
  proof
    assume "m \<in> set (held cap ms)"
    then obtain j where "j < length ms - (length ms - cap)" "m = numbered ms ! (length ms - cap + j)"
      by (auto simp: held_def in_set_conv_nth)
    then show "int (length ms - cap) < lm_seq m" by (simp add: seq_numbered)
  next
    assume "int (length ms - cap) < lm_seq m"
    then have "length ms - cap \<le> i" using i by (simp add: seq_numbered)
    then have "m = held cap ms ! (i - (length ms - cap))" "i - (length ms - cap) < length (held cap ms)"
      using i by (simp_all add: held_def)
    then show "m \<in> set (held cap ms)" by (auto simp: in_set_conv_nth)
  qed
qed

lemma between_held:
  "between a c (held cap ms) = filter (\<lambda>m. int (length ms - cap) < lm_seq m) (between a c (numbered ms))"
proof -
  let ?k = "length ms - cap"
  have low: "filter (\<lambda>m. int ?k < lm_seq m) (take ?k (numbered ms)) = []"
    by (auto simp: filter_empty_conv in_set_conv_nth seq_numbered)
  have high: "filter (\<lambda>m. int ?k < lm_seq m) (drop ?k (numbered ms)) = drop ?k (numbered ms)"
    by (auto simp: filter_id_conv in_set_conv_nth seq_numbered)
  have "filter (\<lambda>m. int ?k < lm_seq m) (numbered ms) = drop ?k (numbered ms)"
    using low high by (metis append_Nil append_take_drop_id filter_append)
  then have "held cap ms = filter (\<lambda>m. int ?k < lm_seq m) (numbered ms)" by (simp add: held_def)
  then show ?thesis unfolding between_def by (simp only: filter_filter conj_commute)
qed

lemma between_split:
  assumes "0 \<le> a" and "a \<le> c"
  shows "between 0 c (numbered ms) = between 0 a (numbered ms) @ between a c (numbered ms)"
proof (induction ms rule: rev_induct)
  case Nil
  show ?case by (simp add: between_def)
next
  case (snoc m ms)
  show ?case
  proof (cases "int (length ms) + 1 \<le> a")
    case True
    then have "between a c (numbered ms) = []"
      by (auto simp: between_def filter_empty_conv dest: seq_range)
    with True assms snoc show ?thesis by (simp add: numbered_snoc between_def)
  next
    case False
    with assms snoc show ?thesis by (simp add: numbered_snoc between_def)
  qed
qed

lemma between_later:
  assumes "c \<le> int (length ms)"
  shows "between a c (numbered (ms @ [m])) = between a c (numbered ms)"
  using assms by (simp add: numbered_snoc between_def)

lemma held_grows:
  "length ms < cap \<Longrightarrow> held cap (ms @ [m]) = held cap ms @ [m\<lparr>lm_seq := int (length ms) + 1\<rparr>]"
  by (simp add: held_def numbered_snoc)

lemma held_slides:
  "0 < cap \<Longrightarrow> cap \<le> length ms \<Longrightarrow>
   held cap (ms @ [m]) = tl (held cap ms) @ [m\<lparr>lm_seq := int (length ms) + 1\<rparr>]"
  by (simp add: held_def numbered_snoc Suc_diff_le drop_Suc flip: tl_drop)

lemma length_held [simp]: "length (held cap ms) = min (length ms) cap"
  by (simp add: held_def)

lemma take_is_window:
  assumes "sorted_wrt (<) (map lm_seq ms)" and "take k ms \<noteq> []"
  shows "take k ms = filter (\<lambda>m. lm_seq m \<le> lm_seq (last (take k ms))) ms"
    and "k \<ge> length ms \<Longrightarrow> filter (\<lambda>m. lm_seq (last (take k ms)) < lm_seq m) ms = []"
proof -
  let ?c = "lm_seq (last (take k ms))"
  have sorted: "sorted_wrt (<) (map lm_seq (take k ms @ drop k ms))" using assms(1) by simp
  have last: "last (take k ms) \<in> set (take k ms)" by (rule last_in_set) (rule assms(2))
  have low: "lm_seq m \<le> ?c" if "m \<in> set (take k ms)" for m
  proof -
    have "take k ms = butlast (take k ms) @ [last (take k ms)]" using assms(2) by simp
    then have "sorted_wrt (<) (map lm_seq (butlast (take k ms) @ [last (take k ms)]))"
      using sorted by (metis map_append sorted_wrt_append)
    moreover have "m \<in> set (butlast (take k ms)) \<or> m = last (take k ms)"
      using that \<open>take k ms = _\<close> by (metis Un_iff empty_iff insert_iff list.set set_append)
    ultimately show ?thesis by (auto simp: sorted_wrt_append)
  qed
  have high: "?c < lm_seq m" if "m \<in> set (drop k ms)" for m
    using sorted last that unfolding map_append sorted_wrt_append by fastforce
  have "filter (\<lambda>m. lm_seq m \<le> ?c) (take k ms) = take k ms" using low by (simp add: filter_id_conv)
  moreover have "filter (\<lambda>m. lm_seq m \<le> ?c) (drop k ms) = []"
    using high by (fastforce simp: filter_empty_conv)
  ultimately show "take k ms = filter (\<lambda>m. lm_seq m \<le> ?c) ms"
    by (metis append_Nil2 append_take_drop_id filter_append)
  show "filter (\<lambda>m. ?c < lm_seq m) ms = []" if "k \<ge> length ms"
    using low that by (fastforce simp: filter_empty_conv)
qed

lemma sorted_held: "sorted_wrt (<) (map lm_seq (held cap ms))"
proof -
  have "sorted_wrt (<) (map lm_seq (numbered ms))" by (simp add: seqs_numbered sorted_wrt_upto)
  then show ?thesis by (simp add: held_def sorted_wrt_drop flip: drop_map)
qed

lemma held_range: "m \<in> set (held cap ms) \<Longrightarrow> int (length ms - cap) < lm_seq m \<and> lm_seq m \<le> int (length ms)"
  using held_seq [of m ms cap] seq_range [of m ms] by (auto simp: held_def dest: in_set_dropD)

section \<open>The contract\<close>

datatype live_event = Arrive live_message | Poll int

text \<open>A reader that passes on the cursor it was given: what has arrived, its cursor, what it has
  been handed.\<close>

type_synonym reading = "live_message list \<times> int \<times> live_message list"

primrec reader_step ::
    "(live_message \<Rightarrow> 'b \<Rightarrow> 'b) \<Rightarrow> 'b \<Rightarrow> (int \<Rightarrow> int \<Rightarrow> 'b \<Rightarrow> live_batch) \<Rightarrow> live_event \<Rightarrow> reading \<Rightarrow> reading" where
  "reader_step push fresh read (Arrive m) s = (case s of (ms, c, out) \<Rightarrow> (ms @ [m], c, out))"
| "reader_step push fresh read (Poll limit) s = (case s of (ms, c, out) \<Rightarrow>
     (let b = read c limit (fold push ms fresh) in (ms, lb_cursor b, out @ lb_messages b)))"

definition reader ::
    "(live_message \<Rightarrow> 'b \<Rightarrow> 'b) \<Rightarrow> 'b \<Rightarrow> (int \<Rightarrow> int \<Rightarrow> 'b \<Rightarrow> live_batch) \<Rightarrow> live_event list \<Rightarrow> reading" where
  "reader push fresh read es = fold (reader_step push fresh read) es ([], 0, [])"

lemma reader_append:
  "reader push fresh read (es @ xs) = fold (reader_step push fresh read) xs (reader push fresh read es)"
  by (simp add: reader_def)

lemma reader_snoc: "reader push fresh read (es @ [e]) = reader_step push fresh read e (reader push fresh read es)"
  by (simp add: reader_append)

text \<open>A reader that asks after every arrival.\<close>

definition eager :: "live_message list \<Rightarrow> live_event list" where
  "eager ms = concat (map (\<lambda>m. [Arrive m, Poll 0]) ms)"

locale live_buffer =
  fixes cap :: nat
    and fresh :: 'b
    and push :: "live_message \<Rightarrow> 'b \<Rightarrow> 'b"
    and read :: "int \<Rightarrow> int \<Rightarrow> 'b \<Rightarrow> live_batch"
  assumes window: "b = read after limit (fold push ms fresh) \<Longrightarrow> 0 \<le> after \<Longrightarrow> after \<le> int (length ms) \<Longrightarrow>
      lb_messages b = between after (lb_cursor b) (held cap ms)"
    and onward: "b = read after limit (fold push ms fresh) \<Longrightarrow> 0 \<le> after \<Longrightarrow> after \<le> int (length ms) \<Longrightarrow>
      after \<le> lb_cursor b \<and> lb_cursor b \<le> int (length ms)"
    and to_the_end: "b = read after limit (fold push ms fresh) \<Longrightarrow> 0 \<le> after \<Longrightarrow> after \<le> int (length ms) \<Longrightarrow>
      limit \<le> 0 \<or> int (length (lb_messages b)) < limit \<Longrightarrow>
      between (lb_cursor b) (int (length ms)) (held cap ms) = []"
    and counted: "lb_received (read after limit (fold push ms fresh)) = int (length ms)"
      "lb_dropped (read after limit (fold push ms fresh)) = int (length ms - cap)"
begin

text \<open>A reader has been handed, in order and once each, everything up to its cursor, except what had
  been overwritten before it asked.\<close>

lemma reader_law:
  assumes "reader push fresh read es = (ms, c, out)"
  shows "0 \<le> c \<and> c \<le> int (length ms) \<and>
    (\<exists>lost. lost \<subseteq> {1 .. int (length ms - cap)} \<and>
       out = filter (\<lambda>m. lm_seq m \<notin> lost) (between 0 c (numbered ms)))"
  using assms
proof (induction es arbitrary: ms c out rule: rev_induct)
  case Nil
  then show ?case by (auto simp: reader_def between_def)
next
  case (snoc e es)
  obtain ms0 c0 out0 where before: "reader push fresh read es = (ms0, c0, out0)" by (metis prod_cases3)
  from snoc.IH [OF before] obtain lost where c0: "0 \<le> c0" "c0 \<le> int (length ms0)"
    and lost: "lost \<subseteq> {1 .. int (length ms0 - cap)}"
    and out0: "out0 = filter (\<lambda>m. lm_seq m \<notin> lost) (between 0 c0 (numbered ms0))" by blast
  show ?case
  proof (cases e)
    case (Arrive m)
    with snoc.prems before have new: "ms = ms0 @ [m]" "c = c0" "out = out0" by (simp_all add: reader_snoc)
    have "lost \<subseteq> {1 .. int (length ms - cap)}"
      using lost by (rule order_trans) (auto simp: new(1))
    moreover have "out = filter (\<lambda>m. lm_seq m \<notin> lost) (between 0 c (numbered ms))"
      using out0 new c0 between_later [of c0 ms0] by simp
    ultimately show ?thesis using c0 new by auto
  next
    case (Poll limit)
    define b where "b = read c0 limit (fold push ms0 fresh)"
    from Poll snoc.prems before have new: "ms = ms0" "c = lb_cursor b" "out = out0 @ lb_messages b"
      by (auto simp: reader_snoc b_def Let_def)
    note c = onward [OF b_def c0]
    define gone where "gone = {s. c0 < s \<and> s \<le> int (length ms0 - cap)}"
    have "lb_messages b = filter (\<lambda>m. lm_seq m \<notin> lost \<union> gone) (between c0 c (numbered ms0))" (is "_ = ?new")
    proof -
      have fresh_only: "int (length ms0 - cap) < s \<longleftrightarrow> s \<notin> lost \<and> s \<notin> gone" if "c0 < s" for s
        using lost that unfolding gone_def by (auto dest!: subsetD)
      show ?thesis
        unfolding window [OF b_def c0] between_held new(2)
        by (rule filter_cong [OF refl]) (simp add: fresh_only between_def)
    qed
    moreover have "out0 = filter (\<lambda>m. lm_seq m \<notin> lost \<union> gone) (between 0 c0 (numbered ms0))"
      unfolding out0 by (rule filter_cong [OF refl]) (auto simp: gone_def between_def)
    ultimately have "out = filter (\<lambda>m. lm_seq m \<notin> lost \<union> gone) (between 0 c (numbered ms))"
      using new c c0 between_split [of c0 c ms0] by simp
    moreover have "lost \<union> gone \<subseteq> {1 .. int (length ms - cap)}" using lost new(1) c0 by (auto simp: gone_def)
    ultimately show ?thesis using c c0 new by (auto intro!: exI [of _ "lost \<union> gone"])
  qed
qed

text \<open>A reader that asks after every arrival is handed everything.\<close>

lemma eager_reader:
  assumes "0 < cap"
  shows "reader push fresh read (eager ms) = (ms, int (length ms), numbered ms)"
proof (induction ms rule: rev_induct)
  case Nil
  show ?case by (simp add: eager_def reader_def)
next
  case (snoc m ms)
  define b where "b = read (int (length ms)) 0 (fold push (ms @ [m]) fresh)"
  have bounds: "int (length ms) \<le> lb_cursor b \<and> lb_cursor b \<le> int (length (ms @ [m]))"
    by (rule onward [OF b_def]) simp_all
  have last: "m\<lparr>lm_seq := int (length ms) + 1\<rparr> \<in> set (held cap (ms @ [m]))"
    using assms by (subst held_seq) (auto simp: numbered_snoc)
  have "between (lb_cursor b) (int (length (ms @ [m]))) (held cap (ms @ [m])) = []"
    by (rule to_the_end [OF b_def]) simp_all
  then have "\<not> lb_cursor b < int (length ms) + 1"
    using last by (auto simp: between_def filter_empty_conv)
  then have cursor: "lb_cursor b = int (length ms) + 1" using bounds by simp
  have "between (int (length ms)) (int (length ms) + 1) (numbered ms) = []"
    by (auto simp: between_def filter_empty_conv dest: seq_range)
  then have "between (int (length ms)) (int (length ms) + 1) (held cap (ms @ [m])) =
      [m\<lparr>lm_seq := int (length ms) + 1\<rparr>]"
    unfolding between_held using assms by (auto simp: numbered_snoc between_def)
  then have messages: "lb_messages b = [m\<lparr>lm_seq := int (length ms) + 1\<rparr>]"
    using window [OF b_def] cursor by simp
  have "eager (ms @ [m]) = eager ms @ [Arrive m, Poll 0]" by (simp add: eager_def)
  then show ?case
    using snoc b_def cursor messages by (simp add: reader_append Let_def numbered_snoc)
qed

end

end
