(* ===== verification/MqttStream.thy ===== *)
theory MqttStream
  imports TopicFilter LiveBuffer
begin

text \<open>
  The live subscriptions of an MQTT connection (internal/driver/mqtt/subscribe.go): the ring behind
  one stream, and the streams of a connection with starting, stopping, polling and routing. The
  ring is shown to implement \<open>live_buffer\<close>. Whether the broker accepts a subscription and the
  moment of an arrival are arguments.
\<close>

section \<open>The ring of a stream\<close>

record live_filter =
  lf_pattern :: string
  lf_options :: "(string \<times> string) list"

record mqtt_stream =
  qs_id :: string
  qs_filters :: "live_filter list"
  qs_startedAt :: string
  qs_ring :: "live_message option list"
  qs_start :: nat
  qs_length :: nat
  qs_nextSeq :: int
  qs_received :: int
  qs_dropped :: int
  qs_live :: bool

definition newStream :: "string \<Rightarrow> string \<Rightarrow> live_filter list \<Rightarrow> nat \<Rightarrow> mqtt_stream" where
  "newStream now i filters buffer =
     \<lparr>qs_id = i, qs_filters = filters, qs_startedAt = now, qs_ring = replicate buffer None,
      qs_start = 0, qs_length = 0, qs_nextSeq = 1, qs_received = 0, qs_dropped = 0, qs_live = True\<rparr>"

definition stream_append :: "live_message \<Rightarrow> mqtt_stream \<Rightarrow> mqtt_stream" where
  "stream_append message s =
     (let m = message\<lparr>lm_seq := qs_nextSeq s\<rparr>;
          s1 = s\<lparr>qs_nextSeq := qs_nextSeq s + 1, qs_received := qs_received s + 1\<rparr>;
          size = length (qs_ring s)
      in if qs_length s = size
         then s1\<lparr>qs_ring := (qs_ring s)[qs_start s := Some m],
                 qs_start := (qs_start s + 1) mod size, qs_dropped := qs_dropped s + 1\<rparr>
         else s1\<lparr>qs_ring := (qs_ring s)[(qs_start s + qs_length s) mod size := Some m],
                 qs_length := qs_length s + 1\<rparr>)"

text \<open>The slots in use, oldest first.\<close>

definition in_use :: "mqtt_stream \<Rightarrow> live_message list" where
  "in_use s =
     map (\<lambda>i. the (qs_ring s ! ((qs_start s + i) mod length (qs_ring s)))) [0..<qs_length s]"

text \<open>The loop of a poll, with what it has collected and the cursor so far.\<close>

fun collect :: "int \<Rightarrow> int \<Rightarrow> live_message list \<Rightarrow> int \<Rightarrow> live_message list \<Rightarrow> live_message list \<times> int" where
  "collect after limit found cursor [] = (found, cursor)"
| "collect after limit found cursor (m # ms) =
     (if lm_seq m \<le> after then collect after limit found cursor ms
      else if limit > 0 \<and> int (length found) \<ge> limit then (found, cursor)
      else collect after limit (found @ [m]) (lm_seq m) ms)"

definition oldestSeq :: "mqtt_stream \<Rightarrow> int" where
  "oldestSeq s = (if qs_length s = 0 then 0 else lm_seq (the (qs_ring s ! qs_start s)))"

definition stream_poll :: "int \<Rightarrow> int \<Rightarrow> mqtt_stream \<Rightarrow> live_batch" where
  "stream_poll after limit s =
     (let (found, cursor) = collect after limit [] after (in_use s);
          oldest = oldestSeq s
      in \<lparr>lb_messages = found,
          lb_cursor = (if found = [] \<and> oldest > 0 \<and> after < oldest - 1 then oldest - 1 else cursor),
          lb_dropped = qs_dropped s, lb_received = qs_received s, lb_live = qs_live s\<rparr>)"

section \<open>The ring holds the last arrivals\<close>

definition ring_ok :: "nat \<Rightarrow> live_message list \<Rightarrow> mqtt_stream \<Rightarrow> bool" where
  "ring_ok cap ms s \<longleftrightarrow>
     length (qs_ring s) = cap \<and> qs_start s < cap \<and> qs_length s = min (length ms) cap \<and>
     qs_nextSeq s = int (length ms) + 1 \<and> qs_received s = int (length ms) \<and>
     qs_dropped s = int (length ms - cap) \<and>
     (\<forall>i < qs_length s. qs_ring s ! ((qs_start s + i) mod cap) = Some (held cap ms ! i))"

lemma ring_slot:
  "ring_ok cap ms s \<Longrightarrow> i < length ms \<Longrightarrow> i < cap \<Longrightarrow>
   qs_ring s ! ((qs_start s + i) mod cap) = Some (held cap ms ! i)"
  by (simp add: ring_ok_def)

lemma ring_ok_new: "0 < cap \<Longrightarrow> ring_ok cap [] (newStream now i filters cap)"
  by (simp add: ring_ok_def newStream_def)

text \<open>Two places of the ring differ when their distances from the start do.\<close>

lemma ring_places_less:
  fixes i j :: nat
  assumes "i < j" and "j < cap"
  shows "(s + i) mod cap \<noteq> (s + j) mod cap"
proof
  assume "(s + i) mod cap = (s + j) mod cap"
  then have "cap dvd (s + j) - (s + i)" using assms by (subst mod_eq_dvd_iff_nat [symmetric]) simp_all
  then have "cap dvd j - i" by simp
  then have "cap \<le> j - i" using assms by (intro dvd_imp_le) simp_all
  then show False using assms by simp
qed

lemma ring_places:
  fixes i j :: nat
  assumes "i < cap" and "j < cap" and "(s + i) mod cap = (s + j) mod cap"
  shows "i = j"
  using assms ring_places_less [of i j cap s] ring_places_less [of j i cap s]
  by (cases i j rule: linorder_cases) auto

lemma ring_ok_append:
  assumes ok: "ring_ok cap ms s" and "0 < cap"
  shows "ring_ok cap (ms @ [m]) (stream_append m s)"
proof (cases "length ms < cap")
  case True
  let ?m = "m\<lparr>lm_seq := int (length ms) + 1\<rparr>"
  have "(qs_ring s)[(qs_start s + length ms) mod cap := Some ?m] ! ((qs_start s + i) mod cap) =
      Some ((held cap ms @ [?m]) ! i)" if "i < Suc (length ms)" for i
  proof (cases "i = length ms")
    case False
    with that have i: "i < length ms" by simp
    then have "(qs_start s + i) mod cap \<noteq> (qs_start s + length ms) mod cap"
      using ring_places [of i cap "length ms" "qs_start s"] True by auto
    then show ?thesis using ok i True by (simp add: ring_ok_def nth_append)
  qed (use ok True in \<open>simp add: ring_ok_def nth_append\<close>)
  then show ?thesis
    using ok True by (simp add: ring_ok_def stream_append_def Let_def held_grows)
next
  case False
  let ?m = "m\<lparr>lm_seq := int (length ms) + 1\<rparr>"
  have "(qs_ring s)[qs_start s := Some ?m] ! (((qs_start s + 1) mod cap + i) mod cap) =
      Some ((tl (held cap ms) @ [?m]) ! i)" if i: "i < cap" for i
  proof (cases "i = cap - 1")
    case True
    have "((qs_start s + 1) mod cap + i) mod cap = (qs_start s + 1 + i) mod cap" by (simp add: mod_simps)
    also have "\<dots> = qs_start s" using True ok \<open>0 < cap\<close> by (simp add: ring_ok_def)
    finally show ?thesis using True False ok by (simp add: ring_ok_def nth_append)
  next
    case other: False
    then have inner: "Suc i < cap" using i by linarith
    have place: "((qs_start s + 1) mod cap + i) mod cap = (qs_start s + Suc i) mod cap" by (simp add: mod_simps)
    have "(qs_start s + Suc i) mod cap \<noteq> (qs_start s + 0) mod cap"
    proof -
      show ?thesis using inner ring_places_less [of 0 "Suc i" cap "qs_start s"] by auto
    qed
    then have "(qs_start s + Suc i) mod cap \<noteq> qs_start s" using ok by (simp add: ring_ok_def)
    then show ?thesis
      using ok False inner ring_slot [OF ok, of "Suc i"] unfolding place
      by (simp add: nth_append nth_tl less_diff_conv)
  qed
  then show ?thesis
    using ok False \<open>0 < cap\<close> by (simp add: ring_ok_def stream_append_def Let_def held_slides Suc_diff_le)
qed

lemma ring_ok_fold:
  "0 < cap \<Longrightarrow> ring_ok cap ms (fold stream_append ms (newStream now i filters cap))"
  by (induction ms rule: rev_induct) (simp_all add: ring_ok_new ring_ok_append)

lemma in_use_held: "ring_ok cap ms s \<Longrightarrow> in_use s = held cap ms"
  by (rule nth_equalityI) (simp_all add: ring_ok_def in_use_def)

section \<open>A poll reads a window\<close>

lemma collect_eq:
  "collect after limit found cursor ms =
     (let new = filter (\<lambda>m. after < lm_seq m) ms;
          got = (if limit > 0 then take (nat limit - length found) new else new)
      in (found @ got, if got = [] then cursor else lm_seq (last got)))"
proof (induction after limit found cursor ms rule: collect.induct)
  case (2 after limit found cursor m ms)
  show ?case
  proof (cases "lm_seq m \<le> after \<or> limit > 0 \<and> int (length found) \<ge> limit")
    case True
    then show ?thesis using 2 by (auto simp: Let_def)
  next
    case False
    then have "limit > 0 \<Longrightarrow> nat limit - length found = Suc (nat limit - Suc (length found))" by linarith
    then show ?thesis using 2(2) False by (auto simp: Let_def)
  qed
qed (simp add: Let_def)

lemma poll_window:
  assumes ok: "ring_ok cap ms s" and "0 < cap"
    and after: "0 \<le> after" "after \<le> int (length ms)" and b: "b = stream_poll after limit s"
  shows "lb_messages b = between after (lb_cursor b) (held cap ms)"
    "after \<le> lb_cursor b" "lb_cursor b \<le> int (length ms)"
    "limit \<le> 0 \<or> int (length (lb_messages b)) < limit \<Longrightarrow>
      between (lb_cursor b) (int (length ms)) (held cap ms) = []"
proof -
  define new where "new = filter (\<lambda>m. after < lm_seq m) (held cap ms)"
  define k where "k = (if limit > 0 then nat limit else length new)"
  have batch: "lb_messages b = take k new"
    "lb_cursor b = (if take k new = []
       then (if oldestSeq s > 0 \<and> after < oldestSeq s - 1 then oldestSeq s - 1 else after)
       else lm_seq (last (take k new)))"
    using b by (auto simp: stream_poll_def in_use_held [OF ok] collect_eq new_def k_def Let_def)
  have sorted: "sorted_wrt (<) (map lm_seq new)"
    unfolding new_def using sorted_held [of cap ms] by (simp add: sorted_wrt_map sorted_wrt_filter)
  have oldest: "oldestSeq s = (if ms = [] then 0 else int (length ms - cap) + 1)"
  proof (cases "ms = []")
    case False
    then have "qs_ring s ! ((qs_start s + 0) mod cap) = Some (held cap ms ! 0)"
      using \<open>0 < cap\<close> by (intro ring_slot [OF ok]) simp_all
    then show ?thesis
      using ok False \<open>0 < cap\<close> by (simp add: oldestSeq_def ring_ok_def held_def seq_numbered)
  qed (use ok in \<open>simp add: oldestSeq_def ring_ok_def\<close>)
  have "new = []" if "take k new = []"
    using that by (auto simp: k_def split: if_splits)
  moreover have "oldestSeq s - 1 \<le> int (length ms)" by (simp add: oldest)
  ultimately have empty: "between after c (held cap ms) = [] \<and> between c (int (length ms)) (held cap ms) = []"
    if "take k new = []" "after \<le> c" for c
    using that by (auto simp: new_def between_def filter_empty_conv)
  show "after \<le> lb_cursor b" "lb_cursor b \<le> int (length ms)"
  proof -
    have "last (take k new) \<in> set new" if "take k new \<noteq> []"
      using last_in_set [OF that] by (rule in_set_takeD)
    then have "after < lm_seq (last (take k new)) \<and> lm_seq (last (take k new)) \<le> int (length ms)"
      if "take k new \<noteq> []" using that by (auto simp: new_def dest: held_range)
    then show "after \<le> lb_cursor b" "lb_cursor b \<le> int (length ms)"
      using after oldest by (auto simp: batch)
  qed
  show "lb_messages b = between after (lb_cursor b) (held cap ms)"
  proof (cases "take k new = []")
    case True
    then show ?thesis using empty [OF True \<open>after \<le> lb_cursor b\<close>] by (simp add: batch(1))
  next
    case False
    from take_is_window(1) [OF sorted False] False show ?thesis
      by (simp add: batch new_def between_def conj_commute)
  qed
  show "between (lb_cursor b) (int (length ms)) (held cap ms) = []"
    if "limit \<le> 0 \<or> int (length (lb_messages b)) < limit"
  proof (cases "take k new = []")
    case True
    then show ?thesis using empty [OF True \<open>after \<le> lb_cursor b\<close>] by simp
  next
    case False
    have "k \<ge> length new" using that by (auto simp: batch(1) k_def min_def split: if_splits)
    from take_is_window(2) [OF sorted False this] False
    have "filter (\<lambda>m. lb_cursor b < lm_seq m) new = []" by (simp add: batch(2))
    moreover have "m \<in> set new" if "m \<in> set (held cap ms)" "lb_cursor b < lm_seq m" for m
      using that \<open>after \<le> lb_cursor b\<close> by (simp add: new_def)
    ultimately show ?thesis by (auto simp: between_def filter_empty_conv)
  qed
qed

interpretation mqtt_ring: live_buffer "Suc n" "newStream now i filters (Suc n)" stream_append stream_poll
  for n now i filters
proof
  fix b after limit ms
  assume b: "b = stream_poll after limit (fold stream_append ms (newStream now i filters (Suc n)))"
    and after: "0 \<le> after" "after \<le> int (length ms)"
  note poll = poll_window [OF ring_ok_fold [OF zero_less_Suc] zero_less_Suc after b]
  show "lb_messages b = between after (lb_cursor b) (held (Suc n) ms)" by (rule poll(1))
  show "after \<le> lb_cursor b \<and> lb_cursor b \<le> int (length ms)" using poll(2,3) by simp
  show "between (lb_cursor b) (int (length ms)) (held (Suc n) ms) = []"
    if "limit \<le> 0 \<or> int (length (lb_messages b)) < limit"
    by (rule poll(4) [OF that])
next
  fix after limit ms
  have "ring_ok (Suc n) ms (fold stream_append ms (newStream now i filters (Suc n)))"
    by (rule ring_ok_fold) simp
  then show "lb_received (stream_poll after limit (fold stream_append ms (newStream now i filters (Suc n)))) =
      int (length ms)"
    "lb_dropped (stream_poll after limit (fold stream_append ms (newStream now i filters (Suc n)))) =
      int (length ms - Suc n)"
    by (auto simp: stream_poll_def ring_ok_def Let_def split: prod.split)
qed

end
