(* ===== verification/MqttSession.thy ===== *)
theory MqttSession
  imports MqttStream
begin

text \<open>
  The streams of an MQTT connection (internal/driver/mqtt/subscribe.go): starting one, which
  subscribes on the broker; polling and stopping one; routing what the session delivers; and what
  is subscribed again after a reconnect. A call of the broker takes time, and the locks of the
  code are not held across it, so starting and stopping are two steps each: the change of the
  table, and the call. The session can be lost and come back (conn.go), and three more callers
  subscribe or unsubscribe on it: a ping (client.go), a listing of retained messages (topics.go) and
  a read of the broker's figures (sysmetrics.go).
\<close>

section \<open>Checking a request\<close>

datatype stream_error =
  ConnectionDown | NoFilters | NotAFilter string | SharedNeedsV5 | BadQoS string | BufferTooLarge |
  TooManyStreams | SubscribeRefused "string list" | NoSuchStream string

record subscribe_filter =
  sf_pattern :: string
  sf_qos :: int

record live_spec =
  sp_filters :: "live_filter list"
  sp_buffer :: int

record mqtt_conn =
  mc_up :: bool
  mc_protocolV5 :: bool
  mc_streams :: "(string \<times> mqtt_stream) list"

definition filterQoS :: "live_filter \<Rightarrow> stream_error + int" where
  "filterQoS f =
     (case map_of (lf_options f) ''qos'' of
        None \<Rightarrow> Inr 0
      | Some raw \<Rightarrow>
          if raw = '''' then Inr 0
          else (case go_Atoi raw of
                  None \<Rightarrow> Inl (BadQoS raw)
                | Some qos \<Rightarrow> if qos < 0 \<or> qos > 2 then Inl (BadQoS raw) else Inr qos))"

fun check_filters :: "bool \<Rightarrow> live_filter list \<Rightarrow> stream_error + subscribe_filter list" where
  "check_filters v5 [] = Inr []"
| "check_filters v5 (f # fs) =
     (if \<not> validFilter (lf_pattern f) then Inl (NotAFilter (lf_pattern f))
      else if fst (splitShared (lf_pattern f)) \<noteq> '''' \<and> \<not> v5 then Inl SharedNeedsV5
      else (case filterQoS f of
              Inl e \<Rightarrow> Inl e
            | Inr qos \<Rightarrow>
                (case check_filters v5 fs of
                   Inl e \<Rightarrow> Inl e
                 | Inr rest \<Rightarrow> Inr (\<lparr>sf_pattern = lf_pattern f, sf_qos = qos\<rparr> # rest))))"

definition defaultStreamBuffer :: int where "defaultStreamBuffer = 500"
definition maxStreamBuffer :: int where "maxStreamBuffer = 20000"
definition maxStreams :: nat where "maxStreams = 32"

section \<open>Starting and stopping\<close>

text \<open>The part of a start before the broker is called: the subscriptions to ask for, and the
  connection with the stream in its table. \<open>i\<close> is the id that was drawn.\<close>

definition start_stream :: "string \<Rightarrow> string \<Rightarrow> live_spec \<Rightarrow> mqtt_conn \<Rightarrow>
    stream_error + (subscribe_filter list \<times> mqtt_conn)" where
  "start_stream now i spec c =
     (if \<not> mc_up c then Inl ConnectionDown
      else if length (sp_filters spec) = 0 then Inl NoFilters
      else (case check_filters (mc_protocolV5 c) (sp_filters spec) of
          Inl e \<Rightarrow> Inl e
        | Inr subscriptions \<Rightarrow>
            (let buffer = (if sp_buffer spec \<le> 0 then defaultStreamBuffer else sp_buffer spec)
             in if buffer > maxStreamBuffer then Inl BufferTooLarge
                else if length (mc_streams c) \<ge> maxStreams then Inl TooManyStreams
                else Inr (subscriptions, c\<lparr>mc_streams :=
                       AList.update i (newStream now i (sp_filters spec) (nat buffer)) (mc_streams c)\<rparr>))))"

definition start_refused :: "string \<Rightarrow> mqtt_conn \<Rightarrow> mqtt_conn" where
  "start_refused i c = c\<lparr>mc_streams := AList.delete i (mc_streams c)\<rparr>"

definition StartLiveSubscription :: "string \<Rightarrow> string \<Rightarrow> live_spec \<Rightarrow> (subscribe_filter list \<Rightarrow> bool) \<Rightarrow>
    mqtt_conn \<Rightarrow> (stream_error + mqtt_stream) \<times> mqtt_conn" where
  "StartLiveSubscription now i spec accepts c =
     (case start_stream now i spec c of
        Inl e \<Rightarrow> (Inl e, c)
      | Inr (subscriptions, c') \<Rightarrow>
          if accepts subscriptions
          then (case map_of (mc_streams c') i of Some s \<Rightarrow> (Inr s, c') | None \<Rightarrow> (Inl (NoSuchStream i), c'))
          else (Inl (SubscribeRefused (map sf_pattern subscriptions)), start_refused i c'))"

definition filterInUse :: "mqtt_conn \<Rightarrow> string \<Rightarrow> bool" where
  "filterInUse c pattern \<longleftrightarrow>
     list_ex (\<lambda>(_, s). list_ex (\<lambda>f. lf_pattern f = pattern) (qs_filters s)) (mc_streams c)"

text \<open>The part of a stop before the broker is called: the filters no surviving stream wants.\<close>

definition stop_stream :: "string \<Rightarrow> mqtt_conn \<Rightarrow> stream_error + (string list \<times> mqtt_conn)" where
  "stop_stream i c =
     (case map_of (mc_streams c) i of
        None \<Rightarrow> Inl (NoSuchStream i)
      | Some live \<Rightarrow>
          (let c' = c\<lparr>mc_streams := AList.delete i (mc_streams c)\<rparr>
           in Inr (if \<not> mc_up c then []
                   else filter (\<lambda>p. \<not> filterInUse c' p) (map lf_pattern (qs_filters live)), c')))"

definition PollLiveSubscription :: "string \<Rightarrow> int \<Rightarrow> int \<Rightarrow> mqtt_conn \<Rightarrow> stream_error + live_batch" where
  "PollLiveSubscription i after limit c =
     (case map_of (mc_streams c) i of
        None \<Rightarrow> Inl (NoSuchStream i) | Some live \<Rightarrow> Inr (stream_poll after limit live))"

section \<open>Routing\<close>

record inbound_message =
  im_topic :: string
  im_payload :: string
  im_qos :: nat
  im_retained :: bool
  im_contentType :: string
  im_responseTopic :: string
  im_correlationData :: string
  im_messageExpiry :: nat
  im_userProperties :: "(string \<times> string) list"

definition maxBodyBytes :: nat where "maxBodyBytes = 64 * 1024"

definition liveMessageOf :: "string \<Rightarrow> inbound_message \<Rightarrow> string \<Rightarrow> live_message" where
  "liveMessageOf now m pattern =
     (let truncated = length (im_payload m) > maxBodyBytes;
          body = (if truncated then take maxBodyBytes (im_payload m) else im_payload m);
          a0 = [(''qos'', show_nat (im_qos m)), (''retained'', if im_retained m then ''true'' else ''false'')];
          a1 = (if im_contentType m \<noteq> '''' then AList.update ''contentType'' (im_contentType m) a0 else a0);
          a2 = (if im_responseTopic m \<noteq> '''' then AList.update ''responseTopic'' (im_responseTopic m) a1 else a1);
          a3 = (if im_correlationData m \<noteq> '''' then AList.update ''correlationData'' (im_correlationData m) a2 else a2);
          a4 = (if im_messageExpiry m > 0 then AList.update ''messageExpiry'' (show_nat (im_messageExpiry m)) a3 else a3)
      in \<lparr>lm_seq = 0, lm_destination = im_topic m, lm_filter = pattern, lm_receivedAt = now, lm_body = body,
          lm_truncated = truncated,
          lm_attributes = foldl (\<lambda>a (k, v). AList.update (''user.'' @ k) v a) a4 (im_userProperties m)\<rparr>)"

definition deliver_to :: "string \<Rightarrow> inbound_message \<Rightarrow> mqtt_stream \<Rightarrow> mqtt_stream" where
  "deliver_to now m live =
     (case find (\<lambda>f. matchesFilter (lf_pattern f) (im_topic m)) (qs_filters live) of
        None \<Rightarrow> live | Some f \<Rightarrow> stream_append (liveMessageOf now m (lf_pattern f)) live)"

definition deliver :: "string \<Rightarrow> inbound_message \<Rightarrow> mqtt_conn \<Rightarrow> mqtt_conn" where
  "deliver now m c = c\<lparr>mc_streams := map (\<lambda>(i, live). (i, deliver_to now m live)) (mc_streams c)\<rparr>"

definition setStreamsLive :: "bool \<Rightarrow> mqtt_conn \<Rightarrow> mqtt_conn" where
  "setStreamsLive live c = c\<lparr>mc_streams := map (\<lambda>(i, s). (i, s\<lparr>qs_live := live\<rparr>)) (mc_streams c)\<rparr>"

text \<open>What a reconnect subscribes again, before it is sorted for the call: each pattern once, at the
  QoS of the first filter that has it.\<close>

definition resubscribeFilters :: "mqtt_conn \<Rightarrow> subscribe_filter list" where
  "resubscribeFilters c =
     foldl (\<lambda>found f. if lf_pattern f \<in> set (map sf_pattern found) then found
         else found @ [\<lparr>sf_pattern = lf_pattern f, sf_qos = (case filterQoS f of Inl _ \<Rightarrow> 0 | Inr q \<Rightarrow> q)\<rparr>])
       [] (concat (map (\<lambda>(_, s). qs_filters s) (mc_streams c)))"

section \<open>The session on the broker\<close>

text \<open>The two filters the driver itself names: what a ping unsubscribes from, and what a read of the
  broker's own figures subscribes to.\<close>

definition pingFilter :: string where "pingFilter = ''mq-studio/probe''"
definition sysFilter :: string where "sysFilter = ''$SYS/#''"

text \<open>What the broker holds, and the calls under way. \<open>Renew\<close> is the subscription after a reconnect.
  \<open>Collect\<close> and \<open>Release\<close> are the two ends of a listing of retained messages: it subscribes, gathers
  for a while, and lets go. With the flag set (a listing of topics) it lets go only of a filter no
  stream wants; without it (a read of \<open>$SYS\<close>) it asks nobody. The session is lost from the moment
  the handler of the loss ran to the moment the handler of the reconnect did.\<close>

datatype broker_call =
  Subscribe string "string list" | Unsubscribe "string list" | Renew "string list" |
  Collect string bool | Release string bool

record stream_session =
  mq_conn :: mqtt_conn
  mq_broker :: "string set"
  mq_calls :: "broker_call list"
  mq_lost :: bool

definition needed :: "mqtt_conn \<Rightarrow> string set" where
  "needed c = (\<Union>(i, s) \<in> set (mc_streams c). lf_pattern ` set (qs_filters s))"

definition sessionUp :: "mqtt_conn \<Rightarrow> subscribe_filter list \<times> mqtt_conn" where
  "sessionUp c = (resubscribeFilters (setStreamsLive True c), setStreamsLive True c)"

definition sessionDown :: "mqtt_conn \<Rightarrow> mqtt_conn" where
  "sessionDown c = setStreamsLive False c"

text \<open>Neither client makes a call for an empty list of filters.\<close>

definition call_for :: "(string list \<Rightarrow> broker_call) \<Rightarrow> string list \<Rightarrow> broker_call list" where
  "call_for call patterns = (if patterns = [] then [] else [call patterns])"

text \<open>How a listing lets go of its filter.\<close>

definition release_calls :: "mqtt_conn \<Rightarrow> string \<Rightarrow> bool \<Rightarrow> broker_call list" where
  "release_calls c f careful = (if careful \<and> filterInUse c f then [] else [Unsubscribe [f]])"

definition returned :: "broker_call \<Rightarrow> stream_session \<Rightarrow> stream_session" where
  "returned call s = s\<lparr>mq_calls := remove1 call (mq_calls s)\<rparr>"

text \<open>The calls of the driver and the answers of the broker. A call is carried out once, in any order,
  and may fail: of a subscription the broker may have granted a part, of an unsubscription it may
  have dropped a part. A session that is lost keeps what it held or any part of it (a clean session
  keeps nothing), and a session that is opened may hold what an earlier one left. Three flags record
  what went wrong: \<open>crossed\<close>, that something began, or the session was lost, while a call was under
  way; \<open>left\<close>, that the broker was left holding something it was asked to drop or that no stream came
  to want; \<open>silenced\<close>, that a reconnect did not get every filter back (its answer is thrown away), or
  that a read of \<open>$SYS\<close> or a ping unsubscribed a filter of a stream.\<close>

inductive streams_reachable :: "bool \<Rightarrow> bool \<Rightarrow> bool \<Rightarrow> stream_session \<Rightarrow> bool" where
  stream_opened: "mc_streams c = [] \<Longrightarrow>
    streams_reachable False (kept \<noteq> {}) False \<lparr>mq_conn = c, mq_broker = kept, mq_calls = [], mq_lost = False\<rparr>"
| stream_start: "streams_reachable crossed left silenced s \<Longrightarrow>
    start_stream now i spec (mq_conn s) = Inr (subscriptions, c) \<Longrightarrow> i \<notin> fst ` set (mc_streams (mq_conn s)) \<Longrightarrow>
    streams_reachable (crossed \<or> mq_calls s \<noteq> []) left silenced
      (s\<lparr>mq_conn := c, mq_calls := mq_calls s @ [Subscribe i (map sf_pattern subscriptions)]\<rparr>)"
| stream_granted: "streams_reachable crossed left silenced s \<Longrightarrow> Subscribe i patterns \<in> set (mq_calls s) \<Longrightarrow>
    streams_reachable crossed left silenced
      (returned (Subscribe i patterns) (s\<lparr>mq_broker := mq_broker s \<union> set patterns\<rparr>))"
| stream_refused: "streams_reachable crossed left silenced s \<Longrightarrow> Subscribe i patterns \<in> set (mq_calls s) \<Longrightarrow>
    granted \<subseteq> set patterns \<Longrightarrow>
    streams_reachable crossed (left \<or> granted \<noteq> {}) silenced
      (returned (Subscribe i patterns)
        (s\<lparr>mq_conn := start_refused i (mq_conn s), mq_broker := mq_broker s \<union> granted\<rparr>))"
| stream_stop: "streams_reachable crossed left silenced s \<Longrightarrow> stop_stream i (mq_conn s) = Inr (patterns, c) \<Longrightarrow>
    streams_reachable (crossed \<or> mq_calls s \<noteq> []) left silenced
      (s\<lparr>mq_conn := c, mq_calls := mq_calls s @ call_for Unsubscribe patterns\<rparr>)"
| stream_dropped: "streams_reachable crossed left silenced s \<Longrightarrow> Unsubscribe patterns \<in> set (mq_calls s) \<Longrightarrow>
    dropped \<subseteq> set patterns \<Longrightarrow>
    streams_reachable crossed (left \<or> \<not> mq_broker s \<inter> set patterns \<subseteq> dropped) silenced
      (returned (Unsubscribe patterns) (s\<lparr>mq_broker := mq_broker s - dropped\<rparr>))"
| stream_delivers: "streams_reachable crossed left silenced s \<Longrightarrow>
    streams_reachable crossed left silenced (s\<lparr>mq_conn := deliver now m (mq_conn s)\<rparr>)"
| session_pinged: "streams_reachable crossed left silenced s \<Longrightarrow>
    streams_reachable (crossed \<or> mq_calls s \<noteq> []) left (silenced \<or> filterInUse (mq_conn s) pingFilter)
      (s\<lparr>mq_calls := mq_calls s @ [Unsubscribe [pingFilter]]\<rparr>)"
| listing_began: "streams_reachable crossed left silenced s \<Longrightarrow> careful \<or> f = sysFilter \<Longrightarrow>
    streams_reachable (crossed \<or> mq_calls s \<noteq> []) left silenced (s\<lparr>mq_calls := mq_calls s @ [Collect f careful]\<rparr>)"
| listing_refused: "streams_reachable crossed left silenced s \<Longrightarrow> Collect f careful \<in> set (mq_calls s) \<Longrightarrow>
    granted \<subseteq> {f} \<Longrightarrow>
    streams_reachable crossed (left \<or> granted \<noteq> {}) silenced
      (returned (Collect f careful) (s\<lparr>mq_broker := mq_broker s \<union> granted\<rparr>))"
| listing_gathers: "streams_reachable crossed left silenced s \<Longrightarrow> Collect f careful \<in> set (mq_calls s) \<Longrightarrow>
    streams_reachable crossed left silenced
      (s\<lparr>mq_broker := insert f (mq_broker s),
         mq_calls := remove1 (Collect f careful) (mq_calls s) @ [Release f careful]\<rparr>)"
| listing_ended: "streams_reachable crossed left silenced s \<Longrightarrow> Release f careful \<in> set (mq_calls s) \<Longrightarrow>
    streams_reachable crossed left (silenced \<or> (\<not> careful \<and> filterInUse (mq_conn s) f))
      (s\<lparr>mq_calls := remove1 (Release f careful) (mq_calls s) @ release_calls (mq_conn s) f careful\<rparr>)"
| session_dropped: "streams_reachable crossed left silenced s \<Longrightarrow> kept \<subseteq> mq_broker s \<Longrightarrow>
    streams_reachable (crossed \<or> mq_calls s \<noteq> []) left silenced
      (s\<lparr>mq_conn := sessionDown (mq_conn s), mq_broker := kept, mq_lost := True\<rparr>)"
| session_back: "streams_reachable crossed left silenced s \<Longrightarrow> mq_lost s \<Longrightarrow> sessionUp (mq_conn s) = (filters, c) \<Longrightarrow>
    streams_reachable (crossed \<or> mq_calls s \<noteq> []) left silenced
      (s\<lparr>mq_conn := c, mq_lost := False, mq_calls := mq_calls s @ call_for Renew (map sf_pattern filters)\<rparr>)"
| session_renewed: "streams_reachable crossed left silenced s \<Longrightarrow> Renew patterns \<in> set (mq_calls s) \<Longrightarrow>
    granted \<subseteq> set patterns \<Longrightarrow>
    streams_reachable crossed left (silenced \<or> \<not> set patterns \<subseteq> mq_broker s \<union> granted)
      (returned (Renew patterns) (s\<lparr>mq_broker := mq_broker s \<union> granted\<rparr>))"

subsection \<open>What is needed\<close>

lemma filters_kept [simp]:
  "qs_filters (stream_append m s) = qs_filters s" "qs_filters (deliver_to now im s) = qs_filters s"
  "qs_filters (newStream now i fs n) = fs"
  by (simp_all add: stream_append_def deliver_to_def newStream_def Let_def split: option.split)

lemma needed_kept [simp]:
  "needed (deliver now m c) = needed c" "needed (setStreamsLive live c) = needed c"
  by (auto simp: needed_def deliver_def setStreamsLive_def)

lemma filterInUse_needed: "filterInUse c p \<longleftrightarrow> p \<in> needed c"
  by (force simp: filterInUse_def needed_def list_ex_iff)

lemma checked_patterns: "check_filters v5 fs = Inr ss \<Longrightarrow> map sf_pattern ss = map lf_pattern fs"
  by (induction fs arbitrary: ss) (auto split: if_splits sum.splits)

lemma start_stream_needed:
  assumes "start_stream now i spec c = Inr (ss, c')" and "i \<notin> fst ` set (mc_streams c)"
  shows "needed c' = needed c \<union> set (map sf_pattern ss)" "start_refused i c' = c"
    "mc_streams c' = mc_streams c @ [(i, the (map_of (mc_streams c') i))]"
    "map lf_pattern (qs_filters (the (map_of (mc_streams c') i))) = map sf_pattern ss"
proof -
  obtain n where ss: "check_filters (mc_protocolV5 c) (sp_filters spec) = Inr ss"
    and c': "c' = c\<lparr>mc_streams := mc_streams c @ [(i, newStream now i (sp_filters spec) n)]\<rparr>"
    using assms by (auto simp: start_stream_def Let_def update_new split: if_splits sum.splits)
  have own: "map_of (mc_streams c') i = Some (newStream now i (sp_filters spec) n)"
    using assms(2) by (simp add: c' map_add_def map_of_eq_None_iff [symmetric])
  show "needed c' = needed c \<union> set (map sf_pattern ss)"
    by (auto simp: needed_def c' checked_patterns [OF ss])
  show "start_refused i c' = c"
  proof -
    have "AList.delete i (mc_streams c @ [(i, v)]) = AList.delete i (mc_streams c)" for v :: mqtt_stream
      by (simp add: AList.delete_eq)
    then show ?thesis using delete_id [OF assms(2)] by (simp add: start_refused_def c')
  qed
  show "mc_streams c' = mc_streams c @ [(i, the (map_of (mc_streams c') i))]"
    "map lf_pattern (qs_filters (the (map_of (mc_streams c') i))) = map sf_pattern ss"
    by (simp_all add: own checked_patterns [OF ss]) (simp add: c')
qed

lemma needed_start_refused_kept [simp]:
  "needed (start_refused i (deliver now m c)) = needed (start_refused i c)"
  "needed (start_refused i (setStreamsLive live c)) = needed (start_refused i c)"
  by (auto simp: needed_def deliver_def setStreamsLive_def start_refused_def AList.delete_eq)

lemma needed_delete: "needed (start_refused i c) \<subseteq> needed c"
  by (auto simp: needed_def start_refused_def AList.delete_eq)

lemma stop_stream_needed:
  assumes "stop_stream i c = Inr (patterns, c')" and "mc_up c" and "distinct (map fst (mc_streams c))"
  shows "needed c' \<subseteq> needed c" "needed c \<subseteq> needed c' \<union> set patterns" "needed c' \<inter> set patterns = {}"
    "mc_streams c' = AList.delete i (mc_streams c)" "mc_up c' = mc_up c"
proof -
  obtain live where live: "map_of (mc_streams c) i = Some live"
    and c': "c' = c\<lparr>mc_streams := AList.delete i (mc_streams c)\<rparr>"
    and patterns: "patterns = filter (\<lambda>p. \<not> filterInUse c' p) (map lf_pattern (qs_filters live))"
    using assms by (auto simp: stop_stream_def Let_def split: option.splits)
  show "needed c' \<subseteq> needed c" by (auto simp: needed_def c' AList.delete_eq)
  show "needed c' \<inter> set patterns = {}" by (auto simp: patterns filterInUse_needed)
  show "mc_streams c' = AList.delete i (mc_streams c)" "mc_up c' = mc_up c" by (simp_all add: c')
  have "(k, s) = (i, live) \<or> (k, s) \<in> set (mc_streams c')" if "(k, s) \<in> set (mc_streams c)" for k s
    using that map_of_SomeD [OF live] eq_key_imp_eq_value [OF assms(3)]
    by (cases "k = i") (auto simp: c' AList.delete_eq)
  then have "needed c \<subseteq> needed c' \<union> lf_pattern ` set (qs_filters live)"
    unfolding needed_def by blast
  then show "needed c \<subseteq> needed c' \<union> set patterns"
    by (auto simp: patterns filterInUse_needed)
qed

section \<open>One call at a time\<close>

definition streams_ok :: "stream_session \<Rightarrow> bool" where
  "streams_ok s \<longleftrightarrow>
     distinct (map fst (mc_streams (mq_conn s))) \<and> (mc_streams (mq_conn s) \<noteq> [] \<longrightarrow> mc_up (mq_conn s)) \<and>
     (case mq_calls s of
        [] \<Rightarrow> mq_lost s \<or> needed (mq_conn s) \<subseteq> mq_broker s
      | [Subscribe i ps] \<Rightarrow> (mq_lost s \<or> needed (start_refused i (mq_conn s)) \<subseteq> mq_broker s) \<and>
          needed (mq_conn s) \<subseteq> needed (start_refused i (mq_conn s)) \<union> set ps
      | [Unsubscribe ps] \<Rightarrow> mq_lost s \<or> needed (mq_conn s) \<subseteq> mq_broker s - set ps
      | [Renew ps] \<Rightarrow> needed (mq_conn s) \<subseteq> set ps
      | [Collect f careful] \<Rightarrow> mq_lost s \<or> needed (mq_conn s) \<subseteq> mq_broker s
      | [Release f careful] \<Rightarrow> mq_lost s \<or> needed (mq_conn s) \<subseteq> mq_broker s
      | _ \<Rightarrow> False)"

definition streams_tight :: "stream_session \<Rightarrow> bool" where
  "streams_tight s \<longleftrightarrow>
     (case mq_calls s of
        [] \<Rightarrow> mq_broker s \<subseteq> needed (mq_conn s)
      | [Subscribe i ps] \<Rightarrow> mq_broker s \<subseteq> needed (start_refused i (mq_conn s)) \<and> set ps \<subseteq> needed (mq_conn s)
      | [Unsubscribe ps] \<Rightarrow> mq_broker s - set ps \<subseteq> needed (mq_conn s)
      | [Renew ps] \<Rightarrow> mq_broker s \<union> set ps \<subseteq> needed (mq_conn s)
      | [Collect f careful] \<Rightarrow> mq_broker s \<subseteq> needed (mq_conn s)
      | [Release f careful] \<Rightarrow> mq_broker s \<subseteq> insert f (needed (mq_conn s))
      | _ \<Rightarrow> False)"

lemma resubscribe_needed: "set (map sf_pattern (resubscribeFilters c)) = needed c"
proof -
  have "set (map sf_pattern (foldl (\<lambda>found f. if lf_pattern f \<in> set (map sf_pattern found) then found
         else found @ [\<lparr>sf_pattern = lf_pattern f, sf_qos = (case filterQoS f of Inl _ \<Rightarrow> 0 | Inr q \<Rightarrow> q)\<rparr>]) acc fs)) =
      set (map sf_pattern acc) \<union> lf_pattern ` set fs" for acc fs
    by (induction fs arbitrary: acc) auto
  from this [of "[]"] show ?thesis by (auto simp: resubscribeFilters_def needed_def)
qed

lemma ids_kept:
  "map fst (mc_streams (deliver now m c)) = map fst (mc_streams c)"
  "map fst (mc_streams (setStreamsLive live c)) = map fst (mc_streams c)"
  "mc_up (deliver now m c) = mc_up c" "mc_up (setStreamsLive live c) = mc_up c"
  "mc_streams (deliver now m c) = [] \<longleftrightarrow> mc_streams c = []"
  "mc_streams (setStreamsLive live c) = [] \<longleftrightarrow> mc_streams c = []"
  by (auto simp: deliver_def setStreamsLive_def comp_def split_beta)

lemma ids_deleted:
  "distinct (map fst (mc_streams c)) \<Longrightarrow> distinct (map fst (mc_streams (start_refused i c)))"
  "mc_streams (start_refused i c) \<noteq> [] \<Longrightarrow> mc_streams c \<noteq> []" "mc_up (start_refused i c) = mc_up c"
  by (auto simp: start_refused_def distinct_delete)

lemma only_call:
  assumes "streams_ok s" and "x \<in> set (mq_calls s)"
  shows "mq_calls s = [x]"
proof (cases "mq_calls s")
  case (Cons y ys)
  then show ?thesis using assms by (cases ys; cases y) (auto simp: streams_ok_def)
qed (use assms in simp)

lemma returned_simps [simp]:
  "mq_conn (returned call s) = mq_conn s" "mq_broker (returned call s) = mq_broker s"
  "mq_lost (returned call s) = mq_lost s" "mq_calls (returned call s) = remove1 call (mq_calls s)"
  by (simp_all add: returned_def)

text \<open>What a change of the messages or of the liveness of the streams leaves alone.\<close>

lemma streams_alike:
  assumes "map fst (mc_streams c) = map fst (mc_streams (mq_conn s))" "mc_up c = mc_up (mq_conn s)"
    "needed c = needed (mq_conn s)" "\<And>i. needed (start_refused i c) = needed (start_refused i (mq_conn s))"
  shows "streams_ok (s\<lparr>mq_conn := c\<rparr>) = streams_ok s" "streams_tight (s\<lparr>mq_conn := c\<rparr>) = streams_tight s"
proof -
  have "mc_streams c = [] \<longleftrightarrow> mc_streams (mq_conn s) = []" using assms(1) by (metis map_is_Nil_conv)
  with assms show "streams_ok (s\<lparr>mq_conn := c\<rparr>) = streams_ok s" "streams_tight (s\<lparr>mq_conn := c\<rparr>) = streams_tight s"
    by (simp_all add: streams_ok_def streams_tight_def cong: list.case_cong broker_call.case_cong)
qed

lemma streams_alike_kept:
  "streams_ok (s\<lparr>mq_conn := deliver now m (mq_conn s)\<rparr>) = streams_ok s"
  "streams_tight (s\<lparr>mq_conn := deliver now m (mq_conn s)\<rparr>) = streams_tight s"
  by (rule streams_alike; simp add: ids_kept)+

lemma streams_start_ok:
  assumes "streams_ok s" "mq_calls s = []" "start_stream now i spec (mq_conn s) = Inr (subscriptions, c)"
    "i \<notin> fst ` set (mc_streams (mq_conn s))"
  shows "streams_ok (s\<lparr>mq_conn := c, mq_calls := [Subscribe i (map sf_pattern subscriptions)]\<rparr>)"
    "streams_tight s \<Longrightarrow> streams_tight (s\<lparr>mq_conn := c, mq_calls := [Subscribe i (map sf_pattern subscriptions)]\<rparr>)"
proof -
  note w = start_stream_needed [OF assms(3,4)]
  have "mc_up c" using assms(3) by (auto simp: start_stream_def Let_def split: if_splits sum.splits)
  moreover have "distinct (map fst (mc_streams c))"
    using assms(1,4) by (subst w(3)) (auto simp: streams_ok_def)
  ultimately show "streams_ok (s\<lparr>mq_conn := c, mq_calls := [Subscribe i (map sf_pattern subscriptions)]\<rparr>)"
    using assms(1,2) by (simp add: streams_ok_def w(1,2))
  show "streams_tight s \<Longrightarrow> streams_tight (s\<lparr>mq_conn := c, mq_calls := [Subscribe i (map sf_pattern subscriptions)]\<rparr>)"
    using assms(2) by (simp add: streams_tight_def w(1,2))
qed

lemma streams_stop_ok:
  assumes "streams_ok s" "mq_calls s = []" "stop_stream i (mq_conn s) = Inr (patterns, c)"
  shows "streams_ok (s\<lparr>mq_conn := c, mq_calls := call_for Unsubscribe patterns\<rparr>)"
    "streams_tight s \<Longrightarrow> streams_tight (s\<lparr>mq_conn := c, mq_calls := call_for Unsubscribe patterns\<rparr>)"
proof -
  have "mc_streams (mq_conn s) \<noteq> []" using assms(3) by (auto simp: stop_stream_def split: option.splits)
  then have up: "mc_up (mq_conn s)" "distinct (map fst (mc_streams (mq_conn s)))"
    using assms(1) by (simp_all add: streams_ok_def)
  note w = stop_stream_needed [OF assms(3) up]
  show "streams_ok (s\<lparr>mq_conn := c, mq_calls := call_for Unsubscribe patterns\<rparr>)"
    using assms(1,2) up w by (auto simp: streams_ok_def call_for_def distinct_delete)
  show "streams_tight s \<Longrightarrow> streams_tight (s\<lparr>mq_conn := c, mq_calls := call_for Unsubscribe patterns\<rparr>)"
    using assms(2) w by (auto simp: streams_tight_def call_for_def)
qed

lemma streams_back_ok:
  assumes "streams_ok s" "mq_calls s = []" "sessionUp (mq_conn s) = (filters, c)"
  defines "t \<equiv> s\<lparr>mq_conn := c, mq_lost := False, mq_calls := call_for Renew (map sf_pattern filters)\<rparr>"
  shows "streams_ok t" "streams_tight s \<Longrightarrow> streams_tight t"
proof -
  have c: "c = setStreamsLive True (mq_conn s)" and filters: "set (map sf_pattern filters) = needed (mq_conn s)"
    using assms(3) resubscribe_needed [of "setStreamsLive True (mq_conn s)"]
    by (simp_all add: sessionUp_def del: set_map) (metis needed_kept(2))
  have "filters = [] \<longleftrightarrow> needed (mq_conn s) = {}" unfolding filters [symmetric] by simp
  moreover have "needed c = needed (mq_conn s)" by (simp add: c)
  moreover have "distinct (map fst (mc_streams c))" "mc_streams c \<noteq> [] \<longrightarrow> mc_up c"
    using assms(1) by (simp_all add: c ids_kept streams_ok_def)
  ultimately show "streams_ok t" "streams_tight s \<Longrightarrow> streams_tight t"
    using assms(2) filters
    by (cases "filters = []"; simp add: t_def streams_ok_def streams_tight_def call_for_def del: set_map)+
qed

lemma streams_ok_reachable:
  "streams_reachable crossed left silenced s \<Longrightarrow> \<not> crossed \<Longrightarrow> \<not> silenced \<Longrightarrow>
   streams_ok s \<and> (\<not> left \<longrightarrow> streams_tight s)"
proof (induction rule: streams_reachable.induct)
  case (stream_opened c kept)
  then show ?case by (simp add: streams_ok_def streams_tight_def needed_def)
next
  case (stream_start crossed left silenced s now i spec subscriptions c)
  then show ?case using streams_start_ok [OF _ _ stream_start(2,3)] by simp
next
  case (stream_granted crossed left silenced s i patterns)
  then have "mq_calls s = [Subscribe i patterns]" by (intro only_call) simp_all
  with stream_granted show ?case using needed_delete [of i "mq_conn s"] by (auto simp: streams_ok_def streams_tight_def)
next
  case (stream_refused crossed left silenced s i patterns granted)
  then have "mq_calls s = [Subscribe i patterns]" by (intro only_call) simp_all
  with stream_refused show ?case by (auto simp: streams_ok_def streams_tight_def ids_deleted)
next
  case (stream_stop crossed left silenced s i patterns c)
  then show ?case using streams_stop_ok [OF _ _ stream_stop(2)] by simp
next
  case (stream_dropped crossed left silenced s patterns dropped)
  then have "mq_calls s = [Unsubscribe patterns]" by (intro only_call) simp_all
  with stream_dropped show ?case by (auto simp: streams_ok_def streams_tight_def)
next
  case (stream_delivers crossed left silenced s now m)
  then show ?case by (simp add: streams_alike_kept)
next
  case (session_pinged crossed left silenced s)
  then show ?case by (auto simp: streams_ok_def streams_tight_def filterInUse_needed)
next
  case (listing_began crossed left silenced s careful f)
  then show ?case by (simp add: streams_ok_def streams_tight_def)
next
  case (listing_refused crossed left silenced s f careful granted)
  then have "mq_calls s = [Collect f careful]" by (intro only_call) simp_all
  with listing_refused show ?case by (auto simp: streams_ok_def streams_tight_def)
next
  case (listing_gathers crossed left silenced s f careful)
  then have "mq_calls s = [Collect f careful]" by (intro only_call) simp_all
  with listing_gathers show ?case by (auto simp: streams_ok_def streams_tight_def)
next
  case (listing_ended crossed left silenced s f careful)
  then have "mq_calls s = [Release f careful]" by (intro only_call) simp_all
  with listing_ended show ?case by (auto simp: streams_ok_def streams_tight_def filterInUse_needed release_calls_def)
next
  case (session_dropped crossed left silenced s kept)
  then show ?case by (auto simp: streams_ok_def streams_tight_def ids_kept sessionDown_def)
next
  case (session_back crossed left silenced s filters c)
  then show ?case using streams_back_ok [of s filters c] by simp
next
  case (session_renewed crossed left silenced s patterns granted)
  then have "mq_calls s = [Renew patterns]" by (intro only_call) simp_all
  with session_renewed show ?case by (auto simp: streams_ok_def streams_tight_def)
qed

text \<open>C21. Whatever is refused, left behind or lost on the way, a stream does not go silent by itself:
  when no call is under way and the session is not lost, every filter of every stream is subscribed
  on the broker, and unless something was left behind nothing else is. This holds as long as a call
  is not crossed by another or by the loss of the session, every reconnect gets back the filters it
  asks for, and no stream is on a filter that the driver unsubscribes without asking who wants it:
  \<open>$SYS/#\<close>, when the broker's figures are read, and the filter of a ping.\<close>

theorem no_stream_is_silent:
  assumes "streams_reachable False left False s" and "mq_calls s = []" and "\<not> mq_lost s"
  shows "(\<Union>(i, live) \<in> set (mc_streams (mq_conn s)). lf_pattern ` set (qs_filters live)) \<subseteq> mq_broker s \<and>
    (left \<or> mq_broker s \<subseteq> (\<Union>(i, live) \<in> set (mc_streams (mq_conn s)). lf_pattern ` set (qs_filters live)))"
  using streams_ok_reachable [OF assms(1)] assms(2,3)
  by (auto simp: streams_ok_def streams_tight_def needed_def)

text \<open>Two panels on one filter, and the same filter started again.\<close>

definition sample_conn :: mqtt_conn where
  "sample_conn = \<lparr>mc_up = True, mc_protocolV5 = True, mc_streams = []\<rparr>"

definition sample_spec :: "string list \<Rightarrow> live_spec" where
  "sample_spec patterns = \<lparr>sp_filters = map (\<lambda>p. \<lparr>lf_pattern = p, lf_options = []\<rparr>) patterns, sp_buffer = 2\<rparr>"

definition sample_started :: "string \<Rightarrow> string list \<Rightarrow> mqtt_stream" where
  "sample_started i patterns = newStream '''' i (sp_filters (sample_spec patterns)) 2"

definition sample_session :: "string list \<Rightarrow> string set \<Rightarrow> broker_call list \<Rightarrow> bool \<Rightarrow> stream_session" where
  "sample_session patterns broker calls lost =
     \<lparr>mq_conn = sample_conn\<lparr>mc_streams := (if patterns = [] then [] else [(''one'', sample_started ''one'' patterns)])\<rparr>,
      mq_broker = broker, mq_calls = calls, mq_lost = lost\<rparr>"

lemma sample_start:
  "start_stream '''' ''one'' (sample_spec [''a/#'']) sample_conn =
     Inr ([\<lparr>sf_pattern = ''a/#'', sf_qos = 0\<rparr>], sample_conn\<lparr>mc_streams := [(''one'', sample_started ''one'' [''a/#''])]\<rparr>)"
  "start_stream '''' ''two'' (sample_spec [''a/#'']) sample_conn =
     Inr ([\<lparr>sf_pattern = ''a/#'', sf_qos = 0\<rparr>], sample_conn\<lparr>mc_streams := [(''two'', sample_started ''two'' [''a/#''])]\<rparr>)"
  "start_stream '''' ''one'' (sample_spec [''b'', ''#'']) sample_conn =
     Inr ([\<lparr>sf_pattern = ''b'', sf_qos = 0\<rparr>, \<lparr>sf_pattern = ''#'', sf_qos = 0\<rparr>],
       sample_conn\<lparr>mc_streams := [(''one'', sample_started ''one'' [''b'', ''#''])]\<rparr>)"
  "stop_stream ''one'' (sample_conn\<lparr>mc_streams := [(''one'', sample_started ''one'' [''a/#''])]\<rparr>) =
     Inr ([''a/#''], sample_conn)"
  "start_stream '''' ''one'' (sample_spec [''$SYS/#'']) sample_conn =
     Inr ([\<lparr>sf_pattern = ''$SYS/#'', sf_qos = 0\<rparr>], sample_conn\<lparr>mc_streams := [(''one'', sample_started ''one'' [''$SYS/#''])]\<rparr>)"
  "filterInUse (sample_conn\<lparr>mc_streams := [(''one'', sample_started ''one'' [''$SYS/#''])]\<rparr>) ''$SYS/#''"
  by code_simp+

lemma sample_opened: "streams_reachable False False False (sample_session [] {} [] False)"
  using stream_opened [of sample_conn "{}"] by (simp add: sample_session_def sample_conn_def)

lemma sample_empty: "sample_conn\<lparr>mc_streams := []\<rparr> = sample_conn"
  by (simp add: sample_conn_def)

lemma sample_asked:
  "streams_reachable False False False (sample_session [''a/#''] {} [Subscribe ''one'' [''a/#'']] False)"
  "streams_reachable False False False (sample_session [''b'', ''#''] {} [Subscribe ''one'' [''b'', ''#'']] False)"
  "streams_reachable False False False (sample_session [''$SYS/#''] {} [Subscribe ''one'' [''$SYS/#'']] False)"
  using stream_start [OF sample_opened, unfolded sample_session_def, simplified, unfolded sample_empty, OF sample_start(1)]
    stream_start [OF sample_opened, unfolded sample_session_def, simplified, unfolded sample_empty, OF sample_start(3)]
    stream_start [OF sample_opened, unfolded sample_session_def, simplified, unfolded sample_empty, OF sample_start(5)]
  by (simp_all add: sample_session_def sample_conn_def)

lemma sample_subscribed:
  "streams_reachable False False False (sample_session [''a/#''] {''a/#''} [] False)"
  "streams_reachable False False False (sample_session [''$SYS/#''] {''$SYS/#''} [] False)"
  using stream_granted [OF sample_asked(1), of "''one''" "[''a/#'']"]
    stream_granted [OF sample_asked(3), of "''one''" "[''$SYS/#'']"]
  by (simp_all add: sample_session_def returned_def)

theorem no_stream_is_silent_witness:
  "''a/#'' \<in> mq_broker (sample_session [''a/#''] {''a/#''} [] False)"
  using no_stream_is_silent [OF sample_subscribed(1)]
  by (simp add: sample_session_def sample_started_def sample_spec_def newStream_def)

text \<open>C38. Stopping a stream and starting another on the same filter before the broker has answered (which
  is what a panel does that is started again) can leave the new stream without its subscription:
  the filter was found unused, and is unsubscribed after it was subscribed again. And a
  subscription that the broker grants in part leaves the granted part behind, with no stream.\<close>

theorem restart_can_go_silent:
  "(\<exists>s. streams_reachable True False False s \<and> mq_calls s = [] \<and> \<not> mq_lost s \<and> mq_broker s = {} \<and>
      mc_streams (mq_conn s) = [(''two'', sample_started ''two'' [''a/#''])]) \<and>
   (\<exists>s. streams_reachable False True False s \<and> mq_calls s = [] \<and> \<not> mq_lost s \<and> mq_broker s = {''b''} \<and>
      mc_streams (mq_conn s) = [])"
proof
  let ?two = "sample_conn\<lparr>mc_streams := [(''two'', sample_started ''two'' [''a/#''])]\<rparr>"
  have "streams_reachable False False False (sample_session [] {''a/#''} [Unsubscribe [''a/#'']] False)"
    using stream_stop [OF sample_subscribed(1), unfolded sample_session_def, simplified, unfolded sample_empty, OF sample_start(4)]
    by (simp add: sample_session_def sample_conn_def call_for_def)
  from stream_start [OF this, unfolded sample_session_def, simplified, unfolded sample_empty, OF sample_start(2)]
  have "streams_reachable True False False
      \<lparr>mq_conn = ?two, mq_broker = {''a/#''}, mq_calls = [Unsubscribe [''a/#''], Subscribe ''two'' [''a/#'']], mq_lost = False\<rparr>"
    by (simp add: sample_conn_def)
  from stream_dropped [OF stream_granted [OF this, of "''two''" "[''a/#'']"], of "[''a/#'']" "{''a/#''}"]
  have "streams_reachable True False False \<lparr>mq_conn = ?two, mq_broker = {}, mq_calls = [], mq_lost = False\<rparr>"
    by (simp add: returned_def)
  then show "\<exists>s. streams_reachable True False False s \<and> mq_calls s = [] \<and> \<not> mq_lost s \<and> mq_broker s = {} \<and>
      mc_streams (mq_conn s) = [(''two'', sample_started ''two'' [''a/#''])]"
    by (intro exI conjI) (assumption, simp_all)
next
  from stream_refused [OF sample_asked(2), of "''one''" "[''b'', ''#'']" "{''b''}"]
  show "\<exists>s. streams_reachable False True False s \<and> mq_calls s = [] \<and> \<not> mq_lost s \<and> mq_broker s = {''b''} \<and>
      mc_streams (mq_conn s) = []"
    by (auto simp: sample_session_def sample_conn_def start_refused_def returned_def intro!: exI)
qed

text \<open>Even with one call at a time a stream can go silent while it is shown as live. A read of the
  broker's figures, which a cluster page makes whenever it refreshes, ends with unsubscribing
  \<open>$SYS/#\<close>, whether or not a stream watches it. And after a reconnect whose subscription the broker
  refuses, the stream is marked live again and nobody is told: the answer is thrown away.\<close>

theorem stream_can_go_silent_alone:
  "(\<exists>s. streams_reachable False False True s \<and> mq_calls s = [] \<and> \<not> mq_lost s \<and> mq_broker s = {} \<and>
      mc_streams (mq_conn s) = [(''one'', sample_started ''one'' [''$SYS/#''])]) \<and>
   (\<exists>s. streams_reachable False False True s \<and> mq_calls s = [] \<and> \<not> mq_lost s \<and> mq_broker s = {} \<and>
      mc_streams (mq_conn s) = [(''one'', sample_started ''one'' [''a/#''])]) \<and>
   qs_live (sample_started ''one'' [''$SYS/#'']) \<and> qs_live (sample_started ''one'' [''a/#''])"
proof (intro conjI)
  have "streams_reachable False False False (sample_session [''$SYS/#''] {''$SYS/#''} [Collect ''$SYS/#'' False] False)"
    using listing_began [OF sample_subscribed(2), of False "''$SYS/#''"] by (simp add: sample_session_def sysFilter_def)
  from listing_ended [OF listing_gathers [OF this, of "''$SYS/#''" False], of "''$SYS/#''" False]
  have "streams_reachable False False True (sample_session [''$SYS/#''] {''$SYS/#''} [Unsubscribe [''$SYS/#'']] False)"
    using sample_start(6) by (simp add: sample_session_def release_calls_def)
  from stream_dropped [OF this, of "[''$SYS/#'']" "{''$SYS/#''}"]
  have "streams_reachable False False True (sample_session [''$SYS/#''] {} [] False)"
    by (simp add: sample_session_def returned_def)
  then show "\<exists>s. streams_reachable False False True s \<and> mq_calls s = [] \<and> \<not> mq_lost s \<and> mq_broker s = {} \<and>
      mc_streams (mq_conn s) = [(''one'', sample_started ''one'' [''$SYS/#''])]"
    by (intro exI [of _ "sample_session [''$SYS/#''] {} [] False"]) (simp add: sample_session_def)
next
  have again: "setStreamsLive True (setStreamsLive False (mq_conn (sample_session [''a/#''] b calls lost))) =
      mq_conn (sample_session [''a/#''] b calls lost)" for b calls lost
    by (simp add: sample_session_def setStreamsLive_def sample_started_def newStream_def)
  have filters: "resubscribeFilters (mq_conn (sample_session [''a/#''] b calls lost)) =
      [\<lparr>sf_pattern = ''a/#'', sf_qos = 0\<rparr>]" for b calls lost
    by (simp add: sample_session_def setStreamsLive_def sample_started_def newStream_def sample_spec_def
        resubscribeFilters_def filterQoS_def)
  from session_back [OF session_dropped [OF sample_subscribed(1), of "{}"], of "[\<lparr>sf_pattern = ''a/#'', sf_qos = 0\<rparr>]"
      "mq_conn (sample_session [''a/#''] {''a/#''} [] False)"]
  have "streams_reachable False False False (sample_session [''a/#''] {} [Renew [''a/#'']] False)"
    by (simp add: sessionUp_def sessionDown_def again filters call_for_def) (simp add: sample_session_def)
  from session_renewed [OF this, of "[''a/#'']" "{}"]
  have "streams_reachable False False True (sample_session [''a/#''] {} [] False)"
    by (simp add: sample_session_def returned_def)
  then show "\<exists>s. streams_reachable False False True s \<and> mq_calls s = [] \<and> \<not> mq_lost s \<and> mq_broker s = {} \<and>
      mc_streams (mq_conn s) = [(''one'', sample_started ''one'' [''a/#''])]"
    by (intro exI [of _ "sample_session [''a/#''] {} [] False"]) (simp add: sample_session_def)
qed (simp_all add: sample_started_def newStream_def)

end
