(* ===== verification/AmqpStream.thy ===== *)
theory AmqpStream
  imports LiveBuffer
begin

text \<open>
  The live subscription of an ActiveMQ connection (internal/driver/activemq/subscribe.go): a slice
  that loses its head when it is full, and a poll whose cursor is the newest number unless the
  batch was cut short. It implements the same \<open>live_buffer\<close> as the ring of MqttStream.
\<close>

record amqp_stream =
  as_messages :: "live_message list"
  as_next :: int
  as_received :: int
  as_dropped :: int
  as_live :: bool

text \<open>An arrival: \<open>Value\<close> printed when there is one, what \<open>GetData\<close> makes of the data sections, the application's
  properties printed, and the address it was sent to.\<close>

record amqp_message =
  am_value :: "string option"
  am_data :: string
  am_properties :: "(string \<times> string) list"
  am_to :: "string option"

definition newAmqpStream :: amqp_stream where
  "newAmqpStream = \<lparr>as_messages = [], as_next = 0, as_received = 0, as_dropped = 0, as_live = True\<rparr>"

definition amqp_live :: "string \<Rightarrow> string \<Rightarrow> string \<Rightarrow> amqp_message \<Rightarrow> live_message" where
  "amqp_live now product pattern m =
     \<lparr>lm_seq = 0, lm_destination = nullish (am_to m) pattern, lm_filter = pattern, lm_receivedAt = now,
      lm_body = nullish (am_value m) (am_data m), lm_truncated = False,
      lm_attributes = foldl (\<lambda>attrs (k, v). AList.update k v attrs) [(''product'', product)] (am_properties m)\<rparr>"

definition amqp_append :: "nat \<Rightarrow> live_message \<Rightarrow> amqp_stream \<Rightarrow> amqp_stream" where
  "amqp_append buffer m s =
     (let s1 = s\<lparr>as_received := as_received s + 1\<rparr>;
          s2 = (if length (as_messages s1) \<ge> buffer
                then s1\<lparr>as_messages := tl (as_messages s1), as_dropped := as_dropped s1 + 1\<rparr> else s1);
          next = as_next s2 + 1
      in s2\<lparr>as_next := next, as_messages := as_messages s2 @ [m\<lparr>lm_seq := next\<rparr>]\<rparr>)"

text \<open>The loop of a poll: it stops, with the cursor, at the message that fills the batch.\<close>

fun amqp_collect :: "int \<Rightarrow> int \<Rightarrow> live_message list \<Rightarrow> int \<Rightarrow> live_message list \<Rightarrow> live_message list \<times> int" where
  "amqp_collect after limit found cursor [] = (found, cursor)"
| "amqp_collect after limit found cursor (m # ms) =
     (if lm_seq m \<le> after then amqp_collect after limit found cursor ms
      else (let found' = found @ [m]
            in if limit > 0 \<and> int (length found') \<ge> limit then (found', lm_seq m)
               else amqp_collect after limit found' cursor ms))"

definition amqp_poll :: "int \<Rightarrow> int \<Rightarrow> amqp_stream \<Rightarrow> live_batch" where
  "amqp_poll after limit s =
     (let (found, cursor) = amqp_collect after limit [] (as_next s) (as_messages s)
      in \<lparr>lb_messages = found, lb_cursor = cursor, lb_dropped = as_dropped s,
          lb_received = as_received s, lb_live = as_live s\<rparr>)"

section \<open>The slice holds the last arrivals\<close>

lemma amqp_slice:
  assumes "0 < cap"
  shows "fold (amqp_append cap) ms newAmqpStream =
    \<lparr>as_messages = held cap ms, as_next = int (length ms), as_received = int (length ms),
     as_dropped = int (length ms - cap), as_live = True\<rparr>"
proof (induction ms rule: rev_induct)
  case Nil
  show ?case by (simp add: newAmqpStream_def held_def)
next
  case (snoc m ms)
  show ?case
  proof (cases "length ms < cap")
    case True
    with snoc show ?thesis by (simp add: amqp_append_def Let_def held_grows)
  next
    case False
    with snoc assms show ?thesis by (simp add: amqp_append_def Let_def held_slides Suc_diff_le)
  qed
qed

lemma amqp_collect_eq:
  assumes "limit > 0 \<Longrightarrow> int (length found) < limit"
  shows "amqp_collect after limit found cursor ms =
     (let new = filter (\<lambda>m. after < lm_seq m) ms; k = nat limit - length found
      in if limit > 0 \<and> length new \<ge> k then (found @ take k new, lm_seq (last (take k new)))
         else (found @ new, cursor))"
  using assms
proof (induction after limit found cursor ms rule: amqp_collect.induct)
  case (2 after limit found cursor m ms)
  show ?case
  proof (cases "lm_seq m \<le> after")
    case True
    then show ?thesis using 2 by (simp add: Let_def)
  next
    case False
    let ?k = "nat limit - length found"
    show ?thesis
    proof (cases "limit > 0 \<and> int (length found) + 1 \<ge> limit")
      case True
      then have "?k = Suc 0" using 2(3) by linarith
      then show ?thesis using True False by (simp add: Let_def)
    next
      case more: False
      then have "limit > 0 \<Longrightarrow> ?k = Suc (nat limit - Suc (length found)) \<and> nat limit - Suc (length found) > 0"
        by linarith
      then show ?thesis using 2(2) more False by (auto simp: Let_def)
    qed
  qed
qed (auto simp: Let_def)

interpretation amqp_slice: live_buffer "Suc n" newAmqpStream "amqp_append (Suc n)" amqp_poll
  for n
proof
  fix b after limit ms
  assume b: "b = amqp_poll after limit (fold (amqp_append (Suc n)) ms newAmqpStream)"
    and after: "0 \<le> after" "after \<le> int (length ms)"
  define new where "new = filter (\<lambda>m. after < lm_seq m) (held (Suc n) ms)"
  define full where "full \<longleftrightarrow> limit > 0 \<and> length new \<ge> nat limit"
  have batch: "lb_messages b = (if full then take (nat limit) new else new)"
    "lb_cursor b = (if full then lm_seq (last (take (nat limit) new)) else int (length ms))"
    using b by (auto simp: amqp_poll_def amqp_slice amqp_collect_eq new_def full_def Let_def)
  have sorted: "sorted_wrt (<) (map lm_seq new)"
    unfolding new_def using sorted_held [of "Suc n" ms] by (simp add: sorted_wrt_map sorted_wrt_filter)
  have cut: "take (nat limit) new \<noteq> []" if full using that by (auto simp: full_def)
  have last: "last (take (nat limit) new) \<in> set new" if full
    using last_in_set [OF cut [OF that]] by (rule in_set_takeD)
  show bounds: "after \<le> lb_cursor b \<and> lb_cursor b \<le> int (length ms)"
    using after last by (auto simp: batch new_def dest!: held_range)
  show "lb_messages b = between after (lb_cursor b) (held (Suc n) ms)"
  proof (cases full)
    case True
    from take_is_window(1) [OF sorted cut [OF True]] True show ?thesis
      by (simp add: batch new_def between_def conj_commute)
  next
    case False
    then show ?thesis by (auto simp: batch new_def between_def intro!: filter_cong dest: held_range)
  qed
  show "between (lb_cursor b) (int (length ms)) (held (Suc n) ms) = []"
    if short: "limit \<le> 0 \<or> int (length (lb_messages b)) < limit"
  proof -
    have "\<not> full"
    proof
      assume full
      then have "int (length (lb_messages b)) = limit" "limit > 0" by (simp_all add: batch full_def)
      with short show False by simp
    qed
    then show ?thesis by (auto simp: batch between_def filter_empty_conv)
  qed
qed (auto simp: amqp_poll_def amqp_slice split: prod.split)

end
