(* ===== verification/LivePanel.thy ===== *)
theory LivePanel
  imports MqttSession AmqpStream
begin

text \<open>
  The panel that follows a live subscription (hooks/mqtt/useMqttStream.ts; useNatsStream and
  useActiveMQStream are the same text over other calls): what it shows, the subscription it reads
  and the cursor it passes on, with the polls, starts, stops and adoptions that are under way. One
  connection, dialled, is in scope for as long as the panel is mounted. The cleanup of the polling effect
  is taken to happen with the change of state that causes it.
\<close>

section \<open>What a reader of a stream is handed\<close>

text \<open>C19. Whatever the order of arrivals and polls, and whatever each poll asks for, a reader that
  passes its cursor on is handed every message up to the cursor in order and once, except messages
  that had been overwritten before it asked. The ring of the MQTT driver and the slice of the
  ActiveMQ driver both keep this promise.\<close>

theorem reader_misses_only_the_overwritten:
  "(case reader stream_append (newStream now i filters (Suc n)) stream_poll es of (ms, c, out) \<Rightarrow>
      0 \<le> c \<and> c \<le> int (length ms) \<and>
      (\<exists>lost. lost \<subseteq> {1 .. int (length ms - Suc n)} \<and>
         out = filter (\<lambda>m. lm_seq m \<notin> lost) (between 0 c (numbered ms)))) \<and>
   (case reader (amqp_append (Suc n)) newAmqpStream amqp_poll es of (ms, c, out) \<Rightarrow>
      0 \<le> c \<and> c \<le> int (length ms) \<and>
      (\<exists>lost. lost \<subseteq> {1 .. int (length ms - Suc n)} \<and>
         out = filter (\<lambda>m. lm_seq m \<notin> lost) (between 0 c (numbered ms))))"
  using mqtt_ring.reader_law [where n = n and now = now and i = i and filters = filters and es = es]
    amqp_slice.reader_law [where n = n and es = es]
  by (auto split: prod.splits)

text \<open>The dropped count a panel shows says nothing about loss: a reader that asks after every
  arrival is handed every message, and is told that all but the last bufferful were dropped.\<close>

theorem dropped_counts_what_was_read:
  "reader stream_append (newStream now i filters (Suc n)) stream_poll (eager ms) =
     (ms, int (length ms), numbered ms) \<and>
   reader (amqp_append (Suc n)) newAmqpStream amqp_poll (eager ms) = (ms, int (length ms), numbered ms) \<and>
   lb_dropped (stream_poll after limit (fold stream_append ms (newStream now i filters (Suc n)))) =
     int (length ms - Suc n) \<and>
   lb_dropped (amqp_poll after limit (fold (amqp_append (Suc n)) ms newAmqpStream)) = int (length ms - Suc n)"
  using mqtt_ring.eager_reader [where n = n and now = now and i = i and filters = filters and ms = ms]
    amqp_slice.eager_reader [where n = n and ms = ms] mqtt_ring.counted(2) amqp_slice.counted(2)
  by simp

section \<open>The panel\<close>

definition KEEP :: nat where
  "KEEP = 500"

text \<open>A poll under way: the stream and the cursor it was sent for, and whether the effect that sent it
  has been cleaned up.\<close>

record panel_poll =
  pp_id :: string
  pp_cursor :: int
  pp_cancelled :: bool

record live_panel =
  lp_messages :: "live_message list"
  lp_filters :: "string list"
  lp_running :: bool
  lp_live :: bool
  lp_received :: int
  lp_dropped :: int
  lp_error :: "string option"
  lp_subscription :: "string option"
  lp_cursor :: int
  lp_polls :: "panel_poll list"

definition panel_mounted :: live_panel where
  "panel_mounted =
     \<lparr>lp_messages = [], lp_filters = [], lp_running = False, lp_live = True, lp_received = 0, lp_dropped = 0,
      lp_error = None, lp_subscription = None, lp_cursor = 0, lp_polls = []\<rparr>"

text \<open>\<open>setRunning\<close> with the cleanup of the effect that depends on it.\<close>

definition setRunning :: "bool \<Rightarrow> live_panel \<Rightarrow> live_panel" where
  "setRunning b p =
     (if lp_running p \<and> \<not> b
      then p\<lparr>lp_running := b, lp_polls := map (\<lambda>q. q\<lparr>pp_cancelled := True\<rparr>) (lp_polls p)\<rparr>
      else p\<lparr>lp_running := b\<rparr>)"

text \<open>Each press yields the streams to stop on the broker.\<close>

definition panel_stop :: "live_panel \<Rightarrow> live_panel \<times> string list" where
  "panel_stop p =
     (setRunning False (p\<lparr>lp_subscription := None, lp_filters := []\<rparr>),
      case lp_subscription p of None \<Rightarrow> [] | Some i \<Rightarrow> [i])"

definition panel_start :: "live_panel \<Rightarrow> live_panel \<times> string list" where
  "panel_start p =
     (p\<lparr>lp_subscription := None, lp_error := None, lp_messages := [], lp_received := 0, lp_dropped := 0,
        lp_live := True, lp_cursor := 0\<rparr>,
      case lp_subscription p of None \<Rightarrow> [] | Some i \<Rightarrow> [i])"

definition panel_started :: "string \<Rightarrow> string list \<Rightarrow> live_panel \<Rightarrow> live_panel" where
  "panel_started i patterns p = setRunning True (p\<lparr>lp_subscription := Some i, lp_filters := patterns\<rparr>)"

definition panel_failed :: "string \<Rightarrow> live_panel \<Rightarrow> live_panel" where
  "panel_failed e p = setRunning False (p\<lparr>lp_error := Some e\<rparr>)"

definition panel_adopts :: "(string \<times> string list) option \<Rightarrow> live_panel \<Rightarrow> live_panel" where
  "panel_adopts existing p =
     (case existing of None \<Rightarrow> p
      | Some (i, patterns) \<Rightarrow>
          setRunning True (p\<lparr>lp_subscription := Some i, lp_cursor := 0, lp_filters := patterns\<rparr>))"

definition panel_clear :: "live_panel \<Rightarrow> live_panel" where
  "panel_clear p = p\<lparr>lp_messages := []\<rparr>"

definition panel_tick :: "live_panel \<Rightarrow> live_panel" where
  "panel_tick p =
     (if \<not> lp_running p then p
      else case lp_subscription p of None \<Rightarrow> p
        | Some i \<Rightarrow> p\<lparr>lp_polls := lp_polls p @ [\<lparr>pp_id = i, pp_cursor = lp_cursor p, pp_cancelled = False\<rparr>]\<rparr>)"

text \<open>An answer to the poll \<open>q\<close>: a batch, or a failure.\<close>

definition panel_answer :: "panel_poll \<Rightarrow> string + live_batch \<Rightarrow> live_panel \<Rightarrow> live_panel" where
  "panel_answer q r p =
     (let p' = p\<lparr>lp_polls := remove1 q (lp_polls p)\<rparr>
      in if pp_cancelled q then p'
         else case r of
             Inl e \<Rightarrow> panel_failed e p'
           | Inr b \<Rightarrow>
               (let p'' = p'\<lparr>lp_cursor := lb_cursor b, lp_received := lb_received b, lp_dropped := lb_dropped b,
                             lp_live := lb_live b\<rparr>
                in if length (lb_messages b) = 0 then p''
                   else p''\<lparr>lp_messages :=
                          (let all = lp_messages p @ lb_messages b in drop (length all - KEEP) all)\<rparr>))"

section \<open>The panel and its streams\<close>

text \<open>\<open>pw_arrivals\<close> is what has arrived on each stream that was ever started; \<open>pw_starts\<close> counts the
  starts under way and \<open>pw_adopting\<close> holds until the listing asked for on mounting has come.\<close>

record panel_world =
  pw_panel :: live_panel
  pw_arrivals :: "(string \<times> live_message list) list"
  pw_starts :: nat
  pw_adopting :: bool

abbreviation arrivals :: "panel_world \<Rightarrow> string \<Rightarrow> live_message list" where
  "arrivals w i \<equiv> nullish (map_of (pw_arrivals w) i) []"

definition awaited :: "live_panel \<Rightarrow> panel_poll list" where
  "awaited p = filter (\<lambda>q. \<not> pp_cancelled q) (lp_polls p)"

text \<open>What a driver answers a poll with, from a buffer of \<open>Suc n\<close> messages: it is served at some moment
  between sending and answering.\<close>

definition served :: "nat \<Rightarrow> panel_world \<Rightarrow> panel_poll \<Rightarrow> nat \<Rightarrow> live_batch" where
  "served n w q k =
     stream_poll (pp_cursor q) (int KEEP)
       (fold stream_append (take k (arrivals w (pp_id q))) (newStream '''' (pp_id q) [] (Suc n)))"

text \<open>The flag records whether two requests ever crossed: a tick while a poll was awaited, or a stream
  started or adopted while a poll, a start or a listing was.\<close>

inductive panel_reachable :: "nat \<Rightarrow> bool \<Rightarrow> panel_world \<Rightarrow> bool" for n where
  panel_opens: "panel_reachable n False
    \<lparr>pw_panel = panel_mounted, pw_arrivals = streams, pw_starts = 0, pw_adopting = True\<rparr>"
| panel_starts: "panel_reachable n crossed w \<Longrightarrow>
    panel_reachable n (crossed \<or> awaited (pw_panel w) \<noteq> [] \<or> pw_starts w > 0 \<or> pw_adopting w)
      (w\<lparr>pw_panel := fst (panel_start (pw_panel w)), pw_starts := pw_starts w + 1\<rparr>)"
| panel_is_started: "panel_reachable n crossed w \<Longrightarrow> pw_starts w > 0 \<Longrightarrow> i \<notin> fst ` set (pw_arrivals w) \<Longrightarrow>
    panel_reachable n crossed
      (w\<lparr>pw_panel := panel_started i patterns (pw_panel w), pw_starts := pw_starts w - 1,
         pw_arrivals := (i, []) # pw_arrivals w\<rparr>)"
| panel_start_fails: "panel_reachable n crossed w \<Longrightarrow> pw_starts w > 0 \<Longrightarrow>
    panel_reachable n crossed (w\<lparr>pw_panel := panel_failed e (pw_panel w), pw_starts := pw_starts w - 1\<rparr>)"
| panel_stops: "panel_reachable n crossed w \<Longrightarrow>
    panel_reachable n crossed (w\<lparr>pw_panel := fst (panel_stop (pw_panel w))\<rparr>)"
| panel_clears: "panel_reachable n crossed w \<Longrightarrow>
    panel_reachable n crossed (w\<lparr>pw_panel := panel_clear (pw_panel w)\<rparr>)"
| panel_lists: "panel_reachable n crossed w \<Longrightarrow> pw_adopting w \<Longrightarrow>
    panel_reachable n crossed
      (w\<lparr>pw_panel := panel_adopts existing (pw_panel w), pw_adopting := False\<rparr>)"
| panel_ticks: "panel_reachable n crossed w \<Longrightarrow>
    panel_reachable n (crossed \<or> awaited (pw_panel w) \<noteq> []) (w\<lparr>pw_panel := panel_tick (pw_panel w)\<rparr>)"
| panel_batch: "panel_reachable n crossed w \<Longrightarrow> q \<in> set (lp_polls (pw_panel w)) \<Longrightarrow>
    min (pp_cursor q) (int (length (arrivals w (pp_id q)))) \<le> int k \<Longrightarrow>
    panel_reachable n crossed (w\<lparr>pw_panel := panel_answer q (Inr (served n w q k)) (pw_panel w)\<rparr>)"
| panel_error: "panel_reachable n crossed w \<Longrightarrow> q \<in> set (lp_polls (pw_panel w)) \<Longrightarrow>
    panel_reachable n crossed (w\<lparr>pw_panel := panel_answer q (Inl e) (pw_panel w)\<rparr>)"
| panel_arrival: "panel_reachable n crossed w \<Longrightarrow>
    panel_reachable n crossed
      (w\<lparr>pw_arrivals := map (\<lambda>(j, ms). (j, if j = i then ms @ [m] else ms)) (pw_arrivals w)\<rparr>)"

section \<open>When requests do not cross\<close>

definition rows_ok :: "panel_world \<Rightarrow> bool" where
  "rows_ok w \<longleftrightarrow>
     sorted_wrt (<) (map lm_seq (lp_messages (pw_panel w))) \<and> length (lp_messages (pw_panel w)) \<le> KEEP \<and>
     (\<forall>m \<in> set (lp_messages (pw_panel w)). lm_seq m \<le> lp_cursor (pw_panel w)) \<and>
     (\<exists>i. lp_subscription (pw_panel w) \<in> {None, Some i} \<and>
        set (lp_messages (pw_panel w)) \<subseteq> set (numbered (arrivals w i)))"

definition requests_ok :: "panel_world \<Rightarrow> bool" where
  "requests_ok w \<longleftrightarrow>
     0 \<le> lp_cursor (pw_panel w) \<and>
     (\<forall>i. lp_subscription (pw_panel w) = Some i \<longrightarrow> lp_cursor (pw_panel w) \<le> int (length (arrivals w i))) \<and>
     (awaited (pw_panel w) \<noteq> [] \<longrightarrow> lp_running (pw_panel w) \<and>
        (\<exists>i. lp_subscription (pw_panel w) = Some i \<and>
             awaited (pw_panel w) = [\<lparr>pp_id = i, pp_cursor = lp_cursor (pw_panel w), pp_cancelled = False\<rparr>])) \<and>
     (pw_starts w > 0 \<or> pw_adopting w \<longrightarrow>
        lp_subscription (pw_panel w) = None \<and> lp_messages (pw_panel w) = [] \<and> lp_cursor (pw_panel w) = 0) \<and>
     pw_starts w \<le> 1 \<and> (pw_adopting w \<longrightarrow> pw_starts w = 0)"

lemma awaited_cancel [simp]: "awaited (p\<lparr>lp_polls := map (\<lambda>q. q\<lparr>pp_cancelled := True\<rparr>) qs\<rparr>) = []"
  by (simp add: awaited_def filter_empty_conv)

lemma awaited_update [simp]:
  "awaited (p\<lparr>lp_messages := a1\<rparr>) = awaited p" "awaited (p\<lparr>lp_filters := a2\<rparr>) = awaited p"
  "awaited (p\<lparr>lp_running := a3\<rparr>) = awaited p" "awaited (p\<lparr>lp_live := a4\<rparr>) = awaited p"
  "awaited (p\<lparr>lp_received := a5\<rparr>) = awaited p" "awaited (p\<lparr>lp_dropped := a5\<rparr>) = awaited p"
  "awaited (p\<lparr>lp_error := a6\<rparr>) = awaited p" "awaited (p\<lparr>lp_subscription := a7\<rparr>) = awaited p"
  "awaited (p\<lparr>lp_cursor := a5\<rparr>) = awaited p"
  by (simp_all add: awaited_def)

lemma setRunning_fields [simp]:
  "lp_messages (setRunning b p) = lp_messages p" "lp_subscription (setRunning b p) = lp_subscription p"
  "lp_cursor (setRunning b p) = lp_cursor p" "lp_running (setRunning b p) = b"
  by (simp_all add: setRunning_def)

lemma setRunning_awaited:
  "awaited (setRunning True p) = awaited p"
  "(awaited p \<noteq> [] \<longrightarrow> lp_running p) \<Longrightarrow> awaited (setRunning False p) = []"
  by (auto simp: setRunning_def awaited_def filter_empty_conv)

lemma nth_numbered: "i < length ms \<Longrightarrow> numbered ms ! i = (ms ! i)\<lparr>lm_seq := int i + 1\<rparr>"
  by (simp add: numbered_def nth_enumerate_eq)

lemma numbered_take: "numbered (take k ms) = take k (numbered ms)"
  by (rule nth_equalityI) (simp_all add: nth_numbered)

lemma numbered_grows: "set (numbered ms) \<subseteq> set (numbered (ms @ [m]))"
  by (auto simp: numbered_snoc)

lemma sorted_drop_append:
  assumes "sorted_wrt (<) (map lm_seq xs)" "sorted_wrt (<) (map lm_seq ys)"
    and "\<forall>x \<in> set xs. lm_seq x \<le> c" "\<forall>y \<in> set ys. c < lm_seq y"
  shows "sorted_wrt (<) (map lm_seq (drop n (xs @ ys)))"
proof -
  have "sorted_wrt (<) (map lm_seq (xs @ ys))" using assms by (fastforce simp: sorted_wrt_append)
  then show ?thesis by (simp add: drop_map [symmetric] sorted_wrt_drop del: map_append drop_append)
qed

text \<open>A batch that answers the one poll that is awaited.\<close>

lemma batch_accepted:
  assumes rows: "rows_ok w" and requests: "requests_ok w"
    and q: "q \<in> set (lp_polls (pw_panel w))" "\<not> pp_cancelled q"
    and k: "min (pp_cursor q) (int (length (arrivals w (pp_id q)))) \<le> int k"
  shows "rows_ok (w\<lparr>pw_panel := panel_answer q (Inr (served n w q k)) (pw_panel w)\<rparr>) \<and>
    requests_ok (w\<lparr>pw_panel := panel_answer q (Inr (served n w q k)) (pw_panel w)\<rparr>)"
proof -
  let ?p = "pw_panel w"
  have "q \<in> set (awaited ?p)" using q by (simp add: awaited_def)
  with requests obtain i where i: "lp_subscription ?p = Some i" "lp_running ?p"
    and one: "awaited ?p = [q]" and own: "q = \<lparr>pp_id = i, pp_cursor = lp_cursor ?p, pp_cancelled = False\<rparr>"
    by (auto simp: requests_ok_def)
  have after: "0 \<le> lp_cursor ?p" "lp_cursor ?p \<le> int (length (arrivals w i))"
    using requests i by (auto simp: requests_ok_def)
  then have upto: "lp_cursor ?p \<le> int (length (take k (arrivals w i)))" using k own by simp
  define b where "b = served n w q k"
  then have b: "b = stream_poll (lp_cursor ?p) (int KEEP)
      (fold stream_append (take k (arrivals w i)) (newStream '''' i [] (Suc n)))"
    by (simp add: served_def own)
  note poll = poll_window [OF ring_ok_fold [OF zero_less_Suc] zero_less_Suc after(1) upto b]
  have onward: "lp_cursor ?p \<le> lb_cursor b" "lb_cursor b \<le> int (length (arrivals w i))"
    using poll(2,3) by simp_all
  have new: "lp_cursor ?p < lm_seq m \<and> lm_seq m \<le> lb_cursor b \<and> m \<in> set (numbered (arrivals w i))"
    if "m \<in> set (lb_messages b)" for m
    using that poll(1) by (auto simp: between_def held_def numbered_take dest: in_set_dropD in_set_takeD)
  have sorted: "sorted_wrt (<) (map lm_seq (lb_messages b))"
    unfolding poll(1) between_def using sorted_held [of "Suc n" "take k (arrivals w i)"]
    by (simp add: sorted_wrt_map sorted_wrt_filter)
  define all where "all = lp_messages ?p @ lb_messages b"
  define shown where "shown = (if lb_messages b = [] then lp_messages ?p else drop (length all - KEEP) all)"
  have old: "set (lp_messages ?p) \<subseteq> set (numbered (arrivals w i))" "\<forall>m \<in> set (lp_messages ?p). lm_seq m \<le> lp_cursor ?p"
    "sorted_wrt (<) (map lm_seq (lp_messages ?p))" "length (lp_messages ?p) \<le> KEEP"
    using rows i by (auto simp: rows_ok_def)
  have "set shown \<subseteq> set all" by (auto simp: shown_def all_def dest: in_set_dropD)
  then have parts: "m \<in> set (numbered (arrivals w i)) \<and> lm_seq m \<le> lb_cursor b" if "m \<in> set shown" for m
    using that old(1,2) new onward(1) by (fastforce simp: all_def)
  have order: "sorted_wrt (<) (map lm_seq shown)"
    unfolding shown_def all_def using old(3) sorted_drop_append [OF old(3) sorted old(2)] new
    by (cases "lb_messages b = []") (simp_all del: drop_append map_append)
  have size: "length shown \<le> KEEP" using old(4) unfolding shown_def by (simp split: if_split) arith
  define p' where "p' = panel_answer q (Inr b) ?p"
  have fields: "lp_messages p' = shown" "lp_cursor p' = lb_cursor b" "lp_subscription p' = Some i"
    "lp_running p'" "lp_polls p' = remove1 q (lp_polls ?p)"
    using q(2) i by (simp_all add: p'_def panel_answer_def Let_def shown_def all_def)
  have none: "awaited p' = []"
    using one q(2) by (simp add: awaited_def fields filter_remove1)
  have "rows_ok (w\<lparr>pw_panel := p'\<rparr>)"
    using parts order size by (auto simp: rows_ok_def fields intro!: exI [of _ i])
  moreover have "requests_ok (w\<lparr>pw_panel := p'\<rparr>)"
    using requests i onward after none by (auto simp: requests_ok_def fields)
  ultimately show ?thesis by (simp add: p'_def b_def)
qed

lemma cancelled_answer:
  assumes "pp_cancelled q"
  shows "panel_answer q r p = p\<lparr>lp_polls := remove1 q (lp_polls p)\<rparr>"
    and "awaited (p\<lparr>lp_polls := remove1 q (lp_polls p)\<rparr>) = awaited p"
  using assms by (simp_all add: panel_answer_def awaited_def filter_remove1 remove1_idem)

lemma same_panel:
  assumes "lp_messages p = lp_messages (pw_panel w)" "lp_cursor p = lp_cursor (pw_panel w)"
    "lp_subscription p = lp_subscription (pw_panel w)" "lp_running p = lp_running (pw_panel w)"
    "awaited p = awaited (pw_panel w)"
  shows "rows_ok (w\<lparr>pw_panel := p\<rparr>) = rows_ok w" "requests_ok (w\<lparr>pw_panel := p\<rparr>) = requests_ok w"
  using assms by (simp_all add: rows_ok_def requests_ok_def)

lemma no_request_left:
  assumes "rows_ok w" "requests_ok w"
    and "lp_messages p = lp_messages (pw_panel w)" "lp_cursor p = lp_cursor (pw_panel w)"
    "lp_subscription p = lp_subscription (pw_panel w)" "awaited p = []"
  shows "rows_ok (w\<lparr>pw_panel := p\<rparr>) \<and> requests_ok (w\<lparr>pw_panel := p\<rparr>)"
proof -
  let ?w = "w\<lparr>pw_panel := p\<rparr>"
  have fields: "pw_panel ?w = p" "pw_arrivals ?w = pw_arrivals w" "pw_starts ?w = pw_starts w"
    "pw_adopting ?w = pw_adopting w" by simp_all
  show ?thesis using assms(1,2) unfolding rows_ok_def requests_ok_def fields assms(3-6) by simp
qed

lemma map_of_arrival:
  "nullish (map_of (map (\<lambda>(j, ms). (j, if j = i then ms @ [m] else ms)) xs) j) [] =
     (if j = i \<and> map_of xs j \<noteq> None then nullish (map_of xs j) [] @ [m] else nullish (map_of xs j) [])"
  by (induction xs) auto

lemma panel_ok_reachable: "panel_reachable n crossed w \<Longrightarrow> \<not> crossed \<Longrightarrow> rows_ok w \<and> requests_ok w"
proof (induction rule: panel_reachable.induct)
  case (panel_opens streams)
  then show ?case by (auto simp: rows_ok_def requests_ok_def panel_mounted_def awaited_def)
next
  case (panel_starts crossed w)
  then show ?case by (auto simp: rows_ok_def requests_ok_def panel_start_def)
next
  case (panel_is_started crossed w i patterns)
  then have "awaited (pw_panel w) = []" "map_of (pw_arrivals w) i = None"
    by (auto simp: requests_ok_def map_of_eq_None_iff)
  with panel_is_started show ?case
    by (auto simp: rows_ok_def requests_ok_def panel_started_def setRunning_awaited)
next
  case (panel_start_fails crossed w e)
  then show ?case
    by (auto simp: rows_ok_def requests_ok_def panel_failed_def setRunning_awaited)
next
  case (panel_stops crossed w)
  then show ?case
    by (auto simp: rows_ok_def requests_ok_def panel_stop_def setRunning_awaited)
next
  case (panel_clears crossed w)
  then show ?case by (auto simp: rows_ok_def requests_ok_def panel_clear_def)
next
  case (panel_lists crossed w existing)
  then show ?case
    by (auto simp: rows_ok_def requests_ok_def panel_adopts_def setRunning_awaited split: option.split)
next
  case (panel_ticks crossed w)
  then show ?case
    by (auto simp: rows_ok_def requests_ok_def panel_tick_def awaited_def split: option.split)
next
  case (panel_batch crossed w q k)
  show ?case
  proof (cases "pp_cancelled q")
    case True
    from panel_batch show ?thesis by (simp add: cancelled_answer [OF True] same_panel)
  next
    case False
    with panel_batch batch_accepted show ?thesis by blast
  qed
next
  case (panel_error crossed w q e)
  show ?case
  proof (cases "pp_cancelled q")
    case True
    from panel_error show ?thesis by (simp add: cancelled_answer [OF True] same_panel)
  next
    case False
    from panel_error have ok: "rows_ok w" "requests_ok w" by simp_all
    have "q \<in> set (awaited (pw_panel w))" using panel_error False by (simp add: awaited_def)
    then have on: "lp_running (pw_panel w)" using ok(2) unfolding requests_ok_def by (metis empty_iff list.set(1))
    define p' where "p' = panel_answer q (Inl e) (pw_panel w)"
    have p': "p' = setRunning False (pw_panel w\<lparr>lp_polls := remove1 q (lp_polls (pw_panel w)), lp_error := Some e\<rparr>)"
      using False by (simp add: p'_def panel_answer_def panel_failed_def)
    have "awaited p' = []" unfolding p' by (rule setRunning_awaited(2)) (simp add: on)
    moreover have "lp_messages p' = lp_messages (pw_panel w)" "lp_cursor p' = lp_cursor (pw_panel w)"
      "lp_subscription p' = lp_subscription (pw_panel w)" by (simp_all add: p')
    ultimately show ?thesis unfolding p'_def by (intro no_request_left [OF ok])
  qed
next
  case (panel_arrival crossed w i m)
  let ?w = "w\<lparr>pw_arrivals := map (\<lambda>(j, ms). (j, if j = i then ms @ [m] else ms)) (pw_arrivals w)\<rparr>"
  have fields: "pw_panel ?w = pw_panel w" "pw_starts ?w = pw_starts w" "pw_adopting ?w = pw_adopting w" by simp_all
  have more: "length (arrivals w j) \<le> length (arrivals ?w j)"
    "set (numbered (arrivals w j)) \<subseteq> set (numbered (arrivals ?w j))" for j
    by (simp_all add: map_of_arrival numbered_grows split: option.split)
  from panel_arrival have ok: "rows_ok w" "requests_ok w" by simp_all
  have "rows_ok ?w" using ok(1) more(2) unfolding rows_ok_def fields by (meson subset_trans)
  moreover have "lp_cursor (pw_panel w) \<le> int (length (arrivals ?w j))"
    if "lp_subscription (pw_panel w) = Some j" for j
  proof -
    have "lp_cursor (pw_panel w) \<le> int (length (arrivals w j))" using ok(2) that by (simp add: requests_ok_def)
    then show ?thesis using more(1) [of j] by linarith
  qed
  then have "requests_ok ?w" using ok(2) unfolding requests_ok_def fields by meson
  ultimately show ?case ..
qed

text \<open>C20. While no two requests cross (no tick while a poll is unanswered, nothing started or adopted
  while a poll, a start or the first listing is under way), every row the panel shows arrived on one
  stream, the one it is subscribed to when there is one, with the number it arrived under; the rows are
  in order of arrival with none shown twice, and there are at most 500 of them.\<close>

theorem panel_shows_each_message_once:
  assumes "panel_reachable n False w"
  shows "sorted_wrt (<) (map lm_seq (lp_messages (pw_panel w))) \<and> length (lp_messages (pw_panel w)) \<le> 500 \<and>
    (\<exists>i. lp_subscription (pw_panel w) \<in> {None, Some i} \<and>
       set (lp_messages (pw_panel w)) \<subseteq> set (numbered (arrivals w i)))"
  using panel_ok_reachable [OF assms] by (simp add: rows_ok_def KEEP_def)

definition hello :: live_message where
  "hello = \<lparr>lm_seq = 0, lm_destination = ''t'', lm_filter = ''t'', lm_receivedAt = ''now'', lm_body = ''hi'',
     lm_truncated = False, lm_attributes = []\<rparr>"

definition bye :: live_message where
  "bye = hello\<lparr>lm_body := ''bye''\<rparr>"

text \<open>A panel that adopts the stream \<open>s\<close>, which has one message, and asks for it once.\<close>

definition one_poll :: panel_poll where
  "one_poll = \<lparr>pp_id = ''s'', pp_cursor = 0, pp_cancelled = False\<rparr>"

definition watching :: panel_world where
  "watching =
     \<lparr>pw_panel = panel_tick (panel_adopts (Some (''s'', [''t''])) panel_mounted),
      pw_arrivals = [(''s'', [hello])], pw_starts = 0, pw_adopting = False\<rparr>"

definition taken :: "nat \<Rightarrow> panel_world \<Rightarrow> panel_world" where
  "taken n w = w\<lparr>pw_panel := panel_answer one_poll (Inr (served n w one_poll 1)) (pw_panel w)\<rparr>"

lemma watching_reached: "panel_reachable n False watching"
proof -
  have "panel_reachable n False (\<lparr>pw_panel = panel_mounted, pw_arrivals = [(''s'', [hello])], pw_starts = 0,
      pw_adopting = True\<rparr>)" by (rule panel_opens)
  from panel_ticks [OF panel_lists [OF this, of "Some (''s'', [''t''])"]]
  show ?thesis
    by (simp add: watching_def panel_adopts_def panel_mounted_def awaited_def setRunning_def)
qed

lemma hello_served:
  "stream_poll 0 500 (stream_append hello (newStream now i filters (Suc n))) =
     \<lparr>lb_messages = [hello\<lparr>lm_seq := 1\<rparr>], lb_cursor = 1, lb_dropped = 0, lb_received = 1, lb_live = True\<rparr>"
  by (simp add: stream_poll_def newStream_def stream_append_def in_use_def oldestSeq_def Let_def)

theorem panel_shows_each_message_once_witness:
  "sorted_wrt (<) (map lm_seq (lp_messages (pw_panel watching))) \<and>
   length (lp_messages (pw_panel watching)) \<le> 500 \<and>
   (\<exists>i. lp_subscription (pw_panel watching) \<in> {None, Some i} \<and>
      set (lp_messages (pw_panel watching)) \<subseteq> set (numbered (arrivals watching i)))"
  by (rule panel_shows_each_message_once [OF watching_reached [of 9]])

lemma taken_first:
  assumes "arrivals w ''s'' = [hello]"
  shows "taken n w =
     w\<lparr>pw_panel := (pw_panel w)\<lparr>lp_polls := remove1 one_poll (lp_polls (pw_panel w)), lp_cursor := 1,
         lp_received := 1, lp_dropped := 0, lp_live := True,
         lp_messages := drop (length (lp_messages (pw_panel w)) + 1 - 500)
           (lp_messages (pw_panel w) @ [hello\<lparr>lm_seq := 1\<rparr>])\<rparr>\<rparr>"
  using assms by (simp add: taken_def panel_answer_def served_def one_poll_def KEEP_def hello_served Let_def)

lemma first_answer_comes:
  "panel_reachable n crossed w \<Longrightarrow> one_poll \<in> set (lp_polls (pw_panel w)) \<Longrightarrow> arrivals w ''s'' = [hello] \<Longrightarrow>
   panel_reachable n crossed (taken n w)"
  unfolding taken_def by (rule panel_batch) (simp_all add: one_poll_def)

lemma watching_polls: "lp_polls (pw_panel watching) = [one_poll]" "awaited (pw_panel watching) = [one_poll]"
  by (simp_all add: watching_def panel_adopts_def panel_mounted_def panel_tick_def setRunning_def awaited_def
      one_poll_def)

lemma watching_starts: "pw_starts watching = 0" "pw_arrivals watching = [(''s'', [hello])]"
  by (simp_all add: watching_def)

text \<open>What a crossing costs. Two ticks before the first answer show one message twice: the hook
  polls every 400 ms whether or not the last poll has come back. And a stream started while a poll of
  the last one is unanswered takes that answer for its own: the panel lists the other stream's
  message, and its cursor has moved past a message of its own stream that no later poll will bring.\<close>

theorem crossing_requests_corrupt_the_panel:
  "(\<exists>w. panel_reachable n True w \<and> map lm_seq (lp_messages (pw_panel w)) = [1, 1] \<and>
      arrivals w ''s'' = [hello]) \<and>
   (\<exists>w. panel_reachable n True w \<and> lp_subscription (pw_panel w) = Some ''r'' \<and>
      lp_messages (pw_panel w) = numbered (arrivals w ''s'') \<and> arrivals w ''r'' = [bye] \<and>
      awaited (pw_panel w) = [] \<and> lp_cursor (pw_panel w) = 1)"
proof
  let ?w = "watching\<lparr>pw_panel := panel_tick (pw_panel watching)\<rparr>"
  have begun: "panel_reachable n True ?w" using panel_ticks [OF watching_reached, of n] by (simp add: watching_polls)
  have first: "arrivals ?w ''s'' = [hello]" "lp_polls (pw_panel ?w) = [one_poll, one_poll]"
    "lp_messages (pw_panel ?w) = []"
    by (simp_all add: watching_def panel_adopts_def panel_mounted_def panel_tick_def setRunning_def one_poll_def)
  have once: "panel_reachable n True (taken n ?w)"
    by (rule first_answer_comes [OF begun]) (simp_all only: first list.set_intros)
  have second: "arrivals (taken n ?w) ''s'' = [hello]" "lp_polls (pw_panel (taken n ?w)) = [one_poll]"
    "lp_messages (pw_panel (taken n ?w)) = [hello\<lparr>lm_seq := 1\<rparr>]"
    using first by (simp_all add: taken_first)
  have twice: "panel_reachable n True (taken n (taken n ?w))"
    by (rule first_answer_comes [OF once]) (simp_all only: second list.set_intros)
  have shown: "map lm_seq (lp_messages (pw_panel (taken n (taken n ?w)))) = [1, 1] \<and>
      arrivals (taken n (taken n ?w)) ''s'' = [hello]"
    using second by (simp add: taken_first)
  show "\<exists>w. panel_reachable n True w \<and> map lm_seq (lp_messages (pw_panel w)) = [1, 1] \<and>
      arrivals w ''s'' = [hello]"
    by (rule exI [where x = "taken n (taken n ?w)"]) (rule conjI [OF twice shown])
next
  let ?s = "watching\<lparr>pw_panel := fst (panel_start (pw_panel watching)), pw_starts := 1\<rparr>"
  let ?r = "?s\<lparr>pw_panel := panel_started ''r'' [] (pw_panel ?s), pw_starts := 0,
      pw_arrivals := (''r'', []) # pw_arrivals ?s\<rparr>"
  let ?late = "taken n ?r"
  let ?last = "?late\<lparr>pw_arrivals := map (\<lambda>(j, ms). (j, if j = ''r'' then ms @ [bye] else ms)) (pw_arrivals ?late)\<rparr>"
  have "panel_reachable n True ?s"
    using panel_starts [OF watching_reached, of n] by (simp add: watching_polls(2) watching_starts)
  from panel_is_started [OF this, of "''r''" "[]"] have begun: "panel_reachable n True ?r"
    by (simp add: watching_starts)
  have start: "arrivals ?r ''s'' = [hello]" "lp_polls (pw_panel ?r) = [one_poll]"
    "lp_messages (pw_panel ?r) = []" "lp_subscription (pw_panel ?r) = Some ''r''"
    using watching_polls by (simp_all add: panel_start_def panel_started_def setRunning_def)
      (simp_all add: watching_def)
  have "panel_reachable n True ?late"
    by (rule first_answer_comes [OF begun]) (simp_all only: start list.set_intros)
  then have ended: "panel_reachable n True ?last" by (rule panel_arrival)
  have fields: "lp_subscription (pw_panel ?last) = Some ''r''" "awaited (pw_panel ?last) = []"
    "lp_messages (pw_panel ?last) = numbered (arrivals ?last ''s'')" "arrivals ?last ''r'' = [bye]"
    "lp_cursor (pw_panel ?last) = 1"
    using start by (simp_all add: taken_first awaited_def) (simp_all add: watching_def numbered_def)
  show "\<exists>w. panel_reachable n True w \<and> lp_subscription (pw_panel w) = Some ''r'' \<and>
      lp_messages (pw_panel w) = numbered (arrivals w ''s'') \<and> arrivals w ''r'' = [bye] \<and>
      awaited (pw_panel w) = [] \<and> lp_cursor (pw_panel w) = 1"
    by (rule exI [where x = ?last]) (intro conjI ended fields)
qed

end
