(* ===== verification/Utf16.thy ===== *)
theory Utf16
  imports Prelude "HOL-Library.Word"
begin

text \<open>
  Text as the language keeps it: code units of sixteen bits, with the character classes its
  regular expressions name, trimming, searching, and \<open>TextEncoder\<close>, which writes UTF-8 and a
  replacement character for half of a surrogate pair.
\<close>

unbundle bit_operations_syntax

type_synonym units = "16 word list"

text \<open>A literal of the source, when it is ASCII.\<close>

definition u :: "string \<Rightarrow> units" where
  "u s = map (\<lambda>c. of_nat (of_char c)) s"

lemma u_simps [simp]: "u [] = []" "u (c # s) = of_nat (of_char c) # u s" "u (s @ t) = u s @ u t"
  by (simp_all add: u_def)

section \<open>Classes of characters\<close>

text \<open>\<open>\s\<close>, which is also what \<open>trim\<close> removes; \<open>.\<close>; \<open>\d\<close>; \<open>\w\<close>.\<close>

definition is_space :: "16 word \<Rightarrow> bool" where
  "is_space c \<longleftrightarrow> 9 \<le> c \<and> c \<le> 13 \<or> c = 32 \<or> c = 0xA0 \<or> c = 0x1680 \<or> 0x2000 \<le> c \<and> c \<le> 0x200A \<or>
     c = 0x2028 \<or> c = 0x2029 \<or> c = 0x202F \<or> c = 0x205F \<or> c = 0x3000 \<or> c = 0xFEFF"

definition in_line :: "16 word \<Rightarrow> bool" where
  "in_line c \<longleftrightarrow> c \<noteq> 10 \<and> c \<noteq> 13 \<and> c \<noteq> 0x2028 \<and> c \<noteq> 0x2029"

definition is_num :: "16 word \<Rightarrow> bool" where
  "is_num c \<longleftrightarrow> 48 \<le> c \<and> c \<le> 57"

definition is_alpha :: "16 word \<Rightarrow> bool" where
  "is_alpha c \<longleftrightarrow> 65 \<le> c \<and> c \<le> 90 \<or> 97 \<le> c \<and> c \<le> 122"

definition is_word :: "16 word \<Rightarrow> bool" where
  "is_word c \<longleftrightarrow> is_num c \<or> is_alpha c \<or> c = 95"

lemmas classes = is_space_def in_line_def is_num_def is_alpha_def is_word_def

lemma class_facts:
  "is_num c \<Longrightarrow> \<not> is_space c" "is_num c \<Longrightarrow> \<not> is_alpha c" "is_num c \<Longrightarrow> is_word c" "is_alpha c \<Longrightarrow> is_word c"
  "is_word c \<Longrightarrow> \<not> is_space c"
  by (auto simp: classes word_le_nat_alt word_unat_eq_iff)

section \<open>Trimming\<close>

definition trim_start :: "units \<Rightarrow> units" where
  "trim_start s = dropWhile is_space s"

definition trim_end :: "units \<Rightarrow> units" where
  "trim_end s = rev (dropWhile is_space (rev s))"

definition trim :: "units \<Rightarrow> units" where
  "trim s = trim_end (trim_start s)"

definition trimmed :: "units \<Rightarrow> bool" where
  "trimmed s \<longleftrightarrow> s = [] \<or> \<not> is_space (hd s) \<and> \<not> is_space (last s)"

lemma trim_trimmed:
  assumes "trimmed s"
  shows "trim_start s = s" "trim_end s = s" "trim s = s"
proof -
  show start: "trim_start s = s" using assms by (cases s) (simp_all add: trimmed_def trim_start_def)
  show "trim_end s = s" using assms by (cases s rule: rev_cases) (simp_all add: trimmed_def trim_end_def)
  then show "trim s = s" by (simp add: trim_def start)
qed

lemma trim_subseq: "subseq (trim s) s"
proof -
  have "suffix (trim_start s) s" unfolding trim_start_def by (rule suffix_dropWhile)
  moreover have "prefix (trim_end t) t" for t
    unfolding trim_end_def using suffix_dropWhile [of is_space "rev t"] by (simp add: suffix_to_prefix)
  ultimately show ?thesis
    unfolding trim_def by (meson prefix_imp_subseq subseq_order.trans suffix_imp_subseq)
qed

section \<open>Splitting and joining\<close>

text \<open>\<open>s.split(c)\<close> for one unit, and \<open>parts.join(sep)\<close>.\<close>

fun split_on :: "16 word \<Rightarrow> units \<Rightarrow> units list" where
  "split_on c [] = [[]]"
| "split_on c (x # xs) =
     (if x = c then [] # split_on c xs
      else (case split_on c xs of [] \<Rightarrow> [[x]] | y # ys \<Rightarrow> (x # y) # ys))"

fun join_with :: "units \<Rightarrow> units list \<Rightarrow> units" where
  "join_with sep [] = []"
| "join_with sep [x] = x"
| "join_with sep (x # y # ys) = x @ sep @ join_with sep (y # ys)"

lemma split_on_nonempty [simp]: "split_on c s \<noteq> []"
  by (induction s) (auto split: list.splits)

lemma split_on_plain: "c \<notin> set s \<Longrightarrow> split_on c s = [s]"
  by (induction s) auto

lemma split_on_append: "c \<notin> set p \<Longrightarrow> split_on c (p @ c # s) = p # split_on c s"
  by (induction p) auto

lemma split_join:
  "ps \<noteq> [] \<Longrightarrow> \<forall>p \<in> set ps. c \<notin> set p \<Longrightarrow> split_on c (join_with [c] ps) = ps"
  by (induction "[c]" ps rule: join_with.induct) (auto simp: split_on_plain split_on_append)

lemma join_split: "join_with [c] (split_on c s) = s"
proof (induction s)
  case (Cons x xs)
  then show ?case by (cases "split_on c xs" rule: remdups_adj.cases) auto
qed simp

lemma split_on_no_sep: "p \<in> set (split_on c s) \<Longrightarrow> c \<notin> set p"
  by (induction s arbitrary: p) (auto split: list.splits if_splits)

section \<open>UTF-8\<close>

definition high_half :: "16 word \<Rightarrow> bool" where
  "high_half c \<longleftrightarrow> 0xD800 \<le> c \<and> c \<le> 0xDBFF"

definition low_half :: "16 word \<Rightarrow> bool" where
  "low_half c \<longleftrightarrow> 0xDC00 \<le> c \<and> c \<le> 0xDFFF"

text \<open>U+FFFD\<close>

definition replacement :: "8 word list" where
  "replacement = [0xEF, 0xBF, 0xBD]"

text \<open>A continuation byte, for the six bits of \<open>x\<close> from bit \<open>n\<close> on.\<close>

definition continued :: "nat \<Rightarrow> 32 word \<Rightarrow> 8 word" where
  "continued n x = 0x80 OR (ucast (drop_bit n x) AND 0x3F)"

fun utf8 :: "units \<Rightarrow> 8 word list" where
  "utf8 [] = []"
| "utf8 (c # cs) =
     (if c < 0x80 then ucast c # utf8 cs
      else if c < 0x800 then (0xC0 OR ucast (drop_bit 6 c)) # continued 0 (ucast c) # utf8 cs
      else if high_half c then
        (case cs of
           d # ds \<Rightarrow>
             if low_half d
             then (let x = 0x10000 + push_bit 10 (ucast c - 0xD800) + (ucast d - 0xDC00) :: 32 word
                   in [0xF0 OR ucast (drop_bit 18 x), continued 12 x, continued 6 x, continued 0 x]) @ utf8 ds
             else replacement @ utf8 cs
         | [] \<Rightarrow> replacement)
      else if low_half c then replacement @ utf8 cs
      else [0xE0 OR ucast (drop_bit 12 c), continued 6 (ucast c), continued 0 (ucast c)] @ utf8 cs)"

lemma utf8_more:
  assumes "n < length s"
  shows "length (utf8 (take n s)) < length (utf8 (take (Suc n) s))"
  using assms
proof (induction s arbitrary: n rule: utf8.induct)
  case (2 c cs)
  show ?case
  proof (cases n)
    case 0
    then show ?thesis by (auto simp: replacement_def Let_def split: list.split)
  next
    case (Suc m)
    with 2 show ?thesis
    proof (cases "c < 0x80 \<or> c < 0x800 \<or> \<not> high_half c")
      case True
      with 2 Suc show ?thesis by auto
    next
      case False
      with Suc "2.prems" obtain d ds where cs: "cs = d # ds" by (cases cs) auto
      show ?thesis
      proof (cases "low_half d")
        case True
        show ?thesis
        proof (cases m)
          case 0
          with False True show ?thesis by (simp add: Suc cs replacement_def Let_def)
        next
          case (Suc k)
          with 2 False True cs \<open>n = Suc m\<close> show ?thesis by (simp add: Let_def)
        qed
      next
        case other: False
        with 2(4) [of d ds m] False cs "2.prems" Suc show ?thesis
          by (cases m) (simp_all add: replacement_def)
      qed
    qed
  qed
qed simp

lemma utf8_mono: "m \<le> n \<Longrightarrow> n \<le> length s \<Longrightarrow> length (utf8 (take m s)) \<le> length (utf8 (take n s))"
proof (induction n)
  case (Suc n)
  then show ?case using utf8_more [of n s] by (cases "m = Suc n") auto
qed simp

end
