(* ===== verification/Regex.thy ===== *)
theory Regex
  imports Utf16
begin

text \<open>
  The regular expressions of the language, as far as the sources use them: the backtracking
  search with its order of preference, greedy and lazy repetition, groups, back references and the
  assertions. A position is the unit before it, the units after it and what the groups have
  captured; \<open>matches\<close> gives the ends an expression can reach from a position, preferred first. No
  expression of the sources repeats a group, so captures are never reset.
\<close>

datatype regex =
  Empty
| Chr "16 word \<Rightarrow> bool"
| Seq regex regex
| Alt regex regex
| Star bool regex
| Group nat regex
| Backref nat
| Boundary
| AtStart
| AtEnd

type_synonym position = "16 word option \<times> units \<times> (nat \<times> units) list"

abbreviation rest :: "position \<Rightarrow> units" where
  "rest p \<equiv> fst (snd p)"

fun skip_units :: "nat \<Rightarrow> position \<Rightarrow> position" where
  "skip_units 0 p = p"
| "skip_units (Suc n) (prev, [], g) = (prev, [], g)"
| "skip_units (Suc n) (prev, c # cs, g) = skip_units n (Some c, cs, g)"

text \<open>\<open>\<^bold>b\<close>: one of the two neighbours is a word character, and the other is not.\<close>

definition at_boundary :: "position \<Rightarrow> bool" where
  "at_boundary p = (case p of (prev, cs, g) \<Rightarrow>
     (case prev of None \<Rightarrow> False | Some c \<Rightarrow> is_word c) \<noteq> (case cs of [] \<Rightarrow> False | c # _ \<Rightarrow> is_word c))"

function matches :: "regex \<Rightarrow> position \<Rightarrow> position list" where
  "matches Empty p = [p]"
| "matches (Chr P) (prev, cs, g) = (case cs of [] \<Rightarrow> [] | c # cs' \<Rightarrow> if P c then [(Some c, cs', g)] else [])"
| "matches (Seq a b) p = concat (map (matches b) (matches a p))"
| "matches (Alt a b) p = matches a p @ matches b p"
| "matches (Star greedy a) p =
     (let again = concat (map (\<lambda>q. if length (rest q) < length (rest p) then matches (Star greedy a) q else []) (matches a p))
      in if greedy then again @ [p] else p # again)"
| "matches (Group n a) p =
     map (\<lambda>(prev, cs, g). (prev, cs, AList.update n (take (length (rest p) - length cs) (rest p)) g)) (matches a p)"
| "matches (Backref n) (prev, cs, g) =
     (let w = nullish (map_of g n) [] in if prefix w cs then [skip_units (length w) (prev, cs, g)] else [])"
| "matches Boundary p = (if at_boundary p then [p] else [])"
| "matches AtStart (prev, cs, g) = (if prev = None then [(prev, cs, g)] else [])"
| "matches AtEnd (prev, cs, g) = (if cs = [] then [(prev, cs, g)] else [])"
  by pat_completeness auto
termination by (relation "measures [\<lambda>(r, p). size r, \<lambda>(r, p). length (rest p)]") auto

declare matches.simps(5) [simp del]

text \<open>\<open>exec\<close> from an index on: what was stepped over, the match, what its groups captured, and the
  position behind it.\<close>

fun exec :: "regex \<Rightarrow> 16 word option \<Rightarrow> units \<Rightarrow> (units \<times> units \<times> (nat \<times> units) list \<times> position) option" where
  "exec r prev s =
     (case matches r (prev, s, []) of
        (prev', s', g) # _ \<Rightarrow> Some ([], take (length s - length s') s, g, (prev', s', []))
      | [] \<Rightarrow> (case s of [] \<Rightarrow> None
               | c # cs \<Rightarrow> (case exec r (Some c) cs of None \<Rightarrow> None
                           | Some (skipped, m) \<Rightarrow> Some (c # skipped, m))))"

declare exec.simps [simp del]

definition test :: "regex \<Rightarrow> units \<Rightarrow> bool" where
  "test r s \<longleftrightarrow> exec r None s \<noteq> None"

text \<open>Expressions are written with these.\<close>

abbreviation is_u :: "string \<Rightarrow> regex" where
  "is_u cs \<equiv> Chr (\<lambda>c. c \<in> set (u cs))"

definition word_of :: "string \<Rightarrow> regex" where
  "word_of s = foldr (\<lambda>c. Seq (Chr (\<lambda>d. d = c))) (u s) Empty"

abbreviation plus :: "bool \<Rightarrow> regex \<Rightarrow> regex" where
  "plus greedy r \<equiv> Seq r (Star greedy r)"

abbreviation opt :: "regex \<Rightarrow> regex" where
  "opt r \<equiv> Alt r Empty"

text \<open>\<open>r{0,n}\<close>\<close>

primrec up_to :: "nat \<Rightarrow> regex \<Rightarrow> regex" where
  "up_to 0 r = Empty"
| "up_to (Suc n) r = opt (Seq r (up_to n r))"

section \<open>What a match has passed\<close>

definition passes :: "units \<Rightarrow> position \<Rightarrow> position \<Rightarrow> bool" where
  "passes w p q \<longleftrightarrow> rest p = w @ rest q \<and> fst q = (if w = [] then fst p else Some (last w))"

lemma passes_none: "passes [] p p"
  by (simp add: passes_def)

lemma passes_on: "passes v p q \<Longrightarrow> passes w q r \<Longrightarrow> passes (v @ w) p r"
  by (simp add: passes_def)

lemma skip_units_passes: "prefix w cs \<Longrightarrow> passes w (prev, cs, g) (skip_units (length w) (prev, cs, g))"
proof (induction w arbitrary: prev cs)
  case (Cons c w)
  then obtain cs' where cs: "cs = c # cs'" "prefix w cs'" by (cases cs) auto
  from Cons.IH [OF cs(2), of "Some c"] show ?case by (auto simp: cs passes_def)
qed (simp add: passes_def)

lemma in_Star:
  "q \<in> set (matches (Star greedy a) p) \<longleftrightarrow>
     q = p \<or> (\<exists>m \<in> set (matches a p). length (rest m) < length (rest p) \<and> q \<in> set (matches (Star greedy a) m))"
  by (subst matches.simps(5), cases greedy) (auto simp: Let_def)

lemma Star_matches: "matches (Star greedy a) p \<noteq> []"
  by (subst matches.simps(5)) (simp add: Let_def)

lemma matches_passes: "q \<in> set (matches r p) \<Longrightarrow> \<exists>w. passes w p q"
proof (induction r p arbitrary: q rule: matches.induct)
  case (2 P prev cs g)
  then show ?case by (cases cs) (auto simp: passes_def split: if_splits intro!: exI [of _ "[hd cs]"])
next
  case (3 a b p)
  then obtain m where "m \<in> set (matches a p)" "q \<in> set (matches b m)" by auto
  with 3 obtain v w where "passes v p m" "passes w m q" by blast
  then show ?case using passes_on by blast
next
  case (5 greedy a p)
  show ?case
  proof (cases "q = p")
    case False
    with iffD1 [OF in_Star "5.prems"] obtain m where m: "m \<in> set (matches a p)" "length (rest m) < length (rest p)"
        "q \<in> set (matches (Star greedy a) m)"
      by auto
    with "5.IH" obtain v w where "passes v p m" "passes w m q" by blast
    then show ?thesis using passes_on by blast
  qed (use passes_none in blast)
next
  case (6 n a p)
  then obtain m where m: "m \<in> set (matches a p)" "fst q = fst m" "rest q = rest m" by auto
  with 6 obtain w where "passes w p m" by blast
  with m show ?case by (auto simp: passes_def)
next
  case (7 n prev cs g)
  then obtain w where "prefix w cs" "q = skip_units (length w) (prev, cs, g)" by (auto simp: Let_def split: if_splits)
  then show ?case using skip_units_passes by blast
next
  case (4 a b p)
  then show ?case by (cases "q \<in> set (matches a p)") (simp_all del: split_paired_All split_paired_Ex)
qed (auto intro: passes_none split: if_splits)

lemma exec_cases:
  "matches r (prev, s, []) = (prev', s', g) # qs \<Longrightarrow>
   exec r prev s = Some ([], take (length s - length s') s, g, (prev', s', []))"
  "matches r (prev, [], []) = [] \<Longrightarrow> exec r prev [] = None"
  "matches r (prev, c # cs, []) = [] \<Longrightarrow> exec r prev (c # cs) =
     (case exec r (Some c) cs of None \<Rightarrow> None | Some (skipped, m) \<Rightarrow> Some (c # skipped, m))"
  by (subst exec.simps; simp)+

lemma exec_splits:
  assumes "exec r prev s = Some (skipped, m, g, (prev', s', g'))"
  shows "s = skipped @ m @ s' \<and> g' = [] \<and> prev' = (if m = [] then (if skipped = [] then prev else Some (last skipped)) else Some (last m))"
  using assms
proof (induction r prev s arbitrary: skipped rule: exec.induct)
  case (1 r prev s)
  show ?case
  proof (cases "matches r (prev, s, [])")
    case Nil
    then obtain c cs where s: "s = c # cs" using "1.prems" by (cases s) (simp_all add: exec_cases(2))
    with Nil "1.prems" obtain sk where "exec r (Some c) cs = Some (sk, m, g, (prev', s', g'))" "skipped = c # sk"
      by (auto simp: exec_cases(3) split: option.splits)
    with "1.IH" [OF Nil s] show ?thesis by (auto simp: s)
  next
    case (Cons q qs)
    obtain pv s1 g1 where q: "q = (pv, s1, g1)" by (cases q)
    with Cons matches_passes [of q r "(prev, s, [])"] obtain w where "passes w (prev, s, []) (pv, s1, g1)" by auto
    with "1.prems" exec_cases(1) [OF Cons [unfolded q]] show ?thesis by (auto simp: passes_def)
  qed
qed

section \<open>The preferred match\<close>

definition first :: "regex \<Rightarrow> position \<Rightarrow> position option" where
  "first r p = (case matches r p of [] \<Rightarrow> None | q # _ \<Rightarrow> Some q)"

text \<open>An expression that always matches, possibly nothing.\<close>

definition certain :: "regex \<Rightarrow> bool" where
  "certain r \<longleftrightarrow> (\<forall>p. matches r p \<noteq> [])"

lemma certain_simps [simp]: "certain Empty" "certain (Star greedy r)" "certain (Alt r Empty)"
  by (auto simp: certain_def Star_matches)

lemma certain_Seq [simp]:
  assumes "certain a" and "certain b"
  shows "certain (Seq a b)"
  unfolding certain_def
proof
  fix p
  obtain q qs where "matches a p = q # qs" using assms(1) unfolding certain_def by (meson list.exhaust)
  moreover have "matches b q \<noteq> []" using assms(2) unfolding certain_def by blast
  ultimately show "matches (Seq a b) p \<noteq> []" by simp
qed

lemma first_None: "first r p = None \<longleftrightarrow> matches r p = []"
  by (simp add: first_def split: list.split)

lemma first_simps [simp]:
  "first Empty p = Some p"
  "first (Chr P) (prev, [], g) = None"
  "first (Chr P) (prev, c # cs, g) = (if P c then Some (Some c, cs, g) else None)"
  "first (Alt a b) p = (case first a p of None \<Rightarrow> first b p | Some q \<Rightarrow> Some q)"
  "first Boundary p = (if at_boundary p then Some p else None)"
  "first AtStart (prev, cs, g) = (if prev = None then Some (prev, cs, g) else None)"
  "first AtEnd (prev, cs, g) = (if cs = [] then Some (prev, cs, g) else None)"
  by (auto simp: first_def split: list.splits)

lemma first_Seq:
  assumes "certain b"
  shows "first (Seq a b) p = Option.bind (first a p) (first b)"
proof (cases "matches a p")
  case (Cons q qs)
  have "matches b q \<noteq> []" using assms unfolding certain_def by blast
  with Cons show ?thesis by (auto simp: first_def split: list.split)
qed (simp add: first_def)

lemma first_Chr_Seq:
  "first (Seq (Chr P) b) (prev, [], g) = None"
  "first (Seq (Chr P) b) (prev, c # cs, g) = (if P c then first b (Some c, cs, g) else None)"
  by (simp_all add: first_def)

lemma first_greedy:
  "first (Star True a) p =
     (case filter (\<lambda>q. length (rest q) < length (rest p)) (matches a p) of
        [] \<Rightarrow> Some p | q # _ \<Rightarrow> first (Star True a) q)"
proof -
  let ?f = "\<lambda>q. if length (rest q) < length (rest p) then matches (Star True a) q else []"
  have "(case concat (map ?f xs) @ [p] of [] \<Rightarrow> None | q # _ \<Rightarrow> Some q) =
      (case filter (\<lambda>q. length (rest q) < length (rest p)) xs of [] \<Rightarrow> Some p | q # _ \<Rightarrow> first (Star True a) q)" for xs
  proof (induction xs)
    case (Cons x xs)
    moreover have "matches (Star True a) x \<noteq> []" by (rule Star_matches)
    ultimately show ?case by (cases "matches (Star True a) x") (auto simp: first_def)
  qed simp
  then show ?thesis by (simp add: first_def matches.simps(5) [of True a p] Let_def)
qed

text \<open>A greedy repetition of a class takes the longest run.\<close>

lemma first_run:
  "first (Star True (Chr P)) (prev, s, g) =
     Some (if takeWhile P s = [] then prev else Some (last (takeWhile P s)), dropWhile P s, g)"
proof (induction s arbitrary: prev)
  case (Cons c cs)
  then show ?case by (subst first_greedy) auto
qed (subst first_greedy, simp)

lemma exec_first:
  "exec r prev s =
     (case first r (prev, s, []) of
        Some (prev', s', g) \<Rightarrow> Some ([], take (length s - length s') s, g, (prev', s', []))
      | None \<Rightarrow> (case s of [] \<Rightarrow> None
               | c # cs \<Rightarrow> (case exec r (Some c) cs of None \<Rightarrow> None
                           | Some (skipped, m) \<Rightarrow> Some (c # skipped, m))))"
  by (subst exec.simps) (auto simp: first_def split: list.splits)

lemma first_Seq_Alt:
  "first (Seq (Alt a b) c) p = (case first (Seq a c) p of None \<Rightarrow> first (Seq b c) p | Some q \<Rightarrow> Some q)"
  "first (Seq Empty c) p = first c p"
  "first (Seq Boundary c) p = (if at_boundary p then first c p else None)"
  "first (Seq (Seq a b) c) p = first (Seq a (Seq b c)) p"
proof -
  have either: "(case xs @ ys of [] \<Rightarrow> None | q # _ \<Rightarrow> Some q) =
      (case (case xs of [] \<Rightarrow> None | q # _ \<Rightarrow> Some q) of None \<Rightarrow> (case ys of [] \<Rightarrow> None | q # _ \<Rightarrow> Some q) | Some q \<Rightarrow> Some q)"
    for xs ys :: "position list" by (cases xs) auto
  show "first (Seq (Alt a b) c) p = (case first (Seq a c) p of None \<Rightarrow> first (Seq b c) p | Some q \<Rightarrow> Some q)"
    unfolding first_def by (simp only: matches.simps(3,4) map_append concat_append either)
  have "concat (map (matches c) (concat (map (matches b) ps))) = concat (map (matches (Seq b c)) ps)" for ps
    by (induction ps) simp_all
  then show "first (Seq (Seq a b) c) p = first (Seq a (Seq b c)) p" by (simp add: first_def)
qed (simp_all add: first_def)

lemma first_word:
  "first (Seq (word_of w) b) (prev, s, g) =
     (if prefix (u w) s then first b (if w = '''' then prev else Some (last (u w)), drop (length w) s, g) else None)"
proof (induction w arbitrary: prev s)
  case Nil
  then show ?case by (simp add: word_of_def first_Seq_Alt)
next
  case (Cons c w)
  show ?case
  proof (cases s)
    case (Cons d cs)
    then show ?thesis using Cons.IH [of "Some d" cs]
      by (auto simp: word_of_def first_Seq_Alt(4) first_Chr_Seq u_def)
  qed (simp add: word_of_def first_Seq_Alt(4) first_Chr_Seq)
qed

section \<open>Expressions that always take something\<close>

primrec eats :: "regex \<Rightarrow> bool" where
  "eats Empty = False"
| "eats (Chr P) = True"
| "eats (Seq a b) = (eats a \<or> eats b)"
| "eats (Alt a b) = (eats a \<and> eats b)"
| "eats (Star greedy a) = False"
| "eats (Group n a) = eats a"
| "eats (Backref n) = False"
| "eats Boundary = False"
| "eats AtStart = False"
| "eats AtEnd = False"

lemma rest_le: "q \<in> set (matches r p) \<Longrightarrow> length (rest q) \<le> length (rest p)"
  using matches_passes [of q r p] by (auto simp: passes_def)

lemma eats_less: "eats r \<Longrightarrow> q \<in> set (matches r p) \<Longrightarrow> length (rest q) < length (rest p)"
proof (induction r p arbitrary: q rule: matches.induct)
  case (2 P prev cs g)
  then show ?case by (cases cs) (auto split: if_splits)
next
  case (3 a b p)
  then obtain m where m: "m \<in> set (matches a p)" "q \<in> set (matches b m)" by auto
  show ?case
  proof (cases "eats a")
    case True
    with 3 m(1) have "length (rest m) < length (rest p)" by blast
    then show ?thesis using rest_le [OF m(2)] by simp
  next
    case False
    with 3 m have "length (rest q) < length (rest m)" by auto
    then show ?thesis using rest_le [OF m(1)] by simp
  qed
next
  case (4 a b p)
  then show ?case by (cases "q \<in> set (matches a p)") (simp_all del: split_paired_All split_paired_Ex)
next
  case (6 n a p)
  then show ?case by auto
qed auto

lemma exec_eats:
  assumes "eats r" and "exec r prev s = Some (skipped, m, g, (prev', s', g'))"
  shows "m \<noteq> []" "length s' < length s"
proof -
  show "m \<noteq> []" using assms
  proof (induction r prev s arbitrary: skipped rule: exec.induct)
    case (1 r prev s)
    show ?case
    proof (cases "matches r (prev, s, [])")
      case Nil
      then obtain c cs where s: "s = c # cs" using "1.prems" by (cases s) (simp_all add: exec_cases(2))
      with Nil "1.prems" obtain sk where "exec r (Some c) cs = Some (sk, m, g, (prev', s', g'))"
        by (auto simp: exec_cases(3) split: option.splits)
      with "1.IH" [OF Nil s] "1.prems"(1) show ?thesis by blast
    next
      case (Cons q qs)
      obtain pv s1 g1 where q: "q = (pv, s1, g1)" by (cases q)
      with Cons eats_less [OF "1.prems"(1), of q "(prev, s, [])"] have "length s1 < length s" by simp
      with "1.prems"(2) exec_cases(1) [OF Cons [unfolded q]] show ?thesis by auto
    qed
  qed
  then show "length s' < length s" using exec_splits [OF assms(2)] by (cases m) auto
qed

section \<open>Following one path\<close>

lemma first_go:
  assumes "first a p = Some q" and "first b q = Some r"
  shows "first (Seq a b) p = Some r"
proof -
  obtain qs rs where "matches a p = q # qs" "matches b q = r # rs"
    using assms by (auto simp: first_def split: list.splits)
  then show ?thesis by (simp add: first_def)
qed

lemma first_Seq_iff: "first (Seq a b) p \<noteq> None \<longleftrightarrow> (\<exists>q \<in> set (matches a p). first b q \<noteq> None)"
  unfolding first_None matches.simps(3) by (auto simp: concat_eq_Nil_conv simp del: split_paired_All split_paired_Ex)

lemma first_Group:
  "first (Group n a) p = map_option (\<lambda>(prev, cs, g). (prev, cs,
     AList.update n (take (length (rest p) - length cs) (rest p)) g)) (first a p)"
  by (simp add: first_def split: list.split)

lemma exec_anchored:
  "exec (Seq AtStart r) (Some c) s = None"
  "exec (Seq AtStart r) None s =
     (case first r (None, s, []) of None \<Rightarrow> None
      | Some (prev', s', g) \<Rightarrow> Some ([], take (length s - length s') s, g, (prev', s', [])))"
proof -
  have none: "first (Seq AtStart r) (Some c, s, []) = None" for c s by (simp add: first_def)
  show later: "exec (Seq AtStart r) (Some c) s = None" for c
    by (induction s arbitrary: c) (simp_all add: exec_first [of "Seq AtStart r" "Some c" for c] none)
  have "first (Seq AtStart r) (None, s, []) = first r (None, s, [])" by (simp add: first_def)
  moreover have "exec (Seq AtStart r) (Some c) cs = None" for c cs
    by (induction cs arbitrary: c) (simp_all add: exec_first [of "Seq AtStart r" "Some c" for c] none)
  ultimately show "exec (Seq AtStart r) None s =
     (case first r (None, s, []) of None \<Rightarrow> None
      | Some (prev', s', g) \<Rightarrow> Some ([], take (length s - length s') s, g, (prev', s', [])))"
    by (simp add: exec_first [of "Seq AtStart r" None] split: option.split list.split)
qed

lemma test_anchored: "test (Seq AtStart r) s \<longleftrightarrow> first r (None, s, []) \<noteq> None"
  by (simp add: test_def exec_anchored split: option.split)

text \<open>An expression that passes over characters of one class only.\<close>

definition passing :: "(16 word \<Rightarrow> bool) \<Rightarrow> regex \<Rightarrow> bool" where
  "passing P a \<longleftrightarrow> (\<forall>prev s g. \<forall>q \<in> set (matches a (prev, s, g)). \<exists>k. k \<le> length (takeWhile P s) \<and> rest q = drop k s)"

lemma passing_step:
  assumes "passing P a" and "q \<in> set (matches a (prev, s, g))"
  obtains k where "k \<le> length (takeWhile P s)" "rest q = drop k s"
  using assms unfolding passing_def by blast

lemma takeWhile_drop_run: "k \<le> length (takeWhile P s) \<Longrightarrow> takeWhile P (drop k s) = drop k (takeWhile P s)"
  by (induction s arbitrary: k) (auto simp: drop_Cons split: nat.splits if_splits)

lemma passing_Chr: "passing P (Chr P)"
  by (auto simp: passing_def split: list.splits if_splits intro!: exI [of _ 1])

lemma passing_more:
  assumes "rest q = drop k s" "k \<le> length (takeWhile P s)" "j \<le> length (takeWhile P (rest q))" "rest r = drop j (rest q)"
  shows "k + j \<le> length (takeWhile P s) \<and> rest r = drop (k + j) s"
  using assms takeWhile_drop_run [of k P s] by (simp add: add.commute)

lemma passing_Seq:
  assumes "passing P a" and "passing P b"
  shows "passing P (Seq a b)"
  unfolding passing_def
proof (intro allI ballI)
  fix prev s g r
  assume "r \<in> set (matches (Seq a b) (prev, s, g))"
  then obtain q where q: "q \<in> set (matches a (prev, s, g))" "r \<in> set (matches b (fst q, rest q, snd (snd q)))" by auto
  from passing_step [OF assms(1) q(1)] passing_step [OF assms(2) q(2)]
  show "\<exists>k. k \<le> length (takeWhile P s) \<and> rest r = drop k s" by (metis passing_more)
qed

lemma passing_Star:
  assumes "passing P a"
  shows "passing P (Star greedy a)"
proof -
  have "\<exists>k. k \<le> length (takeWhile P (rest p)) \<and> rest q = drop k (rest p)" if "q \<in> set (matches (Star greedy a) p)" for p q
    using that
  proof (induction "length (rest p)" arbitrary: p rule: less_induct)
    case less
    show ?case
    proof (cases "q = p")
      case False
      with iffD1 [OF in_Star less.prems] obtain m where m: "m \<in> set (matches a (fst p, rest p, snd (snd p)))"
        "length (rest m) < length (rest p)" "q \<in> set (matches (Star greedy a) m)" by auto
      from passing_step [OF assms m(1)] less.hyps [OF m(2,3)] show ?thesis by (metis passing_more)
    qed (auto intro: exI [of _ 0])
  qed
  then show ?thesis unfolding passing_def by fastforce
qed

lemma passing_up_to: "passing P a \<Longrightarrow> passing P (up_to n a)"
proof (induction n)
  case (Suc n)
  then have "passing P (Seq a (up_to n a))" by (intro passing_Seq) simp_all
  then show ?case unfolding passing_def up_to.simps matches.simps by (auto intro: exI [of _ 0])
qed (auto simp: passing_def intro: exI [of _ 0])

lemma passing_Group: "passing P a \<Longrightarrow> passing P (Group n a)"
  unfolding passing_def matches.simps by fastforce

lemmas passing_intros = passing_Chr passing_Star passing_up_to passing_Group

text \<open>What follows a run starts where the run ends, when it cannot start inside it.\<close>

lemma first_behind_run:
  assumes "passing P a" and "first (Seq a b) (prev, s, g) \<noteq> None"
    and "\<And>pv c cs g. P c \<Longrightarrow> first b (pv, c # cs, g) = None"
  obtains pv g' where "first b (pv, dropWhile P s, g') \<noteq> None"
proof -
  obtain q where q: "q \<in> set (matches a (prev, s, g))" "first b q \<noteq> None"
    using assms(2) unfolding first_Seq_iff by blast
  from passing_step [OF assms(1) q(1)] obtain k where k: "k \<le> length (takeWhile P s)" "rest q = drop k s" .
  have "k = length (takeWhile P s)"
  proof (rule ccontr)
    assume "k \<noteq> length (takeWhile P s)"
    then have less: "k < length (takeWhile P s)" using k(1) by simp
    then have "P (s ! k)" by (metis nth_mem set_takeWhileD takeWhile_nth)
    moreover have "k < length s" using less length_takeWhile_le [of P s] by simp
    then have "drop k s = s ! k # drop (Suc k) s" by (simp add: Cons_nth_drop_Suc)
    ultimately have "first b (fst q, drop k s, snd (snd q)) = None" using assms(3) by simp
    with q(2) k(2) show False by (metis prod.collapse)
  qed
  then have "rest q = dropWhile P s" by (simp add: k(2) dropWhile_eq_drop)
  with q(2) that [of "fst q" "snd (snd q)"] show ?thesis by (metis prod.collapse)
qed

lemma first_lead:
  assumes "passing P a" and "first (Seq a b) (prev, s, g) \<noteq> None"
    and lead: "\<And>pv c cs g. first b (pv, c # cs, g) \<noteq> None \<Longrightarrow> \<not> P c \<and> Q c"
    and "\<And>pv g. first b (pv, [], g) = None"
  obtains pv c cs g' where "dropWhile P s = c # cs" "Q c" "first b (pv, c # cs, g') \<noteq> None"
proof -
  have inside: "first b (pv, c # cs, g) = None" if "P c" for pv c cs g using lead that by blast
  obtain pv g' where found: "first b (pv, dropWhile P s, g') \<noteq> None"
    using first_behind_run [OF assms(1,2) inside] by blast
  with assms(4) obtain c cs where "dropWhile P s = c # cs" by (cases "dropWhile P s") auto
  with found lead that show ?thesis by metis
qed

end
