(* ===== verification/JsonTokens.thy ===== *)
theory JsonTokens
  imports Regex
begin

text \<open>
  The colouring of a body that is being typed (lib/jsonTokens.ts): the scanner as the source writes
  it, and the tokens it cuts the text into. Against it stands the grammar of JSON documents with
  any white space between their lexemes.
\<close>

section \<open>The scanner\<close>

datatype token_kind = TKey | TString | TNumber | TLiteral | TPunct | TPlain

record json_token =
  tk_kind :: token_kind
  tk_text :: units

text \<open>The quotation mark and the backslash.\<close>

abbreviation quote :: "16 word" where "quote \<equiv> 34"
abbreviation bslash :: "16 word" where "bslash \<equiv> 92"

definition string_alt :: regex where
  "string_alt =
     Seq (Chr (\<lambda>c. c = quote))
       (Seq (Star True (Alt (Chr (\<lambda>c. c \<noteq> quote \<and> c \<noteq> bslash \<and> c \<noteq> 10)) (Seq (Chr (\<lambda>c. c = bslash)) (Chr in_line))))
         (opt (Chr (\<lambda>c. c = quote))))"

definition literal_alt :: regex where
  "literal_alt =
     Seq Boundary (Seq (Alt (word_of ''true'') (Alt (word_of ''false'') (word_of ''null''))) Boundary)"

definition name_alt :: regex where
  "name_alt =
     Seq (Chr (\<lambda>c. is_alpha c \<or> c \<in> set (u ''_$''))) (Star True (Chr (\<lambda>c. is_word c \<or> c \<in> set (u ''$''))))"

definition number_alt :: regex where
  "number_alt =
     Seq (opt (is_u ''-'')) (Seq (plus True (Chr is_num))
       (Seq (opt (Seq (is_u ''.'') (plus True (Chr is_num))))
         (opt (Seq (is_u ''eE'') (Seq (opt (is_u ''+-'')) (plus True (Chr is_num)))))))"

definition punct_alt :: regex where
  "punct_alt = is_u ''{}[],:''"

definition SCANNER :: regex where
  "SCANNER = Alt string_alt (Alt literal_alt (Alt name_alt (Alt number_alt punct_alt)))"

definition PUNCTUATORS :: units where
  "PUNCTUATORS = u ''{}[],:''"

fun beforeColon :: "units \<Rightarrow> bool" where
  "beforeColon [] = False"
| "beforeColon (c # cs) = (if c = 32 \<or> c = 9 \<or> c = 10 \<or> c = 13 then beforeColon cs else c = 58)"

text \<open>\<open>after\<close> is the source from the end of the match on.\<close>

definition token_kindOf :: "units \<Rightarrow> units \<Rightarrow> token_kind" where
  "token_kindOf t after =
     (if prefix [quote] t then (if beforeColon after then TKey else TString)
      else if t = u ''true'' \<or> t = u ''false'' \<or> t = u ''null'' then TLiteral
      else if length t = 1 \<and> hd t \<in> set PUNCTUATORS then TPunct
      else if t \<noteq> [] \<and> (hd t = 45 \<or> is_num (hd t)) then TNumber
      else TPlain)"

lemma SCANNER_eats: "eats SCANNER"
  by (simp add: SCANNER_def string_alt_def literal_alt_def name_alt_def number_alt_def punct_alt_def word_of_def)

text \<open>The loop of \<open>tokenizeJson\<close>, from an index on.\<close>

function tokens_from :: "16 word option \<Rightarrow> units \<Rightarrow> json_token list" where
  "tokens_from prev s =
     (case exec SCANNER prev s of
        None \<Rightarrow> if s = [] then [] else [\<lparr>tk_kind = TPlain, tk_text = s\<rparr>]
      | Some (skipped, m, g, (prev', s', g')) \<Rightarrow>
          (if skipped = [] then [] else [\<lparr>tk_kind = TPlain, tk_text = skipped\<rparr>]) @
          \<lparr>tk_kind = token_kindOf m s', tk_text = m\<rparr> # tokens_from prev' s')"
  by pat_completeness auto
termination
  by (relation "measure (\<lambda>(prev, s). length s)") (auto dest: exec_eats(2) [OF SCANNER_eats])

declare tokens_from.simps [simp del]

lemma tokens_found:
  "exec SCANNER prev s = Some (skipped, m, g, (prev', s', g')) \<Longrightarrow> tokens_from prev s =
     (if skipped = [] then [] else [\<lparr>tk_kind = TPlain, tk_text = skipped\<rparr>]) @
     \<lparr>tk_kind = token_kindOf m s', tk_text = m\<rparr> # tokens_from prev' s'"
  "exec SCANNER prev s = None \<Longrightarrow>
     tokens_from prev s = (if s = [] then [] else [\<lparr>tk_kind = TPlain, tk_text = s\<rparr>])"
  by (subst tokens_from.simps; simp)+

definition tokenizeJson :: "units \<Rightarrow> json_token list" where
  "tokenizeJson source = tokens_from None source"

lemma tokens_from_spell:
  "concat (map tk_text (tokens_from prev s)) = s \<and> list_all (\<lambda>t. tk_text t \<noteq> []) (tokens_from prev s)"
proof (induction prev s rule: tokens_from.induct)
  case (1 prev s)
  show ?case
  proof (cases "exec SCANNER prev s")
    case None
    then show ?thesis by (simp add: tokens_found(2))
  next
    case (Some found)
    obtain skipped m g prev' s' g' where found: "found = (skipped, m, g, (prev', s', g'))" by (cases found) auto
    note here = Some [unfolded found]
    show ?thesis
      unfolding tokens_found(1) [OF here]
      using 1 [OF here refl refl refl refl refl] exec_splits [OF here] exec_eats(1) [OF SCANNER_eats here]
      by simp
  qed
qed

text \<open>C28. Every character of the input lands in exactly one token, in order, and no token is empty.\<close>

theorem tokens_spell_the_source:
  "concat (map tk_text (tokenizeJson source)) = source \<and>
   list_all (\<lambda>t. tk_text t \<noteq> []) (tokenizeJson source)"
  unfolding tokenizeJson_def by (rule tokens_from_spell)

section \<open>Documents\<close>

text \<open>A JSON document, its strings and numbers as they are written. \<open>string_body\<close> lets through more than
  the grammar does: any escape of one character, and any character from the space on.\<close>

datatype document =
  DString units
| DNumber units
| DLiteral string
| DArray "document list"
| DObject "(units \<times> document) list"

fun string_body :: "units \<Rightarrow> bool" where
  "string_body [] = True"
| "string_body (c # cs) =
     (if c = bslash then (case cs of [] \<Rightarrow> False | d # ds \<Rightarrow> in_line d \<and> string_body ds)
      else c \<noteq> quote \<and> 32 \<le> c \<and> string_body cs)"

inductive number_text :: "units \<Rightarrow> bool" where
  "sign \<in> {[], u ''-''} \<Longrightarrow> ds \<noteq> [] \<Longrightarrow> list_all is_num ds \<Longrightarrow>
   fraction = [] \<or> (\<exists>fs. fraction = u ''.'' @ fs \<and> fs \<noteq> [] \<and> list_all is_num fs) \<Longrightarrow>
   ex = [] \<or> (\<exists>e sg es. ex = [e] @ sg @ es \<and> e \<in> set (u ''eE'') \<and> sg \<in> {[], u ''+'', u ''-''} \<and>
                es \<noteq> [] \<and> list_all is_num es) \<Longrightarrow>
   number_text (sign @ ds @ fraction @ ex)"

fun document_ok :: "document \<Rightarrow> bool" where
  "document_ok (DString b) = string_body b"
| "document_ok (DNumber n) = number_text n"
| "document_ok (DLiteral l) = (l \<in> {''true'', ''false'', ''null''})"
| "document_ok (DArray ds) = list_all document_ok ds"
| "document_ok (DObject ms) = list_all (\<lambda>(k, d). string_body k \<and> document_ok d) ms"

text \<open>The colours of its lexemes.\<close>

definition punct :: "char \<Rightarrow> json_token" where
  "punct c = \<lparr>tk_kind = TPunct, tk_text = u [c]\<rparr>"

definition quoted :: "token_kind \<Rightarrow> units \<Rightarrow> json_token" where
  "quoted k b = \<lparr>tk_kind = k, tk_text = quote # b @ [quote]\<rparr>"

fun commas :: "json_token list list \<Rightarrow> json_token list" where
  "commas [] = []"
| "commas [x] = x"
| "commas (x # y # xs) = x @ punct CHR '','' # commas (y # xs)"

fun colours :: "document \<Rightarrow> json_token list" where
  "colours (DString b) = [quoted TString b]"
| "colours (DNumber n) = [\<lparr>tk_kind = TNumber, tk_text = n\<rparr>]"
| "colours (DLiteral l) = [\<lparr>tk_kind = TLiteral, tk_text = u l\<rparr>]"
| "colours (DArray ds) = punct CHR ''['' # commas (map colours ds) @ [punct CHR '']'']"
| "colours (DObject ms) =
     punct CHR ''{'' # commas (map (\<lambda>(k, d). quoted TKey k # punct CHR '':'' # colours d) ms) @ [punct CHR ''}'']"

definition json_space :: "units \<Rightarrow> bool" where
  "json_space g \<longleftrightarrow> set g \<subseteq> {32, 9, 10, 13}"

definition plain :: "units \<Rightarrow> json_token list" where
  "plain g = (if g = [] then [] else [\<lparr>tk_kind = TPlain, tk_text = g\<rparr>])"

section \<open>What the scanner takes\<close>

lemma unlike_start:
  "first string_alt (prev, s, g) = None" if "s = [] \<or> hd s \<noteq> quote"
  using that by (cases s) (auto simp: string_alt_def first_Chr_Seq)

lemma unlike_literal:
  "first literal_alt (prev, s, g) = None" if "s = [] \<or> hd s \<notin> set (u ''tfn'')"
  using that by (cases s) (auto simp: literal_alt_def first_Seq_Alt first_word)

lemma unlike_name:
  "first name_alt (prev, s, g) = None" if "s = [] \<or> \<not> (is_alpha (hd s) \<or> hd s \<in> set (u ''_$''))"
  using that by (cases s) (auto simp: name_alt_def first_Chr_Seq)

lemma unlike_number:
  "first number_alt (prev, s, g) = None" if "s = [] \<or> \<not> (is_num (hd s) \<or> hd s = 45)"
  using that by (cases s) (auto simp: number_alt_def first_Chr_Seq first_Seq_Alt)

lemma unlike_punct: "first punct_alt (prev, c # s, g) = None" if "c \<notin> set PUNCTUATORS"
  using that by (simp add: punct_alt_def PUNCTUATORS_def)

lemma not_at_space: "c \<in> {32, 9, 10, 13} \<Longrightarrow> first SCANNER (prev, c # s, []) = None"
  by (auto simp: SCANNER_def unlike_start unlike_literal unlike_name unlike_number unlike_punct classes PUNCTUATORS_def)

lemma exec_gap:
  "json_space gap \<Longrightarrow> exec SCANNER prev (gap @ s) =
     (case exec SCANNER (if gap = [] then prev else Some (last gap)) s of None \<Rightarrow> None
      | Some (skipped, m) \<Rightarrow> Some (gap @ skipped, m))"
proof (induction gap arbitrary: prev)
  case (Cons c gap)
  then have "first SCANNER (prev, c # gap @ s, []) = None" "json_space gap"
    by (simp_all add: json_space_def not_at_space)
  with Cons.IH [of "Some c"] show ?case by (auto simp: exec_first [of SCANNER prev] split: option.split)
qed (auto split: option.split)

lemma first_alts:
  "first (Alt a b) p = (if first a p = None then first b p else first a p)"
  by (simp split: option.split)

lemma takes_string:
  assumes "string_body b"
  shows "first SCANNER (prev, quote # b @ quote # s, []) = Some (Some quote, s, [])"
proof -
  let ?chars = "Star True (Alt (Chr (\<lambda>c. c \<noteq> quote \<and> c \<noteq> bslash \<and> c \<noteq> 10)) (Seq (Chr (\<lambda>c. c = bslash)) (Chr in_line)))"
  have "\<exists>pv. first ?chars (prev, b @ quote # s, []) = Some (pv, quote # s, [])" for prev
    using assms
  proof (induction b arbitrary: prev rule: string_body.induct)
    case 1
    then show ?case by (subst first_greedy) simp
  next
    case (2 c cs)
    show ?case
    proof (cases "c = bslash")
      case True
      with "2.prems" obtain d ds where "cs = d # ds" "in_line d" "string_body ds" by (auto split: list.splits)
      with 2 True show ?thesis by (subst first_greedy) simp
    next
      case False
      with "2.prems" have "c \<noteq> quote" "c \<noteq> 10" "string_body cs" by (auto simp: word_le_nat_alt)
      with 2 False show ?thesis by (subst first_greedy) simp
    qed
  qed
  then obtain pv where "first ?chars (Some quote, b @ quote # s, []) = Some (pv, quote # s, [])" by blast
  then have "first string_alt (prev, quote # b @ quote # s, []) = Some (Some quote, s, [])"
    by (simp add: string_alt_def first_Chr_Seq first_Seq)
  then show ?thesis by (simp add: SCANNER_def)
qed

lemma takes_punct: "c \<in> set PUNCTUATORS \<Longrightarrow> first SCANNER (prev, c # s, []) = Some (Some c, s, [])"
  by (auto simp: SCANNER_def unlike_start unlike_literal unlike_name unlike_number punct_alt_def PUNCTUATORS_def classes)

text \<open>What may stand behind a number or a literal.\<close>

definition ends_word :: "units \<Rightarrow> bool" where
  "ends_word s \<longleftrightarrow> s = [] \<or> hd s \<in> {32, 9, 10, 13} \<union> set PUNCTUATORS"

lemma ends_word_class:
  assumes "ends_word s"
  shows "takeWhile (\<lambda>c. is_word c \<or> c \<in> set (u ''$'')) s = []" "takeWhile is_num s = []"
    "\<not> (case s of [] \<Rightarrow> False | c # _ \<Rightarrow> is_word c)" "s = [] \<or> hd s \<notin> set (u ''.eE'')"
  using assms by (cases s; auto simp: ends_word_def PUNCTUATORS_def classes)+

lemma takes_literal:
  assumes "l \<in> {''true'', ''false'', ''null''}" and "ends_word s"
  shows "first SCANNER (prev, u l @ s, []) = Some (Some (last (u l)), s, [])"
proof -
  note out = ends_word_class [OF assms(2)]
  have name: "first name_alt (prev, u l @ s, []) = Some (Some (last (u l)), s, [])"
  proof -
    have "list_all (\<lambda>c. is_word c \<or> c \<in> set (u ''$'')) (u l)" "is_alpha (hd (u l))" "u l \<noteq> []" "tl (u l) \<noteq> []"
      using assms(1) by (auto simp: classes)
    then obtain c cs where l: "u l = c # cs" "is_alpha c" "cs \<noteq> []" "list_all (\<lambda>c. is_word c \<or> c \<in> set (u ''$'')) cs"
      by (cases "u l") auto
    have "takeWhile (\<lambda>c. is_word c \<or> c \<in> set (u ''$'')) (cs @ s) = cs"
      using l(4) out(1) by (simp add: takeWhile_append list_all_iff)
    moreover have "dropWhile (\<lambda>c. is_word c \<or> c \<in> set (u ''$'')) (cs @ s) = s"
      using l(4) out(1) by (simp add: dropWhile_append list_all_iff dropWhile_eq_self_iff takeWhile_eq_Nil_iff)
    ultimately show ?thesis using l by (simp add: name_alt_def first_Chr_Seq first_run)
  qed
  have "first literal_alt (prev, u l @ s, []) \<in> {None, Some (Some (last (u l)), s, [])}"
    using assms(1) out(3) by (auto simp: literal_alt_def first_Seq_Alt first_word prefix_def)
  then show ?thesis
    using assms(1) name by (auto simp: SCANNER_def unlike_start)
qed

text \<open>A run of digits, and the two optional parts of a number.\<close>

abbreviation no_digit :: "units \<Rightarrow> bool" where
  "no_digit s \<equiv> s = [] \<or> \<not> is_num (hd s)"

lemma takes_digits:
  assumes "ds \<noteq> []" and "list_all is_num ds" and "no_digit s"
  shows "first (plus True (Chr is_num)) (prev, ds @ s, g) = Some (Some (last ds), s, g)"
proof -
  obtain c cs where ds: "ds = c # cs" "is_num c" "list_all is_num cs" using assms by (cases ds) auto
  have none: "takeWhile is_num s = []" "dropWhile is_num s = s" using assms(3) by (cases s; simp)+
  have "takeWhile is_num (cs @ s) = cs" "dropWhile is_num (cs @ s) = s"
    using ds(3) none by (auto simp: takeWhile_append dropWhile_append list_all_iff)
  then show ?thesis by (simp add: ds first_Chr_Seq first_run)
qed

lemma takes_fraction:
  assumes "fraction = [] \<or> (\<exists>fs. fraction = u ''.'' @ fs \<and> fs \<noteq> [] \<and> list_all is_num fs)"
    and "no_digit s" and "s = [] \<or> hd s \<noteq> 46"
  shows "first (opt (Seq (is_u ''.'') (plus True (Chr is_num)))) (prev, fraction @ s, g) =
     Some (if fraction = [] then prev else Some (last fraction), s, g)"
  using assms takes_digits [where s = s] by (cases s) (auto simp: first_Chr_Seq)

lemma takes_exponent:
  assumes "ex = [] \<or> (\<exists>e sg es. ex = [e] @ sg @ es \<and> e \<in> set (u ''eE'') \<and> sg \<in> {[], u ''+'', u ''-''} \<and>
                es \<noteq> [] \<and> list_all is_num es)"
    and "no_digit s" and "s = [] \<or> hd s \<notin> set (u ''eE'')"
  shows "first (opt (Seq (is_u ''eE'') (Seq (opt (is_u ''+-'')) (plus True (Chr is_num))))) (prev, ex @ s, g) =
     Some (if ex = [] then prev else Some (last ex), s, g)"
proof (cases "ex = []")
  case True
  then show ?thesis using assms(3) by (cases s) (auto simp: first_Chr_Seq)
next
  case False
  then obtain e sg es where ex: "ex = [e] @ sg @ es" "e \<in> set (u ''eE'')" "sg \<in> {[], u ''+'', u ''-''}"
    and es: "es \<noteq> []" "list_all is_num es" using assms(1) by blast
  note digits = takes_digits [OF es assms(2)]
  have "hd es \<notin> set (u ''+-'')" using es by (cases es) (auto simp: classes)
  then have "first (Seq (opt (is_u ''+-'')) (plus True (Chr is_num))) (Some e, sg @ es @ s, g) = Some (Some (last es), s, g)"
    using ex(3) digits es by (cases es) (auto simp: first_Seq_Alt(1,2) first_Chr_Seq)
  then show ?thesis using ex(2) es(1) by (auto simp: ex(1) first_Chr_Seq)
qed

lemma takes_number:
  assumes "number_text n" and "ends_word s"
  shows "first SCANNER (prev, n @ s, []) = Some (Some (last n), s, [])"
  using assms(1)
proof cases
  case (1 sign ds fraction ex)
  note out = ends_word_class [OF assms(2)]
  have ends: "no_digit s" "s = [] \<or> hd s \<noteq> 46" "s = [] \<or> hd s \<notin> set (u ''eE'')"
    using out(2,4) by (cases s; auto split: if_splits)+
  have behind_fraction: "no_digit (ex @ s)" "ex @ s = [] \<or> hd (ex @ s) \<noteq> 46"
    using 1(6) ends by (auto simp: classes)
  have behind: "no_digit (fraction @ ex @ s)"
    using 1(5) behind_fraction by (auto simp: classes)
  let ?f = "opt (Seq (is_u ''.'') (plus True (Chr is_num)))"
  let ?e = "opt (Seq (is_u ''eE'') (Seq (opt (is_u ''+-'')) (plus True (Chr is_num))))"
  have opts: "certain (Seq ?f ?e)" "certain ?e" by simp_all
  have tail: "first (Seq (plus True (Chr is_num)) (Seq ?f ?e)) (pv, ds @ fraction @ ex @ s, []) =
      Some (Some (last n), s, [])" for pv
    using 1(3) by (simp only: first_Seq [OF opts(1)] first_Seq [OF opts(2)] takes_digits [OF 1(3,4) behind]
        takes_fraction [OF 1(5) behind_fraction] takes_exponent [OF 1(6) ends(1,3)] Option.bind.simps)
      (simp add: 1(1))
  obtain d where d: "hd ds = d" "is_num d" using 1(3,4) by (cases ds) auto
  then have "first number_alt (prev, n @ s, []) = Some (Some (last n), s, [])"
    using 1(2,3) tail by (cases ds) (auto simp: number_alt_def 1(1) first_Seq_Alt(1,2) first_Chr_Seq classes)
  moreover have "hd (n @ s) = 45 \<or> is_num (hd (n @ s))" "n \<noteq> []" using 1(2,3) d by (auto simp: 1(1))
  then have "first string_alt (prev, n @ s, []) = None" "first literal_alt (prev, n @ s, []) = None"
    "first name_alt (prev, n @ s, []) = None"
    by (auto intro!: unlike_start unlike_literal unlike_name simp: classes word_le_nat_alt)
  ultimately show ?thesis by (simp add: SCANNER_def)
qed

section \<open>Every document keeps its colours\<close>

text \<open>A sequence of lexemes in which a key stands before its colon and nothing else does, and a number or
  a literal before a punctuator.\<close>

fun legible :: "json_token list \<Rightarrow> bool" where
  "legible [] = True"
| "legible (t # ts) \<longleftrightarrow>
     (let colon = (ts \<noteq> [] \<and> hd ts = punct CHR '':'') in
      case tk_kind t of
        TKey \<Rightarrow> (\<exists>b. t = quoted TKey b \<and> string_body b) \<and> colon
      | TString \<Rightarrow> (\<exists>b. t = quoted TString b \<and> string_body b) \<and> \<not> (ts \<noteq> [] \<and> prefix (u '':'') (tk_text (hd ts)))
      | TNumber \<Rightarrow> number_text (tk_text t) \<and> (ts = [] \<or> tk_kind (hd ts) = TPunct)
      | TLiteral \<Rightarrow> tk_text t \<in> u ` {''true'', ''false'', ''null''} \<and> (ts = [] \<or> tk_kind (hd ts) = TPunct)
      | TPunct \<Rightarrow> (\<exists>c \<in> set ''{}[],:''. t = punct c)
      | TPlain \<Rightarrow> False) \<and> legible ts"

abbreviation spelt :: "(units \<times> json_token) list \<Rightarrow> units \<Rightarrow> units" where
  "spelt parts gap \<equiv> concat (map (\<lambda>(g, t). g @ tk_text t) parts) @ gap"

abbreviation coloured :: "(units \<times> json_token) list \<Rightarrow> units \<Rightarrow> json_token list" where
  "coloured parts gap \<equiv> concat (map (\<lambda>(g, t). plain g @ [t]) parts) @ plain gap"

lemma beforeColon_gap: "json_space g \<Longrightarrow> beforeColon (g @ s) = beforeColon s"
  by (induction g) (auto simp: json_space_def)

lemma kind_simps:
  "token_kindOf (quote # b) s = (if beforeColon s then TKey else TString)"
  "l \<in> {''true'', ''false'', ''null''} \<Longrightarrow> token_kindOf (u l) s = TLiteral"
  "c \<in> set ''{}[],:'' \<Longrightarrow> token_kindOf (u [c]) s = TPunct"
  by (auto simp: token_kindOf_def PUNCTUATORS_def)

lemma number_hd: "number_text n \<Longrightarrow> n \<noteq> [] \<and> (hd n = 45 \<or> is_num (hd n))"
  by (erule number_text.cases) (auto simp: hd_append list_all_iff)

lemma kind_number:
  assumes "number_text n"
  shows "token_kindOf n s = TNumber"
proof -
  have "hd n = 45 \<or> is_num (hd n)" "n \<noteq> []" using number_hd [OF assms] by auto
  then show ?thesis
    by (cases n) (auto simp: token_kindOf_def PUNCTUATORS_def classes word_le_nat_alt)
qed

lemma punct_text: "c \<in> set ''{}[],:'' \<Longrightarrow> tk_text (punct c) = [of_nat (of_char c)] \<and> tk_kind (punct c) = TPunct"
  by (simp add: punct_def)

lemma legible_hd:
  assumes "legible (t # ts)"
  shows "tk_text t \<noteq> [] \<and> hd (tk_text t) \<notin> {32, 9, 10, 13}"
proof (cases "tk_kind t")
  case TNumber
  with assms have "number_text (tk_text t)" by (simp add: Let_def)
  from number_hd [OF this] show ?thesis by (auto simp: classes)
qed (use assms in \<open>auto simp: Let_def quoted_def punct_def\<close>)

lemma legible_ends_word:
  assumes "legible (map snd parts)" and "parts = [] \<or> tk_kind (snd (hd parts)) = TPunct"
    and "\<forall>(g, t) \<in> set parts. json_space g" and "json_space gap"
  shows "ends_word (spelt parts gap)"
proof (cases parts)
  case Nil
  then show ?thesis using assms(4) by (cases gap) (auto simp: ends_word_def json_space_def)
next
  case (Cons part parts')
  obtain g t where part: "part = (g, t)" by (cases part)
  with assms(1,2) Cons obtain c where c: "c \<in> set ''{}[],:''" "t = punct c" by (auto simp: Let_def)
  show ?thesis
  proof (cases g)
    case Nil
    then show ?thesis using c by (auto simp: Cons part ends_word_def PUNCTUATORS_def punct_text)
  next
    case (Cons x xs)
    then show ?thesis using assms(3) \<open>parts = part # parts'\<close> by (auto simp: part ends_word_def json_space_def)
  qed
qed

lemma legible_colon:
  assumes "legible (map snd parts)" and "\<forall>(g, t) \<in> set parts. json_space g" and "json_space gap"
  shows "beforeColon (spelt parts gap) \<longleftrightarrow> parts \<noteq> [] \<and> prefix (u '':'') (tk_text (snd (hd parts)))"
proof (cases parts)
  case Nil
  then show ?thesis using beforeColon_gap [OF assms(3), of "[]"] by simp
next
  case (Cons part parts')
  obtain g t where part: "part = (g, t)" by (cases part)
  obtain c cs where "tk_text t = c # cs" "c \<notin> {32, 9, 10, 13}"
    using legible_hd [of t "map snd parts'"] assms(1) by (cases "tk_text t") (auto simp: Cons part)
  moreover have "json_space g" using assms(2) by (simp add: Cons part)
  ultimately show ?thesis by (auto simp: Cons part beforeColon_gap)
qed

lemma legible_token:
  assumes "legible (map snd ((g, t) # parts))" and "\<forall>(g, t) \<in> set parts. json_space g" and "json_space gap"
  shows "first SCANNER (prev, tk_text t @ spelt parts gap, []) = Some (Some (last (tk_text t)), spelt parts gap, []) \<and>
    token_kindOf (tk_text t) (spelt parts gap) = tk_kind t"
proof -
  have rest: "legible (map snd parts)" using assms(1) by simp
  note colon = legible_colon [OF rest assms(2,3)] and ended = legible_ends_word [OF rest _ assms(2,3)]
  show ?thesis
  proof (cases "tk_kind t")
    case TKey
    with assms(1) obtain b where "t = quoted TKey b" "string_body b" "parts \<noteq> []" "snd (hd parts) = punct CHR '':''"
      by (cases parts) (auto simp: Let_def)
    then show ?thesis using takes_string [of b prev "spelt parts gap"] colon by (simp add: quoted_def kind_simps punct_def)
  next
    case TString
    with assms(1) obtain b where b: "t = quoted TString b" "string_body b"
      and other: "\<not> (parts \<noteq> [] \<and> prefix (u '':'') (tk_text (snd (hd parts))))"
      by (cases parts) (auto simp: Let_def)
    from other colon have "\<not> beforeColon (spelt parts gap)" by simp
    with b show ?thesis using takes_string [of b prev "spelt parts gap"] by (simp add: quoted_def kind_simps)
  next
    case TNumber
    with assms(1) have "number_text (tk_text t)" "parts = [] \<or> tk_kind (snd (hd parts)) = TPunct"
      by (cases parts; simp add: Let_def)+
    then show ?thesis using takes_number [OF _ ended] kind_number TNumber by simp
  next
    case TLiteral
    with assms(1) have "tk_text t \<in> u ` {''true'', ''false'', ''null''}"
      and behind: "parts = [] \<or> tk_kind (snd (hd parts)) = TPunct"
      by (cases parts; simp add: Let_def)+
    then obtain l where l: "tk_text t = u l" "l \<in> {''true'', ''false'', ''null''}" by (elim imageE)
    from behind show ?thesis using takes_literal [OF l(2) ended] kind_simps(2) [OF l(2)] TLiteral by (simp add: l(1))
  next
    case TPunct
    with assms(1) obtain c where c: "c \<in> set ''{}[],:''" "t = punct c" by (auto simp: Let_def)
    then have "of_nat (of_char c) \<in> set PUNCTUATORS" by (auto simp: PUNCTUATORS_def)
    from takes_punct [OF this] show ?thesis using c kind_simps(3) [OF c(1)] by (simp add: punct_def)
  next
    case TPlain
    with assms(1) show ?thesis by (simp add: Let_def)
  qed
qed

lemma gap_alone: "json_space gap \<Longrightarrow> exec SCANNER prev gap = None"
  using exec_gap [of gap prev "[]"] by (simp add: exec_first SCANNER_def unlike_start unlike_literal unlike_name unlike_number punct_alt_def)

lemma tokens_of_parts:
  assumes "legible (map snd parts)" and "\<forall>(g, t) \<in> set parts. json_space g" and "json_space gap"
  shows "tokens_from prev (spelt parts gap) = coloured parts gap"
  using assms
proof (induction parts arbitrary: prev)
  case Nil
  then show ?case by (simp add: tokens_found(2) [OF gap_alone] plain_def)
next
  case (Cons part parts)
  obtain g t where part: "part = (g, t)" by (cases part)
  with Cons.prems have space: "json_space g" "\<forall>(g, t) \<in> set parts. json_space g" by auto
  note token = legible_token [OF Cons.prems(1) [unfolded part] space(2) Cons.prems(3)]
  let ?pv = "if g = [] then prev else Some (last g)"
  have "exec SCANNER ?pv (tk_text t @ spelt parts gap) =
      Some ([], tk_text t, [], (Some (last (tk_text t)), spelt parts gap, []))"
    using token [of ?pv] by (simp add: exec_first [of SCANNER ?pv])
  then have "exec SCANNER prev (g @ tk_text t @ spelt parts gap) =
      Some (g, tk_text t, [], (Some (last (tk_text t)), spelt parts gap, []))"
    using exec_gap [OF space(1), of prev] by simp
  from tokens_found(1) [OF this] show ?case
    using Cons.IH [of "Some (last (tk_text t))"] Cons.prems space token by (simp add: part plain_def)
qed

definition closes :: "json_token list \<Rightarrow> bool" where
  "closes ts \<longleftrightarrow> ts = [] \<or> (\<exists>c \<in> set ''}],''. hd ts = punct c)"

lemma legible_punct: "c \<in> set ''{}[],:'' \<Longrightarrow> legible (punct c # ts) = legible ts"
  by (auto simp: punct_def Let_def)

lemma closes_punct: "c \<in> set ''}],'' \<Longrightarrow> closes (punct c # ts)"
  by (auto simp: closes_def)

lemma closes_kind: "closes ts \<Longrightarrow> ts = [] \<or> tk_kind (hd ts) = TPunct \<and> \<not> prefix (u '':'') (tk_text (hd ts))"
  by (auto simp: closes_def punct_def)

lemma legible_commas:
  assumes "\<And>x ts. x \<in> set xs \<Longrightarrow> closes ts \<Longrightarrow> legible ts \<Longrightarrow> legible (x @ ts)" and "closes ts" and "legible ts"
  shows "legible (commas xs @ ts)"
  using assms
proof (induction xs rule: commas.induct)
  case (3 x y xs)
  then have "legible (commas (y # xs) @ ts)" by simp
  then have "legible (punct CHR '','' # commas (y # xs) @ ts)" by (simp add: legible_punct del: legible.simps)
  from 3(2) [OF _ closes_punct this] show ?case by simp
qed auto

lemma legible_colours:
  "document_ok d \<Longrightarrow> closes ts \<Longrightarrow> legible ts \<Longrightarrow> legible (colours d @ ts)"
proof (induction d arbitrary: ts rule: colours.induct)
  case (1 b)
  then show ?case using closes_kind [of ts] by (auto simp: quoted_def Let_def)
next
  case (2 n)
  then show ?case using closes_kind [of ts] by (auto simp: Let_def)
next
  case (3 l)
  then show ?case using closes_kind [of ts] by (auto simp: Let_def)
next
  case (4 ds)
  let ?close = "punct CHR '']'' # ts"
  have "legible ?close" "closes ?close" using 4 by (simp_all add: legible_punct closes_punct del: legible.simps)
  moreover have "legible (x @ ts')" if "x \<in> set (map colours ds)" "closes ts'" "legible ts'" for x ts'
    using that 4 by (auto simp: list_all_iff)
  ultimately have "legible (commas (map colours ds) @ ?close)" by (intro legible_commas) auto
  then show ?case by (simp add: legible_punct del: legible.simps)
next
  case (5 ms)
  let ?close = "punct CHR ''}'' # ts" and ?member = "\<lambda>(k, d). quoted TKey k # punct CHR '':'' # colours d"
  have "legible ?close" "closes ?close" using 5 by (simp_all add: legible_punct closes_punct del: legible.simps)
  moreover have "legible (x @ ts')" if "x \<in> set (map ?member ms)" "closes ts'" "legible ts'" for x ts'
  proof -
    from that(1) obtain k d where m: "(k, d) \<in> set ms" "x = quoted TKey k # punct CHR '':'' # colours d" by auto
    with 5 that have "legible (colours d @ ts')" "string_body k" by (auto simp: list_all_iff)
    then show ?thesis by (auto simp: m(2) quoted_def punct_def Let_def)
  qed
  ultimately have "legible (commas (map ?member ms) @ ?close)" by (intro legible_commas) auto
  then show ?case by (simp add: legible_punct del: legible.simps)
qed

text \<open>C27. A JSON document, with whatever white space stands between its lexemes, is cut into exactly
  those lexemes, each in its colour (a key is a key and a string value is not, at every depth, however
  the strings and numbers are written), and nothing but that white space is left plain.\<close>

theorem documents_are_coloured:
  assumes "document_ok d" and "map snd parts = colours d"
    and "\<forall>(gap, t) \<in> set parts. json_space gap" and "json_space gap"
  shows "tokenizeJson (concat (map (\<lambda>(gap, t). gap @ tk_text t) parts) @ gap) =
    concat (map (\<lambda>(gap, t). plain gap @ [t]) parts) @ plain gap"
proof -
  have "legible (map snd parts)"
    using legible_colours [OF assms(1), of "[]"] by (simp add: assms(2) closes_def)
  from tokens_of_parts [OF this assms(3,4)] show ?thesis by (simp add: tokenizeJson_def)
qed

definition sample_document :: document where
  "sample_document = DObject [(u ''a:b'', DArray [DNumber (u ''-1.5e3''), DString (u ''x'')])]"

theorem documents_are_coloured_witness:
  "map tk_kind (tokenizeJson (u ''{'' @ quote # u ''a:b'' @ quote # u '': [-1.5e3,'' @ quote # u ''x'' @ quote # u '']} '')) =
    [TPunct, TKey, TPunct, TPlain, TPunct, TNumber, TPunct, TString, TPunct, TPunct, TPlain]"
proof -
  have "\<exists>e sg es. u ''e3'' = [e] @ sg @ es \<and> e \<in> set (u ''eE'') \<and> sg \<in> {[], u ''+'', u ''-''} \<and>
      es \<noteq> [] \<and> list_all is_num es"
    by (rule exI [of _ 101], rule exI [of _ "[]"], rule exI [of _ "u ''3''"]) (simp add: is_num_def)
  then have "number_text (u ''-'' @ u ''1'' @ u ''.5'' @ u ''e3'')"
    by (intro number_text.intros) (simp_all add: is_num_def)
  then have ok: "document_ok sample_document" by (simp add: sample_document_def)
  let ?gaps = "[[], [], [], u '' '', [], [], [], [], []]"
  have shape: "map snd (zip ?gaps (colours sample_document)) = colours sample_document"
    by (simp add: sample_document_def)
  have spaces: "\<forall>(gap, t) \<in> set (zip ?gaps (colours sample_document)). json_space gap" "json_space (u '' '')"
    by (auto simp: json_space_def sample_document_def)
  show ?thesis
    using documents_are_coloured [OF ok shape spaces]
    by (simp add: sample_document_def quoted_def punct_def plain_def)
qed

end
