(* ===== verification/BodyText.thy ===== *)
theory BodyText
  imports Utf16
begin

text \<open>
  How a message body is shown (lib/time.ts): its kind, its hex dump and its truncation. The limit of
  bytes is a preference, an integer.
\<close>

section \<open>Truncation\<close>

record truncation =
  tr_text :: units
  tr_truncated :: bool
  tr_originalBytes :: nat

text \<open>The search for the longest prefix that fits, between \<open>lo\<close>, which fits, and \<open>hi\<close>.\<close>

function search :: "units \<Rightarrow> nat \<Rightarrow> nat \<Rightarrow> nat \<Rightarrow> nat" where
  "search body limit lo hi =
     (if lo < hi
      then (let mid = (lo + hi + 1) div 2; size = length (utf8 (take mid body))
            in if size \<le> limit then search body limit mid hi else search body limit lo (mid - 1))
      else lo)"
  by pat_completeness auto
termination by (relation "measure (\<lambda>(body, limit, lo, hi). hi - lo)") auto

declare search.simps [simp del]

definition payload_limit :: "int \<Rightarrow> nat" where
  "payload_limit maxBytes = nat (max 1024 (if maxBytes = 0 then 512 * 1024 else maxBytes))"

definition truncatePayload :: "units \<Rightarrow> int \<Rightarrow> truncation" where
  "truncatePayload body maxBytes =
     (let limit = payload_limit maxBytes;
          originalBytes = length (utf8 body)
      in if originalBytes \<le> limit
         then \<lparr>tr_text = body, tr_truncated = False, tr_originalBytes = originalBytes\<rparr>
         else \<lparr>tr_text = take (search body limit 0 (length body)) body, tr_truncated = True,
               tr_originalBytes = originalBytes\<rparr>)"

lemma search_finds:
  assumes "lo \<le> hi" "hi \<le> length body" "length (utf8 (take lo body)) \<le> limit"
    and "\<And>n. hi < n \<Longrightarrow> n \<le> length body \<Longrightarrow> limit < length (utf8 (take n body))"
  shows "search body limit lo hi \<le> length body \<and> length (utf8 (take (search body limit lo hi) body)) \<le> limit \<and>
    (\<forall>n. search body limit lo hi < n \<longrightarrow> n \<le> length body \<longrightarrow> limit < length (utf8 (take n body)))"
  using assms
proof (induction body limit lo hi rule: search.induct)
  case (1 body limit lo hi)
  show ?case
  proof (cases "lo < hi")
    case True
    let ?mid = "(lo + hi + 1) div 2"
    have mid: "lo < ?mid" "?mid \<le> hi" using True by auto
    show ?thesis
    proof (cases "length (utf8 (take ?mid body)) \<le> limit")
      case fits: True
      with 1 True mid show ?thesis by (simp add: search.simps [of body limit lo hi] Let_def)
    next
      case False
      have "limit < length (utf8 (take n body))" if "?mid - 1 < n" "n \<le> length body" for n
        using utf8_mono [of ?mid n body] that False by linarith
      with 1 True mid False show ?thesis by (simp add: search.simps [of body limit lo hi] Let_def)
    qed
  next
    case False
    then have "search body limit lo hi = lo" by (subst search.simps) simp
    moreover have "lo = hi" using False "1.prems"(1) by simp
    ultimately show ?thesis using "1.prems" by simp
  qed
qed

text \<open>C30. A body is cut to its longest prefix that is within the limit when it is encoded, which is at
  least a kilobyte, and half a megabyte when no preference is set; the size reported is the size of
  the whole, and it is called truncated exactly when something is missing.\<close>

theorem truncation_keeps_the_most:
  "tr_text (truncatePayload body maxBytes) = take (Max {n. n \<le> length body \<and>
       length (utf8 (take n body)) \<le> payload_limit maxBytes}) body \<and>
   1024 \<le> payload_limit maxBytes \<and>
   tr_truncated (truncatePayload body maxBytes) = (tr_text (truncatePayload body maxBytes) \<noteq> body) \<and>
   tr_originalBytes (truncatePayload body maxBytes) = length (utf8 body)"
proof -
  let ?limit = "payload_limit maxBytes"
  have least: "1024 \<le> ?limit" by (simp add: payload_limit_def)
  let ?fitting = "{n. n \<le> length body \<and> length (utf8 (take n body)) \<le> ?limit}"
  show ?thesis
  proof (cases "length (utf8 body) \<le> ?limit")
    case True
    then have "Max ?fitting = length body" by (intro Max_eqI) auto
    with True show ?thesis using least by (simp add: truncatePayload_def Let_def)
  next
    case False
    let ?n = "search body ?limit 0 (length body)"
    have found: "?n \<le> length body" "length (utf8 (take ?n body)) \<le> ?limit"
      "\<forall>n. ?n < n \<longrightarrow> n \<le> length body \<longrightarrow> ?limit < length (utf8 (take n body))"
      using search_finds [of 0 "length body" body ?limit] by auto
    then have "Max ?fitting = ?n" by (intro Max_eqI) (auto simp: not_le [symmetric] intro: leI)
    moreover have "take ?n body \<noteq> body" using found False by auto
    ultimately show ?thesis using False least by (simp add: truncatePayload_def Let_def)
  qed
qed

section \<open>The kind of a body\<close>

datatype body_kind = JsonBody | TextBody | BinaryBody

text \<open>\<open>parses\<close> is whether \<open>JSON.parse\<close> accepts the text.\<close>

definition detectBodyKind :: "(units \<Rightarrow> bool) \<Rightarrow> units \<Rightarrow> body_kind" where
  "detectBodyKind parses body =
     (let s = trim body in
      if s = [] then TextBody
      else if (hd s = 123 \<and> last s = 125 \<or> hd s = 91 \<and> last s = 93) \<and> parses s then JsonBody
      else (let sample = take (min (length s) 512) s;
                nonPrintable = length (filter (\<lambda>c. c < 9 \<or> 13 < c \<and> c < 32 \<or> c = 0xFFFD) sample)
            in if length sample > 0 \<and> real nonPrintable / real (length sample) > 0.15 then BinaryBody else TextBody))"

section \<open>The hex dump\<close>

definition hex_digit :: "nat \<Rightarrow> 16 word" where
  "hex_digit d = (if d < 10 then of_nat (48 + d) else of_nat (87 + d))"

fun hex :: "nat \<Rightarrow> units" where
  "hex n = (if n < 16 then [hex_digit n] else hex (n div 16) @ [hex_digit (n mod 16)])"

declare hex.simps [simp del]

definition padStart :: "nat \<Rightarrow> 16 word \<Rightarrow> units \<Rightarrow> units" where
  "padStart n c s = replicate (n - length s) c @ s"

definition padEnd :: "nat \<Rightarrow> 16 word \<Rightarrow> units \<Rightarrow> units" where
  "padEnd n c s = s @ replicate (n - length s) c"

definition dump_line :: "nat \<Rightarrow> 8 word list \<Rightarrow> units" where
  "dump_line i chunk =
     (let hexes = padEnd (16 * 3 - 1) 32 (join_with [32] (map (\<lambda>b. padStart 2 48 (hex (unat b))) chunk));
          ascii = map (\<lambda>b. if b \<ge> 32 \<and> b < 127 then ucast b else 46) chunk
      in padStart 8 48 (hex i) @ u ''  '' @ hexes @ u ''  |'' @ ascii @ u ''|'')"

text \<open>The lines from the offset \<open>i\<close> on, of the bytes up to the limit.\<close>

function dump_lines :: "nat \<Rightarrow> 8 word list \<Rightarrow> units list" where
  "dump_lines i bytes =
     (if bytes = [] then [] else dump_line i (take 16 bytes) # dump_lines (i + 16) (drop 16 bytes))"
  by pat_completeness auto
termination by (relation "measure (\<lambda>(i, bytes). length bytes)") auto

declare dump_lines.simps [simp del]

definition toHexDump :: "units \<Rightarrow> nat \<Rightarrow> units" where
  "toHexDump body maxBytes =
     (let bytes = utf8 body; limit = min (length bytes) maxBytes
      in join_with [10]
           (dump_lines 0 (take limit bytes) @
            (if length bytes > limit
             then [0x2026 # u '' ('' @ u (show_nat (length bytes - limit)) @ u '' more bytes)''] else [])))"

section \<open>Reading a dump back\<close>

text \<open>The bytes of a line, from its two middle columns; and of a dump, from its lines of bytes.\<close>

definition digit_of :: "16 word \<Rightarrow> nat" where
  "digit_of c = (if c \<le> 57 then unat c - 48 else unat c - 87)"

fun pairs :: "units \<Rightarrow> 8 word list" where
  "pairs (a # b # cs) = of_nat (16 * digit_of a + digit_of b) # pairs cs"
| "pairs _ = []"

definition read_line :: "units \<Rightarrow> 8 word list" where
  "read_line l = (if l = [] \<or> hd l = 0x2026 then [] else pairs (filter (\<lambda>c. c \<noteq> 32) (take 47 (drop 10 l))))"

definition read_dump :: "units \<Rightarrow> 8 word list" where
  "read_dump s = concat (map read_line (split_on 10 s))"

lemma unat_hex_digit: "d < 16 \<Longrightarrow> unat (hex_digit d) = (if d < 10 then 48 + d else 87 + d)"
  by (simp add: hex_digit_def unat_of_nat del: of_nat_add)

lemma digit_of_hex_digit: "d < 16 \<Longrightarrow> digit_of (hex_digit d) = d"
  by (simp add: digit_of_def word_le_nat_alt unat_hex_digit)

lemma hex_digit_plain: "d < 16 \<Longrightarrow> hex_digit d \<notin> {10, 32, 0x2026}"
  by (simp add: word_unat_eq_iff unat_hex_digit)

lemma length_hex: "0 < k \<Longrightarrow> n < 16 ^ k \<Longrightarrow> length (hex n) \<le> k"
proof (induction n arbitrary: k rule: hex.induct)
  case (1 n)
  show ?case
  proof (cases "n < 16")
    case False
    with "1.prems" obtain j where k: "k = Suc j" "0 < j" by (cases k; cases "k = 1") auto
    then have "n div 16 < 16 ^ j" using "1.prems" by (simp add: less_mult_imp_div_less mult.commute)
    with 1 False k have "length (hex (n div 16)) \<le> j" by simp
    with False k show ?thesis by (simp add: hex.simps [of n])
  qed (use "1.prems" in \<open>simp add: hex.simps [of n]\<close>)
qed

lemma hex_plain: "c \<in> set (hex n) \<Longrightarrow> c \<notin> {10, 32, 0x2026}"
proof (induction n rule: hex.induct)
  case (1 n)
  then show ?case using hex_digit_plain [of "n mod 16"] hex_digit_plain [of n]
    by (cases "n < 16") (auto simp: hex.simps [of n])
qed

lemma two_digits: "n < 256 \<Longrightarrow> padStart 2 48 (hex n) = [hex_digit (n div 16), hex_digit (n mod 16)]"
  by (auto simp: padStart_def hex.simps [of n] hex.simps [of "n div 16"]) (simp add: hex_digit_def)

definition hexes :: "8 word list \<Rightarrow> units" where
  "hexes bytes = join_with [32] (map (\<lambda>b. padStart 2 48 (hex (unat b))) bytes)"

lemma hexes_simps:
  "hexes [] = []" "hexes [b] = padStart 2 48 (hex (unat b))"
  "hexes (b # c # bytes) = padStart 2 48 (hex (unat b)) @ 32 # hexes (c # bytes)"
  by (simp_all add: hexes_def)

lemma unat_byte: "unat (b :: 8 word) < 256"
proof -
  have "unat b < 2 ^ LENGTH(8)" by (rule unsigned_less)
  then show ?thesis by simp
qed

lemma unat_widened: "unat (ucast (b :: 8 word) :: 16 word) = unat b"
  using unat_byte [of b] by (simp add: unsigned_ucast_eq take_bit_nat_eq_self)

lemma byte_digits: "16 * (unat (b :: 8 word) div 16) + unat b mod 16 = unat b" "unat b div 16 < 16" "unat b mod 16 < 16"
  using unat_byte [of b] by auto

lemma length_hexes: "length (hexes bytes) = (if bytes = [] then 0 else 3 * length bytes - 1)"
proof (induction bytes rule: induct_list012)
  case (3 b c bytes)
  then show ?case by (simp add: hexes_simps two_digits unat_byte)
qed (simp_all add: hexes_simps two_digits unat_byte)

lemma hexes_plain: "c \<in> set (hexes bytes) \<Longrightarrow> c \<noteq> 10"
proof (induction bytes rule: induct_list012)
  case (2 b)
  then show ?case using byte_digits(2,3) [of b] hex_digit_plain
    by (auto simp: hexes_simps two_digits unat_byte)
next
  case (3 b d bytes)
  then show ?case using byte_digits(2,3) [of b] hex_digit_plain
    by (auto simp: hexes_simps two_digits unat_byte)
qed (simp add: hexes_simps)

lemma pairs_hexes: "pairs (filter (\<lambda>c. c \<noteq> 32) (hexes bytes)) = bytes"
proof (induction bytes rule: induct_list012)
  case (2 b)
  then show ?case using hex_digit_plain byte_digits [of b]
    by (auto simp: hexes_simps two_digits unat_byte digit_of_hex_digit simp del: of_nat_add)
next
  case (3 b d bytes)
  then show ?case using hex_digit_plain byte_digits [of b]
    by (auto simp: hexes_simps two_digits unat_byte digit_of_hex_digit simp del: of_nat_add)
qed (simp add: hexes_simps)

lemma read_dump_line:
  assumes "length bytes \<le> 16" and "i < 16 ^ 8"
  shows "read_line (dump_line i bytes) = bytes" "10 \<notin> set (dump_line i bytes)" "hd (dump_line i bytes) \<noteq> 0x2026"
proof -
  let ?offset = "padStart 8 48 (hex i)"
  have offset: "length ?offset = 8" using length_hex [of 8 i] assms(2) by (simp add: padStart_def)
  have plain: "c \<notin> {10, 0x2026}" if "c \<in> set ?offset" for c
    using that hex_plain [of c i] by (auto simp: padStart_def)
  have wide: "length (hexes bytes) \<le> 47" using assms(1) unfolding length_hexes by (simp split: if_split) arith
  let ?ascii = "map (\<lambda>b. if b \<ge> 32 \<and> b < 127 then ucast b else 46) bytes :: units"
  have line: "dump_line i bytes = ?offset @ u ''  '' @ (hexes bytes @ replicate (47 - length (hexes bytes)) 32) @ u ''  |'' @ ?ascii @ u ''|''"
    by (simp add: dump_line_def Let_def padEnd_def hexes_def)
  have "hd ?offset \<in> set ?offset" using offset by (intro hd_in_set) auto
  then show first: "hd (dump_line i bytes) \<noteq> 0x2026" using plain [of "hd ?offset"] offset by (auto simp: line hd_append)
  have "take 47 (drop 10 (dump_line i bytes)) = hexes bytes @ replicate (47 - length (hexes bytes)) 32"
    using offset wide by (simp add: line)
  moreover have "dump_line i bytes \<noteq> []" by (simp add: line)
  ultimately show "read_line (dump_line i bytes) = bytes"
    using first by (simp add: read_line_def pairs_hexes)
  have "10 \<notin> set ?ascii" by (auto simp: word_le_nat_alt word_less_nat_alt word_unat_eq_iff unat_widened)
  moreover have "10 \<notin> set ?offset" "10 \<notin> set (hexes bytes)" using plain hexes_plain by blast+
  ultimately show "10 \<notin> set (dump_line i bytes)" by (simp add: line)
qed

lemma read_dump_lines:
  assumes "bytes \<noteq> [] \<Longrightarrow> i + length bytes \<le> 16 ^ 8"
  shows "concat (map read_line (dump_lines i bytes)) = bytes \<and> (\<forall>l \<in> set (dump_lines i bytes). 10 \<notin> set l)"
  using assms
proof (induction i bytes rule: dump_lines.induct)
  case (1 i bytes)
  show ?case
  proof (cases "bytes = []")
    case False
    with "1.prems" have "i < 16 ^ 8" by (cases bytes) auto
    then have line: "read_line (dump_line i (take 16 bytes)) = take 16 bytes" "10 \<notin> set (dump_line i (take 16 bytes))"
      using read_dump_line [of "take 16 bytes" i] by simp_all
    have "drop 16 bytes \<noteq> [] \<Longrightarrow> i + 16 + length (drop 16 bytes) \<le> 16 ^ 8" using "1.prems" False by simp
    from "1.IH" [OF False this] show ?thesis using line False by (subst (1 2) dump_lines.simps) simp
  qed (simp add: dump_lines.simps)
qed

lemma numeral_in_line: "10 \<notin> set (u (show_nat n))"
proof
  assume "10 \<in> set (u (show_nat n))"
  then obtain c where c: "c \<in> set (show_nat n)" "10 = (of_nat (of_char c) :: 16 word)" by (auto simp: u_def)
  have "is_digit c" by (rule show_nat_digits [OF c(1)])
  moreover from c(2) have "unat (10 :: 16 word) = unat (of_nat (of_char c) :: 16 word)" by (rule arg_cong)
  ultimately show False by (simp add: is_digit_def unat_of_nat)
qed

lemma dump_lines_Nil: "dump_lines i bytes = [] \<longleftrightarrow> bytes = []"
  by (subst dump_lines.simps) simp

text \<open>C29. A hex dump can be read back: its two middle columns are the encoded body up to the limit, byte
  for byte, for every limit of up to four gigabytes.\<close>

theorem hex_dump_is_the_body:
  assumes "maxBytes \<le> 16 ^ 8"
  shows "read_dump (toHexDump body maxBytes) = take maxBytes (utf8 body)"
proof -
  let ?bytes = "take (min (length (utf8 body)) maxBytes) (utf8 body)"
  let ?more = "if length (utf8 body) > maxBytes
     then [0x2026 # u '' ('' @ u (show_nat (length (utf8 body) - maxBytes)) @ u '' more bytes)''] else []"
  have bytes: "?bytes = take maxBytes (utf8 body)" by (simp add: min_def)
  have lines: "concat (map read_line (dump_lines 0 ?bytes)) = ?bytes" "\<forall>l \<in> set (dump_lines 0 ?bytes). 10 \<notin> set l"
    using read_dump_lines [of ?bytes 0] assms by simp_all
  have dump: "toHexDump body maxBytes = join_with [10] (dump_lines 0 ?bytes @ ?more)"
    by (simp add: toHexDump_def Let_def min_def)
  have more: "\<forall>l \<in> set ?more. 10 \<notin> set l" "concat (map read_line ?more) = []"
    by (auto simp: read_line_def numeral_in_line)
  show ?thesis
  proof (cases "dump_lines 0 ?bytes @ ?more = []")
    case True
    then have "toHexDump body maxBytes = []" unfolding dump by (simp only: join_with.simps)
    moreover have "take maxBytes (utf8 body) = []" using True unfolding bytes [symmetric] by (simp add: dump_lines_Nil)
    ultimately show ?thesis by (simp add: read_dump_def read_line_def)
  next
    case False
    then have "split_on 10 (toHexDump body maxBytes) = dump_lines 0 ?bytes @ ?more"
      unfolding dump using lines(2) more(1) by (intro split_join) auto
    then show ?thesis using lines(1) more(2) by (simp add: read_dump_def bytes)
  qed
qed

theorem hex_dump_is_the_body_witness:
  "read_dump (toHexDump (u ''hi!'') 2) = [104, 105] \<and>
   toHexDump (u ''hi!'') 2 = u ''00000000  68 69                                            |hi|'' @ 10 # 0x2026 # u '' (1 more bytes)''"
proof
  have "utf8 (u ''hi!'') = [104, 105, 33]" by code_simp
  then show "read_dump (toHexDump (u ''hi!'') 2) = [104, 105]"
    using hex_dump_is_the_body [of 2 "u ''hi!''"] by simp
  show "toHexDump (u ''hi!'') 2 = u ''00000000  68 69                                            |hi|'' @ 10 # 0x2026 # u '' (1 more bytes)''"
    by code_simp
qed

text \<open>C40. The cut can fall inside a character: of a pair of surrogates that does not fit, the first half
  does, since alone it is encoded as a replacement character, and that is what is shown.\<close>

theorem truncation_can_split_a_character:
  "tr_text (truncatePayload (replicate 1021 97 @ [0xD83D, 0xDE00]) 1024) = replicate 1021 97 @ [0xD83D]"
proof -
  let ?body = "replicate 1021 97 @ [0xD83D, 0xDE00] :: units"
  have run: "utf8 (replicate n 97 @ s) = replicate n 97 @ utf8 s" for n s
    by (induction n) simp_all
  have whole: "length (utf8 ?body) = 1025" unfolding run by (simp add: high_half_def low_half_def Let_def)
  have half: "take 1022 ?body = replicate 1021 97 @ [0xD83D]" by (simp add: take_replicate)
  then have fits: "length (utf8 (take 1022 ?body)) = 1024"
    unfolding half run by (simp add: high_half_def replacement_def)
  let ?n = "search ?body 1024 0 (length ?body)"
  have found: "?n \<le> length ?body" "length (utf8 (take ?n ?body)) \<le> 1024"
    "\<forall>n. ?n < n \<longrightarrow> n \<le> length ?body \<longrightarrow> 1024 < length (utf8 (take n ?body))"
    using search_finds [of 0 "length ?body" ?body 1024] by auto
  have "\<not> ?n < 1022" using found(3) fits by (auto dest: spec [of _ 1022])
  moreover have "?n \<noteq> 1023" using found(2) whole by auto
  ultimately have "?n = 1022" using found(1) by simp
  then show ?thesis using whole half by (simp add: truncatePayload_def payload_limit_def Let_def)
qed

end
