(* ===== verification/MarkdownBlocks.thy ===== *)
theory MarkdownBlocks
  imports Regex
begin

text \<open>
  The blocks of a Markdown text (parseBlocks of components/markdown.tsx), which release notes and the
  answers of the assistant are drawn from. The index the source walks the lines with is the list of
  the lines that are left.
\<close>

section \<open>Lines\<close>

definition FENCE :: regex where
  "FENCE = Seq AtStart (Seq (Star True (Chr is_space)) (Alt (word_of ''```'') (word_of ''~~~'')))"

definition three_or_more :: "string \<Rightarrow> regex" where
  "three_or_more c = Seq (is_u c) (Seq (is_u c) (plus True (is_u c)))"

definition RULE :: regex where
  "RULE = Seq AtStart (Seq (Star True (Chr is_space))
     (Seq (Alt (three_or_more ''-'') (Alt (three_or_more ''*'') (three_or_more ''_'')))
       (Seq (Star True (Chr is_space)) AtEnd)))"

definition HEADING :: regex where
  "HEADING = Seq AtStart (Seq (up_to 3 (Chr is_space)) (Seq (Group 1 (Seq (is_u ''#'') (up_to 5 (is_u ''#''))))
     (Seq (plus True (Chr is_space)) (Seq (Group 2 (Star False (Chr in_line)))
       (Seq (Star True (Chr is_space)) (Seq (Star True (is_u ''#'')) (Seq (Star True (Chr is_space)) AtEnd)))))))"

definition QUOTE :: regex where
  "QUOTE = Seq AtStart (Seq (up_to 3 (Chr is_space)) (Seq (is_u ''>'') (Seq (opt (Chr is_space))
     (Seq (Group 1 (Star True (Chr in_line))) AtEnd))))"

definition ITEM :: regex where
  "ITEM = Seq AtStart (Seq (Group 1 (Star True (Chr is_space)))
     (Seq (Alt (is_u ''-*+'') (Seq (plus True (Chr is_num)) (is_u ''.)'')))
       (Seq (plus True (Chr is_space)) (Seq (Group 2 (Star True (Chr in_line))) AtEnd))))"

definition DELIMITER_CELL :: regex where
  "DELIMITER_CELL = Seq AtStart (Seq (opt (is_u '':'')) (Seq (plus True (is_u ''-'')) (Seq (opt (is_u '':'')) AtEnd)))"

text \<open>\<open>i\<close> ignores case.\<close>

definition lower :: "units \<Rightarrow> units" where
  "lower s = map (\<lambda>c. if 65 \<le> c \<and> c \<le> 90 then c + 32 else c) s"

definition word_any_case :: "string \<Rightarrow> regex" where
  "word_any_case s = foldr (\<lambda>c. Seq (Chr (\<lambda>d. lower [d] = [c]))) (u s) Empty"

datatype alert_kind = Note | Tip | Important | Warning | Caution

definition alert_names :: "(string \<times> alert_kind) list" where
  "alert_names = [(''note'', Note), (''tip'', Tip), (''important'', Important), (''warning'', Warning), (''caution'', Caution)]"

definition ALERT_MARKER :: regex where
  "ALERT_MARKER = Seq AtStart (Seq (word_of ''[!'')
     (Seq (Group 1 (Alt (word_any_case ''note'') (Alt (word_any_case ''tip'') (Alt (word_any_case ''important'')
       (Alt (word_any_case ''warning'') (word_any_case ''caution''))))))
       (Seq (is_u '']'') (Seq (Star True (Chr is_space)) AtEnd))))"

text \<open>What group \<open>n\<close> of a match holds.\<close>

definition captured :: "nat \<Rightarrow> regex \<Rightarrow> units \<Rightarrow> units option" where
  "captured n r s = (case exec r None s of None \<Rightarrow> None | Some (_, _, g, _) \<Rightarrow> Some (nullish (map_of g n) []))"

section \<open>Cells\<close>

datatype align = AlignLeft | AlignCenter | AlignRight

text \<open>The loop over the characters, with whether it is inside code and the cell so far.\<close>

function cells_from :: "bool \<Rightarrow> units \<Rightarrow> units \<Rightarrow> units list" where
  "cells_from code cell [] = [trim cell]"
| "cells_from code cell (c # cs) =
     (if c = 92 \<and> cs \<noteq> [] \<and> hd cs = 124 then cells_from code (cell @ [124]) (tl cs)
      else (let code' = (if c = 96 then \<not> code else code)
            in if c = 124 \<and> \<not> code' then trim cell # cells_from code' [] cs
               else cells_from code' (cell @ [c]) cs))"
  by pat_completeness auto
termination by (relation "measure (\<lambda>(code, cell, cs). length cs)") auto

definition cellsOf :: "units \<Rightarrow> units list" where
  "cellsOf line =
     (let t0 = trim line;
          t1 = (if prefix (u ''|'') t0 then tl t0 else t0);
          t2 = (if suffix (u ''|'') t1 \<and> \<not> suffix [92, 124] t1 then butlast t1 else t1)
      in cells_from False [] t2)"

definition align_of :: "units \<Rightarrow> align option" where
  "align_of cell =
     (let left = prefix (u '':'') cell; right = suffix (u '':'') cell
      in if left \<and> right then Some AlignCenter else if right then Some AlignRight
         else if left then Some AlignLeft else None)"

definition delimiterOf :: "units \<Rightarrow> nat \<Rightarrow> align option list option" where
  "delimiterOf line columns =
     (if 45 \<notin> set line then None
      else (let cells = cellsOf line
            in if length cells \<noteq> columns \<or> \<not> list_all (test DELIMITER_CELL) cells then None
               else Some (map align_of cells)))"

section \<open>Joining wrapped lines\<close>

definition CJK :: "16 word \<Rightarrow> bool" where
  "CJK c \<longleftrightarrow> 0x2E80 \<le> c \<and> c \<le> 0x303F \<or> 0x3400 \<le> c \<and> c \<le> 0x4DBF \<or> 0x4E00 \<le> c \<and> c \<le> 0x9FFF \<or>
     0xF900 \<le> c \<and> c \<le> 0xFAFF \<or> 0xFE30 \<le> c \<and> c \<le> 0xFE4F \<or> 0xFF00 \<le> c \<and> c \<le> 0xFFEF"

definition is_marker :: "16 word \<Rightarrow> bool" where
  "is_marker c \<longleftrightarrow> c \<in> set (u ''*_`~'')"

definition join_line :: "units \<Rightarrow> units \<Rightarrow> units" where
  "join_line joined line =
     (if joined = [] then line
      else (let before = dropWhile is_marker (rev joined); after = dropWhile is_marker line;
                glue = (if before \<noteq> [] \<and> after \<noteq> [] \<and> CJK (hd before) \<and> CJK (hd after) then [] else u '' '')
            in joined @ glue @ line))"

definition joinLines :: "units list \<Rightarrow> units" where
  "joinLines ls = foldl join_line [] ls"

section \<open>Blocks\<close>

record list_item =
  li_text :: units
  li_depth :: nat

datatype md_block =
  Heading units
| Paragraph units
| ListBlock bool "list_item list"
| QuoteBlock "alert_kind option" units
| CodeBlock units
| TableBlock "units list" "align option list" "units list list"
| RuleBlock

definition NUMBERED :: regex where
  "NUMBERED = Seq AtStart (Seq (Star True (Chr is_space)) (Chr is_num))"

definition CONTINUES :: regex where
  "CONTINUES = Seq AtStart (Seq (plus True (Chr is_space)) (Chr (\<lambda>c. \<not> is_space c)))"

text \<open>The loop over the lines of a list: the items so far, and the lines that are left.\<close>

fun items_from :: "list_item list \<Rightarrow> units list \<Rightarrow> list_item list \<times> units list" where
  "items_from items [] = (items, [])"
| "items_from items (line # ls) =
     (case captured 2 ITEM line of
        Some t \<Rightarrow>
          items_from (items @ [\<lparr>li_text = t,
            li_depth = min 1 (length (nullish (captured 1 ITEM line) []) div 2)\<rparr>]) ls
      | None \<Rightarrow>
          if items = [] \<or> \<not> test CONTINUES line then (items, line # ls)
          else items_from (butlast items @ [(last items)\<lparr>li_text :=
                 joinLines [li_text (last items), trim line]\<rparr>]) ls)"

definition quote_block :: "units list \<Rightarrow> md_block" where
  "quote_block quoted =
     (let alert = (case quoted of [] \<Rightarrow> None
            | q # _ \<Rightarrow> Option.bind (captured 1 ALERT_MARKER q) (\<lambda>name. map_of (map (apfst u) alert_names) (lower name)));
          body = (if alert = None then quoted else tl quoted)
      in QuoteBlock alert (joinLines (filter (\<lambda>l. trim l \<noteq> []) body)))"

definition table_row :: "nat \<Rightarrow> units \<Rightarrow> units list" where
  "table_row columns line =
     (let cells = cellsOf line in map (\<lambda>i. if i < length cells then cells ! i else []) [0..<columns])"

definition flush :: "units list \<Rightarrow> md_block list" where
  "flush paragraph = (if paragraph = [] then [] else [Paragraph (joinLines paragraph)])"

lemma items_from_length: "length (snd (items_from items ls)) \<le> length ls"
  by (induction items ls rule: items_from.induct) (auto split: option.split)

lemma items_from_less:
  "captured 2 ITEM line \<noteq> None \<Longrightarrow> length (snd (items_from items (line # ls))) < Suc (length ls)"
  using items_from_length by (auto simp: less_Suc_eq_le)

text \<open>The walk over the lines, with the paragraph that is being collected.\<close>

function blocks_from :: "units list \<Rightarrow> units list \<Rightarrow> md_block list" where
  "blocks_from paragraph [] = flush paragraph"
| "blocks_from paragraph (line # ls) =
     (if test FENCE line then
        flush paragraph @ CodeBlock (join_with [10] (takeWhile (\<lambda>l. \<not> test FENCE l) ls)) #
        blocks_from [] (drop 1 (dropWhile (\<lambda>l. \<not> test FENCE l) ls))
      else if trim line = [] then flush paragraph @ blocks_from [] ls
      else if test RULE line then flush paragraph @ RuleBlock # blocks_from [] ls
      else if test HEADING line then
        flush paragraph @ Heading (nullish (captured 2 HEADING line) []) # blocks_from [] ls
      else if test QUOTE line then
        flush paragraph @
        quote_block (map (\<lambda>l. nullish (captured 1 QUOTE l) []) (takeWhile (test QUOTE) (line # ls))) #
        blocks_from [] (dropWhile (test QUOTE) ls)
      else if captured 2 ITEM line \<noteq> None then
        (let (items, left) = items_from [] (line # ls)
         in flush paragraph @ ListBlock (test NUMBERED line) items # blocks_from [] left)
      else (let header = cellsOf line;
                align = (if 124 \<in> set line then delimiterOf (case ls of [] \<Rightarrow> [] | l # _ \<Rightarrow> l) (length header) else None)
            in case align of
                 Some alignments \<Rightarrow>
                   (let is_row = (\<lambda>l. trim l \<noteq> [] \<and> 124 \<in> set l)
                    in flush paragraph @
                       TableBlock header alignments (map (table_row (length header)) (takeWhile is_row (drop 1 ls))) #
                       blocks_from [] (dropWhile is_row (drop 1 ls)))
               | None \<Rightarrow> blocks_from (paragraph @ [trim line]) ls))"
  by pat_completeness auto
termination
proof (relation "measure (\<lambda>(paragraph, ls). length ls)", goal_cases)
  case (7 para line ls x items left)
  then show ?case using items_from_less [of line "[]" ls] by (simp del: items_from.simps) (metis snd_conv)
qed (auto simp: less_Suc_eq_le intro: le_trans [OF length_dropWhile_le] le_trans [OF diff_le_self] diff_le_self)

text \<open>Windows and old Macintosh line ends become line feeds.\<close>

fun line_feeds :: "units \<Rightarrow> units" where
  "line_feeds [] = []"
| "line_feeds (c # cs) =
     (if c = 13 then 10 # (case cs of [] \<Rightarrow> [] | d # ds \<Rightarrow> if d = 10 then line_feeds ds else line_feeds cs)
      else c # line_feeds cs)"

definition parseBlocks :: "units \<Rightarrow> md_block list" where
  "parseBlocks source = blocks_from [] (split_on 10 (line_feeds source))"

end
