(* ===== verification/MarkdownRead.thy ===== *)
theory MarkdownRead
  imports MarkdownBlocks
begin

text \<open>
  Reading back what was written: a document of headings, paragraphs, lists, quotes, fences, tables
  and rules, written the way the notes and the answers write them, is parsed into its blocks.
\<close>

section \<open>What a line starts with\<close>

lemma spaces_then:
  assumes "test (Seq AtStart (Seq a b)) l" and "passing is_space a"
    and "\<And>pv c cs g. first b (pv, c # cs, g) \<noteq> None \<Longrightarrow> Q c" and "\<And>pv g. first b (pv, [], g) = None"
    and "\<And>c. Q c \<Longrightarrow> \<not> is_space c"
  shows "\<exists>pv c cs g. trim_start l = c # cs \<and> Q c \<and> first b (pv, c # cs, g) \<noteq> None"
  using assms(1) unfolding test_anchored trim_start_def
  by (rule first_lead [OF assms(2)]) (use assms(3-5) in blast)+

lemma fence_lead: "test FENCE l \<Longrightarrow> \<exists>c cs. trim_start l = c # cs \<and> c \<in> {96, 126}"
  unfolding FENCE_def
  by (drule spaces_then [where Q = "\<lambda>c. c \<in> {96, 126}"])
    (auto simp: passing_intros word_of_def first_Chr_Seq classes split: if_splits option.splits)

lemma heading_lead: "test HEADING l \<Longrightarrow> \<exists>cs. trim_start l = 35 # cs"
  unfolding HEADING_def
  by (drule spaces_then [where Q = "\<lambda>c. c = 35"])
    (auto simp: passing_intros first_def classes split: if_splits option.splits)

lemma quote_lead: "test QUOTE l \<Longrightarrow> \<exists>cs. trim_start l = 62 # cs"
  unfolding QUOTE_def
  by (drule spaces_then [where Q = "\<lambda>c. c = 62"])
    (auto simp: passing_intros first_Chr_Seq classes split: if_splits option.splits)

lemma item_lead: "test ITEM l \<Longrightarrow> \<exists>c cs. trim_start l = c # cs \<and> (c \<in> {45, 42, 43} \<or> is_num c)"
  unfolding ITEM_def
  by (drule spaces_then [where Q = "\<lambda>c. c \<in> {45, 42, 43} \<or> is_num c"])
    (auto simp: passing_intros first_Chr_Seq first_Seq_Alt class_facts classes word_le_nat_alt split: if_splits option.splits)

lemma rule_lead:
  assumes "test RULE l"
  shows "\<exists>c cs. trim_start l = c # c # c # cs \<and> c \<in> {45, 42, 95}"
proof -
  let ?bars = "Seq (Alt (three_or_more ''-'') (Alt (three_or_more ''*'') (three_or_more ''_'')))
       (Seq (Star True (Chr is_space)) AtEnd)"
  have "\<exists>pv c cs g. trim_start l = c # cs \<and> c \<in> {45, 42, 95} \<and> first ?bars (pv, c # cs, g) \<noteq> None"
    using assms unfolding RULE_def
    by (drule_tac spaces_then [where Q = "\<lambda>c. c \<in> {45, 42, 95}"])
      (auto simp: passing_intros three_or_more_def first_Chr_Seq first_Seq_Alt classes split: if_splits option.splits)
  then obtain pv c cs g where l: "trim_start l = c # cs" "c \<in> {45, 42, 95}" and found: "first ?bars (pv, c # cs, g) \<noteq> None"
    by blast
  have "\<exists>ds. cs = c # c # ds"
    using found by (cases cs; cases "tl cs")
      (auto simp: three_or_more_def first_Chr_Seq first_Seq_Alt split: if_splits option.splits)
  with l show ?thesis by blast
qed

section \<open>What is captured\<close>

lemma up_to_none: "s = [] \<or> \<not> P (hd s) \<Longrightarrow> first (up_to n (Chr P)) (prev, s, g) = Some (prev, s, g)"
  by (cases n; cases s) (auto simp: first_Chr_Seq)

lemma whole_line:
  assumes "list_all in_line t"
  shows "\<exists>pv. first (Seq (Group n (Star True (Chr in_line))) AtEnd) (prev, t, g) = Some (pv, [], AList.update n t g)"
proof -
  have "takeWhile in_line t = t" "dropWhile in_line t = []" using assms by (simp_all add: list_all_iff)
  then have "first (Group n (Star True (Chr in_line))) (prev, t, g) =
      Some (if t = [] then prev else Some (last t), [], AList.update n t g)"
    by (simp add: first_Group first_run del: takeWhile_eq_all_conv dropWhile_eq_Nil_conv)
  from first_go [OF this] show ?thesis by simp
qed

lemma captured_anchored:
  "captured n (Seq AtStart r) s = map_option (\<lambda>q. nullish (map_of (snd (snd q)) n) []) (first r (None, s, []))"
  by (simp add: captured_def exec_anchored split: option.split)

lemma captured_test: "captured n r s \<noteq> None \<longleftrightarrow> test r s"
  by (simp add: captured_def test_def split: option.split)

lemma quote_read:
  assumes "list_all in_line t"
  shows "captured 1 QUOTE (62 # 32 # t) = Some t"
proof -
  obtain pv where ending: "first (Seq (Group 1 (Star True (Chr in_line))) AtEnd) (Some 32, t, []) = Some (pv, [], AList.update 1 t [])"
    using whole_line [OF assms] by blast
  have "first (opt (Chr is_space)) (Some 62, 32 # t, []) = Some (Some 32, t, [])" by (simp add: is_space_def)
  from first_go [OF this ending] have "first (Seq (is_u ''>'') (Seq (opt (Chr is_space)) (Seq (Group 1 (Star True (Chr in_line))) AtEnd)))
      (None, 62 # 32 # t, []) = Some (pv, [], AList.update 1 t [])" by (simp add: first_Chr_Seq)
  from first_go [OF up_to_none this] show ?thesis by (simp add: QUOTE_def captured_anchored is_space_def)
qed

lemma spaces [simp]:
  "is_space 32" "\<not> is_space 35" "\<not> is_space 45" "\<not> is_space 46" "\<not> is_space 49" "\<not> is_space 58"
  "\<not> is_space 62" "\<not> is_space 91" "\<not> is_space 96" "\<not> is_space 124"
  by (simp_all add: is_space_def)

lemma spaces_taken:
  assumes "s = [] \<or> \<not> is_space (hd s)"
  shows "takeWhile is_space (replicate k 32 @ s) = replicate k 32" "dropWhile is_space (replicate k 32 @ s) = s"
proof -
  have "takeWhile is_space s = []" "dropWhile is_space s = s" using assms by (cases s; simp)+
  then show "takeWhile is_space (replicate k 32 @ s) = replicate k 32" "dropWhile is_space (replicate k 32 @ s) = s"
    by (simp_all add: takeWhile_append dropWhile_append)
qed

definition mark :: "bool \<Rightarrow> units" where
  "mark ordered = (if ordered then u ''1. '' else u ''- '')"

lemma item_read:
  assumes "list_all in_line t" and "t \<noteq> []" and "\<not> is_space (hd t)"
  shows "captured 2 ITEM (replicate k 32 @ mark ordered @ t) = Some t"
    "captured 1 ITEM (replicate k 32 @ mark ordered @ t) = Some (replicate k 32)"
proof -
  let ?g = "AList.update 1 (replicate k 32) []"
  have head: "\<exists>pv. first (Group 1 (Star True (Chr is_space))) (None, replicate k 32 @ mark ordered @ t, []) = Some (pv, mark ordered @ t, ?g)"
    by (simp add: first_Group first_run spaces_taken mark_def)
  obtain pv where ending: "first (Seq (Group 2 (Star True (Chr in_line))) AtEnd) (Some 32, t, ?g) = Some (pv, [], AList.update 2 t ?g)"
    using whole_line [OF assms(1)] by blast
  have "first (plus True (Chr is_space)) (x, 32 # t, ?g) = Some (Some 32, t, ?g)" for x
    using assms(2,3) by (cases t) (simp_all add: first_Chr_Seq first_run)
  note ending = first_go [OF this ending]
  have "first (plus True (Chr is_num)) (x, 49 # 46 # 32 # t, ?g) = Some (Some 49, 46 # 32 # t, ?g)" for x
    by (simp add: first_Chr_Seq first_run is_num_def)
  from first_go [OF this] have "first (Seq (plus True (Chr is_num)) (is_u ''.)'')) (x, 49 # 46 # 32 # t, ?g) =
      Some (Some 46, 32 # t, ?g)" for x by simp
  then have "first (Alt (is_u ''-*+'') (Seq (plus True (Chr is_num)) (is_u ''.)''))) (x, mark ordered @ t, ?g) =
      Some (Some (if ordered then 46 else 45), 32 # t, ?g)" for x
    by (simp add: mark_def)
  note ending = first_go [OF this ending]
  from head obtain pv' where "first (Group 1 (Star True (Chr is_space))) (None, replicate k 32 @ mark ordered @ t, []) = Some (pv', mark ordered @ t, ?g)" by blast
  from first_go [OF this ending]
  show "captured 2 ITEM (replicate k 32 @ mark ordered @ t) = Some t"
    "captured 1 ITEM (replicate k 32 @ mark ordered @ t) = Some (replicate k 32)"
    by (simp_all add: ITEM_def captured_anchored)
qed

text \<open>The lazy middle of a heading ends where what is left is white space and hashes.\<close>

lemma drop_run_last: "k \<le> length (takeWhile P s) \<Longrightarrow> drop k s = [] \<Longrightarrow> s \<noteq> [] \<Longrightarrow> P (last s)"
proof -
  assume "k \<le> length (takeWhile P s)" "drop k s = []" "s \<noteq> []"
  then have "takeWhile P s = s" by (metis drop_eq_Nil le_trans length_takeWhile_le order_antisym take_all takeWhile_eq_take)
  with \<open>s \<noteq> []\<close> show ?thesis by (metis last_in_set set_takeWhileD)
qed

lemma heading_tail:
  assumes "first (Seq (Star True (Chr is_space)) (Seq (Star True (is_u ''#'')) (Seq (Star True (Chr is_space)) AtEnd)))
      (pv, s, g) \<noteq> None"
  shows "s = [] \<or> is_space (last s) \<or> last s = 35"
proof -
  from assms obtain p q r where p: "p \<in> set (matches (Star True (Chr is_space)) (pv, s, g))"
    and q: "q \<in> set (matches (Star True (is_u ''#'')) (fst p, rest p, snd (snd p)))"
    and r: "r \<in> set (matches (Star True (Chr is_space)) (fst q, rest q, snd (snd q)))" "first AtEnd (fst r, rest r, snd (snd r)) \<noteq> None"
    unfolding first_Seq_iff by auto
  from passing_step [OF passing_Star [OF passing_Chr] p] obtain i where i: "i \<le> length (takeWhile is_space s)" "rest p = drop i s" .
  from passing_step [OF passing_Star [OF passing_Chr] q] obtain j where
    j: "j \<le> length (takeWhile (\<lambda>c. c \<in> set (u ''#'')) (rest p))" "rest q = drop j (rest p)" .
  from passing_step [OF passing_Star [OF passing_Chr] r(1)] obtain k where k: "k \<le> length (takeWhile is_space (rest q))" "rest r = drop k (rest q)" .
  have "rest r = []" using r(2) by (cases r) (simp split: if_splits)
  then consider "rest q \<noteq> []" | "rest q = []" "rest p \<noteq> []" | "rest p = []" by blast
  then show ?thesis
  proof cases
    case 1
    with k \<open>rest r = []\<close> have "is_space (last (rest q))"
      using drop_run_last [OF k(1)] by simp
    moreover have "last (rest q) = last s" using 1 i(2) j(2) by (auto simp: last_drop)
    ultimately show ?thesis by simp
  next
    case 2
    with j have "last (rest p) \<in> set (u ''#'')" by (intro drop_run_last [where P = "\<lambda>c. c \<in> set (u ''#'')"]) auto
    moreover have "last (rest p) = last s" using 2 i(2) by (auto simp: last_drop)
    ultimately show ?thesis by simp
  next
    case 3
    with i show ?thesis using drop_run_last [of i is_space s] by auto
  qed
qed

lemma first_lazy:
  assumes "list_all P t" and "\<And>k pv. k < length t \<Longrightarrow> first b (pv, drop k t @ s, AList.update n (take k t) g) = None"
    and "\<And>pv. first b (pv, s, AList.update n t g) = Some (r pv)"
  shows "\<exists>pv. first (Seq (Group n (Star False (Chr P))) b) (prev, t @ s, g) = Some (r pv)"
proof -
  let ?cap = "\<lambda>m (pv, cs, g). (pv, cs, AList.update n (take (length m - length cs) m) g)"
  have "\<exists>pv' qs. concat (map (matches b \<circ> ?cap (v @ w @ s)) (matches (Star False (Chr P)) (pv, w @ s, g))) = r pv' # qs"
    if "v @ w = t" for v w pv
    using that
  proof (induction w arbitrary: v pv)
    case Nil
    have "\<exists>qs. matches b (pv, s, AList.update n t g) = r pv # qs"
      using assms(3) [of pv] by (auto simp: first_def split: list.splits)
    then show ?case using Nil by (subst matches.simps(5)) (auto simp: Let_def)
  next
    case (Cons c w)
    have "P c" using assms(1) Cons.prems by auto
    have "length v < length t" using Cons.prems by auto
    from assms(2) [OF this, of pv] have "matches b (pv, (c # w) @ s, AList.update n v g) = []"
      using Cons.prems unfolding first_None by auto
    with Cons.IH [of "v @ [c]" "Some c"] Cons.prems \<open>P c\<close> show ?case
      by (subst matches.simps(5)) (simp add: Let_def comp_def)
  qed
  from this [of "[]" t prev] show ?thesis by (auto simp: first_def comp_def split_beta)
qed

lemma heading_read:
  assumes "list_all in_line t" and "t \<noteq> []" and "trimmed t" and "last t \<noteq> 35"
  shows "captured 2 HEADING (u ''### '' @ t) = Some t"
proof -
  let ?tail = "Seq (Star True (Chr is_space)) (Seq (Star True (is_u ''#'')) (Seq (Star True (Chr is_space)) AtEnd))"
  let ?g = "AList.update 1 [35, 35, 35] []"
  have five: "up_to 5 r = opt (Seq r (opt (Seq r (opt (Seq r (up_to 2 r))))))" for r
    by (simp add: numeral_eq_Suc)
  have ends: "\<not> is_space (hd t)" "\<not> is_space (last t)" using assms(2,3) by (simp_all add: trimmed_def)
  have none: "first ?tail (pv, drop k t @ [], AList.update 2 (take k t) ?g) = None" if "k < length t" for k pv
  proof (rule ccontr)
    assume "\<not> ?thesis"
    from heading_tail [OF this] that ends(2) assms(4) show False by (auto simp: last_drop)
  qed
  have run: "first (Star True (Chr P)) (pv, [], g) = Some (pv, [], g)" for P pv g by (simp add: first_run)
  have here: "first ?tail (pv, [], g) = Some (pv, [], g)" for pv g
    by (rule first_go [OF run first_go [OF run first_go [OF run]]]) simp
  obtain pv where middle: "first (Seq (Group 2 (Star False (Chr in_line))) ?tail) (Some 32, t, ?g) = Some (pv, [], AList.update 2 t ?g)"
    using first_lazy [OF assms(1) none here, of "Some 32"] by auto
  have "first (plus True (Chr is_space)) (Some 35, 32 # t, ?g) = Some (Some 32, t, ?g)"
    using ends(1) assms(2) by (cases t) (simp_all add: first_Chr_Seq first_run)
  note middle = first_go [OF this middle]
  have "first (Group 1 (Seq (is_u ''#'') (up_to 5 (is_u ''#'')))) (None, 35 # 35 # 35 # 32 # t, []) = Some (Some 35, 32 # t, ?g)"
    by (simp add: first_Group first_Chr_Seq five)
  from first_go [OF up_to_none first_go [OF this middle]]
  show ?thesis by (simp add: HEADING_def captured_anchored)
qed

section \<open>Cells\<close>

definition simple_cell :: "units \<Rightarrow> bool" where
  "simple_cell c \<longleftrightarrow> trimmed c \<and> list_all in_line c \<and> set c \<inter> {124, 96, 92} = {}"

definition row_line :: "units list \<Rightarrow> units" where
  "row_line cells = u ''| '' @ join_with (u '' | '') cells @ u '' |''"

lemma trim_padded:
  assumes "trimmed c"
  shows "trim (32 # c @ [32]) = c"
proof (cases "c = []")
  case True
  then show ?thesis by (simp add: trim_def trim_start_def trim_end_def)
next
  case False
  then have "\<not> is_space (hd c)" "\<not> is_space (last c)" using assms by (simp_all add: trimmed_def)
  then have "trim_start (32 # c @ [32]) = c @ [32]" using False by (cases c) (simp_all add: trim_start_def)
  moreover have "trim_end (c @ [32]) = trim_end c" by (simp add: trim_end_def)
  ultimately show ?thesis by (simp add: trim_def trim_trimmed(2) [OF assms])
qed

lemma cells_from_plain:
  "set p \<inter> {124, 96, 92} = {} \<Longrightarrow> cells_from False cell (p @ 124 # s) = trim (cell @ p) # cells_from False [] s"
  "set p \<inter> {124, 96, 92} = {} \<Longrightarrow> cells_from False cell p = [trim (cell @ p)]"
  by (induction p arbitrary: cell) simp_all

lemma cells_padded:
  "cells \<noteq> [] \<Longrightarrow> list_all simple_cell cells \<Longrightarrow>
   cells_from False [] (32 # join_with (u '' | '') cells @ [32]) = cells"
proof (induction "u '' | ''" cells rule: join_with.induct)
  case (2 x)
  have "cells_from False [] (32 # x @ [32]) = [trim ([] @ (32 # x @ [32]))]"
    using 2 by (intro cells_from_plain(2)) (auto simp: simple_cell_def)
  then show ?case using 2 trim_padded [of x] by (simp add: simple_cell_def)
next
  case (3 x y cells)
  have "cells_from False [] ((32 # x @ [32]) @ 124 # 32 # join_with (u '' | '') (y # cells) @ [32]) =
      trim ([] @ (32 # x @ [32])) # cells_from False [] (32 # join_with (u '' | '') (y # cells) @ [32])"
    using 3(3) by (intro cells_from_plain(1)) (auto simp: simple_cell_def)
  then show ?case using 3 trim_padded [of x] by (simp add: simple_cell_def)
qed simp

lemma row_read:
  assumes "cells \<noteq> []" and "list_all simple_cell cells"
  shows "cellsOf (row_line cells) = cells"
proof -
  let ?inner = "32 # join_with (u '' | '') cells @ [32]"
  have line: "row_line cells = 124 # ?inner @ [124]" by (simp add: row_line_def)
  have "trim (124 # ?inner @ [124]) = 124 # ?inner @ [124]" by (intro trim_trimmed(3)) (simp add: trimmed_def)
  moreover have "suffix (u ''|'') (?inner @ [124])" "\<not> suffix [92, 124] (?inner @ [124])"
    by (auto simp: suffix_def append_eq_append_conv2 Cons_eq_append_conv append_eq_Cons_conv)
  ultimately show ?thesis using cells_padded [OF assms]
    by (simp add: cellsOf_def Let_def line butlast_append del: append_Cons)
qed

text \<open>The cell of a delimiter row.\<close>

definition rule_cell :: "align option \<Rightarrow> units" where
  "rule_cell a = (case a of None \<Rightarrow> u ''---'' | Some AlignLeft \<Rightarrow> u '':--'' | Some AlignRight \<Rightarrow> u ''--:''
     | Some AlignCenter \<Rightarrow> u '':-:'')"

lemma rule_cell_read:
  "simple_cell (rule_cell a) \<and> test DELIMITER_CELL (rule_cell a) \<and> align_of (rule_cell a) = a \<and> 45 \<in> set (rule_cell a)"
proof (cases a)
  case None
  then show ?thesis by (simp only:) code_simp
next
  case (Some b)
  then show ?thesis by (cases b; simp only:; code_simp)
qed

lemma delimiter_read:
  assumes "aligns \<noteq> []"
  shows "delimiterOf (row_line (map rule_cell aligns)) (length aligns) = Some aligns"
proof -
  have cells: "cellsOf (row_line (map rule_cell aligns)) = map rule_cell aligns"
    using assms rule_cell_read by (intro row_read) (auto simp: list_all_iff)
  have "45 \<in> set (row_line (map rule_cell aligns))"
    using assms rule_cell_read by (cases aligns rule: remdups_adj.cases) (auto simp: row_line_def)
  moreover have "list_all (test DELIMITER_CELL) (map rule_cell aligns)" "map align_of (map rule_cell aligns) = aligns"
    using rule_cell_read by (auto simp: list_all_iff comp_def)
  ultimately show ?thesis by (simp add: delimiterOf_def cells Let_def)
qed

section \<open>Documents\<close>

definition prose :: "units \<Rightarrow> bool" where
  "prose t \<longleftrightarrow> t \<noteq> [] \<and> trimmed t \<and> list_all in_line t"

text \<open>The blocks that can be written: their texts are lines, and a line of one kind does not look like
  one of another.\<close>

fun writable :: "md_block \<Rightarrow> bool" where
  "writable (Heading t) = (prose t \<and> last t \<noteq> 35)"
| "writable (Paragraph t) =
     (prose t \<and> 124 \<notin> set t \<and> list_all (\<lambda>r. \<not> test r t) [FENCE, RULE, HEADING, QUOTE, ITEM])"
| "writable (ListBlock ordered items) = (items \<noteq> [] \<and> list_all (\<lambda>i. prose (li_text i) \<and> li_depth i \<le> 1) items)"
| "writable (QuoteBlock alert t) = (prose t \<and> (alert = None \<longrightarrow> \<not> test ALERT_MARKER t))"
| "writable (CodeBlock t) = (13 \<notin> set t \<and> list_all (\<lambda>l. \<not> test FENCE l) (split_on 10 t))"
| "writable (TableBlock header aligns rows) =
     (header \<noteq> [] \<and> list_all simple_cell header \<and> length aligns = length header \<and>
      list_all (\<lambda>row. length row = length header \<and> list_all simple_cell row) rows)"
| "writable RuleBlock = True"

fun alert_word :: "alert_kind \<Rightarrow> string" where
  "alert_word Note = ''NOTE''"
| "alert_word Tip = ''TIP''"
| "alert_word Important = ''IMPORTANT''"
| "alert_word Warning = ''WARNING''"
| "alert_word Caution = ''CAUTION''"

definition item_line :: "bool \<Rightarrow> list_item \<Rightarrow> units" where
  "item_line ordered i = replicate (2 * li_depth i) 32 @ mark ordered @ li_text i"

fun written :: "md_block \<Rightarrow> units list" where
  "written (Heading t) = [u ''### '' @ t]"
| "written (Paragraph t) = [t]"
| "written (ListBlock ordered items) = map (item_line ordered) items"
| "written (QuoteBlock alert t) =
     (case alert of None \<Rightarrow> [] | Some k \<Rightarrow> [u ''> [!'' @ u (alert_word k) @ u '']'']) @ [u ''> '' @ t]"
| "written (CodeBlock t) = u ''```'' # split_on 10 t @ [u ''```'']"
| "written (TableBlock header aligns rows) = row_line header # row_line (map rule_cell aligns) # map row_line rows"
| "written RuleBlock = [u ''---'']"

lemma blank_line: "blocks_from [] ([] # ls) = blocks_from [] ls"
proof -
  have "\<not> test FENCE []" by code_simp
  then show ?thesis by (simp add: trim_def trim_start_def trim_end_def flush_def)
qed

lemma lead_none:
  assumes "trim_start l = c # cs" and "c \<notin> {96, 126}"
  shows "\<not> test FENCE l" "trim l \<noteq> []"
proof -
  show "\<not> test FENCE l" using fence_lead [of l] assms by auto
  have "\<not> is_space c" using assms(1) hd_dropWhile [of is_space l] by (auto simp: trim_start_def)
  then show "trim l \<noteq> []" using assms(1) by (auto simp: trim_def trim_end_def dropWhile_eq_Nil_conv)
qed

lemma read_rule: "blocks_from [] (u ''---'' # ls) = RuleBlock # blocks_from [] ls"
proof -
  have "\<not> test FENCE (u ''---'')" "trim (u ''---'') \<noteq> []" "test RULE (u ''---'')" by code_simp+
  then show ?thesis by (simp add: flush_def del: u_simps)
qed

lemma read_heading:
  assumes "writable (Heading t)"
  shows "blocks_from [] ((u ''### '' @ t) # ls) = Heading t # blocks_from [] ls"
proof -
  let ?l = "u ''### '' @ t"
  have lead: "trim_start ?l = 35 # 35 # 35 # 32 # t" by (simp add: trim_start_def)
  have read: "captured 2 HEADING ?l = Some t" using assms heading_read by (simp add: prose_def)
  then have "test HEADING ?l" using captured_test [of 2 HEADING ?l] by simp
  moreover have "\<not> test RULE ?l" using rule_lead [of ?l] lead by auto
  ultimately show ?thesis using lead_none [OF lead] read by (simp add: flush_def del: u_simps)
qed

lemma read_paragraph:
  assumes "writable (Paragraph t)"
  shows "blocks_from [] (t # [] # ls) = Paragraph t # blocks_from [] ls"
proof -
  have kinds: "\<not> test FENCE t" "\<not> test RULE t" "\<not> test HEADING t" "\<not> test QUOTE t" "captured 2 ITEM t = None"
    using assms captured_test [of 2 ITEM t] by simp_all
  have t: "trim t = t" "t \<noteq> []" "124 \<notin> set t" using assms by (simp_all add: prose_def trim_trimmed)
  have "\<not> test FENCE []" by code_simp
  moreover have "trim [] = []" by (simp add: trim_def trim_start_def trim_end_def)
  ultimately show ?thesis using kinds t by (simp add: flush_def joinLines_def join_line_def)
qed

lemma read_code:
  assumes "writable (CodeBlock t)"
  shows "blocks_from [] (u ''```'' # split_on 10 t @ u ''```'' # ls) = CodeBlock t # blocks_from [] ls"
proof -
  have fence: "test FENCE (u ''```'')" by code_simp
  have inside: "\<forall>l \<in> set (split_on 10 t). \<not> test FENCE l" using assms by (simp add: list_all_iff)
  then have "takeWhile (\<lambda>l. \<not> test FENCE l) (split_on 10 t @ u ''```'' # ls) = split_on 10 t"
    "dropWhile (\<lambda>l. \<not> test FENCE l) (split_on 10 t @ u ''```'' # ls) = u ''```'' # ls"
    using fence by (simp_all add: takeWhile_append dropWhile_append del: u_simps)
  then show ?thesis using fence by (simp add: flush_def join_split del: u_simps)
qed

lemma item_line_lead: "trim_start (item_line ordered i) = mark ordered @ li_text i"
  by (simp add: trim_start_def item_line_def spaces_taken mark_def)

lemma read_items:
  assumes "list_all (\<lambda>i. prose (li_text i) \<and> li_depth i \<le> 1) items"
  shows "items_from found (map (item_line ordered) items @ [] # ls) = (found @ items, [] # ls)"
  using assms
proof (induction items arbitrary: found)
  case Nil
  have "captured 2 ITEM [] = None" "\<not> test CONTINUES []" by code_simp+
  then show ?case by simp
next
  case (Cons i items)
  then have "list_all in_line (li_text i)" "li_text i \<noteq> []" "\<not> is_space (hd (li_text i))"
    by (auto simp: prose_def trimmed_def)
  note read = item_read [OF this, of "2 * li_depth i" ordered, folded item_line_def]
  have "min 1 (length (nullish (captured 1 ITEM (item_line ordered i)) []) div 2) = li_depth i"
    using read(2) Cons.prems by simp
  then show ?case using read(1) Cons by simp
qed

lemma numbered_lead: "test NUMBERED l \<Longrightarrow> \<exists>c cs. trim_start l = c # cs \<and> is_num c"
  unfolding NUMBERED_def
  by (drule spaces_then [where Q = is_num]) (auto simp: passing_intros class_facts split: if_splits)

lemma read_list:
  assumes "writable (ListBlock ordered items)"
  shows "blocks_from [] (written (ListBlock ordered items) @ [] # ls) = ListBlock ordered items # blocks_from [] ls"
proof -
  obtain i items' where items: "items = i # items'" using assms by (cases items) auto
  let ?l = "item_line ordered i"
  have ok: "list_all (\<lambda>i. prose (li_text i) \<and> li_depth i \<le> 1) items" using assms by simp
  then have "list_all in_line (li_text i)" "li_text i \<noteq> []" "\<not> is_space (hd (li_text i))"
    by (auto simp: items prose_def trimmed_def)
  note read = item_read [OF this, of "2 * li_depth i" ordered, folded item_line_def]
  have lead: "trim_start ?l = (if ordered then 49 else 45) # (if ordered then [46, 32] else [32]) @ li_text i"
    by (simp add: item_line_lead mark_def)
  have "\<not> test RULE ?l" "\<not> test HEADING ?l" "\<not> test QUOTE ?l"
    using rule_lead [of ?l] heading_lead [of ?l] quote_lead [of ?l] lead by (auto split: if_splits)
  moreover have "test NUMBERED ?l = ordered"
  proof (cases ordered)
    case True
    have "dropWhile is_space ?l = 49 # [46, 32] @ li_text i" using lead True by (simp add: trim_start_def)
    then have "first (Seq (Star True (Chr is_space)) (Chr is_num)) (None, ?l, []) \<noteq> None"
      using first_go [OF first_run [of is_space None ?l "[]"], of "Chr is_num"] by (simp add: is_num_def)
    then show ?thesis using True by (simp add: NUMBERED_def test_anchored)
  next
    case False
    then show ?thesis using numbered_lead [of ?l] lead by (auto simp: is_num_def)
  qed
  moreover have "items_from [] (?l # map (item_line ordered) items' @ [] # ls) = (items, [] # ls)"
    using read_items [OF ok, of "[]" ordered ls] by (simp add: items)
  ultimately show ?thesis
    using lead_none [OF lead] read(1) blank_line [of ls]
    by (simp add: items flush_def del: items_from.simps split: if_splits)
qed

lemma alert_read:
  "Option.bind (captured 1 ALERT_MARKER (u ''[!'' @ u (alert_word k) @ u '']''))
     (\<lambda>name. map_of (map (apfst u) alert_names) (lower name)) = Some k"
  by (cases k; simp only:; code_simp)

lemma read_quote:
  assumes "writable (QuoteBlock alert t)"
  shows "blocks_from [] (written (QuoteBlock alert t) @ [] # ls) = QuoteBlock alert t # blocks_from [] ls"
proof -
  let ?texts = "(case alert of None \<Rightarrow> [] | Some k \<Rightarrow> [u ''[!'' @ u (alert_word k) @ u '']'']) @ [t]"
  have t: "prose t" using assms by simp
  have lines: "written (QuoteBlock alert t) = map (\<lambda>l. 62 # 32 # l) ?texts"
    by (simp split: option.split)
  have words: "list_all in_line (u ''[!'' @ u (alert_word k) @ u '']'')" for k
    by (cases k; simp only:; code_simp)
  have each: "captured 1 QUOTE (62 # 32 # l) = Some l" if "l \<in> set ?texts" for l
    using that t words quote_read [of l] by (auto simp: prose_def split: option.splits simp del: u_simps)
  have read: "map (\<lambda>l. nullish (captured 1 QUOTE l) []) (written (QuoteBlock alert t)) = ?texts"
    "\<forall>l \<in> set (written (QuoteBlock alert t)). test QUOTE l"
  proof -
    define texts where "texts = ?texts"
    have "captured 1 QUOTE (62 # 32 # l) = Some l" if "l \<in> set texts" for l
      using each that unfolding texts_def by blast
    then have "map (\<lambda>l. nullish (captured 1 QUOTE l) []) (map (\<lambda>l. 62 # 32 # l) texts) = texts"
      "\<forall>l \<in> set (map (\<lambda>l. 62 # 32 # l) texts). test QUOTE l"
      using captured_test [of 1 QUOTE] by (auto simp: map_idI)
    then show "map (\<lambda>l. nullish (captured 1 QUOTE l) []) (written (QuoteBlock alert t)) = ?texts"
      "\<forall>l \<in> set (written (QuoteBlock alert t)). test QUOTE l"
      unfolding lines texts_def by blast+
  qed
  have "\<not> test QUOTE []" by code_simp
  then have runs: "takeWhile (test QUOTE) (written (QuoteBlock alert t) @ [] # ls) = written (QuoteBlock alert t)"
    "dropWhile (test QUOTE) (written (QuoteBlock alert t) @ [] # ls) = [] # ls"
    using read(2) by (simp_all add: takeWhile_append dropWhile_append del: written.simps)
  have "joinLines (filter (\<lambda>l. trim l \<noteq> []) [t]) = t"
    using t by (simp add: prose_def trim_trimmed joinLines_def join_line_def)
  moreover have "captured 1 ALERT_MARKER t = None" if "alert = None"
    using assms that captured_test [of 1 ALERT_MARKER t] by simp
  ultimately have block: "quote_block ?texts = QuoteBlock alert t"
    using alert_read by (auto simp: quote_block_def Let_def simp del: u_simps split: option.split)
  obtain l ls' where first: "written (QuoteBlock alert t) = (62 # 32 # l) # ls'" unfolding lines
    by (cases alert) auto
  have lead: "trim_start (62 # 32 # l) = 62 # 32 # l" by (simp add: trim_start_def)
  have "test QUOTE (62 # 32 # l)" using read(2) unfolding first by simp
  moreover have "\<not> test RULE (62 # 32 # l)" "\<not> test HEADING (62 # 32 # l)"
    using rule_lead [of "62 # 32 # l"] heading_lead [of "62 # 32 # l"] lead by auto
  ultimately show ?thesis
    using lead_none [OF lead] runs read(1) block blank_line [of ls] unfolding first by (simp add: flush_def)
qed

lemma read_table:
  assumes "writable (TableBlock header aligns rows)"
  shows "blocks_from [] (written (TableBlock header aligns rows) @ [] # ls) = TableBlock header aligns rows # blocks_from [] ls"
proof -
  let ?l = "row_line header" and ?is_row = "\<lambda>l. trim l \<noteq> [] \<and> 124 \<in> set l"
  have h: "header \<noteq> []" "list_all simple_cell header" "length aligns = length header" "aligns \<noteq> []"
    using assms by auto
  have lead: "trim_start (row_line cells) = 124 # 32 # join_with (u '' | '') cells @ u '' |''" for cells
    by (simp add: trim_start_def row_line_def)
  have "\<not> test RULE ?l" "\<not> test HEADING ?l" "\<not> test QUOTE ?l" "captured 2 ITEM ?l = None"
    using rule_lead [of ?l] heading_lead [of ?l] quote_lead [of ?l] item_lead [of ?l] captured_test [of 2 ITEM ?l] lead [of header]
    by (auto simp: is_num_def)
  moreover have "\<forall>l \<in> set (map row_line rows). ?is_row l" using lead_none(2) [OF lead] by (auto simp: row_line_def)
  then have "takeWhile ?is_row (map row_line rows @ [] # ls) = map row_line rows"
    "dropWhile ?is_row (map row_line rows @ [] # ls) = [] # ls"
    by (simp_all add: takeWhile_append dropWhile_append)
  moreover have "table_row (length header) (row_line row) = row" if "row \<in> set rows" for row
  proof -
    have "length row = length header" "list_all simple_cell row" using assms that by (auto simp: list_all_iff)
    moreover from this h(1) have "cellsOf (row_line row) = row" by (intro row_read) auto
    ultimately show ?thesis by (auto simp: table_row_def Let_def intro: nth_equalityI)
  qed
  then have "map (table_row (length header)) (map row_line rows) = rows" by (simp add: map_idI comp_def)
  moreover have "124 \<in> set ?l" by (simp add: row_line_def)
  ultimately show ?thesis
    using lead_none [OF lead] row_read [OF h(1,2)] delimiter_read [OF h(4)] h(3) blank_line [of ls]
    by (simp add: flush_def Let_def)
qed

section \<open>The round trip\<close>

lemma read_block:
  assumes "writable b"
  shows "blocks_from [] (written b @ [] # ls) = b # blocks_from [] ls"
proof (cases b)
  case (Heading t)
  then show ?thesis using read_heading assms blank_line by (simp del: u_simps blocks_from.simps)
next
  case (Paragraph t)
  then show ?thesis using read_paragraph assms by (simp del: blocks_from.simps)
next
  case (ListBlock ordered items)
  then show ?thesis using read_list assms by (simp only:)
next
  case (QuoteBlock alert t)
  then show ?thesis using read_quote assms by (simp only:)
next
  case (CodeBlock t)
  then show ?thesis using read_code assms blank_line by (simp del: u_simps blocks_from.simps)
next
  case (TableBlock header aligns rows)
  then show ?thesis using read_table assms by (simp only:)
next
  case RuleBlock
  then show ?thesis using read_rule blank_line by (simp del: u_simps blocks_from.simps)
qed

lemma read_blocks:
  "list_all writable bs \<Longrightarrow> blocks_from [] (concat (map (\<lambda>b. written b @ [[]]) bs) @ ls) = bs @ blocks_from [] ls"
  by (induction bs) (simp_all add: read_block del: blocks_from.simps writable.simps written.simps)

text \<open>Line ends.\<close>

lemma line_feeds_plain: "13 \<notin> set s \<Longrightarrow> line_feeds (s @ r) = s @ line_feeds r"
  by (induction s) auto

abbreviation one_line :: "units \<Rightarrow> bool" where
  "one_line l \<equiv> 13 \<notin> set l \<and> 10 \<notin> set l"

lemma set_join_with: "set (join_with sep ls) \<subseteq> set sep \<union> \<Union> (set ` set ls)"
  by (induction sep ls rule: join_with.induct) auto

lemma line_feeds_join:
  assumes "ending \<in> {[10], [13, 10], [13]}" and "\<forall>l \<in> set ls. one_line l"
  shows "line_feeds (join_with ending ls) = join_with [10] ls"
  using assms(2)
proof (induction ls rule: induct_list012)
  case (2 x)
  then show ?case using line_feeds_plain [of x "[]"] by simp
next
  case (3 x y ys)
  let ?r = "join_with ending (y # ys)"
  have "10 \<notin> set ?r" if "ending = [13]" using set_join_with [of ending "y # ys"] 3(3) that by auto
  then have "line_feeds (ending @ ?r) = 10 # line_feeds ?r" using assms(1) by (cases ?r) auto
  then show ?case using 3 line_feeds_plain [of x "ending @ ?r"] by simp
qed simp

lemma in_line_one_line: "list_all in_line t \<Longrightarrow> one_line t"
  by (auto simp: list_all_iff in_line_def)

lemma row_one_line:
  assumes "list_all simple_cell cells"
  shows "one_line (row_line cells)"
proof -
  have "one_line c" if "c \<in> set cells" for c
    using assms that in_line_one_line [of c] by (simp add: list_all_iff simple_cell_def)
  then have "10 \<notin> set (join_with (u '' | '') cells)" "13 \<notin> set (join_with (u '' | '') cells)"
    using set_join_with [of "u '' | ''" cells] by auto
  then show ?thesis by (simp add: row_line_def)
qed

lemma split_on_parts: "\<forall>l \<in> set (split_on c t). set l \<subseteq> set t"
proof (induction t)
  case (Cons x t)
  then show ?case by (cases "split_on c t") auto
qed simp

lemma written_one_line:
  assumes "writable b"
  shows "\<forall>l \<in> set (written b). one_line l"
proof (cases b)
  case (CodeBlock t)
  then have "13 \<notin> set l" if "l \<in> set (split_on 10 t)" for l
    using assms split_on_parts [of 10 t] that by auto
  then show ?thesis using CodeBlock split_on_no_sep by auto
next
  case (TableBlock header aligns rows)
  moreover have "list_all simple_cell (map rule_cell aligns)" using rule_cell_read by (simp add: list_all_iff)
  ultimately show ?thesis using assms row_one_line by (auto simp: list_all_iff)
next
  case (QuoteBlock alert t)
  have "one_line (u (alert_word k))" for k by (cases k) auto
  then show ?thesis using assms QuoteBlock in_line_one_line [of t] by (auto simp: prose_def split: option.split)
next
  case (ListBlock ordered items)
  then have "one_line (li_text i)" if "i \<in> set items" for i
    using assms that in_line_one_line [of "li_text i"] by (simp add: prose_def list_all_iff)
  then show ?thesis using ListBlock by (auto simp: item_line_def mark_def split: if_splits)
qed (use assms in \<open>auto simp: prose_def dest: in_line_one_line\<close>)

definition written_document :: "units \<Rightarrow> md_block list \<Rightarrow> units" where
  "written_document ending bs = join_with ending (concat (map (\<lambda>b. written b @ [[]]) bs))"

text \<open>C25. Whatever blocks are written, each followed by an empty line, they are what is read: headings,
  paragraphs, lists and their depths, quotes and their alerts, fences with any lines in them, tables
  with their alignments and rules, with the line ends of any system.\<close>

theorem written_blocks_are_read:
  assumes "list_all writable bs" and "ending \<in> {[10], [13, 10], [13]}"
  shows "parseBlocks (written_document ending bs) = bs"
proof (cases "bs = []")
  case True
  have "parseBlocks [] = []" by code_simp
  with True show ?thesis by (simp add: written_document_def)
next
  case False
  let ?lines = "concat (map (\<lambda>b. written b @ [[]]) bs)"
  have "one_line l" if "b \<in> set bs" "l \<in> set (written b)" for b l
    using assms(1) written_one_line [of b] that by (auto simp: list_all_iff)
  then have "\<forall>l \<in> set ?lines. one_line l" by auto
  moreover have "?lines \<noteq> []" using False by (cases bs) auto
  ultimately have "split_on 10 (line_feeds (written_document ending bs)) = ?lines"
    by (simp add: written_document_def line_feeds_join [OF assms(2)] split_join)
  then show ?thesis using read_blocks [OF assms(1), of "[]"] by (simp add: parseBlocks_def flush_def)
qed

definition sample_blocks :: "md_block list" where
  "sample_blocks =
     [QuoteBlock (Some Important) (u ''read *this*''),
      ListBlock False [\<lparr>li_text = u ''one'', li_depth = 0\<rparr>, \<lparr>li_text = u ''two'', li_depth = 1\<rparr>],
      CodeBlock (u ''# no heading''),
      TableBlock [u ''a'', []] [Some AlignRight, None] [[u ''1'', u ''2'']]]"

theorem written_blocks_are_read_witness:
  "parseBlocks (written_document [13, 10] sample_blocks) = sample_blocks \<and>
   take 13 (written_document [13, 10] sample_blocks) = u ''> [!IMPORTANT''"
proof
  have "list_all writable sample_blocks" by code_simp
  then show "parseBlocks (written_document [13, 10] sample_blocks) = sample_blocks"
    by (rule written_blocks_are_read) simp
  show "take 13 (written_document [13, 10] sample_blocks) = u ''> [!IMPORTANT''" by code_simp
qed

end
