(* ===== verification/MarkdownInline.thy ===== *)
theory MarkdownInline
  imports MarkdownBlocks
begin

text \<open>
  The inline markup of a Markdown text (inline and Markdown of components/markdown.tsx): code, links,
  bare addresses, strong and emphasised runs, and the nodes a text is drawn as.
\<close>

section \<open>The scanner\<close>

abbreviation any :: regex where
  "any \<equiv> Chr (\<lambda>c. True)"

definition code_alt :: regex where
  "code_alt = Seq (Group 1 (plus True (is_u ''`''))) (Seq (Group 2 (plus False any)) (Backref 1))"

definition link_alt :: regex where
  "link_alt =
     Seq (is_u ''['') (Seq (Group 3 (Star True (Chr (\<lambda>c. c \<noteq> 93)))) (Seq (is_u '']'') (Seq (is_u ''('')
       (Seq (Group 4 (plus True (Chr (\<lambda>c. c \<noteq> 41 \<and> \<not> is_space c))))
         (Seq (Star True (Chr (\<lambda>c. c \<noteq> 41))) (is_u '')''))))))"

definition in_url :: "16 word \<Rightarrow> bool" where
  "in_url c \<longleftrightarrow> \<not> (is_space c \<or> c \<in> set (u ''<>()'') \<or> 0x3000 \<le> c \<and> c \<le> 0x303F \<or>
     0x4E00 \<le> c \<and> c \<le> 0x9FFF \<or> 0xFF00 \<le> c \<and> c \<le> 0xFFEF)"

definition url_alt :: regex where
  "url_alt = Group 5 (Seq (word_of ''http'') (Seq (opt (is_u ''s'')) (Seq (word_of ''://'') (plus True (Chr in_url)))))"

definition twice :: "string \<Rightarrow> nat \<Rightarrow> regex" where
  "twice c n = Seq (is_u c) (Seq (is_u c) (Seq (Group n (plus False any)) (Seq (is_u c) (is_u c))))"

definition once :: "string \<Rightarrow> nat \<Rightarrow> regex" where
  "once c n = Seq (is_u c) (Seq (Group n (plus False (Chr (\<lambda>d. d \<notin> set (u c) \<and> d \<noteq> 10)))) (is_u c))"

definition INLINE :: regex where
  "INLINE = Alt code_alt (Alt link_alt (Alt url_alt (Alt (twice ''*'' 6) (Alt (twice ''_'' 7)
     (Alt (once ''*'' 8) (once ''_'' 9))))))"

definition HREF :: regex where
  "HREF = Seq AtStart (Seq (word_any_case ''http'') (Seq (opt (word_any_case ''s'')) (word_of ''://'')))"

definition safeHref :: "units \<Rightarrow> units option" where
  "safeHref url = (if test HREF (trim url) then Some (trim url) else None)"

section \<open>What a match is\<close>

primrec groups :: "regex \<Rightarrow> nat set" where
  "groups Empty = {}"
| "groups (Chr P) = {}"
| "groups (Seq a b) = groups a \<union> groups b"
| "groups (Alt a b) = groups a \<union> groups b"
| "groups (Star greedy a) = groups a"
| "groups (Group n a) = insert n (groups a)"
| "groups (Backref n) = {}"
| "groups Boundary = {}"
| "groups AtStart = {}"
| "groups AtEnd = {}"

lemma skip_units_captures: "snd (snd (skip_units n p)) = snd (snd p)"
  by (induction n p rule: skip_units.induct) auto

lemma skip_units_prefix:
  "skip_units (length w) (prev, w @ s, g) = (if w = [] then prev else Some (last w), s, g)"
  by (induction w arbitrary: prev) auto

lemma groupless: "groups r = {} \<Longrightarrow> q \<in> set (matches r p) \<Longrightarrow> snd (snd q) = snd (snd p)"
proof (induction r p arbitrary: q rule: matches.induct)
  case (2 P prev cs g)
  then show ?case by (cases cs) (auto split: if_splits)
next
  case (3 a b p)
  then obtain m where m: "m \<in> set (matches a p)" "q \<in> set (matches b m)" by auto
  with 3 have "snd (snd m) = snd (snd p)" "snd (snd q) = snd (snd m)" by (simp_all del: split_paired_All)
  then show ?case by simp
next
  case (4 a b p)
  then show ?case by (cases "q \<in> set (matches a p)") (simp_all del: split_paired_All)
next
  case (5 greedy a p)
  show ?case
  proof (cases "q = p")
    case False
    with iffD1 [OF in_Star "5.prems"(2)] obtain m where m: "m \<in> set (matches a p)" "length (rest m) < length (rest p)"
        "q \<in> set (matches (Star greedy a) m)" by auto
    with 5 have "snd (snd m) = snd (snd p)" "snd (snd q) = snd (snd m)" by (simp_all del: split_paired_All)
    then show ?thesis by simp
  qed simp
next
  case (7 n prev cs g)
  then show ?case using skip_units_captures by (auto simp: Let_def split: if_splits)
qed (auto split: if_splits)

lemma in_Group:
  assumes "groups a = {}" and "q \<in> set (matches (Group n a) (prev, s, g))"
  obtains w pv s' where "s = w @ s'" "q = (pv, s', AList.update n w g)" "(pv, s', g) \<in> set (matches a (prev, s, g))"
proof -
  from assms(2) obtain pv s' g' where m: "(pv, s', g') \<in> set (matches a (prev, s, g))"
    "q = (pv, s', AList.update n (take (length s - length s') s) g')" by auto
  moreover have "g' = g" using groupless [OF assms(1) m(1)] by simp
  moreover obtain w where "s = w @ s'" using matches_passes [OF m(1)] by (auto simp: passes_def)
  ultimately show ?thesis using that by auto
qed

lemma in_Chr_Seq:
  "q \<in> set (matches (Seq (Chr P) b) (prev, s, g)) \<longleftrightarrow>
     (\<exists>c cs. s = c # cs \<and> P c \<and> q \<in> set (matches b (Some c, cs, g)))"
  by (auto split: list.splits if_splits)

lemma in_Chr: "q \<in> set (matches (Chr P) (prev, s, g)) \<longleftrightarrow> (\<exists>c cs. s = c # cs \<and> P c \<and> q = (Some c, cs, g))"
  by (auto split: list.splits if_splits)

lemma in_Group_Seq:
  assumes "groups a = {}" and "q \<in> set (matches (Seq (Group n a) b) (prev, s, g))"
  shows "\<exists>w pv s'. s = w @ s' \<and> (pv, s', g) \<in> set (matches a (prev, s, g)) \<and>
    q \<in> set (matches b (pv, s', AList.update n w g))"
proof -
  from assms(2) obtain m where m: "m \<in> set (matches (Group n a) (prev, s, g))" "q \<in> set (matches b m)"
    by (auto simp del: matches.simps(6))
  from in_Group [OF assms(1) m(1)] m(2) show ?thesis by metis
qed

lemma in_plain_Seq:
  assumes "groups a = {}" and "q \<in> set (matches (Seq a b) (prev, s, g))"
  shows "\<exists>w pv s'. s = w @ s' \<and> (pv, s', g) \<in> set (matches a (prev, s, g)) \<and> q \<in> set (matches b (pv, s', g))"
proof -
  from assms(2) obtain pv s' g' where m: "(pv, s', g') \<in> set (matches a (prev, s, g))" "q \<in> set (matches b (pv, s', g'))"
    by auto
  moreover have "g' = g" using groupless [OF assms(1) m(1)] by simp
  moreover obtain w where "s = w @ s'" using matches_passes [OF m(1)] by (auto simp: passes_def)
  ultimately show ?thesis by blast
qed

lemma exec_matches:
  assumes "exec r prev s = Some (skipped, m, g, (prev', s', g'))"
  shows "\<exists>pv. (prev', s', g) \<in> set (matches r (pv, m @ s', []))"
  using assms
proof (induction r prev s arbitrary: skipped rule: exec.induct)
  case (1 r prev s)
  show ?case
  proof (cases "matches r (prev, s, [])")
    case Nil
    then obtain c cs where s: "s = c # cs" using "1.prems" by (cases s) (simp_all add: exec_cases(2))
    with Nil "1.prems" obtain sk where "exec r (Some c) cs = Some (sk, m, g, (prev', s', g'))"
      by (auto simp: exec_cases(3) split: option.splits)
    with "1.IH" [OF Nil s] show ?thesis by blast
  next
    case (Cons q qs)
    obtain pv s1 g1 where q: "q = (pv, s1, g1)" by (cases q)
    with "1.prems" exec_cases(1) [OF Cons [unfolded q]] have "q = (prev', s', g)" "skipped = []" by auto
    with Cons exec_splits [OF "1.prems"] show ?thesis by (intro exI [of _ prev]) simp
  qed
qed

lemma in_twice:
  assumes "q \<in> set (matches (twice [x] n) (prev, s, []))"
  shows "\<exists>w pv s'. s = u [x, x] @ w @ u [x, x] @ s' \<and> q = (pv, s', [(n, w)])"
proof -
  from assms obtain p s1 where s: "s = u [x, x] @ s1"
    and m: "q \<in> set (matches (Seq (Group n (plus False any)) (Seq (is_u [x]) (is_u [x]))) (p, s1, []))"
    unfolding twice_def by (auto simp: in_Chr_Seq simp del: matches.simps)
  from in_Group_Seq [OF _ m] s show ?thesis by (fastforce simp: in_Chr_Seq in_Chr simp del: matches.simps)
qed

lemma in_once:
  assumes "q \<in> set (matches (once [x] n) (prev, s, []))"
  shows "\<exists>w pv s'. s = u [x] @ w @ u [x] @ s' \<and> q = (pv, s', [(n, w)])"
proof -
  from assms obtain p s1 where s: "s = u [x] @ s1"
    and m: "q \<in> set (matches (Seq (Group n (plus False (Chr (\<lambda>d. d \<notin> set (u [x]) \<and> d \<noteq> 10)))) (is_u [x])) (p, s1, []))"
    unfolding once_def by (auto simp: in_Chr_Seq simp del: matches.simps)
  from in_Group_Seq [OF _ m] s show ?thesis by (fastforce simp: in_Chr simp del: matches.simps)
qed

lemma in_link:
  assumes "q \<in> set (matches link_alt (prev, s, []))"
  shows "\<exists>label url extra pv s'. s = u ''['' @ label @ u '']('' @ url @ extra @ u '')'' @ s' \<and> q = (pv, s', [(3, label), (4, url)])"
proof -
  let ?url = "plus True (Chr (\<lambda>c. c \<noteq> 41 \<and> \<not> is_space c))"
  let ?after = "Seq (Star True (Chr (\<lambda>c. c \<noteq> 41))) (is_u '')'')"
  have free: "groups (Star True (Chr P)) = {}" "groups ?url = {}" for P by simp_all
  from assms obtain p s1 where s: "s = u ''['' @ s1"
    and m1: "q \<in> set (matches (Seq (Group 3 (Star True (Chr (\<lambda>c. c \<noteq> 93)))) (Seq (is_u '']'') (Seq (is_u ''('')
       (Seq (Group 4 ?url) ?after)))) (p, s1, []))"
    unfolding link_alt_def by (auto simp: in_Chr_Seq simp del: matches.simps)
  obtain label pv s2 where label: "s1 = label @ s2"
    and m2: "q \<in> set (matches (Seq (is_u '']'') (Seq (is_u ''('') (Seq (Group 4 ?url) ?after))) (pv, s2, AList.update 3 label []))"
    using in_Group_Seq [OF free(1) m1] by blast
  from m2 obtain p' s3 where s2: "s2 = u '']('' @ s3"
    and m3: "q \<in> set (matches (Seq (Group 4 ?url) ?after) (p', s3, AList.update 3 label []))"
    by (auto simp: in_Chr_Seq simp del: matches.simps)
  obtain url pv' s4 where url: "s3 = url @ s4"
    and m4: "q \<in> set (matches ?after (pv', s4, AList.update 4 url (AList.update 3 label [])))"
    using in_Group_Seq [OF free(2) m3] by blast
  obtain extra pv'' s5 where "s4 = extra @ s5"
    "q \<in> set (matches (is_u '')'') (pv'', s5, AList.update 4 url (AList.update 3 label [])))"
    using in_plain_Seq [OF free(1) m4] by blast
  with s label s2 url show ?thesis by (fastforce simp: in_Chr simp del: matches.simps)
qed

lemma in_word: "q \<in> set (matches (Seq (word_of w) b) (prev, s, g)) \<longleftrightarrow>
    (\<exists>pv s'. s = u w @ s' \<and> q \<in> set (matches b (pv, s', g)) \<and> pv = (if w = [] then prev else Some (last (u w))))"
proof (induction w arbitrary: prev s)
  case (Cons c w)
  have "matches (Seq (word_of (c # w)) b) (prev, s, g) = matches (Seq (Chr (\<lambda>d. d = of_nat (of_char c))) (Seq (word_of w) b)) (prev, s, g)"
    by (cases s) (auto simp: word_of_def)
  then show ?case using Cons.IH by (auto simp: in_Chr_Seq u_def simp del: matches.simps)
qed (simp add: word_of_def)

lemma in_url:
  assumes "q \<in> set (matches url_alt (prev, s, []))"
  shows "\<exists>w pv s'. s = w @ s' \<and> q = (pv, s', [(5, w)]) \<and> (prefix (u ''http://'') w \<or> prefix (u ''https://'') w)"
proof -
  let ?path = "Seq (word_of ''://'') (plus True (Chr in_url))"
  have free: "groups (Seq (word_of ''http'') (Seq (opt (is_u ''s'')) ?path)) = {}" by (simp add: word_of_def)
  obtain w pv s' where w: "s = w @ s'" "q = (pv, s', AList.update 5 w [])"
    and m: "(pv, s', []) \<in> set (matches (Seq (word_of ''http'') (Seq (opt (is_u ''s'')) ?path)) (prev, s, []))"
    using in_Group [OF free assms [unfolded url_alt_def]] by metis
  from m obtain p s1 where s1: "s = u ''http'' @ s1" "(pv, s', []) \<in> set (matches (Seq (opt (is_u ''s'')) ?path) (p, s1, []))"
    unfolding in_word by blast
  then obtain p' s2 where s2: "s1 = u ''s'' @ s2 \<or> s1 = s2" "(pv, s', []) \<in> set (matches ?path (p', s2, []))"
    by (auto split: list.splits if_splits)
  from s2(2) obtain p'' s3 where s3: "s2 = u ''://'' @ s3" "(pv, s', []) \<in> set (matches (plus True (Chr in_url)) (p'', s3, []))"
    unfolding in_word by blast
  from matches_passes [OF s3(2)] obtain v where "s3 = v @ s'" by (auto simp: passes_def)
  then have "w = u ''http://'' @ v \<or> w = u ''https://'' @ v" using s1(1) s2(1) s3(1) w(1) by auto
  then show ?thesis using w by (auto simp: prefix_def)
qed

lemma in_code:
  assumes "q \<in> set (matches code_alt (prev, s, []))"
  shows "\<exists>ticks w pv s'. s = ticks @ w @ ticks @ s' \<and> q = (pv, s', [(1, ticks), (2, w)]) \<and> set ticks \<subseteq> {96}"
proof -
  let ?tick = "\<lambda>c. c \<in> set (u ''`'')"
  have free: "groups (plus True (is_u ''`'')) = {}" "groups (plus False any) = {}" by simp_all
  obtain ticks pv s1 where s: "s = ticks @ s1" and t: "(pv, s1, []) \<in> set (matches (plus True (is_u ''`'')) (prev, s, []))"
    and m: "q \<in> set (matches (Seq (Group 2 (plus False any)) (Backref 1)) (pv, s1, AList.update 1 ticks []))"
    using in_Group_Seq [OF free(1) assms [unfolded code_alt_def]] by blast
  have "passing ?tick (plus True (is_u ''`''))" by (intro passing_Seq passing_intros)
  from passing_step [OF this t] obtain k where k: "k \<le> length (takeWhile ?tick s)" "s1 = drop k s" by auto
  then have "k \<le> length s" using length_takeWhile_le le_trans by blast
  then have "ticks = take k s" using s k(2) by (metis append_take_drop_id append_same_eq)
  then have "set ticks \<subseteq> set (takeWhile ?tick s)"
    using k(1) takeWhile_eq_take [of ?tick s] by (metis set_take_subset take_take min.absorb1)
  then have ticks: "set ticks \<subseteq> {96}" by (auto dest!: set_takeWhileD)
  obtain w pv' s2 where w: "s1 = w @ s2"
    and b: "q \<in> set (matches (Backref 1) (pv', s2, AList.update 2 w (AList.update 1 ticks [])))"
    using in_Group_Seq [OF free(2) m] by blast
  from b obtain s' where "s2 = ticks @ s'" "q = skip_units (length ticks) (pv', s2, [(1, ticks), (2, w)])"
    by (auto simp: prefix_def nullish_def split: if_splits)
  then show ?thesis using s w ticks skip_units_prefix [of ticks pv' s'] by auto
qed

text \<open>The five shapes of a match: code, a link, a bare address, a strong run and an emphasised one.\<close>

lemma INLINE_eats: "eats INLINE"
  by (simp add: INLINE_def code_alt_def link_alt_def url_alt_def twice_def once_def word_of_def)

lemma inline_match:
  assumes "exec INLINE prev s = Some (skipped, m, g, (prev', s', g'))"
  obtains (code) ticks w where "m = ticks @ w @ ticks" "g = [(1, ticks), (2, w)]" "set ticks \<subseteq> {96}"
  | (link) label url extra where "m = u ''['' @ label @ u '']('' @ url @ extra @ u '')''" "g = [(3, label), (4, url)]"
  | (bare) "g = [(5, m)]" "prefix (u ''http://'') m \<or> prefix (u ''https://'') m"
  | (strong) w x n where "m = u [x, x] @ w @ u [x, x]" "g = [(n, w)]" "(x, n) \<in> {(CHR ''*'', 6), (CHR ''_'', 7)}"
  | (em) w x n where "m = u [x] @ w @ u [x]" "g = [(n, w)]" "(x, n) \<in> {(CHR ''*'', 8), (CHR ''_'', 9)}"
proof -
  obtain pv where "(prev', s', g) \<in> set (matches INLINE (pv, m @ s', []))" using exec_matches [OF assms] by blast
  then consider "(prev', s', g) \<in> set (matches code_alt (pv, m @ s', []))" | "(prev', s', g) \<in> set (matches link_alt (pv, m @ s', []))"
    | "(prev', s', g) \<in> set (matches url_alt (pv, m @ s', []))" | "(prev', s', g) \<in> set (matches (twice ''*'' 6) (pv, m @ s', []))"
    | "(prev', s', g) \<in> set (matches (twice ''_'' 7) (pv, m @ s', []))" | "(prev', s', g) \<in> set (matches (once ''*'' 8) (pv, m @ s', []))"
    | "(prev', s', g) \<in> set (matches (once ''_'' 9) (pv, m @ s', []))"
    unfolding INLINE_def matches.simps(4) set_append by blast
  then show thesis
  proof cases
    case 1
    from in_code [OF this] show thesis using code by (auto simp del: u_simps)
  next
    case 2
    from in_link [OF this] obtain label url extra where "m @ s' = (u ''['' @ label @ u '']('' @ url @ extra @ u '')'') @ s'" "g = [(3, label), (4, url)]"
      by (auto simp del: u_simps)
    then show thesis using link by (simp only: append_same_eq)
  next
    case 3
    from in_url [OF this] show thesis using bare by (auto simp del: u_simps)
  next
    case 4
    from in_twice [OF this] obtain w where "m @ s' = (u ''**'' @ w @ u ''**'') @ s'" "g = [(6, w)]" by (auto simp del: u_simps)
    then show thesis using strong [of "CHR ''*''" w 6] by (simp only: append_same_eq) simp
  next
    case 5
    from in_twice [OF this] obtain w where "m @ s' = (u ''__'' @ w @ u ''__'') @ s'" "g = [(7, w)]" by (auto simp del: u_simps)
    then show thesis using strong [of "CHR ''_''" w 7] by (simp only: append_same_eq) simp
  next
    case 6
    from in_once [OF this] obtain w where "m @ s' = (u ''*'' @ w @ u ''*'') @ s'" "g = [(8, w)]" by (auto simp del: u_simps)
    then show thesis using em [of "CHR ''*''" w 8] by (simp only: append_same_eq) simp
  next
    case 7
    from in_once [OF this] obtain w where "m @ s' = (u ''_'' @ w @ u ''_'') @ s'" "g = [(9, w)]" by (auto simp del: u_simps)
    then show thesis using em [of "CHR ''_''" w 9] by (simp only: append_same_eq) simp
  qed
qed

text \<open>Whatever a group of a match holds is shorter than the text.\<close>

lemma captured_shorter:
  assumes "exec INLINE prev s = Some (skipped, m, g, (prev', s', g'))" and "map_of g n = Some w" and "n \<notin> {2, 5}"
  shows "length w < length s"
proof -
  have s: "s = skipped @ m @ s'" using exec_splits [OF assms(1)] by blast
  have "m \<noteq> []" by (rule exec_eats [OF INLINE_eats assms(1)])
  from assms(1) show ?thesis
    by (cases rule: inline_match) (use s \<open>m \<noteq> []\<close> assms(2,3) in \<open>auto split: if_splits\<close>)
qed

section \<open>Nodes\<close>

datatype md_node =
  TextNode units
| CodeNode units
| LinkNode units "md_node list"
| StrongNode "md_node list"
| EmNode "md_node list"

text \<open>The loop of inline over the text behind the cursor; the unit before it is \<open>prev\<close>.\<close>

definition text_node :: "units \<Rightarrow> md_node list" where
  "text_node s = (if s = [] then [] else [TextNode s])"

function inline_from :: "16 word option \<Rightarrow> units \<Rightarrow> md_node list" where
  "inline_from prev s =
     (case exec INLINE prev s of
        None \<Rightarrow> text_node s
      | Some (skipped, m, g, (prev', s', _)) \<Rightarrow>
          text_node skipped @
          (case map_of g 2 of Some code \<Rightarrow> CodeNode code
           | None \<Rightarrow> (case map_of g 4 of
               Some url \<Rightarrow> (case safeHref url of
                   None \<Rightarrow> TextNode (nullish (map_of g 3) [])
                 | Some href \<Rightarrow> LinkNode href (case map_of g 3 of None \<Rightarrow> [] | Some label \<Rightarrow> inline_from None label))
             | None \<Rightarrow> (case map_of g 5 of Some bare \<Rightarrow> LinkNode bare [TextNode bare]
             | None \<Rightarrow> (case map_of g 6 of Some strong \<Rightarrow> StrongNode (inline_from None strong)
             | None \<Rightarrow> (case map_of g 7 of Some strong \<Rightarrow> StrongNode (inline_from None strong)
             | None \<Rightarrow> (case map_of g 8 of Some em \<Rightarrow> EmNode (inline_from None em)
             | None \<Rightarrow> EmNode (case map_of g 9 of None \<Rightarrow> [] | Some em \<Rightarrow> inline_from None em))))))) #
          inline_from prev' s')"
  by pat_completeness auto
termination
  by (relation "measure (\<lambda>(prev, s). length s)")
     (auto dest: captured_shorter exec_eats(2) [OF INLINE_eats] simp del: One_nat_def)

declare inline_from.simps [simp del]

definition inline :: "units \<Rightarrow> md_node list" where
  "inline s = inline_from None s"

section \<open>What is drawn\<close>

datatype md_drawn =
  HeadingDrawn bool "md_node list"
| RuleDrawn
| CodeDrawn units
| QuoteDrawn "alert_kind option" "md_node list"
| ListDrawn "(nat option \<times> bool \<times> md_node list) list"
| TableDrawn "(align \<times> md_node list) list" "(align \<times> md_node list) list list"
| ParagraphDrawn "md_node list"

definition aligned :: "align option list \<Rightarrow> units list \<Rightarrow> (align \<times> md_node list) list" where
  "aligned aligns cells =
     map (\<lambda>(column, cell). (if column < length aligns then nullish (aligns ! column) AlignLeft else AlignLeft, inline cell))
       (enumerate 0 cells)"

definition draw_block :: "nat \<Rightarrow> md_block \<Rightarrow> md_drawn" where
  "draw_block index b = (case b of
     Heading t \<Rightarrow> HeadingDrawn (index = 0) (inline t)
   | RuleBlock \<Rightarrow> RuleDrawn
   | CodeBlock t \<Rightarrow> CodeDrawn t
   | QuoteBlock alert t \<Rightarrow> QuoteDrawn alert (inline t)
   | ListBlock ordered items \<Rightarrow>
       ListDrawn (map (\<lambda>(position, item). (if ordered then Some (position + 1) else None, 0 < li_depth item, inline (li_text item)))
         (enumerate 0 items))
   | TableBlock header aligns rows \<Rightarrow> TableDrawn (aligned aligns header) (map (aligned aligns) rows)
   | Paragraph t \<Rightarrow> ParagraphDrawn (inline t))"

definition Markdown :: "units \<Rightarrow> md_drawn list option" where
  "Markdown source =
     (let blocks = parseBlocks source
      in if blocks = [] then None else Some (map (\<lambda>(index, b). draw_block index b) (enumerate 0 blocks)))"

text \<open>The addresses a node can open, and the characters a reader sees.\<close>

primrec hrefs :: "md_node \<Rightarrow> units list" where
  "hrefs (TextNode t) = []"
| "hrefs (CodeNode t) = []"
| "hrefs (LinkNode href ns) = href # concat (map hrefs ns)"
| "hrefs (StrongNode ns) = concat (map hrefs ns)"
| "hrefs (EmNode ns) = concat (map hrefs ns)"

primrec shown :: "md_node \<Rightarrow> units" where
  "shown (TextNode t) = t"
| "shown (CodeNode t) = t"
| "shown (LinkNode href ns) = concat (map shown ns)"
| "shown (StrongNode ns) = concat (map shown ns)"
| "shown (EmNode ns) = concat (map shown ns)"

fun drawn_nodes :: "md_drawn \<Rightarrow> md_node list" where
  "drawn_nodes (HeadingDrawn opening ns) = ns"
| "drawn_nodes RuleDrawn = []"
| "drawn_nodes (CodeDrawn t) = []"
| "drawn_nodes (QuoteDrawn alert ns) = ns"
| "drawn_nodes (ListDrawn items) = concat (map (\<lambda>(n, deep, ns). ns) items)"
| "drawn_nodes (TableDrawn header rows) = concat (map snd (header @ concat rows))"
| "drawn_nodes (ParagraphDrawn ns) = ns"

definition is_web :: "units \<Rightarrow> bool" where
  "is_web url \<longleftrightarrow> prefix (u ''http://'') (lower url) \<or> prefix (u ''https://'') (lower url)"

section \<open>Only web addresses are linked\<close>

lemma in_word_any_case:
  "q \<in> set (matches (Seq (word_any_case w) b) (prev, s, g)) \<Longrightarrow>
     \<exists>pv s'. prefix (u w) (lower s) \<and> s' = drop (length w) s \<and> q \<in> set (matches b (pv, s', g))"
proof (induction w arbitrary: prev s)
  case (Cons c w)
  have "matches (Seq (word_any_case (c # w)) b) (prev, s, g) =
      matches (Seq (Chr (\<lambda>d. lower [d] = [of_nat (of_char c)])) (Seq (word_any_case w) b)) (prev, s, g)"
    by (cases s) (auto simp: word_any_case_def)
  with Cons.prems obtain d cs where "s = d # cs" "lower [d] = [of_nat (of_char c)]"
    "q \<in> set (matches (Seq (word_any_case w) b) (Some d, cs, g))" by (auto simp: in_Chr_Seq simp del: matches.simps)
  with Cons.IH show ?case by (fastforce simp: lower_def)
qed (auto simp: word_any_case_def)

lemma HREF_web:
  assumes "test HREF s"
  shows "is_web s"
proof -
  let ?slashes = "word_of ''://''"
  from assms have "matches (Seq (word_any_case ''http'') (Seq (opt (word_any_case ''s'')) ?slashes)) (None, s, []) \<noteq> []"
    unfolding HREF_def test_anchored first_None .
  then obtain q where "q \<in> set (matches (Seq (word_any_case ''http'') (Seq (opt (word_any_case ''s'')) ?slashes)) (None, s, []))"
    using list.set_sel(1) by blast
  from in_word_any_case [OF this] obtain p where http: "prefix (u ''http'') (lower s)"
    and behind: "q \<in> set (matches (Seq (opt (word_any_case ''s'')) ?slashes) (p, drop (length ''http'') s, []))" by blast
  have "length ''http'' = 4" by simp
  note rest = behind [unfolded this]
  have more: "prefix (u ''://'') (lower (drop k s))" if m: "q \<in> set (matches ?slashes (p, drop k s, []))" for p k
  proof -
    have "q \<in> set (matches (Seq ?slashes Empty) (p, drop k s, []))" using m by simp
    then obtain s' where "drop k s = u ''://'' @ s'" unfolding in_word by blast
    then show ?thesis by (simp add: lower_def)
  qed
  have joined: "prefix (v @ w) (lower s)" if "prefix v (lower s)" "prefix w (lower (drop k s))" "length v = k" for v w k
    using that by (auto simp: prefix_def lower_def drop_map [symmetric])
  from rest [unfolded matches.simps(1,3,4) set_append set_concat set_map list.set] consider "q \<in> set (matches ?slashes (p, drop 4 s, []))" | "q \<in> set (matches (Seq (word_any_case ''s'') ?slashes) (p, drop 4 s, []))"
    unfolding matches.simps(3) set_concat set_map by blast
  then show ?thesis
  proof cases
    case 1
    from joined [OF http more [OF 1]] show ?thesis by (simp add: is_web_def)
  next
    case 2
    from in_word_any_case [OF 2] obtain p' where s: "prefix (u ''s'') (lower (drop 4 s))" "q \<in> set (matches ?slashes (p', drop 5 s, []))"
      by auto
    have "prefix (u ''https'') (lower s)" using joined [OF http s(1)] by simp
    from joined [OF this more [OF s(2)]] show ?thesis by (simp add: is_web_def)
  qed
qed

lemma safeHref_web: "safeHref url = Some href \<Longrightarrow> is_web href"
  using HREF_web by (auto simp: safeHref_def split: if_splits)

text \<open>What the loop makes of one match.\<close>

inductive becomes :: "units \<Rightarrow> md_node \<Rightarrow> bool" where
  code: "set ticks \<subseteq> {96} \<Longrightarrow> becomes (ticks @ w @ ticks) (CodeNode w)"
| dead: "becomes (u ''['' @ label @ u '']('' @ url @ extra @ u '')'') (TextNode label)"
| link: "is_web href \<Longrightarrow>
    becomes (u ''['' @ label @ u '']('' @ url @ extra @ u '')'') (LinkNode href (inline_from None label))"
| bare: "is_web m \<Longrightarrow> becomes m (LinkNode m [TextNode m])"
| strong: "x \<in> {CHR ''*'', CHR ''_''} \<Longrightarrow> becomes (u [x, x] @ w @ u [x, x]) (StrongNode (inline_from None w))"
| em: "x \<in> {CHR ''*'', CHR ''_''} \<Longrightarrow> becomes (u [x] @ w @ u [x]) (EmNode (inline_from None w))"

lemma inline_step:
  obtains (plain) "inline_from prev s = text_node s"
  | (match) skipped m s' prev' n where "s = skipped @ m @ s'" "m \<noteq> []" "becomes m n"
      "inline_from prev s = text_node skipped @ n # inline_from prev' s'"
proof (cases "exec INLINE prev s")
  case None
  then show ?thesis using plain by (simp add: inline_from.simps [of prev s])
next
  case (Some r)
  obtain skipped m g prev' s' g' where r: "r = (skipped, m, g, (prev', s', g'))" by (cases r) auto
  note found = Some [unfolded r]
  note s = exec_splits [OF found, THEN conjunct1]
  note m = exec_eats(1) [OF INLINE_eats found]
  note go = inline_from.simps [of prev s, unfolded found, simplified]
  from found show ?thesis
  proof (cases rule: inline_match)
    case (code ticks w)
    then show ?thesis using match [OF s m, of "CodeNode w" prev'] becomes.code [of ticks w] by (simp add: go)
  next
    case (link label url extra)
    show ?thesis
    proof (cases "safeHref url")
      case None
      with link show ?thesis using match [OF s m, of "TextNode label" prev'] becomes.dead [of label url extra]
        by (simp add: go nullish_def)
    next
      case (Some href)
      with link show ?thesis
        using match [OF s m, of "LinkNode href (inline_from None label)" prev'] becomes.link [OF safeHref_web [OF Some], of label url extra]
        by (simp add: go)
    qed
  next
    case bare
    then have "is_web m" by (auto simp: is_web_def lower_def prefix_def)
    with bare show ?thesis using match [OF s m, of "LinkNode m [TextNode m]" prev'] becomes.bare by (simp add: go)
  next
    case (strong w x n)
    then show ?thesis using match [OF s m, of "StrongNode (inline_from None w)" prev'] becomes.strong [of x w] by (auto simp: go)
  next
    case (em w x n)
    then show ?thesis using match [OF s m, of "EmNode (inline_from None w)" prev'] becomes.em [of x w] by (auto simp: go)
  qed
qed

lemma inline_web: "set (concat (map hrefs (inline_from prev s))) \<subseteq> Collect is_web"
proof (induction "length s" arbitrary: prev s rule: less_induct)
  case less
  show ?case
  proof (cases rule: inline_step [of prev s])
    case plain
    then show ?thesis by (simp add: text_node_def)
  next
    case (match skipped m s' prev' n)
    have "set (hrefs n) \<subseteq> Collect is_web" using match(3)
    proof cases
      case (link href label url extra)
      then show ?thesis using less [of label None] match(1) by auto
    next
      case (strong x w)
      then show ?thesis using less [of w None] match(1) by auto
    next
      case (em x w)
      then show ?thesis using less [of w None] match(1) by auto
    qed auto
    moreover have "set (concat (map hrefs (inline_from prev' s'))) \<subseteq> Collect is_web"
      using less [of s' prev'] match(1,2) by simp
    ultimately show ?thesis by (auto simp: match(4) text_node_def)
  qed
qed

lemma map_numbered: "map (\<lambda>p. f (snd p)) (enumerate k xs) = map f xs"
  by (induction xs arbitrary: k) simp_all

lemma aligned_nodes: "concat (map snd (aligned aligns cells)) = concat (map inline cells)"
  using map_numbered [of inline 0 cells] by (simp add: aligned_def case_prod_beta o_def)

text \<open>Every node that is drawn comes from \<open>inline\<close>.\<close>

lemma drawn_inline: "\<exists>ts. drawn_nodes (draw_block index b) = concat (map inline ts)"
proof (cases b)
  case (ListBlock ordered items)
  have "drawn_nodes (draw_block index b) = concat (map (\<lambda>p. inline (li_text (snd p))) (enumerate 0 items))"
    by (simp add: ListBlock draw_block_def case_prod_beta o_def)
  also have "\<dots> = concat (map inline (map li_text items))"
    using map_numbered [of "\<lambda>i. inline (li_text i)" 0 items] by (simp add: o_def)
  finally show ?thesis by blast
next
  case (TableBlock header aligns rows)
  have "concat (map snd (concat (map (aligned aligns) rows))) = concat (map inline (concat rows))"
    by (induction rows) (simp_all add: aligned_nodes)
  then have "drawn_nodes (draw_block index b) = concat (map inline (header @ concat rows))"
    by (simp add: TableBlock draw_block_def aligned_nodes del: map_concat)
  then show ?thesis by blast
qed (auto simp: draw_block_def intro: exI [of _ "[]"] exI [of _ "[t]" for t])

text \<open>C26. Whatever text is drawn, every address that a click in it can open begins with http or
  https: no other scheme and no relative path becomes a link.\<close>

theorem links_are_web:
  "set (concat (map hrefs (concat (map drawn_nodes (nullish (Markdown source) []))))) \<subseteq> Collect is_web"
proof -
  have inline: "set (concat (map hrefs (concat (map inline ts)))) \<subseteq> Collect is_web" for ts
    by (induction ts) (use inline_web in \<open>auto simp: inline_def\<close>)
  have block: "set (concat (map hrefs (drawn_nodes (draw_block index b)))) \<subseteq> Collect is_web" for index b
    using drawn_inline [of index b] inline by metis
  have "set (concat (map hrefs (concat (map drawn_nodes (map (\<lambda>(index, b). draw_block index b) ibs))))) \<subseteq> Collect is_web" for ibs
    by (induction ibs) (use block in \<open>simp_all add: case_prod_beta\<close>)
  then show ?thesis by (simp add: Markdown_def Let_def nullish_def del: map_map)
qed

section \<open>Only markers are dropped\<close>

definition is_mark :: "16 word \<Rightarrow> bool" where
  "is_mark c \<longleftrightarrow> c \<in> set (u ''`*_'')"

lemma subseq_inside: "subseq w v \<Longrightarrow> subseq w (a @ v @ b)"
  using list_emb_append_mono [of "(=)" "[]" a w "v @ b"] list_emb_append_mono [of "(=)" w v "[]" b] by simp

lemma inline_shown:
  "subseq (concat (map shown (inline_from prev s))) s \<and>
   (91 \<notin> set s \<longrightarrow> filter (\<lambda>c. \<not> is_mark c) (concat (map shown (inline_from prev s))) = filter (\<lambda>c. \<not> is_mark c) s)"
proof (induction "length s" arbitrary: prev s rule: less_induct)
  case less
  show ?case
  proof (cases rule: inline_step [of prev s])
    case plain
    then show ?thesis by (simp add: text_node_def)
  next
    case (match skipped m s' prev' n)
    have inner: "length w < length s" if "m = v @ w @ v'" "v \<noteq> []" for v w v' using that match(1) by simp
    have "subseq (shown n) m \<and> (91 \<notin> set m \<longrightarrow> filter (\<lambda>c. \<not> is_mark c) (shown n) = filter (\<lambda>c. \<not> is_mark c) m)"
      using match(3)
    proof cases
      case (code ticks w)
      have "filter (\<lambda>c. \<not> is_mark c) ticks = []" using code(3) by (auto simp: is_mark_def filter_empty_conv)
      with code show ?thesis using subseq_inside [of w w ticks ticks] by simp
    next
      case (dead label url extra)
      then show ?thesis using subseq_inside [of label label "u ''[''" "u '']('' @ url @ extra @ u '')''"] by simp
    next
      case (link href label url extra)
      have "subseq (concat (map shown (inline_from None label))) label" using less [of label None] inner [of "u ''[''" label] link(1) by auto
      with link show ?thesis using subseq_inside [of _ label "u ''[''" "u '']('' @ url @ extra @ u '')''"] by simp
    next
      case (strong x w)
      then show ?thesis using less [of w None] inner [of "u [x, x]" w "u [x, x]"]
          subseq_inside [of _ w "u [x, x]" "u [x, x]"] by (auto simp: is_mark_def)
    next
      case (em x w)
      then show ?thesis using less [of w None] inner [of "u [x]" w "u [x]"]
          subseq_inside [of _ w "u [x]" "u [x]"] by (auto simp: is_mark_def)
    qed auto
    moreover have "subseq (concat (map shown (inline_from prev' s'))) s' \<and>
      (91 \<notin> set s' \<longrightarrow> filter (\<lambda>c. \<not> is_mark c) (concat (map shown (inline_from prev' s'))) = filter (\<lambda>c. \<not> is_mark c) s')"
      using less [of s' prev'] match(1,2) by simp
    ultimately show ?thesis
      unfolding match(4) by (auto simp: match(1) text_node_def intro!: list_emb_append_mono)
  qed
qed

text \<open>C31. Drawing inline markup adds no character and changes no order; and in a text without an opening
  square bracket it drops nothing but back ticks, stars and underscores.\<close>

theorem inline_only_drops_markers:
  "subseq (concat (map shown (inline s))) s \<and>
   (91 \<notin> set s \<longrightarrow> filter (\<lambda>c. \<not> is_mark c) (concat (map shown (inline s))) = filter (\<lambda>c. \<not> is_mark c) s)"
  unfolding inline_def by (rule inline_shown)

lemma inline_only_drops_markers_witness:
  "filter (\<lambda>c. \<not> is_mark c) (concat (map shown (inline (u ''a **b** c'')))) = u ''a b c''"
proof -
  have "91 \<notin> set (u ''a **b** c'')" by simp
  with inline_only_drops_markers [of "u ''a **b** c''"]
  have "filter (\<lambda>c. \<not> is_mark c) (concat (map shown (inline (u ''a **b** c'')))) = filter (\<lambda>c. \<not> is_mark c) (u ''a **b** c'')"
    by blast
  then show ?thesis by (simp add: is_mark_def)
qed

section \<open>A click on a link\<close>












end
