(* ===== verification/Spec2Isabelle.thy ===== *)
theory Spec2Isabelle
  imports AlertDerive AlertSweep AssistantSync RecentPicks ProducerDrafts RedisDial ConnBulk
    CapabilityScope WindowSession MessageTail LivePanel JsonTokens BodyText
    MarkdownRead MarkdownInline
begin

text \<open>
  MQ Studio is a desktop client for fifteen message brokers. Its window is written in
  TypeScript (frontend/src); the Go side (internal) keeps the connection profiles, talks to the
  brokers and answers the window's calls. This development models eight paths through it:

    rows --readers--> family readings --rules--> alerts --merge--> records --> bell, popover
    session --events, snapshots--> conversation in the dock --> blocks
    pick, message sent --> browser storage --> picks, drafts
    form --validation, submission--> bridge --> store, file, client --> list --> form
    endpoint answers --> capabilities of a driver --> sidebar, palette, page gate
    queues --poll, cursor--> batch --> rows of a live tail
    topic filters --subscription, routing--> buffer of a stream --poll, cursor--> live panel
    body, answer, release notes --scanners--> coloured tokens, dump, blocks, nodes

  \<^bold>\<open>Shared theories.\<close>

  \<^item> Prelude: the JavaScript values the source computes with. Numbers that can be NaN or
    infinite, \<open>parseInt\<close>, \<open>parseFloat\<close>, \<open>Number\<close>, \<open>trim\<close>, \<open>split\<close>, \<open>join\<close>, \<open>??\<close> and \<open>||\<close>,
    the Go readers of text and the searches in lists, with the lemmas on them and the named
    collections the components share.
  \<^item> JsText: what the forms and the list do to text: searching, lengths in UTF-16 units,
    schemes of addresses, splitting at runs of separators, and how these behave on ASCII.

  \<^bold>\<open>From broker rows to alerts.\<close>

  \<^item> Canonical: the canonical rows (generated bindings) as records, and the attribute readers
    every family repeats (\<open>attr\<close>, \<open>count\<close>, \<open>number\<close>, \<open>bool\<close>, \<open>list\<close>, \<open>metric\<close>).
  \<^item> AlertRules: lib/alertRules.ts and hooks/useAlertRules.ts. The rule keys, the rules a kind
    offers, the lists that drive the sweep, the defaults, the stored toggles.
  \<^item> AlertTypes: the types of lib/alertDerive.ts and the contracts of a family as locales:
    \<open>alert_family\<close> (an alert carries an enabled, declared rule and the empty rule set is
    silent), \<open>threshold_family\<close> (a threshold of zero disables), \<open>armed_family\<close> (each declared
    rule fires on some gatherable reading), \<open>worded_family\<close> (an alert carries the fields its
    sentence interpolates), \<open>listing_free_family\<close> (the alerts ignore the destinations).
  \<^item> FamilyRocketMQ, FamilyRabbitMQ, FamilyKafka, FamilyMqtt, FamilyPulsar, FamilyRedis,
    FamilyNats, FamilyActiveMQ, FamilyNsq, FamilySqs, FamilyGooglePubSub,
    FamilyAzureServiceBus, FamilyKinesis, FamilyIbmMq, FamilySolace: one theory per directory
    of frontend/src/mq, with its readers, its rules branch by branch and an interpretation of
    the contracts it meets. MQTT does not meet \<open>threshold_family\<close> and Redis does not meet
    \<open>worded_family\<close>, and each theory says why.
  \<^item> AlertDerive: \<open>deriveAlerts\<close> of lib/alertDerive.ts, the dispatch on the kind and the stable
    sort; the family contracts are interpreted once more over every kind.
  \<^item> AlertCenter, AlertMerge: lib/alertCenter.ts. The record dictionary, \<open>mergeAlerts\<close> with its
    carry-forward, refresh and recovery loops, the read memory; AlertMerge proves what one
    merge does to one record (\<open>episode\<close>) and derives its properties from that.
  \<^item> AlertSweep: hooks/useAlertCenter.tsx. The sweep, the fact table, the merge step, the
    banner, the read actions and the groups, as a step relation in which sweeps overlap.

  \<^bold>\<open>The assistant's dock.\<close>

  \<^item> Json, EventLog: JSON values, and the contract of a numbered log and its replay.
  \<^item> Conversation: design/agent/conversation.ts. Events and snapshots applied to a conversation,
    the gap that forces a reread, and the blocks the dock draws.
  \<^item> AgentSession, SessionEvents: internal/agent/assistant. Every critical section of a session
    that publishes, and the proof that the events tell what the snapshot holds.
  \<^item> AssistantSync: hooks/useAssistant.ts. Delivery in any order, lost events and snapshots
    under way, as a step relation.

  \<^bold>\<open>What the browser remembers.\<close>

  \<^item> Storage: the value behind a key, plain objects with the language's key order, the eviction
    both stores repeat. RecentPicks, ProducerDrafts: lib/recentPicks.ts, lib/producerDrafts.ts.

    WindowSession: design/data/session.ts and the tabs of design/DesignApp.tsx. What is stored,
    what is restored of it, and every operation on the tabs with the effect that writes it back.

  \<^bold>\<open>Pages and tails.\<close>

  \<^item> Capabilities: internal/model/capability.go and the conn.go of the fifteen drivers. The set a
    driver claims and what it declares from the answers of its endpoint; the locale
    \<open>declaring_driver\<close> is the contract (nothing claimed goes missing, a supported capability has
    no reason against it), interpreted once per driver.
  \<^item> Navigation: mq/navigation.ts with the sidebar, the command palette and the page gate.
    CapabilityScope: mq/capabilities.ts, the effect that follows the tab in front, with its
    answers in any order.
  \<^item> RocketTail: \<open>TailMessages\<close> of internal/driver/rocketmq/message_tail.go, one poll queue by
    queue. MessageTail: hooks/useMessageTail.ts over it, with ticks, answers, stops, clears and
    changes of topic in any order.

  \<^bold>\<open>Live streams.\<close>

  \<^item> TopicFilter: internal/driver/mqtt/topicfilter.go, against the matching relation of the
    MQTT specification. LiveBuffer: internal/model/livestream.go, and the locale \<open>live_buffer\<close>,
    the contract of a bounded buffer read by number, with what any reader of it is handed.
  \<^item> MqttStream, AmqpStream: the ring of internal/driver/mqtt/subscribe.go and the slice of
    internal/driver/activemq/subscribe.go, each an interpretation of \<open>live_buffer\<close>.
  \<^item> MqttSession: the streams of a connection (subscribe.go, conn.go), their starting, stopping,
    routing and renewal, with everything that reaches the broker as a step of its own: calls that
    fail in part, sessions that are lost and come back, pings (client.go), listings of retained
    messages (topics.go) and reads of the broker's figures (sysmetrics.go). Three flags of the step
    relation say what went wrong on the way; what holds without them, and that each can happen, is
    proved at the end of the theory.
  \<^item> LivePanel: hooks/mqtt/useMqttStream.ts, the panel that polls a stream. Whether two of its
    requests ever crossed is part of the step relation: the invariant holds as long as none did.

  \<^bold>\<open>What a text is drawn as.\<close>

  \<^item> Utf16: text as the language keeps it, code units of 16 bits, and its encoding to UTF-8.
    Regex: the backtracking regular expressions of the language, so that the expressions of the
    source are data the model runs. The theories of this group keep text in this form.
  \<^item> JsonTokens: lib/jsonTokens.ts, against the grammar of JSON documents. BodyText: the kind, the
    hex dump and the truncation of a body, of lib/time.ts.
  \<^item> MarkdownBlocks: \<open>parseBlocks\<close> of components/markdown.tsx. MarkdownRead: a writer of blocks, and
    that what it writes is read back. MarkdownInline: the inline scanner of the same file, which
    calls itself on what it has captured, and the nodes the component draws.

  \<^bold>\<open>Connections.\<close>

  \<^item> ConnProfile: internal/model/profile.go, the types of internal/bridge/connection.go, the
    credential modes, and the rules of internal/service/connection/validation.go.
  \<^item> ConnStore: internal/service/connection and the client registry of internal/driver. Every
    operation on the profiles; whether a save succeeds, whether a broker answers and the clock
    are arguments.
  \<^item> ConnInvariant: the invariant of the store (\<open>conn_ok\<close>) over every sequence of operations
    (\<open>conn_step\<close>, \<open>conn_reachable\<close>).
  \<^item> DraftBase, DraftsClassic, DraftsBrokers, DraftsHosted: the fifteen forms of
    ConnectionForms.tsx as records and, from connectionDraft.ts, what each submits and what a
    saved profile opens on; the locale \<open>draft_form\<close> is the contract a family owes.
    DraftDispatch is the dispatch over the families.
  \<^item> ConnEdit: the bridge over the store, and what a whole edit does: form, submission,
    credentials mode, store, client.
  \<^item> ConnValidation: connectionValidation.ts, every refusal in its order. ConnSubmit: a form the
    dialog lets through against what the service accepts.
  \<^item> RedisDial: internal/driver/redisstream/client.go, from a profile to a client configuration.
  \<^item> Protocols: design/data/protocols.ts. ConnRows: design/data/connections.ts and
    connectionSelection.ts. ConnBulk: hooks/useConnectionProfiles.ts and useConnectionBulk.tsx.

  \<^bold>\<open>What the lemmas show.\<close> The families: no alert without its switch, no rule the settings do
  not offer, thresholds that disable, sentences that have their fields. The merge: exactly the
  observed alerts are firing, exactly the new episodes are announced, a failed poll concludes
  nothing, a repeated observation is silent. The centre: its invariant over every interleaving,
  and what its actions change. The dock: what it shows is always a prefix of what happened. The
  store: ids, the default, and clients that are never older than their profile; failed saves
  change nothing; secrets follow the mode; an untouched form changes nothing; what is tested is
  what is dialled. The window: the tab in front is open, what is written is what is restored, the
  pages are those of the family. The tail: every message between two cursors is shown once or
  counted as dropped. The live streams: a reader gets everything that was not overwritten before
  it asked, once and in order, and a stream keeps its subscription but for the crossings, failed
  renewals and unasked unsubscriptions that are shown to silence one. The texts: no
  character of a body is lost or moved by its colouring, Markdown is read as it was written, and
  no link leads anywhere but to the web. Where the code departs from its own comments the
  departure is itself a theorem.

  \<^bold>\<open>Conventions.\<close> A dictionary is its entries in enumeration order. \<open>null\<close> and \<open>undefined\<close> are
  \<open>None\<close>. Attribute bags are association lists whose first entry of a key counts. Integers are
  unbounded (the counts are broker figures far below \<open>2 ^ 53\<close>), but for the ids of connections:
  the next id is a 64-bit integer that wraps (\<open>go_int\<close>). The states of the store are those reached
  from files and additions whose ids leave room to count (\<open>ids_fit\<close>, \<open>conn_step\<close>); that a file with
  the largest id makes the next one negative is proved as well (\<open>largest_id_wraps\<close>). A string is a list of 8-bit
  characters, so text outside Latin-1 is not represented; only the theories over Utf16 keep it
  as units of 16 bits. Every function is total and
  evaluates; no fuel is used.

  \<^bold>\<open>Parameters.\<close> The backend's answers to a sweep are arguments, where \<open>None\<close> is a request that
  failed; so are the clock, whether storage can be written, whether a client can be opened, the
  application settings, the translation of a message (\<open>t\<close>), which kinds need an address (the
  drivers register that, \<open>needs\<close>), the collation of labels, what an endpoint answers when it is
  dialled, whether \<open>JSON.parse\<close> accepts a text, and the route, the ends and the pulls of the RocketMQ client (\<open>pull_documented\<close> is
  what is relied on of a pull).

  \<^bold>\<open>Not modelled.\<close> The boards and dialogs (drawing), the API wrappers and query hooks (one
  backend call each), the translations, sorting by collation, the latency label, the times of
  lib/time.ts (Date and Intl) and the classes and icons Markdown is drawn with; of the forms, the JSON text that keys a probe; of the connection service, restoring a backup, the
  read-only opening, sealing the file and the locks (an operation is one step); of the
  assistant, the model service, its tools and the conversations read back from the archive; of the
  drivers, the calls themselves, the tails other than RocketMQ's and the NATS streams; and the rest of the
  Go side.
\<close>

end
